(* ===== verification/Prelude.thy ===== *)
theory Prelude
  imports Main "HOL-Library.Word" "HOL-Library.Multiset"
begin

text \<open>
  Shared vocabulary of the development.

  \<^item> \<open>prog\<close>: a C++ member function as a state transformer whose result says how the call
    ends: it returns (\<open>Val\<close>), an exception leaves it (\<open>Exn\<close>), it waits on a
    condition variable that nobody signals (\<open>Waits\<close>), or it runs into undefined behaviour
    or \<open>std::terminate\<close> (\<open>Crash\<close>). The state after the call is part of every result,
    because the server goes on after an exception.
  \<^item> \<open>to_string\<close>, \<open>stoi\<close>, \<open>stol\<close>, \<open>getline_split\<close>, \<open>be16\<close>: the parts of the C++
    standard library and of the network byte order functions the sources use.
  \<^item> generic lemmas on these, and the named collections of rewrite rules that the component
    theories extend.
\<close>

named_theorems prog_defs "unfolding of the control operators of prog"
named_theorems pool_defs "operations of the connection pools"
named_theorems redis_defs "operations of RedisManager"
named_theorems dao_defs "operations of the MySQL data access objects"
named_theorems wire_defs "frames on the chat TCP connection"

section \<open>Results of C++ calls\<close>

datatype cpp_exn =
    JsonLogicError       \<comment> \<open>\<open>Json::LogicError\<close>, a value of the wrong type\<close>
  | InvalidArgument      \<comment> \<open>\<open>std::invalid_argument\<close>, \<open>std::stoi\<close> without digits\<close>
  | OutOfRange           \<comment> \<open>\<open>std::out_of_range\<close>\<close>
  | RuntimeError string  \<comment> \<open>\<open>std::runtime_error\<close>\<close>
  | SQLException         \<comment> \<open>\<open>sql::SQLException\<close>\<close>
  | BadAlloc             \<comment> \<open>\<open>std::bad_array_new_length\<close>\<close>

datatype 'a result = Val 'a | Exn cpp_exn | Waits | Crash

type_synonym ('s, 'a) prog = "'s \<Rightarrow> 'a result \<times> 's"

definition ret :: "'a \<Rightarrow> ('s, 'a) prog" where
  "ret x s = (Val x, s)"

definition raise :: "cpp_exn \<Rightarrow> ('s, 'a) prog" where
  "raise e s = (Exn e, s)"

definition crash :: "('s, 'a) prog" where
  "crash s = (Crash, s)"

definition waits :: "('s, 'a) prog" where
  "waits s = (Waits, s)"

definition bnd :: "('s, 'a) prog \<Rightarrow> ('a \<Rightarrow> ('s, 'b) prog) \<Rightarrow> ('s, 'b) prog" where
  "bnd m f s = (case m s of (r, t) \<Rightarrow>
     (case r of Val x \<Rightarrow> f x t | Exn e \<Rightarrow> (Exn e, t) | Waits \<Rightarrow> (Waits, t) | Crash \<Rightarrow> (Crash, t)))"

definition gets :: "('s \<Rightarrow> 'a) \<Rightarrow> ('s, 'a) prog" where
  "gets f s = (Val (f s), s)"

definition upd :: "('s \<Rightarrow> 's) \<Rightarrow> ('s, unit) prog" where
  "upd f s = (Val (), f s)"

text \<open>A call on a member object: the part \<open>get s\<close> of the state is run through \<open>m\<close>.\<close>

definition zoom :: "('s \<Rightarrow> 't) \<Rightarrow> ('t \<Rightarrow> 's \<Rightarrow> 's) \<Rightarrow> ('t, 'a) prog \<Rightarrow> ('s, 'a) prog" where
  "zoom get put m s = (case m (get s) of (r, t) \<Rightarrow> (r, put t s))"

text \<open>\<open>try { m } catch (std::exception\&) { h }\<close>.\<close>

definition catching :: "('s, 'a) prog \<Rightarrow> (cpp_exn \<Rightarrow> ('s, 'a) prog) \<Rightarrow> ('s, 'a) prog" where
  "catching m h s = (case m s of (r, t) \<Rightarrow> (case r of Exn e \<Rightarrow> h e t | _ \<Rightarrow> (r, t)))"

text \<open>\<open>try { m } catch (E\&) { h }\<close> for one class of exceptions.\<close>

definition catching_only :: "cpp_exn \<Rightarrow> ('s, 'a) prog \<Rightarrow> ('s, 'a) prog \<Rightarrow> ('s, 'a) prog" where
  "catching_only e m h s = (case m s of (r, t) \<Rightarrow> (if r = Exn e then h t else (r, t)))"

text \<open>A scope with a \<open>Defer\<close> object whose call \<open>fin\<close> does not throw.\<close>

definition finally_do :: "('s, 'a) prog \<Rightarrow> ('s \<Rightarrow> 's) \<Rightarrow> ('s, 'a) prog" where
  "finally_do m fin s = (case m s of (r, t) \<Rightarrow>
     (case r of Val x \<Rightarrow> (Val x, fin t) | Exn e \<Rightarrow> (Exn e, fin t) | Waits \<Rightarrow> (Waits, t) | Crash \<Rightarrow> (Crash, t)))"

text \<open>
  A scope with a \<open>Defer\<close> object and a local variable \<open>rt\<close> its closure captures by
  reference (the JSON reply under construction): the body runs on the state extended by the
  variable, and the deferred call reads the variable when the scope is left, by \<open>return\<close> or
  by an exception. An exception that leaves the deferred call itself leaves a destructor,
  which terminates the process.
\<close>

definition no_throw :: "('s, 'a) prog \<Rightarrow> ('s, 'a) prog" where
  "no_throw m = catching m (\<lambda>_. crash)"

definition with_defer :: "'v \<Rightarrow> ('s \<times> 'v, 'a) prog \<Rightarrow> ('v \<Rightarrow> ('s, unit) prog) \<Rightarrow> ('s, 'a) prog" where
  "with_defer v body fin s =
     (case body (s, v) of (r, (t, w)) \<Rightarrow>
       (case r of
          Val x \<Rightarrow> bnd (no_throw (fin w)) (\<lambda>_. ret x) t
        | Exn e \<Rightarrow> bnd (no_throw (fin w)) (\<lambda>_. raise e) t
        | Waits \<Rightarrow> (Waits, t)
        | Crash \<Rightarrow> (Crash, t)))"

definition outer :: "('s, 'a) prog \<Rightarrow> ('s \<times> 'v, 'a) prog" where
  "outer m = zoom fst (\<lambda>t (_, v). (t, v)) m"

text \<open>A local variable \<open>v\<close> of a function that ends by returning it.\<close>

definition collect :: "'v \<Rightarrow> ('s \<times> 'v, unit) prog \<Rightarrow> ('s, 'v) prog" where
  "collect v body s =
     (case body (s, v) of (r, (t, w)) \<Rightarrow>
        (case r of Val _ \<Rightarrow> (Val w, t) | Exn e \<Rightarrow> (Exn e, t) | Waits \<Rightarrow> (Waits, t) | Crash \<Rightarrow> (Crash, t)))"

definition local_upd :: "('v \<Rightarrow> 'v) \<Rightarrow> ('s \<times> 'v, unit) prog" where
  "local_upd f = upd (\<lambda>(s, v). (s, f v))"

fun forM :: "('a \<Rightarrow> ('s, unit) prog) \<Rightarrow> 'a list \<Rightarrow> ('s, unit) prog" where
  "forM f [] = ret ()"
| "forM f (x # xs) = bnd (f x) (\<lambda>_. forM f xs)"

definition from_sum :: "cpp_exn + 'a \<Rightarrow> ('s, 'a) prog" where
  "from_sum r = (case r of Inl e \<Rightarrow> raise e | Inr x \<Rightarrow> ret x)"

lemmas [prog_defs] = ret_def raise_def crash_def waits_def bnd_def gets_def upd_def zoom_def
  catching_def catching_only_def finally_do_def no_throw_def with_defer_def outer_def collect_def local_upd_def from_sum_def

lemma bnd_assoc: "bnd (bnd m f) g = bnd m (\<lambda>x. bnd (f x) g)"
  by (rule ext) (simp add: bnd_def split: prod.splits result.splits)

lemma bnd_ret [simp]: "bnd (ret x) f = f x" "bnd m ret = m"
  by (rule ext, simp add: bnd_def ret_def split: prod.splits result.splits)+

lemma bnd_ValD:
  "bnd m f s = (Val y, u) \<Longrightarrow> \<exists>x t. m s = (Val x, t) \<and> f x t = (Val y, u)"
  by (auto simp: bnd_def split: prod.splits result.splits)

lemma forM_append: "forM f (xs @ ys) = bnd (forM f xs) (\<lambda>_. forM f ys)"
  by (induction xs) (simp_all add: bnd_assoc)

text \<open>A state predicate that one call keeps, whatever way the call ends.\<close>

definition keeps :: "('s \<Rightarrow> bool) \<Rightarrow> ('s, 'a) prog \<Rightarrow> bool" where
  "keeps I m \<longleftrightarrow> (\<forall>s. I s \<longrightarrow> I (snd (m s)))"

lemma keepsD: "keeps I m \<Longrightarrow> I s \<Longrightarrow> m s = (r, t) \<Longrightarrow> I t"
  by (auto simp: keeps_def dest!: spec [of _ s])

lemma keeps_basic [intro, simp]:
  "keeps I (ret x)" "keeps I (raise e)" "keeps I crash" "keeps I waits" "keeps I (gets f)"
  by (simp_all add: keeps_def ret_def raise_def crash_def waits_def gets_def)

lemma keeps_bnd [intro]: "keeps I m \<Longrightarrow> (\<And>x. keeps I (f x)) \<Longrightarrow> keeps I (bnd m f)"
  by (fastforce simp: keeps_def bnd_def split: prod.splits result.splits)

lemma keeps_catching [intro]:
  "keeps I m \<Longrightarrow> (\<And>e. keeps I (h e)) \<Longrightarrow> keeps I (catching m h)"
  by (fastforce simp: keeps_def catching_def split: prod.splits result.splits)

lemma keeps_forM [intro]: "(\<And>x. keeps I (f x)) \<Longrightarrow> keeps I (forM f xs)"
  by (induction xs) auto

lemma keeps_cases:
  "(\<And>a b. keeps I (f a b)) \<Longrightarrow> keeps I (case p of (a, b) \<Rightarrow> f a b)"
  "keeps I q \<Longrightarrow> keeps I q' \<Longrightarrow> keeps I (if c then q else q')"
  "keeps I q \<Longrightarrow> (\<And>x. keeps I (g x)) \<Longrightarrow> keeps I (case y of None \<Rightarrow> q | Some x \<Rightarrow> g x)"
  by (simp_all split: prod.split option.split)

lemma keeps_zoom:
  assumes "\<And>s x. I s \<Longrightarrow> I (put x s)"
  shows "keeps I (zoom get put m)"
  using assms by (auto simp: keeps_def zoom_def split: prod.splits)

lemma keeps_upd: "(\<And>s. I s \<Longrightarrow> I (f s)) \<Longrightarrow> keeps I (upd f)"
  by (simp add: keeps_def upd_def)

lemma keeps_outer [intro]: "keeps I m \<Longrightarrow> keeps (I \<circ> fst) (outer m)"
  by (fastforce simp: keeps_def outer_def zoom_def split: prod.splits)

lemma keeps_local_upd [intro, simp]: "keeps (I \<circ> fst) (local_upd f)"
  by (auto simp: keeps_def local_upd_def upd_def)

lemma keeps_from_sum [intro, simp]: "keeps I (from_sum x)"
  by (auto simp: keeps_def from_sum_def ret_def raise_def split: sum.splits)

lemma keeps_with_defer:
  assumes "keeps (I \<circ> fst) body" and "\<And>v. keeps I (fin v)"
  shows "keeps I (with_defer v body fin)"
  unfolding keeps_def
proof (intro allI impI)
  fix s assume s: "I s"
  obtain r t w where run: "body (s, v) = (r, (t, w))" by (metis prod.collapse)
  have "I t" using keepsD [OF assms(1) _ run] s by simp
  moreover have k: "keeps I (bnd (no_throw (fin w)) (\<lambda>_. p))" if "keeps I p" for p :: "('a, 'c) prog"
    unfolding no_throw_def by (intro keeps_bnd keeps_catching keeps_basic assms(2) that)
  moreover note k [OF keeps_basic(1)] k [OF keeps_basic(2)]
  ultimately show "I (snd (with_defer v body fin s))"
    using run by (auto simp: with_defer_def keeps_def split: result.splits)
qed

lemma keeps_collect: "keeps (I \<circ> fst) body \<Longrightarrow> keeps I (collect v body)"
proof (unfold keeps_def, intro allI impI)
  fix s assume k: "\<forall>x. (I \<circ> fst) x \<longrightarrow> (I \<circ> fst) (snd (body x))" and s: "I s"
  obtain r t w where b: "body (s, v) = (r, (t, w))" by (cases "body (s, v)") auto
  have "I t" using k [rule_format, of "(s, v)"] s b by simp
  then show "I (snd (collect v body s))" by (cases r) (simp_all add: collect_def b)
qed

lemma with_defer_Val:
  assumes "body (s, v) = (Val x, (t, w))" and "fin w t = (Val (), u)"
  shows "with_defer v body fin s = (Val x, u)"
  using assms by (simp add: with_defer_def bnd_def no_throw_def catching_def ret_def)

lemma with_defer_ValD:
  assumes "with_defer v body fin s = (Val x, u)"
  shows "\<exists>t w. body (s, v) = (Val x, (t, w)) \<and> fin w t = (Val (), u)"
  using assms
  by (auto simp: with_defer_def bnd_def no_throw_def catching_def ret_def raise_def crash_def
      split: prod.splits result.splits)

lemma outer_pair: "outer m (s, v) = (case m s of (r, t) \<Rightarrow> (r, (t, v)))"
  by (simp add: outer_def zoom_def)

section \<open>Characters and decimal numbers\<close>

definition is_digit :: "char \<Rightarrow> bool" where
  "is_digit c \<longleftrightarrow> 48 \<le> (of_char c :: nat) \<and> (of_char c :: nat) \<le> 57"

text \<open>\<open>isspace\<close> in the C locale: tab, line feed, vertical tab, form feed, carriage return, space.\<close>

definition is_space :: "char \<Rightarrow> bool" where
  "is_space c \<longleftrightarrow> (of_char c :: nat) = 32 \<or> (9 \<le> (of_char c :: nat) \<and> (of_char c :: nat) \<le> 13)"

definition is_alpha :: "char \<Rightarrow> bool" where
  "is_alpha c \<longleftrightarrow> (65 \<le> (of_char c :: nat) \<and> (of_char c :: nat) \<le> 90) \<or>
     (97 \<le> (of_char c :: nat) \<and> (of_char c :: nat) \<le> 122)"

definition is_alnum :: "char \<Rightarrow> bool" where
  "is_alnum c \<longleftrightarrow> is_alpha c \<or> is_digit c"

definition digit_char :: "nat \<Rightarrow> char" where
  "digit_char d = char_of (48 + d)"

fun nat_to_string :: "nat \<Rightarrow> string" where
  "nat_to_string n =
     (if n < 10 then [digit_char n] else nat_to_string (n div 10) @ [digit_char (n mod 10)])"

declare nat_to_string.simps [simp del]

text \<open>\<open>std::to_string\<close> on integers.\<close>

definition to_string :: "int \<Rightarrow> string" where
  "to_string i = (if i < 0 then CHR ''-'' # nat_to_string (nat (- i)) else nat_to_string (nat i))"

definition digits_value :: "string \<Rightarrow> nat" where
  "digits_value ds = foldl (\<lambda>a c. 10 * a + (of_char c - 48)) 0 ds"

text \<open>
  \<open>std::stoi\<close> and \<open>std::stol\<close>: leading white space, an optional sign, the longest run of
  digits; no digit is \<open>std::invalid_argument\<close>, a value outside the type
  \<open>std::out_of_range\<close>; what follows the digits is ignored.
\<close>

definition parse_sign :: "string \<Rightarrow> bool \<times> string" where
  "parse_sign t = (case t of [] \<Rightarrow> (False, t)
     | c # u \<Rightarrow> if c = CHR ''-'' then (True, u) else if c = CHR ''+'' then (False, u) else (False, t))"

definition sto :: "int \<Rightarrow> int \<Rightarrow> string \<Rightarrow> cpp_exn + int" where
  "sto lo hi s =
     (let (neg, u) = parse_sign (dropWhile is_space s); ds = takeWhile is_digit u in
      if ds = [] then Inl InvalidArgument
      else (let v = (if neg then - int (digits_value ds) else int (digits_value ds)) in
            if lo \<le> v \<and> v \<le> hi then Inr v else Inl OutOfRange))"

definition INT_MAX :: int where "INT_MAX = 2147483647"
definition INT_MIN :: int where "INT_MIN = - 2147483648"

definition stoi :: "string \<Rightarrow> cpp_exn + int" where
  "stoi = sto INT_MIN INT_MAX"

definition stol :: "string \<Rightarrow> cpp_exn + int" where
  "stol = sto (- (2 ^ 63)) (2 ^ 63 - 1)"

lemma of_char_digit [simp]: "d < 10 \<Longrightarrow> (of_char (digit_char d) :: nat) = 48 + d"
  by (simp add: digit_char_def)

lemma is_digit_digit_char [simp]: "d < 10 \<Longrightarrow> is_digit (digit_char d)"
  by (simp add: is_digit_def)

lemma digits_value_snoc [simp]: "digits_value (ds @ [c]) = 10 * digits_value ds + (of_char c - 48)"
  by (simp add: digits_value_def)

lemma nat_to_string_nonempty [simp]: "nat_to_string n \<noteq> []"
  by (subst nat_to_string.simps) simp

lemma nat_to_string_digits: "c \<in> set (nat_to_string n) \<Longrightarrow> is_digit c"
proof (induction n rule: nat_to_string.induct)
  case (1 n)
  then show ?case
    by (subst (asm) nat_to_string.simps) (auto split: if_splits)
qed

lemma digits_value_nat_to_string [simp]: "digits_value (nat_to_string n) = n"
proof (induction n rule: nat_to_string.induct)
  case (1 n)
  show ?case
  proof (cases "n < 10")
    case True
    then show ?thesis by (subst nat_to_string.simps) (simp add: digits_value_def)
  next
    case False
    with 1 show ?thesis by (subst nat_to_string.simps) simp
  qed
qed

lemma takeWhile_nat_to_string [simp]: "takeWhile is_digit (nat_to_string n) = nat_to_string n"
  by (simp add: nat_to_string_digits)

lemma parse_sign_digits:
  assumes "ds \<noteq> []" and "\<And>c. c \<in> set ds \<Longrightarrow> is_digit c"
  shows "parse_sign (dropWhile is_space ds) = (False, ds)"
proof -
  obtain c cs where ds: "ds = c # cs" using assms(1) by (cases ds) auto
  have "is_digit c" using assms(2) ds by simp
  then have "\<not> is_space c" "c \<noteq> CHR ''-''" "c \<noteq> CHR ''+''"
    by (auto simp: is_digit_def is_space_def)
  then show ?thesis by (simp add: ds parse_sign_def)
qed

lemma sto_to_string:
  assumes "lo \<le> i" and "i \<le> hi"
  shows "sto lo hi (to_string i) = Inr i"
proof (cases "i < 0")
  case True
  then have "to_string i = CHR ''-'' # nat_to_string (nat (- i))" by (simp add: to_string_def)
  moreover have "\<not> is_space (CHR ''-'')" by (simp add: is_space_def)
  ultimately show ?thesis
    using True assms by (simp add: sto_def parse_sign_def)
next
  case False
  then have s: "to_string i = nat_to_string (nat i)" by (simp add: to_string_def)
  have "parse_sign (dropWhile is_space (nat_to_string (nat i))) = (False, nat_to_string (nat i))"
    by (rule parse_sign_digits) (auto dest: nat_to_string_digits)
  with False assms show ?thesis by (simp add: sto_def s)
qed

lemma stoi_to_string [simp]: "INT_MIN \<le> i \<Longrightarrow> i \<le> INT_MAX \<Longrightarrow> stoi (to_string i) = Inr i"
  by (simp add: stoi_def sto_to_string)

lemma stol_to_string [simp]: "- (2 ^ 63) \<le> i \<Longrightarrow> i < 2 ^ 63 \<Longrightarrow> stol (to_string i) = Inr i"
  by (simp add: stol_def sto_to_string)

lemma to_string_inj: "to_string i = to_string j \<longleftrightarrow> i = j"
proof
  assume eq: "to_string i = to_string j"
  have "sto (min i j) (max i j) (to_string i) = Inr i"
    by (rule sto_to_string) auto
  moreover have "sto (min i j) (max i j) (to_string j) = Inr j"
    by (rule sto_to_string) auto
  ultimately have "(Inr i :: cpp_exn + int) = Inr j" by (simp only: eq)
  then show "i = j" by simp
qed simp

lemma to_string_0 [simp]: "to_string 0 = ''0''" and to_string_1 [simp]: "to_string 1 = ''1''"
  by code_simp+

lemma to_string_nonempty [simp]: "to_string i \<noteq> []"
  by (simp add: to_string_def)

lemma to_string_no_char:
  assumes "c \<in> set (to_string i)"
  shows "c = CHR ''-'' \<or> is_digit c"
  using assms by (auto simp: to_string_def dest: nat_to_string_digits split: if_splits)

lemma stoi_empty [simp]: "stoi [] = Inl InvalidArgument"
  by (simp add: stoi_def sto_def parse_sign_def)

section \<open>Splitting strings\<close>

text \<open>\<open>s.find(c)\<close>, \<open>s.substr(0, pos)\<close> and \<open>s.substr(pos + 1)\<close> at once; \<open>None\<close> is \<open>npos\<close>.\<close>

fun split_at :: "char \<Rightarrow> string \<Rightarrow> (string \<times> string) option" where
  "split_at c [] = None"
| "split_at c (x # xs) = (if x = c then Some ([], xs)
     else map_option (\<lambda>(a, b). (x # a, b)) (split_at c xs))"

lemma split_at_None [simp]: "split_at c s = None \<longleftrightarrow> c \<notin> set s"
  by (induction s) auto

lemma split_at_SomeD: "split_at c s = Some (a, b) \<Longrightarrow> s = a @ c # b \<and> c \<notin> set a"
  by (induction s arbitrary: a) (auto split: if_splits)

lemma split_at_append [simp]: "c \<notin> set a \<Longrightarrow> split_at c (a @ c # b) = Some (a, b)"
  by (induction a) auto

lemma split_at_length: "split_at c s = Some (a, b) \<Longrightarrow> length b < length s"
  by (auto dest: split_at_SomeD)

text \<open>
  The loop \<open>while (std::getline(ss, item, d)) v.push_back(item)\<close>: the pieces between the
  delimiters; text after the last delimiter is a piece when it is not empty.
\<close>

function getline_split :: "char \<Rightarrow> string \<Rightarrow> string list" where
  "getline_split d s = (if s = [] then [] else
     (case split_at d s of None \<Rightarrow> [s] | Some (a, b) \<Rightarrow> a # getline_split d b))"
  by pat_completeness auto
termination
  by (relation "measure (\<lambda>(d, s). length s)") (auto dest: split_at_length)

declare getline_split.simps [simp del]

lemma getline_split_more: "d \<notin> set a \<Longrightarrow> getline_split d (a @ d # b) = a # getline_split d b"
  by (subst getline_split.simps) simp

lemma getline_split_last: "d \<notin> set a \<Longrightarrow> a \<noteq> [] \<Longrightarrow> getline_split d a = [a]"
  by (subst getline_split.simps) (simp add: split_at_None [THEN iffD2] del: split_at_None)

lemma getline_split_no_delim: "x \<in> set (getline_split d s) \<Longrightarrow> d \<notin> set x"
proof (induction d s rule: getline_split.induct)
  case (1 d s)
  from 1(2) show ?case
    by (subst (asm) getline_split.simps)
      (auto split: if_splits option.splits dest: split_at_SomeD 1(1) [rotated])
qed

section \<open>Network byte order\<close>

text \<open>
  \<open>host_to_network_short\<close> followed by \<open>memcpy\<close> of the two bytes, and back: the more
  significant byte comes first on the wire.
\<close>

type_synonym i16 = "16 word"

definition be16 :: "i16 \<Rightarrow> string" where
  "be16 w = [char_of (unat w div 256), char_of (unat w mod 256)]"

definition from_be16 :: "char \<Rightarrow> char \<Rightarrow> i16" where
  "from_be16 a b = word_of_nat (of_char a * 256 + of_char b)"

lemma length_be16 [simp]: "length (be16 w) = 2"
  by (simp add: be16_def)

lemma unat_i16_less: "unat (w :: i16) < 65536"
  using unsigned_less [of w, where 'a = nat] by simp

lemma from_be16_be16 [simp]:
  "from_be16 (char_of (unat w div 256)) (char_of (unat w mod 256)) = w"
proof -
  have "unat w div 256 < 256" using unat_i16_less [of w] by (simp add: less_mult_imp_div_less)
  then show ?thesis by (simp add: from_be16_def)
qed

lemma sint_i16: "sint (w :: i16) = (if unat w < 32768 then int (unat w) else int (unat w) - 65536)"
proof -
  have w: "0 \<le> uint w" "uint w < 65536"
    using unsigned_less [of w, where 'a = int] by simp_all
  have "sint w = (uint w + 32768) mod 65536 - 32768"
    by (simp add: sint_uint signed_take_bit_eq_take_bit_shift take_bit_eq_mod)
  also have "\<dots> = (if uint w < 32768 then uint w else uint w - 65536)"
  proof (cases "uint w < 32768")
    case False
    have "(uint w + 32768) mod 65536 = (uint w - 32768 + 65536) mod 65536" by (simp add: add.commute)
    also have "\<dots> = uint w - 32768"
      by (subst mod_add_self2, rule mod_pos_pos_trivial) (use False w in linarith)+
    finally show ?thesis using False by simp
  qed (use w in simp)
  finally have "sint w = (if uint w < 32768 then uint w else uint w - 65536)" .
  moreover have "uint w = int (unat w)" by simp
  ultimately show ?thesis by (simp only: of_nat_less_numeral_iff)
qed

lemma unat_of_nat_i16: "n < 65536 \<Longrightarrow> unat (word_of_nat n :: i16) = n"
  by (simp add: unat_of_nat)

end
