(* ===== verification/ConnPool.thy ===== *)
theory ConnPool
  imports Prelude
begin

text \<open>
  The five connection pools of the servers: \<open>RedisConnectPool\<close>, \<open>MySQLConnectPool\<close>,
  \<open>ChatConPool\<close>, \<open>StatusConnectPool\<close> and \<open>GPCConnectPool\<close>. Each keeps a queue of idle
  connections and a stop flag. \<open>getConnection\<close> waits on a condition variable while the queue
  is empty and the pool is not stopped: for the calling thread that is \<open>Waits\<close>.

  The locale \<open>pool_interface\<close> states what a pool promises its clients, \<open>pool_with_upkeep\<close> adds the keep-alive
  check; \<open>pool_run\<close> interleaves the calls of any number of threads, and the lemmas of the locale show that
  no connection is lost or handed to two threads. All five pools interpret it.
\<close>

record 'c conn_pool =
  connections :: "'c list"   \<comment> \<open>\<open>_connections\<close>, \<open>_pool\<close>, \<open>_stub_queue\<close>: front first\<close>
  is_stop :: bool            \<comment> \<open>\<open>_is_stop\<close>, \<open>_b_stop\<close>\<close>

section \<open>RedisConnectPool\<close>

text \<open>
  What the \<open>i\<close>-th turn of the constructor's loop meets: no connection, or a connection and
  the reply to \<open>AUTH\<close> (a null reply is dereferenced by \<open>reply->type\<close>).
\<close>

datatype 'c redis_attempt = ConnectFailed | AuthNoReply | AuthError | AuthOk 'c

fun redis_connect_loop :: "(nat \<Rightarrow> 'c redis_attempt) \<Rightarrow> nat list \<Rightarrow> 'c list \<Rightarrow> 'c list result" where
  "redis_connect_loop att [] acc = Val acc"
| "redis_connect_loop att (i # is) acc =
     (case att i of
        ConnectFailed \<Rightarrow> redis_connect_loop att is acc
      | AuthNoReply \<Rightarrow> Crash
      | AuthError \<Rightarrow> redis_connect_loop att is acc
      | AuthOk c \<Rightarrow> redis_connect_loop att is (acc @ [c]))"

definition RedisConnectPool :: "nat \<Rightarrow> (nat \<Rightarrow> 'c redis_attempt) \<Rightarrow> 'c conn_pool result" where
  "RedisConnectPool pool_size att =
     (case redis_connect_loop att [0..<pool_size] [] of
        Val cs \<Rightarrow> Val \<lparr>connections = cs, is_stop = False\<rparr>
      | Exn e \<Rightarrow> Exn e | Waits \<Rightarrow> Waits | Crash \<Rightarrow> Crash)"

definition redis_getConnection :: "('c conn_pool, 'c option) prog" where
  "redis_getConnection p =
     (if is_stop p then (Val None, p)
      else (case connections p of
              [] \<Rightarrow> (Waits, p)
            | c # cs \<Rightarrow> (Val (Some c), p\<lparr>connections := cs\<rparr>)))"

definition redis_returnConnection :: "'c option \<Rightarrow> 'c conn_pool \<Rightarrow> 'c conn_pool" where
  "redis_returnConnection context p =
     (case context of
        None \<Rightarrow> p
      | Some c \<Rightarrow> if is_stop p then p else p\<lparr>connections := connections p @ [c]\<rparr>)"

definition redis_close :: "'c conn_pool \<Rightarrow> 'c conn_pool" where
  "redis_close p = p\<lparr>is_stop := True\<rparr>"

section \<open>MySQLConnectPool\<close>

record 'c SqlConnection =
  sql_connection :: 'c
  last_oper_time :: int

text \<open>
  The constructor's loop: \<open>att i\<close> is the \<open>i\<close>-th \<open>driver->connect\<close> and \<open>setSchema\<close> with
  the time in seconds read after it; \<open>None\<close> is an \<open>sql::SQLException\<close>, which ends the loop.
\<close>

fun mysql_connect_loop :: "(nat \<Rightarrow> ('c \<times> int) option) \<Rightarrow> nat list \<Rightarrow> 'c SqlConnection list" where
  "mysql_connect_loop att [] = []"
| "mysql_connect_loop att (i # is) =
     (case att i of
        None \<Rightarrow> []
      | Some (c, timestamp) \<Rightarrow>
          \<lparr>sql_connection = c, last_oper_time = timestamp\<rparr> # mysql_connect_loop att is)"

definition MySQLConnectPool ::
    "nat \<Rightarrow> (nat \<Rightarrow> ('c \<times> int) option) \<Rightarrow> 'c SqlConnection conn_pool" where
  "MySQLConnectPool pool_size att =
     \<lparr>connections = mysql_connect_loop att [0..<pool_size], is_stop = False\<rparr>"

definition mysql_getConnection :: "('c conn_pool, 'c option) prog" where
  "mysql_getConnection p =
     (if is_stop p then (Val None, p)
      else (case connections p of
              [] \<Rightarrow> (Waits, p)
            | c # cs \<Rightarrow> (Val (Some c), p\<lparr>connections := cs\<rparr>)))"

definition mysql_returnConnection :: "'c \<Rightarrow> 'c conn_pool \<Rightarrow> 'c conn_pool" where
  "mysql_returnConnection c p =
     (if is_stop p then p else p\<lparr>connections := connections p @ [c]\<rparr>)"

definition mysql_close :: "'c conn_pool \<Rightarrow> 'c conn_pool" where
  "mysql_close p = p\<lparr>is_stop := True\<rparr>"

text \<open>
  \<open>checkConnection\<close>, run every 60 seconds by the check threads. \<open>ping\<close> is \<open>SELECT 1\<close> on the
  connection, \<open>reconnect\<close> the driver's \<open>connect\<close> and \<open>setSchema\<close>, \<open>None\<close> when it throws:
  that exception leaves \<open>checkConnection\<close>, after the deferred push of the old connection.
\<close>

definition check_one ::
    "int \<Rightarrow> ('c \<Rightarrow> bool) \<Rightarrow> ('c \<Rightarrow> 'c option) \<Rightarrow> 'c SqlConnection \<Rightarrow> 'c SqlConnection \<times> bool" where
  "check_one timestamp ping reconnect conn =
     (if timestamp - last_oper_time conn < 600 then (conn, True)
      else if ping (sql_connection conn) then (conn\<lparr>last_oper_time := timestamp\<rparr>, True)
      else (case reconnect (sql_connection conn) of
              Some newcon \<Rightarrow> (conn\<lparr>sql_connection := newcon, last_oper_time := timestamp\<rparr>, True)
            | None \<Rightarrow> (conn, False)))"

fun check_loop ::
    "int \<Rightarrow> ('c \<Rightarrow> bool) \<Rightarrow> ('c \<Rightarrow> 'c option) \<Rightarrow> nat \<Rightarrow> ('c SqlConnection conn_pool, unit) prog" where
  "check_loop timestamp ping reconnect 0 p = (Val (), p)"
| "check_loop timestamp ping reconnect (Suc n) p =
     (case connections p of
        [] \<Rightarrow> (Crash, p)
      | conn # cs \<Rightarrow>
          (case check_one timestamp ping reconnect conn of (conn', ok) \<Rightarrow>
             (let p' = p\<lparr>connections := cs @ [conn']\<rparr> in
              if ok then check_loop timestamp ping reconnect n p' else (Exn SQLException, p'))))"

definition checkConnection ::
    "int \<Rightarrow> ('c \<Rightarrow> bool) \<Rightarrow> ('c \<Rightarrow> 'c option) \<Rightarrow> ('c SqlConnection conn_pool, unit) prog" where
  "checkConnection timestamp ping reconnect p =
     check_loop timestamp ping reconnect (length (connections p)) p"

section \<open>ChatConPool, StatusConnectPool, GPCConnectPool\<close>

text \<open>Pools of gRPC stubs; \<open>new_stub i\<close> is the \<open>i\<close>-th \<open>NewStub(CreateChannel(host + ":" + port))\<close>.\<close>

definition ChatConPool :: "nat \<Rightarrow> (nat \<Rightarrow> 'c) \<Rightarrow> 'c conn_pool" where
  "ChatConPool pool_size new_stub = \<lparr>connections = map new_stub [0..<pool_size], is_stop = False\<rparr>"

definition chat_getConnection :: "('c conn_pool, 'c option) prog" where
  "chat_getConnection p =
     (if is_stop p then (Val None, p)
      else (case connections p of
              [] \<Rightarrow> (Waits, p)
            | c # cs \<Rightarrow> (Val (Some c), p\<lparr>connections := cs\<rparr>)))"

definition chat_returnConnection :: "'c \<Rightarrow> 'c conn_pool \<Rightarrow> 'c conn_pool" where
  "chat_returnConnection c p =
     (if is_stop p then p else p\<lparr>connections := connections p @ [c]\<rparr>)"

definition chat_close :: "'c conn_pool \<Rightarrow> 'c conn_pool" where
  "chat_close p = p\<lparr>is_stop := True\<rparr>"

definition StatusConnectPool :: "nat \<Rightarrow> (nat \<Rightarrow> 'c) \<Rightarrow> 'c conn_pool" where
  "StatusConnectPool pool_size new_stub = \<lparr>connections = map new_stub [0..<pool_size], is_stop = False\<rparr>"

definition status_getConnection :: "('c conn_pool, 'c option) prog" where
  "status_getConnection p =
     (if is_stop p then (Val None, p)
      else (case connections p of
              [] \<Rightarrow> (Waits, p)
            | c # cs \<Rightarrow> (Val (Some c), p\<lparr>connections := cs\<rparr>)))"

definition status_returnConnection :: "'c \<Rightarrow> 'c conn_pool \<Rightarrow> 'c conn_pool" where
  "status_returnConnection c p =
     (if is_stop p then p else p\<lparr>connections := connections p @ [c]\<rparr>)"

definition status_close :: "'c conn_pool \<Rightarrow> 'c conn_pool" where
  "status_close p = p\<lparr>is_stop := True\<rparr>"

definition GPCConnectPool :: "nat \<Rightarrow> (nat \<Rightarrow> 'c) \<Rightarrow> 'c conn_pool" where
  "GPCConnectPool pool_size new_stub = \<lparr>connections = map new_stub [0..<pool_size], is_stop = False\<rparr>"

definition gpc_getConnection :: "('c conn_pool, 'c option) prog" where
  "gpc_getConnection p =
     (if is_stop p then (Val None, p)
      else (case connections p of
              [] \<Rightarrow> (Waits, p)
            | c # cs \<Rightarrow> (Val (Some c), p\<lparr>connections := cs\<rparr>)))"

definition gpc_returnConnection :: "'c \<Rightarrow> 'c conn_pool \<Rightarrow> 'c conn_pool" where
  "gpc_returnConnection c p =
     (if is_stop p then p else p\<lparr>connections := connections p @ [c]\<rparr>)"

definition gpc_close :: "'c conn_pool \<Rightarrow> 'c conn_pool" where
  "gpc_close p = p\<lparr>is_stop := True\<rparr>"

lemmas [pool_defs] =
  redis_getConnection_def redis_returnConnection_def redis_close_def
  mysql_getConnection_def mysql_returnConnection_def mysql_close_def
  chat_getConnection_def chat_returnConnection_def chat_close_def
  status_getConnection_def status_returnConnection_def status_close_def
  gpc_getConnection_def gpc_returnConnection_def gpc_close_def

section \<open>Threads on one pool\<close>

text \<open>
  Interleavings of the critical sections: each event is one thread taking the pool's mutex for
  one call. \<open>held\<close> lists which thread holds which connection; a thread may hold several, and gives
  back one that it holds: \<open>Release t k\<close> is the one it took as the \<open>k\<close>-th from last. \<open>Upkeep\<close> is the
  keep-alive check, which only the MySQL pool has.
\<close>

datatype 'x pool_event = Acquire nat | Release nat nat | Upkeep 'x | Close

definition held_by :: "nat \<Rightarrow> (nat \<times> 'c) list \<Rightarrow> (nat \<times> 'c) list" where
  "held_by t held = filter (\<lambda>h. fst h = t) held"

fun pool_step ::
    "('p \<Rightarrow> 'c option result \<times> 'p) \<Rightarrow> ('c \<Rightarrow> 'p \<Rightarrow> 'p) \<Rightarrow> ('p \<Rightarrow> 'p) \<Rightarrow> ('x \<Rightarrow> 'p \<Rightarrow> 'p) \<Rightarrow>
     'x pool_event \<Rightarrow> 'p \<times> (nat \<times> 'c) list \<Rightarrow> 'p \<times> (nat \<times> 'c) list" where
  "pool_step get put shut upkeep (Acquire t) (p, held) =
     (case get p of (r, p') \<Rightarrow> (case r of Val (Some c) \<Rightarrow> (p', (t, c) # held) | _ \<Rightarrow> (p', held)))"
| "pool_step get put shut upkeep (Release t k) (p, held) =
     (if k < length (held_by t held) then (put (snd (held_by t held ! k)) p, remove1 (held_by t held ! k) held) else (p, held))"
| "pool_step get put shut upkeep (Upkeep x) (p, held) = (upkeep x p, held)"
| "pool_step get put shut upkeep Close (p, held) = (shut p, held)"

definition pool_run ::
    "('p \<Rightarrow> 'c option result \<times> 'p) \<Rightarrow> ('c \<Rightarrow> 'p \<Rightarrow> 'p) \<Rightarrow> ('p \<Rightarrow> 'p) \<Rightarrow> ('x \<Rightarrow> 'p \<Rightarrow> 'p) \<Rightarrow>
     'x pool_event list \<Rightarrow> 'p \<times> (nat \<times> 'c) list \<Rightarrow> 'p \<times> (nat \<times> 'c) list" where
  "pool_run get put shut upkeep evs st = foldl (\<lambda>st e. pool_step get put shut upkeep e st) st evs"

lemma held_by_nth: "k < length (held_by t held) \<Longrightarrow> held_by t held ! k \<in> set held"
  using nth_mem [of k "held_by t held"] by (simp add: held_by_def)

lemma mset_map_remove1: "x \<in> set xs \<Longrightarrow> mset (map f xs) = add_mset (f x) (mset (map f (remove1 x xs)))"
  by (induction xs) auto

locale pool_interface =
  fixes get :: "'p \<Rightarrow> 'c option result \<times> 'p"
    and put :: "'c \<Rightarrow> 'p \<Rightarrow> 'p"
    and shut :: "'p \<Rightarrow> 'p"
    and idle :: "'p \<Rightarrow> 'c list"
    and halted :: "'p \<Rightarrow> bool"
  assumes get_halted: "halted p \<Longrightarrow> get p = (Val None, p)"
    and get_empty: "\<not> halted p \<Longrightarrow> idle p = [] \<Longrightarrow> get p = (Waits, p)"
    and get_front: "\<not> halted p \<Longrightarrow> idle p = c # cs \<Longrightarrow>
        \<exists>p'. get p = (Val (Some c), p') \<and> idle p' = cs \<and> \<not> halted p'"
    and put_halted: "halted p \<Longrightarrow> put c p = p"
    and put_back: "\<not> halted p \<Longrightarrow> idle (put c p) = idle p @ [c] \<and> \<not> halted (put c p)"
    and shut_halted: "halted (shut p)"
    and shut_idle: "idle (shut p) = idle p"
begin

lemma get_cases:
  obtains "get p = (Val None, p)" "halted p"
  | "get p = (Waits, p)" "\<not> halted p" "idle p = []"
  | c cs p' where "get p = (Val (Some c), p')" "\<not> halted p" "idle p = c # cs" "idle p' = cs" "\<not> halted p'"
proof (cases "halted p")
  case True
  then show ?thesis using get_halted that(1) by blast
next
  case False
  show ?thesis
  proof (cases "idle p")
    case Nil
    then show ?thesis using False get_empty that(2) by blast
  next
    case (Cons c cs)
    then show ?thesis using False get_front that(3) by blast
  qed
qed

end

text \<open>
  A pool with upkeep: the check may renew what is behind a connection, but not which connection it is.
  \<open>ident\<close> tells connections apart.
\<close>

locale pool_with_upkeep = pool_interface get put shut idle halted
  for get :: "'p \<Rightarrow> 'c option result \<times> 'p" and put shut idle halted +
  fixes upkeep :: "'x \<Rightarrow> 'p \<Rightarrow> 'p" and ident :: "'c \<Rightarrow> 'i"
  assumes upkeep_idle: "mset (map ident (idle (upkeep x p))) = mset (map ident (idle p))"
    and upkeep_halted: "halted (upkeep x p) = halted p"
begin

lemma step_conserves:
  assumes "\<not> halted p" and "e \<noteq> Close" and "pool_step get put shut upkeep e (p, held) = (p', held')"
  shows "\<not> halted p' \<and> mset (map ident (idle p')) + mset (map (ident \<circ> snd) held') =
    mset (map ident (idle p)) + mset (map (ident \<circ> snd) held)"
proof (cases e)
  case (Acquire t)
  show ?thesis
    by (rule get_cases [of p]) (use assms Acquire in auto)
next
  case (Release t k)
  show ?thesis
  proof (cases "k < length (held_by t held)")
    case False
    then show ?thesis using assms Release by simp
  next
    case True
    let ?h = "held_by t held ! k"
    have "mset (map (ident \<circ> snd) held) = add_mset ((ident \<circ> snd) ?h) (mset (map (ident \<circ> snd) (remove1 ?h held)))"
      by (rule mset_map_remove1 [OF held_by_nth [OF True]])
    then show ?thesis using assms Release True put_back [of p "snd ?h"] by auto
  qed
next
  case (Upkeep x)
  then show ?thesis using assms upkeep_idle [of x p] upkeep_halted [of x p] by auto
next
  case Close
  then show ?thesis using assms(2) by simp
qed

lemma run_conserves:
  assumes "\<not> halted p" and "Close \<notin> set evs" and "pool_run get put shut upkeep evs (p, held) = (p', held')"
  shows "\<not> halted p' \<and> mset (map ident (idle p')) + mset (map (ident \<circ> snd) held') =
    mset (map ident (idle p)) + mset (map (ident \<circ> snd) held)"
  using assms
proof (induction evs arbitrary: p held)
  case Nil
  then show ?case by (simp add: pool_run_def)
next
  case (Cons e evs)
  obtain q h where q: "pool_step get put shut upkeep e (p, held) = (q, h)" by fastforce
  have *: "\<not> halted q \<and> mset (map ident (idle q)) + mset (map (ident \<circ> snd) h) =
      mset (map ident (idle p)) + mset (map (ident \<circ> snd) held)"
    by (rule step_conserves [OF _ _ q]) (use Cons.prems in auto)
  have run: "pool_run get put shut upkeep evs (q, h) = (p', held')"
    using Cons.prems(3) q by (simp add: pool_run_def)
  have "\<not> halted p' \<and> mset (map ident (idle p')) + mset (map (ident \<circ> snd) held') =
      mset (map ident (idle q)) + mset (map (ident \<circ> snd) h)"
    by (rule Cons.IH [OF _ _ run]) (use * Cons.prems(2) in simp_all)
  then show ?case using * by argo
qed

text \<open>No connection is lost and none is in the hands of two threads.\<close>

lemma run_exclusive:
  assumes "\<not> halted p" and "Close \<notin> set evs" and "pool_run get put shut upkeep evs (p, []) = (p', held')"
    and "distinct (map ident (idle p))"
  shows "distinct (map ident (idle p' @ map snd held')) \<and> set (map ident (idle p' @ map snd held')) = set (map ident (idle p))"
proof -
  have "mset (map ident (idle p' @ map snd held')) = mset (map ident (idle p))"
    using run_conserves [OF assms(1-3)] by simp
  then show ?thesis using assms(4) by (metis mset_eq_imp_distinct_iff mset_eq_setD)
qed

lemma run_halted:
  assumes "halted p" and "pool_run get put shut upkeep evs (p, held) = (p', held')"
  shows "get p' = (Val None, p')"
  using assms
proof (induction evs arbitrary: p held)
  case Nil
  then show ?case by (simp add: pool_run_def get_halted)
next
  case (Cons e evs)
  obtain q h where q: "pool_step get put shut upkeep e (p, held) = (q, h)" by fastforce
  have "halted q"
    using q Cons.prems(1) upkeep_halted by (cases e) (auto simp: get_halted put_halted shut_halted split: if_splits)
  moreover have "pool_run get put shut upkeep evs (q, h) = (p', held')"
    using Cons.prems(2) q by (simp add: pool_run_def)
  ultimately show ?case by (rule Cons.IH)
qed

end

text \<open>The pools without upkeep.\<close>

definition no_upkeep :: "unit \<Rightarrow> 'p \<Rightarrow> 'p" where
  "no_upkeep x p = p"

interpretation redis_pool: pool_with_upkeep
  redis_getConnection "\<lambda>c. redis_returnConnection (Some c)" redis_close connections is_stop no_upkeep "\<lambda>c. c"
  by unfold_locales (auto simp: pool_defs no_upkeep_def)

interpretation chat_pool: pool_with_upkeep
  chat_getConnection chat_returnConnection chat_close connections is_stop no_upkeep "\<lambda>c. c"
  by unfold_locales (auto simp: pool_defs no_upkeep_def)

interpretation status_pool: pool_with_upkeep
  status_getConnection status_returnConnection status_close connections is_stop no_upkeep "\<lambda>c. c"
  by unfold_locales (auto simp: pool_defs no_upkeep_def)

interpretation gpc_pool: pool_with_upkeep
  gpc_getConnection gpc_returnConnection gpc_close connections is_stop no_upkeep "\<lambda>c. c"
  by unfold_locales (auto simp: pool_defs no_upkeep_def)

section \<open>Constructors and the keep-alive check\<close>

lemma redis_connect_loop_length:
  "redis_connect_loop att is acc = Val cs \<Longrightarrow> length acc \<le> length cs \<and> length cs \<le> length acc + length is"
  by (induction att "is" acc rule: redis_connect_loop.induct) (fastforce split: redis_attempt.splits)+

lemma mysql_connect_loop_length: "length (mysql_connect_loop att is) \<le> length is"
  by (induction att "is" rule: mysql_connect_loop.induct) (auto split: option.splits)

lemma check_loop_ok:
  assumes "connections p = xs @ ys" and "n = length xs"
    and "\<And>c. \<not> ping c \<Longrightarrow> reconnect c \<noteq> None"
  shows "check_loop now ping reconnect n p =
      (Val (), p\<lparr>connections := ys @ map (fst \<circ> check_one now ping reconnect) xs\<rparr>)"
  using assms(1,2)
proof (induction xs arbitrary: n p ys)
  case Nil
  then show ?case by simp
next
  case (Cons x xs)
  have ok: "snd (check_one now ping reconnect x)"
    using assms(3) [of "sql_connection x"] by (auto simp: check_one_def split: option.splits)
  show ?case
    using Cons ok Cons.IH [of "p\<lparr>connections := xs @ (ys @ [fst (check_one now ping reconnect x)])\<rparr>"
        "ys @ [fst (check_one now ping reconnect x)]" "length xs"]
    by (auto split: prod.splits)
qed

lemma check_loop_size:
  assumes "check_loop now ping reconnect n p = (r, p')" and "n \<le> length (connections p)"
  shows "length (connections p') = length (connections p) \<and> is_stop p' = is_stop p \<and> r \<noteq> Crash \<and> r \<noteq> Waits"
  using assms
proof (induction n arbitrary: p)
  case 0
  then show ?case by auto
next
  case (Suc n)
  then show ?case
    by (fastforce split: list.splits prod.splits if_splits simp: Let_def)
qed

text \<open>
  The check as upkeep of the MySQL pool. An object of the pool is named by the first component of its
  handle, which \<open>reset\<close> on the object keeps; the second is the driver's connection.
\<close>

definition mysql_upkeep ::
    "int \<times> ('h \<Rightarrow> bool) \<times> ('h \<Rightarrow> 'h option) \<Rightarrow> ('i \<times> 'h) SqlConnection conn_pool \<Rightarrow> ('i \<times> 'h) SqlConnection conn_pool" where
  "mysql_upkeep = (\<lambda>(timestamp, ping, reconnect) p.
     snd (checkConnection timestamp (\<lambda>(i, h). ping h) (\<lambda>(i, h). map_option (Pair i) (reconnect h)) p))"

definition object_of :: "('i \<times> 'h) SqlConnection \<Rightarrow> 'i" where
  "object_of conn = fst (sql_connection conn)"

lemma object_of_check_one:
  "object_of (fst (check_one timestamp (\<lambda>(i, h). ping h) (\<lambda>(i, h). map_option (Pair i) (reconnect h)) conn)) = object_of conn"
  by (auto simp: check_one_def object_of_def split: option.splits prod.splits)

lemma check_loop_objects:
  "check_loop timestamp (\<lambda>(i, h). ping h) (\<lambda>(i, h). map_option (Pair i) (reconnect h)) n p = (r, p') \<Longrightarrow>
     mset (map object_of (connections p')) = mset (map object_of (connections p)) \<and> is_stop p' = is_stop p"
proof (induction n arbitrary: p)
  case (Suc n)
  show ?case
  proof (cases "connections p")
    case Nil
    then show ?thesis using Suc.prems by auto
  next
    case (Cons conn cs)
    obtain conn' ok where c: "check_one timestamp (\<lambda>(i, h). ping h) (\<lambda>(i, h). map_option (Pair i) (reconnect h)) conn = (conn', ok)"
      by fastforce
    then have "object_of conn' = object_of conn" using object_of_check_one [of timestamp ping reconnect conn] by simp
    then show ?thesis
      using Suc.prems Suc.IH [of "p\<lparr>connections := cs @ [conn']\<rparr>"] Cons c by (auto simp: Let_def split: if_splits)
  qed
qed auto

interpretation mysql_pool: pool_with_upkeep
  mysql_getConnection mysql_returnConnection mysql_close connections is_stop mysql_upkeep object_of
proof unfold_locales
  fix x :: "int \<times> ('h \<Rightarrow> bool) \<times> ('h \<Rightarrow> 'h option)" and p :: "('i \<times> 'h) SqlConnection conn_pool"
  obtain timestamp ping reconnect where x: "x = (timestamp, ping, reconnect)" by (cases x) auto
  obtain r p' where "checkConnection timestamp (\<lambda>(i, h). ping h) (\<lambda>(i, h). map_option (Pair i) (reconnect h)) p = (r, p')" by fastforce
  then show "mset (map object_of (connections (mysql_upkeep x p))) = mset (map object_of (connections p))" "is_stop (mysql_upkeep x p) = is_stop p"
    using check_loop_objects by (fastforce simp: mysql_upkeep_def x checkConnection_def)+
qed (auto simp: pool_defs)

section \<open>Properties\<close>

text \<open>
  C40. Exclusive hand-out: whatever the interleaving of \<open>getConnection\<close> and \<open>returnConnection\<close> calls of
  threads that hold any number of connections, and of keep-alive checks of the MySQL pool, as long as
  nobody closes the pool, each connection it started with is idle or in the hands of exactly one thread,
  and none is lost. The check may reconnect an idle connection of the MySQL pool; it stays the same
  object.
\<close>

theorem pools_exclusive:
  fixes p p' :: "'c conn_pool" and q q' :: "('i \<times> 'h) SqlConnection conn_pool"
  shows "((get, put, shut) \<in>
      {(redis_getConnection, \<lambda>c. redis_returnConnection (Some c), redis_close),
       (chat_getConnection, chat_returnConnection, chat_close),
       (status_getConnection, status_returnConnection, status_close),
       (gpc_getConnection, gpc_returnConnection, gpc_close)} \<longrightarrow>
     \<not> is_stop p \<and> distinct (connections p) \<and> Close \<notin> set evs \<and> pool_run get put shut no_upkeep evs (p, []) = (p', held) \<longrightarrow>
     distinct (connections p' @ map snd held) \<and> set (connections p' @ map snd held) = set (connections p)) \<and>
    (\<not> is_stop q \<and> distinct (map object_of (connections q)) \<and> Close \<notin> set checks \<and>
     pool_run mysql_getConnection mysql_returnConnection mysql_close mysql_upkeep checks (q, []) = (q', taken) \<longrightarrow>
     distinct (map object_of (connections q' @ map snd taken)) \<and>
     set (map object_of (connections q' @ map snd taken)) = set (map object_of (connections q)))"
  using redis_pool.run_exclusive [of p evs p' held] chat_pool.run_exclusive [of p evs p' held]
    status_pool.run_exclusive [of p evs p' held] gpc_pool.run_exclusive [of p evs p' held]
    mysql_pool.run_exclusive [of q checks q' taken]
  by auto

theorem pools_exclusive_witness:
  "\<exists>q' taken. pool_run mysql_getConnection mysql_returnConnection mysql_close mysql_upkeep
      [Acquire 7, Acquire 7, Upkeep (1000, \<lambda>h. h \<noteq> 30, \<lambda>h. Some (h + 1)), Acquire 8, Release 7 1]
      (\<lparr>connections = [\<lparr>sql_connection = (1, 10), last_oper_time = 0\<rparr>, \<lparr>sql_connection = (2, 20), last_oper_time = 0\<rparr>,
         \<lparr>sql_connection = (3 :: nat, 30 :: nat), last_oper_time = 0\<rparr>], is_stop = False\<rparr>, []) = (q', taken) \<and>
    map (\<lambda>(t, c). (t, sql_connection c)) taken = [(8, (3, 31)), (7, (2, 20))] \<and>
    map sql_connection (connections q') = [(1, 10)] \<and> distinct (map object_of (connections q' @ map snd taken))"
proof -
  let ?c = "\<lambda>i h t. \<lparr>sql_connection = (i :: nat, h :: nat), last_oper_time = t\<rparr>"
  let ?q = "\<lparr>connections = [?c 1 10 0, ?c 2 20 0, ?c 3 30 0], is_stop = False\<rparr>"
  let ?e = "[Acquire 7, Acquire 7, Upkeep (1000, \<lambda>h. h \<noteq> 30, \<lambda>h. Some (h + 1)), Acquire 8, Release 7 1]"
  let ?q' = "\<lparr>connections = [?c 1 10 0], is_stop = False\<rparr>" and ?t = "[(8, ?c 3 31 1000), (7, ?c 2 20 0)]"
  have r: "pool_run mysql_getConnection mysql_returnConnection mysql_close mysql_upkeep ?e (?q, []) = (?q', ?t)"
    by (simp add: pool_run_def pool_defs held_by_def mysql_upkeep_def checkConnection_def check_one_def)
  have "distinct (map object_of (connections ?q' @ map snd ?t))"
    using conjunct2 [OF pools_exclusive [of undefined undefined undefined undefined "[]" undefined undefined ?q ?e ?q' ?t]] r
    by (simp add: object_of_def)
  then show ?thesis using r by auto
qed

text \<open>
  A pool that was closed stays closed: after any further calls \<open>getConnection\<close> returns the
  null pointer at once instead of waiting.
\<close>

theorem pools_closed:
  assumes "(get, put, shut) \<in>
      {(redis_getConnection, \<lambda>c. redis_returnConnection (Some c), redis_close),
       (chat_getConnection, chat_returnConnection, chat_close),
       (status_getConnection, status_returnConnection, status_close),
       (gpc_getConnection, gpc_returnConnection, gpc_close)}"
    and "pool_run get put shut no_upkeep (es @ Close # evs) (p, held) = (p', held')"
  shows "get p' = (Val None, p')"
proof -
  obtain q h where q: "pool_run get put shut no_upkeep es (p, held) = (q, h)" by fastforce
  then have "pool_run get put shut no_upkeep evs (shut q, h) = (p', held')"
    using assms(2) by (simp add: pool_run_def)
  then show ?thesis
    using assms(1) redis_pool.run_halted [of "redis_close q" evs h p' held']
      chat_pool.run_halted [of "chat_close q" evs h p' held']
      status_pool.run_halted [of "status_close q" evs h p' held']
      gpc_pool.run_halted [of "gpc_close q" evs h p' held']
      redis_pool.shut_halted [of q] chat_pool.shut_halted [of q]
      status_pool.shut_halted [of q] gpc_pool.shut_halted [of q]
    by auto
qed

theorem pools_closed_witness:
  "redis_getConnection \<lparr>connections = [2 :: nat], is_stop = True\<rparr> =
     (Val None, \<lparr>connections = [2], is_stop = True\<rparr>)"
  using pools_closed [of redis_getConnection "\<lambda>c. redis_returnConnection (Some c)" redis_close
      "[Acquire 7]" "[Release 7 0, Acquire 8]" "\<lparr>connections = [1, 2 :: nat], is_stop = False\<rparr>" "[]"
      "\<lparr>connections = [2], is_stop = True\<rparr>" "[]"]
  by (simp add: pool_run_def pool_defs held_by_def)

lemma mysql_pool_closed:
  "pool_run mysql_getConnection mysql_returnConnection mysql_close mysql_upkeep evs (mysql_close q, held) = (q', held') \<Longrightarrow>
     mysql_getConnection q' = (Val None, q')"
  by (rule mysql_pool.run_halted [OF mysql_pool.shut_halted])

text \<open>
  The keep-alive check of the MySQL pool visits every idle connection once and keeps the
  queue's order and length; it never finds the queue empty in mid-course, and an
  \<open>sql::SQLException\<close> of a reconnect leaves it only after the old connection was put back.
\<close>

theorem checkConnection_keeps_pool:
  "(\<exists>r p'. checkConnection now ping reconnect p = (r, p') \<and>
      length (connections p') = length (connections p) \<and> is_stop p' = is_stop p \<and>
      r \<noteq> Crash \<and> r \<noteq> Waits) \<and>
   ((\<forall>c. \<not> ping c \<longrightarrow> reconnect c \<noteq> None) \<longrightarrow>
      checkConnection now ping reconnect p =
        (Val (), p\<lparr>connections := map (fst \<circ> check_one now ping reconnect) (connections p)\<rparr>))"
proof -
  obtain r p' where c: "checkConnection now ping reconnect p = (r, p')" by fastforce
  then have "length (connections p') = length (connections p) \<and> is_stop p' = is_stop p \<and>
      r \<noteq> Crash \<and> r \<noteq> Waits"
    unfolding checkConnection_def using check_loop_size by blast
  moreover have "checkConnection now ping reconnect p =
        (Val (), p\<lparr>connections := map (fst \<circ> check_one now ping reconnect) (connections p)\<rparr>)"
    if "\<forall>c. \<not> ping c \<longrightarrow> reconnect c \<noteq> None"
    using that check_loop_ok [of p "connections p" "[]"] by (simp add: checkConnection_def)
  ultimately show ?thesis using c by blast
qed

theorem checkConnection_keeps_pool_witness:
  "checkConnection 1000 (\<lambda>c. c \<noteq> (1 :: nat)) (\<lambda>c. Some (c + 10))
     \<lparr>connections = [\<lparr>sql_connection = 1, last_oper_time = 0\<rparr>, \<lparr>sql_connection = 2, last_oper_time = 900\<rparr>],
       is_stop = False\<rparr> =
   (Val (), \<lparr>connections = [\<lparr>sql_connection = 11, last_oper_time = 1000\<rparr>,
      \<lparr>sql_connection = 2, last_oper_time = 900\<rparr>], is_stop = False\<rparr>)"
  using checkConnection_keeps_pool [of 1000 "\<lambda>c. c \<noteq> (1 :: nat)" "\<lambda>c. Some (c + 10)"
     "\<lparr>connections = [\<lparr>sql_connection = 1, last_oper_time = 0\<rparr>, \<lparr>sql_connection = 2, last_oper_time = 900\<rparr>],
       is_stop = False\<rparr>"]
  by (simp add: check_one_def)

end
