(* ===== verification/Framing.thy ===== *)
theory Framing
  imports Prelude
begin

text \<open>
  Frames on the chat TCP connection: two bytes message id, two bytes body length, both in
  network byte order, then the body. \<open>MsgNode\<close>, \<open>RecvNode\<close> and \<open>SendNode\<close> are the server's
  message buffers (\<open>MsgNode.h\<close>, \<open>MsgNode.cpp\<close>) with the size of the allocation, so that a write
  past its end is visible; \<open>slot_send_data\<close> and \<open>readyRead\<close> are the client's writer and reader
  (\<open>tcp_mgr.cpp\<close>). The locale \<open>framing\<close> states what a writer and a reader owe each other and
  derives that a stream of frames, cut into chunks in any way, is read back message by message.
\<close>

section \<open>Constants of const.h\<close>

definition MAX_LENGTH :: nat where "MAX_LENGTH = 1024 * 2"
definition HEAD_TOTAL_LEN :: nat where "HEAD_TOTAL_LEN = 4"
definition HEAD_ID_LEN :: nat where "HEAD_ID_LEN = 2"
definition HEAD_DATA_LEN :: nat where "HEAD_DATA_LEN = 2"
definition MAX_SENDQUE :: nat where "MAX_SENDQUE = 1000"

lemmas frame_consts = MAX_LENGTH_def HEAD_TOTAL_LEN_def HEAD_ID_LEN_def HEAD_DATA_LEN_def

section \<open>Message buffers of the server\<close>

record MsgNode =
  current_len :: i16
  total_len :: i16
  node_data :: string     \<comment> \<open>the allocated characters\<close>

record RecvNode = MsgNode +
  recv_msg_id :: i16

record SendNode = MsgNode +
  send_msg_id :: i16

text \<open>
  \<open>memcpy(dst + off, src, n)\<close> with \<open>n\<close> converted from \<open>int\<close> to \<open>size_t\<close>: a negative \<open>n\<close>
  is a huge count. Past the end of a buffer the behaviour is undefined.
\<close>

definition memcpy :: "string \<Rightarrow> nat \<Rightarrow> string \<Rightarrow> int \<Rightarrow> string result" where
  "memcpy dst off src n =
     (if n < 0 \<or> int off + n > int (length dst) \<or> n > int (length src) then Crash
      else Val (take off dst @ take (nat n) src @ drop (off + nat n) dst))"

definition bind_result :: "'a result \<Rightarrow> ('a \<Rightarrow> 'b result) \<Rightarrow> 'b result" where
  "bind_result r f = (case r of Val x \<Rightarrow> f x | Exn e \<Rightarrow> Exn e | Waits \<Rightarrow> Waits | Crash \<Rightarrow> Crash)"

text \<open>
  \<open>new char[_total_len + 1]()\<close> and \<open>_data[_total_len] = '\0'\<close>: a negative size throws
  \<open>std::bad_array_new_length\<close>; for the length -1 the array is empty and the write hits the
  byte before it.
\<close>

definition new_MsgNode :: "i16 \<Rightarrow> MsgNode result" where
  "new_MsgNode max_len =
     (if sint max_len + 1 < 0 then Exn BadAlloc
      else if sint max_len + 1 = 0 then Crash
      else Val \<lparr>current_len = 0, total_len = max_len,
                node_data = replicate (nat (sint max_len + 1)) (CHR 0x00)\<rparr>)"

definition MsgNode_clear :: "MsgNode \<Rightarrow> MsgNode" where
  "MsgNode_clear n = n\<lparr>node_data := replicate (nat (sint (total_len n))) (CHR 0x00) @
       drop (nat (sint (total_len n))) (node_data n), current_len := 0\<rparr>"

definition new_RecvNode :: "i16 \<Rightarrow> i16 \<Rightarrow> RecvNode result" where
  "new_RecvNode max_len msg_id =
     bind_result (new_MsgNode max_len) (\<lambda>n. Val (MsgNode.extend n (RecvNode.fields msg_id)))"

definition new_SendNode :: "string \<Rightarrow> i16 \<Rightarrow> i16 \<Rightarrow> SendNode result" where
  "new_SendNode msg max_len msg_id =
     bind_result (new_MsgNode (max_len + word_of_nat HEAD_TOTAL_LEN)) (\<lambda>n.
     bind_result (memcpy (node_data n) 0 (be16 msg_id) (int HEAD_ID_LEN)) (\<lambda>d1.
     bind_result (memcpy d1 HEAD_ID_LEN (be16 max_len) (int HEAD_DATA_LEN)) (\<lambda>d2.
     bind_result (memcpy d2 (HEAD_ID_LEN + HEAD_DATA_LEN) msg (sint max_len)) (\<lambda>d3.
       Val (MsgNode.extend (n\<lparr>node_data := d3\<rparr>) (SendNode.fields msg_id))))))"

text \<open>What \<open>async_write\<close> puts on the wire: \<open>buffer(_data, _total_len)\<close>.\<close>

definition send_bytes :: "SendNode \<Rightarrow> string" where
  "send_bytes n = take (nat (sint (total_len n))) (node_data n)"

lemma bind_result_simps [simp]:
  "bind_result (Val x) f = f x" "bind_result (Exn e) f = Exn e"
  "bind_result Crash f = Crash" "bind_result Waits f = Waits"
  by (simp_all add: bind_result_def)

text \<open>
  \<open>wire_len\<close> is the conversion of a length to \<open>short\<close>; up to 32767 it is the length itself.
\<close>

definition frame :: "i16 \<Rightarrow> string \<Rightarrow> string" where
  "frame msg_id body = be16 msg_id @ be16 (word_of_nat (length body)) @ body"

lemma sint_word_of_nat_i16 [simp]: "n < 32768 \<Longrightarrow> sint (word_of_nat n :: i16) = int n"
  by (simp add: sint_i16 unat_of_nat_i16)

lemma new_MsgNode_fits:
  "n < 32768 \<Longrightarrow> new_MsgNode (word_of_nat n) =
     Val \<lparr>current_len = 0, total_len = word_of_nat n, node_data = replicate (n + 1) (CHR 0x00)\<rparr>"
  by (simp add: new_MsgNode_def nat_add_distrib)

lemma memcpy_fits:
  "off + n \<le> length dst \<Longrightarrow> n \<le> length src \<Longrightarrow>
   memcpy dst off src (int n) = Val (take off dst @ take n src @ drop (off + n) dst)"
  by (simp add: memcpy_def)

lemma sum_i16: "word_of_nat n + word_of_nat k = (word_of_nat (n + k) :: i16)"
  by simp

lemma new_SendNode_negative:
  assumes "sint max_len < 0" and "0 \<le> sint (max_len + word_of_nat HEAD_TOTAL_LEN)"
  shows "new_SendNode msg max_len msg_id = Crash"
proof -
  have "bind_result (memcpy d k msg (sint max_len)) f = Crash" for d k and f :: "string \<Rightarrow> SendNode result"
    using assms(1) by (simp add: memcpy_def)
  moreover have "bind_result (memcpy d k src n) f = Crash" if "\<And>x. f x = Crash"
    for d k src n and f :: "string \<Rightarrow> SendNode result"
    using that by (simp add: memcpy_def)
  ultimately show ?thesis
    using assms(2) by (simp add: new_SendNode_def new_MsgNode_def)
qed

lemma new_SendNode_frame:
  assumes "length msg \<le> 32763"
  shows "\<exists>node. new_SendNode msg (word_of_nat (length msg)) msg_id = Val node \<and>
    send_bytes node = frame msg_id msg \<and> send_msg_id node = msg_id"
proof -
  let ?n = "length msg"
  have tl: "(word_of_nat ?n :: i16) + word_of_nat HEAD_TOTAL_LEN = word_of_nat (?n + 4)"
    by (simp add: HEAD_TOTAL_LEN_def)
  have nn: "new_MsgNode (word_of_nat (?n + 4)) =
     Val \<lparr>current_len = 0, total_len = word_of_nat (?n + 4), node_data = replicate (?n + 5) (CHR 0x00)\<rparr>"
    using new_MsgNode_fits [of "?n + 4"] assms by (simp add: add.assoc)
  have ln: "sint (word_of_nat ?n :: i16) = int ?n" using assms by simp
  have lm: "sint (word_of_nat (?n + 4) :: i16) = int (?n + 4)"
    by (rule sint_word_of_nat_i16) (use assms in simp)
  obtain a b where ab: "be16 msg_id = [a, b]" by (simp add: be16_def)
  obtain c d where cd: "be16 (word_of_nat ?n) = [c, d]" by (simp add: be16_def)
  let ?z = "\<lambda>k. replicate k (CHR 0x00)"
  have m1: "memcpy (?z (?n + 5)) 0 [a, b] 2 = Val ([a, b] @ ?z (?n + 3))"
    using memcpy_fits [of 0 2 "?z (?n + 5)" "[a, b]"] by (simp add: add.commute)
  have m2: "memcpy ([a, b] @ ?z (?n + 3)) 2 [c, d] 2 = Val ([a, b, c, d] @ ?z (?n + 1))"
    using memcpy_fits [of 2 2 "[a, b] @ ?z (?n + 3)" "[c, d]"] by simp
  have m3: "memcpy ([a, b, c, d] @ ?z (?n + 1)) 4 msg (int ?n) = Val ([a, b, c, d] @ msg @ ?z 1)"
    using memcpy_fits [of 4 ?n "[a, b, c, d] @ ?z (?n + 1)" msg]
      drop_replicate [of ?n "Suc ?n" "CHR 0x00"]
    by (simp only: drop_append take_append) simp
  have "new_SendNode msg (word_of_nat ?n) msg_id =
      Val \<lparr>current_len = 0, total_len = word_of_nat (?n + 4),
        node_data = [a, b, c, d] @ msg @ ?z 1, send_msg_id = msg_id\<rparr>"
    unfolding new_SendNode_def tl nn
    using m1 m2 m3 by (simp add: HEAD_ID_LEN_def HEAD_DATA_LEN_def ln ab cd MsgNode.defs SendNode.defs
        del: replicate_Suc)
  moreover have "send_bytes \<lparr>current_len = 0, total_len = word_of_nat (?n + 4),
        node_data = [a, b, c, d] @ msg @ ?z 1, send_msg_id = msg_id\<rparr> = frame msg_id msg"
    using lm by (simp add: send_bytes_def frame_def ab cd nat_add_distrib eval_nat_numeral)
  ultimately show ?thesis by simp
qed

section \<open>The client's writer and reader\<close>

text \<open>\<open>out << id << len\<close> on a big endian \<open>QDataStream\<close>, then the bytes; \<open>len\<close> is a \<open>quint16\<close>.\<close>

definition slot_send_data :: "i16 \<Rightarrow> string \<Rightarrow> string" where
  "slot_send_data reqId dataBytes =
     (let len = (word_of_nat (length dataBytes) :: i16) in be16 reqId @ be16 len @ dataBytes)"

record TcpMgr =
  buffer :: string
  b_recv_pending :: bool
  message_id :: i16
  message_len :: i16                        \<comment> \<open>\<open>quint16\<close>: read with \<open>unat\<close>\<close>
  handled :: "(i16 \<times> nat \<times> string) list"   \<comment> \<open>the calls of \<open>handleMsg\<close>, oldest first\<close>

definition TcpMgr_init :: TcpMgr where
  "TcpMgr_init = \<lparr>buffer = [], b_recv_pending = False, message_id = 0, message_len = 0, handled = []\<rparr>"

text \<open>The head of one turn of the \<open>forever\<close> loop; \<open>None\<close> is the first \<open>return\<close>.\<close>

fun parse_head :: "TcpMgr \<Rightarrow> TcpMgr option" where
  "parse_head c =
     (if b_recv_pending c then Some c
      else (case buffer c of
              i1 # i2 # l1 # l2 # rest \<Rightarrow>
                Some (c\<lparr>message_id := from_be16 i1 i2, message_len := from_be16 l1 l2, buffer := rest\<rparr>)
            | _ \<Rightarrow> None))"

text \<open>The rest of the turn, when the body is there: what follows \<open>_b_recv_pending = false\<close>.\<close>

definition take_body :: "TcpMgr \<Rightarrow> TcpMgr" where
  "take_body c = (let n = unat (message_len c) in
     c\<lparr>b_recv_pending := False, buffer := drop n (buffer c),
       handled := handled c @ [(message_id c, n, take n (buffer c))]\<rparr>)"

lemma parse_head_measure:
  assumes "parse_head c = Some d"
  shows "2 * length (buffer (take_body d)) < 2 * length (buffer c) + (if b_recv_pending c then 1 else 0)"
  using assms by (auto simp: take_body_def Let_def split: if_splits list.splits)

function read_loop :: "TcpMgr \<Rightarrow> TcpMgr" where
  "read_loop c =
     (case parse_head c of
        None \<Rightarrow> c
      | Some d \<Rightarrow> if length (buffer d) < unat (message_len d) then d\<lparr>b_recv_pending := True\<rparr>
                  else read_loop (take_body d))"
  by pat_completeness auto
termination
proof (relation "measure (\<lambda>c. 2 * length (buffer c) + (if b_recv_pending c then 1 else 0))", simp)
  fix c d
  assume "parse_head c = Some d"
  from parse_head_measure [OF this]
  show "(take_body d, c) \<in> measure (\<lambda>c. 2 * length (buffer c) + (if b_recv_pending c then 1 else 0))"
    by (simp add: take_body_def Let_def)
qed

declare read_loop.simps [simp del] parse_head.simps [simp del]

definition readyRead :: "string \<Rightarrow> TcpMgr \<Rightarrow> TcpMgr" where
  "readyRead bytes c = read_loop (c\<lparr>buffer := buffer c @ bytes\<rparr>)"

abbreviation with_bytes :: "string \<Rightarrow> TcpMgr \<Rightarrow> TcpMgr" where
  "with_bytes b c \<equiv> c\<lparr>buffer := buffer c @ b\<rparr>"

lemma parse_head_pending: "b_recv_pending c \<Longrightarrow> parse_head c = Some c"
  by (simp add: parse_head.simps)

lemma parse_head_more: "parse_head c = Some d \<Longrightarrow> parse_head (with_bytes b c) = Some (with_bytes b d)"
  by (auto simp: parse_head.simps split: if_splits list.splits)

lemma take_body_more:
  "unat (message_len d) \<le> length (buffer d) \<Longrightarrow> take_body (with_bytes b d) = with_bytes b (take_body d)"
  by (simp add: take_body_def Let_def)

lemma read_loop_more: "read_loop (with_bytes b (read_loop c)) = read_loop (with_bytes b c)"
proof (induction c rule: read_loop.induct)
  case (1 c)
  show ?case
  proof (cases "parse_head c")
    case None
    then show ?thesis by (simp add: read_loop.simps [of c])
  next
    case (Some d)
    note pm = parse_head_more [OF Some, of b]
    show ?thesis
    proof (cases "length (buffer d) < unat (message_len d)")
      case True
      have l: "read_loop c = d\<lparr>b_recv_pending := True\<rparr>" using True Some by (simp add: read_loop.simps [of c])
      show ?thesis
        unfolding l
        by (subst (1 2) read_loop.simps) (simp add: parse_head_pending pm take_body_def Let_def)
    next
      case False
      have "read_loop c = read_loop (take_body d)" using False Some by (simp add: read_loop.simps [of c])
      moreover have "read_loop (with_bytes b c) = read_loop (with_bytes b (take_body d))"
        using False by (subst read_loop.simps) (simp add: pm take_body_more)
      ultimately show ?thesis using 1 [OF Some False] by simp
    qed
  qed
qed

lemma readyRead_append: "readyRead b (readyRead a c) = readyRead (a @ b) c"
  using read_loop_more [where b = b and c = "with_bytes a c"] by (simp add: readyRead_def)

lemma from_be16_hd: "be16 w = [a, b] \<Longrightarrow> from_be16 a b = w"
  by (auto simp only: be16_def list.inject from_be16_be16)

lemma read_loop_handled: "\<exists>ys. handled (read_loop c) = handled c @ ys"
proof (induction c rule: read_loop.induct)
  case (1 c)
  show ?case
  proof (cases "parse_head c")
    case (Some d)
    then have h: "handled d = handled c" by (auto simp: parse_head.simps split: if_splits list.splits)
    show ?thesis
      using 1 [OF Some] Some h by (subst read_loop.simps) (auto simp: take_body_def Let_def)
  qed (simp add: read_loop.simps)
qed

lemma readyRead_frame:
  assumes "buffer c = []" and "\<not> b_recv_pending c" and "length body < 65536"
  shows "\<exists>d. readyRead (frame i body) c = d \<and> buffer d = [] \<and> \<not> b_recv_pending d \<and>
    handled d = handled c @ [(i, length body, body)]"
proof -
  obtain a b where ab: "be16 i = [a, b]" by (simp add: be16_def)
  obtain e f where ef: "be16 (word_of_nat (length body)) = [e, f]" by (simp add: be16_def)
  have len: "unat (word_of_nat (length body) :: i16) = length body"
    by (rule unat_of_nat_i16) (rule assms(3))
  let ?d = "c\<lparr>message_id := i, message_len := word_of_nat (length body), buffer := body\<rparr>"
  have "parse_head (c\<lparr>buffer := frame i body\<rparr>) = Some ?d"
    using assms(2) from_be16_hd [OF ab] from_be16_hd [OF ef]
    by (simp add: parse_head.simps frame_def ab ef)
  then have "read_loop (c\<lparr>buffer := frame i body\<rparr>) = read_loop (take_body ?d)"
    by (subst read_loop.simps) (simp add: len)
  moreover have "read_loop (take_body ?d) = take_body ?d"
    by (subst read_loop.simps) (simp add: parse_head.simps take_body_def Let_def len)
  ultimately show ?thesis
    using assms(1) by (simp add: readyRead_def take_body_def Let_def len)
qed

section \<open>The framing contract\<close>

text \<open>A reader run on the chunks the socket hands out; \<open>None\<close> is undefined behaviour.\<close>

fun feeds :: "('s \<Rightarrow> string \<Rightarrow> 's option) \<Rightarrow> 's \<Rightarrow> string list \<Rightarrow> 's option" where
  "feeds feed s [] = feed s []"
| "feeds feed s (b # bs) = Option.bind (feed s b) (\<lambda>t. feeds feed t bs)"

locale framing =
  fixes sendable :: "'i \<times> string \<Rightarrow> bool"
    and encode :: "'i \<times> string \<Rightarrow> string"
    and ready :: "'s \<Rightarrow> bool"
    and feed :: "'s \<Rightarrow> string \<Rightarrow> 's option"
    and out :: "'s \<Rightarrow> ('i \<times> string) list"
  assumes feed_append: "feed s (a @ b) = Option.bind (feed s a) (\<lambda>t. feed t b)"
    and feed_mono: "feed s a = Some t \<Longrightarrow> \<exists>ys. out t = out s @ ys"
    and feed_frame: "ready s \<Longrightarrow> sendable m \<Longrightarrow>
        \<exists>t. feed s (encode m) = Some t \<and> ready t \<and> out t = out s @ [m]"
    and feed_none: "ready s \<Longrightarrow> feed s [] = Some s"
begin

lemma feeds_concat: "feeds feed s bs = feed s (concat bs)"
  by (induction bs arbitrary: s) (simp_all add: feed_append)

lemma feed_frames:
  assumes "ready s" and "list_all sendable ms"
  shows "\<exists>t. feed s (concat (map encode ms)) = Some t \<and> ready t \<and> out t = out s @ ms"
  using assms
proof (induction ms arbitrary: s)
  case Nil
  then show ?case using feed_none by simp
next
  case (Cons m ms)
  obtain u where u: "feed s (encode m) = Some u" "ready u" "out u = out s @ [m]"
    using feed_frame [of s m] Cons.prems by auto
  obtain t where "feed u (concat (map encode ms)) = Some t" "ready t" "out t = out u @ ms"
    using Cons.IH [OF u(2)] Cons.prems(2) by auto
  then show ?case using u by (simp add: feed_append)
qed

text \<open>Any cutting of the stream into chunks delivers exactly the messages, in order.\<close>

lemma feeds_stream:
  assumes "ready s" and "list_all sendable ms" and "concat bs = concat (map encode ms)"
  shows "\<exists>t. feeds feed s bs = Some t \<and> ready t \<and> out t = out s @ ms"
  using feed_frames [OF assms(1,2)] by (simp add: feeds_concat assms(3))

text \<open>After a part of the stream a part of the messages is there, nothing else.\<close>

lemma feed_partial:
  assumes "ready s" and "list_all sendable ms" and "a @ b = concat (map encode ms)"
  shows "\<exists>t xs ys. feed s a = Some t \<and> out t = out s @ xs \<and> ms = xs @ ys"
proof -
  obtain u where u: "feed s (a @ b) = Some u" "out u = out s @ ms"
    using feed_frames [OF assms(1,2)] assms(3) by auto
  then obtain t where t: "feed s a = Some t" "feed t b = Some u"
    by (auto simp: feed_append bind_eq_Some_conv)
  obtain xs where xs: "out t = out s @ xs" using feed_mono [OF t(1)] by blast
  obtain ys where "out u = out t @ ys" using feed_mono [OF t(2)] by blast
  then have "ms = xs @ ys" using u(2) xs by simp
  then show ?thesis using t(1) xs by blast
qed

end

text \<open>The server writes with \<open>SendNode\<close>, the client reads with \<open>readyRead\<close>.\<close>

definition server_frame :: "i16 \<times> string \<Rightarrow> string" where
  "server_frame m = (case new_SendNode (snd m) (word_of_nat (length (snd m))) (fst m) of
     Val node \<Rightarrow> send_bytes node | _ \<Rightarrow> [])"

definition client_feed :: "TcpMgr \<Rightarrow> string \<Rightarrow> TcpMgr option" where
  "client_feed c bytes = Some (readyRead bytes c)"

definition client_ready :: "TcpMgr \<Rightarrow> bool" where
  "client_ready c \<longleftrightarrow> buffer c = [] \<and> \<not> b_recv_pending c"

definition client_out :: "TcpMgr \<Rightarrow> (i16 \<times> string) list" where
  "client_out c = map (\<lambda>(i, n, b). (i, b)) (handled c)"

lemma server_frame_eq: "length (snd m) \<le> 32763 \<Longrightarrow> server_frame m = frame (fst m) (snd m)"
  using new_SendNode_frame [of "snd m" "fst m"] by (auto simp: server_frame_def)

interpretation to_client: framing
  "\<lambda>m. length (snd m) \<le> 32763" server_frame client_ready client_feed client_out
proof
  fix s t :: TcpMgr and a b :: string and m :: "i16 \<times> string"
  show "client_feed s (a @ b) = Option.bind (client_feed s a) (\<lambda>t. client_feed t b)"
    by (simp add: client_feed_def readyRead_append)
  show "client_feed s a = Some t \<Longrightarrow> \<exists>ys. client_out t = client_out s @ ys"
    using read_loop_handled [of "s\<lparr>buffer := buffer s @ a\<rparr>"]
    by (auto simp: client_feed_def readyRead_def client_out_def)
  show "\<exists>t. client_feed s (server_frame m) = Some t \<and> client_ready t \<and> client_out t = client_out s @ [m]"
    if "client_ready s" "length (snd m) \<le> 32763"
    using that readyRead_frame [of s "snd m" "fst m"]
    by (auto simp: client_ready_def client_feed_def client_out_def server_frame_eq)
  show "client_feed s [] = Some s" if "client_ready s"
    using that by (simp add: client_feed_def client_ready_def readyRead_def read_loop.simps parse_head.simps)
qed

section \<open>Properties\<close>

text \<open>
  C6. Server to client: frames written by \<open>CSession::send\<close> for bodies of at most 32763 bytes,
  received in chunks of any sizes, make the client call \<open>handleMsg\<close> once per message, in the
  order sent, with the id, length and body that were sent, and leave the reader ready for the
  next header.
\<close>

theorem client_reads_server_frames:
  assumes "\<forall>m \<in> set ms. length (snd m) \<le> 32763" and "concat chunks = concat (map server_frame ms)"
  shows "\<exists>c. feeds client_feed TcpMgr_init chunks = Some c \<and> client_ready c \<and>
    map (\<lambda>(i, n, b). (i, b)) (handled c) = ms"
  using to_client.feeds_stream [of TcpMgr_init ms chunks] assms
  by (auto simp: client_ready_def TcpMgr_init_def client_out_def list_all_iff)

theorem client_reads_server_frames_witness:
  "\<exists>c. feeds client_feed TcpMgr_init
     [[char_of (3 :: nat)], [char_of (239 :: nat), char_of (0 :: nat)], [char_of (2 :: nat), CHR ''h''],
      [CHR ''i'', char_of (3 :: nat), char_of (240 :: nat), char_of (0 :: nat), char_of (0 :: nat)]] = Some c \<and> client_ready c \<and>
    map (\<lambda>(i, n, b). (i, b)) (handled c) = [(1007, ''hi''), (1008, [])]"
  using client_reads_server_frames [of "[(1007, ''hi''), (1008, [])]"
     "[[char_of (3 :: nat)], [char_of (239 :: nat), char_of (0 :: nat)], [char_of (2 :: nat), CHR ''h''],
      [CHR ''i'', char_of (3 :: nat), char_of (240 :: nat), char_of (0 :: nat), char_of (0 :: nat)]]"]
  by (simp add: server_frame_eq frame_def be16_def)

text \<open>
  C36. Every way a body length can go wrong in \<open>CSession::send\<close>: up to 32763 bytes the frame is
  the header and the body; from 32764 to 65530 bytes the \<open>SendNode\<close> constructor throws, because
  the total length wraps to a negative \<open>short\<close>; from 65531 to 65535 it writes outside its buffer.
\<close>

theorem SendNode_length_bounds:
  "(length msg \<le> 32763 \<longrightarrow> (\<exists>node. new_SendNode msg (word_of_nat (length msg)) msg_id = Val node \<and>
      send_bytes node = frame msg_id msg)) \<and>
   (32764 \<le> length msg \<and> length msg \<le> 65530 \<longrightarrow>
      new_SendNode msg (word_of_nat (length msg)) msg_id = Exn BadAlloc) \<and>
   (65531 \<le> length msg \<and> length msg \<le> 65535 \<longrightarrow>
      new_SendNode msg (word_of_nat (length msg)) msg_id = Crash)"
proof (intro conjI impI)
  assume "length msg \<le> 32763"
  then show "\<exists>node. new_SendNode msg (word_of_nat (length msg)) msg_id = Val node \<and>
      send_bytes node = frame msg_id msg"
    using new_SendNode_frame by blast
next
  assume n: "32764 \<le> length msg \<and> length msg \<le> 65530"
  have "sint (word_of_nat (length msg + 4) :: i16) = int (length msg + 4) - 65536"
    using n unat_of_nat_i16 [of "length msg + 4"] by (simp only: sint_i16) simp
  then show "new_SendNode msg (word_of_nat (length msg)) msg_id = Exn BadAlloc"
    using n by (simp add: new_SendNode_def new_MsgNode_def HEAD_TOTAL_LEN_def)
next
  assume n: "65531 \<le> length msg \<and> length msg \<le> 65535"
  show "new_SendNode msg (word_of_nat (length msg)) msg_id = Crash"
  proof (cases "length msg = 65531")
    case True
    then show ?thesis by (simp add: new_SendNode_def new_MsgNode_def HEAD_TOTAL_LEN_def)
  next
    case False
    obtain k where k: "length msg = 65532 + k" "k \<le> 3"
      by (rule that [of "length msg - 65532"]) (use n False in arith)+
    have "sint (word_of_nat (length msg) :: i16) < 0"
      using n unat_of_nat_i16 [of "length msg"] by (simp only: sint_i16) simp
    moreover have "(word_of_nat (length msg) :: i16) + word_of_nat HEAD_TOTAL_LEN = word_of_nat k"
      by (simp add: HEAD_TOTAL_LEN_def k(1))
    ultimately show ?thesis
      using k(2) by (simp add: new_SendNode_negative)
  qed
qed

theorem SendNode_length_bounds_witness:
  "new_SendNode (replicate 40000 (CHR ''a'')) (word_of_nat 40000) 1007 = Exn BadAlloc"
  using SendNode_length_bounds [of "replicate 40000 (CHR ''a'')" 1007] by simp

end
