(* ===== verification/CSession.thy ===== *)
theory CSession
  imports Framing
begin

text \<open>
  \<open>CSession\<close>, the server's end of one client connection: the reader (a chain of
  \<open>async_read_some\<close> completions that collect a header, then a body, then the next header) and
  the send queue (at most one \<open>async_write\<close> under way, the others wait in \<open>_send_queue\<close>).

  A completion handler is a \<open>prog\<close> on the session; its value says whether it ended in a call of
  \<open>close()\<close>, whose effect on the server is in the theory of \<open>CServer\<close>. The started writes and
  the messages handed to \<open>LogicSystem::postMsgToQue\<close> are kept as lists.
\<close>

datatype read_purpose = Head | Body int

datatype read_op =
    NoRead                              \<comment> \<open>no \<open>async_read_some\<close> is outstanding\<close>
  | ReadSome read_purpose nat nat       \<comment> \<open>handler, \<open>read_len\<close>, \<open>total_len\<close>\<close>

record CSession =
  session_id :: string
  recv_data :: string                   \<comment> \<open>\<open>char _data[MAX_LENGTH]\<close>\<close>
  reading :: read_op
  recv_head_node :: MsgNode
  recv_msg_node :: "RecvNode option"
  send_queue :: "SendNode list"
  b_close :: bool
  user_uid :: int
  writes :: "string list"               \<comment> \<open>the buffers given to \<open>async_write\<close>, oldest first\<close>
  posted :: "RecvNode list"             \<comment> \<open>the nodes given to \<open>postMsgToQue\<close>, oldest first\<close>

section \<open>Reading\<close>

definition asyncReadFull :: "read_purpose \<Rightarrow> int \<Rightarrow> CSession \<Rightarrow> CSession" where
  "asyncReadFull p maxLength s =
     s\<lparr>recv_data := replicate MAX_LENGTH (CHR 0x00),
       reading := ReadSome p 0 (nat (maxLength mod 2 ^ 64))\<rparr>"

definition asyncReadHead :: "int \<Rightarrow> CSession \<Rightarrow> CSession" where
  "asyncReadHead len = asyncReadFull Head len"

definition asyncReadBody :: "int \<Rightarrow> CSession \<Rightarrow> CSession" where
  "asyncReadBody len = asyncReadFull (Body len) len"

text \<open>
  The constructor; \<open>_user_uid\<close> is not initialised, \<open>garbage\<close> is what the memory holds. The head
  node is a \<open>MsgNode(HEAD_TOTAL_LEN)\<close>.
\<close>

definition new_CSession :: "string \<Rightarrow> int \<Rightarrow> CSession" where
  "new_CSession uuid garbage =
     \<lparr>session_id = uuid, recv_data = replicate MAX_LENGTH (CHR 0x00), reading = NoRead,
      recv_head_node = \<lparr>current_len = 0, total_len = word_of_nat HEAD_TOTAL_LEN,
                        node_data = replicate (HEAD_TOTAL_LEN + 1) (CHR 0x00)\<rparr>,
      recv_msg_node = None, send_queue = [], b_close = False, user_uid = garbage,
      writes = [], posted = []\<rparr>"

definition start :: "CSession \<Rightarrow> CSession" where
  "start = asyncReadHead (int HEAD_TOTAL_LEN)"

text \<open>
  The handler of a header read. Its \<open>try\<close> block catches what the \<open>RecvNode\<close> constructor throws
  and only prints it: the session then is neither closed nor reading.
\<close>

definition head_handler :: "bool \<Rightarrow> nat \<Rightarrow> (CSession, bool) prog" where
  "head_handler ec bytesTransfered s =
     (if ec then (Val True, s)
      else if bytesTransfered < HEAD_TOTAL_LEN then (Val True, s)
      else
        let h = MsgNode_clear (recv_head_node s) in
        (case memcpy (node_data h) 0 (recv_data s) (int bytesTransfered) of
           Val d \<Rightarrow>
             (let s1 = s\<lparr>recv_head_node := h\<lparr>node_data := d\<rparr>\<rparr>;
                  msg_id = from_be16 (d ! 0) (d ! 1);
                  msg_len = from_be16 (d ! HEAD_ID_LEN) (d ! (HEAD_ID_LEN + 1)) in
              if sint msg_id > int MAX_LENGTH then (Val True, s1)
              else if sint msg_len > int MAX_LENGTH then (Val True, s1)
              else (case new_RecvNode msg_len msg_id of
                      Val node \<Rightarrow> (Val False, asyncReadBody (sint msg_len) (s1\<lparr>recv_msg_node := Some node\<rparr>))
                    | Exn e \<Rightarrow> (Val False, s1)
                    | Waits \<Rightarrow> (Waits, s1)
                    | Crash \<Rightarrow> (Crash, s1)))
         | _ \<Rightarrow> (Crash, s)))"

text \<open>The handler of a body read.\<close>

definition body_handler :: "int \<Rightarrow> bool \<Rightarrow> nat \<Rightarrow> (CSession, bool) prog" where
  "body_handler len ec bytesTransfered s =
     (if ec then (Val True, s)
      else if bytesTransfered < nat (len mod 2 ^ 64) then (Val True, s)
      else
        (case recv_msg_node s of
           None \<Rightarrow> (Crash, s)
         | Some node \<Rightarrow>
             (case memcpy (node_data node) 0 (recv_data s) (int bytesTransfered) of
                Val d \<Rightarrow>
                  (if sint (total_len node) < 0 \<or> sint (total_len node) \<ge> int (length d) then (Crash, s)
                   else
                     let node' = node\<lparr>node_data := d[nat (sint (total_len node)) := CHR 0x00],
                           current_len := current_len node + word_of_nat bytesTransfered\<rparr> in
                     (Val False, asyncReadHead (int HEAD_TOTAL_LEN)
                        (s\<lparr>recv_msg_node := Some node', posted := posted s @ [node']\<rparr>)))
              | _ \<Rightarrow> (Crash, s))))"

definition read_handler :: "read_purpose \<Rightarrow> bool \<Rightarrow> nat \<Rightarrow> (CSession, bool) prog" where
  "read_handler p = (case p of Head \<Rightarrow> head_handler | Body len \<Rightarrow> body_handler len)"

text \<open>
  The completion of the outstanding \<open>async_read_some\<close> (\<open>asyncReadLen\<close>): the bytes are in
  \<open>_data\<close> at \<open>read_len\<close>; on an error, or when the total is reached, the handler runs, otherwise
  the next read is started.
\<close>

definition on_read :: "bool \<Rightarrow> string \<Rightarrow> (CSession, bool) prog" where
  "on_read ec bytes s =
     (case reading s of
        NoRead \<Rightarrow> (Val False, s)
      | ReadSome p read_len whole \<Rightarrow>
          (case memcpy (recv_data s) read_len bytes (int (length bytes)) of
             Val d \<Rightarrow>
               (let n = read_len + length bytes in
                if ec \<or> whole \<le> n then read_handler p ec n (s\<lparr>recv_data := d, reading := NoRead\<rparr>)
                else (Val False, s\<lparr>recv_data := d, reading := ReadSome p n whole\<rparr>))
           | _ \<Rightarrow> (Crash, s)))"

text \<open>\<open>close()\<close> as far as the session goes: the socket is closed, \<open>_b_close\<close> set.\<close>

definition close_session :: "CSession \<Rightarrow> CSession" where
  "close_session s = s\<lparr>b_close := True, reading := NoRead\<rparr>"

section \<open>Writing\<close>

text \<open>\<open>send(const char*, short, short)\<close>; \<open>msg\<close> is the memory the pointer leads to.\<close>

definition send_chars :: "string \<Rightarrow> i16 \<Rightarrow> i16 \<Rightarrow> (CSession, unit) prog" where
  "send_chars msg msg_length msg_id s =
     (let queue_size = length (send_queue s) in
      if queue_size > MAX_SENDQUE then (Val (), s)
      else (case new_SendNode msg msg_length msg_id of
              Val node \<Rightarrow>
                (let s1 = s\<lparr>send_queue := send_queue s @ [node]\<rparr> in
                 if queue_size > 0 then (Val (), s1)
                 else (Val (), s1\<lparr>writes := writes s @ [send_bytes (hd (send_queue s1))]\<rparr>))
            | Exn e \<Rightarrow> (Exn e, s)
            | Waits \<Rightarrow> (Waits, s)
            | Crash \<Rightarrow> (Crash, s)))"

text \<open>\<open>send(const std::string\&, short)\<close>: \<open>msg.length()\<close> is converted to \<open>short\<close>.\<close>

definition send :: "string \<Rightarrow> i16 \<Rightarrow> (CSession, unit) prog" where
  "send msg msg_id s =
     (let queue_size = length (send_queue s) in
      if queue_size > MAX_SENDQUE then (Val (), s)
      else (case new_SendNode msg (word_of_nat (length msg)) msg_id of
              Val node \<Rightarrow>
                (let s1 = s\<lparr>send_queue := send_queue s @ [node]\<rparr> in
                 if queue_size > 0 then (Val (), s1)
                 else (Val (), s1\<lparr>writes := writes s @ [send_bytes (hd (send_queue s1))]\<rparr>))
            | Exn e \<Rightarrow> (Exn e, s)
            | Waits \<Rightarrow> (Waits, s)
            | Crash \<Rightarrow> (Crash, s)))"

text \<open>The completion of the outstanding \<open>async_write\<close>; the value is \<open>True\<close> when it closes.\<close>

definition handleWrite :: "bool \<Rightarrow> (CSession, bool) prog" where
  "handleWrite error s =
     (if error then (Val True, s)
      else (case send_queue s of
              [] \<Rightarrow> (Crash, s)
            | _ # q \<Rightarrow>
                (case q of
                   [] \<Rightarrow> (Val False, s\<lparr>send_queue := []\<rparr>)
                 | node # _ \<Rightarrow> (Val False, s\<lparr>send_queue := q, writes := writes s @ [send_bytes node]\<rparr>))))"

lemmas reader_defs = asyncReadFull_def asyncReadHead_def asyncReadBody_def read_handler_def

section \<open>The reader on a stream of bytes\<close>

text \<open>
  The socket hands out at most the requested number of bytes at a time; a request for no bytes
  (a message without body) completes at once. \<open>None\<close> is undefined behaviour.
\<close>

definition pending_reads :: "CSession \<Rightarrow> nat" where
  "pending_reads s = (case reading s of
     NoRead \<Rightarrow> 0
   | ReadSome p n m \<Rightarrow> if n < m then 0 else (case p of Head \<Rightarrow> 2 | Body _ \<Rightarrow> 1))"

definition apply_close :: "bool \<Rightarrow> CSession \<Rightarrow> CSession" where
  "apply_close closed s = (if closed then close_session s else s)"

lemma pending_reads_handler:
  assumes "read_handler p ec n s = (Val c, t)" and "reading s = NoRead"
  shows "pending_reads (apply_close c t) < (case p of Head \<Rightarrow> 2 | Body _ \<Rightarrow> 1)"
proof (cases p)
  case Head
  then show ?thesis
    using assms
    by (auto simp: head_handler_def Let_def apply_close_def close_session_def
        pending_reads_def reader_defs split: if_splits result.splits)
next
  case (Body len)
  then show ?thesis
    using assms
    by (auto simp: body_handler_def Let_def apply_close_def close_session_def
        pending_reads_def HEAD_TOTAL_LEN_def reader_defs split: if_splits result.splits option.splits)
qed

definition read_bytes :: "string \<Rightarrow> CSession \<Rightarrow> CSession option" where
  "read_bytes bytes s = (case on_read False bytes s of
     (Val c, t) \<Rightarrow> Some (apply_close c t) | _ \<Rightarrow> None)"

lemma pending_reads_read_bytes:
  assumes "read_bytes bytes s = Some t" and "reading s = ReadSome p n m" and "m \<le> n"
  shows "pending_reads t < pending_reads s"
proof -
  obtain c u d where "read_handler p False (n + length bytes) (s\<lparr>recv_data := d, reading := NoRead\<rparr>) = (Val c, u)"
      "t = apply_close c u"
    using assms by (fastforce simp: read_bytes_def on_read_def Let_def split: result.splits prod.splits)
  then have "pending_reads t < (case p of Head \<Rightarrow> 2 | Body _ \<Rightarrow> 1)"
    using pending_reads_handler [of p False "n + length bytes" "s\<lparr>recv_data := d, reading := NoRead\<rparr>" c u] by simp
  then show ?thesis using assms(2,3) by (simp add: pending_reads_def)
qed

function deliver :: "CSession \<Rightarrow> string \<Rightarrow> CSession option" where
  "deliver s bytes =
     (case reading s of
        NoRead \<Rightarrow> Some s
      | ReadSome p n m \<Rightarrow>
          (if n < m \<and> bytes = [] then Some s
           else (case read_bytes (take (m - n) bytes) s of
                   None \<Rightarrow> None
                 | Some t \<Rightarrow> deliver t (drop (m - n) bytes))))"
  by pat_completeness auto
termination
proof (relation "measures [\<lambda>(s, bytes). length bytes, \<lambda>(s, bytes). pending_reads s]", simp, goal_cases)
  case (1 s bytes p n m t)
  show ?case
  proof (cases "n < m")
    case True
    then have "bytes \<noteq> []" using 1(2) by simp
    then have "length bytes + n - m < length bytes" using True by (cases bytes) auto
    then show ?thesis using True by simp
  next
    case False
    then have "pending_reads t < pending_reads s"
      by (intro pending_reads_read_bytes [OF 1(3) 1(1)]) simp
    then show ?thesis using False by simp
  qed
qed

declare deliver.simps [simp del]

lemma memcpy_Val_iff:
  "memcpy d off src n = Val d' \<longleftrightarrow> 0 \<le> n \<and> int off + n \<le> int (length d) \<and> n \<le> int (length src) \<and>
     d' = take off d @ take (nat n) src @ drop (off + nat n) d"
  by (auto simp: memcpy_def)

lemma memcpy_cases: "(\<exists>d'. memcpy d off src n = Val d') \<or> memcpy d off src n = Crash"
  by (simp add: memcpy_def)

lemma memcpy_twice:
  assumes "memcpy d off x (int (length x)) = Val d1"
  shows "memcpy d1 (off + length x) y (int (length y)) = memcpy d off (x @ y) (int (length (x @ y)))"
proof -
  have "off + length x \<le> length d" "d1 = take off d @ x @ drop (off + length x) d"
    using assms by (auto simp: memcpy_Val_iff)
  then show ?thesis by (auto simp: memcpy_def nat_int_add ac_simps)
qed

lemma memcpy_prefix_crash:
  "memcpy d off x (int (length x)) = Crash \<Longrightarrow> memcpy d off (x @ y) (int (length (x @ y))) = Crash"
  by (auto simp: memcpy_def split: if_splits)

text \<open>A short read and then the rest is the same as both at once.\<close>

lemma read_bytes_split:
  assumes "reading s = ReadSome p n m" and "n + length x < m"
  shows "(read_bytes x s = None \<and> read_bytes (x @ y) s = None) \<or>
    (\<exists>t. read_bytes x s = Some t \<and> reading t = ReadSome p (n + length x) m \<and>
      read_bytes y t = read_bytes (x @ y) s)"
proof (cases "memcpy (recv_data s) n x (int (length x)) = Crash")
  case True
  then show ?thesis
    using assms memcpy_prefix_crash [OF True, of y] by (simp add: read_bytes_def on_read_def)
next
  case False
  then obtain d1 where d1: "memcpy (recv_data s) n x (int (length x)) = Val d1"
    using memcpy_cases by blast
  let ?t = "s\<lparr>recv_data := d1, reading := ReadSome p (n + length x) m\<rparr>"
  have "read_bytes x s = Some ?t"
    using assms d1 by (simp add: read_bytes_def on_read_def apply_close_def)
  moreover have "read_bytes y ?t = read_bytes (x @ y) s"
    using assms(1) memcpy_twice [OF d1, of y] memcpy_cases [of "recv_data s" n "x @ y" "int (length (x @ y))"]
    by (auto simp: read_bytes_def on_read_def add.assoc Let_def)
  ultimately show ?thesis by simp
qed

lemma deliver_step:
  assumes "reading s = ReadSome p n m" and "\<not> (n < m \<and> bytes = [])"
  shows "deliver s bytes = (case read_bytes (take (m - n) bytes) s of
      None \<Rightarrow> None | Some t \<Rightarrow> deliver t (drop (m - n) bytes))"
  using assms by (subst deliver.simps) auto

lemma deliver_append: "deliver s (a @ b) = Option.bind (deliver s a) (\<lambda>t. deliver t b)"
proof (induction s a rule: deliver.induct)
  case (1 s a)
  show ?case
  proof (cases "reading s")
    case NoRead
    then show ?thesis by (simp add: deliver.simps)
  next
    case (ReadSome p n m)
    note rd = this
    consider "n < m" "a = []" | "n < m" "a \<noteq> []" "length a < m - n" | "m - n \<le> length a" "\<not> (n < m \<and> a = [])"
      by linarith
    then show ?thesis
    proof cases
      case 1
      then show ?thesis using rd by (simp add: deliver.simps [of s "[]"])
    next
      case 2
      have nm: "n + length a < m" using 2(3) by simp
      let ?y = "take (m - (n + length a)) b"
      have tk: "take (m - n) (a @ b) = a @ ?y" "drop (m - n) (a @ b) = drop (m - (n + length a)) b"
        "take (m - n) a = a" "drop (m - n) a = []"
        using 2(3) by simp_all
      consider "read_bytes a s = None" "read_bytes (a @ ?y) s = None"
        | t where "read_bytes a s = Some t" "reading t = ReadSome p (n + length a) m"
          "read_bytes ?y t = read_bytes (a @ ?y) s"
        using read_bytes_split [OF rd nm, of ?y] by (elim disjE exE conjE) (rule that, assumption+)+
      then show ?thesis
      proof cases
        case 1
        then show ?thesis using rd 2 tk by (simp add: deliver.simps [of s])
      next
        case (2 t)
        have "deliver t [] = Some t" using 2 nm by (simp add: deliver.simps [of t])
        moreover have "deliver s a = deliver t []"
          using rd \<open>a \<noteq> []\<close> 2 tk by (simp add: deliver.simps [of s])
        moreover have "deliver s (a @ b) = deliver t b" if "b \<noteq> []"
          using rd \<open>a \<noteq> []\<close> that 2 nm
          by (simp add: deliver.simps [of s] deliver.simps [of t] tk(1,2) split: option.splits
              del: drop_append take_append)
        ultimately show ?thesis by (cases "b = []") simp_all
      qed
    next
      case 3
      have tk: "take (m - n) (a @ b) = take (m - n) a" "drop (m - n) (a @ b) = drop (m - n) a @ b"
        using 3(1) by simp_all
      have nb: "\<not> (n < m \<and> a @ b = [])" using 3(2) by auto
      show ?thesis
        unfolding deliver_step [OF rd 3(2)] deliver_step [OF rd nb] tk
        using "1" [OF rd 3(2)] by (simp split: option.splits)
    qed
  qed
qed

section \<open>Invariant of the reader\<close>

text \<open>
  The buffers have the sizes the reads rely on: \<open>_data\<close> holds \<open>MAX_LENGTH\<close> characters and no
  read asks for more; while a body is read, its node has room for it and for the final NUL.
\<close>

fun read_op_ok :: "read_op \<Rightarrow> RecvNode option \<Rightarrow> bool" where
  "read_op_ok NoRead node = True"
| "read_op_ok (ReadSome Head n m) node = (n < m \<and> m = HEAD_TOTAL_LEN)"
| "read_op_ok (ReadSome (Body len) n m) node =
     (0 \<le> len \<and> m = nat len \<and> m \<le> MAX_LENGTH \<and> (n < m \<or> m = 0 \<and> n = 0) \<and>
      (case node of None \<Rightarrow> False
       | Some r \<Rightarrow> length (node_data r) = m + 1 \<and> total_len r = word_of_nat m \<and> current_len r = 0))"

definition session_ok :: "CSession \<Rightarrow> bool" where
  "session_ok s \<longleftrightarrow> length (recv_data s) = MAX_LENGTH \<and>
     total_len (recv_head_node s) = word_of_nat HEAD_TOTAL_LEN \<and>
     length (node_data (recv_head_node s)) = HEAD_TOTAL_LEN + 1 \<and>
     read_op_ok (reading s) (recv_msg_node s)"

definition requested :: "CSession \<Rightarrow> nat" where
  "requested s = (case reading s of NoRead \<Rightarrow> 0 | ReadSome p n m \<Rightarrow> m - n)"

lemma new_CSession_ok: "session_ok (new_CSession uuid garbage)"
  by (simp add: session_ok_def new_CSession_def frame_consts)

lemma asyncReadHead_ok:
  "session_ok s \<Longrightarrow> session_ok (asyncReadHead (int HEAD_TOTAL_LEN) s)"
  by (simp add: session_ok_def reader_defs frame_consts)

lemma start_ok: "session_ok s \<Longrightarrow> session_ok (start s)"
  by (simp add: start_def asyncReadHead_ok)

lemma close_session_ok: "session_ok s \<Longrightarrow> session_ok (close_session s)"
  by (simp add: session_ok_def close_session_def)

lemma new_RecvNode_fits:
  "0 \<le> sint l \<Longrightarrow> new_RecvNode l i = Val \<lparr>current_len = 0, total_len = l,
     node_data = replicate (nat (sint l) + 1) (CHR 0x00), recv_msg_id = i\<rparr>"
  by (simp add: new_RecvNode_def new_MsgNode_def MsgNode.defs RecvNode.defs nat_add_distrib)

lemma word_of_nat_sint: "0 \<le> sint (l :: i16) \<Longrightarrow> word_of_nat (nat (sint l)) = l"
  by (simp add: sint_i16 split: if_splits)

definition head_stored :: "CSession \<Rightarrow> CSession" where
  "head_stored s = s\<lparr>recv_head_node := (recv_head_node s)\<lparr>current_len := 0,
     node_data := take 4 (recv_data s) @ drop 4 (node_data (recv_head_node s))\<rparr>\<rparr>"

text \<open>The handler of a complete header, case by case.\<close>

lemma head_handler_cases:
  assumes "session_ok s"
  defines "i \<equiv> from_be16 (recv_data s ! 0) (recv_data s ! 1)"
    and "l \<equiv> from_be16 (recv_data s ! 2) (recv_data s ! 3)"
  shows "head_handler False HEAD_TOTAL_LEN s =
    (if sint i > int MAX_LENGTH \<or> sint l > int MAX_LENGTH then (Val True, head_stored s)
     else if sint l < - 1 then (Val False, head_stored s)
     else if sint l = - 1 then (Crash, head_stored s)
     else (Val False, asyncReadBody (sint l) ((head_stored s)\<lparr>recv_msg_node :=
       Some \<lparr>current_len = 0, total_len = l, node_data = replicate (nat (sint l) + 1) (CHR 0x00),
             recv_msg_id = i\<rparr>\<rparr>)))"
proof -
  let ?d = "take 4 (recv_data s) @ drop 4 (node_data (recv_head_node s))"
  have "length (recv_data s) = 2048" using assms(1) by (simp add: session_ok_def MAX_LENGTH_def)
  then have nth: "?d ! k = recv_data s ! k" if "k < 4" for k
    using that by (simp add: nth_append)
  have cp: "memcpy (node_data (MsgNode_clear (recv_head_node s))) 0 (recv_data s) (int HEAD_TOTAL_LEN) = Val ?d"
    using assms(1) by (simp add: memcpy_def session_ok_def MsgNode_clear_def frame_consts)
  have st: "s\<lparr>recv_head_node := (MsgNode_clear (recv_head_node s))\<lparr>node_data := ?d\<rparr>\<rparr> = head_stored s"
    by (simp add: head_stored_def MsgNode_clear_def)
  have bad: "sint l < - 1 \<Longrightarrow> new_RecvNode l i = Exn BadAlloc" "sint l = - 1 \<Longrightarrow> new_RecvNode l i = Crash"
    by (simp_all add: new_RecvNode_def new_MsgNode_def)
  have idl: "from_be16 (?d ! 0) (?d ! 1) = i" "from_be16 (?d ! HEAD_ID_LEN) (?d ! (HEAD_ID_LEN + 1)) = l"
    using nth [of 0] nth [of 1] nth [of 2] nth [of 3] by (simp_all add: i_def l_def HEAD_ID_LEN_def)
  show ?thesis
    unfolding head_handler_def cp Let_def st idl result.case
    using bad new_RecvNode_fits [of l i] by auto
qed

lemma head_stored_ok: "session_ok s \<Longrightarrow> session_ok (head_stored s)"
  by (simp add: session_ok_def head_stored_def frame_consts)

lemma asyncReadBody_ok:
  assumes "session_ok s" and "0 \<le> sint l" and "sint l \<le> int MAX_LENGTH"
  shows "session_ok (asyncReadBody (sint l) (s\<lparr>recv_msg_node :=
       Some \<lparr>current_len = 0, total_len = l, node_data = replicate (nat (sint l) + 1) (CHR 0x00),
             recv_msg_id = i\<rparr>\<rparr>))"
  using assms by (auto simp: session_ok_def reader_defs MAX_LENGTH_def word_of_nat_sint)

lemma head_handler_ok:
  assumes "session_ok s"
  shows "session_ok (snd (head_handler False HEAD_TOTAL_LEN s))"
  unfolding head_handler_cases [OF assms]
  using head_stored_ok [OF assms] asyncReadBody_ok [OF head_stored_ok [OF assms]] by auto

lemma body_handler_complete:
  assumes "length (recv_data s) = MAX_LENGTH" and "recv_msg_node s = Some r"
    and "length (node_data r) = m + 1" and "total_len r = word_of_nat m" and "current_len r = 0"
    and "m \<le> MAX_LENGTH"
  defines "r' \<equiv> r\<lparr>node_data := take m (recv_data s) @ [CHR 0x00], current_len := word_of_nat m\<rparr>"
  shows "body_handler (int m) False m s =
    (Val False, asyncReadHead (int HEAD_TOTAL_LEN) (s\<lparr>recv_msg_node := Some r', posted := posted s @ [r']\<rparr>))"
proof -
  have tl: "sint (total_len r) = int m" using assms(4,6) by (simp add: MAX_LENGTH_def)
  have cp: "memcpy (node_data r) 0 (recv_data s) (int m) = Val (take m (recv_data s) @ drop m (node_data r))"
    using assms by (simp add: memcpy_def)
  have "length (drop m (node_data r)) = 1" using assms(3) by simp
  then obtain z where "drop m (node_data r) = [z]" by (metis One_nat_def length_0_conv length_Suc_conv)
  then have "(take m (recv_data s) @ drop m (node_data r))[m := CHR 0x00] = take m (recv_data s) @ [CHR 0x00]"
    using assms(1,6) by (simp add: list_update_append)
  then show ?thesis
    using assms(1-6) tl cp by (simp add: body_handler_def Let_def MAX_LENGTH_def r'_def)
qed

text \<open>What a completed read leaves in \<open>_data\<close>.\<close>

lemma on_read_store:
  assumes "session_ok s" and "reading s = ReadSome p n m" and "length bytes \<le> m - n" and "n \<le> m"
  shows "\<exists>d. memcpy (recv_data s) n bytes (int (length bytes)) = Val d \<and>
      length d = MAX_LENGTH \<and> take (n + length bytes) d = take n (recv_data s) @ bytes"
proof -
  have "m \<le> MAX_LENGTH" "length (recv_data s) = MAX_LENGTH"
    using assms(1,2) by (cases p; auto simp: session_ok_def frame_consts)+
  then show ?thesis using assms(3,4) by (auto simp: memcpy_def)
qed

lemma on_read_head:
  assumes "session_ok s" and "reading s = ReadSome Head n m" and "length bytes = m - n"
  shows "\<exists>d. on_read False bytes s = head_handler False HEAD_TOTAL_LEN (s\<lparr>recv_data := d, reading := NoRead\<rparr>) \<and>
    session_ok (s\<lparr>recv_data := d, reading := NoRead\<rparr>) \<and> take 4 d = take n (recv_data s) @ bytes"
proof -
  have nm: "n < m" "m = 4" using assms(1,2) by (simp_all add: session_ok_def HEAD_TOTAL_LEN_def)
  have le: "length bytes \<le> m - n" "n \<le> m" using assms(3) nm by simp_all
  obtain d where d: "memcpy (recv_data s) n bytes (int (length bytes)) = Val d" "length d = MAX_LENGTH"
      "take (n + length bytes) d = take n (recv_data s) @ bytes"
    using on_read_store [OF assms(1,2) le] by blast
  then show ?thesis
    using assms nm by (auto simp: on_read_def read_handler_def session_ok_def HEAD_TOTAL_LEN_def)
qed

lemma on_read_body:
  assumes "session_ok s" and "reading s = ReadSome (Body len) n m" and "length bytes = m - n"
  shows "\<exists>r r'. on_read False bytes s = (Val False, asyncReadHead (int HEAD_TOTAL_LEN)
      (s\<lparr>recv_msg_node := Some r', posted := posted s @ [r']\<rparr>)) \<and> recv_msg_node s = Some r \<and>
    r' = r\<lparr>node_data := take n (recv_data s) @ bytes @ [CHR 0x00], current_len := word_of_nat m\<rparr>"
proof -
  have f: "read_op_ok (ReadSome (Body len) n m) (recv_msg_node s)"
    using assms(1,2) by (simp add: session_ok_def del: read_op_ok.simps)
  then obtain r where r0: "recv_msg_node s = Some r" by (cases "recv_msg_node s") simp_all
  have r: "length (node_data r) = m + 1" "total_len r = word_of_nat m" "current_len r = 0"
    using f r0 by simp_all
  have m: "m \<le> MAX_LENGTH" "len = int m" "n \<le> m" using f by auto
  have le: "length bytes \<le> m - n" using assms(3) by simp
  obtain d where d: "memcpy (recv_data s) n bytes (int (length bytes)) = Val d" "length d = MAX_LENGTH"
      "take (n + length bytes) d = take n (recv_data s) @ bytes"
    using on_read_store [OF assms(1,2) le m(3)] by blast
  have nb: "n + length bytes = m" using assms(3) m(3) by simp
  have td: "take m d = take n (recv_data s) @ bytes" using d(3) by (simp only: nb)
  have "on_read False bytes s = body_handler (int m) False m (s\<lparr>recv_data := d, reading := NoRead\<rparr>)"
    using assms(2) d(1) m nb by (simp add: on_read_def read_handler_def)
  also have "\<dots> = (Val False, asyncReadHead (int HEAD_TOTAL_LEN) (s\<lparr>recv_data := d, reading := NoRead,
      recv_msg_node := Some (r\<lparr>node_data := take m d @ [CHR 0x00], current_len := word_of_nat m\<rparr>),
      posted := posted s @ [r\<lparr>node_data := take m d @ [CHR 0x00], current_len := word_of_nat m\<rparr>]\<rparr>))"
    using body_handler_complete [of "s\<lparr>recv_data := d, reading := NoRead\<rparr>" r m] r0 r d m(1) by simp
  finally show ?thesis
    using r0 d(2) td by (simp add: asyncReadHead_def asyncReadFull_def)
qed

lemma on_read_ok:
  assumes "session_ok s" and "length bytes \<le> requested s"
  shows "session_ok (snd (on_read ec bytes s))"
proof (cases "reading s")
  case NoRead
  then show ?thesis using assms(1) by (simp add: on_read_def)
next
  case (ReadSome p n m)
  have nm: "n \<le> m" using assms(1) ReadSome by (cases p) (auto simp: session_ok_def)
  have lb: "length bytes \<le> m - n" using assms(2) ReadSome by (simp add: requested_def)
  obtain d where d: "memcpy (recv_data s) n bytes (int (length bytes)) = Val d" "length d = MAX_LENGTH"
    using on_read_store [OF assms(1) ReadSome lb nm] by blast
  consider "ec" | "\<not> ec" "length bytes = m - n" | "\<not> ec" "n + length bytes < m" using lb nm by linarith
  then show ?thesis
  proof cases
    case 1
    have "read_handler p True k u = (Val True, u)" for k u
      by (cases p) (simp_all add: read_handler_def head_handler_def body_handler_def)
    then show ?thesis
      using 1 ReadSome d assms(1) by (simp add: on_read_def Let_def session_ok_def)
  next
    case 2
    show ?thesis
    proof (cases p)
      case Head
      obtain e where "on_read False bytes s =
          head_handler False HEAD_TOTAL_LEN (s\<lparr>recv_data := e, reading := NoRead\<rparr>)"
          "session_ok (s\<lparr>recv_data := e, reading := NoRead\<rparr>)"
        using on_read_head [OF assms(1) ReadSome [unfolded Head] 2(2)] by blast
      then show ?thesis using 2(1) head_handler_ok by simp
    next
      case (Body len)
      obtain r' where e: "on_read False bytes s = (Val False, asyncReadHead (int HEAD_TOTAL_LEN)
          (s\<lparr>recv_msg_node := Some r', posted := posted s @ [r']\<rparr>))"
        using on_read_body [OF assms(1) ReadSome [unfolded Body] 2(2)] by blast
      then show ?thesis
        using 2(1) assms(1) by (simp add: session_ok_def asyncReadHead_def asyncReadFull_def frame_consts)
    qed
  next
    case 3
    then show ?thesis
      using ReadSome d assms(1) by (cases p) (auto simp: on_read_def session_ok_def)
  qed
qed

text \<open>An incomplete or failed read never runs into undefined behaviour, nor does a body.\<close>

lemma on_read_no_crash:
  assumes "session_ok s" and "length bytes \<le> requested s"
    and "ec \<or> reading s = ReadSome (Body len) n m \<or> reading s = ReadSome p n m \<and> n + length bytes < m"
  shows "fst (on_read ec bytes s) \<noteq> Crash"
proof (cases "reading s")
  case NoRead
  then show ?thesis by (simp add: on_read_def)
next
  case (ReadSome q k l)
  have kl: "k \<le> l" using assms(1) ReadSome by (cases q) (auto simp: session_ok_def)
  have lb: "length bytes \<le> l - k" using assms(2) ReadSome by (simp add: requested_def)
  obtain d where d: "memcpy (recv_data s) k bytes (int (length bytes)) = Val d"
    using on_read_store [OF assms(1) ReadSome lb kl] by blast
  consider "ec" | "\<not> ec" "k + length bytes < l" | "\<not> ec" "length bytes = l - k" "q = Body len"
    using assms(3) ReadSome lb kl by fastforce
  then show ?thesis
  proof cases
    case 1
    then show ?thesis
      using ReadSome d by (cases q) (simp_all add: on_read_def Let_def read_handler_def head_handler_def body_handler_def)
  next
    case 2
    then show ?thesis using ReadSome d by (simp add: on_read_def)
  next
    case 3
    then show ?thesis using on_read_body [OF assms(1) _ 3(2)] ReadSome by auto
  qed
qed

lemma on_read_head_crash:
  assumes "session_ok s" and "reading s = ReadSome Head n HEAD_TOTAL_LEN" and "n + length bytes = HEAD_TOTAL_LEN"
  defines "h \<equiv> take n (recv_data s) @ bytes"
  shows "fst (on_read False bytes s) = Crash \<longleftrightarrow>
    sint (from_be16 (h ! 0) (h ! 1)) \<le> int MAX_LENGTH \<and> sint (from_be16 (h ! 2) (h ! 3)) = - 1"
proof -
  have lb: "length bytes = HEAD_TOTAL_LEN - n" using assms(3) by simp
  obtain d where d: "on_read False bytes s = head_handler False HEAD_TOTAL_LEN (s\<lparr>recv_data := d, reading := NoRead\<rparr>)"
      "session_ok (s\<lparr>recv_data := d, reading := NoRead\<rparr>)" "take 4 d = h"
    using on_read_head [OF assms(1,2) lb] unfolding h_def by blast
  have "d ! k = h ! k" if "k < 4" for k using that by (simp flip: d(3))
  then have "d ! 0 = h ! 0" "d ! 1 = h ! 1" "d ! 2 = h ! 2" "d ! 3 = h ! 3" by simp_all
  then show ?thesis
    unfolding d(1) head_handler_cases [OF d(2)] by (auto simp: MAX_LENGTH_def)
qed

section \<open>Client to server frames\<close>

definition server_ready :: "CSession \<Rightarrow> bool" where
  "server_ready s \<longleftrightarrow> session_ok s \<and> reading s = ReadSome Head 0 HEAD_TOTAL_LEN"

text \<open>The messages posted so far: the id and the \<open>_current_len\<close> bytes of each node.\<close>

definition server_out :: "CSession \<Rightarrow> (i16 \<times> string) list" where
  "server_out s = map (\<lambda>r. (recv_msg_id r, take (unat (current_len r)) (node_data r))) (posted s)"

definition server_accepts :: "i16 \<times> string \<Rightarrow> bool" where
  "server_accepts m \<longleftrightarrow> sint (fst m) \<le> int MAX_LENGTH \<and> length (snd m) \<le> MAX_LENGTH"

lemma posted_grows:
  "\<exists>ys. posted (snd (head_handler ec n s)) = posted s @ ys"
  "\<exists>ys. posted (snd (body_handler len ec n s)) = posted s @ ys"
  by (auto simp: head_handler_def body_handler_def Let_def reader_defs split: result.splits option.splits)

lemma read_bytes_posted:
  assumes "read_bytes b s = Some t"
  shows "\<exists>ys. posted t = posted s @ ys"
proof -
  obtain c u where u: "on_read False b s = (Val c, u)" "posted t = posted u"
    using assms by (auto simp: read_bytes_def apply_close_def close_session_def split: prod.splits result.splits)
  have h: "\<exists>ys. posted (snd (read_handler p ec n v)) = posted v @ ys" for p ec n v
    by (cases p) (simp_all add: read_handler_def posted_grows)
  have "\<exists>ys. posted (snd (on_read False b s)) = posted s @ ys"
  proof (cases "reading s")
    case (ReadSome p n m)
    then show ?thesis
      using memcpy_cases [of "recv_data s" n b "int (length b)"]
        h [of p False "n + length b" "s\<lparr>recv_data := d, reading := NoRead\<rparr>" for d]
      by (auto simp: on_read_def Let_def)
  qed (simp add: on_read_def)
  then show ?thesis using u by simp
qed

lemma deliver_posted: "deliver s b = Some t \<Longrightarrow> \<exists>ys. posted t = posted s @ ys"
proof (induction s b arbitrary: t rule: deliver.induct)
  case (1 s b)
  show ?case
  proof (cases "reading s")
    case NoRead
    then show ?thesis using 1(2) by (simp add: deliver.simps)
  next
    case (ReadSome p n m)
    show ?thesis
    proof (cases "n < m \<and> b = []")
      case True
      then show ?thesis using 1(2) ReadSome by (simp add: deliver.simps)
    next
      case False
      obtain u where u: "read_bytes (take (m - n) b) s = Some u" "deliver u (drop (m - n) b) = Some t"
        using 1(2) deliver_step [OF ReadSome False] by (auto split: option.splits)
      obtain ys where ys: "posted u = posted s @ ys" using read_bytes_posted [OF u(1)] by blast
      obtain zs where "posted t = posted u @ zs" using 1(1) [OF ReadSome False u(1) u(2)] by blast
      with ys show ?thesis by simp
    qed
  qed
qed

lemma head_of_frame:
  assumes "server_ready s" and "server_accepts (i, b)"
  shows "\<exists>t. read_bytes (be16 i @ be16 (word_of_nat (length b))) s = Some t \<and> session_ok t \<and>
    reading t = ReadSome (Body (int (length b))) 0 (length b) \<and> posted t = posted s \<and>
    map_option recv_msg_id (recv_msg_node t) = Some i"
proof -
  let ?h = "be16 i @ be16 (word_of_nat (length b))"
  have rd: "reading s = ReadSome Head 0 4" and ok: "session_ok s"
    using assms(1) by (simp_all add: server_ready_def HEAD_TOTAL_LEN_def)
  obtain d where d: "on_read False ?h s = head_handler False HEAD_TOTAL_LEN (s\<lparr>recv_data := d, reading := NoRead\<rparr>)"
      "session_ok (s\<lparr>recv_data := d, reading := NoRead\<rparr>)" "take 4 d = ?h"
    using on_read_head [OF ok rd, of ?h] by auto
  obtain a1 a2 where a: "be16 i = [a1, a2]" by (simp add: be16_def)
  obtain l1 l2 where l: "be16 (word_of_nat (length b)) = [l1, l2]" by (simp add: be16_def)
  have "d ! k = take 4 d ! k" if "k < 4" for k using that by simp
  then have nth: "d ! 0 = a1" "d ! 1 = a2" "d ! 2 = l1" "d ! 3 = l2"
    using d(3) by (simp_all add: a l)
  have sl: "sint (word_of_nat (length b) :: i16) = int (length b)" "sint i \<le> int MAX_LENGTH" "length b \<le> MAX_LENGTH"
    using assms(2) by (simp_all add: server_accepts_def MAX_LENGTH_def)
  let ?u = "s\<lparr>recv_data := d, reading := NoRead\<rparr>"
  let ?r = "\<lparr>current_len = 0, total_len = word_of_nat (length b),
     node_data = replicate (length b + 1) (CHR 0x00), recv_msg_id = i\<rparr>"
  have "on_read False ?h s = (Val False, asyncReadBody (int (length b)) ((head_stored ?u)\<lparr>recv_msg_node := Some ?r\<rparr>))"
    unfolding d(1) head_handler_cases [OF d(2)]
    using nth from_be16_hd [OF a] from_be16_hd [OF l] sl by simp
  moreover have "session_ok (asyncReadBody (int (length b)) ((head_stored ?u)\<lparr>recv_msg_node := Some ?r\<rparr>))"
    using asyncReadBody_ok [OF head_stored_ok [OF d(2)], of "word_of_nat (length b)" i] sl by simp
  ultimately show ?thesis
    using sl(3) by (simp add: read_bytes_def apply_close_def asyncReadBody_def asyncReadFull_def
        head_stored_def MAX_LENGTH_def)
qed

lemma body_of_frame:
  assumes "session_ok t" and "reading t = ReadSome (Body (int (length b))) 0 (length b)"
    and "map_option recv_msg_id (recv_msg_node t) = Some i"
  shows "\<exists>u. read_bytes b t = Some u \<and> server_ready u \<and> server_out u = server_out t @ [(i, b)]"
proof -
  have "length b \<le> MAX_LENGTH" using assms(1,2) by (simp add: session_ok_def)
  then have un: "unat (word_of_nat (length b) :: i16) = length b"
    by (intro unat_of_nat_i16) (simp add: MAX_LENGTH_def)
  obtain r r' where r: "on_read False b t = (Val False, asyncReadHead (int HEAD_TOTAL_LEN)
      (t\<lparr>recv_msg_node := Some r', posted := posted t @ [r']\<rparr>))" "recv_msg_node t = Some r"
    "r' = r\<lparr>node_data := b @ [CHR 0x00], current_len := word_of_nat (length b)\<rparr>"
    using on_read_body [OF assms(1,2), of b] by auto
  then show ?thesis
    using assms(1,3) un
    by (auto simp: read_bytes_def apply_close_def server_ready_def server_out_def session_ok_def
        asyncReadHead_def asyncReadFull_def HEAD_TOTAL_LEN_def)
qed

lemma deliver_frame:
  assumes "server_ready s" and "server_accepts m"
  shows "\<exists>u. deliver s (slot_send_data (fst m) (snd m)) = Some u \<and> server_ready u \<and>
    server_out u = server_out s @ [m]"
proof -
  obtain i b where m: "m = (i, b)" by fastforce
  let ?h = "be16 i @ be16 (word_of_nat (length b))"
  obtain t where t: "read_bytes ?h s = Some t" "session_ok t"
      "reading t = ReadSome (Body (int (length b))) 0 (length b)" "posted t = posted s"
      "map_option recv_msg_id (recv_msg_node t) = Some i"
    using head_of_frame assms m by blast
  obtain u where u: "read_bytes b t = Some u" "server_ready u" "server_out u = server_out t @ [(i, b)]"
    using body_of_frame [OF t(2,3,5)] by blast
  have rd: "reading s = ReadSome Head 0 4" using assms(1) by (simp add: server_ready_def HEAD_TOTAL_LEN_def)
  have "deliver s (?h @ b) = deliver t b"
    using t(1) by (subst deliver_step [OF rd]) (auto simp: be16_def)
  also have "\<dots> = deliver u []"
    using u(1) by (subst deliver_step [OF t(3)]) auto
  also have "\<dots> = Some u"
    using u(2) by (subst deliver.simps) (simp add: server_ready_def HEAD_TOTAL_LEN_def)
  finally show ?thesis
    using u t(4) m by (simp add: slot_send_data_def server_out_def Let_def)
qed

interpretation to_server: framing
  server_accepts "\<lambda>m. slot_send_data (fst m) (snd m)" server_ready deliver server_out
proof
  fix s t :: CSession and a b :: string and m :: "i16 \<times> string"
  show "deliver s (a @ b) = Option.bind (deliver s a) (\<lambda>t. deliver t b)" by (rule deliver_append)
  show "deliver s a = Some t \<Longrightarrow> \<exists>ys. server_out t = server_out s @ ys"
    by (auto simp: server_out_def dest: deliver_posted)
  show "\<exists>t. deliver s (slot_send_data (fst m) (snd m)) = Some t \<and> server_ready t \<and> server_out t = server_out s @ [m]"
    if "server_ready s" "server_accepts m"
    using that by (rule deliver_frame)
  show "deliver s [] = Some s" if "server_ready s"
    using that by (subst deliver.simps) (simp add: server_ready_def HEAD_TOTAL_LEN_def)
qed

section \<open>The send queue\<close>

text \<open>
  What happens to the writing side of a session: a call of \<open>send\<close>, or the completion of the
  write under way. \<open>accepted\<close> collects the frames of the calls that \<open>send\<close> took.
\<close>

datatype write_event = Send string i16 | WriteDone bool

fun write_step :: "write_event \<Rightarrow> CSession \<times> string list \<Rightarrow> CSession \<times> string list" where
  "write_step (Send msg i) (s, acc) =
     (case send msg i s of (r, t) \<Rightarrow>
        (t, if length (send_queue t) > length (send_queue s) then acc @ [frame i msg] else acc))"
| "write_step (WriteDone error) (s, acc) =
     (if send_queue s = [] then (s, acc)
      else (case handleWrite error s of (r, t) \<Rightarrow> (if r = Val True then close_session t else t, acc)))"

definition write_run :: "write_event list \<Rightarrow> CSession \<times> string list \<Rightarrow> CSession \<times> string list" where
  "write_run evs st = foldl (\<lambda>st e. write_step e st) st evs"

text \<open>
  The frames taken are those written, then those waiting behind the head of the queue; the head
  itself is the write under way, the last one started.
\<close>

definition queue_ok :: "CSession \<Rightarrow> string list \<Rightarrow> bool" where
  "queue_ok s acc \<longleftrightarrow> acc = writes s @ map send_bytes (tl (send_queue s)) \<and>
     (send_queue s \<noteq> [] \<longrightarrow> writes s \<noteq> [] \<and> last (writes s) = send_bytes (hd (send_queue s))) \<and>
     length (send_queue s) \<le> MAX_SENDQUE + 1"

lemma send_taken:
  assumes "length msg \<le> 32763" and "length (send_queue s) \<le> MAX_SENDQUE"
  shows "\<exists>node. send_bytes node = frame i msg \<and> send msg i s = (Val (),
     s\<lparr>send_queue := send_queue s @ [node],
       writes := (if send_queue s = [] then writes s @ [send_bytes node] else writes s)\<rparr>)"
  using new_SendNode_frame [OF assms(1), of i] assms(2) by (fastforce simp: send_def Let_def)

lemma send_queue_full: "length (send_queue s) > MAX_SENDQUE \<Longrightarrow> send msg i s = (Val (), s)"
  by (simp add: send_def)

lemma write_step_ok:
  assumes "queue_ok s acc" and "\<And>msg i. e = Send msg i \<Longrightarrow> length msg \<le> 32763"
    and "write_step e (s, acc) = (t, acc')"
  shows "queue_ok t acc'"
proof (cases e)
  case (Send msg i)
  then have len: "length msg \<le> 32763" using assms(2) by simp
  show ?thesis
  proof (cases "length (send_queue s) \<le> MAX_SENDQUE")
    case True
    from send_taken [OF len True, of i] obtain node where
      "send_bytes node = frame i msg" "send msg i s = (Val (), s\<lparr>send_queue := send_queue s @ [node],
         writes := (if send_queue s = [] then writes s @ [send_bytes node] else writes s)\<rparr>)" by blast
    then show ?thesis
      using assms(1,3) True Send by (cases "send_queue s = []") (auto simp: queue_ok_def)
  next
    case False
    then show ?thesis using assms(1,3) Send by (simp add: send_queue_full)
  qed
next
  case (WriteDone error)
  show ?thesis
  proof (cases "send_queue s = [] \<or> error")
    case True
    then show ?thesis
      using assms(1,3) WriteDone by (auto simp: handleWrite_def close_session_def queue_ok_def split: if_splits)
  next
    case False
    then obtain x q where "send_queue s = x # q" by (cases "send_queue s") auto
    then show ?thesis
      using assms(1,3) WriteDone False by (cases q) (auto simp: handleWrite_def queue_ok_def)
  qed
qed

lemma write_run_ok:
  assumes "queue_ok s acc" and "\<And>msg i. Send msg i \<in> set evs \<Longrightarrow> length msg \<le> 32763"
    and "write_run evs (s, acc) = (t, acc')"
  shows "queue_ok t acc'"
  using assms
proof (induction evs arbitrary: s acc)
  case Nil
  then show ?case by (simp add: write_run_def)
next
  case (Cons e evs)
  obtain u a where u: "write_step e (s, acc) = (u, a)" by fastforce
  have "queue_ok u a" by (rule write_step_ok [OF Cons.prems(1) _ u]) (use Cons.prems(2) in auto)
  moreover have "write_run evs (u, a) = (t, acc')" using Cons.prems(3) u by (simp add: write_run_def)
  ultimately show ?case using Cons.IH Cons.prems(2) by auto
qed

section \<open>Properties\<close>

text \<open>
  C11. Client to server: frames written by \<open>TcpMgr::slot_send_data\<close> with an id and a body length
  of at most 2048, arriving in pieces of any sizes on a started session, are posted to the logic
  layer once each, in order, with id and body unchanged, and the session is back to reading a
  header.
\<close>

theorem server_reads_client_frames:
  assumes "\<forall>m \<in> set ms. sint (fst m) \<le> int MAX_LENGTH \<and> length (snd m) \<le> MAX_LENGTH"
    and "concat chunks = concat (map (\<lambda>m. slot_send_data (fst m) (snd m)) ms)"
  shows "\<exists>s. feeds deliver (start (new_CSession uuid garbage)) chunks = Some s \<and>
    reading s = ReadSome Head 0 HEAD_TOTAL_LEN \<and>
    map (\<lambda>r. (recv_msg_id r, take (unat (current_len r)) (node_data r))) (posted s) = ms"
proof -
  have "server_ready (start (new_CSession uuid garbage))"
    using start_ok [OF new_CSession_ok]
    by (simp add: server_ready_def) (simp add: start_def reader_defs HEAD_TOTAL_LEN_def)
  moreover have "server_out (start (new_CSession uuid garbage)) = []"
    by (simp add: server_out_def start_def new_CSession_def reader_defs)
  ultimately show ?thesis
    using to_server.feeds_stream [of "start (new_CSession uuid garbage)" ms chunks] assms
    by (auto simp: list_all_iff server_accepts_def server_ready_def server_out_def)
qed

theorem server_reads_client_frames_witness:
  "\<exists>s. feeds deliver (start (new_CSession ''sid'' 7))
     [[char_of (3 :: nat), char_of (238 :: nat), char_of (0 :: nat)], [char_of (1 :: nat), CHR ''x''],
      slot_send_data 1008 []] = Some s \<and>
    reading s = ReadSome Head 0 HEAD_TOTAL_LEN \<and>
    map (\<lambda>r. (recv_msg_id r, take (unat (current_len r)) (node_data r))) (posted s) = [(1006, ''x''), (1008, [])]"
  using server_reads_client_frames [of "[(1006, ''x''), (1008, [])]"
     "[[char_of (3 :: nat), char_of (238 :: nat), char_of (0 :: nat)], [char_of (1 :: nat), CHR ''x''],
      slot_send_data 1008 []]" "''sid''" 7]
  by (simp add: slot_send_data_def be16_def MAX_LENGTH_def)

text \<open>
  C14. Memory safety of the reader: completions that bring at most the requested bytes keep every
  buffer size; the only undefined behaviour is a complete header with a valid id whose length
  field is -1 (bytes FF FF), for which the message node writes before its array.
\<close>

theorem reader_safety:
  assumes "session_ok s" and "length bytes \<le> requested s"
  shows "session_ok (snd (on_read ec bytes s)) \<and>
    (fst (on_read ec bytes s) = Crash \<longleftrightarrow>
      (\<exists>n. \<not> ec \<and> reading s = ReadSome Head n HEAD_TOTAL_LEN \<and> n + length bytes = HEAD_TOTAL_LEN \<and>
        (let h = take n (recv_data s) @ bytes in
         sint (from_be16 (h ! 0) (h ! 1)) \<le> int MAX_LENGTH \<and> sint (from_be16 (h ! 2) (h ! 3)) = - 1)))"
proof (intro conjI on_read_ok assms iffI)
  assume crash: "fst (on_read ec bytes s) = Crash"
  then obtain p n m where r: "reading s = ReadSome p n m" by (cases "reading s") (auto simp: on_read_def)
  have "\<not> ec" "\<not> n + length bytes < m" "p = Head"
    using on_read_no_crash [OF assms] crash r by (metis, metis, metis read_purpose.exhaust)
  then have "m = HEAD_TOTAL_LEN" "n + length bytes = HEAD_TOTAL_LEN"
    using assms r by (auto simp: session_ok_def requested_def)
  then show "\<exists>n. \<not> ec \<and> reading s = ReadSome Head n HEAD_TOTAL_LEN \<and> n + length bytes = HEAD_TOTAL_LEN \<and>
        (let h = take n (recv_data s) @ bytes in
         sint (from_be16 (h ! 0) (h ! 1)) \<le> int MAX_LENGTH \<and> sint (from_be16 (h ! 2) (h ! 3)) = - 1)"
    using r \<open>p = Head\<close> \<open>\<not> ec\<close> crash on_read_head_crash [OF assms(1)] by (simp add: Let_def)
qed (use on_read_head_crash [OF assms(1)] in \<open>auto simp: Let_def\<close>)

theorem reader_safety_witness:
  "fst (on_read False [char_of (3 :: nat), char_of (238 :: nat), char_of (255 :: nat), char_of (255 :: nat)]
     (start (new_CSession ''sid'' 0))) = Crash"
  using reader_safety [of "start (new_CSession ''sid'' 0)"
      "[char_of (3 :: nat), char_of (238 :: nat), char_of (255 :: nat), char_of (255 :: nat)]" False]
    start_ok [OF new_CSession_ok, of "''sid''" 0]
  by (simp add: requested_def start_def reader_defs HEAD_TOTAL_LEN_def from_be16_def MAX_LENGTH_def)

text \<open>
  The four outcomes of a complete header on a session in order: an id or a length above 2048
  closes the session; a length below -1 is accepted by the check and leaves the session open with
  no read outstanding, so that it never reads again; a length of -1 is undefined behaviour; any
  other length starts the read of exactly that many bytes.
\<close>

theorem header_outcomes:
  assumes "session_ok s"
  shows "let i = from_be16 (recv_data s ! 0) (recv_data s ! 1);
             l = from_be16 (recv_data s ! 2) (recv_data s ! 3);
             (r, t) = head_handler False HEAD_TOTAL_LEN (s\<lparr>reading := NoRead\<rparr>) in
    if sint i > int MAX_LENGTH \<or> sint l > int MAX_LENGTH then r = Val True
    else if sint l < - 1 then r = Val False \<and> reading t = NoRead \<and> b_close t = b_close s
    else if sint l = - 1 then r = Crash
    else r = Val False \<and> reading t = ReadSome (Body (sint l)) 0 (nat (sint l)) \<and>
      map_option recv_msg_id (recv_msg_node t) = Some i"
proof -
  have ok: "session_ok (s\<lparr>reading := NoRead\<rparr>)" using assms by (simp add: session_ok_def)
  show ?thesis
    unfolding head_handler_cases [OF ok]
    by (auto simp: Let_def head_stored_def asyncReadBody_def asyncReadFull_def MAX_LENGTH_def)
qed

theorem header_outcomes_witness:
  "let s = (new_CSession ''sid'' 0)\<lparr>recv_data := [char_of (3 :: nat), char_of (238 :: nat), char_of (255 :: nat),
       char_of (254 :: nat)] @ replicate 2044 (CHR 0x00)\<rparr>;
       (r, t) = head_handler False HEAD_TOTAL_LEN (s\<lparr>reading := NoRead\<rparr>) in
   r = Val False \<and> reading t = NoRead \<and> \<not> b_close t"
proof -
  let ?s = "(new_CSession ''sid'' 0)\<lparr>recv_data := [char_of (3 :: nat), char_of (238 :: nat), char_of (255 :: nat),
       char_of (254 :: nat)] @ replicate 2044 (CHR 0x00)\<rparr>"
  have "session_ok ?s" by (simp add: session_ok_def new_CSession_def frame_consts)
  moreover have "\<not> b_close ?s" by (simp add: new_CSession_def)
  ultimately show ?thesis
    using header_outcomes [of ?s] by (auto simp: Let_def from_be16_def MAX_LENGTH_def)
qed

text \<open>
  C18. Ordering of writes: for any sequence of \<open>send\<close> calls with bodies of at most 32763 bytes and
  write completions on a new session, the frames taken are written in the order of the calls, one
  at a time: the started writes and the frames still waiting are exactly the frames taken, the
  write under way is the head of the queue, and the queue never holds more than
  \<open>MAX_SENDQUE + 1\<close> frames.
\<close>

theorem writes_in_order:
  assumes "\<forall>e \<in> set evs. \<forall>msg i. e = Send msg i \<longrightarrow> length msg \<le> 32763"
    and "write_run evs (new_CSession uuid garbage, []) = (t, accepted)"
  shows "accepted = writes t @ map send_bytes (tl (send_queue t)) \<and>
     (send_queue t \<noteq> [] \<longrightarrow> last (writes t) = send_bytes (hd (send_queue t))) \<and>
     length (send_queue t) \<le> MAX_SENDQUE + 1"
  using write_run_ok [of "new_CSession uuid garbage" "[]" evs t accepted] assms
  by (auto simp: queue_ok_def new_CSession_def)

theorem writes_in_order_witness:
  "\<exists>t accepted. write_run [Send ''a'' 1007, Send ''b'' 1009, WriteDone False] (new_CSession ''sid'' 0, []) = (t, accepted) \<and>
     accepted = writes t @ map send_bytes (tl (send_queue t))"
proof -
  obtain t accepted where
    "write_run [Send ''a'' 1007, Send ''b'' 1009, WriteDone False] (new_CSession ''sid'' 0, []) = (t, accepted)"
    by fastforce
  with writes_in_order [OF _ this] show ?thesis by auto
qed

end
