(* ===== verification/Tools.thy ===== *)
theory Tools
  imports Prelude
begin

text \<open>
  The helpers of \<open>platform/tools.cpp\<close>, \<open>platform/Settings.cpp\<close> and
  \<open>platform/AsioIOServicePool.cpp\<close>, and their direct clients: \<open>splitSQLScript\<close> of the two
  data access objects and \<open>HttpConnection::preParseGetParam\<close> of the gate server. Strings are
  byte strings; an \<open>assert\<close> that fails is \<open>Crash\<close>.
\<close>

section \<open>URL encoding\<close>

definition ToHex :: "nat \<Rightarrow> nat" where
  "ToHex x = (if x > 9 then x + 55 else x + 48)"

definition FromHex :: "nat \<Rightarrow> nat option" where
  "FromHex x =
     (if 65 \<le> x \<and> x \<le> 90 then Some (x - 65 + 10)
      else if 97 \<le> x \<and> x \<le> 122 then Some (x - 97 + 10)
      else if 48 \<le> x \<and> x \<le> 57 then Some (x - 48)
      else None)"

definition url_plain :: "char \<Rightarrow> bool" where
  "url_plain c \<longleftrightarrow> is_alnum c \<or> c = CHR ''-'' \<or> c = CHR ''_'' \<or> c = CHR ''.'' \<or> c = CHR ''~''"

fun UrlEncode :: "string \<Rightarrow> string" where
  "UrlEncode [] = []"
| "UrlEncode (c # cs) =
     (if url_plain c then [c]
      else if c = CHR '' '' then ''+''
      else [CHR ''%'', char_of (ToHex (of_char c div 16)), char_of (ToHex (of_char c mod 16))])
     @ UrlEncode cs"

definition cons_result :: "char \<Rightarrow> string result \<Rightarrow> string result" where
  "cons_result c r = (case r of Val s \<Rightarrow> Val (c # s) | Exn e \<Rightarrow> Exn e | Waits \<Rightarrow> Waits | Crash \<Rightarrow> Crash)"

fun UrlDecode :: "string \<Rightarrow> string result" where
  "UrlDecode [] = Val []"
| "UrlDecode (c # cs) =
     (if c = CHR ''+'' then cons_result (CHR '' '') (UrlDecode cs)
      else if c = CHR ''%'' then
        (case cs of
           h # l # rest \<Rightarrow>
             (case (FromHex (of_char h), FromHex (of_char l)) of
                (Some high, Some low) \<Rightarrow> cons_result (char_of (high * 16 + low)) (UrlDecode rest)
              | _ \<Rightarrow> Crash)
         | _ \<Rightarrow> Crash)
      else cons_result c (UrlDecode cs))"

lemma FromHex_ToHex: "x < 16 \<Longrightarrow> FromHex (ToHex x) = Some x"
  by (simp add: FromHex_def ToHex_def)

lemma ToHex_less: "x < 16 \<Longrightarrow> ToHex x < 256"
  by (simp add: ToHex_def)

lemma of_char_div [simp]: "(of_char c :: nat) div 16 < 16"
  using nat_of_char_less_256 [of c] by (simp add: less_mult_imp_div_less)

lemma cons_result_Val [simp]: "cons_result c (Val s) = Val (c # s)"
  by (simp add: cons_result_def)

lemma UrlDecode_UrlEncode [simp]: "UrlDecode (UrlEncode s) = Val s"
proof (induction s)
  case (Cons c s)
  have "FromHex (of_char (char_of (ToHex (of_char c div 16)) :: char)) = Some (of_char c div 16)"
    "FromHex (of_char (char_of (ToHex (of_char c mod 16)) :: char)) = Some (of_char c mod 16)"
    by (simp_all add: FromHex_ToHex ToHex_less)
  moreover have "c \<noteq> CHR ''+'' \<and> c \<noteq> CHR ''%''" if "url_plain c"
    using that by (auto simp: url_plain_def is_alnum_def is_alpha_def is_digit_def)
  ultimately show ?case using Cons by (simp add: url_plain_def)
qed simp

text \<open>The encoding uses none of the characters that structure a URL.\<close>

lemma UrlEncode_chars: "c \<in> set (UrlEncode s) \<Longrightarrow> c \<noteq> CHR ''&'' \<and> c \<noteq> CHR ''='' \<and> c \<noteq> CHR ''?''"
proof (induction s)
  case (Cons x s)
  have hex: "ToHex k = of_char c" if "char_of (ToHex k) = c" "k < 16" for k c
    using that ToHex_less [of k] by auto
  have "char_of (ToHex k) \<noteq> CHR ''&'' \<and> char_of (ToHex k) \<noteq> CHR ''='' \<and> char_of (ToHex k) \<noteq> CHR ''?''"
    if "k < 16" for k
    using hex [OF _ that, of "CHR ''&''"] hex [OF _ that, of "CHR ''=''"] hex [OF _ that, of "CHR ''?''"] that
    by (auto simp: ToHex_def split: if_splits)
  moreover have "x \<noteq> CHR ''&'' \<and> x \<noteq> CHR ''='' \<and> x \<noteq> CHR ''?''" if "url_plain x"
    using that by (auto simp: url_plain_def is_alnum_def is_alpha_def is_digit_def)
  ultimately show ?case using Cons by (auto split: if_splits)
qed simp

section \<open>White space\<close>

definition trim_char :: "char \<Rightarrow> bool" where
  "trim_char c \<longleftrightarrow> c \<in> {CHR '' '', CHR 0x09, CHR 0x0A, CHR 0x0D}"

text \<open>\<open>find_first_not_of\<close>, \<open>find_last_not_of\<close> and \<open>substr\<close> of \<open>Trim\<close>.\<close>

definition Trim :: "string \<Rightarrow> string" where
  "Trim str = (if list_all trim_char str then []
     else rev (dropWhile trim_char (rev (dropWhile trim_char str))))"

definition RemoveWhitespace :: "string \<Rightarrow> string" where
  "RemoveWhitespace str = filter (\<lambda>c. \<not> is_space c) str"

section \<open>Splitting an SQL script\<close>

function split_statements :: "string \<Rightarrow> string list" where
  "split_statements content =
     (case split_at (CHR '';'') content of
        Some (piece, rest) \<Rightarrow>
          (let statement = Trim piece in
           if statement \<noteq> [] then statement # split_statements rest else split_statements rest)
      | None \<Rightarrow> (let last_statement = Trim content in
                 if last_statement \<noteq> [] then [last_statement] else []))"
  by pat_completeness auto
termination
  by (relation "measure length") (auto dest: split_at_length)

declare split_statements.simps [simp del]

definition splitSQLScript :: "string \<Rightarrow> string list" where
  "splitSQLScript sql_content = split_statements sql_content"

text \<open>The gate server's data access object has the same function.\<close>

definition gate_splitSQLScript :: "string \<Rightarrow> string list" where
  "gate_splitSQLScript sql_content = split_statements sql_content"

lemma Trim_alt: "Trim s = rev (dropWhile trim_char (rev (dropWhile trim_char s)))"
  by (auto simp: Trim_def list_all_iff dest: set_dropWhileD)

lemma Trim_append_blank: "list_all trim_char ws \<Longrightarrow> Trim (ws @ s) = Trim s"
  by (simp add: Trim_alt list_all_iff)

text \<open>What \<open>Trim\<close> removes, and that it leaves no blank at either end.\<close>

lemma Trim_split: "\<exists>pre suf. s = pre @ Trim s @ suf \<and> list_all trim_char pre \<and> list_all trim_char suf"
proof -
  let ?a = "dropWhile trim_char s"
  have "s = takeWhile trim_char s @ ?a" by simp
  moreover have "?a = rev (dropWhile trim_char (rev ?a)) @ rev (takeWhile trim_char (rev ?a))"
    by (metis rev_append rev_rev_ident takeWhile_dropWhile_id)
  ultimately show ?thesis
    by (intro exI [of _ "takeWhile trim_char s"] exI [of _ "rev (takeWhile trim_char (rev ?a))"])
      (auto simp: Trim_alt list_all_iff dest: set_takeWhileD)
qed

lemma Trim_ends:
  assumes "Trim s \<noteq> []"
  shows "\<not> trim_char (hd (Trim s)) \<and> \<not> trim_char (last (Trim s))"
proof -
  let ?a = "dropWhile trim_char s"
  let ?r = "dropWhile trim_char (rev ?a)"
  have r: "?r \<noteq> []" using assms by (simp add: Trim_alt)
  have "\<not> trim_char (hd ?r)" by (rule hd_dropWhile) (rule r)
  then have l: "\<not> trim_char (last (Trim s))" using r by (simp add: Trim_alt last_rev)
  have "?a = rev ?r @ rev (takeWhile trim_char (rev ?a))"
    by (metis rev_append rev_rev_ident takeWhile_dropWhile_id)
  then have "hd ?a = hd (rev ?r)" using r by (metis hd_append rev_is_Nil_conv)
  moreover have "?a \<noteq> []"
  proof
    assume "?a = []"
    then have "?r = []" by (simp only: rev.simps dropWhile.simps)
    with r show False by simp
  qed
  then have "\<not> trim_char (hd ?a)" by (rule hd_dropWhile)
  ultimately show ?thesis using l by (simp add: Trim_alt)
qed

lemma Trim_id: "s = [] \<or> \<not> trim_char (hd s) \<and> \<not> trim_char (last s) \<Longrightarrow> Trim s = s"
proof (cases s)
  case (Cons c cs)
  assume "s = [] \<or> \<not> trim_char (hd s) \<and> \<not> trim_char (last s)"
  then have c: "\<not> trim_char c" "\<not> trim_char (last s)" using Cons by simp_all
  have "dropWhile trim_char s = s" using Cons c by simp
  moreover have "dropWhile trim_char (rev s) = rev s"
    using c(2) Cons by (metis dropWhile.simps(2) last_ConsL last_ConsR last_rev list.exhaust_sel list.sel(1) rev_is_Nil_conv list.distinct(1) hd_rev)
  ultimately show ?thesis by (simp add: Trim_alt)
qed (simp add: Trim_def)

lemma Trim_idem [simp]: "Trim (Trim s) = Trim s"
  by (rule Trim_id) (use Trim_ends in blast)

lemma split_statements_last:
  "CHR '';'' \<notin> set s \<Longrightarrow> split_statements s = (if Trim s \<noteq> [] then [Trim s] else [])"
  by (subst split_statements.simps) (simp add: split_at_None [THEN iffD2] Let_def del: split_at_None)

lemma split_statements_more:
  "CHR '';'' \<notin> set a \<Longrightarrow> split_statements (a @ CHR '';'' # b) =
     (if Trim a \<noteq> [] then Trim a # split_statements b else split_statements b)"
  by (subst split_statements.simps) (simp add: Let_def)

lemma split_statements_sound:
  "st \<in> set (split_statements s) \<Longrightarrow> st \<noteq> [] \<and> CHR '';'' \<notin> set st \<and> Trim st = st"
proof (induction "length s" arbitrary: s rule: less_induct)
  case less
  have sub: "set (Trim u) \<subseteq> set u" for u
    using Trim_split [of u] by (metis Un_subset_iff set_append subset_refl sup_ge1 sup_ge2)
  show ?case
  proof (cases "split_at (CHR '';'') s")
    case None
    then have "CHR '';'' \<notin> set s" by simp
    then show ?thesis
      using less(2) sub [of s] by (auto simp: split_statements_last split: if_splits)
  next
    case (Some pr)
    obtain a b where "pr = (a, b)" by fastforce
    then have "s = a @ CHR '';'' # b" "CHR '';'' \<notin> set a" using Some split_at_SomeD by blast+
    then show ?thesis
      using less(2) less(1) [of b] sub [of a] by (auto simp: split_statements_more split: if_splits)
  qed
qed

lemma split_statements_complete:
  assumes "list_all (\<lambda>(ws, st). list_all trim_char ws \<and> Trim st = st \<and> st \<noteq> [] \<and> CHR '';'' \<notin> set st) xs"
    and "list_all trim_char rest"
  shows "split_statements (concat (map (\<lambda>(ws, st). ws @ st @ '';'') xs) @ rest) = map snd xs"
  using assms(1)
proof (induction xs)
  case Nil
  have "CHR '';'' \<notin> set rest" using assms(2) by (auto simp: list_all_iff trim_char_def)
  then show ?case using assms(2) by (simp add: split_statements_last Trim_def)
next
  case (Cons x xs)
  obtain ws st where x: "x = (ws, st)" by fastforce
  then have ws: "list_all trim_char ws" and st: "Trim st = st" "st \<noteq> []" "CHR '';'' \<notin> set (ws @ st)"
    using Cons.prems by (auto simp: list_all_iff trim_char_def)
  have "concat (map (\<lambda>(ws, st). ws @ st @ '';'') (x # xs)) @ rest =
      (ws @ st) @ CHR '';'' # (concat (map (\<lambda>(ws, st). ws @ st @ '';'') xs) @ rest)"
    by (simp add: x)
  also have "split_statements \<dots> = st # map snd xs"
    using Cons ws st by (subst split_statements_more) (simp_all add: Trim_append_blank)
  finally show ?case by (simp add: x)
qed

section \<open>Query parameters of a GET request\<close>

type_synonym params = "string \<rightharpoonup> string"

definition add_param :: "string \<Rightarrow> params \<Rightarrow> params result" where
  "add_param pair get_params =
     (case split_at (CHR ''='') pair of
        None \<Rightarrow> Val get_params
      | Some (k, v) \<Rightarrow>
          (case UrlDecode k of
             Val dk \<Rightarrow> (case UrlDecode v of Val dv \<Rightarrow> Val (get_params(dk \<mapsto> dv)) | _ \<Rightarrow> Crash)
           | _ \<Rightarrow> Crash))"

function parse_query :: "string \<Rightarrow> params \<Rightarrow> params result" where
  "parse_query query_string get_params =
     (case split_at (CHR ''&'') query_string of
        Some (pair, rest) \<Rightarrow>
          (case add_param pair get_params of Val m \<Rightarrow> parse_query rest m | r \<Rightarrow> r)
      | None \<Rightarrow> if query_string \<noteq> [] then add_param query_string get_params else Val get_params)"
  by pat_completeness auto
termination
  by (relation "measure (\<lambda>(q, m). length q)") (auto dest: split_at_length)

declare parse_query.simps [simp del]

definition preParseGetParam :: "string \<Rightarrow> params \<Rightarrow> (string \<times> params) result" where
  "preParseGetParam url get_params =
     (case split_at (CHR ''?'') url of
        None \<Rightarrow> Val (url, get_params)
      | Some (result_url, query_string) \<Rightarrow>
          (case parse_query query_string get_params of
             Val m \<Rightarrow> Val (result_url, m) | Exn e \<Rightarrow> Exn e | Waits \<Rightarrow> Waits | Crash \<Rightarrow> Crash))"

text \<open>A query string as a client writes it: encoded pairs with an ampersand between them.\<close>

fun query_of :: "(string \<times> string) list \<Rightarrow> string" where
  "query_of [] = []"
| "query_of [(k, v)] = UrlEncode k @ ''='' @ UrlEncode v"
| "query_of ((k, v) # kvs) = UrlEncode k @ ''='' @ UrlEncode v @ ''&'' @ query_of kvs"

lemma add_param_encoded: "add_param (UrlEncode k @ CHR ''='' # UrlEncode v) m = Val (m(k \<mapsto> v))"
proof -
  have "CHR ''='' \<notin> set (UrlEncode k)" using UrlEncode_chars by blast
  then show ?thesis by (simp add: add_param_def)
qed

lemma parse_query_of: "parse_query (query_of kvs) m = Val (m ++ map_of (rev kvs))"
proof (induction kvs arbitrary: m rule: query_of.induct)
  case 1
  then show ?case by (subst parse_query.simps) simp
next
  case (2 k v)
  have "CHR ''&'' \<notin> set (UrlEncode k @ ''='' @ UrlEncode v)" using UrlEncode_chars by auto
  then show ?case
    by (subst parse_query.simps) (simp add: split_at_None [THEN iffD2] add_param_encoded del: split_at_None)
next
  case (3 k v p kvs)
  have "CHR ''&'' \<notin> set (UrlEncode k @ ''='' @ UrlEncode v)" using UrlEncode_chars by auto
  then have "split_at (CHR ''&'') (query_of ((k, v) # p # kvs)) =
      Some (UrlEncode k @ ''='' @ UrlEncode v, query_of (p # kvs))"
    using split_at_append [of "CHR ''&''" "UrlEncode k @ ''='' @ UrlEncode v"] by simp
  then have "parse_query (query_of ((k, v) # p # kvs)) m = parse_query (query_of (p # kvs)) (m(k \<mapsto> v))"
    by (subst parse_query.simps) (simp add: add_param_encoded)
  moreover have "m ++ map_of (rev ((k, v) # p # kvs)) = m(k \<mapsto> v) ++ map_of (rev (p # kvs))"
    by (simp only: rev.simps(2) [of "(k, v)" "p # kvs"] map_of_append map_of.simps fst_conv snd_conv
        map_add_assoc map_add_upd map_add_empty)
  ultimately show ?case using 3 by (simp only:)
qed

section \<open>Settings\<close>

text \<open>The configuration: sections of keys; a \<open>ValueWrapper\<close> is its string.\<close>

type_synonym config_map = "string \<rightharpoonup> (string \<rightharpoonup> string)"

definition toInt :: "int \<Rightarrow> string \<Rightarrow> int" where
  "toInt default_value v = (case stoi v of Inr i \<Rightarrow> i | Inl _ \<Rightarrow> default_value)"

definition toBool :: "bool \<Rightarrow> string \<Rightarrow> bool" where
  "toBool default_value v =
     (if v = ''true'' \<or> v = ''1'' then True
      else if v = ''false'' \<or> v = ''0'' then False
      else default_value)"

definition getRawValue :: "string \<Rightarrow> config_map \<Rightarrow> string" where
  "getRawValue key cfg =
     (case split_at (CHR ''/'') key of
        Some (section_name, key_in_section) \<Rightarrow>
          (case cfg section_name of
             Some datas \<Rightarrow> (case datas key_in_section of Some v \<Rightarrow> v | None \<Rightarrow> [])
           | None \<Rightarrow> [])
      | None \<Rightarrow> [])"

definition settings_value :: "string \<Rightarrow> string \<Rightarrow> config_map \<Rightarrow> string" where
  "settings_value key default_value cfg =
     (let v = getRawValue key cfg in if v = [] then default_value else v)"

definition valueInt :: "string \<Rightarrow> int \<Rightarrow> config_map \<Rightarrow> int" where
  "valueInt key default_value cfg = toInt default_value (settings_value key [] cfg)"

definition valueBool :: "string \<Rightarrow> bool \<Rightarrow> config_map \<Rightarrow> bool" where
  "valueBool key default_value cfg = toBool default_value (settings_value key [] cfg)"

text \<open>\<open>setValue\<close> without saving: \<open>saveToFile\<close> only writes the file.\<close>

definition setValue :: "string \<Rightarrow> string \<Rightarrow> config_map \<Rightarrow> config_map" where
  "setValue key v cfg =
     (case split_at (CHR ''/'') key of
        Some (section_name, key_in_section) \<Rightarrow>
          cfg(section_name \<mapsto> (case cfg section_name of Some datas \<Rightarrow> datas | None \<Rightarrow> Map.empty)(key_in_section \<mapsto> v))
      | None \<Rightarrow> cfg)"

definition settings_exists :: "string \<Rightarrow> config_map \<Rightarrow> bool" where
  "settings_exists key cfg \<longleftrightarrow> cfg key \<noteq> None"

text \<open>\<open>load\<close>: \<open>ptree\<close> is what the property tree library read from the file, in file order.\<close>

definition load_settings :: "(string \<times> (string \<times> string) list) list \<Rightarrow> config_map \<Rightarrow> config_map" where
  "load_settings ptree cfg =
     foldl (\<lambda>m (section_name, items). m(section_name \<mapsto> foldl (\<lambda>d (k, v). d(k \<mapsto> v)) Map.empty items)) cfg ptree"

lemma split_at_inj:
  "split_at c s = Some p \<Longrightarrow> split_at c t = Some p \<Longrightarrow> s = t"
  by (cases p) (auto dest!: split_at_SomeD)

section \<open>AsioIOServicePool\<close>

text \<open>\<open>GetIOService\<close> on a pool of \<open>n\<close> contexts: the index handed out and the next one.\<close>

definition GetIOService :: "nat \<Rightarrow> nat \<Rightarrow> nat result \<times> nat" where
  "GetIOService n next_ioService =
     (if next_ioService < n
      then (Val next_ioService, if next_ioService + 1 = n then 0 else next_ioService + 1)
      else (Crash, next_ioService))"

fun io_services :: "nat \<Rightarrow> nat \<Rightarrow> nat \<Rightarrow> nat result list" where
  "io_services n 0 i = []"
| "io_services n (Suc k) i = (case GetIOService n i of (r, j) \<Rightarrow> r # io_services n k j)"

lemma io_services_round_robin:
  "i < n \<Longrightarrow> io_services n k i = map (\<lambda>j. Val ((i + j) mod n)) [0..<k]"
proof (induction k arbitrary: i)
  case (Suc k)
  have up: "[0..<Suc k] = 0 # map Suc [0..<k]" by (simp add: map_Suc_upt upt_conv_Cons)
  show ?case
  proof (cases "i + 1 = n")
    case True
    then have "(i + Suc j) mod n = j mod n" for j by (metis add_Suc_right add_Suc_shift mod_add_self1 plus_1_eq_Suc add.commute)
    then show ?thesis using Suc True unfolding up by (simp add: GetIOService_def comp_def)
  next
    case False
    then show ?thesis using Suc unfolding up by (simp add: GetIOService_def comp_def)
  qed
qed simp

section \<open>Properties\<close>

text \<open>
  Query parameters survive the URL: for every path without a question mark and every list of
  key/value pairs of arbitrary bytes, the gate server's \<open>preParseGetParam\<close> applied to the path
  and the URL-encoded pairs returns the path and exactly the pairs, the last one winning when a
  key occurs twice. No assertion of \<open>UrlDecode\<close> fails on what \<open>UrlEncode\<close> produced.
\<close>

theorem get_params_roundtrip:
  assumes "CHR ''?'' \<notin> set path"
  shows "preParseGetParam (path @ ''?'' @ query_of kvs) Map.empty = Val (path, map_of (rev kvs))"
  using assms by (simp add: preParseGetParam_def parse_query_of)

theorem get_params_roundtrip_witness:
  "preParseGetParam (''/get_test'' @ ''?'' @ query_of [(''k y'', ''a&b=c''), (''k2'', [])]) Map.empty =
     Val (''/get_test'', map_of [(''k2'', []), (''k y'', ''a&b=c'')])"
  using get_params_roundtrip [of "''/get_test''" "[(''k y'', ''a&b=c''), (''k2'', [])]"] by simp

text \<open>
  A request target can stop the gate server: a percent sign with fewer than two characters
  after it, or followed by a character that is neither a letter nor a digit, fails an assertion of
  \<open>UrlDecode\<close> when it occurs in the first parameter's key, whatever follows the next ampersand.
\<close>

theorem get_params_assertion:
  assumes "CHR ''?'' \<notin> set path" and "CHR ''%'' \<notin> set k" and "CHR ''='' \<notin> set k" and "CHR ''&'' \<notin> set k"
    and "bad \<in> {''%'', ''%4'', ''%!!''}"
  shows "preParseGetParam (path @ ''?'' @ k @ bad @ ''=v&'' @ rest) Map.empty = Crash"
proof -
  have dec: "UrlDecode (u @ bad) = Crash" if "CHR ''%'' \<notin> set u" for u
    using that assms(5) by (induction u) (auto simp: FromHex_def cons_result_def)
  have eq: "CHR ''='' \<notin> set (k @ bad)" "CHR ''&'' \<notin> set (k @ bad @ ''=v'')"
    using assms(3-5) by auto
  have "split_at (CHR ''='') ((k @ bad) @ CHR ''='' # ''v'') = Some (k @ bad, ''v'')"
    using eq(1) by (rule split_at_append)
  then have "add_param (k @ bad @ ''=v'') Map.empty = Crash"
    using dec [OF assms(2)] by (simp add: add_param_def)
  moreover have "split_at (CHR ''&'') ((k @ bad @ ''=v'') @ CHR ''&'' # rest) = Some (k @ bad @ ''=v'', rest)"
    using eq(2) by (rule split_at_append)
  ultimately have "parse_query (k @ bad @ ''=v&'' @ rest) Map.empty = Crash"
    by (subst parse_query.simps) simp
  then show ?thesis using assms(1) by (simp add: preParseGetParam_def)
qed

theorem get_params_assertion_witness:
  "preParseGetParam ''/get_test?key%!!=v&x=y'' Map.empty = Crash"
  using get_params_assertion [of "''/get_test''" "''key''" "''%!!''" "''x=y''"] by simp

text \<open>
  \<open>splitSQLScript\<close> of both data access objects: a script of statements, each followed by a
  semicolon, with blanks, tabs and line ends before, between and after them, is split into exactly
  its statements, in order; and whatever the script, each piece is a non-empty trimmed string
  without a semicolon.
\<close>

theorem splitSQLScript_statements:
  "(list_all (\<lambda>(ws, st). list_all trim_char ws \<and> Trim st = st \<and> st \<noteq> [] \<and> CHR '';'' \<notin> set st) xs \<and>
      list_all trim_char rest \<longrightarrow>
      splitSQLScript (concat (map (\<lambda>(ws, st). ws @ st @ '';'') xs) @ rest) = map snd xs \<and>
      gate_splitSQLScript (concat (map (\<lambda>(ws, st). ws @ st @ '';'') xs) @ rest) = map snd xs) \<and>
   list_all (\<lambda>st. st \<noteq> [] \<and> CHR '';'' \<notin> set st \<and> Trim st = st) (splitSQLScript s)"
  using split_statements_complete [of xs rest] split_statements_sound [of _ s]
  by (auto simp: splitSQLScript_def gate_splitSQLScript_def list_all_iff)

theorem splitSQLScript_statements_witness:
  "splitSQLScript (concat (map (\<lambda>(ws, st). ws @ st @ '';'') [([], ''A b''), ([CHR 0x0A, CHR '' ''], ''C'')]) @ [CHR 0x0A]) =
     [''A b'', ''C'']"
  using splitSQLScript_statements [of "[([], ''A b''), ([CHR 0x0A, CHR '' ''], ''C'')]" "[CHR 0x0A]" "[]"]
  by (simp add: trim_char_def Trim_def)

text \<open>
  Configuration values: after \<open>setValue\<close> with a key of the form section/key and a non-empty
  value, \<open>value\<close> returns that value, the other keys are as before, and \<open>exists\<close> answers for the
  section's name, not for the key.
\<close>

theorem settings_set_get:
  assumes "split_at (CHR ''/'') key = Some (section_name, k)" and "v \<noteq> []"
  shows "settings_value key d (setValue key v cfg) = v \<and>
    (\<forall>key'. key' \<noteq> key \<longrightarrow> getRawValue key' (setValue key v cfg) = getRawValue key' cfg) \<and>
    settings_exists section_name (setValue key v cfg) \<and>
    (settings_exists key (setValue key v cfg) \<longleftrightarrow> settings_exists key cfg)"
proof -
  have "key \<noteq> section_name" using split_at_SomeD [OF assms(1)] by auto
  moreover have "getRawValue key' (setValue key v cfg) = getRawValue key' cfg" if "key' \<noteq> key" for key'
    using that assms(1) split_at_inj [of "CHR ''/''" key' "(section_name, k)" key]
    by (auto simp: getRawValue_def setValue_def simp del: split_at_None split: option.splits prod.splits)
  ultimately show ?thesis
    using assms by (simp add: settings_value_def getRawValue_def setValue_def settings_exists_def Let_def)
qed

theorem settings_set_get_witness:
  "settings_value ''ChatServer/port'' [] (setValue ''ChatServer/port'' ''8090'' Map.empty) = ''8090''"
  using settings_set_get [of "''ChatServer/port''" "''ChatServer''" "''port''" "''8090''" "[]" Map.empty] by simp

text \<open>
  \<open>GetIOService\<close> on a pool of \<open>n > 0\<close> contexts hands them out in turn: the \<open>j\<close>-th of any
  number of calls gets context \<open>j mod n\<close>.
\<close>

theorem GetIOService_round_robin:
  assumes "0 < n"
  shows "io_services n k 0 = map (\<lambda>j. Val (j mod n)) [0..<k]"
  using io_services_round_robin [OF assms] by simp

theorem GetIOService_round_robin_witness: "io_services 3 5 0 = [Val 0, Val 1, Val 2, Val 0, Val 1]"
  using GetIOService_round_robin [of 3 5] by (simp add: upt_rec)

end
