(* ===== verification/Registry.thy ===== *)
theory Registry
  imports Prelude
begin

text \<open>
  Tables that components fill and others look up: the message callbacks of the chat server's
  \<open>LogicSystem\<close>, the sessions of \<open>UserMgr\<close>, the HTTP handlers of the gate server, the
  status server's list of chat servers. The locales state what a lookup finds after the
  insertions; \<open>dispatch\<close> is the part that tables which overwrite (\<open>overwriting\<close>) and
  tables which keep the first entry (\<open>first_wins\<close>) have in common.
\<close>

locale dispatch =
  fixes find :: "'s \<Rightarrow> 'k \<Rightarrow> 'v option"
    and put :: "'k \<Rightarrow> 'v \<Rightarrow> 's \<Rightarrow> 's"
  assumes find_put_new: "find s k = None \<Longrightarrow> find (put k v s) j = (if j = k then Some v else find s j)"
begin

definition puts :: "('k \<times> 'v) list \<Rightarrow> 's \<Rightarrow> 's" where
  "puts kvs = fold (\<lambda>(k, v). put k v) kvs"

lemma puts_Cons: "puts ((k, v) # kvs) s = puts kvs (put k v s)"
  by (simp add: puts_def)

lemma find_puts:
  assumes "distinct (map fst kvs)" and "\<And>k. k \<in> fst ` set kvs \<Longrightarrow> find s k = None"
  shows "find (puts kvs s) j = (case map_of kvs j of Some v \<Rightarrow> Some v | None \<Rightarrow> find s j)"
  using assms
proof (induction kvs arbitrary: s)
  case Nil
  then show ?case by (simp add: puts_def)
next
  case (Cons kv kvs)
  obtain k v where kv: "kv = (k, v)" by (cases kv)
  have k: "find s k = None" using Cons.prems(2) kv by simp
  have "find (put k v s) k' = None" if "k' \<in> fst ` set kvs" for k'
    using that Cons.prems kv find_put_new [OF k, of v k'] by auto
  then have "find (puts kvs (put k v s)) j = (case map_of kvs j of Some v \<Rightarrow> Some v | None \<Rightarrow> find (put k v s) j)"
    using Cons.IH Cons.prems(1) by (simp add: kv)
  then show ?case
    using Cons.prems(1) map_of_eq_None_iff [of kvs k]
    by (auto simp: kv puts_Cons find_put_new [OF k] split: option.split)
qed

end

text \<open>\<open>m[key] = value\<close>: the last entry wins.\<close>

locale overwriting = dispatch +
  assumes find_put_old: "find s k = Some u \<Longrightarrow> find (put k v s) j = (if j = k then Some v else find s j)"
begin

lemma find_put: "find (put k v s) j = (if j = k then Some v else find s j)"
  using find_put_new find_put_old by (cases "find s k") auto

end

text \<open>\<open>m.insert(...)\<close> or an insertion after a failed \<open>find\<close>: the first entry stays.\<close>

locale first_wins = dispatch +
  assumes put_old: "find s k = Some u \<Longrightarrow> find (put k v s) = find s"
begin

lemma find_keeps: "find s k = Some u \<Longrightarrow> find (put j v s) k = Some u"
  using find_put_new [of s j v k] put_old [of s j _ v] by (cases "find s j") auto

lemma puts_keep: "find s k = Some u \<Longrightarrow> find (puts kvs s) k = Some u"
proof (induction kvs arbitrary: s)
  case (Cons kv kvs)
  then show ?case by (cases kv) (simp add: puts_Cons find_keeps)
qed (simp add: puts_def)

end

text \<open>Tables whose entries can be removed.\<close>

locale erasable = overwriting find put
  for find :: "'s \<Rightarrow> 'k \<Rightarrow> 'v option"
    and put :: "'k \<Rightarrow> 'v \<Rightarrow> 's \<Rightarrow> 's" +
  fixes erase :: "'k \<Rightarrow> 's \<Rightarrow> 's"
  assumes find_erase: "find (erase k s) j = (if j = k then None else find s j)"
begin

lemma erase_after_put: "find (erase k (put k v s)) j = (if j = k then None else find s j)"
  by (simp add: find_erase find_put)

lemma put_after_erase: "find (put k v (erase k s)) j = find (put k v s) j"
  by (simp add: find_erase find_put)

end

end
