(* ===== verification/Constants.thy ===== *)
theory Constants
  imports Prelude
begin

text \<open>The enumerations, Redis key prefixes and texts that the servers share (\<open>platform/const.h\<close>).\<close>

datatype MSG_IDS =
    MSG_CHAT_LOGIN | MSG_CHAT_LOGIN_RSP | ID_SEARCH_USER_REQ | ID_SEARCH_USER_RSP
  | ID_ADD_FRIEND_REQ | ID_ADD_FRIEND_RSP | ID_NOTIFY_ADD_FRIEND_REQ
  | ID_AUTH_FRIEND_REQ | ID_AUTH_FRIEND_RSP | ID_NOTIFY_AUTH_FRIEND_REQ
  | ID_TEXT_CHAT_MSG_REQ | ID_TEXT_CHAT_MSG_RSP | ID_NOTIFY_TEXT_CHAT_MSG_REQ
  | ID_GET_HISTORY_MSG_REQ | ID_GET_HISTORY_MSG_RSP | ID_MARK_MSG_READ_REQ | ID_MARK_MSG_READ_RSP
  | ID_LOGIN_LOAD_UNREAD_CHAT_MSG

fun msg_id :: "MSG_IDS \<Rightarrow> i16" where
  "msg_id MSG_CHAT_LOGIN = 1006"
| "msg_id MSG_CHAT_LOGIN_RSP = 1007"
| "msg_id ID_SEARCH_USER_REQ = 1008"
| "msg_id ID_SEARCH_USER_RSP = 1009"
| "msg_id ID_ADD_FRIEND_REQ = 1010"
| "msg_id ID_ADD_FRIEND_RSP = 1011"
| "msg_id ID_NOTIFY_ADD_FRIEND_REQ = 1012"
| "msg_id ID_AUTH_FRIEND_REQ = 1013"
| "msg_id ID_AUTH_FRIEND_RSP = 1014"
| "msg_id ID_NOTIFY_AUTH_FRIEND_REQ = 1015"
| "msg_id ID_TEXT_CHAT_MSG_REQ = 1017"
| "msg_id ID_TEXT_CHAT_MSG_RSP = 1018"
| "msg_id ID_NOTIFY_TEXT_CHAT_MSG_REQ = 1019"
| "msg_id ID_GET_HISTORY_MSG_REQ = 1020"
| "msg_id ID_GET_HISTORY_MSG_RSP = 1021"
| "msg_id ID_MARK_MSG_READ_REQ = 1022"
| "msg_id ID_MARK_MSG_READ_RSP = 1023"
| "msg_id ID_LOGIN_LOAD_UNREAD_CHAT_MSG = 1024"

datatype ErrorCodes =
    Success | Error_Json | RPCFailed | VarifyExpired | VarifyCodeErr | UserExist | PasswdErr
  | EmailNotMatch | PasswdUpdataFailed | PasswdInvalid | UserNotExist | TokenInvalid | UidInvalid | DbError

fun error_code :: "ErrorCodes \<Rightarrow> int" where
  "error_code Success = 0"
| "error_code Error_Json = 1001"
| "error_code RPCFailed = 1002"
| "error_code VarifyExpired = 1003"
| "error_code VarifyCodeErr = 1004"
| "error_code UserExist = 1005"
| "error_code PasswdErr = 1006"
| "error_code EmailNotMatch = 1007"
| "error_code PasswdUpdataFailed = 1008"
| "error_code PasswdInvalid = 1009"
| "error_code UserNotExist = 1010"
| "error_code TokenInvalid = 1011"
| "error_code UidInvalid = 1012"
| "error_code DbError = 1013"

definition CODE_PREFIX :: string where "CODE_PREFIX = ''code_''"
definition USERIPPREFIX :: string where "USERIPPREFIX = ''uip_''"
definition LOGIN_COUNT :: string where "LOGIN_COUNT = ''logincount''"
definition USERTOKENPREFIX :: string where "USERTOKENPREFIX = ''utoken_''"
definition USER_BASE_INFO :: string where "USER_BASE_INFO = ''ubaseinfo_''"

lemmas key_prefixes = CODE_PREFIX_def USERIPPREFIX_def LOGIN_COUNT_def USERTOKENPREFIX_def USER_BASE_INFO_def

lemma msg_id_inj: "msg_id a = msg_id b \<longleftrightarrow> a = b"
  by (cases a; cases b) simp_all

lemma error_code_inj: "error_code a = error_code b \<longleftrightarrow> a = b"
  by (cases a; cases b) simp_all

lemma error_code_range: "INT_MIN \<le> error_code a \<and> error_code a \<le> INT_MAX"
  by (cases a) (simp_all add: INT_MIN_def INT_MAX_def)

text \<open>The UTF-8 bytes of the Chinese texts in replies, written by their code points' bytes.\<close>

definition bytes :: "nat list \<Rightarrow> string" where
  "bytes = map char_of"

end
