(* ===== verification/RedisManager.thy ===== *)
theory RedisManager
  imports ConnPool "HOL-Library.AList"
begin

text \<open>
  \<open>RedisManager\<close> (\<open>platform/RedisManager.cpp\<close>): one function per Redis command, each taking a
  connection from the pool, sending the command and giving the connection back. The Redis
  server behind hiredis is a parameter \<open>redis\<close>: connection, call and server state to a reply
  (\<open>None\<close> is a null reply, a broken connection) and the new server state.

  \<open>redis_doc\<close> writes down the documented effect of the commands used here on a key space, and
  \<open>redis_documented\<close> is the hypothesis that the parameter follows it.
\<close>

datatype redisReply =
    RString string | RArray "redisReply list" | RInteger int | RNil | RStatus string | RError string

datatype redis_call =
    RedisCommand string "string list"      \<comment> \<open>\<open>redisCommand(c, format, ...)\<close>\<close>
  | RedisCommandArgv "string list"         \<comment> \<open>\<open>redisCommandArgv\<close>\<close>

type_synonym 'r redis_fun = "nat \<Rightarrow> redis_call \<Rightarrow> 'r \<Rightarrow> redisReply option \<times> 'r"

record 'r RedisManager =
  redis_pool :: "nat conn_pool"
  redis_server :: 'r

text \<open>\<open>c_str()\<close> handed to a C function: the characters before the first NUL.\<close>

definition c_str :: "string \<Rightarrow> string" where
  "c_str s = takeWhile (\<lambda>c. c \<noteq> CHR 0x00) s"

text \<open>\<open>std::string(reply->str)\<close>: the pointer is null unless the reply carries a string.\<close>

fun reply_str :: "redisReply \<Rightarrow> string result" where
  "reply_str (RString s) = Val (c_str s)"
| "reply_str (RStatus s) = Val (c_str s)"
| "reply_str (RError s) = Val (c_str s)"
| "reply_str _ = Crash"

text \<open>
  The frame of most operations: \<open>getConnection\<close>, \<open>nullptr\<close> ends the call with \<open>dflt\<close>, the
  command is sent, and a \<open>Defer\<close> gives the connection back whatever \<open>body\<close> does with the reply.
\<close>

definition with_connection ::
    "'r redis_fun \<Rightarrow> redis_call \<Rightarrow> 'a \<Rightarrow> (redisReply option \<Rightarrow> 'a result) \<Rightarrow> ('r RedisManager, 'a) prog" where
  "with_connection redis call dflt body m =
     (case redis_getConnection (redis_pool m) of
        (Val None, p) \<Rightarrow> (Val dflt, m\<lparr>redis_pool := p\<rparr>)
      | (Val (Some connect), p) \<Rightarrow>
          (case redis connect call (redis_server m) of (reply, r) \<Rightarrow>
             (body reply, m\<lparr>redis_pool := redis_returnConnection (Some connect) p, redis_server := r\<rparr>))
      | (Exn e, p) \<Rightarrow> (Exn e, m\<lparr>redis_pool := p\<rparr>)
      | (Waits, p) \<Rightarrow> (Waits, m\<lparr>redis_pool := p\<rparr>)
      | (Crash, p) \<Rightarrow> (Crash, m\<lparr>redis_pool := p\<rparr>))"

text \<open>
  The frame of \<open>hdel\<close>, \<open>execute\<close>, \<open>hkeys\<close> and \<open>zrevrange\<close>: they return on a null reply before
  the \<open>Defer\<close> object exists, so the connection does not go back.
\<close>

definition with_connection_late ::
    "'r redis_fun \<Rightarrow> redis_call \<Rightarrow> 'a \<Rightarrow> (redisReply \<Rightarrow> 'a result) \<Rightarrow> ('r RedisManager, 'a) prog" where
  "with_connection_late redis call dflt body m =
     (case redis_getConnection (redis_pool m) of
        (Val None, p) \<Rightarrow> (Val dflt, m\<lparr>redis_pool := p\<rparr>)
      | (Val (Some connect), p) \<Rightarrow>
          (case redis connect call (redis_server m) of
             (None, r) \<Rightarrow> (Val dflt, m\<lparr>redis_pool := p, redis_server := r\<rparr>)
           | (Some reply, r) \<Rightarrow>
               (body reply, m\<lparr>redis_pool := redis_returnConnection (Some connect) p, redis_server := r\<rparr>))
      | (Exn e, p) \<Rightarrow> (Exn e, m\<lparr>redis_pool := p\<rparr>)
      | (Waits, p) \<Rightarrow> (Waits, m\<lparr>redis_pool := p\<rparr>)
      | (Crash, p) \<Rightarrow> (Crash, m\<lparr>redis_pool := p\<rparr>))"

section \<open>The operations\<close>

text \<open>An out parameter \<open>std::string\& value\<close> is passed in and returned with the result.\<close>

definition redis_set :: "'r redis_fun \<Rightarrow> string \<Rightarrow> string \<Rightarrow> ('r RedisManager, bool) prog" where
  "redis_set redis key v =
     with_connection redis (RedisCommand ''SET %s %s'' [c_str key, c_str v]) False
       (\<lambda>reply. case reply of
          None \<Rightarrow> Val False
        | Some rep \<Rightarrow> (case rep of
              RStatus s \<Rightarrow> Val (c_str s = ''OK'' \<or> c_str s = ''ok'')
            | _ \<Rightarrow> Val False))"

definition redis_get :: "'r redis_fun \<Rightarrow> string \<Rightarrow> string \<Rightarrow> ('r RedisManager, bool \<times> string) prog" where
  "redis_get redis key v =
     with_connection redis (RedisCommand ''GET %s'' [c_str key]) (False, v)
       (\<lambda>reply. case reply of
          None \<Rightarrow> Val (False, v)
        | Some rep \<Rightarrow> (case rep of RString s \<Rightarrow> Val (True, c_str s) | _ \<Rightarrow> Val (False, v)))"

definition rpush :: "'r redis_fun \<Rightarrow> string \<Rightarrow> string \<Rightarrow> ('r RedisManager, bool) prog" where
  "rpush redis key v =
     with_connection redis (RedisCommand ''RPUSH %s %s'' [c_str key, c_str v]) False
       (\<lambda>reply. case reply of
          None \<Rightarrow> Val False
        | Some rep \<Rightarrow> (case rep of RInteger i \<Rightarrow> Val (\<not> i \<le> 0) | _ \<Rightarrow> Val False))"

text \<open>\<open>rpop\<close> and \<open>lpop\<close> test the reply for NIL only.\<close>

definition pop_reply :: "string \<Rightarrow> redisReply option \<Rightarrow> (bool \<times> string) result" where
  "pop_reply v reply =
     (case reply of
        None \<Rightarrow> Val (False, v)
      | Some rep \<Rightarrow> if rep = RNil then Val (False, v)
          else (case reply_str rep of Val s \<Rightarrow> Val (True, s) | _ \<Rightarrow> Crash))"

definition rpop :: "'r redis_fun \<Rightarrow> string \<Rightarrow> string \<Rightarrow> ('r RedisManager, bool \<times> string) prog" where
  "rpop redis key v = with_connection redis (RedisCommand ''RPOP %s '' [c_str key]) (False, v) (pop_reply v)"

definition lpush :: "'r redis_fun \<Rightarrow> string \<Rightarrow> string \<Rightarrow> ('r RedisManager, bool) prog" where
  "lpush redis key v =
     with_connection redis (RedisCommand ''LPUSH %s %s'' [c_str key, c_str v]) False
       (\<lambda>reply. case reply of
          None \<Rightarrow> Val False
        | Some rep \<Rightarrow> (case rep of RInteger i \<Rightarrow> Val (\<not> i \<le> 0) | _ \<Rightarrow> Val False))"

definition lpop :: "'r redis_fun \<Rightarrow> string \<Rightarrow> string \<Rightarrow> ('r RedisManager, bool \<times> string) prog" where
  "lpop redis key v = with_connection redis (RedisCommand ''LPOP %s '' [c_str key]) (False, v) (pop_reply v)"

text \<open>\<open>reply == nullptr || reply->type != REDIS_REPLY_INTEGER\<close> is a failure.\<close>

definition integer_reply :: "redisReply option \<Rightarrow> bool result" where
  "integer_reply reply = (case reply of Some (RInteger _) \<Rightarrow> Val True | _ \<Rightarrow> Val False)"

definition hset :: "'r redis_fun \<Rightarrow> string \<Rightarrow> string \<Rightarrow> string \<Rightarrow> ('r RedisManager, bool) prog" where
  "hset redis key hkey v =
     with_connection redis (RedisCommand ''HSET %s %s %s'' [c_str key, c_str hkey, c_str v]) False integer_reply"

definition hset_chars :: "'r redis_fun \<Rightarrow> string \<Rightarrow> string \<Rightarrow> string \<Rightarrow> nat \<Rightarrow> ('r RedisManager, bool) prog" where
  "hset_chars redis key hkey hvalue hvaluelen =
     with_connection redis (RedisCommandArgv [''HSET'', c_str key, c_str hkey, take hvaluelen hvalue]) False integer_reply"

text \<open>
  \<open>hget\<close> leaves the failure branch with \<open>return "";\<close>: the pointer to the empty string converts
  to \<open>true\<close>, and \<open>value\<close> keeps what it held.
\<close>

definition hget :: "'r redis_fun \<Rightarrow> string \<Rightarrow> string \<Rightarrow> string \<Rightarrow> ('r RedisManager, bool \<times> string) prog" where
  "hget redis key hkey v =
     with_connection redis (RedisCommandArgv [''HGET'', key, hkey]) (False, v)
       (\<lambda>reply. case reply of
          None \<Rightarrow> Val (True, v)
        | Some rep \<Rightarrow> if rep = RNil then Val (True, v)
            else (case reply_str rep of Val s \<Rightarrow> Val (True, s) | _ \<Rightarrow> Crash))"

definition redis_del :: "'r redis_fun \<Rightarrow> string \<Rightarrow> ('r RedisManager, bool) prog" where
  "redis_del redis key = with_connection redis (RedisCommand ''DEL %s'' [c_str key]) False integer_reply"

definition hdel :: "'r redis_fun \<Rightarrow> string \<Rightarrow> string \<Rightarrow> ('r RedisManager, bool) prog" where
  "hdel redis key field =
     with_connection_late redis (RedisCommand ''HDEL %s %s'' [c_str key, c_str field]) False
       (\<lambda>reply. case reply of RInteger i \<Rightarrow> Val (i > 0) | _ \<Rightarrow> Val False)"

definition nonzero_reply :: "redisReply option \<Rightarrow> bool result" where
  "nonzero_reply reply = (case reply of Some (RInteger i) \<Rightarrow> Val (i \<noteq> 0) | _ \<Rightarrow> Val False)"

definition existsKey :: "'r redis_fun \<Rightarrow> string \<Rightarrow> ('r RedisManager, bool) prog" where
  "existsKey redis key = with_connection redis (RedisCommand ''exists %s'' [c_str key]) False nonzero_reply"

definition expire :: "'r redis_fun \<Rightarrow> string \<Rightarrow> int \<Rightarrow> ('r RedisManager, bool) prog" where
  "expire redis key seconds =
     with_connection redis (RedisCommand ''EXPIRE %s %d'' [c_str key, to_string seconds]) False nonzero_reply"

text \<open>
  \<open>execute\<close> hands its command to \<open>redisCommand\<close> as the format, with no further argument. A conversion
  \<open>%s\<close> or \<open>%b\<close> in it makes the variadic function read an argument that was not passed, which is
  undefined; \<open>%%\<close> asks for none.
\<close>

fun asks_argument :: "string \<Rightarrow> bool" where
  "asks_argument (c # d # cs) =
     (if c = CHR ''%'' then d = CHR ''s'' \<or> d = CHR ''b'' \<or> asks_argument cs else asks_argument (d # cs))"
| "asks_argument _ = False"

definition redis_execute :: "'r redis_fun \<Rightarrow> string \<Rightarrow> ('r RedisManager, bool) prog" where
  "redis_execute redis command m =
     (if asks_argument (c_str command) \<and> \<not> is_stop (redis_pool m) \<and> connections (redis_pool m) \<noteq> [] then (Crash, m)
      else with_connection_late redis (RedisCommand (c_str command) []) False
        (\<lambda>reply. case reply of RError _ \<Rightarrow> Val False | _ \<Rightarrow> Val True) m)"

text \<open>The loop that pushes \<open>element[i]->str\<close>.\<close>

fun element_strs :: "redisReply list \<Rightarrow> string list result" where
  "element_strs [] = Val []"
| "element_strs (r # rs) =
     (case reply_str r of
        Val s \<Rightarrow> (case element_strs rs of Val ss \<Rightarrow> Val (s # ss) | e \<Rightarrow> e)
      | _ \<Rightarrow> Crash)"

definition push_elements :: "string list \<Rightarrow> redisReply \<Rightarrow> (bool \<times> string list) result" where
  "push_elements vs rep =
     (case rep of
        RArray rs \<Rightarrow> (case element_strs rs of Val ss \<Rightarrow> Val (True, vs @ ss) | _ \<Rightarrow> Crash)
      | _ \<Rightarrow> Val (True, vs))"

definition lrange :: "'r redis_fun \<Rightarrow> string \<Rightarrow> string list \<Rightarrow> ('r RedisManager, bool \<times> string list) prog" where
  "lrange redis key vs =
     with_connection redis (RedisCommand ''LRANGE %s 0 -1'' [c_str key]) (False, vs)
       (\<lambda>reply. case reply of None \<Rightarrow> Val (False, vs) | Some rep \<Rightarrow> push_elements vs rep)"

definition hkeys :: "'r redis_fun \<Rightarrow> string \<Rightarrow> string list \<Rightarrow> ('r RedisManager, bool \<times> string list) prog" where
  "hkeys redis key flds =
     with_connection_late redis (RedisCommand ''HKEYS %s'' [c_str key]) (False, flds) (push_elements flds)"

definition zrevrange :: "'r redis_fun \<Rightarrow> string \<Rightarrow> int \<Rightarrow> int \<Rightarrow> ('r RedisManager, string list) prog" where
  "zrevrange redis key start stop =
     with_connection_late redis (RedisCommand ''ZREVRANGE %s %d %d'' [c_str key, to_string start, to_string stop]) []
       (\<lambda>reply. case reply of
          RArray rs \<Rightarrow> Val (concat (map (\<lambda>r. case r of RString s \<Rightarrow> [c_str s] | _ \<Rightarrow> []) rs))
        | _ \<Rightarrow> Val [])"

definition redis_manager_close :: "'r RedisManager \<Rightarrow> 'r RedisManager" where
  "redis_manager_close m = m\<lparr>redis_pool := redis_close (redis_pool m)\<rparr>"

lemmas [redis_defs] = redis_set_def redis_get_def rpush_def rpop_def lpush_def lpop_def hset_def
  hset_chars_def hget_def redis_del_def existsKey_def expire_def lrange_def

lemmas late_defs = hdel_def redis_execute_def hkeys_def zrevrange_def

section \<open>Documented behaviour of the Redis commands\<close>

datatype rvalue = VStr string | VList "string list" | VHash "(string \<times> string) list"
  | VZset "(string \<times> string) list"    \<comment> \<open>members with their scores\<close>

type_synonym keyspace = "string \<rightharpoonup> rvalue"

definition WRONGTYPE :: redisReply where
  "WRONGTYPE = RError ''WRONGTYPE Operation against a key holding the wrong kind of value''"

definition doc_hset :: "string \<Rightarrow> string \<Rightarrow> string \<Rightarrow> keyspace \<Rightarrow> redisReply \<times> keyspace" where
  "doc_hset k f v ks =
     (case ks k of
        None \<Rightarrow> (RInteger 1, ks(k \<mapsto> VHash [(f, v)]))
      | Some (VHash h) \<Rightarrow> (RInteger (if f \<in> fst ` set h then 0 else 1), ks(k \<mapsto> VHash (AList.update f v h)))
      | _ \<Rightarrow> (WRONGTYPE, ks))"

definition doc_hget :: "string \<Rightarrow> string \<Rightarrow> keyspace \<Rightarrow> redisReply" where
  "doc_hget k f ks =
     (case ks k of
        None \<Rightarrow> RNil
      | Some (VHash h) \<Rightarrow> (case map_of h f of Some v \<Rightarrow> RString v | None \<Rightarrow> RNil)
      | _ \<Rightarrow> WRONGTYPE)"

definition doc_push :: "(string list \<Rightarrow> string list) \<Rightarrow> string \<Rightarrow> keyspace \<Rightarrow> redisReply \<times> keyspace" where
  "doc_push f k ks =
     (case ks k of
        None \<Rightarrow> (RInteger (int (length (f []))), ks(k \<mapsto> VList (f [])))
      | Some (VList xs) \<Rightarrow> (RInteger (int (length (f xs))), ks(k \<mapsto> VList (f xs)))
      | _ \<Rightarrow> (WRONGTYPE, ks))"

definition put_list :: "string \<Rightarrow> string list \<Rightarrow> keyspace \<Rightarrow> keyspace" where
  "put_list k xs ks = (if xs = [] then ks(k := None) else ks(k \<mapsto> VList xs))"

definition put_hash :: "string \<Rightarrow> (string \<times> string) list \<Rightarrow> keyspace \<Rightarrow> keyspace" where
  "put_hash k h ks = (if h = [] then ks(k := None) else ks(k \<mapsto> VHash h))"

definition doc_zadd :: "string \<Rightarrow> string \<Rightarrow> string \<Rightarrow> keyspace \<Rightarrow> redisReply \<times> keyspace" where
  "doc_zadd k score x ks =
     (case ks k of
        None \<Rightarrow> (RInteger 1, ks(k \<mapsto> VZset [(x, score)]))
      | Some (VZset h) \<Rightarrow> (RInteger (if x \<in> fst ` set h then 0 else 1), ks(k \<mapsto> VZset (AList.update x score h)))
      | _ \<Rightarrow> (WRONGTYPE, ks))"

text \<open>
  \<open>None\<close>: nothing is assumed of a command that is not listed, nor of a \<open>ZADD\<close> with a percent sign in
  its text, which is a format. Redis removes a hash with its last field, and a list with its last element.
\<close>

definition redis_doc :: "redis_call \<Rightarrow> keyspace \<Rightarrow> (redisReply \<times> keyspace) option" where
  "redis_doc call ks =
     (case call of
        RedisCommand command [] \<Rightarrow>
          (case getline_split (CHR '' '') command of
             [c, k, score, x] \<Rightarrow> if c = ''ZADD'' \<and> CHR ''%'' \<notin> set command then Some (doc_zadd k score x ks) else None
           | _ \<Rightarrow> None)
      | RedisCommandArgv [c, k, f] \<Rightarrow> if c = ''HGET'' then Some (doc_hget k f ks, ks) else None
      | RedisCommandArgv [c, k, f, v] \<Rightarrow> if c = ''HSET'' then Some (doc_hset k f v ks) else None
      | RedisCommand fmt [k] \<Rightarrow>
          if fmt = ''GET %s'' then
            Some (case ks k of None \<Rightarrow> RNil | Some (VStr v) \<Rightarrow> RString v | _ \<Rightarrow> WRONGTYPE, ks)
          else if fmt = ''DEL %s'' then Some (RInteger (if ks k = None then 0 else 1), ks(k := None))
          else if fmt = ''exists %s'' then Some (RInteger (if ks k = None then 0 else 1), ks)
          else if fmt = ''HKEYS %s'' then
            Some (case ks k of None \<Rightarrow> RArray [] | Some (VHash h) \<Rightarrow> RArray (map (RString \<circ> fst) h) | _ \<Rightarrow> WRONGTYPE, ks)
          else if fmt = ''LRANGE %s 0 -1'' then
            Some (case ks k of None \<Rightarrow> RArray [] | Some (VList xs) \<Rightarrow> RArray (map RString xs) | _ \<Rightarrow> WRONGTYPE, ks)
          else if fmt = ''RPOP %s '' then
            Some (case ks k of None \<Rightarrow> (RNil, ks)
                  | Some (VList xs) \<Rightarrow> if xs = [] then (RNil, ks) else (RString (last xs), put_list k (butlast xs) ks)
                  | _ \<Rightarrow> (WRONGTYPE, ks))
          else if fmt = ''LPOP %s '' then
            Some (case ks k of None \<Rightarrow> (RNil, ks)
                  | Some (VList xs) \<Rightarrow> if xs = [] then (RNil, ks) else (RString (hd xs), put_list k (tl xs) ks)
                  | _ \<Rightarrow> (WRONGTYPE, ks))
          else None
      | RedisCommand fmt [k, v] \<Rightarrow>
          if fmt = ''SET %s %s'' then Some (RStatus ''OK'', ks(k \<mapsto> VStr v))
          else if fmt = ''RPUSH %s %s'' then Some (doc_push (\<lambda>xs. xs @ [v]) k ks)
          else if fmt = ''LPUSH %s %s'' then Some (doc_push (\<lambda>xs. v # xs) k ks)
          else if fmt = ''HDEL %s %s'' then
            Some (case ks k of None \<Rightarrow> (RInteger 0, ks)
                  | Some (VHash h) \<Rightarrow> (RInteger (if v \<in> fst ` set h then 1 else 0), put_hash k (AList.delete v h) ks)
                  | _ \<Rightarrow> (WRONGTYPE, ks))
          else if fmt = ''EXPIRE %s %d'' then Some (RInteger (if ks k = None then 0 else 1), ks)
          else None
      | RedisCommand fmt [k, f, v] \<Rightarrow> if fmt = ''HSET %s %s %s'' then Some (doc_hset k f v ks) else None
      | _ \<Rightarrow> None)"

text \<open>
  \<open>view\<close> reads the key space off the server's state. The hypothesis is about a reachable server
  with healthy connections, observed within the life time of the keys.
\<close>

definition redis_documented :: "'r redis_fun \<Rightarrow> ('r \<Rightarrow> keyspace) \<Rightarrow> bool" where
  "redis_documented redis view \<longleftrightarrow>
     (\<forall>connect call r rep ks. redis_doc call (view r) = Some (rep, ks) \<longrightarrow>
        (\<exists>r'. redis connect call r = (Some rep, r') \<and> view r' = ks))"

text \<open>A server that does just that, for concrete evaluations.\<close>

definition ref_redis :: "keyspace redis_fun" where
  "ref_redis connect call ks =
     (case redis_doc call ks of Some (rep, ks') \<Rightarrow> (Some rep, ks') | None \<Rightarrow> (Some (RInteger 0), ks))"

lemma ref_redis_documented: "redis_documented ref_redis (\<lambda>ks. ks)"
  by (simp add: redis_documented_def ref_redis_def)

lemma redis_docD:
  assumes "redis_documented redis view" and "redis_doc call (view r) = Some (rep, ks)"
  obtains r' where "redis connect call r = (Some rep, r')" "view r' = ks"
  using assms unfolding redis_documented_def by blast

section \<open>What the operations do on a documented server\<close>

text \<open>A manager whose pool is open and has an idle connection; operations rotate the pool.\<close>

definition redis_up :: "'r RedisManager \<Rightarrow> bool" where
  "redis_up m \<longleftrightarrow> \<not> is_stop (redis_pool m) \<and> connections (redis_pool m) \<noteq> []"

definition rotated :: "'r RedisManager \<Rightarrow> 'r \<Rightarrow> 'r RedisManager" where
  "rotated m r = m\<lparr>redis_server := r,
     redis_pool := (redis_pool m)\<lparr>connections := tl (connections (redis_pool m)) @ [hd (connections (redis_pool m))]\<rparr>\<rparr>"

lemma redis_up_rotated [simp]: "redis_up m \<Longrightarrow> redis_up (rotated m r)"
  by (simp add: redis_up_def rotated_def)

lemma redis_server_rotated [simp]: "redis_server (rotated m r) = r"
  by (simp add: rotated_def)

lemma with_connection_doc:
  assumes "redis_documented redis view" and "redis_up m"
    and "redis_doc call (view (redis_server m)) = Some (rep, ks)"
  shows "\<exists>r. with_connection redis call d body m = (body (Some rep), rotated m r) \<and> view r = ks"
    and "\<exists>r. with_connection_late redis call d body' m = (body' rep, rotated m r) \<and> view r = ks"
proof -
  obtain c cs where c: "connections (redis_pool m) = c # cs" "\<not> is_stop (redis_pool m)"
    using assms(2) by (cases "connections (redis_pool m)") (auto simp: redis_up_def)
  obtain r where r: "redis c call (redis_server m) = (Some rep, r)" "view r = ks"
    using redis_docD [OF assms(1,3)] .
  show "\<exists>r. with_connection redis call d body m = (body (Some rep), rotated m r) \<and> view r = ks"
    using c r by (intro exI [of _ r]) (simp add: with_connection_def pool_defs rotated_def)
  show "\<exists>r. with_connection_late redis call d body' m = (body' rep, rotated m r) \<and> view r = ks"
    using c r by (intro exI [of _ r]) (simp add: with_connection_late_def pool_defs rotated_def)
qed

definition no_nul :: "string \<Rightarrow> bool" where
  "no_nul s \<longleftrightarrow> CHR 0x00 \<notin> set s"

lemma c_str_id [simp]: "no_nul s \<Longrightarrow> c_str s = s"
  by (auto simp: c_str_def no_nul_def)

lemma no_nul_append [simp]: "no_nul (a @ b) \<longleftrightarrow> no_nul a \<and> no_nul b"
  by (auto simp: no_nul_def)

lemma no_nul_Cons [simp]: "no_nul (c # s) \<longleftrightarrow> c \<noteq> CHR 0x00 \<and> no_nul s"
  by (auto simp: no_nul_def)

lemma no_nul_Nil [simp]: "no_nul []"
  by (simp add: no_nul_def)

lemma no_nul_to_string [simp]: "no_nul (to_string i)"
  using to_string_no_char [of "CHR 0x00" i] by (auto simp: no_nul_def is_digit_def)

text \<open>One or several operations with their value and their effect on the key space.\<close>

definition does ::
    "('r \<Rightarrow> keyspace) \<Rightarrow> ('r RedisManager, 'a) prog \<Rightarrow> 'r RedisManager \<Rightarrow> 'a result \<Rightarrow> keyspace \<Rightarrow> bool" where
  "does view op m x ks \<longleftrightarrow> (\<exists>m'. op m = (x, m') \<and> redis_up m' \<and> view (redis_server m') = ks)"

lemma does_ret: "redis_up m \<Longrightarrow> does view (ret x) m (Val x) (view (redis_server m))"
  by (simp add: does_def ret_def)

lemma does_bnd:
  assumes "does view op m (Val x) ks"
    and "\<And>m'. redis_up m' \<Longrightarrow> view (redis_server m') = ks \<Longrightarrow> does view (f x) m' y ks'"
  shows "does view (bnd op f) m y ks'"
  using assms by (auto simp: does_def bnd_def)

lemma does_with_connection:
  assumes "redis_documented redis view" and "redis_up m"
    and "redis_doc call (view (redis_server m)) = Some (rep, ks)" and "body (Some rep) = x"
  shows "does view (with_connection redis call d body) m x ks"
  using with_connection_doc(1) [OF assms(1-3), of d body] assms(2,4) by (auto simp: does_def)

lemma does_with_connection_late:
  assumes "redis_documented redis view" and "redis_up m"
    and "redis_doc call (view (redis_server m)) = Some (rep, ks)" and "body rep = x"
  shows "does view (with_connection_late redis call d body) m x ks"
  using with_connection_doc(2) [OF assms(1-3), of d body] assms(2,4) by (auto simp: does_def)

lemma does_set:
  assumes "redis_documented redis view" and "redis_up m" and "no_nul k" and "no_nul v"
  shows "does view (redis_set redis k v) m (Val True) ((view (redis_server m))(k \<mapsto> VStr v))"
  unfolding redis_set_def
  using assms(3,4) by (auto intro!: does_with_connection [OF assms(1,2)] simp: redis_doc_def)

lemma does_get:
  assumes "redis_documented redis view" and "redis_up m" and "no_nul k"
    and "view (redis_server m) k = Some (VStr v)" and "no_nul v"
  shows "does view (redis_get redis k w) m (Val (True, v)) (view (redis_server m))"
  unfolding redis_get_def
  using assms(3-5) by - (rule does_with_connection [OF assms(1,2)], (simp add: redis_doc_def)+)

lemma does_get_missing:
  assumes "redis_documented redis view" and "redis_up m" and "no_nul k"
    and "view (redis_server m) k = None"
  shows "does view (redis_get redis k w) m (Val (False, w)) (view (redis_server m))"
  unfolding redis_get_def
  using assms(3-4) by - (rule does_with_connection [OF assms(1,2)], (simp add: redis_doc_def)+)

text \<open>The fields of a hash key; \<open>is_hash\<close> excludes keys of another type.\<close>

definition hash_of :: "keyspace \<Rightarrow> string \<Rightarrow> (string \<times> string) list" where
  "hash_of ks k = (case ks k of Some (VHash h) \<Rightarrow> h | _ \<Rightarrow> [])"

definition is_hash :: "keyspace \<Rightarrow> string \<Rightarrow> bool" where
  "is_hash ks k \<longleftrightarrow> (case ks k of None \<Rightarrow> True | Some (VHash h) \<Rightarrow> True | _ \<Rightarrow> False)"

definition list_of :: "keyspace \<Rightarrow> string \<Rightarrow> string list" where
  "list_of ks k = (case ks k of Some (VList xs) \<Rightarrow> xs | _ \<Rightarrow> [])"

definition is_list :: "keyspace \<Rightarrow> string \<Rightarrow> bool" where
  "is_list ks k \<longleftrightarrow> (case ks k of None \<Rightarrow> True | Some (VList h) \<Rightarrow> True | _ \<Rightarrow> False)"

lemma doc_hset_hash:
  "is_hash ks k \<Longrightarrow> snd (doc_hset k f v ks) = ks(k \<mapsto> VHash (AList.update f v (hash_of ks k))) \<and>
     (\<exists>i. fst (doc_hset k f v ks) = RInteger i)"
  by (auto simp: is_hash_def doc_hset_def hash_of_def split: option.splits rvalue.splits)

lemma does_hset:
  assumes "redis_documented redis view" and "redis_up m" and "no_nul k" "no_nul f" "no_nul v"
    and "is_hash (view (redis_server m)) k"
  shows "does view (hset redis k f v) m (Val True)
    ((view (redis_server m))(k \<mapsto> VHash (AList.update f v (hash_of (view (redis_server m)) k))))"
proof -
  obtain i where "doc_hset k f v (view (redis_server m)) =
      (RInteger i, (view (redis_server m))(k \<mapsto> VHash (AList.update f v (hash_of (view (redis_server m)) k))))"
    using doc_hset_hash [OF assms(6), of f v] by (metis prod.collapse)
  then show ?thesis
    unfolding hset_def using assms(3-5)
    by - (rule does_with_connection [OF assms(1,2)], (simp add: redis_doc_def integer_reply_def)+)
qed

lemma does_hget:
  assumes "redis_documented redis view" and "redis_up m" and "is_hash (view (redis_server m)) k"
    and "map_of (hash_of (view (redis_server m)) k) f = Some v" and "no_nul v"
  shows "does view (hget redis k f w) m (Val (True, v)) (view (redis_server m))"
proof -
  have "doc_hget k f (view (redis_server m)) = RString v"
    using assms(3,4) by (auto simp: doc_hget_def is_hash_def hash_of_def split: option.splits rvalue.splits)
  then show ?thesis
    unfolding hget_def using assms(5)
    by - (rule does_with_connection [OF assms(1,2)], (simp add: redis_doc_def)+)
qed

lemma does_hget_missing:
  assumes "redis_documented redis view" and "redis_up m" and "is_hash (view (redis_server m)) k"
    and "map_of (hash_of (view (redis_server m)) k) f = None"
  shows "does view (hget redis k f w) m (Val (True, w)) (view (redis_server m))"
proof -
  have "doc_hget k f (view (redis_server m)) = RNil"
    using assms(3,4) by (auto simp: doc_hget_def is_hash_def hash_of_def split: option.splits rvalue.splits)
  then show ?thesis
    unfolding hget_def
    by - (rule does_with_connection [OF assms(1,2)], (simp add: redis_doc_def)+)
qed

lemma does_rpush:
  assumes "redis_documented redis view" and "redis_up m" and "no_nul k" "no_nul v"
    and "is_list (view (redis_server m)) k"
  shows "does view (rpush redis k v) m (Val True)
    ((view (redis_server m))(k \<mapsto> VList (list_of (view (redis_server m)) k @ [v])))"
proof -
  have "\<exists>i. doc_push (\<lambda>xs. xs @ [v]) k (view (redis_server m)) =
      (RInteger i, (view (redis_server m))(k \<mapsto> VList (list_of (view (redis_server m)) k @ [v]))) \<and> 0 < i"
    using assms(5) by (auto simp: doc_push_def is_list_def list_of_def split: option.splits rvalue.splits)
  then show ?thesis
    unfolding rpush_def using assms(3,4)
    by (elim exE conjE) (rule does_with_connection [OF assms(1,2)], (simp add: redis_doc_def)+)
qed

lemma does_del:
  assumes "redis_documented redis view" and "redis_up m" and "no_nul k"
  shows "does view (redis_del redis k) m (Val True) ((view (redis_server m))(k := None))"
  unfolding redis_del_def
  using assms(3) by - (rule does_with_connection [OF assms(1,2)], (simp add: redis_doc_def integer_reply_def)+)

lemma does_expire:
  assumes "redis_documented redis view" and "redis_up m" and "no_nul k"
  shows "\<exists>b. does view (expire redis k t) m (Val b) (view (redis_server m))"
  unfolding expire_def
  using assms(3)
  by - (rule exI, rule does_with_connection [OF assms(1,2)], (simp add: redis_doc_def nonzero_reply_def)+)

definition no_space :: "string \<Rightarrow> bool" where
  "no_space s \<longleftrightarrow> CHR '' '' \<notin> set s"

lemma no_space_to_string [simp]: "no_space (to_string i)"
  using to_string_no_char [of "CHR '' ''" i] by (auto simp: no_space_def is_digit_def)

definition no_percent :: "string \<Rightarrow> bool" where
  "no_percent s \<longleftrightarrow> CHR ''%'' \<notin> set s"

lemma no_percent_append [simp]: "no_percent (s @ t) \<longleftrightarrow> no_percent s \<and> no_percent t"
    "no_percent (c # s) \<longleftrightarrow> c \<noteq> CHR ''%'' \<and> no_percent s" "no_percent []"
  by (auto simp: no_percent_def)

lemma no_percent_to_string [simp]: "no_percent (to_string i)"
  using to_string_no_char [of "CHR ''%''" i] by (auto simp: no_percent_def is_digit_def)

lemma asks_argument_append: "asks_argument x \<Longrightarrow> no_percent s \<Longrightarrow> asks_argument (s @ x)"
proof (induction s)
  case (Cons c s)
  then show ?case by (cases "s @ x") (auto simp: no_percent_def)
qed simp

lemma no_percent_asks: "no_percent s \<Longrightarrow> \<not> asks_argument s"
  by (induction s rule: asks_argument.induct) (auto simp: no_percent_def)

definition zset_put :: "string \<Rightarrow> string \<Rightarrow> string \<Rightarrow> keyspace \<Rightarrow> keyspace" where
  "zset_put k score x ks = snd (doc_zadd k score x ks)"

definition zset_of :: "keyspace \<Rightarrow> string \<Rightarrow> (string \<times> string) list" where
  "zset_of ks k = (case ks k of Some (VZset h) \<Rightarrow> h | _ \<Rightarrow> [])"

definition is_zset :: "keyspace \<Rightarrow> string \<Rightarrow> bool" where
  "is_zset ks k \<longleftrightarrow> (case ks k of None \<Rightarrow> True | Some (VZset h) \<Rightarrow> True | _ \<Rightarrow> False)"

lemma zset_put_same: "is_zset ks k \<Longrightarrow> zset_put k score x ks k = Some (VZset (AList.update x score (zset_of ks k)))"
  by (auto simp: zset_put_def doc_zadd_def is_zset_def zset_of_def split: option.splits rvalue.splits)

lemma zset_put_other [simp]: "k' \<noteq> k \<Longrightarrow> zset_put k score x ks k' = ks k'"
  by (auto simp: zset_put_def doc_zadd_def split: option.splits rvalue.splits)

lemma zset_of_cong: "ks k = ks' k \<Longrightarrow> zset_of ks k = zset_of ks' k \<and> is_zset ks k = is_zset ks' k"
  by (simp add: zset_of_def is_zset_def)

text \<open>One member entered in two sorted sets, which may be the same.\<close>

lemma zset_put_both:
  assumes "is_zset ks k" "is_zset ks k'" and "i \<in> {k, k'}" and "ks i = ks' i"
  shows "zset_put k' score x (zset_put k score x ks) i = Some (VZset (AList.update x score (zset_of ks' i)))"
proof -
  have put: "is_zset (zset_put k score x ks) k" "zset_of (zset_put k score x ks) k = AList.update x score (zset_of ks k)"
    using zset_put_same [OF assms(1), of score x] by (simp_all add: is_zset_def zset_of_def)
  show ?thesis
  proof (cases "k = k'")
    case True
    then show ?thesis
      using assms put zset_put_same [OF put(1), of score x] zset_of_cong [of ks i ks', OF assms(4)] by (auto simp: update_last)
  next
    case False
    then show ?thesis
      using assms zset_put_same [OF assms(1), of score x] zset_put_same [of "zset_put k score x ks" k' score x]
        zset_of_cong [of "zset_put k score x ks" k' ks] zset_of_cong [of ks i ks', OF assms(4)] by auto
  qed
qed

lemma does_zadd:
  assumes "redis_documented redis view" and "redis_up m"
    and "no_space k" "no_space score" "no_space x" "no_nul k" "no_nul score" "no_nul x" "x \<noteq> []"
    and pc: "no_percent k" "no_percent score" "no_percent x"
  shows "\<exists>b. does view (redis_execute redis (''ZADD '' @ k @ '' '' @ score @ '' '' @ x)) m (Val b)
    (zset_put k score x (view (redis_server m)))"
proof -
  let ?d = "CHR '' ''"
  have "getline_split ?d (''ZADD'' @ ?d # k @ ?d # score @ ?d # x) = [''ZADD'', k, score, x]"
    using assms(3-5,9) by (simp add: getline_split_more getline_split_last no_space_def del: append_Cons)
  then have gs: "getline_split ?d (''ZADD '' @ k @ '' '' @ score @ '' '' @ x) = [''ZADD'', k, score, x]" by simp
  obtain rep ks where d: "doc_zadd k score x (view (redis_server m)) = (rep, ks)" by fastforce
  have "redis_doc (RedisCommand (''ZADD '' @ k @ '' '' @ score @ '' '' @ x) []) (view (redis_server m)) = Some (rep, ks)"
    using gs pc by (simp add: redis_doc_def d no_percent_def)
  moreover have "c_str (''ZADD '' @ k @ '' '' @ score @ '' '' @ x) = ''ZADD '' @ k @ '' '' @ score @ '' '' @ x"
    by (rule c_str_id) (use assms(6-8) in simp)
  moreover have "\<exists>b. (case rep of RError _ \<Rightarrow> Val False | _ \<Rightarrow> Val True) = Val b"
    by (cases rep) auto
  moreover have "\<not> asks_argument (''ZADD '' @ k @ '' '' @ score @ '' '' @ x)"
    by (rule no_percent_asks) (use pc in \<open>simp add: no_percent_def\<close>)
  ultimately show ?thesis
    unfolding zset_put_def d snd_conv
    by (auto simp: does_def redis_execute_def dest!: does_with_connection_late [OF assms(1,2), unfolded does_def])
qed

lemma element_strs_strings: "list_all no_nul xs \<Longrightarrow> element_strs (map RString xs) = Val xs"
  by (induction xs) auto

lemma does_lrange:
  assumes "redis_documented redis view" and "redis_up m" and "no_nul k"
    and "is_list (view (redis_server m)) k" and "list_all no_nul (list_of (view (redis_server m)) k)"
  shows "does view (lrange redis k vs) m (Val (True, vs @ list_of (view (redis_server m)) k)) (view (redis_server m))"
proof -
  have "redis_doc (RedisCommand ''LRANGE %s 0 -1'' [k]) (view (redis_server m)) =
      Some (RArray (map RString (list_of (view (redis_server m)) k)), view (redis_server m))"
    using assms(4) by (auto simp: redis_doc_def is_list_def list_of_def split: option.splits rvalue.splits)
  then show ?thesis
    unfolding lrange_def using assms(3,5)
    by - (rule does_with_connection [OF assms(1,2)], (simp add: push_elements_def element_strs_strings)+)
qed

lemma does_hkeys:
  assumes "redis_documented redis view" and "redis_up m" and "no_nul k"
    and "is_hash (view (redis_server m)) k" and "list_all no_nul (map fst (hash_of (view (redis_server m)) k))"
  shows "does view (hkeys redis k vs) m (Val (True, vs @ map fst (hash_of (view (redis_server m)) k))) (view (redis_server m))"
proof -
  have "redis_doc (RedisCommand ''HKEYS %s'' [k]) (view (redis_server m)) =
      Some (RArray (map RString (map fst (hash_of (view (redis_server m)) k))), view (redis_server m))"
    using assms(4) by (auto simp: redis_doc_def is_hash_def hash_of_def split: option.splits rvalue.splits)
  then show ?thesis
    unfolding hkeys_def using assms(3,5)
    by - (rule does_with_connection_late [OF assms(1,2)],
        (simp add: push_elements_def element_strs_strings list_all_iff del: map_map)+)
qed

section \<open>Connections\<close>

text \<open>The idle connections, as a multiset, and the stop flag.\<close>

definition pool_is :: "nat multiset \<Rightarrow> bool \<Rightarrow> 'r RedisManager \<Rightarrow> bool" where
  "pool_is C b m \<longleftrightarrow> mset (connections (redis_pool m)) = C \<and> is_stop (redis_pool m) = b"

lemma with_connection_keeps: "keeps (pool_is C b) (with_connection redis call d body)"
  by (auto simp: keeps_def pool_is_def with_connection_def pool_defs split: list.splits prod.splits)

lemma with_connection_late_keeps:
  fixes redis :: "'r redis_fun"
  assumes "\<And>c r. fst (redis c call r) \<noteq> None"
  shows "keeps (pool_is C b) (with_connection_late redis call d body)"
  unfolding keeps_def
proof (intro allI impI)
  fix m :: "'r RedisManager"
  assume m: "pool_is C b m"
  show "pool_is C b (snd (with_connection_late redis call d body m))"
  proof (cases "is_stop (redis_pool m) \<or> connections (redis_pool m) = []")
    case True
    then show ?thesis using m by (auto simp: pool_is_def with_connection_late_def pool_defs)
  next
    case False
    then obtain c cs where c: "connections (redis_pool m) = c # cs" by (cases "connections (redis_pool m)") auto
    obtain rep r where "redis c call (redis_server m) = (Some rep, r)"
      using assms [of c "redis_server m"] by (cases "redis c call (redis_server m)") auto
    then show ?thesis using m False c by (simp add: pool_is_def with_connection_late_def pool_defs)
  qed
qed

lemma redis_execute_keeps:
  assumes "\<And>c call r. fst (redis c call r) \<noteq> None"
  shows "keeps (pool_is C b) (redis_execute redis v)"
proof -
  have "keeps (pool_is C b) (with_connection_late redis (RedisCommand (c_str v) []) False
      (\<lambda>reply. case reply of RError _ \<Rightarrow> Val False | _ \<Rightarrow> Val True))"
    by (rule with_connection_late_keeps) (rule assms)
  then show ?thesis by (simp add: keeps_def redis_execute_def)
qed

text \<open>A server that is gone: every call returns a null reply.\<close>

definition redis_gone :: "'r redis_fun" where
  "redis_gone connect call r = (None, r)"

lemma with_connection_late_gone:
  assumes "redis_up m"
  shows "with_connection_late redis_gone call d body m =
    (Val d, m\<lparr>redis_pool := (redis_pool m)\<lparr>connections := tl (connections (redis_pool m))\<rparr>\<rparr>)"
  using assms by (auto simp: redis_up_def with_connection_late_def pool_defs redis_gone_def split: list.splits)

lemma drained:
  assumes "\<not> is_stop (redis_pool m)" and "length (connections (redis_pool m)) = n"
    and "\<And>m. redis_up m \<Longrightarrow> snd (op m) = m\<lparr>redis_pool := (redis_pool m)\<lparr>connections := tl (connections (redis_pool m))\<rparr>\<rparr>"
  shows "\<exists>m'. ((\<lambda>m. snd (op m)) ^^ n) m = m' \<and> connections (redis_pool m') = [] \<and> \<not> is_stop (redis_pool m')"
  using assms(1,2)
proof (induction n arbitrary: m)
  case (Suc n)
  then have "redis_up m" by (auto simp: redis_up_def)
  then have s: "snd (op m) = m\<lparr>redis_pool := (redis_pool m)\<lparr>connections := tl (connections (redis_pool m))\<rparr>\<rparr>"
    by (rule assms(3))
  have "((\<lambda>m. snd (op m)) ^^ Suc n) m = ((\<lambda>m. snd (op m)) ^^ n) (snd (op m))"
    by (simp only: funpow_Suc_right o_apply)
  then show ?case using Suc.IH [of "snd (op m)"] Suc.prems s by simp
qed simp

section \<open>Properties\<close>

text \<open>
  Connections come back: whatever the Redis server replies (null replies included), every
  operation of \<open>RedisManager\<close> except \<open>hdel\<close>, \<open>execute\<close>, \<open>hkeys\<close> and \<open>zrevrange\<close> leaves the
  same idle connections in the pool; these four do so when the reply is not null.
\<close>

theorem redis_connections_returned:
  "keeps (pool_is C b) (redis_set redis k v) \<and> keeps (pool_is C b) (redis_get redis k v) \<and>
   keeps (pool_is C b) (rpush redis k v) \<and> keeps (pool_is C b) (rpop redis k v) \<and>
   keeps (pool_is C b) (lpush redis k v) \<and> keeps (pool_is C b) (lpop redis k v) \<and>
   keeps (pool_is C b) (hset redis k f v) \<and> keeps (pool_is C b) (hset_chars redis k f v n) \<and>
   keeps (pool_is C b) (hget redis k f v) \<and> keeps (pool_is C b) (redis_del redis k) \<and>
   keeps (pool_is C b) (existsKey redis k) \<and> keeps (pool_is C b) (expire redis k i) \<and>
   keeps (pool_is C b) (lrange redis k vs) \<and>
   ((\<forall>c call r. fst (redis c call r) \<noteq> None) \<longrightarrow>
      keeps (pool_is C b) (hdel redis k f) \<and> keeps (pool_is C b) (redis_execute redis v) \<and>
      keeps (pool_is C b) (hkeys redis k vs) \<and> keeps (pool_is C b) (zrevrange redis k i j))"
  unfolding redis_defs hdel_def hkeys_def zrevrange_def
  by (intro conjI impI with_connection_keeps redis_execute_keeps with_connection_late_keeps) blast+

theorem redis_connections_returned_witness:
  "keeps (pool_is {#0, 1#} False) (hdel (\<lambda>c call (r :: unit). (Some RNil, r)) ''k'' ''f'')"
  using redis_connections_returned [of "{#0, 1#}" False "\<lambda>c call (r :: unit). (Some RNil, r)" "''k''" "[]" "''f''" 0 0 "[]" 0]
  by simp

text \<open>
  The leak: once the server is gone, each call of \<open>hdel\<close>, \<open>execute\<close>, \<open>hkeys\<close> or
  \<open>zrevrange\<close> loses a connection, and after as many calls as the pool has connections the next
  operation waits for ever (here \<open>get\<close>).
\<close>

theorem redis_connections_leak:
  assumes "op \<in> {(\<lambda>m. snd (hdel redis_gone k f m)), (\<lambda>m. snd (redis_execute redis_gone f m)),
      (\<lambda>m. snd (hkeys redis_gone k [] m)), (\<lambda>m. snd (zrevrange redis_gone k 0 9 m))}"
    and "\<not> is_stop (redis_pool m)" and "length (connections (redis_pool m)) = n" and "no_percent (c_str f)"
  shows "fst (redis_get redis k v ((op ^^ n) m)) = Waits"
proof -
  have "\<exists>m'. (op ^^ n) m = m' \<and> connections (redis_pool m') = [] \<and> \<not> is_stop (redis_pool m')"
    using assms(1) unfolding late_defs
    by (elim insertE emptyE; hypsubst; intro drained [OF assms(2,3)]) (simp_all add: with_connection_late_gone no_percent_asks [OF assms(4)])
  then show ?thesis by (auto simp: redis_get_def with_connection_def pool_defs)
qed

theorem redis_connections_leak_witness:
  "fst (redis_get redis_gone ''uid'' []
     (((\<lambda>m. snd (hkeys redis_gone ''uid'' [] m)) ^^ 2)
        \<lparr>redis_pool = \<lparr>connections = [0, 1], is_stop = False\<rparr>, redis_server = ()\<rparr>)) = Waits"
  by (rule redis_connections_leak [of _ "''uid''" "[]"]) (simp_all add: no_percent_def c_str_def)

text \<open>
  Round trips on a documented server: \<open>set\<close> then \<open>get\<close>, \<open>hset\<close> then \<open>hget\<close>, \<open>rpush\<close> then
  \<open>lrange\<close> give back what was stored, for keys and values without NUL bytes.
\<close>

theorem redis_roundtrips:
  assumes "redis_documented redis view" and "redis_up m" and "no_nul k" "no_nul f" "no_nul v"
  shows "fst (bnd (redis_set redis k v) (\<lambda>_. redis_get redis k w) m) = Val (True, v) \<and>
    (is_hash (view (redis_server m)) k \<longrightarrow>
       fst (bnd (hset redis k f v) (\<lambda>_. hget redis k f w) m) = Val (True, v)) \<and>
    (is_list (view (redis_server m)) k \<and> list_all no_nul (list_of (view (redis_server m)) k) \<longrightarrow>
       fst (bnd (rpush redis k v) (\<lambda>_. lrange redis k []) m) = Val (True, list_of (view (redis_server m)) k @ [v]))"
proof (intro conjI impI)
  have "does view (bnd (redis_set redis k v) (\<lambda>_. redis_get redis k w)) m (Val (True, v))
      ((view (redis_server m))(k \<mapsto> VStr v))"
    by (rule does_bnd [OF does_set [OF assms(1-3,5)]])
      (use does_get [OF assms(1) _ assms(3) _ assms(5)] in fastforce)
  then show "fst (bnd (redis_set redis k v) (\<lambda>_. redis_get redis k w) m) = Val (True, v)"
    by (auto simp: does_def)
next
  assume h: "is_hash (view (redis_server m)) k"
  let ?ks = "(view (redis_server m))(k \<mapsto> VHash (AList.update f v (hash_of (view (redis_server m)) k)))"
  have "is_hash ?ks k" "map_of (hash_of ?ks k) f = Some v"
    by (simp_all add: is_hash_def hash_of_def update_conv)
  then have "does view (bnd (hset redis k f v) (\<lambda>_. hget redis k f w)) m (Val (True, v)) ?ks"
    by (intro does_bnd [OF does_hset [OF assms(1-5) h]])
      (metis does_hget [OF assms(1) _ _ _ assms(5)])
  then show "fst (bnd (hset redis k f v) (\<lambda>_. hget redis k f w) m) = Val (True, v)"
    by (auto simp: does_def)
next
  assume l: "is_list (view (redis_server m)) k \<and> list_all no_nul (list_of (view (redis_server m)) k)"
  let ?ks = "(view (redis_server m))(k \<mapsto> VList (list_of (view (redis_server m)) k @ [v]))"
  have ks: "is_list ?ks k" "list_of ?ks k = list_of (view (redis_server m)) k @ [v]" "list_all no_nul (list_of ?ks k)"
    using l assms(5) by (simp_all add: is_list_def list_of_def)
  have "does view (bnd (rpush redis k v) (\<lambda>_. lrange redis k [])) m
      (Val (True, list_of (view (redis_server m)) k @ [v])) ?ks"
    by (intro does_bnd [OF does_rpush [OF assms(1-3,5) conjunct1 [OF l]]])
      (use ks does_lrange [OF assms(1) _ assms(3), where vs = "[]"] in \<open>metis append_Nil\<close>)
  then show "fst (bnd (rpush redis k v) (\<lambda>_. lrange redis k []) m) =
      Val (True, list_of (view (redis_server m)) k @ [v])"
    by (auto simp: does_def)
qed

theorem redis_roundtrips_witness:
  "fst (bnd (redis_set ref_redis ''code_a'' ''1234'') (\<lambda>_. redis_get ref_redis ''code_a'' [])
     \<lparr>redis_pool = \<lparr>connections = [0], is_stop = False\<rparr>, redis_server = Map.empty\<rparr>) = Val (True, ''1234'')"
  using redis_roundtrips [OF ref_redis_documented, of
      "\<lparr>redis_pool = \<lparr>connections = [0], is_stop = False\<rparr>, redis_server = Map.empty\<rparr>" "''code_a''" "[]" "''1234''" "[]"]
  by (simp add: redis_up_def)

text \<open>
  A missing hash field looks like a present one: \<open>hget\<close> returns true for a field that is not
  there and leaves the caller's string as it was, while \<open>get\<close> returns false for a missing key.
\<close>

theorem hget_missing_is_true:
  assumes "redis_documented redis view" and "redis_up m" and "no_nul k" and "view (redis_server m) k = None"
  shows "fst (hget redis k f w m) = Val (True, w) \<and> fst (redis_get redis k w m) = Val (False, w)"
proof -
  have "is_hash (view (redis_server m)) k" "hash_of (view (redis_server m)) k = []"
    using assms(4) by (simp_all add: is_hash_def hash_of_def)
  then show ?thesis
    using does_hget_missing [OF assms(1,2), of k f w] does_get_missing [OF assms, of w] by (auto simp: does_def)
qed

theorem hget_missing_is_true_witness:
  "fst (hget ref_redis ''chat:msg:1'' ''from_uid'' []
     \<lparr>redis_pool = \<lparr>connections = [0], is_stop = False\<rparr>, redis_server = Map.empty\<rparr>) = Val (True, [])"
  using hget_missing_is_true [OF ref_redis_documented, of
      "\<lparr>redis_pool = \<lparr>connections = [0], is_stop = False\<rparr>, redis_server = Map.empty\<rparr>" "''chat:msg:1''" "''from_uid''" "[]"]
  by (simp add: redis_up_def)

end
