(* ===== verification/ChatData.thy ===== *)
theory ChatData
  imports Prelude "HOL-Library.AList" "HOL-Library.Countable"
begin

text \<open>
  JSON values as the servers build them, the jsoncpp library as a parameter, and the records of
  \<open>ChatServer/data.h\<close> with the JSON forms of \<open>ChatMessage\<close>.
\<close>

section \<open>JSON values and the jsoncpp library\<close>

datatype json = JNull | JBool bool | JInt int | JStr string | JArr "json list" | JObj "(string \<times> json) list"

text \<open>\<open>v[key] = x\<close> on a null or object value, and \<open>v.append(x)\<close> on a null or array value.\<close>

fun jset :: "string \<Rightarrow> json \<Rightarrow> json \<Rightarrow> json" where
  "jset key x JNull = JObj [(key, x)]"
| "jset key x (JObj kvs) = JObj (AList.update key x kvs)"
| "jset key x v = v"

fun jappend :: "json \<Rightarrow> json \<Rightarrow> json" where
  "jappend x JNull = JArr [x]"
| "jappend x (JArr xs) = JArr (xs @ [x])"
| "jappend x v = v"

text \<open>\<open>v[key]\<close> of a value that is null or an object; \<open>v[key].append(x)\<close>; and \<open>v[key]\<close> on a value that may
  be changed, which creates the member with a null value.\<close>

definition jfield :: "string \<Rightarrow> json \<Rightarrow> json" where
  "jfield key v = (case v of JObj kvs \<Rightarrow> (case map_of kvs key of Some x \<Rightarrow> x | None \<Rightarrow> JNull) | _ \<Rightarrow> JNull)"

definition jappend_at :: "string \<Rightarrow> json \<Rightarrow> json \<Rightarrow> json" where
  "jappend_at key x v = jset key (jappend x (jfield key v)) v"

definition jtouch :: "string \<Rightarrow> json \<Rightarrow> json" where
  "jtouch key v = jset key (jfield key v) v"

text \<open>Reading \<open>root[key]\<close> of a non-const value adds a null member when there is none.\<close>

definition jtouch_all :: "string list \<Rightarrow> json \<Rightarrow> json" where
  "jtouch_all keys v = fold jtouch keys v"

lemma jtouch_all_present:
  assumes "\<forall>k \<in> set keys. map_of kvs k \<noteq> None"
  shows "\<exists>kvs'. jtouch_all keys (JObj kvs) = JObj kvs' \<and> map_of kvs' = map_of kvs"
  using assms unfolding jtouch_all_def
proof (induction keys arbitrary: kvs)
  case (Cons k keys)
  let ?kvs = "AList.update k (jfield k (JObj kvs)) kvs"
  have m: "map_of ?kvs = map_of kvs" using Cons.prems by (auto simp: jfield_def update_conv' fun_eq_iff)
  have "\<exists>kvs'. fold jtouch keys (JObj ?kvs) = JObj kvs' \<and> map_of kvs' = map_of ?kvs"
    by (rule Cons.IH) (use Cons.prems m in simp)
  moreover have "jtouch k (JObj kvs) = JObj ?kvs" by (simp add: jtouch_def)
  ultimately show ?case by (simp add: m)
qed simp

lemma jfield_jset_other [simp]: "k \<noteq> k' \<Longrightarrow> jfield k (jset k' x v) = jfield k v"
  by (cases v) (auto simp: jfield_def update_conv')

lemma jfield_jset_JObj [simp]: "jfield k (jset k x (JObj kvs)) = x" "jfield k (jset k x JNull) = x"
  by (simp_all add: jfield_def update_conv')

lemma jfield_jappend_at_other [simp]: "k \<noteq> k' \<Longrightarrow> jfield k (jappend_at k' x v) = jfield k v"
  by (simp add: jappend_at_def)

lemma jfield_fold_append_other [simp]:
  "k \<noteq> k' \<Longrightarrow> jfield k (fold (\<lambda>y. jappend_at k' (f y)) ys v) = jfield k v"
  by (induction ys arbitrary: v) simp_all

lemma jfield_jtouch_other [simp]: "k \<noteq> k' \<Longrightarrow> jfield k (jtouch k' v) = jfield k v"
  by (simp add: jtouch_def)

text \<open>
  What the sources call of jsoncpp: \<open>Reader::parse\<close> with the root value afterwards,
  \<open>toStyledString\<close>, \<open>operator[]\<close> for reading, \<open>get\<close> with a default, the conversions;
  \<open>None\<close> is a \<open>Json::LogicError\<close>.
\<close>

record jsoncpp =
  jparse :: "string \<Rightarrow> bool \<times> json"
  toStyledString :: "json \<Rightarrow> string"
  jmember :: "json \<Rightarrow> string \<Rightarrow> json option"
  jget :: "json \<Rightarrow> string \<Rightarrow> json \<Rightarrow> json option"
  asInt :: "json \<Rightarrow> int option"
  asInt64 :: "json \<Rightarrow> int option"
  asString :: "json \<Rightarrow> string option"
  isObject :: "json \<Rightarrow> bool"
  isArray :: "json \<Rightarrow> bool"
  jmembers :: "json \<Rightarrow> json list"        \<comment> \<open>iteration over an array\<close>

text \<open>Documented behaviour of the conversions and of member access.\<close>

definition json_documented :: "jsoncpp \<Rightarrow> bool" where
  "json_documented J \<longleftrightarrow>
     (\<forall>i. INT_MIN \<le> i \<and> i \<le> INT_MAX \<longrightarrow> asInt J (JInt i) = Some i) \<and>
     (\<forall>i. - (2 ^ 63) \<le> i \<and> i < 2 ^ 63 \<longrightarrow> asInt64 J (JInt i) = Some i) \<and>
     asInt J JNull = Some 0 \<and> asInt64 J JNull = Some 0 \<and>
     (\<forall>s. asString J (JStr s) = Some s) \<and> asString J JNull = Some [] \<and>
     (\<forall>s. asInt J (JStr s) = None) \<and>
     (\<forall>kvs k. jmember J (JObj kvs) k = Some (case map_of kvs k of Some v \<Rightarrow> v | None \<Rightarrow> JNull)) \<and>
     (\<forall>k. jmember J JNull k = Some JNull) \<and>
     (\<forall>kvs k d. jget J (JObj kvs) k d = Some (case map_of kvs k of Some v \<Rightarrow> v | None \<Rightarrow> d)) \<and>
     (\<forall>k d. jget J JNull k d = Some d) \<and>
     (\<forall>v. isObject J v \<longleftrightarrow> v = JNull \<or> (\<exists>kvs. v = JObj kvs)) \<and>
     (\<forall>xs. isArray J (JArr xs) \<and> jmembers J (JArr xs) = xs)"

text \<open>
  What was printed is read back: the members of the parsed value are those of the printed
  object (the library keeps members sorted, so only the access by key is compared).
\<close>

definition json_reparse :: "jsoncpp \<Rightarrow> bool" where
  "json_reparse J \<longleftrightarrow>
     (\<forall>kvs k. fst (jparse J (toStyledString J (JObj kvs))) \<and>
        jmember J (snd (jparse J (toStyledString J (JObj kvs)))) k = jmember J (JObj kvs) k)"

lemma json_docD:
  assumes "json_documented J"
  shows "INT_MIN \<le> i \<Longrightarrow> i \<le> INT_MAX \<Longrightarrow> asInt J (JInt i) = Some i"
    and "- (2 ^ 63) \<le> i \<Longrightarrow> i < 2 ^ 63 \<Longrightarrow> asInt64 J (JInt i) = Some i"
    and "asInt J JNull = Some 0" and "asInt64 J JNull = Some 0"
    and "asString J (JStr s) = Some s" and "asString J JNull = Some []" and "asInt J (JStr s) = None"
    and "jmember J (JObj kvs) k = Some (case map_of kvs k of Some v \<Rightarrow> v | None \<Rightarrow> JNull)"
    and "jmember J JNull k = Some JNull"
    and "jget J (JObj kvs) k d = Some (case map_of kvs k of Some v \<Rightarrow> v | None \<Rightarrow> d)"
    and "jget J JNull k d = Some d"
    and "isObject J v \<longleftrightarrow> v = JNull \<or> (\<exists>kvs. v = JObj kvs)"
    and "isArray J (JArr xs)" and "jmembers J (JArr xs) = xs"
  using assms unfolding json_documented_def by blast+

text \<open>
  A library that meets the two hypotheses; its text form is the number of the value in an
  enumeration of all JSON values.
\<close>

instance json :: countable
  by countable_datatype

definition ref_json :: jsoncpp where
  "ref_json = \<lparr>
     jparse = (\<lambda>s. (True, from_nat (digits_value s))),
     toStyledString = (\<lambda>v. nat_to_string (to_nat v)),
     jmember = (\<lambda>v k. case v of JObj kvs \<Rightarrow> Some (case map_of kvs k of Some x \<Rightarrow> x | None \<Rightarrow> JNull)
                   | JNull \<Rightarrow> Some JNull | _ \<Rightarrow> None),
     jget = (\<lambda>v k d. case v of JObj kvs \<Rightarrow> Some (case map_of kvs k of Some x \<Rightarrow> x | None \<Rightarrow> d)
                   | JNull \<Rightarrow> Some d | _ \<Rightarrow> None),
     asInt = (\<lambda>v. case v of JInt i \<Rightarrow> if INT_MIN \<le> i \<and> i \<le> INT_MAX then Some i else None
                   | JNull \<Rightarrow> Some 0 | JBool b \<Rightarrow> Some (if b then 1 else 0) | _ \<Rightarrow> None),
     asInt64 = (\<lambda>v. case v of JInt i \<Rightarrow> if - (2 ^ 63) \<le> i \<and> i < 2 ^ 63 then Some i else None
                   | JNull \<Rightarrow> Some 0 | JBool b \<Rightarrow> Some (if b then 1 else 0) | _ \<Rightarrow> None),
     asString = (\<lambda>v. case v of JStr s \<Rightarrow> Some s | JNull \<Rightarrow> Some [] | JInt i \<Rightarrow> Some (to_string i)
                   | JBool b \<Rightarrow> Some (if b then ''true'' else ''false'') | _ \<Rightarrow> None),
     isObject = (\<lambda>v. case v of JObj _ \<Rightarrow> True | JNull \<Rightarrow> True | _ \<Rightarrow> False),
     isArray = (\<lambda>v. case v of JArr _ \<Rightarrow> True | JNull \<Rightarrow> True | _ \<Rightarrow> False),
     jmembers = (\<lambda>v. case v of JArr xs \<Rightarrow> xs | _ \<Rightarrow> [])\<rparr>"

lemma ref_json_documented: "json_documented ref_json"
  by (auto simp: json_documented_def ref_json_def split: json.splits)

lemma ref_json_reparse: "json_reparse ref_json"
  by (simp add: json_reparse_def ref_json_def)

lemma ref_json_no_nul: "CHR 0x00 \<notin> set (toStyledString ref_json v)"
  using nat_to_string_digits [of "CHR 0x00" "to_nat v"] by (auto simp: ref_json_def is_digit_def)

section \<open>Reading JSON in a handler\<close>

text \<open>\<open>root[key].asInt()\<close> and \<open>root[key].asString()\<close>.\<close>

definition from_option :: "cpp_exn \<Rightarrow> 'a option \<Rightarrow> ('s, 'a) prog" where
  "from_option e x = (case x of Some y \<Rightarrow> ret y | None \<Rightarrow> raise e)"

definition field_int :: "jsoncpp \<Rightarrow> json \<Rightarrow> string \<Rightarrow> int option" where
  "field_int J root key = Option.bind (jmember J root key) (asInt J)"

definition field_str :: "jsoncpp \<Rightarrow> json \<Rightarrow> string \<Rightarrow> string option" where
  "field_str J root key = Option.bind (jmember J root key) (asString J)"

definition json_int :: "jsoncpp \<Rightarrow> json \<Rightarrow> string \<Rightarrow> ('s, int) prog" where
  "json_int J root key = from_option JsonLogicError (field_int J root key)"

definition json_str :: "jsoncpp \<Rightarrow> json \<Rightarrow> string \<Rightarrow> ('s, string) prog" where
  "json_str J root key = from_option JsonLogicError (field_str J root key)"

lemmas [prog_defs] = from_option_def json_int_def json_str_def

section \<open>The records of data.h\<close>

record UserInfo =
  u_name :: string
  u_pwd :: string
  u_uid :: int
  u_email :: string
  u_nick :: string
  u_desc :: string
  u_sex :: int
  u_icon :: string
  u_back :: string

definition new_UserInfo :: UserInfo where
  "new_UserInfo = \<lparr>u_name = [], u_pwd = [], u_uid = 0, u_email = [], u_nick = [], u_desc = [], u_sex = 0,
     u_icon = [], u_back = []\<rparr>"

record ApplyInfo =
  a_uid :: int
  a_name :: string
  a_desc :: string
  a_icon :: string
  a_nick :: string
  a_sex :: int
  a_status :: int

record ChatMessage =
  cm_msg_id :: string
  cm_from_uid :: int
  cm_to_uid :: int
  cm_content :: string
  cm_msg_type :: int
  cm_send_time :: int
  cm_status :: int

definition new_ChatMessage :: ChatMessage where
  "new_ChatMessage = \<lparr>cm_msg_id = [], cm_from_uid = 0, cm_to_uid = 0, cm_content = [], cm_msg_type = 1,
     cm_send_time = 0, cm_status = 0\<rparr>"

definition ChatMessage_toJson :: "ChatMessage \<Rightarrow> json" where
  "ChatMessage_toJson msg =
     jset ''status'' (JInt (cm_status msg)) (
     jset ''send_time'' (JInt (cm_send_time msg)) (
     jset ''msg_type'' (JInt (cm_msg_type msg)) (
     jset ''content'' (JStr (cm_content msg)) (
     jset ''to_uid'' (JInt (cm_to_uid msg)) (
     jset ''from_uid'' (JInt (cm_from_uid msg)) (
     jset ''msg_id'' (JStr (cm_msg_id msg)) JNull))))))"

text \<open>\<open>json.get(key, default).asInt()\<close> and so on.\<close>

definition get_as :: "jsoncpp \<Rightarrow> (json \<Rightarrow> 'a option) \<Rightarrow> json \<Rightarrow> string \<Rightarrow> json \<Rightarrow> (cpp_exn + 'a)" where
  "get_as J conv json key d =
     (case Option.bind (jget J json key d) conv of Some x \<Rightarrow> Inr x | None \<Rightarrow> Inl JsonLogicError)"

definition ChatMessage_parseJson :: "jsoncpp \<Rightarrow> json \<Rightarrow> (ChatMessage, unit) prog" where
  "ChatMessage_parseJson J json =
     (if \<not> isObject J json then ret ()
      else
        bnd (from_sum (get_as J (asString J) json ''msg_id'' (JStr []))) (\<lambda>x.
        bnd (upd (\<lambda>m. m\<lparr>cm_msg_id := x\<rparr>)) (\<lambda>_.
        bnd (from_sum (get_as J (asInt J) json ''from_uid'' (JInt 0))) (\<lambda>x.
        bnd (upd (\<lambda>m. m\<lparr>cm_from_uid := x\<rparr>)) (\<lambda>_.
        bnd (from_sum (get_as J (asInt J) json ''to_uid'' (JInt 0))) (\<lambda>x.
        bnd (upd (\<lambda>m. m\<lparr>cm_to_uid := x\<rparr>)) (\<lambda>_.
        bnd (from_sum (get_as J (asString J) json ''content'' (JStr []))) (\<lambda>x.
        bnd (upd (\<lambda>m. m\<lparr>cm_content := x\<rparr>)) (\<lambda>_.
        bnd (from_sum (get_as J (asInt J) json ''msg_type'' (JInt 1))) (\<lambda>x.
        bnd (upd (\<lambda>m. m\<lparr>cm_msg_type := x\<rparr>)) (\<lambda>_.
        bnd (from_sum (get_as J (asInt64 J) json ''send_time'' (JInt 0))) (\<lambda>x.
        bnd (upd (\<lambda>m. m\<lparr>cm_send_time := x\<rparr>)) (\<lambda>_.
        bnd (from_sum (get_as J (asInt J) json ''status'' (JInt 0))) (\<lambda>x.
        upd (\<lambda>m. m\<lparr>cm_status := x\<rparr>)))))))))))))))"

definition ChatMessage_fromJson :: "jsoncpp \<Rightarrow> json \<Rightarrow> ChatMessage result" where
  "ChatMessage_fromJson J json =
     (case ChatMessage_parseJson J json new_ChatMessage of
        (Val _, msg) \<Rightarrow> Val msg | (Exn e, _) \<Rightarrow> Exn e | (Waits, _) \<Rightarrow> Waits | (Crash, _) \<Rightarrow> Crash)"

definition message_in_range :: "ChatMessage \<Rightarrow> bool" where
  "message_in_range m \<longleftrightarrow>
     INT_MIN \<le> cm_from_uid m \<and> cm_from_uid m \<le> INT_MAX \<and> INT_MIN \<le> cm_to_uid m \<and> cm_to_uid m \<le> INT_MAX \<and>
     INT_MIN \<le> cm_msg_type m \<and> cm_msg_type m \<le> INT_MAX \<and> INT_MIN \<le> cm_status m \<and> cm_status m \<le> INT_MAX \<and>
     - (2 ^ 63) \<le> cm_send_time m \<and> cm_send_time m < 2 ^ 63"

section \<open>Properties\<close>

text \<open>
  \<open>ChatMessage::fromJson\<close> undoes \<open>toJson\<close>: every message whose integers fit their C++ types is
  read back unchanged from its JSON form, and \<open>parseJson\<close> overwrites every field of the object it
  is called on.
\<close>

theorem ChatMessage_json_roundtrip:
  assumes "json_documented J" and "message_in_range msg"
  shows "ChatMessage_fromJson J (ChatMessage_toJson msg) = Val msg \<and>
    ChatMessage_parseJson J (ChatMessage_toJson msg) old = (Val (), msg)"
proof -
  note r = assms(2) [unfolded message_in_range_def]
  have g: "get_as J conv (ChatMessage_toJson msg) k d =
      (case conv (case map_of [(''msg_id'', JStr (cm_msg_id msg)), (''from_uid'', JInt (cm_from_uid msg)),
         (''to_uid'', JInt (cm_to_uid msg)), (''content'', JStr (cm_content msg)), (''msg_type'', JInt (cm_msg_type msg)),
         (''send_time'', JInt (cm_send_time msg)), (''status'', JInt (cm_status msg))] k of Some v \<Rightarrow> v | None \<Rightarrow> d)
       of Some x \<Rightarrow> Inr x | None \<Rightarrow> Inl JsonLogicError)" for conv :: "json \<Rightarrow> 'a option" and k d
    by (simp add: get_as_def ChatMessage_toJson_def json_docD(10) [OF assms(1)])
  have o: "isObject J (ChatMessage_toJson msg)"
    using json_docD(12) [OF assms(1)] by (auto simp: ChatMessage_toJson_def)
  have "ChatMessage_parseJson J (ChatMessage_toJson msg) m = (Val (), msg)" for m
    unfolding ChatMessage_parseJson_def
    using o r by (simp add: g json_docD [OF assms(1)] bnd_def upd_def from_sum_def ret_def)
  then show ?thesis by (simp add: ChatMessage_fromJson_def)
qed

theorem ChatMessage_json_roundtrip_witness:
  "ChatMessage_fromJson ref_json (ChatMessage_toJson \<lparr>cm_msg_id = ''id1'', cm_from_uid = 1, cm_to_uid = 2,
     cm_content = ''hi'', cm_msg_type = 1, cm_send_time = 1700000000, cm_status = 0\<rparr>) =
   Val \<lparr>cm_msg_id = ''id1'', cm_from_uid = 1, cm_to_uid = 2,
     cm_content = ''hi'', cm_msg_type = 1, cm_send_time = 1700000000, cm_status = 0\<rparr>"
  using ChatMessage_json_roundtrip [OF ref_json_documented, of "\<lparr>cm_msg_id = ''id1'', cm_from_uid = 1, cm_to_uid = 2,
     cm_content = ''hi'', cm_msg_type = 1, cm_send_time = 1700000000, cm_status = 0\<rparr>" new_ChatMessage]
  by (simp add: message_in_range_def INT_MIN_def INT_MAX_def)

end
