(* ===== verification/ChatCache.thy ===== *)
theory ChatCache
  imports RedisManager ChatData
begin

text \<open>
  \<open>ChatCacheManager\<close> (\<open>ChatServer/ChatCacheManager.cpp\<close>): the Redis side of chat messages, with
  the keys of \<open>redis_keys.h\<close>. A message is a hash with an expiry of seven days; each receiver has
  a list of unread message ids per sender and a hash of unread counts; each user a sorted set of
  message ids. The lemmas follow the effect of each operation on the key space.
\<close>

section \<open>Keys\<close>

definition MessageKey :: "string \<Rightarrow> string" where
  "MessageKey msgId = ''chat:msg:'' @ msgId"

definition UserMessagesKey :: "int \<Rightarrow> string" where
  "UserMessagesKey uid = ''chat:user_msgs:'' @ to_string uid"

definition UnreadKey :: "int \<Rightarrow> int \<Rightarrow> string" where
  "UnreadKey toUid fromUid = ''chat:unread:'' @ to_string toUid @ '':'' @ to_string fromUid"

definition ChatRelationKey :: "int \<Rightarrow> string" where
  "ChatRelationKey uid = ''chat:relation:'' @ to_string uid"

section \<open>Operations\<close>

text \<open>The condition \<open>!hset(..) || !hset(..) || ...\<close>, evaluated from the left until one fails.\<close>

fun hset_each :: "'r redis_fun \<Rightarrow> string \<Rightarrow> (string \<times> string) list \<Rightarrow> ('r RedisManager, bool) prog" where
  "hset_each redis key [] = ret True"
| "hset_each redis key ((f, v) # fvs) =
     bnd (hset redis key f v) (\<lambda>ok. if ok then hset_each redis key fvs else ret False)"

text \<open>The new unread count: one more than the stored number, 1 when it is no number.\<close>

definition next_count :: "string \<Rightarrow> int result" where
  "next_count unreadCount =
     (case stoi unreadCount of
        Inl _ \<Rightarrow> Val 1
      | Inr i \<Rightarrow> if i = INT_MAX then Crash else Val (if i + 1 < 1 then 1 else i + 1))"

definition bump_unread :: "'r redis_fun \<Rightarrow> int \<Rightarrow> int \<Rightarrow> ('r RedisManager, unit) prog" where
  "bump_unread redis fromUid toUid =
     (let relationKey = ChatRelationKey toUid in
      bnd (hget redis relationKey (to_string fromUid) []) (\<lambda>(found, unreadCount).
      if found then
        bnd (\<lambda>m. (next_count unreadCount, m)) (\<lambda>count.
        bnd (hset redis relationKey (to_string fromUid) (to_string count)) (\<lambda>_. ret ()))
      else bnd (hset redis relationKey (to_string fromUid) ''1'') (\<lambda>_. ret ())))"

text \<open>\<open>time1\<close> and \<open>time2\<close> are the two readings of \<open>time(nullptr)\<close>.\<close>

definition CacheNewMessage ::
    "'r redis_fun \<Rightarrow> int \<Rightarrow> int \<Rightarrow> int \<Rightarrow> int \<Rightarrow> string \<Rightarrow> string \<Rightarrow> int \<Rightarrow> ('r RedisManager, bool) prog" where
  "CacheNewMessage redis time1 time2 fromUid toUid msgId content msgType =
     catching
       (let msgKey = MessageKey msgId in
        bnd (hset_each redis msgKey
               [(''from_uid'', to_string fromUid), (''to_uid'', to_string toUid), (''content'', content),
                (''msg_type'', to_string msgType), (''timestamp'', to_string time1), (''status'', ''0'')]) (\<lambda>saved.
        if \<not> saved then ret False
        else
          bnd (expire redis msgKey (7 * 24 * 3600)) (\<lambda>_.
          let score = to_string time2 in
          bnd (redis_execute redis (''ZADD '' @ UserMessagesKey fromUid @ '' '' @ score @ '' '' @ msgId)) (\<lambda>_.
          bnd (redis_execute redis (''ZADD '' @ UserMessagesKey toUid @ '' '' @ score @ '' '' @ msgId)) (\<lambda>_.
          bnd (rpush redis (UnreadKey toUid fromUid) msgId) (\<lambda>_.
          bnd (bump_unread redis fromUid toUid) (\<lambda>_.
          ret True)))))))
       (\<lambda>_. ret False)"

definition CacheNewMessage_msg ::
    "'r redis_fun \<Rightarrow> int \<Rightarrow> int \<Rightarrow> ChatMessage \<Rightarrow> ('r RedisManager, bool) prog" where
  "CacheNewMessage_msg redis time1 time2 msg =
     CacheNewMessage redis time1 time2 (cm_from_uid msg) (cm_to_uid msg) (cm_msg_id msg) (cm_content msg) (cm_msg_type msg)"

text \<open>
  \<open>if (redis->hget(msgKey, field, value)) msg.field = conv(value);\<close> with the local \<open>value\<close> that
  all the fields of one message share.
\<close>

definition read_field ::
    "'r redis_fun \<Rightarrow> string \<Rightarrow> string \<Rightarrow> (string \<Rightarrow> cpp_exn + 'a) \<Rightarrow> 'a \<Rightarrow> string \<Rightarrow> ('r RedisManager, 'a \<times> string) prog" where
  "read_field redis msgKey field conv dflt v =
     bnd (hget redis msgKey field v) (\<lambda>(found, w).
       if found then bnd (from_sum (conv w)) (\<lambda>x. ret (x, w)) else ret (dflt, w))"

definition read_message :: "'r redis_fun \<Rightarrow> string \<Rightarrow> ('r RedisManager, ChatMessage) prog" where
  "read_message redis msgId =
     (let msgKey = MessageKey msgId; msg = new_ChatMessage\<lparr>cm_msg_id := msgId\<rparr> in
      bnd (read_field redis msgKey ''from_uid'' stoi (cm_from_uid msg) []) (\<lambda>(from_uid, v).
      bnd (read_field redis msgKey ''to_uid'' stoi (cm_to_uid msg) v) (\<lambda>(to_uid, v).
      bnd (read_field redis msgKey ''content'' Inr (cm_content msg) v) (\<lambda>(content, v).
      bnd (read_field redis msgKey ''msg_type'' stoi (cm_msg_type msg) v) (\<lambda>(msg_type, v).
      bnd (read_field redis msgKey ''timestamp'' stol (cm_send_time msg) v) (\<lambda>(send_time, v).
      bnd (read_field redis msgKey ''status'' stoi (cm_status msg) v) (\<lambda>(status, v).
      ret (msg\<lparr>cm_from_uid := from_uid, cm_to_uid := to_uid, cm_content := content, cm_msg_type := msg_type,
               cm_send_time := send_time, cm_status := status\<rparr>))))))))"

definition push_messages ::
    "'r redis_fun \<Rightarrow> string list \<Rightarrow> ('r RedisManager \<times> ChatMessage list, unit) prog" where
  "push_messages redis =
     forM (\<lambda>msgId. bnd (outer (read_message redis msgId)) (\<lambda>msg. local_upd (\<lambda>messages. messages @ [msg])))"

definition GetRecentMessages :: "'r redis_fun \<Rightarrow> int \<Rightarrow> int \<Rightarrow> ('r RedisManager, ChatMessage list) prog" where
  "GetRecentMessages redis uid limit =
     collect []
       (catching
          (bnd (outer (zrevrange redis (UserMessagesKey uid) 0 (limit - 1))) (\<lambda>msgIds. push_messages redis msgIds))
          (\<lambda>_. ret ()))"

definition cache_MarkMessagesAsRead :: "'r redis_fun \<Rightarrow> int \<Rightarrow> int \<Rightarrow> ('r RedisManager, bool) prog" where
  "cache_MarkMessagesAsRead redis uid peerId =
     catching
       (bnd (redis_del redis (UnreadKey uid peerId)) (\<lambda>_.
        bnd (hset redis (ChatRelationKey uid) (to_string peerId) ''0'') (\<lambda>_.
        ret True)))
       (\<lambda>_. ret False)"

text \<open>The body of the loop over the peers of \<open>GetUnreadMessages\<close>, with its own \<open>try\<close>.\<close>

definition unread_of_peer ::
    "'r redis_fun \<Rightarrow> int \<Rightarrow> string \<Rightarrow> ('r RedisManager \<times> ChatMessage list, unit) prog" where
  "unread_of_peer redis uid peerId =
     bnd (outer (hget redis (ChatRelationKey uid) peerId [])) (\<lambda>(found, unreadCount).
     if \<not> found then ret ()
     else catching
       (bnd (from_sum (stoi unreadCount)) (\<lambda>count.
        if count > 0 then
          bnd (from_sum (stoi peerId)) (\<lambda>peer.
          bnd (outer (lrange redis (UnreadKey uid peer) [])) (\<lambda>(ok, msgIds).
          if ok then push_messages redis msgIds else ret ()))
        else ret ()))
       (\<lambda>_. ret ()))"

definition GetUnreadMessages :: "'r redis_fun \<Rightarrow> int \<Rightarrow> ('r RedisManager, ChatMessage list) prog" where
  "GetUnreadMessages redis uid =
     collect []
       (catching
          (bnd (outer (hkeys redis (ChatRelationKey uid) [])) (\<lambda>(ok, peerIds).
           if \<not> ok then ret () else forM (unread_of_peer redis uid) peerIds))
          (\<lambda>_. ret ()))"

section \<open>Effects on the key space\<close>

lemmas key_defs = MessageKey_def UserMessagesKey_def UnreadKey_def ChatRelationKey_def

lemma key_distinct [simp]:
  "MessageKey i \<noteq> UserMessagesKey u" "MessageKey i \<noteq> UnreadKey u v" "MessageKey i \<noteq> ChatRelationKey u"
  "UserMessagesKey u \<noteq> UnreadKey v w" "UserMessagesKey u \<noteq> ChatRelationKey v" "UnreadKey u v \<noteq> ChatRelationKey w"
  "UserMessagesKey u \<noteq> MessageKey i" "UnreadKey u v \<noteq> MessageKey i" "ChatRelationKey u \<noteq> MessageKey i"
  "UnreadKey v w \<noteq> UserMessagesKey u" "ChatRelationKey v \<noteq> UserMessagesKey u" "ChatRelationKey w \<noteq> UnreadKey u v"
  by (simp_all add: key_defs)

lemma MessageKey_inj [simp]: "MessageKey i = MessageKey j \<longleftrightarrow> i = j"
  by (simp add: MessageKey_def)

lemma ChatRelationKey_inj [simp]: "ChatRelationKey i = ChatRelationKey j \<longleftrightarrow> i = j"
  by (simp add: ChatRelationKey_def to_string_inj)

text \<open>Unread lists of different pairs of users do not share a key.\<close>

lemma UnreadKey_inj [simp]: "UnreadKey a b = UnreadKey c d \<longleftrightarrow> a = c \<and> b = d"
proof
  have nc: "CHR '':'' \<notin> set (to_string i)" for i
    using to_string_no_char [of "CHR '':''" i] by (auto simp: is_digit_def)
  assume "UnreadKey a b = UnreadKey c d"
  then have "to_string a @ CHR '':'' # to_string b = to_string c @ CHR '':'' # to_string d"
    by (simp add: UnreadKey_def)
  then have "split_at (CHR '':'') (to_string a @ CHR '':'' # to_string b) =
      split_at (CHR '':'') (to_string c @ CHR '':'' # to_string d)" by simp
  then have "to_string a = to_string c \<and> to_string b = to_string d"
    by (simp only: split_at_append [OF nc]) simp
  then show "a = c \<and> b = d" by (simp add: to_string_inj)
qed simp

lemma no_nul_keys [simp]:
  "no_nul (MessageKey i) \<longleftrightarrow> no_nul i" "no_nul (UserMessagesKey u)" "no_nul (UnreadKey u v)" "no_nul (ChatRelationKey u)"
  by (simp_all add: key_defs)

lemma no_percent_UserMessagesKey [simp]: "no_percent (UserMessagesKey u)"
  using no_percent_to_string [of u] by (simp add: UserMessagesKey_def no_percent_def)

lemma no_space_UserMessagesKey [simp]: "no_space (UserMessagesKey u)"
  using no_space_to_string [of u] by (simp add: UserMessagesKey_def no_space_def)

lemma does_catching: "does view p m (Val x) ks \<Longrightarrow> does view (catching p h) m (Val x) ks"
  by (auto simp: does_def catching_def)

lemma does_bnd_ex:
  assumes "\<exists>b. does view op m (Val b) ks"
    and "\<And>b m'. redis_up m' \<Longrightarrow> view (redis_server m') = ks \<Longrightarrow> does view (f b) m' y ks'"
  shows "does view (bnd op f) m y ks'"
  using assms does_bnd by metis

definition put_fields :: "(string \<times> string) list \<Rightarrow> (string \<times> string) list \<Rightarrow> (string \<times> string) list" where
  "put_fields fvs h = foldl (\<lambda>h (f, v). AList.update f v h) h fvs"

lemma does_hset_each:
  assumes "redis_documented redis view" and "no_nul k"
  shows "redis_up m \<Longrightarrow> is_hash (view (redis_server m)) k \<Longrightarrow>
    list_all (\<lambda>(f, v). no_nul f \<and> no_nul v) fvs \<Longrightarrow> fvs \<noteq> [] \<Longrightarrow>
    does view (hset_each redis k fvs) m (Val True)
      ((view (redis_server m))(k \<mapsto> VHash (put_fields fvs (hash_of (view (redis_server m)) k))))"
proof (induction fvs arbitrary: m)
  case (Cons fv fvs)
  obtain f v where fv: "fv = (f, v)" by fastforce
  let ?ks = "view (redis_server m)"
  let ?ks1 = "?ks(k \<mapsto> VHash (AList.update f v (hash_of ?ks k)))"
  have s: "does view (hset redis k f v) m (Val True) ?ks1"
    by (rule does_hset [OF assms(1) Cons.prems(1) assms(2)]) (use Cons.prems fv in auto)
  show ?case
  proof (cases "fvs = []")
    case True
    have "does view (ret True) m' (Val True) ?ks1" if "redis_up m'" "view (redis_server m') = ?ks1" for m'
      using does_ret [OF that(1), of view True] by (simp only: that(2))
    then show ?thesis
      unfolding fv True hset_each.simps put_fields_def foldl.simps prod.case
      by (intro does_bnd [OF s]) (simp only: if_True)
  next
    case False
    have "does view (hset_each redis k fvs) m' (Val True) (?ks(k \<mapsto> VHash (put_fields (fv # fvs) (hash_of ?ks k))))"
      if m': "redis_up m'" "view (redis_server m') = ?ks1" for m'
    proof -
      have "does view (hset_each redis k fvs) m' (Val True)
          ((view (redis_server m'))(k \<mapsto> VHash (put_fields fvs (hash_of (view (redis_server m')) k))))"
        by (rule Cons.IH [OF m'(1)]) (use m'(2) Cons.prems False in \<open>auto simp: is_hash_def\<close>)
      then show ?thesis by (simp add: m'(2) fv put_fields_def hash_of_def)
    qed
    then show ?thesis
      unfolding fv hset_each.simps by (intro does_bnd [OF s]) (simp only: if_True fv)
  qed
qed simp

text \<open>The stored count of one peer, and that reading it succeeds.\<close>

definition count_text :: "keyspace \<Rightarrow> int \<Rightarrow> int \<Rightarrow> string" where
  "count_text ks toUid fromUid =
     (case map_of (hash_of ks (ChatRelationKey toUid)) (to_string fromUid) of Some v \<Rightarrow> v | None \<Rightarrow> [])"

lemma does_bump_unread:
  assumes "redis_documented redis view" and "redis_up m"
    and "is_hash (view (redis_server m)) (ChatRelationKey toUid)"
    and "no_nul (count_text (view (redis_server m)) toUid fromUid)"
    and "next_count (count_text (view (redis_server m)) toUid fromUid) = Val n"
  shows "does view (bump_unread redis fromUid toUid) m (Val ())
    ((view (redis_server m))(ChatRelationKey toUid \<mapsto>
       VHash (AList.update (to_string fromUid) (to_string n) (hash_of (view (redis_server m)) (ChatRelationKey toUid)))))"
proof -
  let ?ks = "view (redis_server m)" and ?k = "ChatRelationKey toUid"
  let ?ks' = "?ks(?k \<mapsto> VHash (AList.update (to_string fromUid) (to_string n) (hash_of ?ks ?k)))"
  have g: "does view (hget redis ?k (to_string fromUid) []) m (Val (True, count_text ?ks toUid fromUid)) ?ks"
    using assms does_hget [OF assms(1-3)] does_hget_missing [OF assms(1-3)]
    by (cases "map_of (hash_of ?ks ?k) (to_string fromUid)") (simp_all add: count_text_def)
  have s: "does view (hset redis ?k (to_string fromUid) (to_string n)) m' (Val True) ?ks'"
    if "redis_up m'" "view (redis_server m') = ?ks" for m'
    using does_hset [OF assms(1) that(1), of ?k "to_string fromUid" "to_string n"] that(2) assms(3) by simp
  have r: "does view (ret ()) m' (Val ()) ?ks'" if "redis_up m'" "view (redis_server m') = ?ks'" for m'
    using does_ret [of m' view "()"] that by simp
  show ?thesis
    unfolding bump_unread_def Let_def
    by (rule does_bnd [OF g], simp, rule does_bnd [where ks = ?ks and x = n],
        simp add: does_def assms(5), rule does_bnd [OF s], assumption+, rule r, assumption+)
qed

text \<open>The six fields of a new message.\<close>

definition message_fields :: "int \<Rightarrow> int \<Rightarrow> int \<Rightarrow> string \<Rightarrow> int \<Rightarrow> (string \<times> string) list" where
  "message_fields fromUid toUid sent content msgType =
     [(''from_uid'', to_string fromUid), (''to_uid'', to_string toUid), (''content'', content),
      (''msg_type'', to_string msgType), (''timestamp'', to_string sent), (''status'', ''0'')]"

text \<open>The key space after \<open>CacheNewMessage\<close>.\<close>

definition cached :: "int \<Rightarrow> int \<Rightarrow> int \<Rightarrow> int \<Rightarrow> string \<Rightarrow> string \<Rightarrow> int \<Rightarrow> int \<Rightarrow> keyspace \<Rightarrow> keyspace" where
  "cached time1 time2 fromUid toUid msgId content msgType n ks =
     (let ks1 = ks(MessageKey msgId \<mapsto>
            VHash (put_fields (message_fields fromUid toUid time1 content msgType) (hash_of ks (MessageKey msgId))));
          ks2 = zset_put (UserMessagesKey fromUid) (to_string time2) msgId ks1;
          ks3 = zset_put (UserMessagesKey toUid) (to_string time2) msgId ks2;
          ks4 = ks3(UnreadKey toUid fromUid \<mapsto> VList (list_of ks (UnreadKey toUid fromUid) @ [msgId])) in
      ks4(ChatRelationKey toUid \<mapsto>
            VHash (AList.update (to_string fromUid) (to_string n) (hash_of ks (ChatRelationKey toUid)))))"

definition cache_ready :: "keyspace \<Rightarrow> int \<Rightarrow> int \<Rightarrow> string \<Rightarrow> bool" where
  "cache_ready ks fromUid toUid msgId \<longleftrightarrow>
     is_zset ks (UserMessagesKey fromUid) \<and> is_zset ks (UserMessagesKey toUid) \<and>
     is_hash ks (MessageKey msgId) \<and> is_list ks (UnreadKey toUid fromUid) \<and> is_hash ks (ChatRelationKey toUid) \<and>
     no_nul (count_text ks toUid fromUid)"

lemma hash_of_cong: "ks k = ks' k \<Longrightarrow> hash_of ks k = hash_of ks' k"
  by (simp add: hash_of_def)

lemma does_CacheNewMessage:
  assumes doc: "redis_documented redis view" and up: "redis_up m"
    and ks: "view (redis_server m) = ks" and ready: "cache_ready ks fromUid toUid msgId"
    and id: "no_nul msgId" "no_space msgId" "no_percent msgId" "msgId \<noteq> []" and con: "no_nul content"
    and n: "next_count (count_text ks toUid fromUid) = Val n"
  shows "does view (CacheNewMessage redis time1 time2 fromUid toUid msgId content msgType) m (Val True)
    (cached time1 time2 fromUid toUid msgId content msgType n ks)"
proof -
  let ?f = "message_fields fromUid toUid time1 content msgType"
  let ?s = "to_string time2"
  define ks1 where "ks1 = ks(MessageKey msgId \<mapsto> VHash (put_fields ?f (hash_of ks (MessageKey msgId))))"
  define ks2 where "ks2 = zset_put (UserMessagesKey fromUid) ?s msgId ks1"
  define ks3 where "ks3 = zset_put (UserMessagesKey toUid) ?s msgId ks2"
  define ks4 where "ks4 = ks3(UnreadKey toUid fromUid \<mapsto> VList (list_of ks (UnreadKey toUid fromUid) @ [msgId]))"
  have same: "ks3 (UnreadKey toUid fromUid) = ks (UnreadKey toUid fromUid)"
    "ks4 (ChatRelationKey toUid) = ks (ChatRelationKey toUid)"
    by (simp_all add: ks4_def ks3_def ks2_def ks1_def)
  have s1: "does view (hset_each redis (MessageKey msgId) ?f) m (Val True) ks1"
    using does_hset_each [OF doc _ up, of "MessageKey msgId" ?f] ready id con
    by (simp add: ks ks1_def cache_ready_def message_fields_def)
  have s2: "\<exists>b. does view (expire redis (MessageKey msgId) (7 * 24 * 3600)) m' (Val b) ks1"
    if "redis_up m'" "view (redis_server m') = ks1" for m'
    using does_expire [OF doc that(1), of "MessageKey msgId"] that(2) id(1) by simp
  have z: "\<exists>b. does view (redis_execute redis (''ZADD '' @ UserMessagesKey u @ '' '' @ ?s @ '' '' @ msgId)) m' (Val b)
      (zset_put (UserMessagesKey u) ?s msgId k)"
    if "redis_up m'" "view (redis_server m') = k" for m' u k
    using does_zadd [OF doc that(1), of "UserMessagesKey u" ?s msgId] id that(2) by simp
  have s5: "does view (rpush redis (UnreadKey toUid fromUid) msgId) m' (Val True) ks4"
    if "redis_up m'" "view (redis_server m') = ks3" for m'
    using does_rpush [OF doc that(1), of "UnreadKey toUid fromUid" msgId] that(2) same(1) ready id(1)
    by (simp add: ks4_def cache_ready_def is_list_def list_of_def)
  have s6: "does view (bump_unread redis fromUid toUid) m' (Val ())
      (cached time1 time2 fromUid toUid msgId content msgType n ks)"
    if "redis_up m'" "view (redis_server m') = ks4" for m'
  proof -
    have "count_text ks4 toUid fromUid = count_text ks toUid fromUid"
      "hash_of ks4 (ChatRelationKey toUid) = hash_of ks (ChatRelationKey toUid)"
      "is_hash ks4 (ChatRelationKey toUid)"
      using same(2) ready by (simp_all add: count_text_def hash_of_def is_hash_def cache_ready_def)
    then show ?thesis
      using does_bump_unread [OF doc that(1), of toUid fromUid n] that(2) ready n
      by (simp add: cached_def Let_def ks4_def ks3_def ks2_def ks1_def cache_ready_def)
  qed
  have r: "does view (ret True) m' (Val True) k" if "redis_up m'" "view (redis_server m') = k" for m' k
    using does_ret [OF that(1), of view True] by (simp only: that(2))
  show ?thesis
    unfolding CacheNewMessage_def Let_def message_fields_def [symmetric]
    by (rule does_catching, rule does_bnd [OF s1], simp only: not_True_eq_False if_False,
        rule does_bnd_ex [OF s2], assumption+,
        rule does_bnd_ex [OF z], assumption+, fold ks2_def,
        rule does_bnd_ex [OF z], assumption+, fold ks3_def,
        rule does_bnd [OF s5], assumption+, rule does_bnd [OF s6], assumption+, rule r, assumption+)
qed

lemma does_MarkMessagesAsRead:
  assumes "redis_documented redis view" and "redis_up m" and "view (redis_server m) = ks"
    and "is_hash ks (ChatRelationKey uid)"
  shows "does view (cache_MarkMessagesAsRead redis uid peerId) m (Val True)
    (ks(UnreadKey uid peerId := None,
        ChatRelationKey uid \<mapsto> VHash (AList.update (to_string peerId) ''0'' (hash_of ks (ChatRelationKey uid)))))"
proof -
  let ?ks1 = "ks(UnreadKey uid peerId := None)"
  let ?ks2 = "?ks1(ChatRelationKey uid \<mapsto> VHash (AList.update (to_string peerId) ''0'' (hash_of ks (ChatRelationKey uid))))"
  have s1: "does view (redis_del redis (UnreadKey uid peerId)) m (Val True) ?ks1"
    using does_del [OF assms(1,2), of "UnreadKey uid peerId"] assms(3) by simp
  have s2: "does view (hset redis (ChatRelationKey uid) (to_string peerId) ''0'') m' (Val True) ?ks2"
    if "redis_up m'" "view (redis_server m') = ?ks1" for m'
    using does_hset [OF assms(1) that(1), of "ChatRelationKey uid" "to_string peerId" "''0''"] that(2) assms(4)
    by (simp add: is_hash_def hash_of_def)
  have r: "does view (ret True) m' (Val True) k" if "redis_up m'" "view (redis_server m') = k" for m' k
    using does_ret [OF that(1), of view True] by (simp only: that(2))
  show ?thesis
    unfolding cache_MarkMessagesAsRead_def
    by (rule does_catching, rule does_bnd [OF s1], rule does_bnd [OF s2], assumption+, rule r, assumption+)
qed

section \<open>Reading messages back\<close>

text \<open>A message whose hash is complete.\<close>

definition stored :: "keyspace \<Rightarrow> ChatMessage \<Rightarrow> bool" where
  "stored ks msg \<longleftrightarrow>
     (let h = map_of (hash_of ks (MessageKey (cm_msg_id msg))) in
      is_hash ks (MessageKey (cm_msg_id msg)) \<and> message_in_range msg \<and> no_nul (cm_content msg) \<and>
      h ''from_uid'' = Some (to_string (cm_from_uid msg)) \<and> h ''to_uid'' = Some (to_string (cm_to_uid msg)) \<and>
      h ''content'' = Some (cm_content msg) \<and> h ''msg_type'' = Some (to_string (cm_msg_type msg)) \<and>
      h ''timestamp'' = Some (to_string (cm_send_time msg)) \<and> h ''status'' = Some (to_string (cm_status msg)))"

lemma does_read_field:
  assumes "redis_documented redis view" and "redis_up m" and "view (redis_server m) = ks"
    and "is_hash ks k" and "map_of (hash_of ks k) f = Some w" and "no_nul w" and "conv w = Inr x"
  shows "does view (read_field redis k f conv d v) m (Val (x, w)) ks"
proof -
  have g: "does view (hget redis k f v) m (Val (True, w)) ks"
    using does_hget [OF assms(1,2), of k f w v] assms(3-6) by simp
  show ?thesis
    unfolding read_field_def
    by (rule does_bnd [OF g]) (simp add: assms(7) from_sum_def does_def ret_def)
qed

lemma does_read_message:
  assumes "redis_documented redis view" and "redis_up m" and "view (redis_server m) = ks" and "stored ks msg"
  shows "does view (read_message redis (cm_msg_id msg)) m (Val msg) ks"
proof -
  let ?k = "MessageKey (cm_msg_id msg)" and ?h = "map_of (hash_of ks (MessageKey (cm_msg_id msg)))"
  note st = assms(4) [unfolded stored_def Let_def]
  have f: "does view (read_field redis ?k fld stoi d v) m' (Val (i, to_string i)) ks"
    if "redis_up m'" "view (redis_server m') = ks" "?h fld = Some (to_string i)" "stoi (to_string i) = Inr i"
    for m' fld d v i
    by (rule does_read_field [OF assms(1) that(1,2)]) (use st that(3,4) in simp_all)
  have fl: "does view (read_field redis ?k fld stol d v) m' (Val (i, to_string i)) ks"
    if "redis_up m'" "view (redis_server m') = ks" "?h fld = Some (to_string i)" "stol (to_string i) = Inr i"
    for m' fld d v i
    by (rule does_read_field [OF assms(1) that(1,2)]) (use st that(3,4) in simp_all)
  have fs: "does view (read_field redis ?k fld Inr d v) m' (Val (w, w)) ks"
    if "redis_up m'" "view (redis_server m') = ks" "?h fld = Some w" "no_nul w" for m' fld d v w
    by (rule does_read_field [OF assms(1) that(1,2)]) (use st that(3,4) in simp_all)
  have r: "does view (ret x) m' (Val x) ks" if "redis_up m'" "view (redis_server m') = ks" for m' and x :: ChatMessage
    using does_ret [OF that(1), of view x] by (simp only: that(2))
  have rng: "stoi (to_string (cm_from_uid msg)) = Inr (cm_from_uid msg)" "stoi (to_string (cm_to_uid msg)) = Inr (cm_to_uid msg)"
    "stoi (to_string (cm_msg_type msg)) = Inr (cm_msg_type msg)" "stoi (to_string (cm_status msg)) = Inr (cm_status msg)"
    "stol (to_string (cm_send_time msg)) = Inr (cm_send_time msg)" "no_nul (cm_content msg)"
    using st by (simp_all add: message_in_range_def)
  have fin: "does view (ret (new_ChatMessage\<lparr>cm_msg_id := cm_msg_id msg, cm_from_uid := cm_from_uid msg,
      cm_to_uid := cm_to_uid msg, cm_content := cm_content msg, cm_msg_type := cm_msg_type msg,
      cm_send_time := cm_send_time msg, cm_status := cm_status msg\<rparr>)) m' (Val msg) ks"
    if "redis_up m'" "view (redis_server m') = ks" for m'
    using r [OF that, of msg] by (cases msg) (simp add: new_ChatMessage_def)
  have steps: "?h ''from_uid'' = Some (to_string (cm_from_uid msg))" "?h ''to_uid'' = Some (to_string (cm_to_uid msg))"
      "?h ''content'' = Some (cm_content msg)" "?h ''msg_type'' = Some (to_string (cm_msg_type msg))"
      "?h ''timestamp'' = Some (to_string (cm_send_time msg))" "?h ''status'' = Some (to_string (cm_status msg))"
    using st by simp_all
  show ?thesis
    unfolding read_message_def Let_def
    by (rule does_bnd [OF f [OF assms(2,3) steps(1) rng(1)]], simp only: prod.case,
        rule does_bnd [OF f [OF _ _ steps(2) rng(2)]], assumption+, simp only: prod.case,
        rule does_bnd [OF fs [OF _ _ steps(3) rng(6)]], assumption+, simp only: prod.case,
        rule does_bnd [OF f [OF _ _ steps(4) rng(3)]], assumption+, simp only: prod.case,
        rule does_bnd [OF fl [OF _ _ steps(5) rng(5)]], assumption+, simp only: prod.case,
        rule does_bnd [OF f [OF _ _ steps(6) rng(4)]], assumption+, simp only: prod.case,
        rule fin, assumption+)
qed

text \<open>The same on the state with the local list of messages.\<close>

definition does_acc ::
    "('r \<Rightarrow> keyspace) \<Rightarrow> keyspace \<Rightarrow> ('r RedisManager \<times> 'v, unit) prog \<Rightarrow> 'v \<Rightarrow> 'v \<Rightarrow> bool" where
  "does_acc view ks p v w \<longleftrightarrow> (\<forall>m. redis_up m \<and> view (redis_server m) = ks \<longrightarrow>
     (\<exists>m'. p (m, v) = (Val (), (m', w)) \<and> redis_up m' \<and> view (redis_server m') = ks))"

lemma does_acc_bnd:
  "does_acc view ks p u v \<Longrightarrow> does_acc view ks q v w \<Longrightarrow> does_acc view ks (bnd p (\<lambda>_. q)) u w"
  unfolding does_acc_def bnd_def by fastforce

lemma does_acc_ret: "does_acc view ks (ret ()) v v"
  by (simp add: does_acc_def ret_def)

lemma does_acc_outer:
  assumes "\<And>m. redis_up m \<Longrightarrow> view (redis_server m) = ks \<Longrightarrow> does view op m (Val x) ks"
    and "does_acc view ks (f x) v w"
  shows "does_acc view ks (bnd (outer op) f) v w"
  unfolding does_acc_def
proof (intro allI impI)
  fix m assume m: "redis_up m \<and> view (redis_server m) = ks"
  obtain m1 where m1: "op m = (Val x, m1)" "redis_up m1" "view (redis_server m1) = ks"
    using assms(1) m unfolding does_def by blast
  then show "\<exists>m'. bnd (outer op) f (m, v) = (Val (), (m', w)) \<and> redis_up m' \<and> view (redis_server m') = ks"
    using assms(2) unfolding does_acc_def by (simp add: bnd_def outer_def zoom_def)
qed

lemma does_acc_catching: "does_acc view ks p v w \<Longrightarrow> does_acc view ks (catching p h) v w"
  unfolding does_acc_def catching_def by fastforce

lemma does_acc_push_messages:
  assumes "redis_documented redis view" and "list_all (stored ks) msgs"
  shows "does_acc view ks (push_messages redis (map cm_msg_id msgs)) acc (acc @ msgs)"
  using assms(2)
proof (induction msgs arbitrary: acc)
  case Nil
  then show ?case by (simp add: push_messages_def does_acc_ret)
next
  case (Cons msg msgs)
  have "does_acc view ks (bnd (outer (read_message redis (cm_msg_id msg))) (\<lambda>msg. local_upd (\<lambda>messages. messages @ [msg])))
      acc (acc @ [msg])"
    by (rule does_acc_outer [OF does_read_message [OF assms(1)]])
      (use Cons.prems in \<open>auto simp: does_acc_def local_upd_def upd_def\<close>)
  from does_acc_bnd [OF this Cons.IH [of "acc @ [msg]"]] show ?case
    using Cons.prems by (simp add: push_messages_def)
qed

lemma does_acc_forM:
  assumes "\<And>x acc. x \<in> set xs \<Longrightarrow> does_acc view ks (f x) acc (acc @ g x)"
  shows "does_acc view ks (forM f xs) acc (acc @ concat (map g xs))"
  using assms
proof (induction xs arbitrary: acc)
  case Nil
  then show ?case by (simp add: does_acc_ret)
next
  case (Cons x xs)
  from does_acc_bnd [OF Cons.prems [of x acc] Cons.IH [of "acc @ g x"]] Cons.prems show ?case by simp
qed

lemma does_acc_collect:
  assumes "does_acc view ks p v w" and "redis_up m" and "view (redis_server m) = ks"
  shows "does view (collect v p) m (Val w) ks"
  using assms unfolding does_acc_def does_def collect_def by fastforce

text \<open>One peer: \<open>n\<close> is the stored count, \<open>msgs\<close> the messages behind the unread list.\<close>

definition peer_ok :: "keyspace \<Rightarrow> int \<Rightarrow> int \<times> int \<times> ChatMessage list \<Rightarrow> bool" where
  "peer_ok ks uid = (\<lambda>(p, n, msgs). INT_MIN \<le> p \<and> p \<le> INT_MAX \<and> INT_MIN \<le> n \<and> n \<le> INT_MAX \<and>
     map_of (hash_of ks (ChatRelationKey uid)) (to_string p) = Some (to_string n) \<and>
     is_list ks (UnreadKey uid p) \<and> list_of ks (UnreadKey uid p) = map cm_msg_id msgs \<and>
     list_all (stored ks) msgs \<and> list_all (no_nul \<circ> cm_msg_id) msgs)"

lemma does_acc_unread_of_peer:
  assumes "redis_documented redis view" and "is_hash ks (ChatRelationKey uid)" and "peer_ok ks uid (p, n, msgs)"
  shows "does_acc view ks (unread_of_peer redis uid (to_string p)) acc (acc @ (if n > 0 then msgs else []))"
proof -
  note pk = assms(3) [unfolded peer_ok_def prod.case]
  have g: "does view (hget redis (ChatRelationKey uid) (to_string p) []) m (Val (True, to_string n)) ks"
    if "redis_up m" "view (redis_server m) = ks" for m
    using does_hget [OF assms(1) that(1), of "ChatRelationKey uid" "to_string p" "to_string n" "[]"] that(2) assms(2) pk
    by simp
  have l: "does view (lrange redis (UnreadKey uid p) []) m (Val (True, map cm_msg_id msgs)) ks"
    if "redis_up m" "view (redis_server m) = ks" for m
    using does_lrange [OF assms(1) that(1), of "UnreadKey uid p" "[]"] that(2) pk by (simp add: list.pred_map)
  have inner: "does_acc view ks
      (if n > 0 then bnd (outer (lrange redis (UnreadKey uid p) [])) (\<lambda>(ok, ids). if ok then push_messages redis ids else ret ())
       else ret ()) acc (acc @ (if n > 0 then msgs else []))"
    using does_acc_push_messages [OF assms(1), of ks msgs acc] pk
    by (auto intro!: does_acc_outer [OF l] does_acc_ret)
  have "does_acc view ks
      (bnd (from_sum (stoi (to_string n))) (\<lambda>count.
        if count > 0 then
          bnd (from_sum (stoi (to_string p))) (\<lambda>peer.
          bnd (outer (lrange redis (UnreadKey uid peer) [])) (\<lambda>(ok, msgIds).
          if ok then push_messages redis msgIds else ret ()))
        else ret ())) acc (acc @ (if n > 0 then msgs else []))"
    using inner pk by (cases "n > 0") (simp_all add: from_sum_def)
  from does_acc_catching [OF this] show ?thesis
    unfolding unread_of_peer_def by (intro does_acc_outer [OF g]) simp_all
qed

lemma does_GetUnreadMessages:
  assumes "redis_documented redis view" and "redis_up m" and "view (redis_server m) = ks"
    and "is_hash ks (ChatRelationKey uid)"
    and "map fst (hash_of ks (ChatRelationKey uid)) = map (to_string \<circ> fst) peers"
    and "list_all (peer_ok ks uid) peers"
  shows "does view (GetUnreadMessages redis uid) m
    (Val (concat (map (\<lambda>(p, n, msgs). if n > 0 then msgs else []) peers))) ks"
proof -
  have nn: "list_all no_nul (map fst (hash_of ks (ChatRelationKey uid)))"
    unfolding assms(5) by (simp add: list_all_iff)
  have hk: "does view (hkeys redis (ChatRelationKey uid) []) m' (Val (True, map (to_string \<circ> fst) peers)) ks"
    if "redis_up m'" "view (redis_server m') = ks" for m'
    using does_hkeys [OF assms(1) that(1), of "ChatRelationKey uid" "[]"] that(2) assms(4,5) nn by simp
  have "does_acc view ks (forM (\<lambda>pr. unread_of_peer redis uid (to_string (fst pr))) peers) []
      ([] @ concat (map (\<lambda>(p, n, msgs). if n > 0 then msgs else []) peers))"
  proof (rule does_acc_forM)
    fix x acc assume "x \<in> set peers"
    then have "peer_ok ks uid x" using assms(6) by (simp add: list_all_iff)
    then show "does_acc view ks (unread_of_peer redis uid (to_string (fst x))) acc
        (acc @ (case x of (p, n, msgs) \<Rightarrow> if n > 0 then msgs else []))"
      using does_acc_unread_of_peer [OF assms(1,4)] by (cases x) fastforce
  qed
  moreover have "forM (unread_of_peer redis uid) (map (to_string \<circ> fst) ps) =
      forM (\<lambda>pr. unread_of_peer redis uid (to_string (fst pr))) ps" for ps :: "(int \<times> int \<times> ChatMessage list) list"
    by (induction ps) simp_all
  ultimately have "does_acc view ks (bnd (outer (hkeys redis (ChatRelationKey uid) [])) (\<lambda>(ok, peerIds).
           if \<not> ok then ret () else forM (unread_of_peer redis uid) peerIds)) []
      (concat (map (\<lambda>(p, n, msgs). if n > 0 then msgs else []) peers))"
    by (intro does_acc_outer [OF hk]) simp_all
  from does_acc_collect [OF does_acc_catching [OF this] assms(2,3)] show ?thesis
    by (simp only: GetUnreadMessages_def)
qed

text \<open>A message whose hash has expired makes \<open>std::stoi\<close> throw on the empty string.\<close>

lemma read_message_expired:
  assumes "redis_documented redis view" and "redis_up m" and "view (redis_server m) (MessageKey msgId) = None"
  shows "does view (read_message redis msgId) m (Exn InvalidArgument) (view (redis_server m))"
proof -
  have "does view (hget redis (MessageKey msgId) ''from_uid'' []) m (Val (True, [])) (view (redis_server m))"
    by (rule does_hget_missing [OF assms(1,2)]) (use assms(3) in \<open>simp_all add: is_hash_def hash_of_def\<close>)
  then show ?thesis
    by (auto simp: does_def read_message_def Let_def read_field_def bnd_def from_sum_def raise_def)
qed

lemma push_messages_append:
  "push_messages redis (xs @ ys) = bnd (push_messages redis xs) (\<lambda>_. push_messages redis ys)"
  by (simp add: push_messages_def forM_append)

lemma push_messages_expired:
  assumes "redis_documented redis view" and "list_all (stored ks) msgs" and "ks (MessageKey msgId) = None"
    and "redis_up m" and "view (redis_server m) = ks"
  shows "\<exists>m'. push_messages redis (map cm_msg_id msgs @ msgId # rest) (m, acc) =
    (Exn InvalidArgument, (m', acc @ msgs)) \<and> redis_up m' \<and> view (redis_server m') = ks"
proof -
  obtain m1 where m1: "push_messages redis (map cm_msg_id msgs) (m, acc) = (Val (), (m1, acc @ msgs))"
      "redis_up m1" "view (redis_server m1) = ks"
    using does_acc_push_messages [OF assms(1,2), of acc] assms(4,5) unfolding does_acc_def by blast
  obtain m2 where "read_message redis msgId m1 = (Exn InvalidArgument, m2)" "redis_up m2" "view (redis_server m2) = ks"
    using read_message_expired [OF assms(1) m1(2), of msgId] m1(3) assms(3) unfolding does_def by auto
  then have "push_messages redis (msgId # rest) (m1, acc @ msgs) = (Exn InvalidArgument, (m2, acc @ msgs)) \<and>
      redis_up m2 \<and> view (redis_server m2) = ks"
    by (simp add: bnd_def push_messages_def outer_def zoom_def)
  then show ?thesis
    using m1(1) by (auto simp: push_messages_append bnd_def)
qed

section \<open>Properties\<close>

text \<open>
  An id with a conversion in it: the text of the \<open>ZADD\<close> command is the format of \<open>redisCommand\<close>, so
  \<open>CacheNewMessage\<close> of such a message ends in undefined behaviour. The id comes from the client.
\<close>

lemma CacheNewMessage_format:
  assumes doc: "redis_documented redis view" and up: "redis_up m"
    and "is_hash (view (redis_server m)) (MessageKey msgId)"
    and "no_nul msgId" "no_nul content" "asks_argument msgId"
  shows "fst (CacheNewMessage redis time1 time2 fromUid toUid msgId content msgType m) = Crash"
proof -
  let ?f = "message_fields fromUid toUid time1 content msgType"
  let ?c = "''ZADD '' @ UserMessagesKey fromUid @ '' '' @ to_string time2 @ '' '' @ msgId"
  obtain m1 where m1: "hset_each redis (MessageKey msgId) ?f m = (Val True, m1)" "redis_up m1"
    using does_hset_each [OF doc _ up, of "MessageKey msgId" ?f] assms(3-5) by (auto simp: does_def message_fields_def)
  obtain b m2 where m2: "expire redis (MessageKey msgId) (7 * 24 * 3600) m1 = (Val b, m2)" "redis_up m2"
    using does_expire [OF doc m1(2), of "MessageKey msgId" "7 * 24 * 3600"] assms(4) by (auto simp: does_def)
  have "asks_argument (c_str ?c)"
    using assms(4,6) asks_argument_append [of msgId "''ZADD '' @ UserMessagesKey fromUid @ '' '' @ to_string time2 @ '' ''"]
    by (simp add: c_str_id no_percent_append)
  then have "fst (redis_execute redis ?c m2) = Crash"
    using m2(2) by (simp add: redis_execute_def redis_up_def)
  then show ?thesis
    using m1(1) m2(1) by (cases "redis_execute redis ?c m2")
      (auto simp: CacheNewMessage_def Let_def message_fields_def bnd_def catching_def)
qed



text \<open>
  C31. Unread messages at login: with one entry per peer in the relation hash, \<open>GetUnreadMessages\<close>
  returns the messages of exactly the peers whose count is positive, peer by peer in the order of
  the hash, each peer's messages in the order of its unread list, and changes nothing.
\<close>

theorem GetUnreadMessages_result:
  assumes "redis_documented redis view" and "redis_up m" and "view (redis_server m) = ks"
    and "is_hash ks (ChatRelationKey uid)"
    and "map fst (hash_of ks (ChatRelationKey uid)) = map (to_string \<circ> fst) peers"
    and "list_all (peer_ok ks uid) peers"
  shows "\<exists>m'. GetUnreadMessages redis uid m =
      (Val (concat (map (\<lambda>(p, n, msgs). if n > 0 then msgs else []) peers)), m') \<and> view (redis_server m') = ks"
  using does_GetUnreadMessages [OF assms] unfolding does_def by blast

theorem GetUnreadMessages_result_witness:
  "\<exists>m'. GetUnreadMessages ref_redis 2
     \<lparr>redis_pool = \<lparr>connections = [0], is_stop = False\<rparr>,
      redis_server = [ChatRelationKey 2 \<mapsto> VHash [(to_string 5, ''1''), (to_string 3, ''0'')],
        UnreadKey 2 5 \<mapsto> VList [''id1''], MessageKey ''id1'' \<mapsto> VHash (message_fields 5 2 7 ''hi'' 1)]\<rparr> =
     (Val [\<lparr>cm_msg_id = ''id1'', cm_from_uid = 5, cm_to_uid = 2, cm_content = ''hi'', cm_msg_type = 1,
            cm_send_time = 7, cm_status = 0\<rparr>], m')"
  using GetUnreadMessages_result [OF ref_redis_documented, of
     "\<lparr>redis_pool = \<lparr>connections = [0], is_stop = False\<rparr>,
      redis_server = [ChatRelationKey 2 \<mapsto> VHash [(to_string 5, ''1''), (to_string 3, ''0'')],
        UnreadKey 2 5 \<mapsto> VList [''id1''], MessageKey ''id1'' \<mapsto> VHash (message_fields 5 2 7 ''hi'' 1)]\<rparr>"
     "[ChatRelationKey 2 \<mapsto> VHash [(to_string 5, ''1''), (to_string 3, ''0'')],
        UnreadKey 2 5 \<mapsto> VList [''id1''], MessageKey ''id1'' \<mapsto> VHash (message_fields 5 2 7 ''hi'' 1)]" 2
     "[(5, 1, [\<lparr>cm_msg_id = ''id1'', cm_from_uid = 5, cm_to_uid = 2, cm_content = ''hi'', cm_msg_type = 1,
            cm_send_time = 7, cm_status = 0\<rparr>]), (3, 0, [])]"]
  by (auto simp: redis_up_def is_hash_def hash_of_def peer_ok_def is_list_def list_of_def stored_def
      message_fields_def message_in_range_def INT_MIN_def INT_MAX_def to_string_inj)

text \<open>
  Marking as read: \<open>MarkMessagesAsRead\<close> deletes the unread list of the peer and sets its count
  to 0, so that a following \<open>GetUnreadMessages\<close> has nothing from that peer; counts of other peers stay.
\<close>

theorem MarkMessagesAsRead_effect:
  assumes "redis_documented redis view" and "redis_up m" and "view (redis_server m) = ks"
    and "is_hash ks (ChatRelationKey uid)"
  shows "\<exists>m'. cache_MarkMessagesAsRead redis uid peerId m = (Val True, m') \<and> redis_up m' \<and>
    view (redis_server m') (UnreadKey uid peerId) = None \<and> count_text (view (redis_server m')) uid peerId = ''0'' \<and>
    (\<forall>u p. (u, p) \<noteq> (uid, peerId) \<longrightarrow> view (redis_server m') (UnreadKey u p) = ks (UnreadKey u p) \<and>
       count_text (view (redis_server m')) u p = count_text ks u p)"
proof -
  let ?ks = "ks(UnreadKey uid peerId := None,
        ChatRelationKey uid \<mapsto> VHash (AList.update (to_string peerId) ''0'' (hash_of ks (ChatRelationKey uid))))"
  obtain m' where m': "cache_MarkMessagesAsRead redis uid peerId m = (Val True, m')" "redis_up m'" "view (redis_server m') = ?ks"
    using does_MarkMessagesAsRead [OF assms] unfolding does_def by blast
  have "count_text ?ks u p = count_text ks u p" if "(u, p) \<noteq> (uid, peerId)" for u p
    using that by (cases "u = uid") (auto simp: count_text_def hash_of_def update_conv to_string_inj)
  moreover have "count_text ?ks uid peerId = ''0''" by (simp add: count_text_def hash_of_def update_conv)
  moreover have "?ks (UnreadKey u p) = ks (UnreadKey u p)" if "(u, p) \<noteq> (uid, peerId)" for u p using that by auto
  ultimately show ?thesis using m' by simp
qed

theorem MarkMessagesAsRead_effect_witness:
  "\<exists>m'. cache_MarkMessagesAsRead ref_redis 2 1
     \<lparr>redis_pool = \<lparr>connections = [0], is_stop = False\<rparr>,
      redis_server = [ChatRelationKey 2 \<mapsto> VHash [(to_string 1, ''5'')], UnreadKey 2 1 \<mapsto> VList [''a'']]\<rparr> = (Val True, m') \<and>
     redis_server m' (UnreadKey 2 1) = None \<and> count_text (redis_server m') 2 1 = ''0''"
  using MarkMessagesAsRead_effect [OF ref_redis_documented, of
     "\<lparr>redis_pool = \<lparr>connections = [0], is_stop = False\<rparr>,
      redis_server = [ChatRelationKey 2 \<mapsto> VHash [(to_string 1, ''5'')], UnreadKey 2 1 \<mapsto> VList [''a'']]\<rparr>"
     "[ChatRelationKey 2 \<mapsto> VHash [(to_string 1, ''5'')], UnreadKey 2 1 \<mapsto> VList [''a'']]" 2 1]
  by (auto simp: redis_up_def is_hash_def)

text \<open>
  One expired message hides all older ones: when the sorted set still names a message whose
  hash is gone, \<open>GetRecentMessages\<close> returns only the messages before it, because \<open>hget\<close> reports
  success for the missing field and \<open>std::stoi\<close> throws on the empty string.
\<close>

theorem GetRecentMessages_stops_at_expired:
  assumes "redis_documented redis view" and "redis_up m" and "view (redis_server m) = ks"
    and "\<And>c r. view r = ks \<Longrightarrow> \<exists>r'. redis c (RedisCommand ''ZREVRANGE %s %d %d''
           [UserMessagesKey uid, to_string 0, to_string (limit - 1)]) r =
           (Some (RArray (map RString (map cm_msg_id msgs @ expired # older))), r') \<and> view r' = ks"
    and "list_all no_nul (map cm_msg_id msgs @ expired # older)"
    and "list_all (stored ks) msgs" and "ks (MessageKey expired) = None"
  shows "fst (GetRecentMessages redis uid limit m) = Val msgs"
proof -
  let ?ids = "map cm_msg_id msgs @ expired # older"
  have strs: "concat (map (\<lambda>r. case r of RString s \<Rightarrow> [c_str s] | _ \<Rightarrow> []) (map RString ids)) = ids"
    if "list_all no_nul ids" for ids using that by (induction ids) simp_all
  obtain c cs where c: "connections (redis_pool m) = c # cs" "\<not> is_stop (redis_pool m)"
    using assms(2) by (cases "connections (redis_pool m)") (auto simp: redis_up_def)
  obtain r' where r': "redis c (RedisCommand ''ZREVRANGE %s %d %d''
           [UserMessagesKey uid, to_string 0, to_string (limit - 1)]) (redis_server m) = (Some (RArray (map RString ?ids)), r')"
      "view r' = ks"
    using assms(4) [OF assms(3)] by blast
  have "zrevrange redis (UserMessagesKey uid) 0 (limit - 1) m = (Val ?ids, rotated m r')"
    using c r'(1) strs [OF assms(5)]
    by (simp add: zrevrange_def with_connection_late_def pool_defs rotated_def del: map_append)
  moreover obtain m2 where "push_messages redis ?ids (rotated m r', []) = (Exn InvalidArgument, (m2, msgs))"
    using push_messages_expired [OF assms(1,6,7), of "rotated m r'" older "[]"] assms(2) r'(2) by auto
  ultimately show ?thesis
    by (simp add: GetRecentMessages_def collect_def catching_def bnd_def outer_def zoom_def ret_def)
qed

theorem GetRecentMessages_stops_at_expired_witness:
  "fst (GetRecentMessages
     (\<lambda>c call ks. if call = RedisCommand ''ZREVRANGE %s %d %d'' [UserMessagesKey 2, ''0'', to_string 49]
        then (Some (RArray [RString ''gone'', RString ''old'']), ks) else ref_redis c call ks)
     2 50 \<lparr>redis_pool = \<lparr>connections = [0], is_stop = False\<rparr>, redis_server = Map.empty\<rparr>) = Val []"
  by (rule GetRecentMessages_stops_at_expired [where view = "\<lambda>ks. ks" and ks = Map.empty and msgs = "[]"
        and expired = "''gone''" and older = "[''old'']"])
    (auto simp: redis_documented_def ref_redis_def redis_doc_def redis_up_def no_nul_def)

end
