(* ===== verification/ChatDao.thy ===== *)
theory ChatDao
  imports ConnPool ChatData Tools
begin

text \<open>
  \<open>MySQLDao\<close> of the chat server (\<open>ChatServer/MySQLDao.cpp\<close>). The MySQL connector and the database
  behind it are a parameter \<open>D\<close>: statements go to it as their SQL text with the bound values, on
  a connection handle; it answers with success, affected rows or a result set, or throws
  \<open>sql::SQLException\<close>. The model keeps the statement texts, their order on the connection, the
  exceptions and what happens to the connection.
\<close>

section \<open>The connector\<close>

datatype sql_param = PInt int | PInt64 int | PString string

text \<open>A row: \<open>getString\<close> and \<open>getInt\<close> by column label (or index), \<open>None\<close> throws.\<close>

record sql_row =
  getString :: "string \<Rightarrow> string option"
  getInt :: "string \<Rightarrow> int option"

datatype txn_call = SetTransactionIsolation string | SetAutoCommit bool | Commit | Rollback

record 'm mysql_driver =
  drv_statement :: "nat \<Rightarrow> string \<Rightarrow> 'm \<Rightarrow> bool \<times> 'm"
  drv_execute :: "nat \<Rightarrow> string \<Rightarrow> sql_param list \<Rightarrow> 'm \<Rightarrow> bool \<times> 'm"
  drv_update :: "nat \<Rightarrow> string \<Rightarrow> sql_param list \<Rightarrow> 'm \<Rightarrow> int option \<times> 'm"
  drv_query :: "nat \<Rightarrow> string \<Rightarrow> sql_param list \<Rightarrow> 'm \<Rightarrow> sql_row list option \<times> 'm"
  drv_txn :: "nat \<Rightarrow> txn_call \<Rightarrow> 'm \<Rightarrow> bool \<times> 'm"

record 'm MySQLDao =
  mysql_pool :: "nat SqlConnection conn_pool"
  mysql_server :: 'm

text \<open>A call of the connector inside a \<open>prog\<close>; a failure throws.\<close>

definition lift_ok :: "('m \<Rightarrow> bool \<times> 'm) \<Rightarrow> ('m MySQLDao, unit) prog" where
  "lift_ok f m = (case f (mysql_server m) of (ok, t) \<Rightarrow>
     (if ok then Val () else Exn SQLException, m\<lparr>mysql_server := t\<rparr>))"

definition lift_some :: "('m \<Rightarrow> 'a option \<times> 'm) \<Rightarrow> ('m MySQLDao, 'a) prog" where
  "lift_some f m = (case f (mysql_server m) of (x, t) \<Rightarrow>
     (case x of Some y \<Rightarrow> Val y | None \<Rightarrow> Exn SQLException, m\<lparr>mysql_server := t\<rparr>))"

definition statement :: "'m mysql_driver \<Rightarrow> nat \<Rightarrow> string \<Rightarrow> ('m MySQLDao, unit) prog" where
  "statement D c stm = lift_ok (drv_statement D c stm)"

definition execute :: "'m mysql_driver \<Rightarrow> nat \<Rightarrow> string \<Rightarrow> sql_param list \<Rightarrow> ('m MySQLDao, unit) prog" where
  "execute D c stm ps = lift_ok (drv_execute D c stm ps)"

definition executeUpdate :: "'m mysql_driver \<Rightarrow> nat \<Rightarrow> string \<Rightarrow> sql_param list \<Rightarrow> ('m MySQLDao, int) prog" where
  "executeUpdate D c stm ps = lift_some (drv_update D c stm ps)"

definition executeQuery :: "'m mysql_driver \<Rightarrow> nat \<Rightarrow> string \<Rightarrow> sql_param list \<Rightarrow> ('m MySQLDao, sql_row list) prog" where
  "executeQuery D c stm ps = lift_some (drv_query D c stm ps)"

definition txn :: "'m mysql_driver \<Rightarrow> nat \<Rightarrow> txn_call \<Rightarrow> ('m MySQLDao, unit) prog" where
  "txn D c call = lift_ok (drv_txn D c call)"

definition col_string :: "sql_row \<Rightarrow> string \<Rightarrow> ('s, string) prog" where
  "col_string row label = from_option SQLException (getString row label)"

definition col_int :: "sql_row \<Rightarrow> string \<Rightarrow> ('s, int) prog" where
  "col_int row label = from_option SQLException (getInt row label)"

section \<open>Connections of one call\<close>

definition dao_getConnection :: "('m MySQLDao, nat SqlConnection option) prog" where
  "dao_getConnection = zoom mysql_pool (\<lambda>p m. m\<lparr>mysql_pool := p\<rparr>) mysql_getConnection"

definition dao_returnConnection :: "nat SqlConnection \<Rightarrow> 'm MySQLDao \<Rightarrow> 'm MySQLDao" where
  "dao_returnConnection conn m = m\<lparr>mysql_pool := mysql_returnConnection conn (mysql_pool m)\<rparr>"

text \<open>
  \<open>auto conn = _pool->getConnection(); if (conn == nullptr) return dflt;\<close> and a \<open>Defer\<close> that
  gives the connection back when the body is left.
\<close>

definition with_conn :: "'a \<Rightarrow> (nat \<Rightarrow> ('m MySQLDao, 'a) prog) \<Rightarrow> ('m MySQLDao, 'a) prog" where
  "with_conn dflt body =
     bnd dao_getConnection (\<lambda>conn.
       case conn of
         None \<Rightarrow> ret dflt
       | Some c \<Rightarrow> finally_do (body (sql_connection c)) (dao_returnConnection c))"

text \<open>The same with an out parameter, a list that the body appends to.\<close>

definition with_conn_acc ::
    "'a \<Rightarrow> (nat \<Rightarrow> ('m MySQLDao \<times> 'v, 'a) prog) \<Rightarrow> ('m MySQLDao \<times> 'v, 'a) prog" where
  "with_conn_acc dflt body =
     bnd (outer dao_getConnection) (\<lambda>conn.
       case conn of
         None \<Rightarrow> ret dflt
       | Some c \<Rightarrow> finally_do (body (sql_connection c)) (\<lambda>(m, v). (dao_returnConnection c m, v)))"

text \<open>\<open>try { ... } catch (sql::SQLException\& e) { ...; return failed; }\<close> around it.\<close>

definition or_fail :: "'a \<Rightarrow> ('s, 'a) prog \<Rightarrow> ('s, 'a) prog" where
  "or_fail failed p = catching_only SQLException p (ret failed)"

section \<open>The operations\<close>

text \<open>
  \<open>init\<close>: \<open>att\<close> are the connection attempts of the new pool, \<open>file\<close> the content of
  \<open>chat_messages.sql\<close>; \<open>None\<close> is the \<open>std::runtime_error\<close> of \<open>ReadFile\<close>.
\<close>

definition dao_init ::
    "'m mysql_driver \<Rightarrow> (nat \<Rightarrow> (nat \<times> int) option) \<Rightarrow> string option \<Rightarrow> ('m MySQLDao, bool) prog" where
  "dao_init D att file =
     bnd (upd (\<lambda>m. m\<lparr>mysql_pool := MySQLConnectPool 5 att\<rparr>)) (\<lambda>_.
     case file of
       None \<Rightarrow> raise (RuntimeError ''Failed to open SQL file: chat_messages.sql'')
     | Some sql_content \<Rightarrow>
         if sql_content = [] then ret False
         else or_fail False
           (bnd dao_getConnection (\<lambda>conn.
              case conn of
                None \<Rightarrow> crash
              | Some c \<Rightarrow>
                  finally_do
                    (bnd (forM (statement D (sql_connection c)) (splitSQLScript sql_content)) (\<lambda>_. ret True))
                    (dao_returnConnection c))))"

text \<open>The columns of a user row, in the order they are read.\<close>

definition user_of_row :: "sql_row \<Rightarrow> ('s, int) prog \<Rightarrow> ('s, UserInfo) prog" where
  "user_of_row row get_uid =
     bnd (col_string row ''password'') (\<lambda>pwd.
     bnd (col_string row ''email'') (\<lambda>email.
     bnd (col_string row ''username'') (\<lambda>name.
     bnd (col_string row ''nick'') (\<lambda>nick.
     bnd (col_string row ''desc'') (\<lambda>desc.
     bnd (col_int row ''sex'') (\<lambda>sex.
     bnd (col_string row ''icon'') (\<lambda>icon.
     bnd get_uid (\<lambda>uid.
     ret \<lparr>u_name = name, u_pwd = pwd, u_uid = uid, u_email = email, u_nick = nick, u_desc = desc, u_sex = sex,
          u_icon = icon, u_back = []\<rparr>))))))))"

definition GetUser_uid :: "'m mysql_driver \<Rightarrow> int \<Rightarrow> ('m MySQLDao, UserInfo option) prog" where
  "GetUser_uid D uid =
     or_fail None (with_conn None (\<lambda>c.
       bnd (executeQuery D c ''SELECT * FROM user WHERE uid = ?'' [PInt uid]) (\<lambda>rows.
       case rows of
         [] \<Rightarrow> ret None
       | row # _ \<Rightarrow> bnd (user_of_row row (ret uid)) (\<lambda>u. ret (Some u)))))"

definition GetUser_name :: "'m mysql_driver \<Rightarrow> string \<Rightarrow> ('m MySQLDao, UserInfo option) prog" where
  "GetUser_name D name =
     or_fail None (with_conn None (\<lambda>c.
       bnd (executeQuery D c ''SELECT * FROM user WHERE username = ?'' [PString name]) (\<lambda>rows.
       case rows of
         [] \<Rightarrow> ret None
       | row # _ \<Rightarrow> bnd (user_of_row row (col_int row ''uid'')) (\<lambda>u. ret (Some u)))))"

definition dao_AddFriendApply :: "'m mysql_driver \<Rightarrow> int \<Rightarrow> int \<Rightarrow> ('m MySQLDao, bool) prog" where
  "dao_AddFriendApply D from_uid to_uid =
     or_fail False (with_conn False (\<lambda>c.
       bnd (executeQuery D c ''SELECT COUNT(*) FROM friend_apply WHERE from_uid = ? AND to_uid = ?''
              [PInt from_uid, PInt to_uid]) (\<lambda>rows.
       bnd (case rows of [] \<Rightarrow> ret False | row # _ \<Rightarrow> bnd (col_int row ''1'') (\<lambda>n. ret (n > 0))) (\<lambda>exists.
       if exists then ret True
       else
         bnd (executeUpdate D c ''INSERT INTO friend_apply (from_uid, to_uid) VALUES (?, ?)''
                [PInt from_uid, PInt to_uid]) (\<lambda>rowAffected.
         ret (\<not> rowAffected < 0))))))"

definition dao_AuthFriendApply :: "'m mysql_driver \<Rightarrow> int \<Rightarrow> int \<Rightarrow> ('m MySQLDao, bool) prog" where
  "dao_AuthFriendApply D from_uid to_uid =
     or_fail False (with_conn False (\<lambda>c.
       bnd (executeUpdate D c ''UPDATE friend_apply SET status = 1 WHERE from_uid = ? AND to_uid = ?''
              [PInt to_uid, PInt from_uid]) (\<lambda>rowAffected.
       ret (\<not> rowAffected < 0))))"

definition insert_friend_sql :: string where
  "insert_friend_sql = ''INSERT IGNORE INTO friend(self_id, friend_id, back) VALUES (?, ?, ?)''"

text \<open>
  \<open>AddFriend\<close> runs its two inserts in a transaction. The \<open>Defer\<close> object is outside the \<open>try\<close>
  block, and the handler's \<open>rollback()\<close> may throw in turn.
\<close>

definition dao_AddFriend :: "'m mysql_driver \<Rightarrow> int \<Rightarrow> int \<Rightarrow> string \<Rightarrow> ('m MySQLDao, bool) prog" where
  "dao_AddFriend D from_uid to_uid back_name =
     with_conn False (\<lambda>c.
       catching_only SQLException
         (bnd (txn D c (SetTransactionIsolation ''TRANSACTION_READ_COMMITTED'')) (\<lambda>_.
          bnd (statement D c ''SET innodb_lock_wait_timeout = 50'') (\<lambda>_.
          bnd (txn D c (SetAutoCommit False)) (\<lambda>_.
          bnd (executeUpdate D c insert_friend_sql [PInt from_uid, PInt to_uid, PString back_name]) (\<lambda>rowAffected.
          if rowAffected < 0 then bnd (txn D c Rollback) (\<lambda>_. ret False)
          else
            bnd (executeUpdate D c insert_friend_sql [PInt to_uid, PInt from_uid, PString back_name]) (\<lambda>rowAffected2.
            if rowAffected2 < 0 then bnd (txn D c Rollback) (\<lambda>_. ret False)
            else bnd (txn D c Commit) (\<lambda>_. ret True)))))))
         (bnd (txn D c Rollback) (\<lambda>_. ret False)))"

definition apply_list_sql :: string where
  "apply_list_sql = ''select apply.from_uid, apply.status, user.username, '' @
     ''user.nick, user.sex from friend_apply as apply join user on apply.from_uid = user.uid where apply.to_uid = ? '' @
     ''and apply.id > ? order by apply.id ASC LIMIT ? ''"

definition dao_GetApplyList ::
    "'m mysql_driver \<Rightarrow> int \<Rightarrow> int \<Rightarrow> int \<Rightarrow> ('m MySQLDao \<times> ApplyInfo list, bool) prog" where
  "dao_GetApplyList D self_id offset limit =
     or_fail False (with_conn_acc False (\<lambda>c.
       bnd (outer (executeQuery D c apply_list_sql [PInt self_id, PInt offset, PInt limit])) (\<lambda>rows.
       bnd (forM (\<lambda>row.
              bnd (col_string row ''username'') (\<lambda>name.
              bnd (col_int row ''from_uid'') (\<lambda>uid.
              bnd (col_int row ''status'') (\<lambda>status.
              bnd (col_string row ''nick'') (\<lambda>nick.
              bnd (col_int row ''sex'') (\<lambda>sex.
              local_upd (\<lambda>applyList. applyList @
                [\<lparr>a_uid = uid, a_name = name, a_desc = [], a_icon = [], a_nick = nick, a_sex = sex, a_status = status\<rparr>])))))))
            rows) (\<lambda>_.
       ret True))))"

text \<open>
  \<open>GetFriendList\<close> calls \<open>GetUser\<close> for each row, which takes a second connection, and replaces the
  \<open>back\<close> it has read by the user's name.
\<close>

definition friend_of_row :: "'m mysql_driver \<Rightarrow> sql_row \<Rightarrow> ('m MySQLDao \<times> UserInfo list, unit) prog" where
  "friend_of_row D row =
     bnd (col_int row ''friend_id'') (\<lambda>friend_id.
     bnd (col_string row ''back'') (\<lambda>back.
     bnd (outer (GetUser_uid D friend_id)) (\<lambda>user_info.
     case user_info of
       None \<Rightarrow> ret ()
     | Some u \<Rightarrow> local_upd (\<lambda>user_info_list. user_info_list @ [u\<lparr>u_back := u_name u\<rparr>]))))"

definition dao_GetFriendList :: "'m mysql_driver \<Rightarrow> int \<Rightarrow> ('m MySQLDao \<times> UserInfo list, bool) prog" where
  "dao_GetFriendList D self_id =
     or_fail False (with_conn_acc False (\<lambda>c.
       bnd (outer (executeQuery D c ''select * from friend where self_id = ? '' [PInt self_id])) (\<lambda>rows.
       bnd (forM (friend_of_row D) rows) (\<lambda>_. ret True))))"

definition dao_MarkMessagesAsRead :: "'m mysql_driver \<Rightarrow> int \<Rightarrow> int \<Rightarrow> ('m MySQLDao, bool) prog" where
  "dao_MarkMessagesAsRead D uid peer_id =
     or_fail False (with_conn False (\<lambda>c.
       bnd (execute D c (''UPDATE chat_messages SET status = 1 '' @ ''WHERE to_uid = ? AND from_uid = ? AND status = 0'')
              [PInt uid, PInt peer_id]) (\<lambda>_.
       bnd (execute D c (''UPDATE chat_message_relation SET unread_count = 0 '' @ ''WHERE user_id = ? AND peer_id = ?'')
              [PInt uid, PInt peer_id]) (\<lambda>_.
       ret True))))"

definition upsert_relation_sql :: string where
  "upsert_relation_sql = ''INSERT INTO chat_message_relation(user_id, peer_id, last_msg_id, unread_count) '' @
     ''VALUES(?, ?, ?, 1) '' @ ''ON DUPLICATE KEY UPDATE last_msg_id = ?, unread_count = unread_count + 1''"

definition dao_SaveChatMessage ::
    "'m mysql_driver \<Rightarrow> int \<Rightarrow> int \<Rightarrow> string \<Rightarrow> string \<Rightarrow> int \<Rightarrow> ('m MySQLDao, bool) prog" where
  "dao_SaveChatMessage D from_uid to_uid msg_id content msg_type =
     or_fail False (with_conn False (\<lambda>c.
       bnd (execute D c (''INSERT INTO chat_messages(msg_id, from_uid, to_uid, content, msg_type) '' @ ''VALUES(?, ?, ?, ?, ?)'')
              [PString msg_id, PInt from_uid, PInt to_uid, PString content, PInt msg_type]) (\<lambda>_.
       bnd (execute D c upsert_relation_sql [PInt to_uid, PInt from_uid, PString msg_id, PString msg_id]) (\<lambda>_.
       ret True))))"

definition dao_SaveChatMessage_msg :: "'m mysql_driver \<Rightarrow> ChatMessage \<Rightarrow> ('m MySQLDao, bool) prog" where
  "dao_SaveChatMessage_msg D msg =
     or_fail False (with_conn False (\<lambda>c.
       bnd (execute D c (''INSERT INTO chat_messages(msg_id, from_uid, to_uid, content, msg_type, send_time) '' @
              ''VALUES(?, ?, ?, ?, ?, TIMESTAMP(FROM_UNIXTIME(?)))'')
              [PString (cm_msg_id msg), PInt (cm_from_uid msg), PInt (cm_to_uid msg), PString (cm_content msg),
               PInt (cm_msg_type msg), PInt64 (cm_send_time msg)]) (\<lambda>_.
       bnd (execute D c upsert_relation_sql
              [PInt (cm_to_uid msg), PInt (cm_from_uid msg), PString (cm_msg_id msg), PString (cm_msg_id msg)]) (\<lambda>_.
       ret True))))"

text \<open>\<open>stringToTimestamp\<close> depends on the time zone of the host and is a parameter.\<close>

definition recent_sql :: "int \<Rightarrow> string" where
  "recent_sql before_id =
     ''SELECT * FROM chat_messages WHERE '' @ ''(from_uid = ? OR to_uid = ?) '' @ ''AND status != 2 '' @
     (if before_id > 0 then ''AND id < ? '' else []) @ ''ORDER BY send_time DESC LIMIT ?''"

definition message_of_row :: "(string \<Rightarrow> int) \<Rightarrow> sql_row \<Rightarrow> ('s, ChatMessage) prog" where
  "message_of_row stringToTimestamp row =
     bnd (col_string row ''msg_id'') (\<lambda>msg_id.
     bnd (col_int row ''from_uid'') (\<lambda>from_uid.
     bnd (col_int row ''to_uid'') (\<lambda>to_uid.
     bnd (col_string row ''content'') (\<lambda>content.
     bnd (col_int row ''msg_type'') (\<lambda>msg_type.
     bnd (col_string row ''send_time'') (\<lambda>time_str.
     bnd (col_int row ''status'') (\<lambda>status.
     ret \<lparr>cm_msg_id = msg_id, cm_from_uid = from_uid, cm_to_uid = to_uid, cm_content = content,
          cm_msg_type = msg_type, cm_send_time = stringToTimestamp time_str, cm_status = status\<rparr>)))))))"

definition dao_GetRecentMessages ::
    "'m mysql_driver \<Rightarrow> (string \<Rightarrow> int) \<Rightarrow> int \<Rightarrow> int \<Rightarrow> int \<Rightarrow> ('m MySQLDao, ChatMessage list) prog" where
  "dao_GetRecentMessages D stringToTimestamp uid limit before_id =
     collect [] (or_fail () (with_conn_acc () (\<lambda>c.
       bnd (outer (executeQuery D c (recent_sql before_id)
              ([PInt uid, PInt uid] @ (if before_id > 0 then [PInt64 before_id] else []) @ [PInt limit]))) (\<lambda>rows.
       forM (\<lambda>row. bnd (message_of_row stringToTimestamp row) (\<lambda>msg. local_upd (\<lambda>messages. messages @ [msg]))) rows))))"

definition dao_UpdateLastMessage :: "'m mysql_driver \<Rightarrow> int \<Rightarrow> int \<Rightarrow> string \<Rightarrow> ('m MySQLDao, bool) prog" where
  "dao_UpdateLastMessage D uid peerId msgId =
     or_fail False (with_conn False (\<lambda>c.
       bnd (executeUpdate D c (''INSERT INTO chat_message_relation '' @ ''(user_id, peer_id, last_msg_id) VALUES (?, ?, ?) '' @
              ''ON DUPLICATE KEY UPDATE last_msg_id = ?, '' @ ''last_update_time = CURRENT_TIMESTAMP'')
              [PInt uid, PInt peerId, PString msgId, PString msgId]) (\<lambda>n.
       ret (n \<ge> 0))))"

lemmas [dao_defs] = GetUser_uid_def GetUser_name_def dao_AddFriendApply_def dao_AuthFriendApply_def
  dao_AddFriend_def dao_MarkMessagesAsRead_def dao_SaveChatMessage_def dao_SaveChatMessage_msg_def
  dao_UpdateLastMessage_def

section \<open>Connections come back\<close>

text \<open>A predicate that holds again when a call returns or throws.\<close>

definition keeps_done :: "('s \<Rightarrow> bool) \<Rightarrow> ('s, 'a) prog \<Rightarrow> bool" where
  "keeps_done I p \<longleftrightarrow> (\<forall>s r t. I s \<longrightarrow> p s = (r, t) \<longrightarrow> r \<noteq> Waits \<longrightarrow> r \<noteq> Crash \<longrightarrow> I t)"

definition dao_pool_is :: "nat SqlConnection multiset \<Rightarrow> bool \<Rightarrow> 'm MySQLDao \<Rightarrow> bool" where
  "dao_pool_is C b m \<longleftrightarrow> mset (connections (mysql_pool m)) = C \<and> is_stop (mysql_pool m) = b"

lemma kd_basic [intro, simp]: "keeps_done I (ret x)" "keeps_done I (raise e)" "keeps_done I crash"
  by (simp_all add: keeps_done_def ret_def raise_def crash_def)

lemma kd_bnd:
  assumes "keeps_done I p" and "\<And>x. keeps_done I (f x)"
  shows "keeps_done I (bnd p f)"
  unfolding keeps_done_def
proof (intro allI impI)
  fix s r t
  assume s: "I s" "bnd p f s = (r, t)" "r \<noteq> Waits" "r \<noteq> Crash"
  obtain x u where x: "p s = (x, u)" by fastforce
  show "I t"
  proof (cases x)
    case (Val y)
    then have "I u" "f y u = (r, t)" using assms(1) s x unfolding keeps_done_def by (auto simp: bnd_def)
    then show ?thesis using assms(2) s(3,4) unfolding keeps_done_def by blast
  next
    case (Exn e)
    then show ?thesis using assms(1) s x unfolding keeps_done_def by (auto simp: bnd_def)
  qed (use s x in \<open>auto simp: bnd_def\<close>)
qed

lemma kd_catching_only:
  assumes "keeps_done I p" and "keeps_done I h"
  shows "keeps_done I (catching_only e p h)"
  unfolding keeps_done_def
proof (intro allI impI)
  fix s r t
  assume s: "I s" "catching_only e p h s = (r, t)" "r \<noteq> Waits" "r \<noteq> Crash"
  obtain x u where x: "p s = (x, u)" by fastforce
  show "I t"
  proof (cases "x = Exn e")
    case True
    then have "I u" "h u = (r, t)" using assms(1) s x unfolding keeps_done_def by (auto simp: catching_only_def)
    then show ?thesis using assms(2) s(3,4) unfolding keeps_done_def by blast
  next
    case False
    then show ?thesis using assms(1) s x unfolding keeps_done_def by (auto simp: catching_only_def)
  qed
qed

lemma kd_or_fail [intro]: "keeps_done I p \<Longrightarrow> keeps_done I (or_fail x p)"
  unfolding or_fail_def by (intro kd_catching_only kd_basic)

lemma kd_from_option [intro, simp]: "keeps_done I (from_option e x)"
  by (cases x) (simp_all add: from_option_def)

lemma kd_lift [intro, simp]: "keeps_done (dao_pool_is C b) (lift_ok f)" "keeps_done (dao_pool_is C b) (lift_some g)"
  by (auto simp: keeps_done_def lift_ok_def lift_some_def dao_pool_is_def split: prod.splits)

lemmas call_defs = statement_def execute_def executeUpdate_def executeQuery_def txn_def

lemma kd_calls [intro, simp]:
  "keeps_done (dao_pool_is C b) (statement D c s)" "keeps_done (dao_pool_is C b) (execute D c s ps)"
  "keeps_done (dao_pool_is C b) (executeUpdate D c s ps)" "keeps_done (dao_pool_is C b) (executeQuery D c s ps)"
  "keeps_done (dao_pool_is C b) (txn D c t)"
  by (simp_all add: call_defs)

lemma kd_cols [intro, simp]: "keeps_done I (col_string row l)" "keeps_done I (col_int row l)"
  by (simp_all add: col_string_def col_int_def)

lemma kd_forM [intro]: "(\<And>x. keeps_done I (f x)) \<Longrightarrow> keeps_done I (forM f xs)"
  by (induction xs) (auto intro: kd_bnd)

lemma kd_user_of_row [intro]: "keeps_done I g \<Longrightarrow> keeps_done I (user_of_row row g)"
  unfolding user_of_row_def by (intro kd_bnd kd_cols kd_basic)

lemma kd_outer [intro]: "keeps_done I p \<Longrightarrow> keeps_done (I \<circ> fst) (outer p)"
  unfolding keeps_done_def outer_def zoom_def by (auto split: prod.splits)

lemma kd_local_upd [intro, simp]: "keeps_done (I \<circ> fst) (local_upd f)"
  by (auto simp: keeps_done_def local_upd_def upd_def)

text \<open>Taking a connection, running the body without it, and giving it back.\<close>

lemma getConnection_cases:
  assumes "dao_pool_is C b m" and "dao_getConnection m = (r, t)"
  shows "(r = Waits \<or> r = Val None) \<and> t = m \<or>
    (\<exists>c. r = Val (Some c) \<and> \<not> b \<and> c \<in># C \<and> dao_pool_is (C - {#c#}) b t)"
  using assms
  by (auto simp: dao_pool_is_def dao_getConnection_def zoom_def pool_defs split: if_splits list.splits)

lemma returned:
  "\<not> b \<Longrightarrow> c \<in># C \<Longrightarrow> dao_pool_is (C - {#c#}) b t \<Longrightarrow> dao_pool_is C b (dao_returnConnection c t)"
  by (auto simp: dao_pool_is_def dao_returnConnection_def pool_defs)

lemma kd_with_conn [intro]:
  assumes "\<And>c C. keeps_done (dao_pool_is C b) (body c)"
  shows "keeps_done (dao_pool_is C b) (with_conn d body)"
  unfolding keeps_done_def
proof (intro allI impI)
  fix m r t
  assume m: "dao_pool_is C b m" and run: "with_conn d body m = (r, t)" and r: "r \<noteq> Waits" "r \<noteq> Crash"
  obtain g m1 where g: "dao_getConnection m = (g, m1)" by fastforce
  from getConnection_cases [OF m g] show "dao_pool_is C b t"
  proof (elim disjE exE conjE)
    fix c assume c: "g = Val (Some c)" "\<not> b" "c \<in># C" "dao_pool_is (C - {#c#}) b m1"
    obtain x u where x: "body (sql_connection c) m1 = (x, u)" by fastforce
    have "dao_pool_is (C - {#c#}) b u" if "x \<noteq> Waits" "x \<noteq> Crash"
      using assms [of "C - {#c#}" "sql_connection c"] c(4) x that unfolding keeps_done_def by blast
    then show ?thesis
      using run r g c x returned [OF c(2,3), of u]
      by (auto simp: with_conn_def bnd_def finally_do_def split: result.splits)
  qed (use run r g m in \<open>auto simp: with_conn_def bnd_def ret_def\<close>)
qed

lemma kd_with_conn_acc [intro]:
  assumes "\<And>c C. keeps_done (dao_pool_is C b \<circ> fst) (body c)"
  shows "keeps_done (dao_pool_is C b \<circ> fst) (with_conn_acc d body)"
  unfolding keeps_done_def
proof (intro allI impI)
  fix mv r tv
  assume m: "(dao_pool_is C b \<circ> fst) mv" and run: "with_conn_acc d body mv = (r, tv)" and r: "r \<noteq> Waits" "r \<noteq> Crash"
  obtain m v where mv: "mv = (m, v)" by fastforce
  obtain g m1 where g: "dao_getConnection m = (g, m1)" by fastforce
  have "dao_pool_is C b m" using m mv by simp
  from getConnection_cases [OF this g] show "(dao_pool_is C b \<circ> fst) tv"
  proof (elim disjE exE conjE)
    fix c assume c: "g = Val (Some c)" "\<not> b" "c \<in># C" "dao_pool_is (C - {#c#}) b m1"
    obtain x u w where x: "body (sql_connection c) (m1, v) = (x, (u, w))" by (metis prod.collapse)
    have "dao_pool_is (C - {#c#}) b u" if "x \<noteq> Waits" "x \<noteq> Crash"
      using assms [of "C - {#c#}" "sql_connection c"] c(4) x that unfolding keeps_done_def by fastforce
    then show ?thesis
      using run r g c x mv returned [OF c(2,3), of u]
      by (auto simp: with_conn_acc_def bnd_def finally_do_def outer_def zoom_def split: result.splits)
  qed (use run r g m mv in \<open>auto simp: with_conn_acc_def bnd_def ret_def outer_def zoom_def\<close>)
qed

lemma kd_cases:
  "keeps_done I a \<Longrightarrow> (\<And>x xs. keeps_done I (f x xs)) \<Longrightarrow> keeps_done I (case rows of [] \<Rightarrow> a | x # xs \<Rightarrow> f x xs)"
  "keeps_done I a \<Longrightarrow> (\<And>u. keeps_done I (g u)) \<Longrightarrow> keeps_done I (case y of None \<Rightarrow> a | Some u \<Rightarrow> g u)"
  "keeps_done I a \<Longrightarrow> keeps_done I a' \<Longrightarrow> keeps_done I (if p then a else a')"
  by (auto split: list.splits option.splits)

lemmas kd_rules = kd_cases kd_bnd kd_catching_only kd_or_fail kd_with_conn kd_with_conn_acc kd_forM
  kd_user_of_row kd_calls kd_cols kd_outer kd_local_upd kd_basic

lemma kd_GetUser_uid: "keeps_done (dao_pool_is C b) (GetUser_uid D uid)"
  unfolding GetUser_uid_def by (intro kd_rules)

lemma kd_message_of_row: "keeps_done I (message_of_row f row)"
  unfolding message_of_row_def by (intro kd_rules)

lemma kd_friend_of_row: "keeps_done (dao_pool_is C b \<circ> fst) (friend_of_row D row)"
  unfolding friend_of_row_def by (intro kd_rules kd_GetUser_uid)

lemma kd_collect: "keeps_done (I \<circ> fst) p \<Longrightarrow> keeps_done I (collect v p)"
  unfolding keeps_done_def collect_def by (fastforce split: prod.splits result.splits)

section \<open>Events on a connection\<close>

datatype sql_event =
    Stmt nat string | Exec nat string "sql_param list" | Update nat string "sql_param list"
  | Query nat string "sql_param list" | Txn nat txn_call

text \<open>The same connector, with a log of the calls it gets.\<close>

definition logged :: "'m mysql_driver \<Rightarrow> ('m \<times> sql_event list) mysql_driver" where
  "logged D = \<lparr>
     drv_statement = (\<lambda>c s (m, l). case drv_statement D c s m of (r, m') \<Rightarrow> (r, (m', l @ [Stmt c s]))),
     drv_execute = (\<lambda>c s ps (m, l). case drv_execute D c s ps m of (r, m') \<Rightarrow> (r, (m', l @ [Exec c s ps]))),
     drv_update = (\<lambda>c s ps (m, l). case drv_update D c s ps m of (r, m') \<Rightarrow> (r, (m', l @ [Update c s ps]))),
     drv_query = (\<lambda>c s ps (m, l). case drv_query D c s ps m of (r, m') \<Rightarrow> (r, (m', l @ [Query c s ps]))),
     drv_txn = (\<lambda>c t (m, l). case drv_txn D c t m of (r, m') \<Rightarrow> (r, (m', l @ [Txn c t])))\<rparr>"

lemma logged_txn:
  "txn (logged D) c t m = (case drv_txn D c t (fst (mysql_server m)) of (ok, s) \<Rightarrow>
     (if ok then Val () else Exn SQLException, m\<lparr>mysql_server := (s, snd (mysql_server m) @ [Txn c t])\<rparr>))"
  by (auto simp: txn_def lift_ok_def logged_def split: prod.splits)

lemma logged_statement:
  "statement (logged D) c t m = (case drv_statement D c t (fst (mysql_server m)) of (ok, s) \<Rightarrow>
     (if ok then Val () else Exn SQLException, m\<lparr>mysql_server := (s, snd (mysql_server m) @ [Stmt c t])\<rparr>))"
  by (auto simp: statement_def lift_ok_def logged_def split: prod.splits)

lemma logged_update:
  "executeUpdate (logged D) c t ps m = (case drv_update D c t ps (fst (mysql_server m)) of (x, s) \<Rightarrow>
     (case x of Some n \<Rightarrow> Val n | None \<Rightarrow> Exn SQLException, m\<lparr>mysql_server := (s, snd (mysql_server m) @ [Update c t ps])\<rparr>))"
  by (auto simp: executeUpdate_def lift_some_def logged_def split: prod.splits)

text \<open>A connector for concrete evaluations: every call succeeds, queries answer from a table.\<close>

definition table_driver :: "(string \<Rightarrow> sql_param list \<Rightarrow> sql_row list) \<Rightarrow> 'm mysql_driver" where
  "table_driver table = \<lparr>
     drv_statement = (\<lambda>c s m. (True, m)), drv_execute = (\<lambda>c s ps m. (True, m)),
     drv_update = (\<lambda>c s ps m. (Some 1, m)), drv_query = (\<lambda>c s ps m. (Some (table s ps), m)),
     drv_txn = (\<lambda>c t m. (True, m))\<rparr>"

section \<open>Operations return\<close>

text \<open>
  \<open>sql_safe I p\<close>: from a state with \<open>I\<close> the call returns or throws \<open>sql::SQLException\<close>, and \<open>I\<close>
  holds again; \<open>dao_ready n\<close>: the pool is open and has \<open>n\<close> idle connections.
\<close>

definition sql_safe :: "('s \<Rightarrow> bool) \<Rightarrow> ('s, 'a) prog \<Rightarrow> bool" where
  "sql_safe I p \<longleftrightarrow> (\<forall>s. I s \<longrightarrow> (\<exists>x t. (p s = (Val x, t) \<or> p s = (Exn SQLException, t)) \<and> I t))"

definition dao_ready :: "nat \<Rightarrow> 'm MySQLDao \<Rightarrow> bool" where
  "dao_ready n m \<longleftrightarrow> \<not> is_stop (mysql_pool m) \<and> n \<le> length (connections (mysql_pool m))"

lemma sql_safeE:
  assumes "sql_safe I p" and "I s"
  obtains (returns) x t where "p s = (Val x, t)" "I t" | (throws) t where "p s = (Exn SQLException, t)" "I t"
  using assms by (auto simp: sql_safe_def)

lemma ss_basic [intro, simp]: "sql_safe I (ret x)" "sql_safe I (raise SQLException)" "sql_safe I (from_option SQLException y)"
  by (auto simp: sql_safe_def ret_def raise_def from_option_def split: option.splits)

lemma ss_bnd:
  assumes "sql_safe I p" and "\<And>x. sql_safe I (f x)"
  shows "sql_safe I (bnd p f)"
  unfolding sql_safe_def
proof (intro allI impI)
  fix s assume "I s"
  then obtain x t where x: "p s = (Val x, t) \<or> p s = (Exn SQLException, t)" "I t"
    using assms(1) by (auto simp: sql_safe_def)
  then obtain y u where "f x t = (Val y, u) \<or> f x t = (Exn SQLException, u)" "I u"
    using assms(2) [of x] by (auto simp: sql_safe_def)
  then show "\<exists>y u. (bnd p f s = (Val y, u) \<or> bnd p f s = (Exn SQLException, u)) \<and> I u"
    using x by (auto simp: bnd_def)
qed

lemma ss_forM: "(\<And>x. sql_safe I (f x)) \<Longrightarrow> sql_safe I (forM f xs)"
  by (induction xs) (auto intro: ss_bnd)

lemma ss_cases:
  "sql_safe I a \<Longrightarrow> (\<And>x xs. sql_safe I (f x xs)) \<Longrightarrow> sql_safe I (case rows of [] \<Rightarrow> a | x # xs \<Rightarrow> f x xs)"
  "sql_safe I a \<Longrightarrow> (\<And>u. sql_safe I (g u)) \<Longrightarrow> sql_safe I (case y of None \<Rightarrow> a | Some u \<Rightarrow> g u)"
  "sql_safe I a \<Longrightarrow> sql_safe I a' \<Longrightarrow> sql_safe I (if q then a else a')"
  by (auto split: list.splits option.splits)

lemma ss_catching_only: "sql_safe I p \<Longrightarrow> sql_safe I h \<Longrightarrow> sql_safe I (catching_only SQLException p h)"
  unfolding sql_safe_def [of I "catching_only _ _ _"]
proof (intro allI impI)
  fix s assume p: "sql_safe I p" and h: "sql_safe I h" and s: "I s"
  show "\<exists>x t. (catching_only SQLException p h s = (Val x, t) \<or> catching_only SQLException p h s = (Exn SQLException, t)) \<and> I t"
    using p s
  proof (cases rule: sql_safeE)
    case (throws t)
    then show ?thesis using h by (auto simp: catching_only_def sql_safe_def)
  qed (auto simp: catching_only_def)
qed

lemma ss_cols [intro, simp]: "sql_safe I (col_string row l)" "sql_safe I (col_int row l)"
  by (simp_all add: col_string_def col_int_def)

lemma ss_lift [intro, simp]: "sql_safe (dao_ready n) (lift_ok f)" "sql_safe (dao_ready n) (lift_some g)"
  by (auto simp: sql_safe_def lift_ok_def lift_some_def dao_ready_def split: prod.splits option.splits)

lemma ss_calls [intro, simp]:
  "sql_safe (dao_ready n) (statement D c s)" "sql_safe (dao_ready n) (execute D c s ps)"
  "sql_safe (dao_ready n) (executeUpdate D c s ps)" "sql_safe (dao_ready n) (executeQuery D c s ps)"
  "sql_safe (dao_ready n) (txn D c t)"
  by (simp_all add: call_defs)

lemma ss_outer [intro]: "sql_safe I p \<Longrightarrow> sql_safe (I \<circ> fst) (outer p)"
  by (fastforce simp: sql_safe_def outer_def zoom_def split: prod.splits)

lemma ss_local_upd [intro, simp]: "sql_safe (I \<circ> fst) (local_upd f)"
  by (auto simp: sql_safe_def local_upd_def upd_def)

lemma ss_collect: "sql_safe (I \<circ> fst) p \<Longrightarrow> sql_safe I (collect v p)"
  unfolding sql_safe_def [of I "collect _ _"]
proof (intro allI impI)
  fix s assume p: "sql_safe (I \<circ> fst) p" and s: "I s"
  have "(I \<circ> fst) (s, v)" using s by simp
  with p show "\<exists>x t. (collect v p s = (Val x, t) \<or> collect v p s = (Exn SQLException, t)) \<and> I t"
    by (cases rule: sql_safeE) (auto simp: collect_def split: prod.splits)
qed

text \<open>The body runs with one connection fewer.\<close>

lemma dao_ready_get:
  assumes "dao_ready (Suc n) m"
  obtains c t where "dao_getConnection m = (Val (Some c), t)" "dao_ready n t"
  using assms by (cases "connections (mysql_pool m)") (auto simp: dao_ready_def dao_getConnection_def zoom_def pool_defs)

lemma dao_ready_return: "dao_ready n m \<Longrightarrow> dao_ready (Suc n) (dao_returnConnection c m)"
  by (simp add: dao_ready_def dao_returnConnection_def pool_defs)

lemma ss_with_conn [intro]:
  assumes "\<And>c. sql_safe (dao_ready n) (body c)"
  shows "sql_safe (dao_ready (Suc n)) (with_conn d body)"
  unfolding sql_safe_def
proof (intro allI impI)
  fix m :: "'a MySQLDao" assume "dao_ready (Suc n) m"
  then obtain c t where c: "dao_getConnection m = (Val (Some c), t)" "dao_ready n t" by (rule dao_ready_get)
  then obtain x u where "body (sql_connection c) t = (Val x, u) \<or> body (sql_connection c) t = (Exn SQLException, u)" "dao_ready n u"
    using assms [of "sql_connection c"] by (auto simp: sql_safe_def)
  then show "\<exists>x u. (with_conn d body m = (Val x, u) \<or> with_conn d body m = (Exn SQLException, u)) \<and> dao_ready (Suc n) u"
    using c dao_ready_return [of n u c] by (auto simp: with_conn_def bnd_def finally_do_def)
qed

lemma ss_with_conn_acc [intro]:
  assumes "\<And>c. sql_safe (dao_ready n \<circ> fst) (body c)"
  shows "sql_safe (dao_ready (Suc n) \<circ> fst) (with_conn_acc d body)"
  unfolding sql_safe_def
proof (intro allI impI)
  fix mv :: "'a MySQLDao \<times> 'b" assume mv: "(dao_ready (Suc n) \<circ> fst) mv"
  obtain m v where m: "mv = (m, v)" by fastforce
  then obtain c t where c: "dao_getConnection m = (Val (Some c), t)" "dao_ready n t"
    using mv dao_ready_get [of n m] by auto
  then obtain x u w where "body (sql_connection c) (t, v) = (Val x, (u, w)) \<or> body (sql_connection c) (t, v) = (Exn SQLException, (u, w))"
      "dao_ready n u"
    using assms [of "sql_connection c"] by (fastforce simp: sql_safe_def)
  then show "\<exists>x u. (with_conn_acc d body mv = (Val x, u) \<or> with_conn_acc d body mv = (Exn SQLException, u)) \<and> (dao_ready (Suc n) \<circ> fst) u"
    using c m dao_ready_return [of n u c] by (auto simp: with_conn_acc_def bnd_def finally_do_def outer_def zoom_def)
qed

lemma ss_user_of_row: "sql_safe I g \<Longrightarrow> sql_safe I (user_of_row row g)"
  unfolding user_of_row_def by (intro ss_bnd ss_cols ss_basic)

lemma ss_message_of_row: "sql_safe I (message_of_row f row)"
  unfolding message_of_row_def by (intro ss_bnd ss_cols ss_basic)

lemmas ss_rules = ss_cases ss_bnd ss_catching_only ss_with_conn ss_with_conn_acc ss_forM ss_user_of_row
  ss_message_of_row ss_calls ss_cols ss_outer ss_local_upd ss_basic

text \<open>Around \<open>or_fail\<close> nothing is thrown any more.\<close>

definition returns :: "('s \<Rightarrow> bool) \<Rightarrow> ('s, 'a) prog \<Rightarrow> bool" where
  "returns I p \<longleftrightarrow> (\<forall>s. I s \<longrightarrow> (\<exists>x t. p s = (Val x, t) \<and> I t))"

lemma returns_or_fail: "sql_safe I p \<Longrightarrow> returns I (or_fail d p)"
  unfolding returns_def
proof (intro allI impI)
  fix s assume p: "sql_safe I p" and s: "I s"
  then show "\<exists>x t. or_fail d p s = (Val x, t) \<and> I t"
    by (cases rule: sql_safeE) (auto simp: or_fail_def catching_only_def ret_def)
qed

lemma returns_ss: "returns I p \<Longrightarrow> sql_safe I p"
  unfolding returns_def sql_safe_def by blast

lemma returns_collect: "returns (I \<circ> fst) p \<Longrightarrow> returns I (collect v p)"
  unfolding returns_def [of I]
proof (intro allI impI)
  fix s assume "returns (I \<circ> fst) p" "I s"
  then obtain x t w where "p (s, v) = (Val x, (t, w))" "I t" by (fastforce simp: returns_def)
  then show "\<exists>x t. collect v p s = (Val x, t) \<and> I t" by (simp add: collect_def)
qed

lemma returns_GetUser_uid: "returns (dao_ready (Suc n)) (GetUser_uid D uid)"
  unfolding GetUser_uid_def by (intro returns_or_fail ss_rules)

lemma returns_GetFriendList: "returns (dao_ready (Suc (Suc n)) \<circ> fst) (dao_GetFriendList D self_id)"
  unfolding dao_GetFriendList_def friend_of_row_def
  by (intro returns_or_fail ss_rules returns_ss [OF returns_GetUser_uid])

lemma returns_GetApplyList: "returns (dao_ready (Suc n) \<circ> fst) (dao_GetApplyList D self_id i j)"
  unfolding dao_GetApplyList_def by (intro returns_or_fail ss_rules)

lemma returns_GetRecentMessages: "returns (dao_ready (Suc n)) (dao_GetRecentMessages D f uid i j)"
  unfolding dao_GetRecentMessages_def by (intro returns_collect returns_or_fail ss_rules)

section \<open>Properties\<close>

text \<open>
  Connections of the chat server's data access object come back: whatever the database
  answers or throws, a call of any operation that returns or throws leaves the idle connections
  of the pool as they were.
\<close>

theorem dao_connections_returned:
  "keeps_done (dao_pool_is C b) (GetUser_uid D uid) \<and> keeps_done (dao_pool_is C b) (GetUser_name D name) \<and>
   keeps_done (dao_pool_is C b) (dao_AddFriendApply D a z) \<and> keeps_done (dao_pool_is C b) (dao_AuthFriendApply D a z) \<and>
   keeps_done (dao_pool_is C b) (dao_AddFriend D a z name) \<and>
   keeps_done (dao_pool_is C b \<circ> fst) (dao_GetApplyList D a i j) \<and>
   keeps_done (dao_pool_is C b \<circ> fst) (dao_GetFriendList D a) \<and>
   keeps_done (dao_pool_is C b) (dao_MarkMessagesAsRead D a z) \<and>
   keeps_done (dao_pool_is C b) (dao_SaveChatMessage D a z name content i) \<and>
   keeps_done (dao_pool_is C b) (dao_SaveChatMessage_msg D msg) \<and>
   keeps_done (dao_pool_is C b) (dao_GetRecentMessages D f uid i j) \<and>
   keeps_done (dao_pool_is C b) (dao_UpdateLastMessage D a z name)"
  unfolding dao_defs dao_GetApplyList_def dao_GetFriendList_def dao_GetRecentMessages_def
  by (intro conjI kd_rules kd_friend_of_row kd_collect kd_message_of_row)

text \<open>
  C33. \<open>AddFriend\<close> as a transaction, on a connector that logs its calls: when it returns true, the
  connection got the two inserts, one for each direction, between switching autocommit off and
  \<open>commit\<close>; when it returns false the last call was \<open>rollback\<close>; and no path switches autocommit
  on again before the connection goes back to the pool.
\<close>

theorem AddFriend_transaction:
  assumes "mysql_pool m = \<lparr>connections = conn # conns, is_stop = False\<rparr>"
    and "dao_AddFriend (logged D) from_uid to_uid back_name m = (r, m')"
  shows "\<exists>events. snd (mysql_server m') = snd (mysql_server m) @ events \<and>
    (r = Val True \<longrightarrow> (let c = sql_connection conn in events =
       [Txn c (SetTransactionIsolation ''TRANSACTION_READ_COMMITTED''), Stmt c ''SET innodb_lock_wait_timeout = 50'',
        Txn c (SetAutoCommit False),
        Update c insert_friend_sql [PInt from_uid, PInt to_uid, PString back_name],
        Update c insert_friend_sql [PInt to_uid, PInt from_uid, PString back_name], Txn c Commit])) \<and>
    (r = Val False \<longrightarrow> events \<noteq> [] \<and> last events = Txn (sql_connection conn) Rollback) \<and>
    (\<forall>c. Txn c (SetAutoCommit True) \<notin> set events)"
proof -
  let ?c = "sql_connection conn"
  let ?rb = "\<lambda>s. drv_txn D ?c Rollback s"
  obtain ok1 s1 where 1: "drv_txn D ?c (SetTransactionIsolation ''TRANSACTION_READ_COMMITTED'') (fst (mysql_server m)) = (ok1, s1)"
    by fastforce
  obtain ok2 s2 where 2: "drv_statement D ?c ''SET innodb_lock_wait_timeout = 50'' s1 = (ok2, s2)" by fastforce
  obtain ok3 s3 where 3: "drv_txn D ?c (SetAutoCommit False) s2 = (ok3, s3)" by fastforce
  obtain n4 s4 where 4: "drv_update D ?c insert_friend_sql [PInt from_uid, PInt to_uid, PString back_name] s3 = (n4, s4)"
    by fastforce
  obtain n5 s5 where 5: "drv_update D ?c insert_friend_sql [PInt to_uid, PInt from_uid, PString back_name] s4 = (n5, s5)"
    by fastforce
  obtain ok6 s6 where 6: "drv_txn D ?c Commit s5 = (ok6, s6)" by fastforce
  obtain b t where rb: "\<And>s. ?rb s = (b s, t s)" by (rule that [of "fst \<circ> ?rb" "snd \<circ> ?rb"]) simp
  note run = assms(2) [unfolded dao_AddFriend_def with_conn_def dao_getConnection_def zoom_def pool_defs
      dao_returnConnection_def bnd_def finally_do_def catching_only_def logged_txn logged_statement logged_update ret_def]
  show ?thesis
  proof (cases "ok1 \<and> ok2 \<and> ok3 \<and> (\<exists>n. n4 = Some n \<and> 0 \<le> n)")
    case False
    then show ?thesis using run
      by (cases ok1; cases ok2; cases ok3; cases n4) (auto simp: assms(1) 1 2 3 4 rb split: if_splits)
  next
    case True
    then show ?thesis using run
      by (cases n5; cases ok6) (auto simp: assms(1) 1 2 3 4 5 6 rb Let_def split: if_splits)
  qed
qed

theorem AddFriend_transaction_witness:
  "\<exists>m' events. dao_AddFriend (logged (table_driver (\<lambda>_ _. []))) 1 2 ''bob''
       \<lparr>mysql_pool = \<lparr>connections = [\<lparr>sql_connection = 7, last_oper_time = 0\<rparr>], is_stop = False\<rparr>, mysql_server = ((), [])\<rparr> =
       (Val True, m') \<and> snd (mysql_server m') = events \<and> last events = Txn 7 Commit"
proof -
  let ?m = "\<lparr>mysql_pool = \<lparr>connections = [\<lparr>sql_connection = 7, last_oper_time = 0\<rparr>], is_stop = False\<rparr>, mysql_server = ((), [])\<rparr>"
  obtain r m' where run: "dao_AddFriend (logged (table_driver (\<lambda>_ _. []))) 1 2 ''bob'' ?m = (r, m')" by fastforce
  have "fst (dao_AddFriend (logged (table_driver (\<lambda>_ _. []))) 1 2 ''bob'' ?m) = Val True"
    by (simp add: dao_AddFriend_def with_conn_def dao_getConnection_def zoom_def pool_defs
      bnd_def finally_do_def catching_only_def logged_txn logged_statement logged_update ret_def table_driver_def)
  then have "r = Val True" using run by simp
  then show ?thesis
    using AddFriend_transaction [OF _ run, of "\<lparr>sql_connection = 7, last_oper_time = 0\<rparr>" "[]"] run
    by (auto simp: Let_def)
qed

text \<open>
  \<open>GetFriendList\<close> waits for itself: it holds its connection while it asks \<open>GetUser\<close> for each
  friend, so with a single idle connection and at least one friend the call never returns.
\<close>

theorem GetFriendList_needs_two_connections:
  assumes "mysql_pool m = \<lparr>connections = [conn], is_stop = False\<rparr>"
    and "fst (drv_query D (sql_connection conn) ''select * from friend where self_id = ? '' [PInt self_id] (mysql_server m)) =
      Some (row # rows)"
    and "getInt row ''friend_id'' = Some i" and "getString row ''back'' = Some bk"
  shows "fst (dao_GetFriendList D self_id (m, us)) = Waits"
proof -
  obtain s where q: "drv_query D (sql_connection conn) ''select * from friend where self_id = ? '' [PInt self_id] (mysql_server m) =
      (Some (row # rows), s)"
    using assms(2) by (metis prod.collapse)
  show ?thesis
    unfolding dao_GetFriendList_def or_fail_def with_conn_acc_def
    by (simp add: assms(1,3,4) q bnd_def outer_def zoom_def dao_getConnection_def pool_defs executeQuery_def lift_some_def
        finally_do_def catching_only_def friend_of_row_def col_int_def col_string_def from_option_def ret_def
        GetUser_uid_def or_fail_def with_conn_def)
qed

theorem GetFriendList_needs_two_connections_witness:
  "fst (dao_GetFriendList (table_driver (\<lambda>_ _. [\<lparr>getString = (\<lambda>_. Some ''b''), getInt = (\<lambda>_. Some 2)\<rparr>])) 1
     (\<lparr>mysql_pool = \<lparr>connections = [\<lparr>sql_connection = 7, last_oper_time = 0\<rparr>], is_stop = False\<rparr>, mysql_server = ()\<rparr>, [])) = Waits"
  by (rule GetFriendList_needs_two_connections [where conn = "\<lparr>sql_connection = 7, last_oper_time = 0\<rparr>"
        and row = "\<lparr>getString = (\<lambda>_. Some ''b''), getInt = (\<lambda>_. Some 2)\<rparr>" and rows = "[]" and i = 2 and bk = "''b''"])
    (simp_all add: table_driver_def)

text \<open>
  Operations return: with one idle connection (two for \<open>GetFriendList\<close>) every operation of the
  data access object returns a value, whatever the database answers or throws, and leaves as many
  idle connections; only \<open>AddFriend\<close> may also throw, when its \<open>rollback\<close> throws.
\<close>

theorem dao_operations_return:
  "returns (dao_ready (Suc n)) (GetUser_uid D uid) \<and> returns (dao_ready (Suc n)) (GetUser_name D name) \<and>
   returns (dao_ready (Suc n)) (dao_AddFriendApply D a z) \<and> returns (dao_ready (Suc n)) (dao_AuthFriendApply D a z) \<and>
   returns (dao_ready (Suc n) \<circ> fst) (dao_GetApplyList D a i j) \<and>
   returns (dao_ready (Suc (Suc n)) \<circ> fst) (dao_GetFriendList D a) \<and>
   returns (dao_ready (Suc n)) (dao_MarkMessagesAsRead D a z) \<and>
   returns (dao_ready (Suc n)) (dao_SaveChatMessage D a z name content i) \<and>
   returns (dao_ready (Suc n)) (dao_SaveChatMessage_msg D msg) \<and>
   returns (dao_ready (Suc n)) (dao_GetRecentMessages D f uid i j) \<and>
   returns (dao_ready (Suc n)) (dao_UpdateLastMessage D a z name) \<and>
   sql_safe (dao_ready (Suc n)) (dao_AddFriend D a z name)"
  by (intro conjI returns_GetUser_uid returns_GetFriendList returns_GetApplyList returns_GetRecentMessages)
    (unfold dao_defs, (intro returns_or_fail ss_rules)+)

end
