(* ===== verification/ChatServer.thy ===== *)
theory ChatServer
  imports Registry Constants CSession ChatCache ChatDao
begin

text \<open>
  The state of one chat server process and the parts of it that every handler uses:
  the singletons \<open>RedisManager\<close>, \<open>MySQLManager\<close> and \<open>UserMgr\<close>, the \<open>CSession\<close> objects, the session
  table of \<open>CServer\<close> and the stub pools of \<open>ChatGrpcClient\<close>.

  Sessions are objects with an identity that \<open>UserMgr\<close>, \<open>CServer\<close> and running handlers share, so
  they live in a store indexed by \<open>_session_id\<close>; a \<open>shared_ptr\<close> is the index.
\<close>

section \<open>State\<close>

text \<open>A stub: the address of its channel and its number in the pool.\<close>

type_synonym chat_stub = "string \<times> nat"

record ('r, 'm, 'g) chat_server =
  redis_mgr :: "'r RedisManager"
  mysql_mgr :: "'m MySQLDao"
  session_objs :: "string \<rightharpoonup> CSession"
  server_sessions :: "string set"                  \<comment> \<open>\<open>CServer::_sessions\<close>\<close>
  uid_to_session :: "int \<rightharpoonup> string"               \<comment> \<open>\<open>UserMgr::_uid_to_session\<close>\<close>
  rpc_pools :: "string \<rightharpoonup> chat_stub conn_pool"    \<comment> \<open>\<open>ChatGrpcClient::_pools\<close>\<close>
  rpc_peers :: 'g                                  \<comment> \<open>the other chat servers\<close>

text \<open>Calls on the member objects.\<close>

definition redis_op :: "('r RedisManager, 'a) prog \<Rightarrow> (('r, 'm, 'g) chat_server, 'a) prog" where
  "redis_op = zoom redis_mgr (\<lambda>x s. s\<lparr>redis_mgr := x\<rparr>)"

definition mysql_op :: "('m MySQLDao, 'a) prog \<Rightarrow> (('r, 'm, 'g) chat_server, 'a) prog" where
  "mysql_op = zoom mysql_mgr (\<lambda>x s. s\<lparr>mysql_mgr := x\<rparr>)"

definition on_session :: "string \<Rightarrow> (CSession, 'a) prog \<Rightarrow> (('r, 'm, 'g) chat_server, 'a) prog" where
  "on_session sid p s =
     (case session_objs s sid of
        None \<Rightarrow> (Crash, s)
      | Some c \<Rightarrow> (case p c of (r, c') \<Rightarrow> (r, s\<lparr>session_objs := (session_objs s)(sid \<mapsto> c')\<rparr>)))"

definition session_send :: "string \<Rightarrow> string \<Rightarrow> MSG_IDS \<Rightarrow> (('r, 'm, 'g) chat_server, unit) prog" where
  "session_send sid msg i = on_session sid (send msg (msg_id i))"

definition set_user_id :: "int \<Rightarrow> (CSession, unit) prog" where
  "set_user_id user_id = upd (\<lambda>c. c\<lparr>user_uid := user_id\<rparr>)"

section \<open>MySQLManager\<close>

text \<open>\<open>MySQLManager\<close> forwards to its \<open>MySQLDao\<close>; the first \<open>SaveChatMessage\<close> drops the message type, so
  the default of \<open>MySQLDao::SaveChatMessage\<close> is stored.\<close>

definition MySQLManager_init :: "'m mysql_driver \<Rightarrow> (nat \<Rightarrow> (nat \<times> int) option) \<Rightarrow> string option \<Rightarrow> ('m MySQLDao, bool) prog" where
  "MySQLManager_init D att sql_file = dao_init D att sql_file"

definition MySQLManager_GetUser :: "'m mysql_driver \<Rightarrow> int \<Rightarrow> ('m MySQLDao, UserInfo option) prog" where
  "MySQLManager_GetUser D uid = GetUser_uid D uid"

definition MySQLManager_GetUser_name :: "'m mysql_driver \<Rightarrow> string \<Rightarrow> ('m MySQLDao, UserInfo option) prog" where
  "MySQLManager_GetUser_name D name = GetUser_name D name"

definition MySQLManager_AddFriendApply :: "'m mysql_driver \<Rightarrow> int \<Rightarrow> int \<Rightarrow> ('m MySQLDao, bool) prog" where
  "MySQLManager_AddFriendApply D from_uid to_uid = dao_AddFriendApply D from_uid to_uid"

definition MySQLManager_AuthFriendApply :: "'m mysql_driver \<Rightarrow> int \<Rightarrow> int \<Rightarrow> ('m MySQLDao, bool) prog" where
  "MySQLManager_AuthFriendApply D from_uid to_uid = dao_AuthFriendApply D from_uid to_uid"

definition MySQLManager_AddFriend :: "'m mysql_driver \<Rightarrow> int \<Rightarrow> int \<Rightarrow> string \<Rightarrow> ('m MySQLDao, bool) prog" where
  "MySQLManager_AddFriend D from_uid to_uid back_name = dao_AddFriend D from_uid to_uid back_name"

definition MySQLManager_GetApplyList ::
    "'m mysql_driver \<Rightarrow> int \<Rightarrow> int \<Rightarrow> int \<Rightarrow> ('m MySQLDao \<times> ApplyInfo list, bool) prog" where
  "MySQLManager_GetApplyList D self_id offset limit = dao_GetApplyList D self_id offset limit"

definition MySQLManager_GetFriendList :: "'m mysql_driver \<Rightarrow> int \<Rightarrow> ('m MySQLDao \<times> UserInfo list, bool) prog" where
  "MySQLManager_GetFriendList D self_id = dao_GetFriendList D self_id"

definition MySQLManager_MarkMessagesAsRead :: "'m mysql_driver \<Rightarrow> int \<Rightarrow> int \<Rightarrow> ('m MySQLDao, bool) prog" where
  "MySQLManager_MarkMessagesAsRead D uid peer_id = dao_MarkMessagesAsRead D uid peer_id"

definition MySQLManager_SaveChatMessage ::
    "'m mysql_driver \<Rightarrow> int \<Rightarrow> int \<Rightarrow> string \<Rightarrow> string \<Rightarrow> int \<Rightarrow> ('m MySQLDao, bool) prog" where
  "MySQLManager_SaveChatMessage D from_uid to_uid msgid content msg_type =
     dao_SaveChatMessage D from_uid to_uid msgid content 1"

definition MySQLManager_SaveChatMessage_msg :: "'m mysql_driver \<Rightarrow> ChatMessage \<Rightarrow> ('m MySQLDao, bool) prog" where
  "MySQLManager_SaveChatMessage_msg D chat_message = dao_SaveChatMessage_msg D chat_message"

definition MySQLManager_GetRecentMessages ::
    "'m mysql_driver \<Rightarrow> (string \<Rightarrow> int) \<Rightarrow> int \<Rightarrow> int \<Rightarrow> int \<Rightarrow> ('m MySQLDao, ChatMessage list) prog" where
  "MySQLManager_GetRecentMessages D timestamp uid limit before_id = dao_GetRecentMessages D timestamp uid limit before_id"

definition MySQLManager_UpdateLastMessage :: "'m mysql_driver \<Rightarrow> int \<Rightarrow> int \<Rightarrow> string \<Rightarrow> ('m MySQLDao, bool) prog" where
  "MySQLManager_UpdateLastMessage D uid peerId msgId = dao_UpdateLastMessage D uid peerId msgId"

lemmas MySQLManager_defs = MySQLManager_GetUser_def MySQLManager_GetUser_name_def MySQLManager_AddFriendApply_def
  MySQLManager_AuthFriendApply_def MySQLManager_AddFriend_def MySQLManager_GetApplyList_def MySQLManager_GetFriendList_def
  MySQLManager_MarkMessagesAsRead_def MySQLManager_SaveChatMessage_def MySQLManager_SaveChatMessage_msg_def
  MySQLManager_GetRecentMessages_def MySQLManager_UpdateLastMessage_def

section \<open>UserMgr\<close>

definition GetSession :: "('r, 'm, 'g) chat_server \<Rightarrow> int \<Rightarrow> string option" where
  "GetSession s uid = uid_to_session s uid"

definition SetUserSession :: "int \<Rightarrow> string \<Rightarrow> ('r, 'm, 'g) chat_server \<Rightarrow> ('r, 'm, 'g) chat_server" where
  "SetUserSession uid session s = s\<lparr>uid_to_session := (uid_to_session s)(uid \<mapsto> session)\<rparr>"

definition RemoveUserSession :: "int \<Rightarrow> ('r, 'm, 'g) chat_server \<Rightarrow> ('r, 'm, 'g) chat_server" where
  "RemoveUserSession uid s = s\<lparr>uid_to_session := (uid_to_session s)(uid := None)\<rparr>"

interpretation user_mgr: erasable GetSession SetUserSession RemoveUserSession
  by unfold_locales (simp_all add: GetSession_def SetUserSession_def RemoveUserSession_def)

section \<open>CServer\<close>

text \<open>
  \<open>startAccept\<close> makes the next \<open>CSession\<close>: \<open>uuid\<close> is its new id, \<open>garbage\<close> the content of its
  uninitialised \<open>_user_uid\<close>. \<open>handleAccept\<close> is the completion of the outstanding accept.
\<close>

definition startAccept :: "string \<times> int \<Rightarrow> ('r, 'm, 'g) chat_server \<Rightarrow> ('r, 'm, 'g) chat_server" where
  "startAccept fresh s = s\<lparr>session_objs := (session_objs s)(fst fresh \<mapsto> new_CSession (fst fresh) (snd fresh))\<rparr>"

definition handleAccept ::
    "string \<Rightarrow> bool \<Rightarrow> string \<times> int \<Rightarrow> (('r, 'm, 'g) chat_server, unit) prog" where
  "handleAccept sid error fresh =
     bnd (if \<not> error then
            bnd (on_session sid (upd start)) (\<lambda>_.
            upd (\<lambda>s. s\<lparr>server_sessions := insert sid (server_sessions s)\<rparr>))
          else ret ()) (\<lambda>_.
     upd (startAccept fresh))"

definition clearSession :: "string \<Rightarrow> (('r, 'm, 'g) chat_server, unit) prog" where
  "clearSession sid =
     bnd (gets (\<lambda>s. sid \<in> server_sessions s)) (\<lambda>found.
     bnd (if found then
            bnd (on_session sid (gets user_uid)) (\<lambda>uid. upd (RemoveUserSession uid))
          else ret ()) (\<lambda>_.
     upd (\<lambda>s. s\<lparr>server_sessions := server_sessions s - {sid}\<rparr>)))"

text \<open>\<open>CSession::close\<close> with its call of \<open>clearSession\<close>, and the session's completions in the server.\<close>

definition session_close :: "string \<Rightarrow> (('r, 'm, 'g) chat_server, unit) prog" where
  "session_close sid =
     bnd (clearSession sid) (\<lambda>_. on_session sid (upd close_session))"

definition close_if :: "string \<Rightarrow> bool \<Rightarrow> (('r, 'm, 'g) chat_server, unit) prog" where
  "close_if sid closes = (if closes then session_close sid else ret ())"

definition session_read :: "string \<Rightarrow> bool \<Rightarrow> string \<Rightarrow> (('r, 'm, 'g) chat_server, unit) prog" where
  "session_read sid ec data = bnd (on_session sid (on_read ec data)) (close_if sid)"

definition session_written :: "string \<Rightarrow> bool \<Rightarrow> (('r, 'm, 'g) chat_server, unit) prog" where
  "session_written sid error = bnd (on_session sid (handleWrite error)) (close_if sid)"

section \<open>Frame rules\<close>

text \<open>What calls on one member object leave alone.\<close>

lemma keeps_redis_op: "(\<And>s x. I s \<Longrightarrow> I (s\<lparr>redis_mgr := x\<rparr>)) \<Longrightarrow> keeps I (redis_op p)"
  unfolding redis_op_def by (rule keeps_zoom)

lemma keeps_mysql_op: "(\<And>s x. I s \<Longrightarrow> I (s\<lparr>mysql_mgr := x\<rparr>)) \<Longrightarrow> keeps I (mysql_op p)"
  unfolding mysql_op_def by (rule keeps_zoom)

lemma keeps_on_session: "(\<And>s x. I s \<Longrightarrow> I (s\<lparr>session_objs := x\<rparr>)) \<Longrightarrow> keeps I (on_session sid p)"
  by (auto simp: keeps_def on_session_def split: option.splits prod.splits)

lemma redis_op_run: "p (redis_mgr s) = (r, m) \<Longrightarrow> redis_op p s = (r, s\<lparr>redis_mgr := m\<rparr>)"
  by (simp add: redis_op_def zoom_def)

lemma mysql_op_run: "p (mysql_mgr s) = (r, m) \<Longrightarrow> mysql_op p s = (r, s\<lparr>mysql_mgr := m\<rparr>)"
  by (simp add: mysql_op_def zoom_def)

text \<open>Two states that differ at most in the Redis manager, or in the session objects.\<close>

definition same_but_redis :: "('r, 'm, 'g) chat_server \<Rightarrow> ('r, 'm, 'g) chat_server \<Rightarrow> bool" where
  "same_but_redis s t \<longleftrightarrow> mysql_mgr t = mysql_mgr s \<and> session_objs t = session_objs s \<and>
     server_sessions t = server_sessions s \<and> uid_to_session t = uid_to_session s \<and>
     rpc_pools t = rpc_pools s \<and> rpc_peers t = rpc_peers s"

definition same_but_sessions :: "('r, 'm, 'g) chat_server \<Rightarrow> ('r, 'm, 'g) chat_server \<Rightarrow> bool" where
  "same_but_sessions s t \<longleftrightarrow> mysql_mgr t = mysql_mgr s \<and> redis_mgr t = redis_mgr s \<and>
     server_sessions t = server_sessions s \<and> uid_to_session t = uid_to_session s \<and>
     rpc_pools t = rpc_pools s \<and> rpc_peers t = rpc_peers s"

lemma same_but_redisD:
  assumes "same_but_redis s t"
  shows "mysql_mgr t = mysql_mgr s" "session_objs t = session_objs s" "server_sessions t = server_sessions s"
    "uid_to_session t = uid_to_session s" "rpc_pools t = rpc_pools s" "rpc_peers t = rpc_peers s"
    "GetSession t = GetSession s"
  using assms by (auto simp: same_but_redis_def GetSession_def)

lemma same_but_sessionsD:
  assumes "same_but_sessions s t"
  shows "mysql_mgr t = mysql_mgr s" "redis_mgr t = redis_mgr s" "server_sessions t = server_sessions s"
    "uid_to_session t = uid_to_session s" "rpc_pools t = rpc_pools s" "rpc_peers t = rpc_peers s"
    "GetSession t = GetSession s"
  using assms by (auto simp: same_but_sessions_def GetSession_def)

definition same_but_mysql :: "('r, 'm, 'g) chat_server \<Rightarrow> ('r, 'm, 'g) chat_server \<Rightarrow> bool" where
  "same_but_mysql s t \<longleftrightarrow> redis_mgr t = redis_mgr s \<and> session_objs t = session_objs s \<and>
     server_sessions t = server_sessions s \<and> uid_to_session t = uid_to_session s \<and>
     rpc_pools t = rpc_pools s \<and> rpc_peers t = rpc_peers s"

lemma same_but_mysqlD:
  assumes "same_but_mysql s t"
  shows "redis_mgr t = redis_mgr s" "session_objs t = session_objs s" "server_sessions t = server_sessions s"
    "uid_to_session t = uid_to_session s" "rpc_pools t = rpc_pools s" "rpc_peers t = rpc_peers s"
    "GetSession t = GetSession s"
  using assms by (auto simp: same_but_mysql_def GetSession_def)

lemma mysql_op_returns:
  assumes "returns I p" and "I (mysql_mgr s)"
  obtains x t where "mysql_op p s = (Val x, t)" "p (mysql_mgr s) = (Val x, mysql_mgr t)" "I (mysql_mgr t)" "same_but_mysql s t"
proof -
  obtain x m where m: "p (mysql_mgr s) = (Val x, m)" "I m"
    using assms by (auto simp: returns_def)
  show thesis
    by (rule that [of x "s\<lparr>mysql_mgr := m\<rparr>"]) (use m in \<open>simp_all add: mysql_op_def zoom_def same_but_mysql_def\<close>)
qed

lemma redis_op_does:
  assumes "does view p (redis_mgr s) x ks"
  obtains t where "redis_op p s = (x, t)" "redis_up (redis_mgr t)" "view (redis_server (redis_mgr t)) = ks"
    "same_but_redis s t"
proof -
  obtain m where m: "p (redis_mgr s) = (x, m)" "redis_up m" "view (redis_server m) = ks"
    using assms by (auto simp: does_def)
  show thesis
    by (rule that [of "s\<lparr>redis_mgr := m\<rparr>"]) (use m in \<open>simp_all add: redis_op_def zoom_def same_but_redis_def\<close>)
qed

text \<open>The frames a session has taken so far: those written and those that wait.\<close>

definition outbox :: "CSession \<Rightarrow> string list" where
  "outbox c = writes c @ map send_bytes (tl (send_queue c))"

definition has_room :: "nat \<Rightarrow> CSession \<Rightarrow> bool" where
  "has_room n c \<longleftrightarrow> length (send_queue c) + n \<le> MAX_SENDQUE + 1"

lemma send_outbox:
  assumes "length msg \<le> 32763" and "has_room (Suc n) c"
  shows "\<exists>c'. send msg i c = (Val (), c') \<and> outbox c' = outbox c @ [frame i msg] \<and> has_room n c' \<and>
    user_uid c' = user_uid c \<and> b_close c' = b_close c"
proof -
  have len: "length (send_queue c) \<le> MAX_SENDQUE" using assms(2) by (simp add: has_room_def)
  from send_taken [OF assms(1) len, of i] obtain node where
    "send_bytes node = frame i msg" "send msg i c = (Val (), c\<lparr>send_queue := send_queue c @ [node],
       writes := (if send_queue c = [] then writes c @ [send_bytes node] else writes c)\<rparr>)" by blast
  then show ?thesis using assms(2)
    by (cases "send_queue c") (auto simp: outbox_def has_room_def)
qed

lemma session_send_outbox:
  assumes "session_objs s sid = Some c" and "length msg \<le> 32763" and "has_room (Suc n) c"
  obtains c' t where "session_send sid msg i s = (Val (), t)" "session_objs t = (session_objs s)(sid \<mapsto> c')"
    "same_but_sessions s t" "outbox c' = outbox c @ [frame (msg_id i) msg]" "has_room n c'"
    "user_uid c' = user_uid c" "b_close c' = b_close c"
proof -
  from send_outbox [OF assms(2,3), of "msg_id i"] obtain c' where c':
    "send msg (msg_id i) c = (Val (), c')" "outbox c' = outbox c @ [frame (msg_id i) msg]" "has_room n c'"
    "user_uid c' = user_uid c" "b_close c' = b_close c" by blast
  show thesis
    by (rule that [of "s\<lparr>session_objs := (session_objs s)(sid \<mapsto> c')\<rparr>" c'])
      (use c' in \<open>simp_all add: session_send_def on_session_def assms(1) same_but_sessions_def\<close>)
qed

lemma new_session_room: "n \<le> MAX_SENDQUE + 1 \<Longrightarrow> has_room n (new_CSession sid u)" "outbox (new_CSession sid u) = []"
  by (simp_all add: has_room_def outbox_def new_CSession_def)

end
