(* ===== verification/ChatGrpc.thy ===== *)
theory ChatGrpc
  imports ChatServer
begin

text \<open>
  Chat servers call each other over gRPC: \<open>ChatGrpcClient\<close> is the calling side (a pool of stubs per
  configured server), \<open>ChatServiceImpl\<close> the called side, which hands the notification to the
  session of the user. The gRPC transport is a parameter: a call on a stub changes the state of
  the peers and gives a response, or a status that is not ok (\<open>None\<close>).

  Both classes and \<open>LogicSystem\<close> have a copy of \<open>GetBaseInfo\<close>, which looks a user up in Redis
  first and then in MySQL, and fills the Redis entry.
\<close>

section \<open>Messages and environment\<close>

record AddFriendReq =
  af_applyuid :: int
  af_name :: string
  af_desc :: string
  af_icon :: string
  af_nick :: string
  af_sex :: int
  af_touid :: int

record AddFriendRsp =
  afr_error :: int
  afr_applyuid :: int
  afr_touid :: int

record AuthFriendReq =
  au_fromuid :: int
  au_touid :: int

record AuthFriendRsp =
  aur_error :: int
  aur_fromuid :: int
  aur_touid :: int

record TextChatMsgReq =
  tm_fromuid :: int
  tm_touid :: int
  tm_msgid :: string
  tm_content :: string
  tm_send_time :: int
  tm_msg_type :: int

record TextChatMsgRsp =
  tmr_error :: int
  tmr_fromuid :: int
  tmr_touid :: int
  tmr_msgid :: string
  tmr_content :: string
  tmr_send_time :: int
  tmr_msg_type :: int

text \<open>Default instances of the protobuf messages.\<close>

definition new_AddFriendReq :: AddFriendReq where
  "new_AddFriendReq = \<lparr>af_applyuid = 0, af_name = [], af_desc = [], af_icon = [], af_nick = [], af_sex = 0, af_touid = 0\<rparr>"

definition new_AddFriendRsp :: AddFriendRsp where
  "new_AddFriendRsp = \<lparr>afr_error = 0, afr_applyuid = 0, afr_touid = 0\<rparr>"

definition new_AuthFriendRsp :: AuthFriendRsp where
  "new_AuthFriendRsp = \<lparr>aur_error = 0, aur_fromuid = 0, aur_touid = 0\<rparr>"

definition new_TextChatMsgRsp :: TextChatMsgRsp where
  "new_TextChatMsgRsp = \<lparr>tmr_error = 0, tmr_fromuid = 0, tmr_touid = 0, tmr_msgid = [], tmr_content = [],
     tmr_send_time = 0, tmr_msg_type = 0\<rparr>"

text \<open>
  What a chat server process relies on: jsoncpp, hiredis with the Redis server, the MySQL
  connector with the database, gRPC with the peers, \<open>Tools::stringToTimestamp\<close> (which calls the
  C library's time functions), and its configuration.
\<close>

record ('r, 'm, 'g) chat_env =
  lib_json :: jsoncpp
  lib_redis :: "'r redis_fun"
  lib_mysql :: "'m mysql_driver"
  lib_NotifyAddFriend :: "chat_stub \<Rightarrow> AddFriendReq \<Rightarrow> 'g \<Rightarrow> AddFriendRsp option \<times> 'g"
  lib_NotifyAuthFriend :: "chat_stub \<Rightarrow> AuthFriendReq \<Rightarrow> 'g \<Rightarrow> AuthFriendRsp option \<times> 'g"
  lib_NotifyTextChatMsg :: "chat_stub \<Rightarrow> TextChatMsgReq \<Rightarrow> 'g \<Rightarrow> TextChatMsgRsp option \<times> 'g"
  stringToTimestamp :: "string \<Rightarrow> int"
  cfg :: config_map

definition self_server_name :: "('r, 'm, 'g) chat_env \<Rightarrow> string" where
  "self_server_name E = settings_value ''SelfServer/name'' [] (cfg E)"

section \<open>GetBaseInfo\<close>

text \<open>The fields of a cached entry, in the order they are read, and the entry that is written.\<close>

definition read_base_info :: "jsoncpp \<Rightarrow> json \<Rightarrow> UserInfo \<Rightarrow> ('s, UserInfo) prog" where
  "read_base_info J root userinfo =
     bnd (json_int J root ''uid'') (\<lambda>uid.
     bnd (json_str J root ''name'') (\<lambda>name.
     bnd (json_str J root ''pwd'') (\<lambda>pwd.
     bnd (json_str J root ''email'') (\<lambda>email.
     bnd (json_str J root ''nick'') (\<lambda>nick.
     bnd (json_str J root ''desc'') (\<lambda>desc.
     bnd (json_int J root ''sex'') (\<lambda>sex.
     bnd (json_str J root ''icon'') (\<lambda>icon.
     ret (userinfo\<lparr>u_uid := uid, u_name := name, u_pwd := pwd, u_email := email, u_nick := nick, u_desc := desc,
       u_sex := sex, u_icon := icon\<rparr>)))))))))"

definition base_info_json :: "int \<Rightarrow> UserInfo \<Rightarrow> json" where
  "base_info_json uid userinfo =
     jset ''icon'' (JStr (u_icon userinfo)) (
     jset ''sex'' (JInt (u_sex userinfo)) (
     jset ''desc'' (JStr (u_desc userinfo)) (
     jset ''nick'' (JStr (u_nick userinfo)) (
     jset ''email'' (JStr (u_email userinfo)) (
     jset ''name'' (JStr (u_name userinfo)) (
     jset ''pwd'' (JStr (u_pwd userinfo)) (
     jset ''uid'' (JInt uid) JNull)))))))"

text \<open>The result is the returned flag and the \<open>userinfo\<close> reference afterwards.\<close>

definition ChatGrpcClient_GetBaseInfo ::
    "('r, 'm, 'g) chat_env \<Rightarrow> string \<Rightarrow> int \<Rightarrow> UserInfo \<Rightarrow> (('r, 'm, 'g) chat_server, bool \<times> UserInfo) prog" where
  "ChatGrpcClient_GetBaseInfo E base_key uid userinfo =
     bnd (redis_op (redis_get (lib_redis E) base_key [])) (\<lambda>(b_base, info_str).
     bnd (if b_base then
            bnd (read_base_info (lib_json E) (snd (jparse (lib_json E) info_str)) userinfo) (\<lambda>u. ret (Some u))
          else
            bnd (mysql_op (MySQLManager_GetUser (lib_mysql E) uid)) (\<lambda>user_info.
            case user_info of
              None \<Rightarrow> ret None
            | Some u \<Rightarrow>
                bnd (redis_op (redis_set (lib_redis E) base_key (toStyledString (lib_json E) (base_info_json uid u))))
                  (\<lambda>_. ret (Some u)))) (\<lambda>r.
     case r of None \<Rightarrow> ret (False, userinfo) | Some u \<Rightarrow> ret (True, u)))"

definition ChatServiceImpl_GetBaseInfo ::
    "('r, 'm, 'g) chat_env \<Rightarrow> string \<Rightarrow> int \<Rightarrow> UserInfo \<Rightarrow> (('r, 'm, 'g) chat_server, bool \<times> UserInfo) prog" where
  "ChatServiceImpl_GetBaseInfo E base_key uid userinfo =
     bnd (redis_op (redis_get (lib_redis E) base_key [])) (\<lambda>(b_base, info_str).
     bnd (if b_base then
            bnd (read_base_info (lib_json E) (snd (jparse (lib_json E) info_str)) userinfo) (\<lambda>u. ret (Some u))
          else
            bnd (mysql_op (MySQLManager_GetUser (lib_mysql E) uid)) (\<lambda>user_info.
            case user_info of
              None \<Rightarrow> ret None
            | Some u \<Rightarrow>
                bnd (redis_op (redis_set (lib_redis E) base_key (toStyledString (lib_json E) (base_info_json uid u))))
                  (\<lambda>_. ret (Some u)))) (\<lambda>r.
     case r of None \<Rightarrow> ret (False, userinfo) | Some u \<Rightarrow> ret (True, u)))"

section \<open>ChatGrpcClient\<close>

text \<open>The constructor: a pool of five stubs for every configured server but this one.\<close>

definition add_pool ::
    "config_map \<Rightarrow> string \<Rightarrow> (string \<rightharpoonup> chat_stub conn_pool) \<Rightarrow> (string \<rightharpoonup> chat_stub conn_pool)" where
  "add_pool c server_name pools =
     (if \<not> settings_exists server_name c then pools
      else
        let host = settings_value (server_name @ ''/'' @ ''host'') [] c;
            rpc_port = settings_value (server_name @ ''/'' @ ''rpc_port'') [] c;
            name = settings_value (server_name @ ''/'' @ ''name'') [] c in
        if settings_value ''SelfServer/name'' [] c = name then pools
        else pools(name \<mapsto> ChatConPool 5 (\<lambda>i. (host @ '':'' @ rpc_port, i))))"

definition ChatGrpcClient :: "config_map \<Rightarrow> (string \<rightharpoonup> chat_stub conn_pool)" where
  "ChatGrpcClient c =
     (let servers = RemoveWhitespace (settings_value ''ChatServers/name'' [] c) in
      fold (add_pool c) (getline_split (CHR '','') servers) Map.empty)"

text \<open>
  \<open>getConnection\<close>, one call on the stub, and the \<open>Defer\<close> that returns the stub to the pool it
  came from. A null stub (the pool is stopped) is dereferenced.
\<close>

definition with_stub ::
    "string \<Rightarrow> (chat_stub \<Rightarrow> 'g \<Rightarrow> 'a option \<times> 'g) \<Rightarrow> chat_stub conn_pool \<Rightarrow>
     (('r, 'm, 'g) chat_server, 'a option) prog" where
  "with_stub server call pool s =
     (case chat_getConnection pool of
        (Val (Some stub), p) \<Rightarrow>
          (case call stub (rpc_peers s) of (rsp, g) \<Rightarrow>
             (Val rsp, s\<lparr>rpc_pools := (rpc_pools s)(server \<mapsto> chat_returnConnection stub p), rpc_peers := g\<rparr>))
      | (Val None, p) \<Rightarrow> (Crash, s)
      | (Exn e, p) \<Rightarrow> (Exn e, s)
      | (Waits, p) \<Rightarrow> (Waits, s)
      | (Crash, p) \<Rightarrow> (Crash, s))"

definition ChatGrpcClient_NotifyAddFriend ::
    "('r, 'm, 'g) chat_env \<Rightarrow> string \<Rightarrow> AddFriendReq \<Rightarrow> (('r, 'm, 'g) chat_server, AddFriendRsp) prog" where
  "ChatGrpcClient_NotifyAddFriend E server_ip req =
     bnd (gets (\<lambda>s. rpc_pools s server_ip)) (\<lambda>find_iter.
     case find_iter of
       None \<Rightarrow> ret (new_AddFriendRsp\<lparr>afr_error := error_code RPCFailed\<rparr>)
     | Some pool \<Rightarrow>
         bnd (with_stub server_ip (\<lambda>stub. lib_NotifyAddFriend E stub req) pool) (\<lambda>status.
         case status of
           None \<Rightarrow> ret (new_AddFriendRsp\<lparr>afr_error := error_code RPCFailed\<rparr>)
         | Some rsp \<Rightarrow> ret rsp))"

definition ChatGrpcClient_NotifyAuthFriend ::
    "('r, 'm, 'g) chat_env \<Rightarrow> string \<Rightarrow> AuthFriendReq \<Rightarrow> (('r, 'm, 'g) chat_server, AuthFriendRsp) prog" where
  "ChatGrpcClient_NotifyAuthFriend E server_ip req =
     bnd (gets (\<lambda>s. rpc_pools s server_ip)) (\<lambda>find_iter.
     case find_iter of
       None \<Rightarrow> ret (new_AuthFriendRsp\<lparr>aur_error := error_code RPCFailed\<rparr>)
     | Some pool \<Rightarrow>
         bnd (with_stub server_ip (\<lambda>stub. lib_NotifyAuthFriend E stub req) pool) (\<lambda>status.
         case status of
           None \<Rightarrow> ret (new_AuthFriendRsp\<lparr>aur_error := error_code RPCFailed\<rparr>)
         | Some rsp \<Rightarrow> ret rsp))"

text \<open>
  \<open>NotifyTextChatMsg\<close> returns its local \<open>rsp\<close>, which the first \<open>Defer\<close> completes when the function
  is left. The returned object is that local one (the compiler elides the copy of a named local
  variable), so the caller sees the completed fields.
\<close>

definition echo_text :: "TextChatMsgReq \<Rightarrow> TextChatMsgRsp \<Rightarrow> TextChatMsgRsp" where
  "echo_text req rsp = rsp\<lparr>tmr_fromuid := tm_fromuid req, tmr_touid := tm_touid req,
     tmr_msgid := tm_msgid req, tmr_content := tm_content req\<rparr>"

definition ChatGrpcClient_NotifyTextChatMsg ::
    "('r, 'm, 'g) chat_env \<Rightarrow> string \<Rightarrow> TextChatMsgReq \<Rightarrow> (('r, 'm, 'g) chat_server, TextChatMsgRsp) prog" where
  "ChatGrpcClient_NotifyTextChatMsg E server_ip req =
     (let rsp0 = new_TextChatMsgRsp\<lparr>tmr_error := error_code Success\<rparr> in
      bnd (gets (\<lambda>s. rpc_pools s server_ip)) (\<lambda>find_iter.
      case find_iter of
        None \<Rightarrow> ret (echo_text req rsp0)
      | Some pool \<Rightarrow>
          bnd (with_stub server_ip (\<lambda>stub. lib_NotifyTextChatMsg E stub req) pool) (\<lambda>status.
          case status of
            None \<Rightarrow> ret (echo_text req (rsp0\<lparr>tmr_error := error_code RPCFailed\<rparr>))
          | Some rsp \<Rightarrow> ret (echo_text req rsp))))"

section \<open>ChatServiceImpl\<close>

text \<open>
  The value is the reply message (\<open>Status::OK\<close> in every case); an exception that leaves a method
  reaches the gRPC runtime. The \<open>Defer\<close> of the first two methods fills the reply when they are left.
\<close>

definition ChatServiceImpl_NotifyAddFriend ::
    "('r, 'm, 'g) chat_env \<Rightarrow> AddFriendReq \<Rightarrow> (('r, 'm, 'g) chat_server, AddFriendRsp) prog" where
  "ChatServiceImpl_NotifyAddFriend E request =
     (let touid = af_touid request;
          reply = new_AddFriendRsp\<lparr>afr_error := error_code Success, afr_applyuid := af_applyuid request,
            afr_touid := af_touid request\<rparr> in
      bnd (gets (\<lambda>s. GetSession s touid)) (\<lambda>session.
      case session of
        None \<Rightarrow> ret reply
      | Some sid \<Rightarrow>
          let rtvalue =
            jset ''nick'' (JStr (af_nick request)) (
            jset ''sex'' (JInt (af_sex request)) (
            jset ''icon'' (JStr (af_icon request)) (
            jset ''desc'' (JStr (af_desc request)) (
            jset ''name'' (JStr (af_name request)) (
            jset ''applyuid'' (JInt (af_applyuid request)) (
            jset ''error'' (JInt (error_code Success)) JNull)))))) in
          bnd (session_send sid (toStyledString (lib_json E) rtvalue) ID_NOTIFY_ADD_FRIEND_REQ) (\<lambda>_.
          ret reply)))"

definition ChatServiceImpl_NotifyAuthFriend ::
    "('r, 'm, 'g) chat_env \<Rightarrow> AuthFriendReq \<Rightarrow> (('r, 'm, 'g) chat_server, AuthFriendRsp) prog" where
  "ChatServiceImpl_NotifyAuthFriend E request =
     (let touid = au_touid request; fromuid = au_fromuid request;
          reply = new_AuthFriendRsp\<lparr>aur_error := error_code Success, aur_fromuid := au_fromuid request,
            aur_touid := au_touid request\<rparr> in
      bnd (gets (\<lambda>s. GetSession s touid)) (\<lambda>session.
      case session of
        None \<Rightarrow> ret reply
      | Some sid \<Rightarrow>
          let rtvalue =
            jset ''touid'' (JInt (au_touid request)) (
            jset ''fromuid'' (JInt (au_fromuid request)) (
            jset ''error'' (JInt (error_code Success)) JNull));
            base_key = USER_BASE_INFO @ to_string fromuid in
          bnd (ChatServiceImpl_GetBaseInfo E base_key fromuid new_UserInfo) (\<lambda>(b_info, user_info).
          let rtvalue =
            (if b_info then
               jset ''sex'' (JInt (u_sex user_info)) (
               jset ''icon'' (JStr (u_icon user_info)) (
               jset ''nick'' (JStr (u_nick user_info)) (
               jset ''name'' (JStr (u_name user_info)) rtvalue)))
             else jset ''error'' (JInt (error_code UidInvalid)) rtvalue) in
          bnd (session_send sid (toStyledString (lib_json E) rtvalue) ID_NOTIFY_AUTH_FRIEND_REQ) (\<lambda>_.
          ret reply))))"

definition text_notification :: "int \<Rightarrow> int \<Rightarrow> string \<Rightarrow> string \<Rightarrow> int \<Rightarrow> int \<Rightarrow> json" where
  "text_notification fromuid touid msgid content send_time msg_type =
     jset ''msg_type'' (JInt msg_type) (
     jset ''send_time'' (JInt send_time) (
     jset ''content'' (JStr content) (
     jset ''msg_id'' (JStr msgid) (
     jset ''to_uid'' (JInt touid) (
     jset ''from_uid'' (JInt fromuid) (
     jset ''error'' (JInt (error_code Success)) JNull))))))"

definition ChatServiceImpl_NotifyTextChatMsg ::
    "('r, 'm, 'g) chat_env \<Rightarrow> TextChatMsgReq \<Rightarrow> (('r, 'm, 'g) chat_server, TextChatMsgRsp) prog" where
  "ChatServiceImpl_NotifyTextChatMsg E request =
     (let touid = tm_touid request; response = new_TextChatMsgRsp\<lparr>tmr_error := error_code Success\<rparr> in
      bnd (gets (\<lambda>s. GetSession s touid)) (\<lambda>session.
      case session of
        None \<Rightarrow> ret response
      | Some sid \<Rightarrow>
          let rtvalue = text_notification (tm_fromuid request) (tm_touid request) (tm_msgid request)
                (tm_content request) (tm_send_time request) (tm_msg_type request) in
          bnd (session_send sid (toStyledString (lib_json E) rtvalue) ID_NOTIFY_TEXT_CHAT_MSG_REQ) (\<lambda>_.
          ret response)))"

end
