(* ===== verification/ChatLogic.thy ===== *)
theory ChatLogic
  imports ChatGrpc
begin

text \<open>
  \<open>LogicSystem\<close> of the chat server: the table of message callbacks, the dispatch of received
  messages, and the seven handlers with the lookups they share.

  A handler is a \<open>prog\<close> on the server state; its arguments are the environment, the session the
  message came from and the text of the message. The thread pool runs one task per message and
  catches what it throws. The JSON reply under construction is a local variable that the
  handler's \<open>Defer\<close> sends when the handler is left (\<open>with_defer\<close>).
\<close>

section \<open>Looking users up\<close>

definition GetBaseInfo ::
    "('r, 'm, 'g) chat_env \<Rightarrow> int \<Rightarrow> UserInfo \<Rightarrow> (('r, 'm, 'g) chat_server, bool \<times> UserInfo) prog" where
  "GetBaseInfo E uid userinfo =
     (let base_key = USER_BASE_INFO @ to_string uid in
      bnd (redis_op (redis_get (lib_redis E) base_key [])) (\<lambda>(b_base, info_str).
      if b_base then
        bnd (read_base_info (lib_json E) (snd (jparse (lib_json E) info_str)) userinfo) (\<lambda>u. ret (True, u))
      else
        bnd (mysql_op (MySQLManager_GetUser (lib_mysql E) uid)) (\<lambda>user_info.
        case user_info of
          None \<Rightarrow> ret (False, userinfo)
        | Some u \<Rightarrow>
            bnd (redis_op (redis_set (lib_redis E) base_key (toStyledString (lib_json E) (base_info_json uid u)))) (\<lambda>_.
            ret (True, u)))))"

text \<open>The members that \<open>GetUserByUid\<close> and \<open>GetUserByName\<close> set in the reply.\<close>

definition set_user_members :: "UserInfo \<Rightarrow> json \<Rightarrow> json" where
  "set_user_members u rt_value =
     jset ''icon'' (JStr (u_icon u)) (
     jset ''sex'' (JInt (u_sex u)) (
     jset ''desc'' (JStr (u_desc u)) (
     jset ''nick'' (JStr (u_nick u)) (
     jset ''email'' (JStr (u_email u)) (
     jset ''name'' (JStr (u_name u)) (
     jset ''pwd'' (JStr (u_pwd u)) (
     jset ''uid'' (JInt (u_uid u)) rt_value)))))))"

definition set_error :: "ErrorCodes \<Rightarrow> json \<Rightarrow> json" where
  "set_error e = jset ''error'' (JInt (error_code e))"

definition GetUserByUid ::
    "('r, 'm, 'g) chat_env \<Rightarrow> string \<Rightarrow> (('r, 'm, 'g) chat_server \<times> json, unit) prog" where
  "GetUserByUid E uid_str =
     bnd (local_upd (set_error Success)) (\<lambda>_.
     let base_key = USER_BASE_INFO @ uid_str in
     bnd (outer (redis_op (redis_get (lib_redis E) base_key []))) (\<lambda>(b_base, info_str).
     if b_base then
       bnd (read_base_info (lib_json E) (snd (jparse (lib_json E) info_str)) new_UserInfo) (\<lambda>u.
       local_upd (set_user_members u))
     else
       bnd (from_sum (stoi uid_str)) (\<lambda>uid.
       bnd (outer (mysql_op (MySQLManager_GetUser (lib_mysql E) uid))) (\<lambda>user_info.
       case user_info of
         None \<Rightarrow> local_upd (set_error UidInvalid)
       | Some u \<Rightarrow>
           bnd (outer (redis_op (redis_set (lib_redis E) base_key
                  (toStyledString (lib_json E) (base_info_json (u_uid u) u))))) (\<lambda>_.
           local_upd (set_user_members u))))))"

definition GetUserByName ::
    "('r, 'm, 'g) chat_env \<Rightarrow> string \<Rightarrow> (('r, 'm, 'g) chat_server \<times> json, unit) prog" where
  "GetUserByName E username_str =
     bnd (local_upd (set_error Success)) (\<lambda>_.
     let base_key = USER_BASE_INFO @ username_str in
     bnd (outer (redis_op (redis_get (lib_redis E) base_key []))) (\<lambda>(b_base, info_str).
     if b_base then
       bnd (read_base_info (lib_json E) (snd (jparse (lib_json E) info_str)) new_UserInfo) (\<lambda>u.
       local_upd (set_user_members u))
     else
       bnd (outer (mysql_op (MySQLManager_GetUser_name (lib_mysql E) username_str))) (\<lambda>user_info.
       case user_info of
         None \<Rightarrow> local_upd (set_error UserNotExist)
       | Some u \<Rightarrow>
           bnd (outer (redis_op (redis_set (lib_redis E) base_key
                  (toStyledString (lib_json E) (base_info_json (u_uid u) u))))) (\<lambda>_.
           local_upd (set_user_members u)))))"

definition isPureDigit :: "string \<Rightarrow> bool" where
  "isPureDigit str \<longleftrightarrow> (\<forall>c \<in> set str. is_digit c)"

definition GetFriendApplyInfo ::
    "('r, 'm, 'g) chat_env \<Rightarrow> int \<Rightarrow> (('r, 'm, 'g) chat_server, bool \<times> ApplyInfo list) prog" where
  "GetFriendApplyInfo E self_id =
     mysql_op (\<lambda>m. case MySQLManager_GetApplyList (lib_mysql E) self_id 0 10 (m, []) of (r, (m', list)) \<Rightarrow>
       (case r of Val b \<Rightarrow> Val (b, list) | Exn e \<Rightarrow> Exn e | Waits \<Rightarrow> Waits | Crash \<Rightarrow> Crash, m'))"

definition GetFriendList ::
    "('r, 'm, 'g) chat_env \<Rightarrow> int \<Rightarrow> (('r, 'm, 'g) chat_server, bool \<times> UserInfo list) prog" where
  "GetFriendList E self_id =
     mysql_op (\<lambda>m. case MySQLManager_GetFriendList (lib_mysql E) self_id (m, []) of (r, (m', user_list)) \<Rightarrow>
       (case r of Val b \<Rightarrow> Val (b, user_list) | Exn e \<Rightarrow> Exn e | Waits \<Rightarrow> Waits | Crash \<Rightarrow> Crash, m'))"

section \<open>LoginHandler\<close>

text \<open>UTF-8: ``uid wu xiao'' and ``Token shi xiao'' of the error messages.\<close>

definition uid_invalid_text :: string where
  "uid_invalid_text = ''uid'' @ bytes [0xE6, 0x97, 0xA0, 0xE6, 0x95, 0x88]"

definition token_invalid_text :: string where
  "token_invalid_text = ''Token'' @ bytes [0xE5, 0xA4, 0xB1, 0xE6, 0x95, 0x88]"

definition apply_json :: "ApplyInfo \<Rightarrow> json" where
  "apply_json apply =
     jset ''status'' (JInt (a_status apply)) (
     jset ''desc'' (JStr (a_desc apply)) (
     jset ''sex'' (JInt (a_sex apply)) (
     jset ''nick'' (JStr (a_nick apply)) (
     jset ''icon'' (JStr (a_icon apply)) (
     jset ''uid'' (JInt (a_uid apply)) (
     jset ''name'' (JStr (a_name apply)) JNull))))))"

definition friend_json :: "UserInfo \<Rightarrow> json" where
  "friend_json friend_ele =
     jset ''back'' (JStr (u_back friend_ele)) (
     jset ''desc'' (JStr (u_desc friend_ele)) (
     jset ''sex'' (JInt (u_sex friend_ele)) (
     jset ''nick'' (JStr (u_nick friend_ele)) (
     jset ''icon'' (JStr (u_icon friend_ele)) (
     jset ''uid'' (JInt (u_uid friend_ele)) (
     jset ''name'' (JStr (u_name friend_ele)) JNull))))))"

definition login_members :: "int \<Rightarrow> UserInfo \<Rightarrow> json \<Rightarrow> json" where
  "login_members uid user_info rtvalue =
     jset ''icon'' (JStr (u_icon user_info)) (
     jset ''sex'' (JInt (u_sex user_info)) (
     jset ''desc'' (JStr (u_desc user_info)) (
     jset ''nick'' (JStr (u_nick user_info)) (
     jset ''email'' (JStr (u_email user_info)) (
     jset ''name'' (JStr (u_name user_info)) (
     jset ''pwd'' (JStr (u_pwd user_info)) (
     jset ''uid'' (JInt uid) rtvalue)))))))"

text \<open>
  The inner block: the value is false when it leaves the handler with \<open>return\<close>. The log lines
  read \<open>rtvalue["apply_list"]\<close> and \<open>rtvalue["friend_list"]\<close>, which creates the members.
\<close>

definition login_block ::
    "('r, 'm, 'g) chat_env \<Rightarrow> int \<Rightarrow> string \<Rightarrow> (('r, 'm, 'g) chat_server \<times> json, bool) prog" where
  "login_block E uid token =
     bnd (outer (redis_op (redis_get (lib_redis E) (USERTOKENPREFIX @ to_string uid) []))) (\<lambda>(success, token_value).
     if \<not> success then
       bnd (local_upd (\<lambda>rt. set_error UidInvalid (jset ''error_msg'' (JStr uid_invalid_text) rt))) (\<lambda>_. ret False)
     else if token_value \<noteq> token then
       bnd (local_upd (\<lambda>rt. set_error TokenInvalid (jset ''error_msg'' (JStr token_invalid_text) rt))) (\<lambda>_. ret False)
     else
       bnd (local_upd (set_error Success)) (\<lambda>_.
       bnd (outer (GetBaseInfo E uid new_UserInfo)) (\<lambda>(b_base, user_info).
       if \<not> b_base then
         bnd (local_upd (\<lambda>rt. set_error UidInvalid (jset ''error_msg'' (JStr uid_invalid_text) rt))) (\<lambda>_. ret False)
       else
         bnd (local_upd (login_members uid user_info)) (\<lambda>_.
         bnd (outer (GetFriendApplyInfo E uid)) (\<lambda>(b_apply, apply_list).
         bnd (if b_apply then
                local_upd (\<lambda>rt. jtouch ''apply_list''
                  (fold (\<lambda>apply. jappend_at ''apply_list'' (apply_json apply)) apply_list rt))
              else ret ()) (\<lambda>_.
         bnd (outer (GetFriendList E uid)) (\<lambda>(b_friend_list, friend_list).
         bnd (local_upd (fold (\<lambda>friend_ele. jappend_at ''friend_list'' (friend_json friend_ele)) friend_list)) (\<lambda>_.
         bnd (if b_friend_list then local_upd (jtouch ''friend_list'') else ret ()) (\<lambda>_.
         ret True)))))))))"

definition recent_json :: "ChatMessage \<Rightarrow> json" where
  "recent_json msg =
     jset ''status'' (JInt (cm_status msg)) (
     jset ''send_time'' (JInt (cm_send_time msg)) (
     jset ''msg_type'' (JInt (cm_msg_type msg)) (
     jset ''content'' (JStr (cm_content msg)) (
     jset ''to_uid'' (JInt (cm_to_uid msg)) (
     jset ''from_uid'' (JInt (cm_from_uid msg)) (
     jset ''msg_id'' (JStr (cm_msg_id msg)) JNull))))))"

text \<open>The login counter of this server; \<open>count++\<close> at the largest \<open>int\<close> is undefined.\<close>

definition login_count :: "string \<Rightarrow> bool \<Rightarrow> (cpp_exn + int)" where
  "login_count rd_res found = (if rd_res \<noteq> [] \<and> found then stoi rd_res else Inr 0)"

definition count_login :: "('r, 'm, 'g) chat_env \<Rightarrow> (('r, 'm, 'g) chat_server, unit) prog" where
  "count_login E =
     bnd (redis_op (hget (lib_redis E) LOGIN_COUNT (self_server_name E) [])) (\<lambda>(found, rd_res).
     bnd (from_sum (login_count rd_res found)) (\<lambda>count.
     if count = INT_MAX then crash
     else bnd (redis_op (hset (lib_redis E) LOGIN_COUNT (self_server_name E) (to_string (count + 1)))) (\<lambda>_. ret ())))"

definition bind_user :: "('r, 'm, 'g) chat_env \<Rightarrow> string \<Rightarrow> int \<Rightarrow> (('r, 'm, 'g) chat_server, unit) prog" where
  "bind_user E session uid =
     bnd (on_session session (set_user_id uid)) (\<lambda>_.
     bnd (redis_op (redis_set (lib_redis E) (USERIPPREFIX @ to_string uid) (self_server_name E))) (\<lambda>_.
     upd (SetUserSession uid session)))"

definition recent_response :: "ChatMessage list \<Rightarrow> json" where
  "recent_response messages =
     set_error Success (fold (\<lambda>msg. jappend_at ''messages'' (recent_json msg)) (rev messages) JNull)"

definition send_recent :: "('r, 'm, 'g) chat_env \<Rightarrow> string \<Rightarrow> int \<Rightarrow> (('r, 'm, 'g) chat_server, unit) prog" where
  "send_recent E session uid =
     bnd (mysql_op (MySQLManager_GetRecentMessages (lib_mysql E) (stringToTimestamp E) uid 100 0)) (\<lambda>messages.
     session_send session (toStyledString (lib_json E) (recent_response messages)) ID_LOGIN_LOAD_UNREAD_CHAT_MSG)"

definition LoginHandler ::
    "('r, 'm, 'g) chat_env \<Rightarrow> string \<Rightarrow> string \<Rightarrow> (('r, 'm, 'g) chat_server, unit) prog" where
  "LoginHandler E session msg_data =
     (let root = snd (jparse (lib_json E) msg_data) in
      bnd (json_int (lib_json E) root ''uid'') (\<lambda>uid.
      bnd (json_str (lib_json E) root ''token'') (\<lambda>token.
      bnd (with_defer JNull (login_block E uid token)
             (\<lambda>rtvalue. session_send session (toStyledString (lib_json E) rtvalue) MSG_CHAT_LOGIN_RSP)) (\<lambda>go_on.
      if \<not> go_on then ret ()
      else
        bnd (count_login E) (\<lambda>_.
        bnd (bind_user E session uid) (\<lambda>_.
        send_recent E session uid))))))"

section \<open>Searching and friends\<close>

definition SearchInfoHandler ::
    "('r, 'm, 'g) chat_env \<Rightarrow> string \<Rightarrow> string \<Rightarrow> (('r, 'm, 'g) chat_server, unit) prog" where
  "SearchInfoHandler E session msg_data =
     (let root = snd (jparse (lib_json E) msg_data) in
      bnd (json_str (lib_json E) root ''uid'') (\<lambda>uid_str.
      with_defer JNull (GetUserByName E uid_str)
        (\<lambda>rtvalue. session_send session (toStyledString (lib_json E) rtvalue) ID_SEARCH_USER_RSP)))"

text \<open>\<open>RedisManager::get\<close> of the user's server: the flag and the name.\<close>

definition server_of_user ::
    "('r, 'm, 'g) chat_env \<Rightarrow> int \<Rightarrow> (('r, 'm, 'g) chat_server, bool \<times> string) prog" where
  "server_of_user E touid = redis_op (redis_get (lib_redis E) (USERIPPREFIX @ to_string touid) [])"

definition add_friend_body ::
    "('r, 'm, 'g) chat_env \<Rightarrow> int \<Rightarrow> string \<Rightarrow> int \<Rightarrow> (('r, 'm, 'g) chat_server \<times> json, unit) prog" where
  "add_friend_body E uid applyname touid =
     bnd (outer (mysql_op (MySQLManager_AddFriendApply (lib_mysql E) uid touid))) (\<lambda>_.
     bnd (outer (server_of_user E touid)) (\<lambda>(b_ip, to_ip_value).
     if \<not> b_ip then local_upd (set_error UidInvalid)
     else
       bnd (outer (GetBaseInfo E uid new_UserInfo)) (\<lambda>(b_info, apply_info).
       if to_ip_value = self_server_name E then
         bnd (gets (\<lambda>(s, _). GetSession s touid)) (\<lambda>to_session.
         case to_session of
           None \<Rightarrow> local_upd (set_error UidInvalid)
         | Some sid \<Rightarrow>
             let notify =
               jset ''desc'' (JStr []) (
               jset ''name'' (JStr applyname) (
               jset ''applyuid'' (JInt uid) (
               set_error Success JNull)));
               notify = (if b_info then
                  jset ''nick'' (JStr (u_nick apply_info)) (
                  jset ''sex'' (JInt (u_sex apply_info)) (
                  jset ''icon'' (JStr (u_icon apply_info)) notify)) else notify) in
             outer (session_send sid (toStyledString (lib_json E) notify) ID_NOTIFY_ADD_FRIEND_REQ))
       else
         let add_req = new_AddFriendReq\<lparr>af_applyuid := uid, af_touid := touid, af_name := applyname, af_desc := []\<rparr>;
             add_req = (if b_info then
                add_req\<lparr>af_icon := u_icon apply_info, af_sex := u_sex apply_info, af_nick := u_nick apply_info\<rparr>
              else add_req) in
         bnd (outer (ChatGrpcClient_NotifyAddFriend E to_ip_value add_req)) (\<lambda>_. ret ()))))"

definition AddFriendApplyHandler ::
    "('r, 'm, 'g) chat_env \<Rightarrow> string \<Rightarrow> string \<Rightarrow> (('r, 'm, 'g) chat_server, unit) prog" where
  "AddFriendApplyHandler E session msg_data =
     (let root = snd (jparse (lib_json E) msg_data) in
      bnd (json_int (lib_json E) root ''uid'') (\<lambda>uid.
      bnd (json_str (lib_json E) root ''applyname'') (\<lambda>applyname.
      bnd (json_str (lib_json E) root ''bakname'') (\<lambda>bakname.
      bnd (json_int (lib_json E) root ''touid'') (\<lambda>touid.
      with_defer (set_error Success JNull) (add_friend_body E uid applyname touid)
        (\<lambda>rtvalue. session_send session (toStyledString (lib_json E) rtvalue) ID_ADD_FRIEND_RSP))))))"

definition auth_friend_body ::
    "('r, 'm, 'g) chat_env \<Rightarrow> int \<Rightarrow> string \<Rightarrow> int \<Rightarrow> (('r, 'm, 'g) chat_server \<times> json, unit) prog" where
  "auth_friend_body E fromuid back_name touid =
     bnd (outer (GetBaseInfo E touid new_UserInfo)) (\<lambda>(b_info, user_info).
     bnd (if b_info then
            local_upd (\<lambda>rt.
              jset ''uid'' (JInt touid) (
              jset ''sex'' (JInt (u_sex user_info)) (
              jset ''icon'' (JStr (u_icon user_info)) (
              jset ''nick'' (JStr (u_nick user_info)) (
              jset ''name'' (JStr (u_name user_info)) rt)))))
          else local_upd (set_error UidInvalid)) (\<lambda>_.
     bnd (outer (mysql_op (MySQLManager_AuthFriendApply (lib_mysql E) fromuid touid))) (\<lambda>_.
     bnd (outer (mysql_op (MySQLManager_AddFriend (lib_mysql E) fromuid touid back_name))) (\<lambda>add_success.
     bnd (outer (server_of_user E touid)) (\<lambda>(b_ip, to_ip_value).
     if \<not> b_ip then local_upd (set_error UidInvalid)
     else if to_ip_value = self_server_name E then
       bnd (gets (\<lambda>(s, _). GetSession s touid)) (\<lambda>to_session.
       case to_session of
         None \<Rightarrow> local_upd (set_error UidInvalid)
       | Some sid \<Rightarrow>
           let notify =
             jset ''touid'' (JInt touid) (
             jset ''fromuid'' (JInt fromuid) (
             set_error Success JNull)) in
           bnd (outer (GetBaseInfo E fromuid new_UserInfo)) (\<lambda>(b_info, apply_info).
           let notify =
             (if b_info then
                jset ''sex'' (JInt (u_sex apply_info)) (
                jset ''icon'' (JStr (u_icon apply_info)) (
                jset ''nick'' (JStr (u_nick apply_info)) (
                jset ''name'' (JStr (u_name apply_info)) notify)))
              else set_error UidInvalid notify) in
           outer (session_send sid (toStyledString (lib_json E) notify) ID_NOTIFY_AUTH_FRIEND_REQ)))
     else
       bnd (outer (ChatGrpcClient_NotifyAuthFriend E to_ip_value \<lparr>au_fromuid = fromuid, au_touid = touid\<rparr>)) (\<lambda>_.
       ret ()))))))"

definition AuthFriendApplyHandler ::
    "('r, 'm, 'g) chat_env \<Rightarrow> string \<Rightarrow> string \<Rightarrow> (('r, 'm, 'g) chat_server, unit) prog" where
  "AuthFriendApplyHandler E session msg_data =
     (let root = snd (jparse (lib_json E) msg_data) in
      bnd (json_int (lib_json E) root ''fromuid'') (\<lambda>fromuid.
      bnd (json_str (lib_json E) root ''back_name'') (\<lambda>back_name.
      bnd (json_int (lib_json E) root ''touid'') (\<lambda>touid.
      bnd (json_str (lib_json E) root ''apply_name'') (\<lambda>apply_name.
      with_defer (set_error Success JNull) (auth_friend_body E fromuid back_name touid)
        (\<lambda>rtvalue. session_send session (toStyledString (lib_json E) rtvalue) ID_AUTH_FRIEND_RSP))))))"

section \<open>Text messages\<close>

definition json_int64 :: "jsoncpp \<Rightarrow> json \<Rightarrow> string \<Rightarrow> ('s, int) prog" where
  "json_int64 J root key = from_option JsonLogicError (Option.bind (jmember J root key) (asInt64 J))"

definition text_reply :: "int \<Rightarrow> int \<Rightarrow> string \<Rightarrow> int \<Rightarrow> int \<Rightarrow> json" where
  "text_reply uid touid content timeStamp msg_type =
     jset ''msg_type'' (JInt msg_type) (
     jset ''send_time'' (JInt timeStamp) (
     jset ''content'' (JStr content) (
     jset ''to_uid'' (JInt touid) (
     jset ''from_uid'' (JInt uid) (
     set_error Success JNull)))))"

definition text_body ::
    "('r, 'm, 'g) chat_env \<Rightarrow> TextChatMsgReq \<Rightarrow> (('r, 'm, 'g) chat_server \<times> json, unit) prog" where
  "text_body E req =
     bnd (outer (server_of_user E (tm_touid req))) (\<lambda>(b_ip, to_ip_value).
     if \<not> b_ip then local_upd (set_error UidInvalid)
     else if to_ip_value = self_server_name E then
       bnd (gets (\<lambda>(s, _). GetSession s (tm_touid req))) (\<lambda>to_session.
       case to_session of
         None \<Rightarrow> local_upd (set_error UidInvalid)
       | Some sid \<Rightarrow>
           bnd (gets snd) (\<lambda>rtvalue.
           outer (session_send sid (toStyledString (lib_json E) rtvalue) ID_NOTIFY_TEXT_CHAT_MSG_REQ)))
     else
       bnd (outer (ChatGrpcClient_NotifyTextChatMsg E to_ip_value req)) (\<lambda>_. ret ()))"

text \<open>
  \<open>clock\<close>: the two clock readings of \<open>CacheNewMessage\<close>, which is called with its default message type.
  The six accesses of \<open>root\<close> add the members that are missing, so that \<open>parseJson\<close> finds null there and
  not its defaults.
\<close>

definition DealChatTextMsgHandler ::
    "('r, 'm, 'g) chat_env \<Rightarrow> int \<times> int \<Rightarrow> string \<Rightarrow> string \<Rightarrow> (('r, 'm, 'g) chat_server, unit) prog" where
  "DealChatTextMsgHandler E clock session msg_data =
     (let J = lib_json E; root = snd (jparse J msg_data) in
      bnd (json_int J root ''from_uid'') (\<lambda>uid.
      bnd (json_int J root ''to_uid'') (\<lambda>touid.
      bnd (json_str J root ''content'') (\<lambda>content.
      bnd (json_str J root ''msg_id'') (\<lambda>msgid.
      bnd (json_int64 J root ''send_time'') (\<lambda>timeStamp.
      bnd (json_int J root ''msg_type'') (\<lambda>msg_type.
      case ChatMessage_parseJson J
          (jtouch_all [''from_uid'', ''to_uid'', ''content'', ''msg_id'', ''send_time'', ''msg_type''] root) new_ChatMessage of
        (Exn e, _) \<Rightarrow> raise e
      | (Waits, _) \<Rightarrow> waits
      | (Crash, _) \<Rightarrow> crash
      | (Val _, chat_message) \<Rightarrow>
      bnd (mysql_op (MySQLManager_SaveChatMessage_msg (lib_mysql E) chat_message)) (\<lambda>saved.
      if \<not> saved then ret ()
      else
        bnd (redis_op (CacheNewMessage (lib_redis E) (fst clock) (snd clock) uid touid msgid content 1)) (\<lambda>_.
        with_defer (text_reply uid touid content timeStamp msg_type)
          (text_body E \<lparr>tm_fromuid = uid, tm_touid = touid, tm_msgid = msgid, tm_content = content,
             tm_send_time = timeStamp, tm_msg_type = msg_type\<rparr>)
          (\<lambda>rtvalue. session_send session (toStyledString J rtvalue) ID_TEXT_CHAT_MSG_RSP))))))))))"

section \<open>History and read marks\<close>

definition history_json :: "ChatMessage \<Rightarrow> json" where
  "history_json msg =
     jset ''status'' (JInt (cm_status msg)) (
     jset ''send_time'' (JInt (cm_send_time msg)) (
     jset ''msg_type'' (JInt (cm_msg_type msg)) (
     jset ''content'' (JStr (cm_content msg)) (
     jset ''touid'' (JInt (cm_to_uid msg)) (
     jset ''fromuid'' (JInt (cm_from_uid msg)) (
     jset ''msgid'' (JStr (cm_msg_id msg)) JNull))))))"

text \<open>\<open>clock i\<close>: the clock readings of the \<open>i\<close>-th call of \<open>CacheNewMessage\<close>.\<close>

definition recache ::
    "('r, 'm, 'g) chat_env \<Rightarrow> (nat \<Rightarrow> int \<times> int) \<Rightarrow> ChatMessage list \<Rightarrow> (('r, 'm, 'g) chat_server, unit) prog" where
  "recache E clock db_messages =
     forM (\<lambda>(i, msg).
       bnd (redis_op (CacheNewMessage (lib_redis E) (fst (clock i)) (snd (clock i))
              (cm_from_uid msg) (cm_to_uid msg) (cm_msg_id msg) (cm_content msg) (cm_msg_type msg))) (\<lambda>_.
       ret ())) (enumerate 0 db_messages)"

definition GetHistoryMessages ::
    "('r, 'm, 'g) chat_env \<Rightarrow> (nat \<Rightarrow> int \<times> int) \<Rightarrow> string \<Rightarrow> string \<Rightarrow> (('r, 'm, 'g) chat_server, unit) prog" where
  "GetHistoryMessages E clock session msg_data =
     (let J = lib_json E; root = snd (jparse J msg_data) in
      bnd (json_int J root ''uid'') (\<lambda>uid.
      bnd (json_int J root ''peer_id'') (\<lambda>peer_id.
      bnd (redis_op (GetRecentMessages (lib_redis E) uid 50)) (\<lambda>messages.
      bnd (if length messages < 50 then
             bnd (mysql_op (MySQLManager_GetRecentMessages (lib_mysql E) (stringToTimestamp E) uid
                    (50 - int (length messages)) 0)) (\<lambda>db_messages.
             bnd (recache E clock db_messages) (\<lambda>_.
             ret (messages @ db_messages)))
           else ret messages) (\<lambda>messages.
      let response = fold (\<lambda>msg. jappend_at ''messages'' (history_json msg)) messages JNull in
      session_send session (toStyledString J (set_error Success response)) ID_GET_HISTORY_MSG_RSP)))))"

definition MarkMessagesRead ::
    "('r, 'm, 'g) chat_env \<Rightarrow> string \<Rightarrow> string \<Rightarrow> (('r, 'm, 'g) chat_server, unit) prog" where
  "MarkMessagesRead E session msg_data =
     (let J = lib_json E; root = snd (jparse J msg_data) in
      bnd (json_int J root ''uid'') (\<lambda>uid.
      bnd (json_int J root ''peer_id'') (\<lambda>peer_id.
      bnd (mysql_op (MySQLManager_MarkMessagesAsRead (lib_mysql E) uid peer_id)) (\<lambda>db_success.
      bnd (redis_op (cache_MarkMessagesAsRead (lib_redis E) uid peer_id)) (\<lambda>cache_success.
      session_send session
        (toStyledString J (set_error (if db_success \<and> cache_success then Success else DbError) JNull))
        ID_MARK_MSG_READ_RSP)))))"

section \<open>Callbacks\<close>

text \<open>
  \<open>_handle_callbacks\<close> maps message ids to handlers. \<open>postMsgToQue\<close> gives the task that the thread pool
  gets, none when the system is stopped or the id is unknown; the task's message text is the
  node's buffer up to the first NUL. The worker of the pool catches what a task throws.
\<close>

type_synonym ('r, 'm, 'g) msg_handle_callback =
  "(nat \<Rightarrow> int \<times> int) \<Rightarrow> string \<Rightarrow> string \<Rightarrow> (('r, 'm, 'g) chat_server, unit) prog"

record ('r, 'm, 'g) LogicSystem =
  ls_b_stop :: bool
  handle_callbacks :: "i16 \<rightharpoonup> ('r, 'm, 'g) msg_handle_callback"

definition find_callback ::
    "('r, 'm, 'g) LogicSystem \<Rightarrow> i16 \<Rightarrow> ('r, 'm, 'g) msg_handle_callback option" where
  "find_callback L i = handle_callbacks L i"

definition registerMsgCallBacks ::
    "i16 \<Rightarrow> ('r, 'm, 'g) msg_handle_callback \<Rightarrow> ('r, 'm, 'g) LogicSystem \<Rightarrow> ('r, 'm, 'g) LogicSystem" where
  "registerMsgCallBacks i handler L = L\<lparr>handle_callbacks := (handle_callbacks L)(i \<mapsto> handler)\<rparr>"

definition unregisterMsgCallBacks :: "i16 \<Rightarrow> ('r, 'm, 'g) LogicSystem \<Rightarrow> ('r, 'm, 'g) LogicSystem" where
  "unregisterMsgCallBacks i L = L\<lparr>handle_callbacks := (handle_callbacks L)(i := None)\<rparr>"

interpretation callbacks: erasable find_callback registerMsgCallBacks unregisterMsgCallBacks
  by unfold_locales (simp_all add: find_callback_def registerMsgCallBacks_def unregisterMsgCallBacks_def)

definition LogicSystem_callbacks ::
    "('r, 'm, 'g) chat_env \<Rightarrow> (i16 \<times> ('r, 'm, 'g) msg_handle_callback) list" where
  "LogicSystem_callbacks E =
     [(msg_id MSG_CHAT_LOGIN, \<lambda>_. LoginHandler E),
      (msg_id ID_SEARCH_USER_REQ, \<lambda>_. SearchInfoHandler E),
      (msg_id ID_ADD_FRIEND_REQ, \<lambda>_. AddFriendApplyHandler E),
      (msg_id ID_AUTH_FRIEND_REQ, \<lambda>_. AuthFriendApplyHandler E),
      (msg_id ID_TEXT_CHAT_MSG_REQ, \<lambda>clock. DealChatTextMsgHandler E (clock 0)),
      (msg_id ID_GET_HISTORY_MSG_REQ, GetHistoryMessages E),
      (msg_id ID_MARK_MSG_READ_REQ, \<lambda>_. MarkMessagesRead E)]"

definition new_LogicSystem :: "('r, 'm, 'g) chat_env \<Rightarrow> ('r, 'm, 'g) LogicSystem" where
  "new_LogicSystem E =
     fold (\<lambda>(i, handler). registerMsgCallBacks i handler) (LogicSystem_callbacks E)
       \<lparr>ls_b_stop = False, handle_callbacks = Map.empty\<rparr>"

definition postMsgToQue ::
    "('r, 'm, 'g) LogicSystem \<Rightarrow> string \<Rightarrow> RecvNode \<Rightarrow>
     ((nat \<Rightarrow> int \<times> int) \<Rightarrow> (('r, 'm, 'g) chat_server, unit) prog) option" where
  "postMsgToQue L session recv_node =
     (if ls_b_stop L then None
      else (case find_callback L (recv_msg_id recv_node) of
              None \<Rightarrow> None
            | Some call_back \<Rightarrow> Some (\<lambda>clock. call_back clock session (c_str (node_data recv_node)))))"

definition run_task :: "(('r, 'm, 'g) chat_server, unit) prog \<Rightarrow> (('r, 'm, 'g) chat_server, unit) prog" where
  "run_task task = catching task (\<lambda>_. ret ())"

end
