(* ===== verification/ChatLogicFacts.thy ===== *)
theory ChatLogicFacts
  imports ChatLogic
begin

text \<open>What the handlers of the chat server do.\<close>

section \<open>A concrete server\<close>

text \<open>
  A server ``chat1'' with one Redis and two MySQL connections, an empty database and the sessions
  ``s1'' and ``s2'', the latter bound to user 2, for the examples below. Its JSON library reads the
  given value from every text and prints every value as two characters.
\<close>

definition demo_json :: "json \<Rightarrow> jsoncpp" where
  "demo_json root = ref_json\<lparr>jparse := (\<lambda>_. (True, root)), toStyledString := (\<lambda>_. ''{}'')\<rparr>"

definition demo_env :: "json \<Rightarrow> (keyspace, unit, unit) chat_env" where
  "demo_env root = \<lparr>lib_json = demo_json root, lib_redis = ref_redis, lib_mysql = table_driver (\<lambda>_ _. []),
     lib_NotifyAddFriend = (\<lambda>_ _ g. (None, g)), lib_NotifyAuthFriend = (\<lambda>_ _ g. (None, g)),
     lib_NotifyTextChatMsg = (\<lambda>_ _ g. (None, g)), stringToTimestamp = (\<lambda>_. 0),
     cfg = [''SelfServer'' \<mapsto> [''name'' \<mapsto> ''chat1'']]\<rparr>"

definition demo_server :: "keyspace \<Rightarrow> (keyspace, unit, unit) chat_server" where
  "demo_server ks = \<lparr>redis_mgr = \<lparr>redis_pool = \<lparr>connections = [0], is_stop = False\<rparr>, redis_server = ks\<rparr>,
     mysql_mgr = \<lparr>mysql_pool = \<lparr>connections = [\<lparr>sql_connection = 0, last_oper_time = 0\<rparr>, \<lparr>sql_connection = 1, last_oper_time = 0\<rparr>],
       is_stop = False\<rparr>, mysql_server = ()\<rparr>,
     session_objs = [''s1'' \<mapsto> new_CSession ''s1'' 0, ''s2'' \<mapsto> new_CSession ''s2'' 2],
     server_sessions = {''s1'', ''s2''}, uid_to_session = [2 \<mapsto> ''s2''], rpc_pools = Map.empty, rpc_peers = ()\<rparr>"

lemma demo_json_documented: "json_documented (demo_json root)"
  using ref_json_documented by (simp add: json_documented_def demo_json_def)

lemma demo_simps [simp]:
  "lib_json (demo_env root) = demo_json root" "lib_redis (demo_env root) = ref_redis"
  "lib_mysql (demo_env root) = table_driver (\<lambda>_ _. [])"
  "jparse (demo_json root) txt = (True, root)" "toStyledString (demo_json root) v = ''{}''"
  "redis_up (redis_mgr (demo_server ks))" "redis_server (redis_mgr (demo_server ks)) = ks"
  "session_objs (demo_server ks) ''s1'' = Some (new_CSession ''s1'' 0)"
  "session_objs (demo_server ks) ''s2'' = Some (new_CSession ''s2'' 2)"
  "GetSession (demo_server ks) = [2 \<mapsto> ''s2'']"
  by (simp_all add: demo_env_def demo_json_def demo_server_def redis_up_def GetSession_def fun_eq_iff)

lemma demo_self [simp]: "self_server_name (demo_env root) = ''chat1''"
  by (simp add: self_server_name_def demo_env_def) code_simp

lemma demo_ready: "dao_ready 2 (mysql_mgr (demo_server ks))"
  by (simp add: dao_ready_def demo_server_def)

lemma demo_fields:
  "field_int (demo_json (JObj kvs)) (JObj kvs') k = Option.bind (Some (case map_of kvs' k of Some v \<Rightarrow> v | None \<Rightarrow> JNull)) (asInt ref_json)"
  "field_str (demo_json (JObj kvs)) (JObj kvs') k = Option.bind (Some (case map_of kvs' k of Some v \<Rightarrow> v | None \<Rightarrow> JNull)) (asString ref_json)"
  by (simp_all add: field_int_def field_str_def demo_json_def ref_json_def)

section \<open>Looking users up\<close>

text \<open>
  The three copies of \<open>GetBaseInfo\<close> (in \<open>LogicSystem\<close>, \<open>ChatGrpcClient\<close> and \<open>ChatServiceImpl\<close>)
  behave alike, whatever Redis, MySQL and jsoncpp do, when the callers pass the key that
  \<open>LogicSystem\<close> computes.
\<close>

theorem GetBaseInfo_copies_agree:
  "ChatGrpcClient_GetBaseInfo E (USER_BASE_INFO @ to_string uid) uid u = GetBaseInfo E uid u \<and>
   ChatServiceImpl_GetBaseInfo E (USER_BASE_INFO @ to_string uid) uid u = GetBaseInfo E uid u"
  unfolding ChatGrpcClient_GetBaseInfo_def ChatServiceImpl_GetBaseInfo_def GetBaseInfo_def Let_def
  by (intro conjI arg_cong [where f = "bnd _"] ext)
    (auto simp: bnd_def ret_def split: prod.splits result.splits option.splits)

lemma read_base_info_member:
  assumes J: "json_documented J" and m: "\<And>k. jmember J root k = jmember J (base_info_json uid u) k"
    and range: "INT_MIN \<le> uid" "uid \<le> INT_MAX" "INT_MIN \<le> u_sex u" "u_sex u \<le> INT_MAX"
  shows "read_base_info J root v s = (Val (u\<lparr>u_uid := uid, u_back := u_back v\<rparr>), s)"
proof -
  have k: "jmember J root k = Some (case map_of [(''uid'', JInt uid), (''pwd'', JStr (u_pwd u)), (''name'', JStr (u_name u)),
      (''email'', JStr (u_email u)), (''nick'', JStr (u_nick u)), (''desc'', JStr (u_desc u)), (''sex'', JInt (u_sex u)),
      (''icon'', JStr (u_icon u))] k of Some x \<Rightarrow> x | None \<Rightarrow> JNull)" for k
    by (simp add: m base_info_json_def json_docD(8) [OF J])
  show ?thesis
    using range by (simp add: read_base_info_def json_int_def json_str_def field_int_def field_str_def from_option_def k
        json_docD(1,5) [OF J] bnd_def ret_def)
qed

lemma no_nul_prefixes [simp]: "no_nul USER_BASE_INFO" "no_nul USERTOKENPREFIX" "no_nul USERIPPREFIX" "no_nul LOGIN_COUNT"
  by (simp_all add: key_prefixes)

text \<open>
  C28. The cache is coherent: when Redis has no entry for the user and the database has, \<open>GetBaseInfo\<close>
  returns the database's record, and every later call returns the same record from Redis without
  asking the database.
\<close>

theorem GetBaseInfo_coherent:
  fixes E :: "('r, 'm, 'g) chat_env" and s :: "('r, 'm, 'g) chat_server"
  assumes J: "json_documented (lib_json E)" "json_reparse (lib_json E)" "\<And>v. no_nul (toStyledString (lib_json E) v)"
    and R: "redis_documented (lib_redis E) view" "redis_up (redis_mgr s)"
    and missing: "view (redis_server (redis_mgr s)) (USER_BASE_INFO @ to_string uid) = None"
    and db: "GetUser_uid (lib_mysql E) uid (mysql_mgr s) = (Val (Some u), m)"
    and u: "u_uid u = uid" "u_back u = []"
    and range: "INT_MIN \<le> uid" "uid \<le> INT_MAX" "INT_MIN \<le> u_sex u" "u_sex u \<le> INT_MAX"
  shows "\<exists>t t'. GetBaseInfo E uid new_UserInfo s = (Val (True, u), t) \<and> mysql_mgr t = m \<and>
     GetBaseInfo E uid new_UserInfo t = (Val (True, u), t') \<and> mysql_mgr t' = m"
proof -
  let ?k = "USER_BASE_INFO @ to_string uid"
  let ?text = "toStyledString (lib_json E) (base_info_json uid u)"
  have k: "no_nul ?k" by simp
  obtain s1 where s1: "redis_op (redis_get (lib_redis E) ?k []) s = (Val (False, []), s1)"
      "redis_up (redis_mgr s1)" "same_but_redis s s1"
    using redis_op_does [OF does_get_missing [OF R k missing]] by blast
  let ?s2 = "s1\<lparr>mysql_mgr := m\<rparr>"
  have q: "mysql_op (MySQLManager_GetUser (lib_mysql E) uid) s1 = (Val (Some u), ?s2)"
    using db by (intro mysql_op_run) (simp add: MySQLManager_defs same_but_redisD [OF s1(3)])
  have up: "redis_up (redis_mgr ?s2)" using s1(2) by simp
  obtain t where t: "redis_op (redis_set (lib_redis E) ?k ?text) ?s2 = (Val True, t)" "redis_up (redis_mgr t)"
      "view (redis_server (redis_mgr t)) = (view (redis_server (redis_mgr ?s2)))(?k \<mapsto> VStr ?text)" "same_but_redis ?s2 t"
    using redis_op_does [OF does_set [OF R(1) up k J(3)]] .
  have first: "GetBaseInfo E uid new_UserInfo s = (Val (True, u), t)"
    by (simp add: GetBaseInfo_def Let_def bnd_def s1(1) q t(1) ret_def)
  have hit: "view (redis_server (redis_mgr t)) ?k = Some (VStr ?text)" by (simp add: t(3))
  obtain t' where t': "redis_op (redis_get (lib_redis E) ?k []) t = (Val (True, ?text), t')" "same_but_redis t t'"
    using redis_op_does [OF does_get [OF R(1) t(2) k hit J(3)]] by blast
  obtain kvs where kvs: "base_info_json uid u = JObj kvs" by (simp add: base_info_json_def)
  have "jmember (lib_json E) (snd (jparse (lib_json E) ?text)) key = jmember (lib_json E) (base_info_json uid u) key" for key
    using J(2) by (simp add: json_reparse_def kvs)
  then have "read_base_info (lib_json E) (snd (jparse (lib_json E) ?text)) new_UserInfo t' = (Val u, t')"
    using u by (subst read_base_info_member [OF J(1) _ range]) (auto simp: new_UserInfo_def intro: UserInfo.equality)
  then have "GetBaseInfo E uid new_UserInfo t = (Val (True, u), t')"
    by (simp add: GetBaseInfo_def Let_def t'(1) bnd_def ret_def)
  with first show ?thesis by (auto simp: same_but_redisD [OF t(4)] same_but_redisD [OF t'(2)])
qed

theorem GetBaseInfo_coherent_witness:
  "\<exists>t t' u. GetBaseInfo ((demo_env JNull)\<lparr>lib_json := ref_json,
      lib_mysql := table_driver (\<lambda>_ _. [\<lparr>getString = (\<lambda>_. Some ''x''), getInt = (\<lambda>_. Some 1)\<rparr>])\<rparr>) 5 new_UserInfo (demo_server Map.empty) =
      (Val (True, u), t) \<and> u_name u = ''x'' \<and>
    GetBaseInfo ((demo_env JNull)\<lparr>lib_json := ref_json,
      lib_mysql := table_driver (\<lambda>_ _. [\<lparr>getString = (\<lambda>_. Some ''x''), getInt = (\<lambda>_. Some 1)\<rparr>])\<rparr>) 5 new_UserInfo t =
      (Val (True, u), t')"
proof -
  let ?D = "table_driver (\<lambda>_ _. [\<lparr>getString = (\<lambda>_. Some ''x''), getInt = (\<lambda>_. Some 1)\<rparr>]) :: unit mysql_driver"
  let ?E = "(demo_env JNull)\<lparr>lib_json := ref_json, lib_mysql := ?D\<rparr>"
  let ?u = "\<lparr>u_name = ''x'', u_pwd = ''x'', u_uid = 5, u_email = ''x'', u_nick = ''x'', u_desc = ''x'', u_sex = 1, u_icon = ''x'', u_back = []\<rparr>"
  obtain m where m: "GetUser_uid ?D 5 (mysql_mgr (demo_server Map.empty)) = (Val (Some ?u), m)"
    by (simp add: GetUser_uid_def demo_server_def or_fail_def with_conn_def table_driver_def call_defs lift_some_def user_of_row_def
        col_string_def col_int_def prog_defs from_option_def dao_getConnection_def pool_defs new_UserInfo_def)
  have "\<exists>t t'. GetBaseInfo ?E 5 new_UserInfo (demo_server Map.empty) = (Val (True, ?u), t) \<and> mysql_mgr t = m \<and>
     GetBaseInfo ?E 5 new_UserInfo t = (Val (True, ?u), t') \<and> mysql_mgr t' = m"
    by (rule GetBaseInfo_coherent [where view = "\<lambda>ks. ks"])
      (use m in \<open>simp_all add: ref_json_documented ref_json_reparse ref_json_no_nul ref_redis_documented no_nul_def INT_MIN_def INT_MAX_def\<close>)
  then show ?thesis by auto
qed

section \<open>Logging in\<close>

lemma keeps_json [intro, simp]: "keeps I (json_int J root k)" "keeps I (json_str J root k)"
  by (simp_all add: json_int_def json_str_def from_option_def split: option.split)

lemma keeps_read_base_info: "keeps I (read_base_info J root u)"
  unfolding read_base_info_def by (intro keeps_bnd keeps_json keeps_basic)

lemma keeps_uids_GetBaseInfo: "keeps (\<lambda>s. uid_to_session s = U) (GetBaseInfo E uid u)"
  unfolding GetBaseInfo_def Let_def
  by (intro keeps_bnd keeps_cases keeps_read_base_info keeps_basic keeps_redis_op keeps_mysql_op) simp_all

lemma keeps_uids_send: "keeps (\<lambda>s. uid_to_session s = U) (session_send sid msg i)"
  unfolding session_send_def by (rule keeps_on_session) simp

lemma keeps_uids_login_block: "keeps ((\<lambda>s. uid_to_session s = U) \<circ> fst) (login_block E uid token)"
  unfolding login_block_def GetFriendApplyInfo_def GetFriendList_def
  by (intro keeps_bnd keeps_outer keeps_local_upd keeps_cases keeps_uids_GetBaseInfo keeps_basic
      keeps_redis_op keeps_mysql_op) simp_all

lemma login_block_needs_token:
  assumes "login_block E uid token (s, rt) = (Val True, x)"
  shows "\<exists>m. redis_get (lib_redis E) (USERTOKENPREFIX @ to_string uid) [] (redis_mgr s) = (Val (True, token), m)"
proof -
  obtain r m where g: "redis_get (lib_redis E) (USERTOKENPREFIX @ to_string uid) [] (redis_mgr s) = (r, m)" by fastforce
  show ?thesis
    using assms g
    by (auto simp: login_block_def bnd_def outer_def redis_op_def zoom_def ret_def local_upd_def upd_def
        split: result.splits if_splits)
qed

lemma keeps_count_login: "keeps (\<lambda>s. uid_to_session s = U) (count_login E)"
  unfolding count_login_def
  by (intro keeps_bnd keeps_cases keeps_redis_op keeps_basic keeps_from_sum) simp_all

lemma bind_user_uids:
  assumes "bind_user E sid uid s = (r, t)"
  shows "uid_to_session t = uid_to_session s \<or> uid_to_session t = (uid_to_session s)(uid \<mapsto> sid)"
  using assms
  by (auto simp: bind_user_def bnd_def on_session_def redis_op_def zoom_def upd_def SetUserSession_def
      split: prod.splits result.splits option.splits)

lemma keeps_send_recent: "keeps (\<lambda>s. uid_to_session s = U) (send_recent E sid uid)"
  unfolding send_recent_def Let_def
  by (intro keeps_bnd keeps_uids_send keeps_mysql_op) simp_all

text \<open>
  C1. No binding without the token: if \<open>LoginHandler\<close> changes the binding of users to sessions, in
  whatever way it ends and whatever the libraries do, then Redis returned, for the uid in the
  message, exactly the token in the message, and the only change is that this uid is bound to
  the session the message came from.
\<close>

theorem login_needs_token:
  assumes run: "LoginHandler E sid msg_data s = (r, t)" and change: "uid_to_session t \<noteq> uid_to_session s"
  shows "\<exists>uid token m. field_int (lib_json E) (snd (jparse (lib_json E) msg_data)) ''uid'' = Some uid \<and>
     field_str (lib_json E) (snd (jparse (lib_json E) msg_data)) ''token'' = Some token \<and>
     redis_get (lib_redis E) (USERTOKENPREFIX @ to_string uid) [] (redis_mgr s) = (Val (True, token), m) \<and>
     uid_to_session t = (uid_to_session s)(uid \<mapsto> sid)"
proof -
  let ?root = "snd (jparse (lib_json E) msg_data)"
  obtain uid where uid: "field_int (lib_json E) ?root ''uid'' = Some uid"
    using run change by (cases "field_int (lib_json E) ?root ''uid''")
      (auto simp: LoginHandler_def json_int_def from_option_def bnd_def raise_def)
  obtain token where token: "field_str (lib_json E) ?root ''token'' = Some token"
    using run change uid by (cases "field_str (lib_json E) ?root ''token''")
      (auto simp: LoginHandler_def json_int_def json_str_def from_option_def bnd_def raise_def ret_def)
  let ?fin = "\<lambda>rtvalue. session_send sid (toStyledString (lib_json E) rtvalue) MSG_CHAT_LOGIN_RSP"
  obtain r1 s1 where d: "with_defer JNull (login_block E uid token) ?fin s = (r1, s1)" by fastforce
  have wd: "keeps (\<lambda>x. uid_to_session x = uid_to_session s) (with_defer JNull (login_block E uid token) ?fin)"
    by (intro keeps_with_defer keeps_uids_login_block keeps_uids_send)
  have s1: "uid_to_session s1 = uid_to_session s" using keepsD [OF wd refl d] .
  have go: "r1 = Val True" using run change uid token d s1
    by (cases r1) (auto simp: LoginHandler_def json_int_def json_str_def from_option_def bnd_def ret_def split: if_splits)
  then obtain y where "login_block E uid token (s, JNull) = (Val True, y)"
    using with_defer_ValD [of JNull "login_block E uid token" ?fin s True s1] d by blast
  from login_block_needs_token [OF this]
  obtain m where m: "redis_get (lib_redis E) (USERTOKENPREFIX @ to_string uid) [] (redis_mgr s) = (Val (True, token), m)" ..
  obtain r2 s2 where c: "count_login E s1 = (r2, s2)" by fastforce
  have s2: "uid_to_session s2 = uid_to_session s" using keepsD [OF keeps_count_login s1 c] .
  obtain r3 s3 where b: "bind_user E sid uid s2 = (r3, s3)" by fastforce
  obtain r4 s4 where l: "send_recent E sid uid s3 = (r4, s4)" by fastforce
  have s4: "uid_to_session s4 = uid_to_session s3" using keepsD [OF keeps_send_recent refl l] .
  have "uid_to_session t \<in> {uid_to_session s2, uid_to_session s3}"
    using run uid token d go c b l s1 s2 s4
    by (auto simp: LoginHandler_def json_int_def json_str_def from_option_def bnd_def ret_def split: result.splits)
  then show ?thesis using bind_user_uids [OF b] s2 change uid token m by auto
qed

theorem login_needs_token_witness:
  "\<exists>uid token m. field_int (demo_json (JObj [(''uid'', JInt 7), (''token'', JStr ''tok'')]))
      (JObj [(''uid'', JInt 7), (''token'', JStr ''tok'')]) ''uid'' = Some uid \<and>
    redis_get ref_redis (USERTOKENPREFIX @ to_string uid) [] (redis_mgr (demo_server [''utoken_7'' \<mapsto> VStr ''tok'', ''ubaseinfo_7'' \<mapsto> VStr ''{}''])) =
    (Val (True, token), m)"
proof -
  let ?E = "demo_env (JObj [(''uid'', JInt 7), (''token'', JStr ''tok'')])"
  let ?s = "demo_server [''utoken_7'' \<mapsto> VStr ''tok'', ''ubaseinfo_7'' \<mapsto> VStr ''{}'']"
  have "uid_to_session (snd (LoginHandler ?E ''s1'' ''{}'' ?s)) 7 = Some ''s1''" by code_simp
  moreover have "uid_to_session ?s 7 = None" by (simp add: demo_server_def)
  ultimately have "uid_to_session (snd (LoginHandler ?E ''s1'' ''{}'' ?s)) \<noteq> uid_to_session ?s" by auto
  from login_needs_token [OF prod.collapse [symmetric] this] show ?thesis by auto
qed

text \<open>A cached entry from which the user can be read.\<close>

definition shows_user :: "jsoncpp \<Rightarrow> json \<Rightarrow> UserInfo \<Rightarrow> bool" where
  "shows_user J root u \<longleftrightarrow>
     field_int J root ''uid'' = Some (u_uid u) \<and> field_str J root ''name'' = Some (u_name u) \<and>
     field_str J root ''pwd'' = Some (u_pwd u) \<and> field_str J root ''email'' = Some (u_email u) \<and>
     field_str J root ''nick'' = Some (u_nick u) \<and> field_str J root ''desc'' = Some (u_desc u) \<and>
     field_int J root ''sex'' = Some (u_sex u) \<and> field_str J root ''icon'' = Some (u_icon u) \<and> u_back u = []"

lemma read_base_info_shown:
  assumes "shows_user J root u"
  shows "read_base_info J root new_UserInfo = ret u"
proof -
  have "u_back u = []" using assms by (simp add: shows_user_def)
  then show ?thesis
    using assms by (simp add: shows_user_def read_base_info_def json_int_def json_str_def from_option_def new_UserInfo_def)
      (cases u, simp)
qed

lemma GetBaseInfo_hit:
  assumes R: "redis_documented (lib_redis E) view" "redis_up (redis_mgr s)"
    and hit: "view (redis_server (redis_mgr s)) (USER_BASE_INFO @ to_string uid) = Some (VStr info)" "no_nul info"
    and info: "shows_user (lib_json E) (snd (jparse (lib_json E) info)) u"
  obtains t where "GetBaseInfo E uid new_UserInfo s = (Val (True, u), t)" "redis_up (redis_mgr t)"
    "view (redis_server (redis_mgr t)) = view (redis_server (redis_mgr s))" "same_but_redis s t"
proof -
  have k: "no_nul (USER_BASE_INFO @ to_string uid)" by simp
  obtain t where t: "redis_op (redis_get (lib_redis E) (USER_BASE_INFO @ to_string uid) []) s = (Val (True, info), t)"
      "redis_up (redis_mgr t)" "view (redis_server (redis_mgr t)) = view (redis_server (redis_mgr s))" "same_but_redis s t"
    using redis_op_does [OF does_get [OF R k hit]] .
  show thesis by (rule that [OF _ t(2-4)]) (simp add: GetBaseInfo_def Let_def bnd_def t(1) read_base_info_shown [OF info] ret_def)
qed

lemma GetFriendApplyInfo_returns:
  assumes "dao_ready (Suc n) (mysql_mgr s)"
  obtains b xs t where "GetFriendApplyInfo E uid s = (Val (b, xs), t)" "dao_ready (Suc n) (mysql_mgr t)" "same_but_mysql s t"
proof -
  obtain b xs m where "MySQLManager_GetApplyList (lib_mysql E) uid 0 10 (mysql_mgr s, []) = (Val b, (m, xs))" "dao_ready (Suc n) m"
    using returns_GetApplyList [of n "lib_mysql E" uid 0 10] assms by (fastforce simp: returns_def MySQLManager_defs)
  then show thesis
    by (intro that [of b xs "s\<lparr>mysql_mgr := m\<rparr>"]) (simp_all add: GetFriendApplyInfo_def mysql_op_def zoom_def same_but_mysql_def)
qed

lemma GetFriendList_returns:
  assumes "dao_ready (Suc (Suc n)) (mysql_mgr s)"
  obtains b xs t where "GetFriendList E uid s = (Val (b, xs), t)" "dao_ready (Suc (Suc n)) (mysql_mgr t)" "same_but_mysql s t"
proof -
  obtain b xs m where "MySQLManager_GetFriendList (lib_mysql E) uid (mysql_mgr s, []) = (Val b, (m, xs))" "dao_ready (Suc (Suc n)) m"
    using returns_GetFriendList [of n "lib_mysql E" uid] assms by (fastforce simp: returns_def MySQLManager_defs)
  then show thesis
    by (intro that [of b xs "s\<lparr>mysql_mgr := m\<rparr>"]) (simp_all add: GetFriendList_def mysql_op_def zoom_def same_but_mysql_def)
qed

lemma set_error_field [simp]: "jfield ''error'' (set_error e JNull) = JInt (error_code e)"
  by (simp add: set_error_def jfield_def)

lemma jfield_login_members [simp]: "jfield ''error'' (login_members uid u rt) = jfield ''error'' rt"
  by (simp add: login_members_def)

lemma login_members_user [simp]:
  "jfield ''uid'' (login_members uid u (JObj kvs)) = JInt uid" "jfield ''name'' (login_members uid u (JObj kvs)) = JStr (u_name u)"
  by (simp_all add: login_members_def jfield_def update_conv')

lemma login_block_succeeds:
  assumes R: "redis_documented (lib_redis E) view" "redis_up (redis_mgr s)"
    and tok: "view (redis_server (redis_mgr s)) (USERTOKENPREFIX @ to_string uid) = Some (VStr token)" "no_nul token"
    and hit: "view (redis_server (redis_mgr s)) (USER_BASE_INFO @ to_string uid) = Some (VStr info)" "no_nul info"
    and info: "shows_user (lib_json E) (snd (jparse (lib_json E) info)) u"
    and db: "dao_ready 2 (mysql_mgr s)"
  obtains rt t where "login_block E uid token (s, JNull) = (Val True, (t, rt))" "jfield ''error'' rt = JInt (error_code Success)"
    "jfield ''uid'' rt = JInt uid" "jfield ''name'' rt = JStr (u_name u)"
    "redis_up (redis_mgr t)" "view (redis_server (redis_mgr t)) = view (redis_server (redis_mgr s))"
    "session_objs t = session_objs s" "GetSession t = GetSession s" "dao_ready 2 (mysql_mgr t)"
proof -
  have k: "no_nul (USERTOKENPREFIX @ to_string uid)" by simp
  obtain s1 where s1: "redis_op (redis_get (lib_redis E) (USERTOKENPREFIX @ to_string uid) []) s = (Val (True, token), s1)"
      "redis_up (redis_mgr s1)" "view (redis_server (redis_mgr s1)) = view (redis_server (redis_mgr s))" "same_but_redis s s1"
    using redis_op_does [OF does_get [OF R k tok]] .
  have hit1: "view (redis_server (redis_mgr s1)) (USER_BASE_INFO @ to_string uid) = Some (VStr info)" using hit s1 by simp
  obtain s2 where s2: "GetBaseInfo E uid new_UserInfo s1 = (Val (True, u), s2)" "redis_up (redis_mgr s2)"
      "view (redis_server (redis_mgr s2)) = view (redis_server (redis_mgr s1))" "same_but_redis s1 s2"
    using GetBaseInfo_hit [OF R(1) s1(2) hit1 hit(2) info] .
  have "dao_ready (Suc 1) (mysql_mgr s2)" using db same_but_redisD(1) [OF s1(4)] same_but_redisD(1) [OF s2(4)] by (simp add: numeral_2_eq_2)
  then obtain b xs s3 where s3: "GetFriendApplyInfo E uid s2 = (Val (b, xs), s3)" "dao_ready (Suc 1) (mysql_mgr s3)" "same_but_mysql s2 s3"
    by (rule GetFriendApplyInfo_returns)
  then obtain b' ys s4 where s4: "GetFriendList E uid s3 = (Val (b', ys), s4)" "dao_ready (Suc 1) (mysql_mgr s4)" "same_but_mysql s3 s4"
    using GetFriendList_returns [of 0 s3 E uid] by auto
  let ?rt1 = "login_members uid u (set_error Success JNull)"
  let ?rt2 = "if b then jtouch ''apply_list'' (fold (\<lambda>apply. jappend_at ''apply_list'' (apply_json apply)) xs ?rt1) else ?rt1"
  let ?rt3 = "fold (\<lambda>friend_ele. jappend_at ''friend_list'' (friend_json friend_ele)) ys ?rt2"
  let ?rt = "if b' then jtouch ''friend_list'' ?rt3 else ?rt3"
  show thesis
  proof (rule that [of s4 ?rt])
    show "login_block E uid token (s, JNull) = (Val True, (s4, ?rt))"
      by (simp add: login_block_def bnd_def outer_pair s1(1) s2(1) s3(1) s4(1)
          local_upd_def upd_def ret_def)
    show "jfield ''error'' ?rt = JInt (error_code Success)" by simp
    show "jfield ''uid'' ?rt = JInt uid" "jfield ''name'' ?rt = JStr (u_name u)" by (simp_all add: set_error_def)
  qed (use s1 s2 s3 s4 in \<open>simp_all add: same_but_redisD same_but_mysqlD numeral_2_eq_2\<close>)
qed


text \<open>The number of logins counted for a server: the hash field, 0 when there is none.\<close>

definition logins :: "keyspace \<Rightarrow> string \<Rightarrow> int \<Rightarrow> bool" where
  "logins ks name n \<longleftrightarrow> is_hash ks LOGIN_COUNT \<and>
     (case map_of (hash_of ks LOGIN_COUNT) name of Some v \<Rightarrow> v = to_string n | None \<Rightarrow> n = 0)"

definition counted :: "string \<Rightarrow> int \<Rightarrow> keyspace \<Rightarrow> keyspace" where
  "counted name n ks = ks(LOGIN_COUNT \<mapsto> VHash (AList.update name (to_string n) (hash_of ks LOGIN_COUNT)))"

lemma logins_counted: "logins ks name n \<Longrightarrow> logins (counted name n' ks) name' k \<longleftrightarrow> (if name' = name then n' = k else logins ks name' k)"
  by (auto simp: logins_def counted_def is_hash_def hash_of_def update_conv' to_string_inj split: option.splits rvalue.splits)

lemma count_login_effect:
  assumes R: "redis_documented (lib_redis E) view" "redis_up (redis_mgr s)" "no_nul (self_server_name E)"
    and n: "logins (view (redis_server (redis_mgr s))) (self_server_name E) n" "INT_MIN \<le> n" "n < INT_MAX"
  obtains t where "count_login E s = (Val (), t)" "redis_up (redis_mgr t)" "same_but_redis s t"
    "view (redis_server (redis_mgr t)) = counted (self_server_name E) (n + 1) (view (redis_server (redis_mgr s)))"
proof -
  let ?h = "hash_of (view (redis_server (redis_mgr s))) LOGIN_COUNT"
  have h: "is_hash (view (redis_server (redis_mgr s))) LOGIN_COUNT" using n(1) by (simp add: logins_def)
  obtain v s1 where v: "redis_op (hget (lib_redis E) LOGIN_COUNT (self_server_name E) []) s = (Val (True, v), s1)"
      "redis_up (redis_mgr s1)" "view (redis_server (redis_mgr s1)) = view (redis_server (redis_mgr s))" "same_but_redis s s1"
      "login_count v True = Inr n"
  proof (cases "map_of ?h (self_server_name E)")
    case None
    then have "n = 0" using n(1) by (simp add: logins_def)
    then show thesis
      using redis_op_does [OF does_hget_missing [OF R(1,2) h None, of "[]"]] that [of "[]"] by (metis login_count_def)
  next
    case (Some w)
    then have w: "w = to_string n" using n(1) by (simp add: logins_def)
    have c: "login_count (to_string n) True = Inr n" using n(2,3) by (simp add: login_count_def)
    have f: "map_of ?h (self_server_name E) = Some (to_string n)" using Some w by simp
    show thesis
      using redis_op_does [OF does_hget [OF R(1,2) h f no_nul_to_string, of "[]"]] that [of "to_string n"] c by metis
  qed
  have h1: "is_hash (view (redis_server (redis_mgr s1))) LOGIN_COUNT" using h v by simp
  obtain t where t: "redis_op (hset (lib_redis E) LOGIN_COUNT (self_server_name E) (to_string (n + 1))) s1 = (Val True, t)"
      "redis_up (redis_mgr t)" "same_but_redis s1 t"
      "view (redis_server (redis_mgr t)) = (view (redis_server (redis_mgr s1)))(LOGIN_COUNT \<mapsto>
         VHash (AList.update (self_server_name E) (to_string (n + 1)) (hash_of (view (redis_server (redis_mgr s1))) LOGIN_COUNT)))"
    using redis_op_does [OF does_hset [OF R(1) v(2) no_nul_prefixes(4) R(3) no_nul_to_string h1]] by blast
  show thesis
  proof (rule that [OF _ t(2)])
    show "count_login E s = (Val (), t)"
      using n(3) by (simp add: count_login_def bnd_def v(1,5) from_sum_def ret_def t(1))
    show "same_but_redis s t" using v(4) t(3) by (simp add: same_but_redis_def)
    show "view (redis_server (redis_mgr t)) = counted (self_server_name E) (n + 1) (view (redis_server (redis_mgr s)))"
      by (simp add: t(4) v(3) counted_def)
  qed
qed

lemma bind_user_effect:
  assumes R: "redis_documented (lib_redis E) view" "redis_up (redis_mgr s)" "no_nul (self_server_name E)"
    and c: "session_objs s sid = Some c"
  obtains t where "bind_user E sid uid s = (Val (), t)" "redis_up (redis_mgr t)"
    "view (redis_server (redis_mgr t)) = (view (redis_server (redis_mgr s)))(USERIPPREFIX @ to_string uid \<mapsto> VStr (self_server_name E))"
    "session_objs t = (session_objs s)(sid \<mapsto> c\<lparr>user_uid := uid\<rparr>)" "GetSession t = (GetSession s)(uid \<mapsto> sid)"
    "mysql_mgr t = mysql_mgr s"
proof -
  let ?s1 = "s\<lparr>session_objs := (session_objs s)(sid \<mapsto> c\<lparr>user_uid := uid\<rparr>)\<rparr>"
  have up: "redis_up (redis_mgr ?s1)" and k: "no_nul (USERIPPREFIX @ to_string uid)" using R(2) by simp_all
  obtain s2 where s2: "redis_op (redis_set (lib_redis E) (USERIPPREFIX @ to_string uid) (self_server_name E)) ?s1 = (Val True, s2)"
      "redis_up (redis_mgr s2)" "same_but_redis ?s1 s2"
      "view (redis_server (redis_mgr s2)) = (view (redis_server (redis_mgr ?s1)))(USERIPPREFIX @ to_string uid \<mapsto> VStr (self_server_name E))"
    using redis_op_does [OF does_set [OF R(1) up k R(3)]] by blast
  show thesis
  proof (rule that [of "SetUserSession uid sid s2"])
    show "bind_user E sid uid s = (Val (), SetUserSession uid sid s2)"
      by (simp add: bind_user_def bnd_def on_session_def c set_user_id_def upd_def s2(1))
    show "GetSession (SetUserSession uid sid s2) = (GetSession s)(uid \<mapsto> sid)"
      using same_but_redisD(4) [OF s2(3)] by (auto simp: fun_eq_iff SetUserSession_def GetSession_def)
  qed (use s2 in \<open>auto simp: SetUserSession_def dest: same_but_redisD\<close>)
qed

text \<open>
  C20. A successful login: on a documented Redis that holds the token of the message and the user's
  cached record, with two idle database connections and room in the send queue, and as long as the login reply
  and the list of recent messages that the database gives each fit a frame, \<open>LoginHandler\<close> returns; the session gets
  that reply, with error code Success and the user's id and name, and then these messages, is marked with
  the uid and bound to it, the user's server is recorded, and the server's login counter is increased by
  one.
\<close>

theorem login_registers:
  fixes E :: "('r, 'm, 'g) chat_env" and s :: "('r, 'm, 'g) chat_server"
  assumes R: "redis_documented (lib_redis E) view" "redis_up (redis_mgr s)" "no_nul (self_server_name E)"
    and msg: "field_int (lib_json E) (snd (jparse (lib_json E) msg_data)) ''uid'' = Some uid"
      "field_str (lib_json E) (snd (jparse (lib_json E) msg_data)) ''token'' = Some token"
    and ks: "view (redis_server (redis_mgr s)) = ks"
    and tok: "ks (USERTOKENPREFIX @ to_string uid) = Some (VStr token)" "no_nul token"
    and hit: "ks (USER_BASE_INFO @ to_string uid) = Some (VStr info)" "no_nul info"
      "shows_user (lib_json E) (snd (jparse (lib_json E) info)) u"
    and n: "logins ks (self_server_name E) n" "INT_MIN \<le> n" "n < INT_MAX"
    and db: "dao_ready 2 (mysql_mgr s)"
    and session: "session_objs s sid = Some c" "has_room 2 c"
    and reply: "login_block E uid token (s, JNull) = (r, (s1, rt))" "length (toStyledString (lib_json E) rt) \<le> 32763"
    and recent: "dao_GetRecentMessages (lib_mysql E) (stringToTimestamp E) uid 100 0 (mysql_mgr s1) = (Val messages, m)"
      "length (toStyledString (lib_json E) (recent_response messages)) \<le> 32763"
  shows "\<exists>t c'. LoginHandler E sid msg_data s = (Val (), t) \<and>
     GetSession t = (GetSession s)(uid \<mapsto> sid) \<and> session_objs t = (session_objs s)(sid \<mapsto> c') \<and> user_uid c' = uid \<and>
     outbox c' = outbox c @ [frame (msg_id MSG_CHAT_LOGIN_RSP) (toStyledString (lib_json E) rt),
       frame (msg_id ID_LOGIN_LOAD_UNREAD_CHAT_MSG) (toStyledString (lib_json E) (recent_response messages))] \<and>
     jfield ''error'' rt = JInt (error_code Success) \<and> jfield ''uid'' rt = JInt uid \<and> jfield ''name'' rt = JStr (u_name u) \<and>
     view (redis_server (redis_mgr t)) =
       (counted (self_server_name E) (n + 1) ks)(USERIPPREFIX @ to_string uid \<mapsto> VStr (self_server_name E))"
proof -
  let ?fin = "\<lambda>rtvalue. session_send sid (toStyledString (lib_json E) rtvalue) MSG_CHAT_LOGIN_RSP"
  note tok' = tok(1) [folded ks] and hit' = hit(1) [folded ks]
  have s1: "login_block E uid token (s, JNull) = (Val True, (s1, rt))" "jfield ''error'' rt = JInt (error_code Success)"
    "redis_up (redis_mgr s1)" "view (redis_server (redis_mgr s1)) = ks" "session_objs s1 = session_objs s"
    "GetSession s1 = GetSession s" "dao_ready 2 (mysql_mgr s1)" "jfield ''uid'' rt = JInt uid" "jfield ''name'' rt = JStr (u_name u)"
    using login_block_succeeds [OF R(1,2) tok' tok(2) hit' hit(2,3) db] unfolding ks reply(1) by blast+
  have "session_objs s1 sid = Some c" "has_room (Suc 1) c" using session s1(5) by (simp_all add: numeral_2_eq_2)
  then obtain c1 s2 where s2: "?fin rt s1 = (Val (), s2)" "session_objs s2 = (session_objs s1)(sid \<mapsto> c1)" "same_but_sessions s1 s2"
      "outbox c1 = outbox c @ [frame (msg_id MSG_CHAT_LOGIN_RSP) (toStyledString (lib_json E) rt)]" "has_room 1 c1"
    using session_send_outbox [OF _ reply(2)] by metis
  note e2 = same_but_sessionsD [OF s2(3)]
  have d: "with_defer JNull (login_block E uid token) ?fin s = (Val True, s2)"
    by (rule with_defer_Val [where w = rt and t = s1]) (rule s1(1), rule s2(1))
  have up2: "redis_up (redis_mgr s2)" and n2: "logins (view (redis_server (redis_mgr s2))) (self_server_name E) n"
    using s1(3,4) n(1) e2 by simp_all
  obtain s3 where s3: "count_login E s2 = (Val (), s3)" "redis_up (redis_mgr s3)" "same_but_redis s2 s3"
      "view (redis_server (redis_mgr s3)) = counted (self_server_name E) (n + 1) (view (redis_server (redis_mgr s2)))"
    using count_login_effect [OF R(1) up2 R(3) n2 n(2,3)] .
  note e3 = same_but_redisD [OF s3(3)]
  have c3: "session_objs s3 sid = Some c1" by (simp add: e3 s2(2))
  obtain s4 where s4: "bind_user E sid uid s3 = (Val (), s4)" "redis_up (redis_mgr s4)"
    "view (redis_server (redis_mgr s4)) = (view (redis_server (redis_mgr s3)))(USERIPPREFIX @ to_string uid \<mapsto> VStr (self_server_name E))"
    "session_objs s4 = (session_objs s3)(sid \<mapsto> c1\<lparr>user_uid := uid\<rparr>)" "GetSession s4 = (GetSession s3)(uid \<mapsto> sid)"
    "mysql_mgr s4 = mysql_mgr s3"
    using bind_user_effect [OF R(1) s3(2) R(3) c3] .
  have "dao_GetRecentMessages (lib_mysql E) (stringToTimestamp E) uid 100 0 (mysql_mgr s4) = (Val messages, m)"
    using recent(1) s4(6) e3 e2 by simp
  then obtain s5 where s5: "mysql_op (dao_GetRecentMessages (lib_mysql E) (stringToTimestamp E) uid 100 0) s4 = (Val messages, s5)"
      "mysql_mgr s5 = m" "same_but_mysql s4 s5"
    using that [of "s4\<lparr>mysql_mgr := m\<rparr>"] by (simp add: mysql_op_def zoom_def same_but_mysql_def)
  note e5 = same_but_mysqlD [OF s5(3)]
  have "session_objs s5 sid = Some (c1\<lparr>user_uid := uid\<rparr>)" "has_room (Suc 0) (c1\<lparr>user_uid := uid\<rparr>)"
    using s2(5) by (simp_all add: e5 s4(4) has_room_def)
  then obtain c' t where t: "session_send sid (toStyledString (lib_json E) (recent_response messages)) ID_LOGIN_LOAD_UNREAD_CHAT_MSG s5 = (Val (), t)"
      "session_objs t = (session_objs s5)(sid \<mapsto> c')" "same_but_sessions s5 t"
      "outbox c' = outbox (c1\<lparr>user_uid := uid\<rparr>) @ [frame (msg_id ID_LOGIN_LOAD_UNREAD_CHAT_MSG) (toStyledString (lib_json E) (recent_response messages))]"
      "user_uid c' = user_uid (c1\<lparr>user_uid := uid\<rparr>)"
    using session_send_outbox [OF _ recent(2)] by metis
  note et = same_but_sessionsD [OF t(3)]
  have run: "LoginHandler E sid msg_data s = (Val (), t)"
    by (simp add: LoginHandler_def Let_def json_int_def json_str_def from_option_def msg bnd_def ret_def d s3(1) s4(1)
        send_recent_def MySQLManager_defs s5(1) t(1))
  show ?thesis
  proof (intro exI conjI)
    show "LoginHandler E sid msg_data s = (Val (), t)" by (rule run)
    show "jfield ''error'' rt = JInt (error_code Success)" "jfield ''uid'' rt = JInt uid" "jfield ''name'' rt = JStr (u_name u)"
      by (rule s1)+
    show "session_objs t = (session_objs s)(sid \<mapsto> c')" by (simp add: t(2) e5 s4(4) e3 s2(2) s1(5))
    show "outbox c' = outbox c @ [frame (msg_id MSG_CHAT_LOGIN_RSP) (toStyledString (lib_json E) rt),
       frame (msg_id ID_LOGIN_LOAD_UNREAD_CHAT_MSG) (toStyledString (lib_json E) (recent_response messages))]"
      using t(4) s2(4) by (simp add: outbox_def)
    show "view (redis_server (redis_mgr t)) =
       (counted (self_server_name E) (n + 1) ks)(USERIPPREFIX @ to_string uid \<mapsto> VStr (self_server_name E))"
      by (simp add: et e5 s4(3) s3(4) e2 s1(4))
    show "GetSession t = (GetSession s)(uid \<mapsto> sid)" by (simp add: et e5 s4(5) e3 e2 s1(6))
    show "user_uid c' = uid" by (simp add: t(5))
  qed
qed


theorem login_registers_witness:
  "\<exists>t c'. LoginHandler (demo_env (JObj [(''uid'', JInt 7), (''token'', JStr ''tok'')])) ''s1'' ''{}''
      (demo_server [''utoken_7'' \<mapsto> VStr ''tok'', ''ubaseinfo_7'' \<mapsto> VStr ''{}'']) = (Val (), t) \<and>
    GetSession t = [2 \<mapsto> ''s2'', 7 \<mapsto> ''s1''] \<and> session_objs t ''s1'' = Some c' \<and>
    outbox c' = [frame 1007 ''{}'', frame 1024 ''{}'']"
proof -
  let ?E = "demo_env (JObj [(''uid'', JInt 7), (''token'', JStr ''tok'')])"
  let ?ks = "[''utoken_7'' \<mapsto> VStr ''tok'', ''ubaseinfo_7'' \<mapsto> VStr ''{}'']"
  have 7: "to_string 7 = ''7''" by code_simp
  have u: "shows_user (demo_json (JObj [(''uid'', JInt 7), (''token'', JStr ''tok'')]))
      (snd (jparse (demo_json (JObj [(''uid'', JInt 7), (''token'', JStr ''tok'')])) ''{}'')) (new_UserInfo\<lparr>u_uid := 7\<rparr>)"
    by (simp add: shows_user_def demo_fields ref_json_def new_UserInfo_def INT_MIN_def INT_MAX_def)
  have n: "logins ?ks ''chat1'' 0" by (simp add: logins_def is_hash_def hash_of_def key_prefixes)
  obtain r s1 rt where reply: "login_block ?E 7 ''tok'' (demo_server ?ks, JNull) = (r, (s1, rt))" by (metis prod.collapse)
  have "dao_ready 2 (mysql_mgr s1)"
    by (rule login_block_succeeds [where E = ?E and view = "\<lambda>ks. ks" and s = "demo_server ?ks" and uid = 7 and token = "''tok''"
          and info = "''{}''" and u = "new_UserInfo\<lparr>u_uid := 7\<rparr>"])
      (use u reply demo_ready [of ?ks] in \<open>simp_all add: ref_redis_documented 7 key_prefixes\<close>)
  then obtain messages m where recent: "dao_GetRecentMessages (lib_mysql ?E) (stringToTimestamp ?E) 7 100 0 (mysql_mgr s1) = (Val messages, m)"
    using returns_GetRecentMessages [of 1 "lib_mysql ?E" "stringToTimestamp ?E" 7 100 0] by (fastforce simp: returns_def numeral_2_eq_2)
  have "\<exists>t c'. LoginHandler ?E ''s1'' ''{}'' (demo_server ?ks) = (Val (), t) \<and>
     GetSession t = (GetSession (demo_server ?ks))(7 \<mapsto> ''s1'') \<and> session_objs t = (session_objs (demo_server ?ks))(''s1'' \<mapsto> c') \<and>
     user_uid c' = 7 \<and>
     outbox c' = outbox (new_CSession ''s1'' 0) @ [frame (msg_id MSG_CHAT_LOGIN_RSP) (toStyledString (lib_json ?E) rt),
       frame (msg_id ID_LOGIN_LOAD_UNREAD_CHAT_MSG) (toStyledString (lib_json ?E) (recent_response messages))] \<and>
     jfield ''error'' rt = JInt (error_code Success) \<and> jfield ''uid'' rt = JInt 7 \<and>
     jfield ''name'' rt = JStr (u_name (new_UserInfo\<lparr>u_uid := 7\<rparr>)) \<and>
     redis_server (redis_mgr t) =
       (counted (self_server_name ?E) (0 + 1) ?ks)(USERIPPREFIX @ to_string 7 \<mapsto> VStr (self_server_name ?E))"
    by (rule login_registers [where view = "\<lambda>ks. ks" and token = "''tok''" and info = "''{}''" and u = "new_UserInfo\<lparr>u_uid := 7\<rparr>"
          and r = r and m = m and ?s1.0 = s1])
      (use u n reply recent demo_ready [of ?ks] in \<open>simp_all add: ref_redis_documented demo_fields ref_json_def 7 key_prefixes
        INT_MIN_def INT_MAX_def new_session_room MAX_SENDQUE_def\<close>)
  then show ?thesis by (auto simp: new_session_room)
qed


section \<open>Text messages\<close>

text \<open>The members of a text message as a client sends it; the status may be left out.\<close>

definition carries :: "(string \<times> json) list \<Rightarrow> ChatMessage \<Rightarrow> bool" where
  "carries kvs msg \<longleftrightarrow>
     map_of kvs ''msg_id'' = Some (JStr (cm_msg_id msg)) \<and> map_of kvs ''from_uid'' = Some (JInt (cm_from_uid msg)) \<and>
     map_of kvs ''to_uid'' = Some (JInt (cm_to_uid msg)) \<and> map_of kvs ''content'' = Some (JStr (cm_content msg)) \<and>
     map_of kvs ''msg_type'' = Some (JInt (cm_msg_type msg)) \<and> map_of kvs ''send_time'' = Some (JInt (cm_send_time msg)) \<and>
     (case map_of kvs ''status'' of None \<Rightarrow> cm_status msg = 0 | Some v \<Rightarrow> v = JInt (cm_status msg))"

lemma parse_carried:
  assumes J: "json_documented J" and kvs: "carries kvs msg" and r: "message_in_range msg"
  shows "ChatMessage_parseJson J (JObj kvs) m = (Val (), msg)"
proof -
  have o: "isObject J (JObj kvs)" using json_docD(12) [OF J] by auto
  have g: "get_as J conv (JObj kvs) k d = (case conv (case map_of kvs k of Some v \<Rightarrow> v | None \<Rightarrow> d) of
      Some x \<Rightarrow> Inr x | None \<Rightarrow> Inl JsonLogicError)" for conv :: "json \<Rightarrow> 'a option" and k d
    by (simp add: get_as_def json_docD(10) [OF J])
  have st: "(case map_of kvs ''status'' of Some v \<Rightarrow> v | None \<Rightarrow> JInt 0) = JInt (cm_status msg)"
    using kvs by (auto simp: carries_def split: option.splits)
  show ?thesis
    using o r kvs unfolding ChatMessage_parseJson_def message_in_range_def carries_def
    by (simp add: g st json_docD(1,2,5) [OF J] bnd_def upd_def from_sum_def ret_def)
qed

lemma fields_carried:
  assumes J: "json_documented J" and kvs: "carries kvs msg" and r: "message_in_range msg"
  shows "json_int J (JObj kvs) ''from_uid'' = ret (cm_from_uid msg)" "json_int J (JObj kvs) ''to_uid'' = ret (cm_to_uid msg)"
    "json_str J (JObj kvs) ''content'' = ret (cm_content msg)" "json_str J (JObj kvs) ''msg_id'' = ret (cm_msg_id msg)"
    "json_int64 J (JObj kvs) ''send_time'' = ret (cm_send_time msg)" "json_int J (JObj kvs) ''msg_type'' = ret (cm_msg_type msg)"
  using kvs r unfolding carries_def message_in_range_def
  by (simp_all add: json_int_def json_str_def json_int64_def field_int_def field_str_def from_option_def json_docD(1,2,5,8) [OF J])

lemma touched_carried:
  assumes "carries kvs msg"
  obtains kvs' where "jtouch_all [''from_uid'', ''to_uid'', ''content'', ''msg_id'', ''send_time'', ''msg_type''] (JObj kvs) = JObj kvs'"
    "carries kvs' msg"
proof -
  have "\<exists>kvs'. jtouch_all [''from_uid'', ''to_uid'', ''content'', ''msg_id'', ''send_time'', ''msg_type''] (JObj kvs) = JObj kvs' \<and>
      map_of kvs' = map_of kvs"
    by (rule jtouch_all_present) (use assms in \<open>simp add: carries_def\<close>)
  then show thesis using that assms by (auto simp: carries_def)
qed

text \<open>
  The database \<open>db\<close> takes the message on connection \<open>c\<close> and becomes \<open>db'\<close>: the row of the message is
  inserted and then the row of the receiver's relation to the sender is written.
\<close>

definition saves :: "'m mysql_driver \<Rightarrow> nat \<Rightarrow> ChatMessage \<Rightarrow> 'm \<Rightarrow> 'm \<Rightarrow> bool" where
  "saves D c msg db db' \<longleftrightarrow>
     (case drv_execute D c (''INSERT INTO chat_messages(msg_id, from_uid, to_uid, content, msg_type, send_time) '' @
            ''VALUES(?, ?, ?, ?, ?, TIMESTAMP(FROM_UNIXTIME(?)))'')
          [PString (cm_msg_id msg), PInt (cm_from_uid msg), PInt (cm_to_uid msg), PString (cm_content msg),
           PInt (cm_msg_type msg), PInt64 (cm_send_time msg)] db of (ok, db1) \<Rightarrow>
        ok \<and> drv_execute D c (''INSERT INTO chat_message_relation(user_id, peer_id, last_msg_id, unread_count) '' @
            ''VALUES(?, ?, ?, 1) '' @ ''ON DUPLICATE KEY UPDATE last_msg_id = ?, unread_count = unread_count + 1'')
          [PInt (cm_to_uid msg), PInt (cm_from_uid msg), PString (cm_msg_id msg), PString (cm_msg_id msg)] db1 = (True, db'))"

lemma SaveChatMessage_accepted:
  assumes "connections (mysql_pool m) = conn # conns" "\<not> is_stop (mysql_pool m)" and "saves D (sql_connection conn) msg (mysql_server m) db'"
  shows "dao_SaveChatMessage_msg D msg m =
    (Val True, m\<lparr>mysql_pool := (mysql_pool m)\<lparr>connections := conns @ [conn]\<rparr>, mysql_server := db'\<rparr>)"
proof -
  obtain db1 where "drv_execute D (sql_connection conn)
        (''INSERT INTO chat_messages(msg_id, from_uid, to_uid, content, msg_type, send_time) '' @
            ''VALUES(?, ?, ?, ?, ?, TIMESTAMP(FROM_UNIXTIME(?)))'')
          [PString (cm_msg_id msg), PInt (cm_from_uid msg), PInt (cm_to_uid msg), PString (cm_content msg),
           PInt (cm_msg_type msg), PInt64 (cm_send_time msg)] (mysql_server m) = (True, db1)"
      "drv_execute D (sql_connection conn) upsert_relation_sql
          [PInt (cm_to_uid msg), PInt (cm_from_uid msg), PString (cm_msg_id msg), PString (cm_msg_id msg)] db1 = (True, db')"
    using assms(3) unfolding saves_def upsert_relation_sql_def by (auto split: prod.splits)
  then show ?thesis
    using assms(1,2) unfolding dao_SaveChatMessage_msg_def or_fail_def with_conn_def
    by (simp add: dao_getConnection_def dao_returnConnection_def zoom_def pool_defs bnd_def finally_do_def catching_only_def
        execute_def lift_ok_def ret_def del: append.simps)
qed


lemma cached_other_keys [simp]:
  "cached t1 t2 a z i x y n ks (USERIPPREFIX @ k) = ks (USERIPPREFIX @ k)"
  by (simp add: cached_def Let_def key_prefixes MessageKey_def UserMessagesKey_def UnreadKey_def ChatRelationKey_def)

text \<open>
  What every accepted text message has in common: it is stored in the database and in the cache;
  what follows is the part under the \<open>Defer\<close>.
\<close>

definition text_ready ::
    "('r, 'm, 'g) chat_env \<Rightarrow> ('r \<Rightarrow> keyspace) \<Rightarrow> keyspace \<Rightarrow> 'm \<Rightarrow> string \<Rightarrow> ChatMessage \<Rightarrow> int \<Rightarrow> ('r, 'm, 'g) chat_server \<Rightarrow> bool" where
  "text_ready E view ks db' msg_data msg n s \<longleftrightarrow>
     json_documented (lib_json E) \<and>
     (\<exists>kvs. snd (jparse (lib_json E) msg_data) = JObj kvs \<and> carries kvs msg) \<and> message_in_range msg \<and>
     redis_documented (lib_redis E) view \<and> redis_up (redis_mgr s) \<and> view (redis_server (redis_mgr s)) = ks \<and>
     (case connections (mysql_pool (mysql_mgr s)) of [] \<Rightarrow> False
      | conn # _ \<Rightarrow> saves (lib_mysql E) (sql_connection conn) msg (mysql_server (mysql_mgr s)) db') \<and>
     \<not> is_stop (mysql_pool (mysql_mgr s)) \<and>
     cache_ready ks (cm_from_uid msg) (cm_to_uid msg) (cm_msg_id msg) \<and>
     no_nul (cm_msg_id msg) \<and> no_space (cm_msg_id msg) \<and> no_percent (cm_msg_id msg) \<and> cm_msg_id msg \<noteq> [] \<and> no_nul (cm_content msg) \<and>
     next_count (count_text ks (cm_to_uid msg) (cm_from_uid msg)) = Val n"

definition text_request :: "ChatMessage \<Rightarrow> TextChatMsgReq" where
  "text_request msg = \<lparr>tm_fromuid = cm_from_uid msg, tm_touid = cm_to_uid msg, tm_msgid = cm_msg_id msg,
     tm_content = cm_content msg, tm_send_time = cm_send_time msg, tm_msg_type = cm_msg_type msg\<rparr>"

definition text_reply_of :: "ChatMessage \<Rightarrow> json" where
  "text_reply_of msg = text_reply (cm_from_uid msg) (cm_to_uid msg) (cm_content msg) (cm_send_time msg) (cm_msg_type msg)"

definition cached_text :: "int \<times> int \<Rightarrow> ChatMessage \<Rightarrow> int \<Rightarrow> keyspace \<Rightarrow> keyspace" where
  "cached_text clock msg n ks =
     cached (fst clock) (snd clock) (cm_from_uid msg) (cm_to_uid msg) (cm_msg_id msg) (cm_content msg) 1 n ks"

lemma text_handler_run:
  assumes "text_ready E view ks db' msg_data msg n s"
  obtains s2 where "DealChatTextMsgHandler E clock sid msg_data s =
      with_defer (text_reply_of msg) (text_body E (text_request msg))
        (\<lambda>rtvalue. session_send sid (toStyledString (lib_json E) rtvalue) ID_TEXT_CHAT_MSG_RSP) s2"
    "redis_up (redis_mgr s2)" "view (redis_server (redis_mgr s2)) = cached_text clock msg n ks"
    "session_objs s2 = session_objs s" "GetSession s2 = GetSession s" "rpc_pools s2 = rpc_pools s" "rpc_peers s2 = rpc_peers s"
    "mysql_server (mysql_mgr s2) = db'"
proof -
  note r = assms [unfolded text_ready_def]
  obtain kvs where kvs: "snd (jparse (lib_json E) msg_data) = JObj kvs" "carries kvs msg" using r by blast
  have J: "json_documented (lib_json E)" and range: "message_in_range msg" using r by blast+
  obtain kvs' where kvs': "jtouch_all [''from_uid'', ''to_uid'', ''content'', ''msg_id'', ''send_time'', ''msg_type''] (JObj kvs) = JObj kvs'"
      "carries kvs' msg"
    using touched_carried [OF kvs(2)] .
  obtain conn conns where "connections (mysql_pool (mysql_mgr s)) = conn # conns" "\<not> is_stop (mysql_pool (mysql_mgr s))"
      "saves (lib_mysql E) (sql_connection conn) msg (mysql_server (mysql_mgr s)) db'"
    using r by (auto split: list.splits)
  then obtain m1 where m1: "dao_SaveChatMessage_msg (lib_mysql E) msg (mysql_mgr s) = (Val True, m1)" "mysql_server m1 = db'"
    using SaveChatMessage_accepted by fastforce
  define s1 where "s1 = s\<lparr>mysql_mgr := m1\<rparr>"
  have save: "mysql_op (dao_SaveChatMessage_msg (lib_mysql E) msg) s = (Val True, s1)"
    using m1(1) by (simp add: mysql_op_def zoom_def s1_def)
  have "does view (CacheNewMessage (lib_redis E) (fst clock) (snd clock) (cm_from_uid msg) (cm_to_uid msg) (cm_msg_id msg)
      (cm_content msg) 1) (redis_mgr s1) (Val True) (cached_text clock msg n ks)"
    unfolding cached_text_def using r by (intro does_CacheNewMessage) (simp_all add: s1_def)
  then obtain s2 where s2: "redis_op (CacheNewMessage (lib_redis E) (fst clock) (snd clock) (cm_from_uid msg) (cm_to_uid msg) (cm_msg_id msg)
      (cm_content msg) 1) s1 = (Val True, s2)" "redis_up (redis_mgr s2)"
      "view (redis_server (redis_mgr s2)) = cached_text clock msg n ks" "same_but_redis s1 s2"
    by (rule redis_op_does)
  note e = same_but_redisD [OF s2(4)]
  show thesis
  proof (rule that [OF _ s2(2,3)])
    show "DealChatTextMsgHandler E clock sid msg_data s =
      with_defer (text_reply_of msg) (text_body E (text_request msg))
        (\<lambda>rtvalue. session_send sid (toStyledString (lib_json E) rtvalue) ID_TEXT_CHAT_MSG_RSP) s2"
      unfolding DealChatTextMsgHandler_def Let_def kvs(1) fields_carried [OF J kvs(2) range] bnd_ret kvs'(1) parse_carried [OF J kvs'(2) range]
      by (simp add: bnd_def MySQLManager_defs save s2(1) text_reply_of_def text_request_def)
  qed (simp_all add: e, simp_all add: s1_def m1(2) GetSession_def fun_eq_iff)
qed

lemma server_of_user_known:
  assumes "redis_documented (lib_redis E) view" "redis_up (redis_mgr s)"
    and "view (redis_server (redis_mgr s)) (USERIPPREFIX @ to_string touid) = Some (VStr name)" "no_nul name"
  obtains t where "server_of_user E touid s = (Val (True, name), t)" "redis_up (redis_mgr t)"
    "view (redis_server (redis_mgr t)) = view (redis_server (redis_mgr s))" "same_but_redis s t"
proof -
  have k: "no_nul (USERIPPREFIX @ to_string touid)" by simp
  show thesis
    using redis_op_does [OF does_get [OF assms(1,2) k assms(3,4), of "[]"]] that unfolding server_of_user_def by blast
qed

text \<open>
  C2. Delivery on one server: a well-formed text message that the database takes and whose receiver is
  logged in on the same server, with an idle database connection, a documented Redis, an id without
  blank, NUL or percent sign, a reply that fits a frame and room in the send queues, makes the handler return; the message's row
  and the relation's row are written to the database and the message is cached; the receiver's
  session gets one notification and the sender's session one reply with error code Success, both with
  the text of the reply, and no other session and no binding changes. The notification carries no
  \<open>msg_id\<close>.
\<close>

theorem text_delivered_locally:
  assumes ready: "text_ready E view ks db' msg_data msg n s"
    and to: "ks (USERIPPREFIX @ to_string (cm_to_uid msg)) = Some (VStr (self_server_name E))" "no_nul (self_server_name E)"
      "GetSession s (cm_to_uid msg) = Some sid'"
    and sessions: "session_objs s sid = Some c" "session_objs s sid' = Some c'" "sid \<noteq> sid'" "has_room 1 c" "has_room 1 c'"
    and short: "length (toStyledString (lib_json E) (text_reply_of msg)) \<le> 32763"
  shows "\<exists>t d d'. DealChatTextMsgHandler E clock sid msg_data s = (Val (), t) \<and>
     session_objs t = (session_objs s)(sid \<mapsto> d, sid' \<mapsto> d') \<and> GetSession t = GetSession s \<and>
     outbox d' = outbox c' @ [frame (msg_id ID_NOTIFY_TEXT_CHAT_MSG_REQ) (toStyledString (lib_json E) (text_reply_of msg))] \<and>
     outbox d = outbox c @ [frame (msg_id ID_TEXT_CHAT_MSG_RSP) (toStyledString (lib_json E) (text_reply_of msg))] \<and>
     jfield ''error'' (text_reply_of msg) = JInt 0 \<and> jfield ''msg_id'' (text_reply_of msg) = JNull \<and>
     mysql_server (mysql_mgr t) = db' \<and> view (redis_server (redis_mgr t)) = cached_text clock msg n ks"
proof -
  obtain s2 where s2: "DealChatTextMsgHandler E clock sid msg_data s =
      with_defer (text_reply_of msg) (text_body E (text_request msg))
        (\<lambda>rtvalue. session_send sid (toStyledString (lib_json E) rtvalue) ID_TEXT_CHAT_MSG_RSP) s2"
    "redis_up (redis_mgr s2)" "view (redis_server (redis_mgr s2)) = cached_text clock msg n ks"
    "session_objs s2 = session_objs s" "GetSession s2 = GetSession s" "mysql_server (mysql_mgr s2) = db'"
    using text_handler_run [OF ready] by metis
  have R: "redis_documented (lib_redis E) view" using ready by (simp add: text_ready_def)
  have k: "view (redis_server (redis_mgr s2)) (USERIPPREFIX @ to_string (cm_to_uid msg)) = Some (VStr (self_server_name E))"
    using to(1) by (simp add: s2(3) cached_text_def)
  obtain s3 where s3: "server_of_user E (cm_to_uid msg) s2 = (Val (True, self_server_name E), s3)"
      "view (redis_server (redis_mgr s3)) = view (redis_server (redis_mgr s2))" "same_but_redis s2 s3"
    using server_of_user_known [OF R s2(2) k to(2)] by metis
  note e3 = same_but_redisD [OF s3(3)]
  have "session_objs s3 sid' = Some c'" "has_room (Suc 0) c'" using sessions by (simp_all add: e3 s2(4))
  from session_send_outbox [OF this(1) short this(2)]
  obtain d' s4 where s4: "session_send sid' (toStyledString (lib_json E) (text_reply_of msg)) ID_NOTIFY_TEXT_CHAT_MSG_REQ s3 = (Val (), s4)"
      "session_objs s4 = (session_objs s3)(sid' \<mapsto> d')" "same_but_sessions s3 s4"
      "outbox d' = outbox c' @ [frame (msg_id ID_NOTIFY_TEXT_CHAT_MSG_REQ) (toStyledString (lib_json E) (text_reply_of msg))]"
    by metis
  note e4 = same_but_sessionsD [OF s4(3)]
  have "session_objs s4 sid = Some c" "has_room (Suc 0) c" using sessions by (simp_all add: s4(2) e3 s2(4))
  from session_send_outbox [OF this(1) short this(2)]
  obtain d t where t: "session_send sid (toStyledString (lib_json E) (text_reply_of msg)) ID_TEXT_CHAT_MSG_RSP s4 = (Val (), t)"
      "session_objs t = (session_objs s4)(sid \<mapsto> d)" "same_but_sessions s4 t"
      "outbox d = outbox c @ [frame (msg_id ID_TEXT_CHAT_MSG_RSP) (toStyledString (lib_json E) (text_reply_of msg))]"
    by metis
  note et = same_but_sessionsD [OF t(3)]
  have "text_body E (text_request msg) (s2, text_reply_of msg) = (Val (), (s4, text_reply_of msg))"
    by (simp add: text_body_def text_request_def bnd_def outer_pair s3(1) gets_def e3 s2(5) to(3) s4(1))
  then have run: "DealChatTextMsgHandler E clock sid msg_data s = (Val (), t)"
    unfolding s2(1) by (rule with_defer_Val) (rule t(1))
  have so: "session_objs t = (session_objs s)(sid \<mapsto> d, sid' \<mapsto> d')"
    using sessions(3) by (simp add: t(2) s4(2) e3 s2(4) fun_upd_twist)
  have json: "jfield ''error'' (text_reply_of msg) = JInt 0 \<and> jfield ''msg_id'' (text_reply_of msg) = JNull"
    by (simp add: text_reply_of_def text_reply_def set_error_def jfield_def)
  show ?thesis
    by (intro exI [of _ t] exI [of _ d] exI [of _ d'] conjI run so)
      (simp_all add: t(4) s4(4) json et e4 e3 s2(5,6) s3(2) s2(3))
qed

definition demo_message :: "json" where
  "demo_message = JObj [(''msg_id'', JStr ''id1''), (''from_uid'', JInt 1), (''to_uid'', JInt 2), (''content'', JStr ''hi''),
     (''msg_type'', JInt 1), (''send_time'', JInt 1700000000)]"

definition demo_chat :: ChatMessage where
  "demo_chat = \<lparr>cm_msg_id = ''id1'', cm_from_uid = 1, cm_to_uid = 2, cm_content = ''hi'', cm_msg_type = 1,
     cm_send_time = 1700000000, cm_status = 0\<rparr>"

lemma demo_text_ready:
  assumes "\<And>k. ks (''chat:'' @ k) = None"
  shows "text_ready (demo_env demo_message) (\<lambda>ks. ks) ks () ''{}'' demo_chat 1 (demo_server ks)"
proof -
  have c: "carries [(''msg_id'', JStr ''id1''), (''from_uid'', JInt 1), (''to_uid'', JInt 2), (''content'', JStr ''hi''),
     (''msg_type'', JInt 1), (''send_time'', JInt 1700000000)] demo_chat"
    by (simp add: carries_def demo_chat_def)
  have k: "ks (MessageKey i) = None" "ks (UnreadKey a b) = None" "ks (ChatRelationKey a) = None" "ks (UserMessagesKey a) = None" for i a b
    using assms [of "''msg:'' @ i"] assms [of "''user_msgs:'' @ to_string a"] assms [of "''unread:'' @ to_string a @ '':'' @ to_string b"] assms [of "''relation:'' @ to_string a"]
    by (simp_all add: MessageKey_def UnreadKey_def ChatRelationKey_def UserMessagesKey_def)
  have j: "snd (jparse (lib_json (demo_env demo_message)) ''{}'') = JObj [(''msg_id'', JStr ''id1''), (''from_uid'', JInt 1),
      (''to_uid'', JInt 2), (''content'', JStr ''hi''), (''msg_type'', JInt 1), (''send_time'', JInt 1700000000)]"
    by (simp add: demo_message_def)
  have r: "message_in_range demo_chat" by (simp add: demo_chat_def message_in_range_def INT_MIN_def INT_MAX_def)
  have n: "cache_ready ks 1 2 ''id1''" "next_count (count_text ks 2 1) = Val 1"
    by (simp_all add: cache_ready_def is_zset_def is_hash_def is_list_def hash_of_def count_text_def next_count_def k)
  have d: "saves (table_driver (\<lambda>_ _. []) :: unit mysql_driver) i demo_chat () ()" for i by (simp add: saves_def table_driver_def)
  have "\<exists>conn conns. connections (mysql_pool (mysql_mgr (demo_server ks))) = conn # conns" "\<not> is_stop (mysql_pool (mysql_mgr (demo_server ks)))"
    by (simp_all add: demo_server_def)
  then show ?thesis
    unfolding text_ready_def j using c r n d
    by (auto simp: demo_json_documented ref_redis_documented demo_chat_def no_space_def no_percent_def)
qed

theorem text_delivered_locally_witness:
  "\<exists>t d d'. DealChatTextMsgHandler (demo_env demo_message) (1700000000, 1700000000) ''s1'' ''{}'' (demo_server [''uip_2'' \<mapsto> VStr ''chat1'']) = (Val (), t) \<and>
     session_objs t ''s1'' = Some d \<and> session_objs t ''s2'' = Some d' \<and> outbox d' = [frame 1019 ''{}''] \<and> outbox d = [frame 1018 ''{}'']"
proof -
  let ?ks = "[''uip_2'' \<mapsto> VStr ''chat1'']"
  have 2: "USERIPPREFIX @ to_string 2 = ''uip_2''" by code_simp
  have ready: "text_ready (demo_env demo_message) (\<lambda>ks. ks) ?ks () ''{}'' demo_chat 1 (demo_server ?ks)"
    by (rule demo_text_ready) simp
  have "\<exists>t d d'. DealChatTextMsgHandler (demo_env demo_message) (1700000000, 1700000000) ''s1'' ''{}'' (demo_server ?ks) = (Val (), t) \<and>
     session_objs t = (session_objs (demo_server ?ks))(''s1'' \<mapsto> d, ''s2'' \<mapsto> d') \<and> GetSession t = GetSession (demo_server ?ks) \<and>
     outbox d' = outbox (new_CSession ''s2'' 2) @ [frame (msg_id ID_NOTIFY_TEXT_CHAT_MSG_REQ) (toStyledString (lib_json (demo_env demo_message)) (text_reply_of demo_chat))] \<and>
     outbox d = outbox (new_CSession ''s1'' 0) @ [frame (msg_id ID_TEXT_CHAT_MSG_RSP) (toStyledString (lib_json (demo_env demo_message)) (text_reply_of demo_chat))] \<and>
     jfield ''error'' (text_reply_of demo_chat) = JInt 0 \<and> jfield ''msg_id'' (text_reply_of demo_chat) = JNull \<and>
     mysql_server (mysql_mgr t) = () \<and> redis_server (redis_mgr t) = cached_text (1700000000, 1700000000) demo_chat 1 ?ks"
    by (rule text_delivered_locally [OF ready])
      (simp_all add: demo_chat_def 2 new_session_room MAX_SENDQUE_def)
  then show ?thesis by (auto simp: new_session_room)
qed

text \<open>
  A receiver without a server: when Redis records no server for the receiver, the sender gets the
  reply with error code UidInvalid and nobody is notified, although the message has been stored in
  the database and in the cache.
\<close>

theorem text_receiver_offline:
  assumes ready: "text_ready E view ks db' msg_data msg n s"
    and to: "ks (USERIPPREFIX @ to_string (cm_to_uid msg)) = None"
    and session: "session_objs s sid = Some c" "has_room 1 c"
    and short: "length (toStyledString (lib_json E) (set_error UidInvalid (text_reply_of msg))) \<le> 32763"
  shows "\<exists>t d. DealChatTextMsgHandler E clock sid msg_data s = (Val (), t) \<and>
     session_objs t = (session_objs s)(sid \<mapsto> d) \<and>
     outbox d = outbox c @ [frame (msg_id ID_TEXT_CHAT_MSG_RSP) (toStyledString (lib_json E) (set_error UidInvalid (text_reply_of msg)))] \<and>
     rpc_peers t = rpc_peers s \<and> mysql_server (mysql_mgr t) = db' \<and> view (redis_server (redis_mgr t)) = cached_text clock msg n ks"
proof -
  obtain s2 where s2: "DealChatTextMsgHandler E clock sid msg_data s =
      with_defer (text_reply_of msg) (text_body E (text_request msg))
        (\<lambda>rtvalue. session_send sid (toStyledString (lib_json E) rtvalue) ID_TEXT_CHAT_MSG_RSP) s2"
    "redis_up (redis_mgr s2)" "view (redis_server (redis_mgr s2)) = cached_text clock msg n ks"
    "session_objs s2 = session_objs s" "rpc_peers s2 = rpc_peers s" "mysql_server (mysql_mgr s2) = db'"
    using text_handler_run [OF ready] by metis
  have R: "redis_documented (lib_redis E) view" using ready by (simp add: text_ready_def)
  have k: "view (redis_server (redis_mgr s2)) (USERIPPREFIX @ to_string (cm_to_uid msg)) = None"
    using to by (simp add: s2(3) cached_text_def)
  have kn: "no_nul (USERIPPREFIX @ to_string (cm_to_uid msg))" by simp
  obtain s3 where s3: "server_of_user E (cm_to_uid msg) s2 = (Val (False, []), s3)"
      "view (redis_server (redis_mgr s3)) = view (redis_server (redis_mgr s2))" "same_but_redis s2 s3"
    using redis_op_does [OF does_get_missing [OF R s2(2) kn k, of "[]"]] unfolding server_of_user_def by metis
  note e3 = same_but_redisD [OF s3(3)]
  have "session_objs s3 sid = Some c" "has_room (Suc 0) c" using session by (simp_all add: e3 s2(4))
  from session_send_outbox [OF this(1) short this(2)]
  obtain d t where t: "session_send sid (toStyledString (lib_json E) (set_error UidInvalid (text_reply_of msg))) ID_TEXT_CHAT_MSG_RSP s3 = (Val (), t)"
      "session_objs t = (session_objs s3)(sid \<mapsto> d)" "same_but_sessions s3 t"
      "outbox d = outbox c @ [frame (msg_id ID_TEXT_CHAT_MSG_RSP) (toStyledString (lib_json E) (set_error UidInvalid (text_reply_of msg)))]"
    by metis
  have "text_body E (text_request msg) (s2, text_reply_of msg) = (Val (), (s3, set_error UidInvalid (text_reply_of msg)))"
    by (simp add: text_body_def text_request_def bnd_def outer_pair s3(1) local_upd_def upd_def)
  then have run: "DealChatTextMsgHandler E clock sid msg_data s = (Val (), t)"
    unfolding s2(1) by (rule with_defer_Val) (rule t(1))
  show ?thesis
    by (intro exI [of _ t] exI [of _ d] conjI run)
      (simp_all add: t(2,4) same_but_sessionsD [OF t(3)] e3 s2 s3(2))
qed

theorem text_receiver_offline_witness:
  "\<exists>t d. DealChatTextMsgHandler (demo_env demo_message) (1700000000, 1700000000) ''s1'' ''{}'' (demo_server Map.empty) = (Val (), t) \<and>
     session_objs t = (session_objs (demo_server Map.empty))(''s1'' \<mapsto> d) \<and> outbox d = [frame 1018 ''{}'']"
proof -
  have ready: "text_ready (demo_env demo_message) (\<lambda>ks. ks) Map.empty () ''{}'' demo_chat 1 (demo_server Map.empty)"
    by (rule demo_text_ready) simp
  have "\<exists>t d. DealChatTextMsgHandler (demo_env demo_message) (1700000000, 1700000000) ''s1'' ''{}'' (demo_server Map.empty) = (Val (), t) \<and>
     session_objs t = (session_objs (demo_server Map.empty))(''s1'' \<mapsto> d) \<and>
     outbox d = outbox (new_CSession ''s1'' 0) @ [frame (msg_id ID_TEXT_CHAT_MSG_RSP)
       (toStyledString (lib_json (demo_env demo_message)) (set_error UidInvalid (text_reply_of demo_chat)))] \<and>
     rpc_peers t = rpc_peers (demo_server Map.empty) \<and> mysql_server (mysql_mgr t) = () \<and>
     redis_server (redis_mgr t) = cached_text (1700000000, 1700000000) demo_chat 1 Map.empty"
    by (rule text_receiver_offline [OF ready]) (simp_all add: new_session_room MAX_SENDQUE_def)
  then show ?thesis by (auto simp: new_session_room)
qed

text \<open>
  C19. A message id that is a format: when the id of a text message holds a conversion \<open>%s\<close> or \<open>%b\<close>, the
  chat server writes the message to the database and then ends in undefined behaviour, because
  \<open>CacheNewMessage\<close> passes the id within the format of \<open>redisCommand\<close>. One message of a client, well-formed
  otherwise, is enough.
\<close>

theorem format_id_crashes_server:
  assumes J: "json_documented (lib_json E)" "snd (jparse (lib_json E) msg_data) = JObj kvs" "carries kvs msg" "message_in_range msg"
    and R: "redis_documented (lib_redis E) view" "redis_up (redis_mgr s)"
      "is_hash (view (redis_server (redis_mgr s))) (MessageKey (cm_msg_id msg))"
    and db: "mysql_pool (mysql_mgr s) = \<lparr>connections = conn # conns, is_stop = False\<rparr>"
      "saves (lib_mysql E) (sql_connection conn) msg (mysql_server (mysql_mgr s)) db'"
    and id: "asks_argument (cm_msg_id msg)" "no_nul (cm_msg_id msg)" "no_nul (cm_content msg)"
  shows "\<exists>t. DealChatTextMsgHandler E clock sid msg_data s = (Crash, t) \<and> mysql_server (mysql_mgr t) = db'"
proof -
  obtain kvs' where kvs': "jtouch_all [''from_uid'', ''to_uid'', ''content'', ''msg_id'', ''send_time'', ''msg_type''] (JObj kvs) = JObj kvs'"
      "carries kvs' msg"
    using touched_carried [OF J(3)] .
  define s1 where "s1 = s\<lparr>mysql_mgr := (mysql_mgr s)\<lparr>mysql_pool := (mysql_pool (mysql_mgr s))\<lparr>connections := conns @ [conn]\<rparr>, mysql_server := db'\<rparr>\<rparr>"
  have save: "mysql_op (dao_SaveChatMessage_msg (lib_mysql E) msg) s = (Val True, s1)"
    using SaveChatMessage_accepted [of "mysql_mgr s" conn conns "lib_mysql E" msg db'] db by (simp add: mysql_op_def zoom_def s1_def)
  let ?c = "CacheNewMessage (lib_redis E) (fst clock) (snd clock) (cm_from_uid msg) (cm_to_uid msg) (cm_msg_id msg) (cm_content msg) 1"
  have "fst (?c (redis_mgr s1)) = Crash"
    by (rule CacheNewMessage_format [OF R(1)]) (use R id in \<open>simp_all add: s1_def\<close>)
  then have cache: "redis_op ?c s1 = (Crash, s1\<lparr>redis_mgr := snd (?c (redis_mgr s1))\<rparr>)"
    by (cases "?c (redis_mgr s1)") (simp add: redis_op_def zoom_def)
  have "DealChatTextMsgHandler E clock sid msg_data s = (Crash, s1\<lparr>redis_mgr := snd (?c (redis_mgr s1))\<rparr>)"
    unfolding DealChatTextMsgHandler_def Let_def J(2) fields_carried [OF J(1,3,4)] bnd_ret kvs'(1) parse_carried [OF J(1) kvs'(2) J(4)]
    by (simp add: bnd_def MySQLManager_defs save cache)
  then show ?thesis by (simp add: s1_def)
qed

definition format_message :: "(string \<times> json) list" where
  "format_message = [(''msg_id'', JStr ''%s''), (''from_uid'', JInt 1), (''to_uid'', JInt 2), (''content'', JStr ''hi''),
     (''msg_type'', JInt 1), (''send_time'', JInt 1700000000)]"

theorem format_id_crashes_server_witness:
  "\<exists>t. DealChatTextMsgHandler (demo_env (JObj format_message)) (1700000000, 1700000000) ''s1'' ''{}'' (demo_server Map.empty) = (Crash, t)"
proof -
  have "\<exists>t. DealChatTextMsgHandler (demo_env (JObj format_message)) (1700000000, 1700000000) ''s1'' ''{}'' (demo_server Map.empty) = (Crash, t) \<and>
      mysql_server (mysql_mgr t) = ()"
    by (rule format_id_crashes_server [where view = "\<lambda>ks. ks" and kvs = format_message and msg = "demo_chat\<lparr>cm_msg_id := ''%s''\<rparr>"
          and conn = "\<lparr>sql_connection = 0, last_oper_time = 0\<rparr>" and conns = "[\<lparr>sql_connection = 1, last_oper_time = 0\<rparr>]"])
      (simp_all add: demo_json_documented ref_redis_documented is_hash_def no_nul_def saves_def table_driver_def demo_chat_def
        demo_server_def redis_up_def carries_def format_message_def message_in_range_def INT_MIN_def INT_MAX_def)
  then show ?thesis by blast
qed

end
