(* ===== verification/ServerRun.thy ===== *)
theory ServerRun
  imports ChatLogicFacts
begin

text \<open>
  A running chat server as a state machine. The io threads accept connections and complete reads
  and writes, the worker threads run handlers; a step is one such event, or one call of a handler
  on the shared state (sending on a session, binding a user), so the steps of handlers and of
  connections interleave in any order.
\<close>

inductive server_step ::
    "('r, 'm, 'g) chat_env \<Rightarrow> ('r, 'm, 'g) chat_server \<Rightarrow> ('r, 'm, 'g) chat_server \<Rightarrow> bool" for E where
  accept: "session_objs s sid \<noteq> None \<Longrightarrow> session_objs s uuid = None \<Longrightarrow>
     handleAccept sid err (uuid, garbage) s = (Val (), t) \<Longrightarrow> server_step E s t"
| read: "session_read sid ec data s = (Val (), t) \<Longrightarrow> server_step E s t"
| written: "session_written sid err s = (Val (), t) \<Longrightarrow> server_step E s t"
| sends: "session_send sid msg i s = (Val (), t) \<Longrightarrow> server_step E s t"
| binds: "bind_user E sid uid s = (Val (), t) \<Longrightarrow> server_step E s t"
| stores: "same_but_redis s t \<or> same_but_mysql s t \<Longrightarrow> server_step E s t"

inductive_cases server_stepE: "server_step E s t"

text \<open>The server right after its construction, with the first session waiting to be accepted.\<close>

inductive reachable ::
    "('r, 'm, 'g) chat_env \<Rightarrow> ('r, 'm, 'g) chat_server \<Rightarrow> bool" for E where
  init: "session_objs s = Map.empty \<Longrightarrow> server_sessions s = {} \<Longrightarrow> uid_to_session s = Map.empty \<Longrightarrow>
     reachable E (startAccept fresh s)"
| step: "reachable E s \<Longrightarrow> server_step E s t \<Longrightarrow> reachable E t"

definition server_ok :: "('r, 'm, 'g) chat_server \<Rightarrow> bool" where
  "server_ok s \<longleftrightarrow> ran (uid_to_session s) \<subseteq> dom (session_objs s) \<and> server_sessions s \<subseteq> dom (session_objs s)"

lemma ok_on_session: "server_ok s \<Longrightarrow> on_session sid p s = (r, t) \<Longrightarrow> server_ok t"
  by (auto simp: server_ok_def on_session_def split: option.splits prod.splits)

lemma on_session_dom: "on_session sid p s = (Val x, t) \<Longrightarrow> sid \<in> dom (session_objs s) \<and>
    uid_to_session t = uid_to_session s \<and> server_sessions t = server_sessions s \<and> dom (session_objs t) = dom (session_objs s)"
  by (auto simp: on_session_def split: option.splits prod.splits if_splits)

lemma ran_update_subset: "ran m \<subseteq> A \<Longrightarrow> ran (m(k := None)) \<subseteq> A" "ran m \<subseteq> A \<Longrightarrow> x \<in> A \<Longrightarrow> ran (m(k \<mapsto> x)) \<subseteq> A"
  by (auto simp: ran_def split: if_splits)

lemma ok_clearSession:
  assumes "server_ok s" and "clearSession sid s = (Val (), t)"
  shows "server_ok t"
proof (cases "sid \<in> server_sessions s")
  case True
  then obtain c where c: "session_objs s sid = Some c" using assms(1) by (auto simp: server_ok_def)
  have "ran ((uid_to_session s)(user_uid c := None)) \<subseteq> dom (session_objs s)"
    by (rule ran_update_subset) (use assms(1) in \<open>simp add: server_ok_def\<close>)
  moreover have "t = s\<lparr>session_objs := (session_objs s)(sid \<mapsto> c), uid_to_session := (uid_to_session s)(user_uid c := None),
      server_sessions := server_sessions s - {sid}\<rparr>"
    using assms(2) True c
    by (simp add: clearSession_def bnd_def gets_def upd_def on_session_def RemoveUserSession_def)
  ultimately show ?thesis using assms(1) by (auto simp: server_ok_def simp del: ran_map_upd)
next
  case False
  then show ?thesis using assms by (auto simp: clearSession_def bnd_def gets_def upd_def ret_def server_ok_def)
qed

lemma ok_close_if:
  assumes "server_ok s" and "close_if sid b s = (Val (), t)"
  shows "server_ok t"
  using assms
  by (auto simp: close_if_def session_close_def ret_def split: if_splits dest!: bnd_ValD)
    (blast intro: ok_on_session ok_clearSession)

lemma ok_step: "server_step E s t \<Longrightarrow> server_ok s \<Longrightarrow> server_ok t"
proof (induction rule: server_step.induct)
  case (accept s sid uuid err garbage t)
  then show ?case
    by (auto simp: handleAccept_def bnd_def on_session_def upd_def ret_def startAccept_def server_ok_def split: if_splits)
next
  case (read sid ec data s t)
  then show ?case using ok_on_session ok_close_if by (fastforce simp: session_read_def dest!: bnd_ValD)
next
  case (written sid err s t)
  then show ?case using ok_on_session ok_close_if by (fastforce simp: session_written_def dest!: bnd_ValD)
next
  case (sends sid msg i s t)
  then show ?case using ok_on_session by (fastforce simp: session_send_def)
next
  case (binds sid uid s t)
  then obtain u v b where u: "on_session sid (set_user_id uid) s = (Val (), u)"
      and v: "redis_op (redis_set (lib_redis E) (USERIPPREFIX @ to_string uid) (self_server_name E)) u = (Val b, v)"
      and t: "t = SetUserSession uid sid v"
    by (auto simp: bind_user_def upd_def dest!: bnd_ValD)
  have "uid_to_session v = uid_to_session u" "server_sessions v = server_sessions u" "session_objs v = session_objs u"
    using v by (auto simp: redis_op_def zoom_def split: prod.splits)
  then show ?case
    using on_session_dom [OF u] binds(2) t ran_update_subset(2) [of "uid_to_session s" "dom (session_objs s)" sid uid]
    by (auto simp: SetUserSession_def server_ok_def)
next
  case (stores s t)
  then show ?case by (auto simp: server_ok_def same_but_redis_def same_but_mysql_def)
qed

text \<open>
  No dangling session: in every reachable state of the server, the session that \<open>UserMgr\<close> returns
  for a user and every session of the server's table is a session object that exists, so sending a
  notification to the user never fails for the lack of an object.
\<close>

theorem sessions_exist:
  assumes "reachable E s"
  shows "(\<forall>uid sid. GetSession s uid = Some sid \<longrightarrow> (\<exists>c. session_objs s sid = Some c)) \<and>
    (\<forall>sid \<in> server_sessions s. \<exists>c. session_objs s sid = Some c)"
proof -
  have "server_ok s"
    using assms
  proof (induction rule: reachable.induct)
    case (init s fresh)
    then show ?case by (simp add: server_ok_def startAccept_def)
  next
    case (step s t)
    then show ?case using ok_step by blast
  qed
  then show ?thesis by (auto simp: server_ok_def GetSession_def ran_def)
qed

text \<open>
  Closing a session of the server's table: it is taken out of the table and marked closed, and the
  uid it carries is unbound, whatever session that uid is bound to by then; every other binding
  stays. So when a user has logged in again on another connection, closing the old one unbinds
  the new one.
\<close>

theorem session_close_effect:
  assumes "sid \<in> server_sessions s" and "session_objs s sid = Some c"
  shows "\<exists>t. session_close sid s = (Val (), t) \<and> server_sessions t = server_sessions s - {sid} \<and>
    session_objs t = (session_objs s)(sid \<mapsto> close_session c) \<and>
    (\<forall>uid. GetSession t uid = (if uid = user_uid c then None else GetSession s uid)) \<and>
    (\<forall>sid'. GetSession s (user_uid c) = Some sid' \<longrightarrow> sid' \<noteq> sid \<longrightarrow>
       session_objs t sid' = session_objs s sid' \<and> GetSession t (user_uid c) = None)"
  using assms
  by (auto simp: session_close_def clearSession_def bnd_def gets_def upd_def on_session_def RemoveUserSession_def GetSession_def)

lemma demo_sel [simp]: "user_uid (new_CSession sid u) = u" "server_sessions (demo_server ks) = {''s1'', ''s2''}"
  by (simp_all add: new_CSession_def demo_server_def)

theorem session_close_effect_witness:
  "\<exists>t. session_close ''s2'' ((demo_server Map.empty)\<lparr>uid_to_session := [2 \<mapsto> ''s1'']\<rparr>) = (Val (), t) \<and> GetSession t 2 = None"
  using session_close_effect [of "''s2''" "(demo_server Map.empty)\<lparr>uid_to_session := [2 \<mapsto> ''s1'']\<rparr>" "new_CSession ''s2'' 2"]
  by (auto simp: GetSession_def)

theorem sessions_exist_witness:
  "\<exists>c. session_objs (startAccept (''s1'', 0) ((demo_server Map.empty)\<lparr>session_objs := Map.empty, server_sessions := {},
      uid_to_session := Map.empty\<rparr>)) ''s1'' = Some c \<and>
    (\<forall>sid \<in> server_sessions (startAccept (''s1'', 0) ((demo_server Map.empty)\<lparr>session_objs := Map.empty, server_sessions := {},
      uid_to_session := Map.empty\<rparr>)). \<exists>c. session_objs (startAccept (''s1'', 0) ((demo_server Map.empty)\<lparr>session_objs := Map.empty,
      server_sessions := {}, uid_to_session := Map.empty\<rparr>)) sid = Some c)"
  using sessions_exist [OF reachable.init [of "(demo_server Map.empty)\<lparr>session_objs := Map.empty, server_sessions := {},
      uid_to_session := Map.empty\<rparr>" "demo_env JNull" "(''s1'', 0)"]]
  by (auto simp: startAccept_def)

lemma bind_user_table: "bind_user E sid uid s = (r, t) \<Longrightarrow> server_sessions t = server_sessions s"
  by (auto simp: bind_user_def bnd_def on_session_def redis_op_def zoom_def upd_def SetUserSession_def
      split: prod.splits result.splits option.splits)

text \<open>
  A late login binds a dead session: a state is reachable in which a user is bound to a session
  that is closed and no longer in the server's table. The connection closes while the
  login handler runs on a worker thread; the handler then binds the user to the closed session.
\<close>

theorem late_login_binds_closed_session:
  "\<exists>(s :: (keyspace, unit, unit) chat_server) c. reachable (demo_env JNull) s \<and> GetSession s 7 = Some ''s1'' \<and>
     session_objs s ''s1'' = Some c \<and> b_close c \<and> ''s1'' \<notin> server_sessions s"
proof -
  let ?E = "demo_env JNull"
  define s0 where "s0 = (demo_server Map.empty)\<lparr>session_objs := Map.empty, server_sessions := {}, uid_to_session := Map.empty\<rparr>"
  define s1 where "s1 = startAccept (''s1'', 0) s0"
  have r1: "reachable ?E s1" unfolding s1_def by (rule reachable.init) (simp_all add: s0_def)
  have o1: "session_objs s1 = [''s1'' \<mapsto> new_CSession ''s1'' 0]" by (simp add: s1_def s0_def startAccept_def)
  obtain s2 where s2: "handleAccept ''s1'' False (''s2'', 0) s1 = (Val (), s2)"
      "session_objs s2 ''s1'' = Some (start (new_CSession ''s1'' 0))" "''s1'' \<in> server_sessions s2" "redis_mgr s2 = redis_mgr (demo_server Map.empty)"
    by (auto simp: s1_def s0_def) (auto simp: handleAccept_def bnd_def on_session_def o1 upd_def startAccept_def)
  have r2: "reachable ?E s2"
    by (rule reachable.step [OF r1], rule server_step.accept [OF _ _ s2(1)]) (simp_all add: o1)
  have "on_read True [] (start (new_CSession ''s1'' 0)) = (Val True, (start (new_CSession ''s1'' 0))\<lparr>reading := NoRead\<rparr>)"
    by (simp add: on_read_def start_def reader_defs new_CSession_def memcpy_def head_handler_def HEAD_TOTAL_LEN_def Let_def)
  then obtain s3 c3 where s3: "session_read ''s1'' True [] s2 = (Val (), s3)" "session_objs s3 ''s1'' = Some c3" "b_close c3"
      "''s1'' \<notin> server_sessions s3" "redis_mgr s3 = redis_mgr (demo_server Map.empty)"
    using s2(2-4) by (auto simp: session_read_def bnd_def on_session_def close_if_def session_close_def clearSession_def gets_def upd_def
        RemoveUserSession_def close_session_def)
  have r3: "reachable ?E s3" by (rule reachable.step [OF r2 server_step.read [OF s3(1)]])
  have R: "redis_documented (lib_redis ?E) (\<lambda>ks. ks)" "redis_up (redis_mgr s3)" "no_nul (self_server_name ?E)"
    using s3(5) by (simp_all add: ref_redis_documented)
  obtain s4 where s4: "bind_user ?E ''s1'' 7 s3 = (Val (), s4)" "session_objs s4 = (session_objs s3)(''s1'' \<mapsto> c3\<lparr>user_uid := 7\<rparr>)"
      "GetSession s4 = (GetSession s3)(7 \<mapsto> ''s1'')" "server_sessions s4 = server_sessions s3"
    using bind_user_effect [OF R s3(2), of 7] bind_user_table by metis
  have "reachable ?E s4" by (rule reachable.step [OF r3 server_step.binds [OF s4(1)]])
  then show ?thesis using s4 s3(3,4) by (intro exI [of _ s4] exI [of _ "c3\<lparr>user_uid := 7\<rparr>"]) simp
qed

end
