(* ===== verification/HandlerSafety.thy ===== *)
theory HandlerSafety
  imports ChatLogicFacts
begin

text \<open>
  Facts about all message handlers at once: which pooled connections come back, and the dispatch of
  messages to handlers.
\<close>

section \<open>Connections\<close>

text \<open>
  The idle connections of the pools of the server, and their stop flags: \<open>P\<close> says it of the Redis
  pool, \<open>M\<close> and \<open>G\<close> are the contents of the MySQL pool and of the stub pools.
\<close>

definition server_pools ::
    "('r RedisManager \<Rightarrow> bool) \<Rightarrow> nat SqlConnection multiset \<times> bool \<Rightarrow> (string \<rightharpoonup> chat_stub multiset \<times> bool) \<Rightarrow>
     ('r, 'm, 'g) chat_server \<Rightarrow> bool" where
  "server_pools P M G s \<longleftrightarrow> P (redis_mgr s) \<and> dao_pool_is (fst M) (snd M) (mysql_mgr s) \<and>
     (\<forall>name. map_option (\<lambda>p. (mset (connections p), is_stop p)) (rpc_pools s name) = G name)"

lemma kd_of_keeps: "keeps I p \<Longrightarrow> keeps_done I p"
  unfolding keeps_done_def by (blast dest: keepsD)

lemma kd_redis_op:
  assumes "keeps_done R p"
  shows "keeps_done (server_pools R M G) (redis_op p)"
  using assms by (auto simp: keeps_done_def server_pools_def redis_op_def zoom_def split: prod.splits)

lemma kd_mysql_op:
  assumes "keeps_done (dao_pool_is (fst M) (snd M)) p"
  shows "keeps_done (server_pools R M G) (mysql_op p)"
  using assms by (auto simp: keeps_done_def server_pools_def mysql_op_def zoom_def split: prod.splits)

lemma kd_on_session: "keeps_done (server_pools R M G) (on_session sid p)"
  by (rule kd_of_keeps, rule keeps_on_session) (simp add: server_pools_def)

lemma kd_session_send: "keeps_done (server_pools R M G) (session_send sid msg i)"
  unfolding session_send_def by (rule kd_on_session)

lemma kd_gets [intro, simp]: "keeps_done I (gets f)" "keeps_done I (from_sum x)" "keeps_done I waits"
  by (rule kd_of_keeps, simp)+

lemma kd_json [intro, simp]: "keeps_done I (json_int J root k)" "keeps_done I (json_str J root k)" "keeps_done I (json_int64 J root k)"
  by (simp_all add: json_int_def json_str_def json_int64_def)

lemma kd_case_prod: "(\<And>a b. keeps_done I (f a b)) \<Longrightarrow> keeps_done I (case p of (a, b) \<Rightarrow> f a b)"
  by (cases p) simp

lemma kd_case_result:
  "(\<And>x. keeps_done I (f x)) \<Longrightarrow> (\<And>e. keeps_done I (g e)) \<Longrightarrow> keeps_done I p \<Longrightarrow> keeps_done I q \<Longrightarrow>
   keeps_done I (case r of Val x \<Rightarrow> f x | Exn e \<Rightarrow> g e | Waits \<Rightarrow> p | Crash \<Rightarrow> q)"
  by (cases r) simp_all

lemma kd_catching:
  assumes "keeps_done I p" and "\<And>e. keeps_done I (h e)"
  shows "keeps_done I (catching p h)"
  unfolding keeps_done_def
proof (intro allI impI)
  fix s r t
  assume s: "I s" "catching p h s = (r, t)" "r \<noteq> Waits" "r \<noteq> Crash"
  obtain x u where x: "p s = (x, u)" by fastforce
  show "I t"
  proof (cases x)
    case (Exn e)
    then have "I u" "h e u = (r, t)" using assms(1) s x unfolding keeps_done_def by (auto simp: catching_def)
    then show ?thesis using assms(2) s(3,4) unfolding keeps_done_def by blast
  qed (use assms(1) s x in \<open>auto simp: catching_def keeps_done_def\<close>)
qed

lemma kd_with_defer:
  assumes "keeps_done (I \<circ> fst) body" and "\<And>v. keeps_done I (fin v)"
  shows "keeps_done I (with_defer v body fin)"
  unfolding keeps_done_def
proof (intro allI impI)
  fix s r t
  assume s: "I s" "with_defer v body fin s = (r, t)" "r \<noteq> Waits" "r \<noteq> Crash"
  obtain x u w where x: "body (s, v) = (x, (u, w))" by (metis prod.collapse)
  have u: "I u" if "x \<noteq> Waits" "x \<noteq> Crash"
    using assms(1) s(1) x that unfolding keeps_done_def by fastforce
  have fin: "keeps_done I (bnd (no_throw (fin w)) (\<lambda>_. p))" if "keeps_done I p" for p :: "('a, 'c) prog"
    unfolding no_throw_def by (intro kd_bnd kd_catching kd_basic assms(2) that)
  show "I t"
  proof (cases x)
    case (Val y)
    then show ?thesis
      using s x u fin [OF kd_basic(1), of y] unfolding keeps_done_def by (fastforce simp: with_defer_def)
  next
    case (Exn e)
    then show ?thesis
      using s x u fin [OF kd_basic(2), of e] unfolding keeps_done_def by (fastforce simp: with_defer_def)
  qed (use s x in \<open>auto simp: with_defer_def\<close>)
qed

lemmas kd_chat = kd_cases kd_case_prod kd_bnd kd_catching kd_with_defer kd_session_send kd_on_session kd_redis_op kd_mysql_op
  kd_json kd_gets kd_outer kd_local_upd kd_basic kd_forM kd_collect

text \<open>
  The Redis pool after some connections were lost: \<open>nulls\<close> reads a number off the server's state, and no
  more than its growth over \<open>k\<close> is missing from \<open>C\<close>.
\<close>

definition pool_lost :: "('r \<Rightarrow> nat) \<Rightarrow> nat multiset \<Rightarrow> bool \<Rightarrow> nat \<Rightarrow> 'r RedisManager \<Rightarrow> bool" where
  "pool_lost nulls C b k m \<longleftrightarrow> is_stop (redis_pool m) = b \<and>
     (\<exists>lost. mset (connections (redis_pool m)) + lost = C \<and> size lost + k \<le> nulls (redis_server m))"

definition grows :: "('r \<Rightarrow> nat) \<Rightarrow> 'r redis_fun \<Rightarrow> bool" where
  "grows nulls redis \<longleftrightarrow> (\<forall>c call r. nulls r \<le> nulls (snd (redis c call r)))"

definition counts_nulls :: "('r \<Rightarrow> nat) \<Rightarrow> 'r redis_fun \<Rightarrow> bool" where
  "counts_nulls nulls redis \<longleftrightarrow> (\<forall>c call r. fst (redis c call r) = None \<longrightarrow> nulls r < nulls (snd (redis c call r)))"

lemma pool_lost_mono:
  assumes "mset (connections (redis_pool m')) + add = mset (connections (redis_pool m))" "is_stop (redis_pool m') = is_stop (redis_pool m)"
    and "nulls (redis_server m) + size add \<le> nulls (redis_server m')" and "pool_lost nulls C b k m"
  shows "pool_lost nulls C b k m'"
proof -
  obtain lost where "mset (connections (redis_pool m)) + lost = C" "size lost + k \<le> nulls (redis_server m)"
    using assms(4) by (auto simp: pool_lost_def)
  then have "mset (connections (redis_pool m')) + (add + lost) = C" "size (add + lost) + k \<le> nulls (redis_server m')"
    using assms(1,3) by (auto simp: add.assoc [symmetric])
  then show ?thesis using assms(2,4) unfolding pool_lost_def by blast
qed

lemma with_connection_lost:
  assumes "grows nulls redis"
  shows "keeps (pool_lost nulls C b k) (with_connection redis call d body)"
  unfolding keeps_def
proof (intro allI impI)
  fix m assume m: "pool_lost nulls C b k m"
  show "pool_lost nulls C b k (snd (with_connection redis call d body m))"
  proof (cases "is_stop (redis_pool m) \<or> connections (redis_pool m) = []")
    case True
    then show ?thesis using m by (auto simp: with_connection_def pool_defs pool_lost_def)
  next
    case False
    then obtain c cs where c: "connections (redis_pool m) = c # cs" by (cases "connections (redis_pool m)") auto
    show ?thesis
      by (rule pool_lost_mono [OF _ _ _ m, where add = "{#}"])
        (use assms False c in \<open>auto simp: with_connection_def pool_defs grows_def split: prod.splits\<close>, metis snd_conv)
  qed
qed

lemma with_connection_late_lost:
  assumes "grows nulls redis" and "counts_nulls nulls redis"
  shows "keeps (pool_lost nulls C b k) (with_connection_late redis call d body)"
  unfolding keeps_def
proof (intro allI impI)
  fix m assume m: "pool_lost nulls C b k m"
  show "pool_lost nulls C b k (snd (with_connection_late redis call d body m))"
  proof (cases "is_stop (redis_pool m) \<or> connections (redis_pool m) = []")
    case True
    then show ?thesis using m by (auto simp: with_connection_late_def pool_defs pool_lost_def)
  next
    case False
    then obtain c cs where c: "connections (redis_pool m) = c # cs" by (cases "connections (redis_pool m)") auto
    obtain reply r where r: "redis c call (redis_server m) = (reply, r)" by fastforce
    have g: "nulls (redis_server m) \<le> nulls r" "reply = None \<Longrightarrow> nulls (redis_server m) < nulls r"
      using assms r unfolding grows_def counts_nulls_def by (metis fst_conv snd_conv)+
    show ?thesis
      by (rule pool_lost_mono [OF _ _ _ m, where add = "if reply = None then {#c#} else {#}"])
        (use g False c r in \<open>auto simp: with_connection_late_def pool_defs split: option.splits\<close>)
  qed
qed

lemma kd_redis:
  assumes "grows nulls redis"
  shows "keeps_done (pool_lost nulls C b j) (redis_get redis k v)" "keeps_done (pool_lost nulls C b j) (redis_set redis k v)"
    "keeps_done (pool_lost nulls C b j) (hget redis k f v)" "keeps_done (pool_lost nulls C b j) (hset redis k f v)"
    "keeps_done (pool_lost nulls C b j) (rpush redis k v)" "keeps_done (pool_lost nulls C b j) (redis_del redis k)"
    "keeps_done (pool_lost nulls C b j) (expire redis k i)"
  unfolding redis_defs by (intro kd_of_keeps with_connection_lost assms)+

lemma kd_redis_late:
  assumes "grows nulls redis" "counts_nulls nulls redis"
  shows "keeps_done (pool_lost nulls C b l) (redis_execute redis v)" "keeps_done (pool_lost nulls C b l) (zrevrange redis k i j)"
proof -
  show "keeps_done (pool_lost nulls C b l) (zrevrange redis k i j)"
    unfolding zrevrange_def by (intro kd_of_keeps with_connection_late_lost assms)
  have "keeps (pool_lost nulls C b l) (with_connection_late redis (RedisCommand (c_str v) []) False
      (\<lambda>reply. case reply of RError _ \<Rightarrow> Val False | _ \<Rightarrow> Val True))"
    by (rule with_connection_late_lost [OF assms])
  then show "keeps_done (pool_lost nulls C b l) (redis_execute redis v)"
    by (auto simp: keeps_done_def redis_execute_def dest: keepsD split: if_splits)
qed

lemma kd_hset_each: "grows nulls redis \<Longrightarrow> keeps_done (pool_lost nulls C b l) (hset_each redis k fvs)"
proof (induction fvs)
  case (Cons fv fvs)
  then show ?case by (cases fv) (auto intro!: kd_bnd kd_redis)
qed simp

lemma kd_bump_unread: "grows nulls redis \<Longrightarrow> keeps_done (pool_lost nulls C b l) (bump_unread redis a z)"
  unfolding bump_unread_def Let_def
  by (intro kd_chat kd_redis) (auto simp: keeps_done_def)

lemma kd_CacheNewMessage:
  "grows nulls redis \<Longrightarrow> counts_nulls nulls redis \<Longrightarrow> keeps_done (pool_lost nulls C b l) (CacheNewMessage redis t1 t2 a z i x y)"
  unfolding CacheNewMessage_def Let_def
  by (intro kd_chat kd_redis kd_redis_late kd_hset_each kd_bump_unread)

lemma kd_read_message: "grows nulls redis \<Longrightarrow> keeps_done (pool_lost nulls C b l) (read_message redis i)"
  unfolding read_message_def read_field_def Let_def by (intro kd_chat kd_redis)

lemma kd_GetRecentMessages: "grows nulls redis \<Longrightarrow> counts_nulls nulls redis \<Longrightarrow> keeps_done (pool_lost nulls C b l) (GetRecentMessages redis uid n)"
  unfolding GetRecentMessages_def push_messages_def
  by (intro kd_chat kd_redis_late kd_read_message)

lemma kd_cache_Mark: "grows nulls redis \<Longrightarrow> keeps_done (pool_lost nulls C b l) (cache_MarkMessagesAsRead redis a z)"
  unfolding cache_MarkMessagesAsRead_def by (intro kd_chat kd_redis)

text \<open>Database operations, collected from the lemmas of \<open>ChatDao\<close>.\<close>

lemma kd_mysql:
  "keeps_done (dao_pool_is C b) (MySQLManager_GetUser D uid)" "keeps_done (dao_pool_is C b) (MySQLManager_GetUser_name D name)"
  "keeps_done (dao_pool_is C b) (MySQLManager_AddFriendApply D a z)" "keeps_done (dao_pool_is C b) (MySQLManager_AuthFriendApply D a z)"
  "keeps_done (dao_pool_is C b) (MySQLManager_AddFriend D a z name)" "keeps_done (dao_pool_is C b) (MySQLManager_MarkMessagesAsRead D a z)"
  "keeps_done (dao_pool_is C b) (MySQLManager_SaveChatMessage_msg D msg)"
  "keeps_done (dao_pool_is C b) (MySQLManager_GetRecentMessages D f uid i j)"
  unfolding MySQLManager_defs dao_defs dao_GetRecentMessages_def
  by (intro kd_rules kd_collect kd_message_of_row)+

lemma kd_listing:
  assumes "keeps_done (dao_pool_is C b \<circ> fst) p"
  shows "keeps_done (dao_pool_is C b) (\<lambda>m. case p (m, []) of (r, (m', xs)) \<Rightarrow>
      (case r of Val b \<Rightarrow> Val (b, xs) | Exn e \<Rightarrow> Exn e | Waits \<Rightarrow> Waits | Crash \<Rightarrow> Crash, m'))"
  using assms by (fastforce simp: keeps_done_def split: prod.splits result.splits)

lemma kd_lists:
  "keeps_done (server_pools R M G) (GetFriendApplyInfo E uid)" "keeps_done (server_pools R M G) (GetFriendList E uid)"
  unfolding GetFriendApplyInfo_def GetFriendList_def MySQLManager_defs dao_GetApplyList_def dao_GetFriendList_def
  by (intro kd_mysql_op kd_listing kd_rules kd_friend_of_row)+

lemma kd_read_base_info: "keeps_done I (read_base_info J root u)"
  by (rule kd_of_keeps) (rule keeps_read_base_info)

lemma kd_GetBaseInfo: "grows nulls (lib_redis E) \<Longrightarrow> keeps_done (server_pools (pool_lost nulls C b k) M G) (GetBaseInfo E uid u)"
  unfolding GetBaseInfo_def Let_def by (intro kd_chat kd_redis kd_mysql kd_read_base_info)

lemma kd_GetUserByName: "grows nulls (lib_redis E) \<Longrightarrow> keeps_done (server_pools (pool_lost nulls C b k) M G \<circ> fst) (GetUserByName E name)"
  unfolding GetUserByName_def Let_def by (intro kd_chat kd_redis kd_mysql kd_read_base_info)

lemma kd_rpc_call:
  assumes pool: "rpc_pools s server = Some pool" and s: "server_pools R M G s"
    and run: "with_stub server call pool s = (r, t)" "r \<noteq> Waits" "r \<noteq> Crash"
  shows "server_pools R M G t"
proof (cases "is_stop pool \<or> connections pool = []")
  case True
  then show ?thesis using run by (cases "is_stop pool") (auto simp: with_stub_def pool_defs)
next
  case False
  then obtain c cs where c: "connections pool = c # cs" by (cases "connections pool") auto
  have "map_option (\<lambda>p. (mset (connections p), is_stop p)) (rpc_pools s server) = G server"
    using s by (simp add: server_pools_def)
  then have "G server = Some (add_mset c (mset cs), False)" using pool False c by simp
  then show ?thesis
    using run s False c by (auto simp: with_stub_def pool_defs server_pools_def split: prod.splits)
qed

lemma kd_rpc_frame:
  assumes "\<And>y. keeps_done (server_pools R M G) (f y)" and "keeps_done (server_pools R M G) q"
  shows "keeps_done (server_pools R M G) (bnd (gets (\<lambda>s. rpc_pools s server)) (\<lambda>find_iter.
     case find_iter of None \<Rightarrow> q | Some pool \<Rightarrow> bnd (with_stub server call pool) f))"
  unfolding keeps_done_def
proof (intro allI impI)
  fix s r t
  let ?p = "bnd (gets (\<lambda>s. rpc_pools s server)) (\<lambda>find_iter.
     case find_iter of None \<Rightarrow> q | Some pool \<Rightarrow> bnd (with_stub server call pool) f)"
  assume s: "server_pools R M G s" "?p s = (r, t)" "r \<noteq> Waits" "r \<noteq> Crash"
  show "server_pools R M G t"
  proof (cases "rpc_pools s server")
    case None
    then show ?thesis using s assms(2) unfolding keeps_done_def by (auto simp: bnd_def gets_def)
  next
    case (Some pool)
    obtain x u where x: "with_stub server call pool s = (x, u)" by fastforce
    have u: "server_pools R M G u" if "x \<noteq> Waits" "x \<noteq> Crash" using kd_rpc_call [OF Some s(1) x that] .
    show ?thesis
    proof (cases x)
      case (Val y)
      then have "f y u = (r, t)" using s(2) Some x by (simp add: bnd_def gets_def)
      then show ?thesis using assms(1) [of y] u Val s(3,4) unfolding keeps_done_def by blast
    qed (use s Some x u in \<open>auto simp: bnd_def gets_def\<close>)
  qed
qed

lemma kd_rpc:
  "keeps_done (server_pools R M G) (ChatGrpcClient_NotifyAddFriend E server req)"
  "keeps_done (server_pools R M G) (ChatGrpcClient_NotifyAuthFriend E server req')"
  "keeps_done (server_pools R M G) (ChatGrpcClient_NotifyTextChatMsg E server req'')"
  unfolding ChatGrpcClient_NotifyAddFriend_def ChatGrpcClient_NotifyAuthFriend_def ChatGrpcClient_NotifyTextChatMsg_def Let_def
  by (intro kd_rpc_frame kd_basic kd_cases)+

lemma kd_handlers:
  assumes g: "grows nulls (lib_redis E)"
  shows "keeps_done (server_pools (pool_lost nulls C b k) M G) (LoginHandler E sid msg_data)"
    "keeps_done (server_pools (pool_lost nulls C b k) M G) (SearchInfoHandler E sid msg_data)"
    "keeps_done (server_pools (pool_lost nulls C b k) M G) (AddFriendApplyHandler E sid msg_data)"
    "keeps_done (server_pools (pool_lost nulls C b k) M G) (AuthFriendApplyHandler E sid msg_data)"
    "keeps_done (server_pools (pool_lost nulls C b k) M G) (MarkMessagesRead E sid msg_data)"
proof -
  note kd_basics = kd_chat kd_redis [OF g] kd_mysql kd_rpc kd_GetBaseInfo [OF g]
  show "keeps_done (server_pools (pool_lost nulls C b k) M G) (LoginHandler E sid msg_data)"
    unfolding LoginHandler_def login_block_def count_login_def bind_user_def send_recent_def set_user_id_def Let_def
    by (intro kd_basics kd_lists kd_of_keeps [OF keeps_upd]) (simp add: SetUserSession_def server_pools_def)
  show "keeps_done (server_pools (pool_lost nulls C b k) M G) (SearchInfoHandler E sid msg_data)"
    unfolding SearchInfoHandler_def Let_def by (intro kd_basics kd_GetUserByName [OF g])
  show "keeps_done (server_pools (pool_lost nulls C b k) M G) (AddFriendApplyHandler E sid msg_data)"
    unfolding AddFriendApplyHandler_def add_friend_body_def server_of_user_def Let_def by (intro kd_basics)
  show "keeps_done (server_pools (pool_lost nulls C b k) M G) (AuthFriendApplyHandler E sid msg_data)"
    unfolding AuthFriendApplyHandler_def auth_friend_body_def server_of_user_def Let_def by (intro kd_basics)
  show "keeps_done (server_pools (pool_lost nulls C b k) M G) (MarkMessagesRead E sid msg_data)"
    unfolding MarkMessagesRead_def Let_def by (intro kd_basics kd_cache_Mark [OF g])
qed

lemma kd_handlers_late:
  assumes g: "grows nulls (lib_redis E)" "counts_nulls nulls (lib_redis E)"
  shows "keeps_done (server_pools (pool_lost nulls C b k) M G) (DealChatTextMsgHandler E clock1 sid msg_data)"
    "keeps_done (server_pools (pool_lost nulls C b k) M G) (GetHistoryMessages E clock sid msg_data)"
proof -
  note kd_basics = kd_chat kd_redis [OF g(1)] kd_mysql kd_rpc
  show "keeps_done (server_pools (pool_lost nulls C b k) M G) (DealChatTextMsgHandler E clock1 sid msg_data)"
    unfolding DealChatTextMsgHandler_def text_body_def server_of_user_def Let_def
    by (intro kd_basics kd_CacheNewMessage [OF g] kd_case_result)
  show "keeps_done (server_pools (pool_lost nulls C b k) M G) (GetHistoryMessages E clock sid msg_data)"
    unfolding GetHistoryMessages_def recache_def Let_def
    by (intro kd_basics kd_GetRecentMessages [OF g] kd_CacheNewMessage [OF g])
qed

text \<open>Any Redis, with a count of its null replies beside its state.\<close>

definition counting :: "'r redis_fun \<Rightarrow> ('r \<times> nat) redis_fun" where
  "counting redis connect call rn =
     (case redis connect call (fst rn) of (reply, r) \<Rightarrow> (reply, (r, snd rn + (if reply = None then 1 else 0))))"

lemma counting_counts: "grows snd (counting redis)" "counts_nulls snd (counting redis)" "grows (\<lambda>_. 0) redis'"
  by (auto simp: grows_def counts_nulls_def counting_def split: prod.splits)

text \<open>What the pools of one state are, as the invariant says it.\<close>

lemma server_pools_self:
  "server_pools (pool_lost nulls (mset (connections (redis_pool (redis_mgr s)))) (is_stop (redis_pool (redis_mgr s))) (nulls (redis_server (redis_mgr s))))
     (mset (connections (mysql_pool (mysql_mgr s))), is_stop (mysql_pool (mysql_mgr s)))
     (\<lambda>name. map_option (\<lambda>p. (mset (connections p), is_stop p)) (rpc_pools s name)) s"
  by (simp add: server_pools_def pool_lost_def dao_pool_is_def)

lemma kd_lost:
  assumes "\<And>C b k M G. keeps_done (server_pools (pool_lost nulls C b k) M G) p" and "p s = (r, t)" "r \<noteq> Waits" "r \<noteq> Crash"
  shows "\<exists>lost. mset (connections (redis_pool (redis_mgr t))) + lost = mset (connections (redis_pool (redis_mgr s))) \<and>
      size lost + nulls (redis_server (redis_mgr s)) \<le> nulls (redis_server (redis_mgr t))"
    and "mset (connections (mysql_pool (mysql_mgr t))) = mset (connections (mysql_pool (mysql_mgr s)))"
    and "map_option (\<lambda>p. mset (connections p)) (rpc_pools t name) = map_option (\<lambda>p. mset (connections p)) (rpc_pools s name)"
proof -
  have "server_pools (pool_lost nulls (mset (connections (redis_pool (redis_mgr s)))) (is_stop (redis_pool (redis_mgr s))) (nulls (redis_server (redis_mgr s))))
     (mset (connections (mysql_pool (mysql_mgr s))), is_stop (mysql_pool (mysql_mgr s)))
     (\<lambda>name. map_option (\<lambda>p. (mset (connections p), is_stop p)) (rpc_pools s name)) t" (is ?t)
    using assms server_pools_self unfolding keeps_done_def by blast
  then show "\<exists>lost. mset (connections (redis_pool (redis_mgr t))) + lost = mset (connections (redis_pool (redis_mgr s))) \<and>
      size lost + nulls (redis_server (redis_mgr s)) \<le> nulls (redis_server (redis_mgr t))"
    "mset (connections (mysql_pool (mysql_mgr t))) = mset (connections (mysql_pool (mysql_mgr s)))"
    by (simp_all add: server_pools_def pool_lost_def dao_pool_is_def)
  have "map_option fst (map_option (\<lambda>p. (mset (connections p), is_stop p)) (rpc_pools t name)) =
      map_option fst (map_option (\<lambda>p. (mset (connections p), is_stop p)) (rpc_pools s name))"
    using \<open>?t\<close> by (simp only: server_pools_def)
  then show "map_option (\<lambda>p. mset (connections p)) (rpc_pools t name) = map_option (\<lambda>p. mset (connections p)) (rpc_pools s name)"
    by (simp add: option.map_comp comp_def)
qed

text \<open>
  C23. Handlers and connections: whatever Redis, MySQL and the peers answer, a message handler that
  returns or throws leaves the idle connections of the MySQL pool and of all the stub pools as they
  were; of the Redis connections the handlers of logins, searches, friend requests, acceptances and read
  marks lose none, and those of text messages and of the history at most one per null reply of Redis.
\<close>

theorem handlers_return_connections:
  fixes E :: "('r \<times> nat, 'm, 'g) chat_env"
  assumes E: "lib_redis E = counting redis"
    and h: "handler \<in> {LoginHandler E, SearchInfoHandler E, AddFriendApplyHandler E, AuthFriendApplyHandler E, MarkMessagesRead E,
      DealChatTextMsgHandler E (clock 0), GetHistoryMessages E clock}"
    and run: "handler sid msg_data s = (r, t)" "r \<noteq> Waits" "r \<noteq> Crash"
  shows "\<exists>lost. mset (connections (redis_pool (redis_mgr t))) + lost = mset (connections (redis_pool (redis_mgr s))) \<and>
    size lost + snd (redis_server (redis_mgr s)) \<le> snd (redis_server (redis_mgr t)) \<and>
    (handler \<in> {LoginHandler E, SearchInfoHandler E, AddFriendApplyHandler E, AuthFriendApplyHandler E, MarkMessagesRead E} \<longrightarrow>
       lost = {#}) \<and>
    mset (connections (mysql_pool (mysql_mgr t))) = mset (connections (mysql_pool (mysql_mgr s))) \<and>
    (\<forall>name. map_option (\<lambda>p. mset (connections p)) (rpc_pools t name) = map_option (\<lambda>p. mset (connections p)) (rpc_pools s name))"
proof -
  have g: "grows snd (lib_redis E)" "counts_nulls snd (lib_redis E)" "grows (\<lambda>_. 0) (lib_redis E)"
    by (simp_all only: E counting_counts)
  have all: "keeps_done (server_pools (pool_lost snd C b k) M G) (handler sid msg_data)" for C b k M G
    using h by (auto intro: kd_handlers [OF g(1)] kd_handlers_late [OF g(1,2)])
  note lost = kd_lost [OF all run]
  show ?thesis
  proof (cases "handler \<in> {LoginHandler E, SearchInfoHandler E, AddFriendApplyHandler E, AuthFriendApplyHandler E, MarkMessagesRead E}")
    case False
    then show ?thesis using lost by metis
  next
    case True
    then have "keeps_done (server_pools (pool_lost (\<lambda>_. 0) C b k) M G) (handler sid msg_data)" for C b k M G
      by (auto intro: kd_handlers [OF g(3)])
    from kd_lost(1) [OF this run] have "mset (connections (redis_pool (redis_mgr t))) = mset (connections (redis_pool (redis_mgr s)))" by auto
    then show ?thesis using lost by (intro exI [of _ "{#}"]) auto
  qed
qed

text \<open>The examples' server behind a Redis that never answers: its text handler loses connections.\<close>

definition gone_env :: "((unit \<times> nat), unit, unit) chat_env" where
  "gone_env = \<lparr>lib_json = demo_json demo_message, lib_redis = counting redis_gone, lib_mysql = table_driver (\<lambda>_ _. []),
     lib_NotifyAddFriend = (\<lambda>_ _ g. (None, g)), lib_NotifyAuthFriend = (\<lambda>_ _ g. (None, g)),
     lib_NotifyTextChatMsg = (\<lambda>_ _ g. (None, g)), stringToTimestamp = (\<lambda>_. 0), cfg = Map.empty\<rparr>"

definition gone_server :: "((unit \<times> nat), unit, unit) chat_server" where
  "gone_server = \<lparr>redis_mgr = \<lparr>redis_pool = \<lparr>connections = [5, 6], is_stop = False\<rparr>, redis_server = ((), 0)\<rparr>,
     mysql_mgr = mysql_mgr (demo_server Map.empty), session_objs = [''s1'' \<mapsto> new_CSession ''s1'' 0], server_sessions = {''s1''},
     uid_to_session = Map.empty, rpc_pools = Map.empty, rpc_peers = ()\<rparr>"

theorem handlers_return_connections_witness:
  "\<exists>t lost. GetHistoryMessages gone_env (\<lambda>_. (0, 0)) ''s1'' ''{}'' gone_server = (Val (), t) \<and>
     mset (connections (redis_pool (redis_mgr t))) + lost = {#5, 6#} \<and> size lost \<le> 1 \<and> snd (redis_server (redis_mgr t)) = 1"
proof -
  let ?J = "demo_json demo_message"
  define s1 where "s1 = gone_server\<lparr>redis_mgr := \<lparr>redis_pool = \<lparr>connections = [6], is_stop = False\<rparr>, redis_server = ((), 1)\<rparr>\<rparr>"
  have n: "field_int ?J demo_message ''uid'' = Some 0" "field_int ?J demo_message ''peer_id'' = Some 0"
    by (simp_all add: demo_message_def demo_fields ref_json_def)
  have "GetRecentMessages (counting redis_gone) 0 50 (redis_mgr gone_server) = (Val [], redis_mgr s1)"
    by (simp add: GetRecentMessages_def collect_def catching_def bnd_def outer_pair zrevrange_def with_connection_late_def pool_defs
        gone_server_def s1_def counting_def redis_gone_def push_messages_def ret_def)
  then have c: "redis_op (GetRecentMessages (lib_redis gone_env) 0 50) gone_server = (Val [], s1)"
    by (simp add: redis_op_def zoom_def gone_env_def s1_def)
  obtain m where m: "dao_GetRecentMessages (lib_mysql gone_env) (stringToTimestamp gone_env) 0 50 0 (mysql_mgr s1) = (Val [], m)"
    by (simp add: dao_GetRecentMessages_def collect_def or_fail_def catching_only_def with_conn_acc_def bnd_def outer_pair dao_getConnection_def
        zoom_def pool_defs finally_do_def executeQuery_def lift_some_def gone_env_def table_driver_def s1_def gone_server_def demo_server_def ret_def)
  define s2 where "s2 = s1\<lparr>mysql_mgr := m\<rparr>"
  have d: "mysql_op (MySQLManager_GetRecentMessages (lib_mysql gone_env) (stringToTimestamp gone_env) 0 50 0) s1 = (Val [], s2)"
    using m by (simp add: MySQLManager_defs mysql_op_def zoom_def s2_def)
  have "session_objs s2 ''s1'' = Some (new_CSession ''s1'' 0)" by (simp add: s2_def s1_def gone_server_def)
  from session_send_outbox [OF this, of "''{}''" 0 ID_GET_HISTORY_MSG_RSP]
  obtain t where t: "session_send ''s1'' ''{}'' ID_GET_HISTORY_MSG_RSP s2 = (Val (), t)" "same_but_sessions s2 t"
    by (auto simp: new_session_room MAX_SENDQUE_def)
  have "GetHistoryMessages gone_env (\<lambda>_. (0, 0)) ''s1'' ''{}'' gone_server = (Val (), t)"
    using c d t(1) n by (simp add: GetHistoryMessages_def bnd_def json_int_def from_option_def gone_env_def recache_def ret_def Let_def)
  moreover have "snd (redis_server (redis_mgr t)) = 1" by (simp add: same_but_sessionsD [OF t(2)] s2_def s1_def)
  ultimately show ?thesis
    using handlers_return_connections [of gone_env redis_gone "GetHistoryMessages gone_env (\<lambda>_. (0, 0))" "\<lambda>_. (0, 0)" "''s1''" "''{}''" gone_server "Val ()" t]
    by (auto simp: gone_env_def gone_server_def)
qed

section \<open>Dispatch\<close>

text \<open>
  Dispatch: a message that arrives with one of the seven request ids is run by the handler of
  that id, on the session it came from and on the text of its body up to the first NUL; every
  other id, the ids of replies and notifications included, is ignored.
\<close>

theorem messages_dispatched:
  "postMsgToQue (new_LogicSystem E) sid node =
     (let data = c_str (node_data node) in
      if recv_msg_id node = 1006 then Some (\<lambda>clock. LoginHandler E sid data)
      else if recv_msg_id node = 1008 then Some (\<lambda>clock. SearchInfoHandler E sid data)
      else if recv_msg_id node = 1010 then Some (\<lambda>clock. AddFriendApplyHandler E sid data)
      else if recv_msg_id node = 1013 then Some (\<lambda>clock. AuthFriendApplyHandler E sid data)
      else if recv_msg_id node = 1017 then Some (\<lambda>clock. DealChatTextMsgHandler E (clock 0) sid data)
      else if recv_msg_id node = 1020 then Some (\<lambda>clock. GetHistoryMessages E clock sid data)
      else if recv_msg_id node = 1022 then Some (\<lambda>clock. MarkMessagesRead E sid data)
      else None)"
proof -
  let ?L0 = "\<lparr>ls_b_stop = False, handle_callbacks = Map.empty\<rparr> :: ('a, 'b, 'c) LogicSystem"
  have "find_callback (callbacks.puts (LogicSystem_callbacks E) ?L0) i =
      (case map_of (LogicSystem_callbacks E) i of Some h \<Rightarrow> Some h | None \<Rightarrow> find_callback ?L0 i)" for i
    by (rule callbacks.find_puts) (simp_all add: LogicSystem_callbacks_def find_callback_def)
  then have "find_callback (new_LogicSystem E) i = map_of (LogicSystem_callbacks E) i" for i
    by (simp add: new_LogicSystem_def callbacks.puts_def find_callback_def split: option.split)
  moreover have "\<not> ls_b_stop (new_LogicSystem E)"
    by (simp add: new_LogicSystem_def LogicSystem_callbacks_def registerMsgCallBacks_def)
  ultimately show ?thesis
    by (simp add: postMsgToQue_def LogicSystem_callbacks_def Let_def)
qed

end
