(* ===== verification/Logging.thy ===== *)
theory Logging
  imports Prelude
begin

text \<open>
  The log of the server processes (\<open>platform/log.cpp\<close>, \<open>log.h\<close>): the class \<open>Log\<close>, which sets up the
  glog library, and the sink that writes the lines to a file and to the terminal. The clock, the
  shell behind \<open>system\<close> and whether a file can be opened are parameters; files are their contents.
\<close>

section \<open>Times\<close>

record tm =
  tm_year :: int
  tm_mon :: int
  tm_mday :: int
  tm_hour :: int
  tm_min :: int
  tm_sec :: int

text \<open>\<open>std::setfill('0') << std::setw(n)\<close>.\<close>

definition setw :: "nat \<Rightarrow> string \<Rightarrow> string" where
  "setw n s = replicate (n - length s) (CHR ''0'') @ s"

definition GenerateLogFileName :: "tm \<Rightarrow> string" where
  "GenerateLogFileName now = to_string (tm_year now + 1900) @ ''-'' @ setw 2 (to_string (tm_mon now + 1)) @ ''-'' @
     setw 2 (to_string (tm_mday now)) @ ''.log''"

text \<open>\<open>put_time\<close> with \<open>%Y-%m-%d %H:%M:%S\<close>, and the milliseconds of the clock.\<close>

definition GetCurrentTimeWithMilliseconds :: "tm \<Rightarrow> int \<Rightarrow> string" where
  "GetCurrentTimeWithMilliseconds now ms =
     to_string (tm_year now + 1900) @ ''-'' @ setw 2 (to_string (tm_mon now + 1)) @ ''-'' @ setw 2 (to_string (tm_mday now)) @ '' '' @
     setw 2 (to_string (tm_hour now)) @ '':'' @ setw 2 (to_string (tm_min now)) @ '':'' @ setw 2 (to_string (tm_sec now)) @
     ''.'' @ setw 3 (to_string (ms mod 1000))"

section \<open>CustomLogSink\<close>

datatype LogSeverity = GLOG_INFO | GLOG_WARNING | GLOG_ERROR | GLOG_FATAL

fun GetLogSeverityName :: "LogSeverity \<Rightarrow> string" where
  "GetLogSeverityName GLOG_INFO = ''INFO''"
| "GetLogSeverityName GLOG_WARNING = ''WARNING''"
| "GetLogSeverityName GLOG_ERROR = ''ERROR''"
| "GetLogSeverityName GLOG_FATAL = ''FATAL''"

fun term_color :: "LogSeverity \<Rightarrow> string" where
  "term_color GLOG_INFO = CHR 0x1B # ''[32m''"
| "term_color GLOG_WARNING = CHR 0x1B # ''[33m''"
| "term_color GLOG_ERROR = CHR 0x1B # ''[31m''"
| "term_color GLOG_FATAL = CHR 0x1B # ''[1;31m''"

definition term_reset :: string where
  "term_reset = CHR 0x1B # ''[0m''"

record log_entry =
  le_severity :: LogSeverity
  le_full_filename :: string
  le_base_filename :: "string option"
  le_line :: int
  le_message :: string

record log_output =
  log_files :: "string \<Rightarrow> string"
  terminal :: string

record CustomLogSink =
  sink_base_filename :: string
  sink_log_file :: "string option"      \<comment> \<open>the file \<open>log_file_\<close> is open on\<close>
  sink_last_day :: int

definition UpdateLogFile :: "(string \<Rightarrow> bool) \<Rightarrow> tm \<Rightarrow> CustomLogSink \<Rightarrow> CustomLogSink" where
  "UpdateLogFile opens now sink =
     (if tm_mday now \<noteq> sink_last_day sink
      then sink\<lparr>sink_log_file := (if opens (sink_base_filename sink) then Some (sink_base_filename sink) else None),
             sink_last_day := tm_mday now\<rparr>
      else sink)"

definition new_CustomLogSink :: "(string \<Rightarrow> bool) \<Rightarrow> tm \<Rightarrow> string \<Rightarrow> CustomLogSink" where
  "new_CustomLogSink opens now base_filename =
     UpdateLogFile opens now \<lparr>sink_base_filename = base_filename, sink_log_file = None, sink_last_day = - 1\<rparr>"

definition formatted_message :: "tm \<Rightarrow> int \<Rightarrow> log_entry \<Rightarrow> string" where
  "formatted_message now ms e =
     ''['' @ GetLogSeverityName (le_severity e) @ ''] '' @ GetCurrentTimeWithMilliseconds now ms @ '' '' @
     (case le_base_filename e of Some f \<Rightarrow> f | None \<Rightarrow> le_full_filename e) @ '':'' @ to_string (le_line e) @ '': '' @
     le_message e @ [CHR 0x0A]"

definition append_file :: "string \<Rightarrow> string \<Rightarrow> log_output \<Rightarrow> log_output" where
  "append_file path line out = out\<lparr>log_files := (log_files out)(path := log_files out path @ line)\<rparr>"

definition sink_send :: "(string \<Rightarrow> bool) \<Rightarrow> tm \<Rightarrow> int \<Rightarrow> log_entry \<Rightarrow> CustomLogSink \<times> log_output \<Rightarrow> CustomLogSink \<times> log_output" where
  "sink_send opens now ms e = (\<lambda>(sink, out).
     let sink' = UpdateLogFile opens now sink;
         line = formatted_message now ms e;
         out' = (case sink_log_file sink' of Some path \<Rightarrow> append_file path line out | None \<Rightarrow> out) in
     (sink', out'\<lparr>terminal := terminal out' @ term_color (le_severity e) @ line @ term_reset\<rparr>))"

section \<open>Log\<close>

text \<open>
  The flags of glog that \<open>Initialize\<close> sets, and the destination of each severity; glog writes no file
  for an empty destination. \<open>Singleton<Log>\<close> is one value of this record.
\<close>

record Log =
  log_initialized :: bool
  custom_sink :: "CustomLogSink option"
  FLAGS_log_dir :: string
  FLAGS_logtostderr :: bool
  FLAGS_max_log_size :: int
  FLAGS_logbufsecs :: int
  FLAGS_stop_logging_if_full_disk :: bool
  log_destination :: "LogSeverity \<rightharpoonup> string"
  log_out :: log_output

text \<open>A line of \<open>LOG(severity)\<close>: glog hands it to the sink while the library is set up.\<close>

definition log_message :: "(string \<Rightarrow> bool) \<Rightarrow> tm \<Rightarrow> int \<Rightarrow> log_entry \<Rightarrow> Log \<Rightarrow> Log" where
  "log_message opens now ms e L =
     (case if log_initialized L then custom_sink L else None of
        None \<Rightarrow> L
      | Some sink \<Rightarrow> (case sink_send opens now ms e (sink, log_out L) of (sink', out) \<Rightarrow> L\<lparr>custom_sink := Some sink', log_out := out\<rparr>))"

definition CreateLogDirectory :: "(string \<Rightarrow> int) \<Rightarrow> string \<Rightarrow> bool" where
  "CreateLogDirectory system log_dir = (if log_dir = [] then False else system (''mkdir -p '' @ log_dir) = 0)"

text \<open>The part after the last separator (\<open>find_last_of\<close>); without one, \<open>npos + 1\<close> is 0.\<close>

definition is_separator :: "char \<Rightarrow> bool" where
  "is_separator c \<longleftrightarrow> c = CHR 0x5C \<or> c = CHR ''/''"

definition program_name_new :: "string \<Rightarrow> string" where
  "program_name_new program_name = rev (takeWhile (\<lambda>c. \<not> is_separator c) (rev program_name))"

definition init_entry :: "string \<Rightarrow> log_entry" where
  "init_entry log_dir = \<lparr>le_severity = GLOG_INFO, le_full_filename = ''log.cpp'', le_base_filename = Some ''log.cpp'', le_line = 76,
     le_message = ''GLog initialized successfully in directory: '' @ log_dir\<rparr>"

definition Log_Initialize ::
    "(string \<Rightarrow> int) \<Rightarrow> (string \<Rightarrow> bool) \<Rightarrow> tm \<Rightarrow> int \<Rightarrow> string \<Rightarrow> bool \<Rightarrow> string \<Rightarrow> Log \<Rightarrow> bool \<times> Log" where
  "Log_Initialize system opens now ms program_name singleLog log_dir L =
     (if \<not> CreateLogDirectory system log_dir then (False, L)
      else
        let L1 = L\<lparr>FLAGS_log_dir := log_dir, FLAGS_logtostderr := False, FLAGS_max_log_size := 512, FLAGS_logbufsecs := 0,
              FLAGS_stop_logging_if_full_disk := True, log_initialized := True\<rparr>;
            name = program_name_new program_name;
            L2 = (if singleLog
              then L1\<lparr>log_destination := (\<lambda>_. Some []),
                custom_sink := Some (new_CustomLogSink opens now (log_dir @ ''/'' @ name @ ''-'' @ GenerateLogFileName now))\<rparr>
              else L1\<lparr>log_destination := (log_destination L1)(GLOG_INFO \<mapsto> log_dir @ ''/INFO_'' @ name,
                GLOG_WARNING \<mapsto> log_dir @ ''/WARNING_'' @ name, GLOG_ERROR \<mapsto> log_dir @ ''/ERROR_'' @ name)\<rparr>) in
        (True, log_message opens now ms (init_entry log_dir) L2))"

definition Log_Shutdown :: "Log \<Rightarrow> Log" where
  "Log_Shutdown L = (if log_initialized L then L\<lparr>log_initialized := False\<rparr> else L)"

section \<open>Names\<close>

lemma program_name_path [simp]: "list_all (\<lambda>c. \<not> is_separator c) n \<Longrightarrow> is_separator c \<Longrightarrow> program_name_new (d @ c # n) = n"
  by (simp add: program_name_new_def takeWhile_append list_all_iff)

lemma program_name_plain [simp]: "list_all (\<lambda>c. \<not> is_separator c) n \<Longrightarrow> program_name_new n = n"
  by (simp add: program_name_new_def takeWhile_eq_all_conv [THEN iffD2] list_all_iff)

lemma setw_digits: "0 \<le> i \<Longrightarrow> c \<in> set (setw n (to_string i)) \<Longrightarrow> is_digit c"
  by (auto simp: setw_def to_string_def is_digit_def dest: nat_to_string_digits [unfolded is_digit_def])

lemma digits_value_zeros: "digits_value (replicate n (CHR ''0'') @ s) = digits_value s"
  by (induction n) (simp_all add: digits_value_def)

lemma setw_inj: "0 \<le> i \<Longrightarrow> 0 \<le> j \<Longrightarrow> setw n (to_string i) = setw n (to_string j) \<Longrightarrow> i = j"
  by (metis abs_of_nonneg digits_value_nat_to_string digits_value_zeros not_le setw_def to_string_def int_nat_eq)

definition tm_ok :: "tm \<Rightarrow> bool" where
  "tm_ok t \<longleftrightarrow> - 1900 \<le> tm_year t \<and> 0 \<le> tm_mon t \<and> 0 \<le> tm_mday t"

lemma log_name_day:
  assumes "tm_ok t" "tm_ok u" "GenerateLogFileName t = GenerateLogFileName u"
  shows "tm_year t = tm_year u \<and> tm_mon t = tm_mon u \<and> tm_mday t = tm_mday u"
proof -
  have dash: "CHR ''-'' \<notin> set (to_string i)" "CHR ''-'' \<notin> set (setw n (to_string i))" if "0 \<le> i" for i n
    using that setw_digits [OF that, of "CHR ''-''" n] nat_to_string_digits [of "CHR ''-''" "nat i"] by (auto simp: to_string_def is_digit_def)
  have s: "split_at (CHR ''-'') (GenerateLogFileName x) = Some (to_string (tm_year x + 1900),
      setw 2 (to_string (tm_mon x + 1)) @ CHR ''-'' # setw 2 (to_string (tm_mday x)) @ ''.log'')"
    "split_at (CHR ''-'') (setw 2 (to_string (tm_mon x + 1)) @ CHR ''-'' # setw 2 (to_string (tm_mday x)) @ ''.log'') =
      Some (setw 2 (to_string (tm_mon x + 1)), setw 2 (to_string (tm_mday x)) @ ''.log'')" if "tm_ok x" for x
    using that dash by (simp_all add: GenerateLogFileName_def tm_ok_def)
  let ?rest = "\<lambda>x. setw 2 (to_string (tm_mon x + 1)) @ CHR ''-'' # setw 2 (to_string (tm_mday x)) @ ''.log''"
  have 1: "to_string (tm_year t + 1900) = to_string (tm_year u + 1900) \<and> ?rest t = ?rest u"
    using s(1) [OF assms(1)] s(1) [OF assms(2)] assms(3) by (metis Pair_inject option.inject)
  then have "setw 2 (to_string (tm_mon t + 1)) = setw 2 (to_string (tm_mon u + 1)) \<and>
      setw 2 (to_string (tm_mday t)) @ ''.log'' = setw 2 (to_string (tm_mday u)) @ ''.log''"
    using s(2) [OF assms(1)] s(2) [OF assms(2)] by (metis Pair_inject option.inject)
  with 1 have "to_string (tm_year t + 1900) = to_string (tm_year u + 1900)"
    and "setw 2 (to_string (tm_mon t + 1)) = setw 2 (to_string (tm_mon u + 1))"
    and "setw 2 (to_string (tm_mday t)) = setw 2 (to_string (tm_mday u))" by simp_all
  then show ?thesis using assms(1,2) setw_inj [of "tm_mon t + 1" "tm_mon u + 1"] setw_inj [of "tm_mday t" "tm_mday u"]
    by (auto simp: tm_ok_def to_string_inj)
qed

section \<open>Lines in the log\<close>

text \<open>A sink whose file is open, or will be opened for the next line.\<close>

definition sink_ready :: "(string \<Rightarrow> bool) \<Rightarrow> CustomLogSink \<Rightarrow> bool" where
  "sink_ready opens sink \<longleftrightarrow> opens (sink_base_filename sink) \<and> sink_log_file sink = Some (sink_base_filename sink)"

lemma UpdateLogFile_ready [simp]:
  "sink_ready opens sink \<Longrightarrow> sink_ready opens (UpdateLogFile opens now sink)"
  "sink_base_filename (UpdateLogFile opens now sink) = sink_base_filename sink"
  by (simp_all add: sink_ready_def UpdateLogFile_def)

lemma new_sink_ready: "opens base \<Longrightarrow> tm_mday now \<noteq> - 1 \<Longrightarrow> sink_ready opens (new_CustomLogSink opens now base)"
  by (simp add: sink_ready_def new_CustomLogSink_def UpdateLogFile_def)

lemma new_sink_base [simp]: "sink_base_filename (new_CustomLogSink opens now base) = base"
  by (simp add: new_CustomLogSink_def)

lemma sink_send_ready:
  assumes "sink_ready opens sink"
  obtains sink' where "sink_send opens now ms e (sink, out) =
      (sink', append_file (sink_base_filename sink) (formatted_message now ms e)
         (out\<lparr>terminal := terminal out @ term_color (le_severity e) @ formatted_message now ms e @ term_reset\<rparr>))"
    "sink_ready opens sink'" "sink_base_filename sink' = sink_base_filename sink"
proof -
  have r: "sink_ready opens (UpdateLogFile opens now sink)" by (rule UpdateLogFile_ready(1) [OF assms])
  then have "sink_log_file (UpdateLogFile opens now sink) = Some (sink_base_filename sink)" by (simp add: sink_ready_def)
  then show thesis by (intro that [OF _ r]) (simp_all add: sink_send_def Let_def append_file_def)
qed

text \<open>The lines of a process, each with the clock at which it is written.\<close>

definition log_messages :: "(string \<Rightarrow> bool) \<Rightarrow> (tm \<times> int \<times> log_entry) list \<Rightarrow> Log \<Rightarrow> Log" where
  "log_messages opens entries = fold (\<lambda>(now, ms, e). log_message opens now ms e) entries"

definition lines_of :: "(tm \<times> int \<times> log_entry) list \<Rightarrow> string" where
  "lines_of entries = concat (map (\<lambda>(now, ms, e). formatted_message now ms e) entries)"

lemma log_messages_in_file:
  assumes "log_initialized L" "custom_sink L = Some sink" "sink_ready opens sink"
  shows "\<exists>sink'. custom_sink (log_messages opens entries L) = Some sink' \<and> sink_ready opens sink' \<and>
    sink_base_filename sink' = sink_base_filename sink \<and>
    log_files (log_out (log_messages opens entries L)) = (log_files (log_out L))(sink_base_filename sink :=
      log_files (log_out L) (sink_base_filename sink) @ lines_of entries)"
  using assms
proof (induction entries arbitrary: L sink)
  case Nil
  then show ?case by (simp add: log_messages_def lines_of_def)
next
  case (Cons x entries)
  obtain now ms e where x: "x = (now, ms, e)" by (cases x)
  obtain sink' where s: "sink_send opens now ms e (sink, log_out L) =
      (sink', append_file (sink_base_filename sink) (formatted_message now ms e)
         ((log_out L)\<lparr>terminal := terminal (log_out L) @ term_color (le_severity e) @ formatted_message now ms e @ term_reset\<rparr>))"
      "sink_ready opens sink'" "sink_base_filename sink' = sink_base_filename sink"
    by (rule sink_send_ready [OF Cons.prems(3)])
  let ?L = "log_message opens now ms e L"
  have L: "log_initialized ?L" "custom_sink ?L = Some sink'"
    "log_files (log_out ?L) = (log_files (log_out L))(sink_base_filename sink :=
       log_files (log_out L) (sink_base_filename sink) @ formatted_message now ms e)"
    using Cons.prems s(1) by (simp_all add: log_message_def append_file_def)
  have c: "log_messages opens (x # entries) L = log_messages opens entries ?L"
    "lines_of (x # entries) = formatted_message now ms e @ lines_of entries"
    by (simp_all add: log_messages_def lines_of_def x)
  show ?case unfolding c using Cons.IH [OF L(1,2) s(2)] L(3) s(3) by (auto simp: fun_upd_def fun_eq_iff)
qed

text \<open>
  The log of a process: once \<open>Initialize\<close> has succeeded, every line of the process is in the file named
  after the program and the date of the start, in the order of the calls, and no other file is
  written. That also holds for lines of later days: the sink closes and opens the same file when the
  day of the month changes, although the parameter \<open>singleLog\<close> is documented as one file per day.
\<close>

theorem log_in_first_file:
  assumes "Log_Initialize system opens now ms program True log_dir L = (True, L')"
    and "opens (log_dir @ ''/'' @ program_name_new program @ ''-'' @ GenerateLogFileName now)" and "tm_mday now \<noteq> - 1"
  shows "log_files (log_out (log_messages opens entries L')) =
    (let path = log_dir @ ''/'' @ program_name_new program @ ''-'' @ GenerateLogFileName now in
     (log_files (log_out L))(path := log_files (log_out L) path @ lines_of ((now, ms, init_entry log_dir) # entries)))"
proof -
  let ?path = "log_dir @ ''/'' @ program_name_new program @ ''-'' @ GenerateLogFileName now"
  let ?sink = "new_CustomLogSink opens now ?path"
  define L2 where "L2 = L\<lparr>FLAGS_log_dir := log_dir, FLAGS_logtostderr := False, FLAGS_max_log_size := 512, FLAGS_logbufsecs := 0,
    FLAGS_stop_logging_if_full_disk := True, log_initialized := True, log_destination := (\<lambda>_. Some []), custom_sink := Some ?sink\<rparr>"
  have "L' = log_message opens now ms (init_entry log_dir) L2"
    using assms(1) by (auto simp: Log_Initialize_def L2_def Let_def split: if_splits)
  then have "log_messages opens entries L' = log_messages opens ((now, ms, init_entry log_dir) # entries) L2"
    by (simp add: log_messages_def)
  then show ?thesis
    using log_messages_in_file [of L2 ?sink opens "(now, ms, init_entry log_dir) # entries"] new_sink_ready [of opens ?path now] assms(2,3)
    by (auto simp: L2_def Let_def)
qed

text \<open>\<open>Initialize\<close> succeeds exactly when the directory has a name and the shell has made it.\<close>

lemma Log_Initialize_result:
  "fst (Log_Initialize system opens now ms program singleLog log_dir L) \<longleftrightarrow> log_dir \<noteq> [] \<and> system (''mkdir -p '' @ log_dir) = 0"
  by (auto simp: Log_Initialize_def CreateLogDirectory_def Let_def)

end
