(* ===== verification/GateDao.thy ===== *)
theory GateDao
  imports ChatDao
begin

text \<open>
  \<open>MySQLDao\<close> and \<open>MySQLManager\<close> of the gate server (\<open>GateServer/MySQLDao.cpp\<close>,
  \<open>GateServer/MySQLManager.cpp\<close>): accounts. The connector is the parameter of \<open>ChatDao\<close>; the stored
  procedure \<open>reg_user\<close> runs in the database and is behind it.
\<close>

section \<open>Operations\<close>

record GateUserInfo =
  gu_name :: string
  gu_pwd :: string
  gu_uid :: int
  gu_email :: string

definition new_GateUserInfo :: GateUserInfo where
  "new_GateUserInfo = \<lparr>gu_name = [], gu_pwd = [], gu_uid = 0, gu_email = []\<rparr>"

text \<open>
  \<open>init\<close>: the attempts of the new pool and the contents of \<open>user.sql\<close> and of
  \<open>reg_user_procedure.sql\<close>; \<open>None\<close> is the exception of \<open>ReadFile\<close>.
\<close>

definition gate_dao_init ::
    "'m mysql_driver \<Rightarrow> (nat \<Rightarrow> (nat \<times> int) option) \<Rightarrow> string option \<Rightarrow> string option \<Rightarrow> ('m MySQLDao, bool) prog" where
  "gate_dao_init D att user_sql procedure_sql =
     bnd (upd (\<lambda>m. m\<lparr>mysql_pool := MySQLConnectPool 5 att\<rparr>)) (\<lambda>_.
     bnd (from_option (RuntimeError ''Failed to open SQL file: user.sql'') user_sql) (\<lambda>sql_content.
     bnd (from_option (RuntimeError ''Failed to open SQL file: reg_user_procedure.sql'') procedure_sql) (\<lambda>sql_procedure.
     if sql_content \<noteq> [] then
       or_fail False
         (bnd dao_getConnection (\<lambda>conn.
            case conn of
              None \<Rightarrow> crash
            | Some c \<Rightarrow>
                finally_do
                  (bnd (statement D (sql_connection c) ''DROP PROCEDURE IF EXISTS reg_user'') (\<lambda>_.
                   bnd (statement D (sql_connection c) sql_procedure) (\<lambda>_.
                   bnd (forM (statement D (sql_connection c)) (gate_splitSQLScript sql_content)) (\<lambda>_.
                   ret True))))
                  (dao_returnConnection c)))
     else ret False)))"

definition registerUser :: "'m mysql_driver \<Rightarrow> string \<Rightarrow> string \<Rightarrow> string \<Rightarrow> ('m MySQLDao, int) prog" where
  "registerUser D name email pwd =
     or_fail (-1) (with_conn 0 (\<lambda>c.
       bnd (execute D c ''CALL reg_user(?,?,?,@result,@error_info)'' [PString name, PString email, PString pwd]) (\<lambda>_.
       bnd (executeQuery D c ''SELECT @result AS result, @error_info AS error_info'' []) (\<lambda>res.
       case res of
         row # _ \<Rightarrow>
           bnd (col_int row ''result'') (\<lambda>result.
           bnd (col_string row ''error_info'') (\<lambda>_.
           ret result))
       | [] \<Rightarrow> ret (-1)))))"

fun match_rows :: "string \<Rightarrow> string \<Rightarrow> sql_row list \<Rightarrow> ('s, bool) prog" where
  "match_rows name email [] = ret False"
| "match_rows name email (row # rows) =
     bnd (col_string row ''username'') (\<lambda>dbUsername.
     bnd (col_string row ''email'') (\<lambda>dbEmail.
     if dbUsername = name \<and> dbEmail = email then ret True else match_rows name email rows))"

definition checkUsernameEmailMatch :: "'m mysql_driver \<Rightarrow> string \<Rightarrow> string \<Rightarrow> ('m MySQLDao, bool) prog" where
  "checkUsernameEmailMatch D name email =
     or_fail False (with_conn False (\<lambda>c.
       bnd (executeQuery D c ''SELECT username, email FROM user WHERE username = ?'' [PString name]) (\<lambda>res.
       match_rows name email res)))"

definition updatePassword :: "'m mysql_driver \<Rightarrow> string \<Rightarrow> string \<Rightarrow> ('m MySQLDao, bool) prog" where
  "updatePassword D name newpwd =
     or_fail False (with_conn False (\<lambda>c.
       bnd (executeUpdate D c ''UPDATE user SET password = ? WHERE username = ?'' [PString newpwd, PString name]) (\<lambda>updateCount.
       if updateCount > 0 then ret True
       else if updateCount = 0 then ret True
       else ret False)))"

text \<open>The out parameter \<open>userInfo\<close> is the second part of the state.\<close>

definition checkUserLogin :: "'m mysql_driver \<Rightarrow> string \<Rightarrow> string \<Rightarrow> ('m MySQLDao \<times> GateUserInfo, int) prog" where
  "checkUserLogin D name pwd =
     or_fail (-1) (with_conn_acc 0 (\<lambda>c.
       bnd (outer (executeQuery D c ''SELECT * FROM user WHERE username = ?'' [PString name])) (\<lambda>res.
       case res of
         [] \<Rightarrow> ret 1
       | row # _ \<Rightarrow>
           bnd (col_string row ''password'') (\<lambda>origin_pwd.
           if origin_pwd \<noteq> pwd then ret 2
           else
             bnd (local_upd (\<lambda>userInfo. userInfo\<lparr>gu_name := name, gu_pwd := origin_pwd\<rparr>)) (\<lambda>_.
             bnd (col_string row ''email'') (\<lambda>email.
             bnd (local_upd (\<lambda>userInfo. userInfo\<lparr>gu_email := email\<rparr>)) (\<lambda>_.
             bnd (col_int row ''uid'') (\<lambda>uid.
             bnd (local_upd (\<lambda>userInfo. userInfo\<lparr>gu_uid := uid\<rparr>)) (\<lambda>_.
             ret 0)))))))))"

definition checkEmailLoginWithCode :: "'m mysql_driver \<Rightarrow> string \<Rightarrow> ('m MySQLDao \<times> GateUserInfo, bool) prog" where
  "checkEmailLoginWithCode D email =
     or_fail False (with_conn_acc False (\<lambda>c.
       bnd (outer (executeQuery D c ''SELECT * FROM user WHERE email = ?'' [PString email])) (\<lambda>res.
       case res of
         [] \<Rightarrow> ret False
       | row # _ \<Rightarrow>
           bnd (col_string row ''email'') (\<lambda>origin_email.
           if origin_email \<noteq> email then ret False
           else
             bnd (col_string row ''username'') (\<lambda>name.
             bnd (local_upd (\<lambda>userInfo. userInfo\<lparr>gu_name := name\<rparr>)) (\<lambda>_.
             bnd (col_string row ''password'') (\<lambda>pwd.
             bnd (local_upd (\<lambda>userInfo. userInfo\<lparr>gu_pwd := pwd, gu_email := origin_email\<rparr>)) (\<lambda>_.
             bnd (col_int row ''uid'') (\<lambda>uid.
             bnd (local_upd (\<lambda>userInfo. userInfo\<lparr>gu_uid := uid\<rparr>)) (\<lambda>_.
             ret True))))))))))"

section \<open>MySQLManager\<close>

definition gate_init ::
    "'m mysql_driver \<Rightarrow> (nat \<Rightarrow> (nat \<times> int) option) \<Rightarrow> string option \<Rightarrow> string option \<Rightarrow> ('m MySQLDao, bool) prog" where
  "gate_init D att user_sql procedure_sql = gate_dao_init D att user_sql procedure_sql"

definition gate_registerUser :: "'m mysql_driver \<Rightarrow> string \<Rightarrow> string \<Rightarrow> string \<Rightarrow> string \<Rightarrow> ('m MySQLDao, int) prog" where
  "gate_registerUser D name email pwd icon = registerUser D name email pwd"

definition gate_checkUsernameEmailMatch :: "'m mysql_driver \<Rightarrow> string \<Rightarrow> string \<Rightarrow> ('m MySQLDao, bool) prog" where
  "gate_checkUsernameEmailMatch D name email = checkUsernameEmailMatch D name email"

definition gate_updatePassword :: "'m mysql_driver \<Rightarrow> string \<Rightarrow> string \<Rightarrow> ('m MySQLDao, bool) prog" where
  "gate_updatePassword D name newpwd = updatePassword D name newpwd"

definition gate_checkUserLogin :: "'m mysql_driver \<Rightarrow> string \<Rightarrow> string \<Rightarrow> ('m MySQLDao \<times> GateUserInfo, int) prog" where
  "gate_checkUserLogin D name pwd = checkUserLogin D name pwd"

definition gate_checkEmailLoginWithCode :: "'m mysql_driver \<Rightarrow> string \<Rightarrow> ('m MySQLDao \<times> GateUserInfo, bool) prog" where
  "gate_checkEmailLoginWithCode D email = checkEmailLoginWithCode D email"

lemmas gate_manager_defs = gate_init_def gate_registerUser_def gate_checkUsernameEmailMatch_def gate_updatePassword_def
  gate_checkUserLogin_def gate_checkEmailLoginWithCode_def

section \<open>Every call returns\<close>

lemma ss_match_rows: "sql_safe I (match_rows name email rows)"
  by (induction rows) (auto intro!: ss_rules)

text \<open>
  With an idle connection every account operation of the gate server returns and gives the
  connection back, whatever the database answers or throws.
\<close>

theorem gate_dao_operations_return:
  "returns (dao_ready (Suc n)) (registerUser D name email pwd) \<and>
   returns (dao_ready (Suc n)) (checkUsernameEmailMatch D name email) \<and>
   returns (dao_ready (Suc n)) (updatePassword D name pwd) \<and>
   returns (dao_ready (Suc n) \<circ> fst) (checkUserLogin D name pwd) \<and>
   returns (dao_ready (Suc n) \<circ> fst) (checkEmailLoginWithCode D email)"
  unfolding registerUser_def checkUsernameEmailMatch_def updatePassword_def checkUserLogin_def checkEmailLoginWithCode_def
  by (intro conjI returns_or_fail ss_rules ss_match_rows)

section \<open>What the login check answers\<close>

text \<open>The object after one query on its first connection.\<close>

definition queried :: "nat SqlConnection \<Rightarrow> nat SqlConnection list \<Rightarrow> 'm \<Rightarrow> 'm MySQLDao \<Rightarrow> 'm MySQLDao" where
  "queried conn conns db m = m\<lparr>mysql_pool := \<lparr>connections = conns @ [conn], is_stop = False\<rparr>, mysql_server := db\<rparr>"

lemma checkUserLogin_run:
  assumes "mysql_pool m = \<lparr>connections = conn # conns, is_stop = False\<rparr>"
    and "drv_query D (sql_connection conn) ''SELECT * FROM user WHERE username = ?'' [PString name] (mysql_server m) = (Some res, db)"
  shows "res = [] \<Longrightarrow> checkUserLogin D name pwd (m, u) = (Val 1, (queried conn conns db m, u))"
    and "res = row # rows \<Longrightarrow> getString row ''password'' = Some stored \<Longrightarrow> stored \<noteq> pwd \<Longrightarrow>
      checkUserLogin D name pwd (m, u) = (Val 2, (queried conn conns db m, u))"
    and "res = row # rows \<Longrightarrow> getString row ''password'' = Some pwd \<Longrightarrow> getString row ''email'' = Some email \<Longrightarrow>
      getInt row ''uid'' = Some uid \<Longrightarrow>
      checkUserLogin D name pwd (m, u) =
        (Val 0, (queried conn conns db m, \<lparr>gu_name = name, gu_pwd = pwd, gu_uid = uid, gu_email = email\<rparr>))"
  using assms
  by (auto simp: checkUserLogin_def or_fail_def with_conn_acc_def dao_getConnection_def dao_returnConnection_def call_defs lift_some_def
      col_string_def col_int_def from_option_def prog_defs pool_defs queried_def)

text \<open>A closed pool is reported as a successful login: the missing connection gives \<open>false\<close>, which is 0.\<close>

lemma checkUserLogin_closed:
  "is_stop (mysql_pool m) \<Longrightarrow> checkUserLogin D name pwd (m, u) = (Val 0, (m, u))"
  by (simp add: checkUserLogin_def or_fail_def with_conn_acc_def dao_getConnection_def prog_defs pool_defs)

end
