(* ===== verification/StatusServer.thy ===== *)
theory StatusServer
  imports RedisManager Constants Registry
begin

text \<open>
  The status server (\<open>StatusServer/StatusServiceImpl.cpp\<close>): the table of registered chat servers,
  their heartbeats, the choice of the least loaded server and the login tokens in Redis.
\<close>

section \<open>State\<close>

record ChatServerEntry =
  cs_host :: string
  cs_port :: string
  cs_name :: string
  conn_count :: int
  last_heartbeat :: int

text \<open>
  \<open>_servers\<close> is an \<open>unordered_map\<close>; the list is its iteration order. Where a new entry lands in that
  order is up to the hash table; here it is the end, and no theorem depends on the order.
\<close>

record 'r StatusServiceImpl =
  status_redis :: "'r RedisManager"
  servers :: "(string \<times> ChatServerEntry) list"

datatype rpc_error =
    RpcSuccess | RpcInvalidArgument | RpcServerNotFound | RpcUidInvalid | RpcTokenInvalid | RpcInternalError | RpcServerOffline

record GetChatServerRes =
  gcs_error :: int
  gcs_host :: string
  gcs_port :: int
  gcs_token :: string

definition new_GetChatServerRes :: GetChatServerRes where
  "new_GetChatServerRes = \<lparr>gcs_error = 0, gcs_host = [], gcs_port = 0, gcs_token = []\<rparr>"

record LoginRsp =
  lr_error :: int
  lr_uid :: int
  lr_token :: string

definition status_redis_op :: "('r RedisManager, 'a) prog \<Rightarrow> ('r StatusServiceImpl, 'a) prog" where
  "status_redis_op = zoom status_redis (\<lambda>x s. s\<lparr>status_redis := x\<rparr>)"

text \<open>\<open>std::atoi\<close>: 0 without digits, undefined when the value does not fit.\<close>

definition atoi :: "string \<Rightarrow> int result" where
  "atoi s = (case stoi s of Inr i \<Rightarrow> Val i | Inl e \<Rightarrow> if e = InvalidArgument then Val 0 else Crash)"

section \<open>The chat servers\<close>

definition find_server :: "'r StatusServiceImpl \<Rightarrow> string \<Rightarrow> ChatServerEntry option" where
  "find_server s name = map_of (servers s) name"

definition put_server :: "string \<Rightarrow> ChatServerEntry \<Rightarrow> 'r StatusServiceImpl \<Rightarrow> 'r StatusServiceImpl" where
  "put_server name server s = s\<lparr>servers := AList.update name server (servers s)\<rparr>"

interpretation server_table: overwriting find_server put_server
  by unfold_locales (simp_all add: find_server_def put_server_def update_conv')

text \<open>
  \<open>RegisterChatServer\<close>: \<open>peer\<close> is \<open>context->peer()\<close>, which names the caller's transport address
  (as \<open>ipv4:host:port\<close>), \<open>now\<close> the time in seconds.
\<close>

definition RegisterChatServer ::
    "string \<Rightarrow> int \<Rightarrow> string \<Rightarrow> string \<Rightarrow> string \<Rightarrow> ('r StatusServiceImpl, rpc_error) prog" where
  "RegisterChatServer peer now name host port =
     (if port = [] \<or> name = [] then ret RpcInvalidArgument
      else
        let peer_host = (if host = [] then peer else host);
            server = \<lparr>cs_host = peer_host, cs_port = port, cs_name = name, conn_count = 0, last_heartbeat = now\<rparr> in
        bnd (upd (put_server name server)) (\<lambda>_. ret RpcSuccess))"

definition Heartbeat :: "int \<Rightarrow> string \<Rightarrow> ('r StatusServiceImpl, rpc_error) prog" where
  "Heartbeat now name =
     bnd (gets (\<lambda>s. find_server s name)) (\<lambda>it.
     case it of
       None \<Rightarrow> ret RpcServerNotFound
     | Some server \<Rightarrow> bnd (upd (put_server name (server\<lparr>last_heartbeat := now\<rparr>))) (\<lambda>_. ret RpcSuccess))"

definition checkHeartbeat :: "int \<Rightarrow> 'r StatusServiceImpl \<Rightarrow> 'r StatusServiceImpl" where
  "checkHeartbeat now s = s\<lparr>servers := filter (\<lambda>(name, server). \<not> now - last_heartbeat server > 30) (servers s)\<rparr>"

section \<open>Choosing a server\<close>

definition getConnectionCount :: "'r redis_fun \<Rightarrow> string \<Rightarrow> ('r StatusServiceImpl, int) prog" where
  "getConnectionCount redis server_name =
     bnd (status_redis_op (hget redis LOGIN_COUNT server_name [])) (\<lambda>(_, connection_count).
     if connection_count = [] then ret INT_MAX else from_sum (stoi connection_count))"

text \<open>\<open>it->second.conn_count = getConnectionCount(it->second.name)\<close> for the entry with the given key.\<close>

definition update_count :: "'r redis_fun \<Rightarrow> string \<Rightarrow> ('r StatusServiceImpl, ChatServerEntry) prog" where
  "update_count redis key =
     bnd (gets (\<lambda>s. find_server s key)) (\<lambda>it.
     case it of
       None \<Rightarrow> crash
     | Some server \<Rightarrow>
         bnd (getConnectionCount redis (cs_name server)) (\<lambda>count.
         let server' = server\<lparr>conn_count := count\<rparr> in
         bnd (upd (put_server key server')) (\<lambda>_. ret server')))"

text \<open>The loop; \<open>minServer\<close> is a pointer into the table, so its count is read from the table.\<close>

fun min_loop :: "'r redis_fun \<Rightarrow> string list \<Rightarrow> string \<Rightarrow> ('r StatusServiceImpl, string) prog" where
  "min_loop redis [] minServer = ret minServer"
| "min_loop redis (key # keys) minServer =
     bnd (update_count redis key) (\<lambda>server.
     bnd (gets (\<lambda>s. find_server s minServer)) (\<lambda>m.
     case m of
       None \<Rightarrow> crash
     | Some best \<Rightarrow>
         if conn_count server < conn_count best then min_loop redis keys key
         else min_loop redis keys minServer))"

definition getChatServer :: "'r redis_fun \<Rightarrow> ('r StatusServiceImpl, ChatServerEntry) prog" where
  "getChatServer redis =
     bnd (gets servers) (\<lambda>table.
     case table of
       [] \<Rightarrow> raise (RuntimeError ''No available chat servers'')
     | (first, _) # _ \<Rightarrow>
         bnd (update_count redis first) (\<lambda>_.
         bnd (min_loop redis (map fst table) first) (\<lambda>minServer.
         bnd (gets (\<lambda>s. find_server s minServer)) (\<lambda>m.
         case m of None \<Rightarrow> crash | Some server \<Rightarrow> ret server))))"

definition insertToken :: "'r redis_fun \<Rightarrow> int \<Rightarrow> string \<Rightarrow> ('r StatusServiceImpl, unit) prog" where
  "insertToken redis uid token =
     bnd (status_redis_op (redis_set redis (USERTOKENPREFIX @ to_string uid) token)) (\<lambda>_. ret ())"

text \<open>
  \<open>GetChatServer\<close>: \<open>unique\<close> is what \<open>Tools::generate_unique_string\<close> returns. The reply is a variable
  of the caller: an exception is logged, and the reply goes out as far as it was filled in by then.
\<close>

definition GetChatServer :: "'r redis_fun \<Rightarrow> string \<Rightarrow> int \<Rightarrow> ('r StatusServiceImpl, GetChatServerRes) prog" where
  "GetChatServer redis unique uid =
     collect new_GetChatServerRes
       (catching
         (bnd (outer (getChatServer redis)) (\<lambda>server.
          bnd (local_upd (\<lambda>reply. reply\<lparr>gcs_host := cs_host server\<rparr>)) (\<lambda>_.
          bnd (\<lambda>x. (atoi (c_str (cs_port server)), x)) (\<lambda>port.
          bnd (local_upd (\<lambda>reply. reply\<lparr>gcs_port := port, gcs_error := error_code Success, gcs_token := unique\<rparr>)) (\<lambda>_.
          outer (insertToken redis uid unique))))))
         (\<lambda>_. ret ()))"

text \<open>\<open>Login\<close>; the condition after \<open>get\<close> is the source's, without a negation.\<close>

definition Login :: "'r redis_fun \<Rightarrow> int \<Rightarrow> string \<Rightarrow> ('r StatusServiceImpl, LoginRsp) prog" where
  "Login redis uid token =
     bnd (status_redis_op (redis_get redis (USERTOKENPREFIX @ to_string uid) [])) (\<lambda>(success, token_value).
     if success then ret \<lparr>lr_error = error_code UidInvalid, lr_uid = 0, lr_token = []\<rparr>
     else if token_value \<noteq> token then ret \<lparr>lr_error = error_code TokenInvalid, lr_uid = 0, lr_token = []\<rparr>
     else ret \<lparr>lr_error = error_code Success, lr_uid = uid, lr_token = token\<rparr>)"

section \<open>Heartbeats\<close>

text \<open>
  What the table promises: a registered server stays while checks find its last sign of life at
  most 30 seconds old. The specification keeps the time of that sign only.
\<close>

datatype status_event =
    Registered string int string string string     \<comment> \<open>peer, time, name, host, port\<close>
  | Beat int string
  | Checked int

fun status_step :: "status_event \<Rightarrow> 'r StatusServiceImpl \<Rightarrow> 'r StatusServiceImpl" where
  "status_step (Registered peer now name host port) s = snd (RegisterChatServer peer now name host port s)"
| "status_step (Beat now name) s = snd (Heartbeat now name s)"
| "status_step (Checked now) s = checkHeartbeat now s"

type_synonym alive_since = "string \<rightharpoonup> int"

fun alive_step :: "status_event \<Rightarrow> alive_since \<Rightarrow> alive_since" where
  "alive_step (Registered peer now name host port) a = (if port = [] \<or> name = [] then a else a(name \<mapsto> now))"
| "alive_step (Beat now name) a = (if a name = None then a else a(name \<mapsto> now))"
| "alive_step (Checked now) a = (\<lambda>name. case a name of Some t \<Rightarrow> if now - t > 30 then None else Some t | None \<Rightarrow> None)"

definition alive :: "'r StatusServiceImpl \<Rightarrow> alive_since" where
  "alive s = (\<lambda>name. map_option last_heartbeat (find_server s name))"

definition distinct_servers :: "'r StatusServiceImpl \<Rightarrow> bool" where
  "distinct_servers s \<longleftrightarrow> distinct (map fst (servers s))"

lemma distinct_put: "distinct_servers s \<Longrightarrow> distinct_servers (put_server name server s)"
  by (simp add: distinct_servers_def put_server_def distinct_update)

lemma distinct_check: "distinct_servers s \<Longrightarrow> distinct_servers (checkHeartbeat now s)"
  by (simp add: distinct_servers_def checkHeartbeat_def distinct_map_filter)

lemma distinct_step: "distinct_servers s \<Longrightarrow> distinct_servers (status_step e s)"
  by (cases e) (auto simp: RegisterChatServer_def Heartbeat_def bnd_def upd_def ret_def gets_def Let_def
      distinct_put distinct_check split: option.splits)

lemma alive_put: "alive (put_server name server s) = (alive s)(name \<mapsto> last_heartbeat server)"
  by (auto simp: alive_def server_table.find_put)

lemma map_of_filter_distinct:
  "distinct (map fst kvs) \<Longrightarrow> map_of (filter (\<lambda>(k, v). P v) kvs) k =
     (case map_of kvs k of Some v \<Rightarrow> if P v then Some v else None | None \<Rightarrow> None)"
proof (induction kvs)
  case (Cons kv kvs)
  obtain k' v' where kv: "kv = (k', v')" by (cases kv)
  have "map_of kvs k' = None" using Cons.prems kv by (simp add: map_of_eq_None_iff)
  then show ?case using Cons kv by auto
qed simp

lemma alive_check: "distinct_servers s \<Longrightarrow> alive (checkHeartbeat now s) = alive_step (Checked now) (alive s)"
  by (auto simp: fun_eq_iff alive_def checkHeartbeat_def find_server_def distinct_servers_def
      map_of_filter_distinct [of _ "\<lambda>server. \<not> now - last_heartbeat server > 30"] split: option.splits)

lemma alive_status_step:
  assumes "distinct_servers s"
  shows "alive (status_step e s) = alive_step e (alive s)"
proof (cases e)
  case (Registered peer now name host port)
  then show ?thesis by (simp add: RegisterChatServer_def bnd_def upd_def ret_def Let_def alive_put)
next
  case (Beat now name)
  then show ?thesis
    by (cases "find_server s name") (simp_all add: Heartbeat_def bnd_def gets_def upd_def ret_def alive_put, simp_all add: alive_def)
next
  case (Checked now)
  then show ?thesis using alive_check [OF assms] by simp
qed

lemma distinct_run: "distinct_servers s \<Longrightarrow> distinct_servers (fold status_step evs s)"
  by (induction evs arbitrary: s) (simp_all add: distinct_step)

lemma alive_run: "distinct_servers s \<Longrightarrow> alive (fold status_step evs s) = fold alive_step evs (alive s)"
proof (induction evs arbitrary: s)
  case (Cons e evs)
  then show ?case using alive_status_step [OF Cons.prems] distinct_step [OF Cons.prems] by simp
qed simp

text \<open>
  C12. The table of chat servers refines its specification: after any sequence of registrations,
  heartbeats and checks, the servers in the table and the times of their last sign of life are
  those of the specification, which drops a server exactly when a check finds that time more
  than 30 seconds old.
\<close>

theorem status_refines_alive:
  assumes "distinct_servers s"
  shows "alive (fold status_step evs s) = fold alive_step evs (alive s) \<and> distinct_servers (fold status_step evs s)"
  using alive_run [OF assms] distinct_run [OF assms] by blast

section \<open>The least loaded server\<close>

text \<open>The load of a server as the login counters show it; a server without a counter is not chosen.\<close>

definition server_load :: "keyspace \<Rightarrow> string \<Rightarrow> int" where
  "server_load ks name = (case map_of (hash_of ks LOGIN_COUNT) name of
     None \<Rightarrow> INT_MAX | Some v \<Rightarrow> (case stoi v of Inr i \<Rightarrow> i | Inl _ \<Rightarrow> 0))"

definition counters_ok :: "keyspace \<Rightarrow> bool" where
  "counters_ok ks \<longleftrightarrow> is_hash ks LOGIN_COUNT \<and>
     (\<forall>name v. map_of (hash_of ks LOGIN_COUNT) name = Some v \<longrightarrow> no_nul v \<and> (\<exists>i. stoi v = Inr i))"

text \<open>The entries of the table without their counts, and a documented Redis behind it.\<close>

definition entry :: "ChatServerEntry \<Rightarrow> ChatServerEntry" where
  "entry e = e\<lparr>conn_count := 0\<rparr>"

definition status_ok :: "('r \<Rightarrow> keyspace) \<Rightarrow> keyspace \<Rightarrow> (string \<rightharpoonup> ChatServerEntry) \<Rightarrow> 'r StatusServiceImpl \<Rightarrow> bool" where
  "status_ok view ks tab s \<longleftrightarrow> redis_up (status_redis s) \<and> view (redis_server (status_redis s)) = ks \<and>
     (\<forall>k. map_option entry (find_server s k) = tab k)"

lemma status_redis_op_does:
  assumes "does view p (status_redis s) x ks"
  obtains t where "status_redis_op p s = (x, t)" "redis_up (status_redis t)" "view (redis_server (status_redis t)) = ks"
    "servers t = servers s"
proof -
  obtain m where m: "p (status_redis s) = (x, m)" "redis_up m" "view (redis_server m) = ks"
    using assms by (auto simp: does_def)
  show thesis by (rule that [of "s\<lparr>status_redis := m\<rparr>"]) (use m in \<open>simp_all add: status_redis_op_def zoom_def\<close>)
qed

lemma getConnectionCount_load:
  assumes R: "redis_documented redis view" and s: "status_ok view ks tab s" and c: "counters_ok ks"
  obtains t where "getConnectionCount redis name s = (Val (server_load ks name), t)" "status_ok view ks tab t" "servers t = servers s"
proof -
  have up: "redis_up (status_redis s)" and ks: "view (redis_server (status_redis s)) = ks" using s by (simp_all add: status_ok_def)
  have h: "is_hash (view (redis_server (status_redis s))) LOGIN_COUNT" using c ks by (simp add: counters_ok_def)
  show thesis
  proof (cases "map_of (hash_of ks LOGIN_COUNT) name")
    case None
    then have n: "map_of (hash_of (view (redis_server (status_redis s))) LOGIN_COUNT) name = None" using ks by simp
    obtain t where t: "status_redis_op (hget redis LOGIN_COUNT name []) s = (Val (True, []), t)" "redis_up (status_redis t)"
        "view (redis_server (status_redis t)) = ks" "servers t = servers s"
      using status_redis_op_does [OF does_hget_missing [OF R up h n]] ks by metis
    show thesis
      by (rule that [of t]) (use t None s in \<open>simp_all add: getConnectionCount_def bnd_def ret_def server_load_def status_ok_def find_server_def\<close>)
  next
    case (Some v)
    then obtain i where v: "no_nul v" "stoi v = Inr i" using c by (auto simp: counters_ok_def)
    then have "v \<noteq> []" by auto
    have n: "map_of (hash_of (view (redis_server (status_redis s))) LOGIN_COUNT) name = Some v" using Some ks by simp
    obtain t where t: "status_redis_op (hget redis LOGIN_COUNT name []) s = (Val (True, v), t)" "redis_up (status_redis t)"
        "view (redis_server (status_redis t)) = ks" "servers t = servers s"
      using status_redis_op_does [OF does_hget [OF R up h n v(1)]] ks by metis
    show thesis
      by (rule that [of t]) (use t Some s v \<open>v \<noteq> []\<close> in
        \<open>simp_all add: getConnectionCount_def bnd_def from_sum_def ret_def server_load_def status_ok_def find_server_def\<close>)
  qed
qed

lemma update_count_load:
  assumes R: "redis_documented redis view" and s: "status_ok view ks tab s" and c: "counters_ok ks"
    and e: "find_server s key = Some e" "cs_name e = key"
  obtains t where "update_count redis key s = (Val (e\<lparr>conn_count := server_load ks key\<rparr>), t)" "status_ok view ks tab t"
    "\<And>k. find_server t k = (if k = key then Some (e\<lparr>conn_count := server_load ks key\<rparr>) else find_server s k)"
proof -
  obtain u where u: "getConnectionCount redis (cs_name e) s = (Val (server_load ks (cs_name e)), u)" "status_ok view ks tab u" "servers u = servers s"
    by (rule getConnectionCount_load [OF R s c])
  have fu: "find_server u k = find_server s k" for k by (simp add: find_server_def u(3))
  have "tab key = Some (entry e)" using s e(1) by (metis option.map(2) status_ok_def)
  then have ok: "status_ok view ks tab (put_server key (e\<lparr>conn_count := server_load ks key\<rparr>) u)"
    using u(2) by (simp add: status_ok_def server_table.find_put entry_def) (simp add: put_server_def)
  show thesis
    by (rule that [OF _ ok]) (use e u(1) in \<open>simp_all add: update_count_def bnd_def gets_def Let_def upd_def ret_def server_table.find_put fu\<close>)
qed

lemma min_loop_least:
  assumes R: "redis_documented redis view" and c: "counters_ok ks" and names: "\<And>k e. tab k = Some e \<Longrightarrow> cs_name e = k"
    and "status_ok view ks tab s" "find_server s m = Some best" "conn_count best = server_load ks m" "set keys \<subseteq> dom tab"
  shows "\<exists>t m' e. min_loop redis keys m s = (Val m', t) \<and> status_ok view ks tab t \<and> find_server t m' = Some e \<and>
    m' \<in> insert m (set keys) \<and> (\<forall>k \<in> insert m (set keys). server_load ks m' \<le> server_load ks k)"
  using assms(4-7)
proof (induction keys arbitrary: s m best)
  case Nil
  then show ?case by (auto simp: ret_def)
next
  case (Cons key keys)
  obtain e where e: "find_server s key = Some e" using Cons.prems(1,4) unfolding status_ok_def by (metis domD insert_subset list.simps(15) map_option_eq_Some)
  then have "tab key = Some (entry e)" using Cons.prems(1) by (metis option.map(2) status_ok_def)
  then have "cs_name e = key" using names by (fastforce simp: entry_def)
  then obtain u where u: "update_count redis key s = (Val (e\<lparr>conn_count := server_load ks key\<rparr>), u)" "status_ok view ks tab u"
      "\<And>k. find_server u k = (if k = key then Some (e\<lparr>conn_count := server_load ks key\<rparr>) else find_server s k)"
    using update_count_load [OF R Cons.prems(1) c e] by metis
  define best' where "best' = (if m = key then e\<lparr>conn_count := server_load ks key\<rparr> else best)"
  have b: "find_server u m = Some best'" "conn_count best' = server_load ks m"
    using u(3) [of m] Cons.prems(2,3) by (auto simp: best'_def)
  have k: "find_server u key = Some (e\<lparr>conn_count := server_load ks key\<rparr>)" using u(3) by simp
  have sub: "set keys \<subseteq> dom tab" using Cons.prems(4) by simp
  show ?case
  proof (cases "server_load ks key < server_load ks m")
    case True
    from Cons.IH [OF u(2) k _ sub] obtain t m' e' where "min_loop redis keys key u = (Val m', t)" "status_ok view ks tab t"
        "find_server t m' = Some e'" "m' \<in> insert key (set keys)" "\<forall>k \<in> insert key (set keys). server_load ks m' \<le> server_load ks k"
      by auto
    then show ?thesis using True b by (fastforce simp: bnd_def u(1) gets_def)
  next
    case False
    from Cons.IH [OF u(2) b sub] obtain t m' e' where "min_loop redis keys m u = (Val m', t)" "status_ok view ks tab t"
        "find_server t m' = Some e'" "m' \<in> insert m (set keys)" "\<forall>k \<in> insert m (set keys). server_load ks m' \<le> server_load ks k"
      by auto
    then show ?thesis using False b by (fastforce simp: bnd_def u(1) gets_def)
  qed
qed

text \<open>
  The table is well formed: a server is filed under its own name, once, with a name and a port.
\<close>

definition servers_wf :: "'r StatusServiceImpl \<Rightarrow> bool" where
  "servers_wf s \<longleftrightarrow> distinct_servers s \<and>
     (\<forall>(key, server) \<in> set (servers s). cs_name server = key \<and> key \<noteq> [] \<and> cs_port server \<noteq> [])"

lemma servers_wf_find:
  "servers_wf s \<longleftrightarrow> distinct_servers s \<and>
     (\<forall>key server. find_server s key = Some server \<longrightarrow> cs_name server = key \<and> key \<noteq> [] \<and> cs_port server \<noteq> [])"
  by (fastforce simp: servers_wf_def find_server_def distinct_servers_def dest: map_of_SomeD)

lemma servers_wf_put:
  "servers_wf s \<Longrightarrow> cs_name server = name \<Longrightarrow> name \<noteq> [] \<Longrightarrow> cs_port server \<noteq> [] \<Longrightarrow> servers_wf (put_server name server s)"
  by (auto simp: servers_wf_find distinct_put server_table.find_put)

lemma servers_wf_redis [simp]: "servers_wf (s\<lparr>status_redis := m\<rparr>) = servers_wf s"
  by (simp add: servers_wf_def distinct_servers_def)

lemma keeps_wf_redis_op: "keeps servers_wf (status_redis_op p)"
  by (auto simp: keeps_def status_redis_op_def zoom_def split: prod.splits)

lemma keeps_wf_getConnectionCount: "keeps servers_wf (getConnectionCount redis name)"
  unfolding getConnectionCount_def
  by (intro keeps_bnd keeps_wf_redis_op) (auto simp: from_sum_def split: sum.splits prod.splits)

lemma getConnectionCount_servers: "servers (snd (getConnectionCount redis name s)) = servers s"
  by (auto simp: getConnectionCount_def status_redis_op_def prog_defs split: prod.splits result.splits sum.splits)

lemma keeps_wf_update_count: "keeps servers_wf (update_count redis key)"
proof (unfold keeps_def, intro allI impI)
  fix s :: "'a StatusServiceImpl"
  assume wf: "servers_wf s"
  show "servers_wf (snd (update_count redis key s))"
  proof (cases "find_server s key")
    case None
    then show ?thesis using wf by (simp add: update_count_def bnd_def gets_def crash_def)
  next
    case (Some server)
    obtain r u where u: "getConnectionCount redis (cs_name server) s = (r, u)" by fastforce
    then have "servers_wf u" using keepsD [OF keeps_wf_getConnectionCount wf] by blast
    moreover have "cs_name server = key \<and> key \<noteq> [] \<and> cs_port server \<noteq> []" using wf Some by (simp add: servers_wf_find)
    ultimately show ?thesis
      using Some by (cases r) (auto simp: update_count_def bnd_def gets_def u Let_def upd_def ret_def intro!: servers_wf_put)
  qed
qed

lemma keeps_wf_min_loop: "keeps servers_wf (min_loop redis keys m)"
proof (induction keys arbitrary: m)
  case (Cons key keys)
  then show ?case by (auto intro!: keeps_bnd keeps_wf_update_count split: option.splits)
qed simp

lemma keeps_wf_getChatServer: "keeps servers_wf (getChatServer redis)"
  unfolding getChatServer_def
  by (intro keeps_bnd keeps_basic) (auto intro!: keeps_bnd keeps_wf_update_count keeps_wf_min_loop split: list.splits option.splits)

lemma keeps_wf_GetChatServer: "keeps servers_wf (GetChatServer redis unique uid)"
proof -
  have "keeps (servers_wf \<circ> fst) (\<lambda>x. (r, x))" for r :: "'b result" by (simp add: keeps_def)
  then show ?thesis
    unfolding GetChatServer_def insertToken_def
    by (intro keeps_collect keeps_catching keeps_bnd keeps_outer keeps_local_upd keeps_basic keeps_wf_getChatServer keeps_wf_redis_op)
qed

lemma keeps_wf_Login: "keeps servers_wf (Login redis uid token)"
  unfolding Login_def by (intro keeps_bnd keeps_wf_redis_op) (auto split: prod.splits)


text \<open>
  C38. The table of chat servers stays well formed under every operation of the service and of its
  checker thread: each server is filed once, under its own name, with a nonempty name and port.
\<close>

theorem servers_wf_kept:
  assumes "servers_wf s"
  shows "servers_wf (snd (RegisterChatServer peer now name host port s)) \<and> servers_wf (snd (Heartbeat now name s)) \<and>
     servers_wf (checkHeartbeat now s) \<and> servers_wf (snd (GetChatServer redis unique uid s)) \<and>
     servers_wf (snd (Login redis uid token s))"
proof (intro conjI)
  show "servers_wf (snd (RegisterChatServer peer now name host port s))"
    using assms by (auto simp: RegisterChatServer_def Let_def bnd_def upd_def ret_def intro!: servers_wf_put)
  show "servers_wf (snd (Heartbeat now name s))"
    using assms by (auto simp: Heartbeat_def bnd_def gets_def upd_def ret_def servers_wf_find distinct_put server_table.find_put
      split: option.splits)
  show "servers_wf (checkHeartbeat now s)"
    using assms by (auto simp: servers_wf_def distinct_check) (auto simp: checkHeartbeat_def)
  show "servers_wf (snd (GetChatServer redis unique uid s))"
    using assms keeps_wf_GetChatServer by (auto simp: keeps_def)
  show "servers_wf (snd (Login redis uid token s))"
    using assms keeps_wf_Login by (auto simp: keeps_def)
qed

lemma getChatServer_least:
  assumes R: "redis_documented redis view" "redis_up (status_redis s)" "view (redis_server (status_redis s)) = ks"
    and c: "counters_ok ks" and wf: "servers_wf s" and ne: "servers s \<noteq> []"
  obtains t e e' where "getChatServer redis s = (Val e', t)" "redis_up (status_redis t)" "view (redis_server (status_redis t)) = ks"
    "find_server s (cs_name e) = Some e" "entry e' = entry e" "\<forall>k \<in> fst ` set (servers s). server_load ks (cs_name e) \<le> server_load ks k"
proof -
  obtain first e0 rest where tab: "servers s = (first, e0) # rest" using ne by (cases "servers s") auto
  define tab where "tab = (\<lambda>k. map_option entry (find_server s k))"
  have ok: "status_ok view ks tab s" using R by (simp add: status_ok_def tab_def)
  have f: "find_server s first = Some e0" by (simp add: find_server_def tab)
  have name: "cs_name e = k" if "find_server s k = Some e" for k e using wf that by (simp add: servers_wf_find)
  have names: "cs_name e = k" if "tab k = Some e" for k e using that name by (auto simp: tab_def entry_def)
  obtain u where u: "update_count redis first s = (Val (e0\<lparr>conn_count := server_load ks first\<rparr>), u)" "status_ok view ks tab u"
      "\<And>k. find_server u k = (if k = first then Some (e0\<lparr>conn_count := server_load ks first\<rparr>) else find_server s k)"
    using update_count_load [OF R(1) ok c f name [OF f]] by metis
  have b: "find_server u first = Some (e0\<lparr>conn_count := server_load ks first\<rparr>)" using u(3) by simp
  have keys: "set (map fst (servers s)) \<subseteq> dom tab"
    by (auto simp: tab_def find_server_def dom_def map_of_eq_None_iff image_iff)
  obtain t m e' where t: "min_loop redis (map fst (servers s)) first u = (Val m, t)" "status_ok view ks tab t" "find_server t m = Some e'"
      "m \<in> insert first (set (map fst (servers s)))" "\<forall>k \<in> insert first (set (map fst (servers s))). server_load ks m \<le> server_load ks k"
    using min_loop_least [OF R(1) c names u(2) b _ keys] by auto
  have "tab m = Some (entry e')" using t(2,3) by (metis option.map(2) status_ok_def)
  then obtain e where e: "find_server s m = Some e" "entry e = entry e'" by (auto simp: tab_def)
  show thesis
  proof (rule that [of e' t e])
    show "getChatServer redis s = (Val e', t)"
      using t(1) by (simp add: getChatServer_def bnd_def gets_def tab u(1) t(3) ret_def)
  qed (use t(2,5) e name [OF e(1)] in \<open>auto simp: status_ok_def\<close>)
qed

text \<open>The ports fit an \<open>int\<close>, so that \<open>atoi\<close> is defined on them.\<close>

definition ports_ok :: "'r StatusServiceImpl \<Rightarrow> bool" where
  "ports_ok s \<longleftrightarrow> (\<forall>name server. find_server s name = Some server \<longrightarrow> (\<exists>p. atoi (c_str (cs_port server)) = Val p))"

lemma GetChatServer_effect:
  assumes R: "redis_documented redis view" "redis_up (status_redis s)" "view (redis_server (status_redis s)) = ks"
    and c: "counters_ok ks" and wf: "servers_wf s" and ne: "servers s \<noteq> []"
    and port: "ports_ok s" and tok: "no_nul unique"
  shows "\<exists>t name server p. GetChatServer redis unique uid s =
       (Val \<lparr>gcs_error = 0, gcs_host = cs_host server, gcs_port = p, gcs_token = unique\<rparr>, t) \<and>
     find_server s name = Some server \<and> atoi (c_str (cs_port server)) = Val p \<and>
     (\<forall>other \<in> fst ` set (servers s). server_load ks name \<le> server_load ks other) \<and>
     redis_up (status_redis t) \<and> view (redis_server (status_redis t)) = ks(USERTOKENPREFIX @ to_string uid \<mapsto> VStr unique)"
proof -
  obtain t e e' where t: "getChatServer redis s = (Val e', t)" "redis_up (status_redis t)" "view (redis_server (status_redis t)) = ks"
    "find_server s (cs_name e) = Some e" "entry e' = entry e" "\<forall>k \<in> fst ` set (servers s). server_load ks (cs_name e) \<le> server_load ks k"
    using getChatServer_least [OF R c wf ne] .
  have e': "cs_host e' = cs_host e" "cs_port e' = cs_port e" using t(5) by (cases e, cases e', simp add: entry_def)+
  obtain p where p: "atoi (c_str (cs_port e)) = Val p" using port t(4) by (auto simp: ports_ok_def)
  have k: "no_nul (USERTOKENPREFIX @ to_string uid)" by (simp add: USERTOKENPREFIX_def)
  obtain u where u: "status_redis_op (redis_set redis (USERTOKENPREFIX @ to_string uid) unique) t = (Val True, u)" "redis_up (status_redis u)"
      "view (redis_server (status_redis u)) = ks(USERTOKENPREFIX @ to_string uid \<mapsto> VStr unique)"
    using status_redis_op_does [OF does_set [OF R(1) t(2) k tok]] t(3) by metis
  have "GetChatServer redis unique uid s = (Val \<lparr>gcs_error = 0, gcs_host = cs_host e, gcs_port = p, gcs_token = unique\<rparr>, u)"
    by (simp add: GetChatServer_def collect_def catching_def bnd_def outer_pair t(1) local_upd_def upd_def e' p
        insertToken_def u(1) ret_def new_GetChatServerRes_def)
  then show ?thesis using t p u by blast
qed

text \<open>
  C15. The status server hands out the least loaded chat server: with login counters that are numbers
  and at least one registered server, \<open>GetChatServer\<close> answers error code Success, the address of a
  registered server whose counter is least among the registered ones (a server without a counter
  comes last), and the token; and that token is the one Redis then holds for the user.
\<close>

theorem GetChatServer_least_loaded:
  assumes R: "redis_documented redis view" "redis_up (status_redis s)" "view (redis_server (status_redis s)) = ks"
    and c: "counters_ok ks" and wf: "servers_wf s" and ne: "servers s \<noteq> []"
    and port: "ports_ok s" and tok: "no_nul unique"
  shows "\<exists>t name server p. GetChatServer redis unique uid s =
       (Val \<lparr>gcs_error = 0, gcs_host = cs_host server, gcs_port = p, gcs_token = unique\<rparr>, t) \<and>
     find_server s name = Some server \<and> atoi (c_str (cs_port server)) = Val p \<and>
     (\<forall>other \<in> fst ` set (servers s). server_load ks name \<le> server_load ks other) \<and>
     redis_up (status_redis t) \<and> view (redis_server (status_redis t)) = ks(USERTOKENPREFIX @ to_string uid \<mapsto> VStr unique)"
  using assms by (rule GetChatServer_effect)

section \<open>Instances and boundary cases\<close>

definition demo_status :: "keyspace \<Rightarrow> keyspace StatusServiceImpl" where
  "demo_status ks = \<lparr>status_redis = \<lparr>redis_pool = \<lparr>connections = [0], is_stop = False\<rparr>, redis_server = ks\<rparr>,
     servers = [(''c1'', \<lparr>cs_host = ''10.0.0.1'', cs_port = ''8090'', cs_name = ''c1'', conn_count = 0, last_heartbeat = 100\<rparr>),
       (''c2'', \<lparr>cs_host = ''10.0.0.2'', cs_port = ''8091'', cs_name = ''c2'', conn_count = 0, last_heartbeat = 120\<rparr>)]\<rparr>"

lemma demo_status_simps [simp]:
  "redis_up (status_redis (demo_status ks))" "redis_server (status_redis (demo_status ks)) = ks"
  "servers_wf (demo_status ks)" "distinct_servers (demo_status ks)" "servers (demo_status ks) \<noteq> []"
  by (simp_all add: demo_status_def redis_up_def servers_wf_def distinct_servers_def)

theorem status_refines_alive_witness:
  "alive (fold status_step [Beat 125 ''c2'', Checked 131, Checked 155, Beat 160 ''c1''] (demo_status Map.empty)) = [''c2'' \<mapsto> 125]"
proof -
  have "alive (demo_status Map.empty) = [''c1'' \<mapsto> 100, ''c2'' \<mapsto> 120]"
    by (auto simp: alive_def find_server_def demo_status_def)
  then show ?thesis
    using status_refines_alive [of "demo_status Map.empty" "[Beat 125 ''c2'', Checked 131, Checked 155, Beat 160 ''c1'']"]
    by (auto simp: fun_eq_iff)
qed

theorem servers_wf_kept_witness:
  "servers_wf (snd (RegisterChatServer ''ipv4:10.0.0.3:41000'' 130 ''c3'' [] ''8092'' (demo_status Map.empty)))"
  using servers_wf_kept [of "demo_status Map.empty" "''ipv4:10.0.0.3:41000''" 130 "''c3''" "[]" "''8092''" ref_redis "[]" 0 "[]"] by simp

theorem GetChatServer_least_loaded_witness:
  "\<exists>t. GetChatServer ref_redis ''tok'' 7 (demo_status [LOGIN_COUNT \<mapsto> VHash [(''c1'', ''3''), (''c2'', ''2'')]]) =
     (Val \<lparr>gcs_error = 0, gcs_host = ''10.0.0.2'', gcs_port = 8091, gcs_token = ''tok''\<rparr>, t)"
proof -
  let ?ks = "[LOGIN_COUNT \<mapsto> VHash [(''c1'', ''3''), (''c2'', ''2'')]]"
  have n: "stoi ''3'' = Inr 3" "stoi ''2'' = Inr 2" by code_simp+
  have p: "atoi (c_str ''8090'') = Val 8090" "atoi (c_str ''8091'') = Val 8091" by code_simp+
  have c: "counters_ok ?ks" by (auto simp: counters_ok_def is_hash_def hash_of_def n split: if_splits)
  have f: "find_server (demo_status ?ks) name = Some server \<Longrightarrow> name = ''c1'' \<and> cs_port server = ''8090'' \<and> cs_host server = ''10.0.0.1'' \<or>
      name = ''c2'' \<and> cs_port server = ''8091'' \<and> cs_host server = ''10.0.0.2''" for name server
    by (auto simp: find_server_def demo_status_def split: if_splits)
  have po: "ports_ok (demo_status ?ks)" using f p by (fastforce simp: ports_ok_def)
  have l: "server_load ?ks ''c1'' = 3" "server_load ?ks ''c2'' = 2" by (simp_all add: server_load_def hash_of_def n)
  have k: "fst ` set (servers (demo_status ?ks)) = {''c1'', ''c2''}" by (simp add: demo_status_def)
  obtain t name server p where t: "GetChatServer ref_redis ''tok'' 7 (demo_status ?ks) =
       (Val \<lparr>gcs_error = 0, gcs_host = cs_host server, gcs_port = p, gcs_token = ''tok''\<rparr>, t)"
     "find_server (demo_status ?ks) name = Some server" "atoi (c_str (cs_port server)) = Val p"
     "\<forall>other \<in> fst ` set (servers (demo_status ?ks)). server_load ?ks name \<le> server_load ?ks other"
    using GetChatServer_least_loaded [OF ref_redis_documented demo_status_simps(1), of ?ks ?ks "''tok''" 7] po c by fastforce
  have "name \<noteq> ''c1''" using t(4) by (auto simp: k l)
  then have "cs_host server = ''10.0.0.2'' \<and> p = 8091" using f [OF t(2)] t(3) p by auto
  then show ?thesis using t(1) by (intro exI [of _ t]) simp
qed

text \<open>
  \<open>GetChatServer\<close> does not report that there is no chat server: with an empty table the exception is
  logged and the reply says error code Success, with no host, port 0 and no token; nothing is stored.
\<close>

lemma GetChatServer_no_server:
  "GetChatServer redis unique uid (\<lparr>status_redis = m, servers = []\<rparr>) =
     (Val \<lparr>gcs_error = error_code Success, gcs_host = [], gcs_port = 0, gcs_token = []\<rparr>, \<lparr>status_redis = m, servers = []\<rparr>)"
  by (simp add: GetChatServer_def getChatServer_def new_GetChatServerRes_def prog_defs)

text \<open>
  \<open>Login\<close> of the status service tests the result of the lookup the wrong way round: a user for
  whom Redis holds a token is refused with UidInvalid, whatever token the request carries, and a
  user without one is accepted exactly with the empty token.
\<close>

theorem Login_inverted:
  assumes R: "redis_documented redis view" "redis_up (status_redis s)"
  shows "(view (redis_server (status_redis s)) (USERTOKENPREFIX @ to_string uid) = Some (VStr stored) \<and> no_nul stored \<longrightarrow>
      fst (Login redis uid token s) = Val \<lparr>lr_error = error_code UidInvalid, lr_uid = 0, lr_token = []\<rparr>) \<and>
    (view (redis_server (status_redis s)) (USERTOKENPREFIX @ to_string uid) = None \<longrightarrow>
      fst (Login redis uid token s) = Val (if token = [] then \<lparr>lr_error = error_code Success, lr_uid = uid, lr_token = []\<rparr>
        else \<lparr>lr_error = error_code TokenInvalid, lr_uid = 0, lr_token = []\<rparr>))"
proof (intro conjI impI)
  have k: "no_nul (USERTOKENPREFIX @ to_string uid)" by (simp add: USERTOKENPREFIX_def)
  show "fst (Login redis uid token s) = Val \<lparr>lr_error = error_code UidInvalid, lr_uid = 0, lr_token = []\<rparr>"
    if "view (redis_server (status_redis s)) (USERTOKENPREFIX @ to_string uid) = Some (VStr stored) \<and> no_nul stored"
    by (rule status_redis_op_does [OF does_get [OF R k conjunct1 [OF that] conjunct2 [OF that], of "[]"]])
      (simp add: Login_def bnd_def ret_def)
  show "fst (Login redis uid token s) = Val (if token = [] then \<lparr>lr_error = error_code Success, lr_uid = uid, lr_token = []\<rparr>
        else \<lparr>lr_error = error_code TokenInvalid, lr_uid = 0, lr_token = []\<rparr>)"
    if "view (redis_server (status_redis s)) (USERTOKENPREFIX @ to_string uid) = None"
    by (rule status_redis_op_does [OF does_get_missing [OF R k that, of "[]"]]) (simp add: Login_def bnd_def ret_def)
qed

theorem Login_inverted_witness:
  "fst (Login ref_redis 7 ''tok'' (demo_status [''utoken_7'' \<mapsto> VStr ''tok''])) = Val \<lparr>lr_error = error_code UidInvalid, lr_uid = 0, lr_token = []\<rparr>
   \<and> fst (Login ref_redis 7 [] (demo_status Map.empty)) = Val \<lparr>lr_error = error_code Success, lr_uid = 7, lr_token = []\<rparr>"
proof -
  have k: "USERTOKENPREFIX @ to_string 7 = ''utoken_7''" by code_simp
  show ?thesis
    using Login_inverted [OF ref_redis_documented demo_status_simps(1) [of "[''utoken_7'' \<mapsto> VStr ''tok'']"], of 7 "''tok''" "''tok''"]
      Login_inverted [OF ref_redis_documented demo_status_simps(1) [of Map.empty], of 7 "[]" "[]"]
    by (simp add: k)
qed

end
