(* ===== verification/StatusClient.thy ===== *)
theory StatusClient
  imports ConnPool StatusServer
begin

text \<open>
  The clients of the status server: \<open>platform/StatusGrpcClient.cpp\<close>, shared by the gate server and
  the chat servers, and the heartbeat timer of a chat server (\<open>CServer::onTimer\<close>), together with
  their composition with the service itself.
\<close>

section \<open>StatusGrpcClient\<close>

text \<open>
  The generated stubs and the network are a parameter: a call goes out on a stub and comes back with
  the reply, or with \<open>None\<close> for a \<open>grpc::Status\<close> that is not ok. \<open>status_peer\<close> is whatever is behind them.
\<close>

record 'g status_rpc =
  rpc_GetChatServer :: "nat \<Rightarrow> int \<Rightarrow> 'g \<Rightarrow> GetChatServerRes option \<times> 'g"
  rpc_RegisterChatServer :: "nat \<Rightarrow> string \<Rightarrow> string \<Rightarrow> string \<Rightarrow> 'g \<Rightarrow> rpc_error option \<times> 'g"
  rpc_Heartbeat :: "nat \<Rightarrow> string \<Rightarrow> 'g \<Rightarrow> rpc_error option \<times> 'g"

record 'g StatusGrpcClient =
  status_stubs :: "nat conn_pool"
  status_peer :: 'g

definition new_StatusGrpcClient :: "(nat \<Rightarrow> nat) \<Rightarrow> 'g \<Rightarrow> 'g StatusGrpcClient" where
  "new_StatusGrpcClient stubs g = \<lparr>status_stubs = StatusConnectPool 5 stubs, status_peer = g\<rparr>"

text \<open>
  The stub is taken from the pool, called and given back by a \<open>Defer\<close>; the call dereferences it
  without a test, so the null pointer of a closed pool crashes.
\<close>

definition with_status_stub :: "(nat \<Rightarrow> 'g \<Rightarrow> 'a option \<times> 'g) \<Rightarrow> ('g StatusGrpcClient, 'a option) prog" where
  "with_status_stub call c =
     (case status_getConnection (status_stubs c) of
        (Val (Some stub), p) \<Rightarrow>
          (case call stub (status_peer c) of (rsp, g) \<Rightarrow>
             (Val rsp, c\<lparr>status_stubs := status_returnConnection stub p, status_peer := g\<rparr>))
      | (Val None, p) \<Rightarrow> (Crash, c)
      | (Exn e, p) \<Rightarrow> (Exn e, c)
      | (Waits, p) \<Rightarrow> (Waits, c)
      | (Crash, p) \<Rightarrow> (Crash, c))"

definition StatusGrpcClient_GetChatServer :: "'g status_rpc \<Rightarrow> int \<Rightarrow> ('g StatusGrpcClient, GetChatServerRes) prog" where
  "StatusGrpcClient_GetChatServer R uid =
     bnd (with_status_stub (\<lambda>stub. rpc_GetChatServer R stub uid)) (\<lambda>status.
     case status of
       Some response \<Rightarrow> ret response
     | None \<Rightarrow> ret (new_GetChatServerRes\<lparr>gcs_error := error_code RPCFailed\<rparr>))"

definition StatusGrpcClient_RegisterChatServer ::
    "'g status_rpc \<Rightarrow> string \<Rightarrow> string \<Rightarrow> string \<Rightarrow> ('g StatusGrpcClient, rpc_error) prog" where
  "StatusGrpcClient_RegisterChatServer R service_name host port =
     bnd (with_status_stub (\<lambda>stub. rpc_RegisterChatServer R stub service_name host port)) (\<lambda>status.
     case status of Some response \<Rightarrow> ret response | None \<Rightarrow> ret RpcServerOffline)"

definition StatusGrpcClient_Heartbeat :: "'g status_rpc \<Rightarrow> string \<Rightarrow> ('g StatusGrpcClient, rpc_error) prog" where
  "StatusGrpcClient_Heartbeat R service_name =
     bnd (with_status_stub (\<lambda>stub. rpc_Heartbeat R stub service_name)) (\<lambda>status.
     case status of Some response \<Rightarrow> ret response | None \<Rightarrow> ret RpcServerOffline)"

section \<open>The heartbeat of a chat server\<close>

text \<open>
  \<open>CServer::onTimer\<close>, called 15 seconds after \<open>startTimer\<close>; the value says whether the timer is
  started again.
\<close>

definition onTimer :: "'g status_rpc \<Rightarrow> string \<Rightarrow> 16 word \<Rightarrow> bool \<Rightarrow> ('g StatusGrpcClient, bool) prog" where
  "onTimer R service_name port error =
     (if error then ret False
      else
        bnd (StatusGrpcClient_Heartbeat R service_name) (\<lambda>message_res.
        bnd (if message_res \<noteq> RpcSuccess then
               if message_res = RpcServerNotFound then
                 bnd (StatusGrpcClient_RegisterChatServer R service_name [] (to_string (uint port))) (\<lambda>_. ret ())
               else ret ()
             else ret ()) (\<lambda>_.
        ret True)))"

section \<open>Client and service together\<close>

text \<open>
  The service called directly: every call reaches the status server, in the state it is in, at time
  \<open>now\<close>; \<open>peer\<close> is the caller's transport address and \<open>unique\<close> the next unique string.
\<close>

definition answered :: "'a result \<times> 's \<Rightarrow> 'a option \<times> 's" where
  "answered x = (case x of (Val a, t) \<Rightarrow> (Some a, t) | (_, t) \<Rightarrow> (None, t))"

definition direct_rpc :: "'r redis_fun \<Rightarrow> string \<Rightarrow> int \<Rightarrow> string \<Rightarrow> 'r StatusServiceImpl status_rpc" where
  "direct_rpc redis peer now unique = \<lparr>
     rpc_GetChatServer = (\<lambda>_ uid s. answered (GetChatServer redis unique uid s)),
     rpc_RegisterChatServer = (\<lambda>_ name host port s. answered (RegisterChatServer peer now name host port s)),
     rpc_Heartbeat = (\<lambda>_ name s. answered (Heartbeat now name s))\<rparr>"

definition client_up :: "'g StatusGrpcClient \<Rightarrow> bool" where
  "client_up c \<longleftrightarrow> \<not> is_stop (status_stubs c) \<and> connections (status_stubs c) \<noteq> []"

lemma with_status_stub_up:
  assumes "client_up c"
  obtains stub c' where "with_status_stub call c = (Val (fst (call stub (status_peer c))), c')"
    "status_peer c' = snd (call stub (status_peer c))" "client_up c'"
proof -
  obtain stub cs where cs: "connections (status_stubs c) = stub # cs" "\<not> is_stop (status_stubs c)"
    using assms by (cases "connections (status_stubs c)") (auto simp: client_up_def)
  obtain rsp g where "call stub (status_peer c) = (rsp, g)" by fastforce
  then show thesis
    using cs by (intro that [of stub]) (auto simp: with_status_stub_def pool_defs client_up_def)
qed

lemma to_string_ne [simp]: "to_string i \<noteq> []"
  by (simp add: to_string_def)

text \<open>
  A heartbeat keeps a chat server registered: with a stub at hand and a status server that
  answers, \<open>onTimer\<close> starts the timer again and leaves the server in the table with the present time as
  its last sign of life, whether or not the table still had it; the other servers stay as they are.
  When the table had lost the server, its host is from then on the transport address of the caller.
\<close>

theorem onTimer_keeps_registered:
  assumes up: "client_up c" and name: "service_name \<noteq> []"
  shows "\<exists>c'. onTimer (direct_rpc redis peer now unique) service_name port False c = (Val True, c') \<and> client_up c' \<and>
    alive (status_peer c') = (alive (status_peer c))(service_name \<mapsto> now) \<and>
    map_option cs_host (find_server (status_peer c') service_name) =
      Some (case find_server (status_peer c) service_name of Some server \<Rightarrow> cs_host server | None \<Rightarrow> peer)"
proof -
  let ?R = "direct_rpc redis peer now unique"
  obtain stub c1 where c1: "with_status_stub (\<lambda>stub. rpc_Heartbeat ?R stub service_name) c =
      (Val (fst (rpc_Heartbeat ?R stub service_name (status_peer c))), c1)"
      "status_peer c1 = snd (rpc_Heartbeat ?R stub service_name (status_peer c))" "client_up c1"
    by (rule with_status_stub_up [OF up, where call = "\<lambda>stub. rpc_Heartbeat ?R stub service_name"])
  show ?thesis
  proof (cases "find_server (status_peer c) service_name")
    case (Some server)
    then show ?thesis using c1
      by (simp add: onTimer_def StatusGrpcClient_Heartbeat_def direct_rpc_def answered_def Heartbeat_def prog_defs alive_put server_table.find_put)
  next
    case None
    obtain stub' c2 where c2: "with_status_stub (\<lambda>stub. rpc_RegisterChatServer ?R stub service_name [] (to_string (uint port))) c1 =
        (Val (fst (rpc_RegisterChatServer ?R stub' service_name [] (to_string (uint port)) (status_peer c1))), c2)"
        "status_peer c2 = snd (rpc_RegisterChatServer ?R stub' service_name [] (to_string (uint port)) (status_peer c1))" "client_up c2"
      by (rule with_status_stub_up [OF c1(3), where call = "\<lambda>stub. rpc_RegisterChatServer ?R stub service_name [] (to_string (uint port))"])
    show ?thesis using None c1 c2 name
      by (simp add: onTimer_def StatusGrpcClient_Heartbeat_def StatusGrpcClient_RegisterChatServer_def direct_rpc_def answered_def
          Heartbeat_def RegisterChatServer_def prog_defs alive_put server_table.find_put)
  qed
qed

theorem onTimer_keeps_registered_witness:
  "\<exists>c'. onTimer (direct_rpc ref_redis ''ipv4:10.0.0.1:40000'' 200 []) ''c3'' 8092 False
      \<lparr>status_stubs = \<lparr>connections = [0], is_stop = False\<rparr>, status_peer = demo_status Map.empty\<rparr> = (Val True, c') \<and>
    alive (status_peer c') ''c3'' = Some 200 \<and> map_option cs_host (find_server (status_peer c') ''c3'') = Some ''ipv4:10.0.0.1:40000''"
proof -
  let ?c = "\<lparr>status_stubs = \<lparr>connections = [0], is_stop = False\<rparr>, status_peer = demo_status Map.empty\<rparr>"
  have "client_up ?c" "''c3'' \<noteq> []" by (simp_all add: client_up_def)
  moreover have "find_server (status_peer ?c) ''c3'' = None" by (simp add: find_server_def demo_status_def)
  ultimately show ?thesis
    using onTimer_keeps_registered [of ?c "''c3''" ref_redis "''ipv4:10.0.0.1:40000''" 200 "[]" 8092] by auto
qed

text \<open>
  Events in whose course a server that was seen at time \<open>t\<close> is to stay: no check after \<open>t + 30\<close>, no sign
  of life of the server dated before \<open>t\<close>.
\<close>

fun timely :: "string \<Rightarrow> int \<Rightarrow> status_event \<Rightarrow> bool" where
  "timely name t (Registered peer now name' host port) = (name' = name \<longrightarrow> t \<le> now)"
| "timely name t (Beat now name') = (name' = name \<longrightarrow> t \<le> now)"
| "timely name t (Checked now) = (now \<le> t + 30)"

lemma alive_step_stays: "a name = Some t0 \<Longrightarrow> t \<le> t0 \<Longrightarrow> timely name t e \<Longrightarrow> \<exists>t'. alive_step e a name = Some t' \<and> t \<le> t'"
  by (cases e) (auto split: option.splits if_splits)

lemma alive_steps_stay:
  "a name = Some t0 \<Longrightarrow> t \<le> t0 \<Longrightarrow> list_all (timely name t) evs \<Longrightarrow> \<exists>t'. fold alive_step evs a name = Some t' \<and> t \<le> t'"
proof (induction evs arbitrary: a t0)
  case (Cons e evs)
  then obtain t1 where "alive_step e a name = Some t1" "t \<le> t1" using alive_step_stays [of a name t0 t e] by auto
  then show ?case using Cons.IH [of "alive_step e a" t1] Cons.prems(3) by simp
qed simp

text \<open>
  A chat server that has given a sign of life at time \<open>t\<close> stays in the status server's table through
  any sequence of registrations, heartbeats and checks, as long as the clock does not run
  backwards and every check happens by \<open>t + 30\<close>. Heartbeats are sent every 15 seconds, so one of
  them may get lost.
\<close>

theorem heartbeats_keep_server:
  assumes "distinct_servers s" and "alive s name = Some t" and "list_all (timely name t) evs"
  shows "\<exists>server. find_server (fold status_step evs s) name = Some server \<and> t \<le> last_heartbeat server"
proof -
  have "\<exists>t'. alive (fold status_step evs s) name = Some t' \<and> t \<le> t'"
    using alive_steps_stay [of "alive s" name t t evs] assms(2,3) alive_run [OF assms(1)] by simp
  then show ?thesis by (auto simp: alive_def)
qed

theorem heartbeats_keep_server_witness:
  "\<exists>server. find_server (fold status_step [Checked 110, Beat 115 ''c1'', Checked 130] (demo_status Map.empty)) ''c1'' = Some server \<and>
     100 \<le> last_heartbeat server"
proof (rule heartbeats_keep_server)
  show "alive (demo_status Map.empty) ''c1'' = Some 100" by (simp add: alive_def find_server_def demo_status_def)
qed simp_all

end
