(* ===== verification/GateServer.thy ===== *)
theory GateServer
  imports GateDao StatusClient
begin

text \<open>
  The gate server: \<open>GateServer/logic_system.cpp\<close> with the five HTTP handlers,
  \<open>GateServer/verify_grpc_client.cpp\<close>, and the request handling of
  \<open>GateServer/http_connection.cpp\<close>.
\<close>

section \<open>State\<close>

record GetVarifyRsp =
  gv_error :: int
  gv_email :: string
  gv_code :: string

definition new_GetVarifyRsp :: GetVarifyRsp where
  "new_GetVarifyRsp = \<lparr>gv_error = 0, gv_email = [], gv_code = []\<rparr>"

record 'v VerifyGrpcClient =
  rcp_pool :: "nat conn_pool"
  verify_peer :: 'v

definition new_VerifyGrpcClient :: "(nat \<Rightarrow> nat) \<Rightarrow> 'v \<Rightarrow> 'v VerifyGrpcClient" where
  "new_VerifyGrpcClient stubs v = \<lparr>rcp_pool = GPCConnectPool 5 stubs, verify_peer = v\<rparr>"

record ('r, 'm, 'g, 'v) gate_server =
  gate_redis :: "'r RedisManager"
  gate_mysql :: "'m MySQLDao"
  gate_status :: "'g StatusGrpcClient"
  gate_verify :: "'v VerifyGrpcClient"

text \<open>The libraries: jsoncpp, hiredis, the MySQL connector and the generated stubs.\<close>

record ('r, 'm, 'g, 'v) gate_env =
  gate_json :: jsoncpp
  gate_redis_lib :: "'r redis_fun"
  gate_mysql_lib :: "'m mysql_driver"
  gate_status_rpc :: "'g status_rpc"
  gate_verify_rpc :: "nat \<Rightarrow> string \<Rightarrow> 'v \<Rightarrow> GetVarifyRsp option \<times> 'v"

text \<open>
  One connection: the request as beast parsed it, the response under construction, the parameters
  of a GET request; \<open>rsp_writes\<close> counts \<open>writeResponse\<close>, \<open>deadline\<close> says that the timer runs.
\<close>

datatype http_verb = HttpGet | HttpPost | HttpOther

record HttpConnection =
  req_method :: http_verb
  req_target :: string
  req_version :: nat
  req_body :: string
  rsp_version :: nat
  rsp_keep_alive :: bool
  rsp_result :: nat
  rsp_fields :: "string \<rightharpoonup> string"
  rsp_body :: string
  rsp_writes :: nat
  get_params :: params
  deadline :: bool

definition new_HttpConnection :: "http_verb \<Rightarrow> string \<Rightarrow> nat \<Rightarrow> string \<Rightarrow> HttpConnection" where
  "new_HttpConnection verb target version body = \<lparr>req_method = verb, req_target = target, req_version = version, req_body = body,
     rsp_version = 11, rsp_keep_alive = True, rsp_result = 200, rsp_fields = Map.empty, rsp_body = [], rsp_writes = 0,
     get_params = Map.empty, deadline = False\<rparr>"

type_synonym ('r, 'm, 'g, 'v) HttpHandler = "(('r, 'm, 'g, 'v) gate_server \<times> HttpConnection, unit) prog"

definition gate_redis_op :: "('r RedisManager, 'a) prog \<Rightarrow> (('r, 'm, 'g, 'v) gate_server, 'a) prog" where
  "gate_redis_op = zoom gate_redis (\<lambda>x s. s\<lparr>gate_redis := x\<rparr>)"

definition gate_mysql_op :: "('m MySQLDao, 'a) prog \<Rightarrow> (('r, 'm, 'g, 'v) gate_server, 'a) prog" where
  "gate_mysql_op = zoom gate_mysql (\<lambda>x s. s\<lparr>gate_mysql := x\<rparr>)"

text \<open>A call with an out parameter of the caller, which starts as a new \<open>UserInfo\<close>.\<close>

definition gate_mysql_out :: "('m MySQLDao \<times> GateUserInfo, 'a) prog \<Rightarrow> (('r, 'm, 'g, 'v) gate_server, 'a \<times> GateUserInfo) prog" where
  "gate_mysql_out p = gate_mysql_op (\<lambda>m. case p (m, new_GateUserInfo) of (r, (m', u)) \<Rightarrow>
     (case r of Val x \<Rightarrow> Val (x, u) | Exn e \<Rightarrow> Exn e | Waits \<Rightarrow> Waits | Crash \<Rightarrow> Crash, m'))"

definition gate_status_op :: "('g StatusGrpcClient, 'a) prog \<Rightarrow> (('r, 'm, 'g, 'v) gate_server, 'a) prog" where
  "gate_status_op = zoom gate_status (\<lambda>x s. s\<lparr>gate_status := x\<rparr>)"

definition gate_verify_op :: "('v VerifyGrpcClient, 'a) prog \<Rightarrow> (('r, 'm, 'g, 'v) gate_server, 'a) prog" where
  "gate_verify_op = zoom gate_verify (\<lambda>x s. s\<lparr>gate_verify := x\<rparr>)"

section \<open>Verification codes\<close>

text \<open>
  \<open>ConnectionPoolProxy\<close>: takes a stub from the pool, throws when there is none, and gives it back when
  the scope is left.
\<close>

definition with_proxy :: "(nat \<Rightarrow> 'v \<Rightarrow> 'a option \<times> 'v) \<Rightarrow> ('v VerifyGrpcClient, 'a option) prog" where
  "with_proxy call c =
     (case gpc_getConnection (rcp_pool c) of
        (Val (Some stub), p) \<Rightarrow>
          (case call stub (verify_peer c) of (rsp, v) \<Rightarrow>
             (Val rsp, c\<lparr>rcp_pool := gpc_returnConnection stub p, verify_peer := v\<rparr>))
      | (Val None, p) \<Rightarrow> (Exn (RuntimeError ''Failed to get connection from pool''), c)
      | (Exn e, p) \<Rightarrow> (Exn e, c)
      | (Waits, p) \<Rightarrow> (Waits, c)
      | (Crash, p) \<Rightarrow> (Crash, c))"

definition GetVarifyCode ::
    "(nat \<Rightarrow> string \<Rightarrow> 'v \<Rightarrow> GetVarifyRsp option \<times> 'v) \<Rightarrow> string \<Rightarrow> ('v VerifyGrpcClient, GetVarifyRsp) prog" where
  "GetVarifyCode rpc email =
     bnd (with_proxy (\<lambda>stub. rpc stub email)) (\<lambda>status.
     case status of
       Some response \<Rightarrow> ret response
     | None \<Rightarrow> ret (new_GetVarifyRsp\<lparr>gv_error := error_code RPCFailed\<rparr>))"

section \<open>The handlers\<close>

definition set_field :: "string \<Rightarrow> string \<Rightarrow> HttpConnection \<Rightarrow> HttpConnection" where
  "set_field name v con = con\<lparr>rsp_fields := (rsp_fields con)(name \<mapsto> v)\<rparr>"

definition append_body :: "string \<Rightarrow> HttpConnection \<Rightarrow> HttpConnection" where
  "append_body out con = con\<lparr>rsp_body := rsp_body con @ out\<rparr>"

text \<open>\<open>beast::ostream(connection->_response.body()) << root.toStyledString()\<close>\<close>

definition answer :: "jsoncpp \<Rightarrow> json \<Rightarrow> ('s \<times> HttpConnection, unit) prog" where
  "answer J root = local_upd (append_body (toStyledString J root))"

definition error_reply :: "ErrorCodes \<Rightarrow> json" where
  "error_reply e = jset ''error'' (JInt (error_code e)) JNull"

definition error_reply_msg :: "ErrorCodes \<Rightarrow> string \<Rightarrow> json" where
  "error_reply_msg e msg = jset ''error_msg'' (JStr msg) (error_reply e)"

text \<open>The messages, as UTF-8.\<close>

definition no_code_text :: string where
  "no_code_text = bytes [0xE9, 0xAA, 0x8C, 0xE8, 0xAF, 0x81, 0xE7, 0xA0, 0x81, 0xE4, 0xB8, 0x8D, 0xE5, 0xAD, 0x98, 0xE5, 0x9C, 0xA8]"

definition wrong_code_text :: string where
  "wrong_code_text = bytes [0xE9, 0xAA, 0x8C, 0xE8, 0xAF, 0x81, 0xE7, 0xA0, 0x81, 0xE9, 0x94, 0x99, 0xE8, 0xAF, 0xAF]"

definition user_exists_text :: string where
  "user_exists_text = bytes [0xE7, 0x94, 0xA8, 0xE6, 0x88, 0xB7, 0xE6, 0x88, 0x96, 0xE9, 0x82, 0xAE, 0xE7, 0xAE, 0xB1, 0xE5, 0xB7, 0xB2,
     0xE7, 0xBB, 0x8F, 0xE5, 0xAD, 0x98, 0xE5, 0x9C, 0xA8]"

definition no_match_text :: string where
  "no_match_text = bytes [0xE9, 0x82, 0xAE, 0xE7, 0xAE, 0xB1, 0xE6, 0x88, 0x96, 0xE7, 0x94, 0xA8, 0xE6, 0x88, 0xB7, 0xE5, 0x90, 0x8D,
     0xE4, 0xB8, 0x8D, 0xE5, 0x8C, 0xB9, 0xE9, 0x85, 0x8D]"

definition update_failed_text :: string where
  "update_failed_text = bytes [0xE5, 0xAF, 0x86, 0xE7, 0xA0, 0x81, 0xE6, 0x9B, 0xB4, 0xE6, 0x96, 0xB0, 0xE5, 0xA4, 0xB1, 0xE8, 0xB4, 0xA5,
     0xEF, 0xBC, 0x8C, 0xE8, 0xAF, 0xB7, 0xE9, 0x87, 0x8D, 0xE8, 0xAF, 0x95]"

definition no_user_text :: string where
  "no_user_text = bytes [0xE7, 0x94, 0xA8, 0xE6, 0x88, 0xB7, 0xE5, 0x90, 0x8D, 0xE4, 0xB8, 0x8D, 0xE5, 0xAD, 0x98, 0xE5, 0x9C, 0xA8,
     0xEF, 0xBC, 0x8C, 0xE8, 0xAF, 0xB7, 0xE6, 0xB3, 0xA8, 0xE5, 0x86, 0x8C]"

definition wrong_password_text :: string where
  "wrong_password_text = bytes [0xE7, 0x94, 0xA8, 0xE6, 0x88, 0xB7, 0xE5, 0x90, 0x8D, 0xE6, 0x88, 0x96, 0xE5, 0xAF, 0x86, 0xE7, 0xA0, 0x81,
     0xE9, 0x94, 0x99, 0xE8, 0xAF, 0xAF]"

definition server_error_text :: string where
  "server_error_text = bytes [0xE6, 0x9C, 0x8D, 0xE5, 0x8A, 0xA1, 0xE5, 0x99, 0xA8, 0xE5, 0x87, 0xBA, 0xE9, 0x94, 0x99]"

definition no_email_text :: string where
  "no_email_text = bytes [0xE7, 0x99, 0xBB, 0xE5, 0xBD, 0x95, 0xE5, 0xA4, 0xB1, 0xE8, 0xB4, 0xA5, 0xEF, 0xBC, 0x8C, 0xE8, 0xAF, 0xA5,
     0xE9, 0x82, 0xAE, 0xE7, 0xAE, 0xB1, 0xE5, 0xB0, 0x9A, 0xE6, 0x9C, 0xAA, 0xE6, 0xB3, 0xA8, 0xE5, 0x86, 0x8C]"

text \<open>
  The opening lines of every handler: the content type, the parse of the body and the reply to a
  body that is not JSON; \<open>rest\<close> gets the parsed value.
\<close>

definition with_json_body :: "jsoncpp \<Rightarrow> (json \<Rightarrow> ('s \<times> HttpConnection, unit) prog) \<Rightarrow> ('s \<times> HttpConnection, unit) prog" where
  "with_json_body J rest =
     bnd (gets (\<lambda>(s, con). req_body con)) (\<lambda>body_str.
     bnd (local_upd (set_field ''Content-Type'' ''text/json'')) (\<lambda>_.
     if \<not> fst (jparse J body_str) then answer J (error_reply Error_Json)
     else rest (snd (jparse J body_str))))"

text \<open>\<open>src_root[key]\<close>; a value that is neither null nor an object throws.\<close>

definition json_value :: "jsoncpp \<Rightarrow> json \<Rightarrow> string \<Rightarrow> ('s, json) prog" where
  "json_value J root key = from_option JsonLogicError (jmember J root key)"

definition getVarifycodeCallback :: "('r, 'm, 'g, 'v) gate_env \<Rightarrow> ('r, 'm, 'g, 'v) HttpHandler" where
  "getVarifycodeCallback E =
     (let J = gate_json E in
      with_json_body J (\<lambda>src_root.
        bnd (json_str J src_root ''email'') (\<lambda>email.
        bnd (outer (gate_verify_op (GetVarifyCode (gate_verify_rpc E) email))) (\<lambda>rsp.
        bnd (json_value J src_root ''email'') (\<lambda>v.
        answer J (jset ''email'' v (jset ''error'' (JInt (gv_error rsp)) JNull)))))))"

text \<open>
  The check of the code that the mail carried, the same in three handlers: \<open>rest\<close> runs when Redis
  holds the code of the request for the address.
\<close>

definition with_code ::
    "('r, 'm, 'g, 'v) gate_env \<Rightarrow> string \<Rightarrow> string \<Rightarrow> ('r, 'm, 'g, 'v) HttpHandler \<Rightarrow> ('r, 'm, 'g, 'v) HttpHandler" where
  "with_code E email code rest =
     bnd (outer (gate_redis_op (redis_get (gate_redis_lib E) (CODE_PREFIX @ email) []))) (\<lambda>(b_get_varify, varify_code).
     if \<not> b_get_varify then answer (gate_json E) (error_reply_msg VarifyExpired no_code_text)
     else if varify_code \<noteq> code then answer (gate_json E) (error_reply_msg VarifyCodeErr wrong_code_text)
     else rest)"

definition userRegsterCallback :: "('r, 'm, 'g, 'v) gate_env \<Rightarrow> ('r, 'm, 'g, 'v) HttpHandler" where
  "userRegsterCallback E =
     (let J = gate_json E in
      with_json_body J (\<lambda>src_root.
        bnd (json_str J src_root ''username'') (\<lambda>username.
        bnd (json_str J src_root ''password'') (\<lambda>password.
        bnd (json_str J src_root ''email'') (\<lambda>email.
        bnd (json_str J src_root ''code'') (\<lambda>code.
        with_code E email code
          (bnd (outer (gate_mysql_op (gate_registerUser (gate_mysql_lib E) username email password []))) (\<lambda>uid.
           if uid = 0 \<or> uid = -1 then answer J (error_reply_msg UserExist user_exists_text)
           else
             answer J (
               jset ''code'' (JStr code) (
               jset ''password'' (JStr password) (
               jset ''username'' (JStr username) (
               jset ''email'' (JStr email) (
               jset ''error'' (JInt 0) JNull)))))))))))))"

definition forgetPasswordCallback :: "('r, 'm, 'g, 'v) gate_env \<Rightarrow> ('r, 'm, 'g, 'v) HttpHandler" where
  "forgetPasswordCallback E =
     (let J = gate_json E in
      with_json_body J (\<lambda>src_root.
        bnd (json_str J src_root ''username'') (\<lambda>username.
        bnd (json_str J src_root ''password'') (\<lambda>password.
        bnd (json_str J src_root ''email'') (\<lambda>email.
        bnd (json_str J src_root ''code'') (\<lambda>code.
        with_code E email code
          (bnd (outer (gate_mysql_op (gate_checkUsernameEmailMatch (gate_mysql_lib E) username email))) (\<lambda>email_valid.
           if \<not> email_valid then answer J (error_reply_msg EmailNotMatch no_match_text)
           else
             bnd (outer (gate_mysql_op (gate_updatePassword (gate_mysql_lib E) username password))) (\<lambda>b_up.
             if \<not> b_up then answer J (error_reply_msg PasswdUpdataFailed update_failed_text)
             else
               bnd (json_str J src_root ''code'') (\<lambda>code'.
               answer J (
                 jset ''code'' (JStr code') (
                 jset ''password'' (JStr password) (
                 jset ''username'' (JStr username) (
                 jset ''email'' (JStr email) (
                 jset ''error'' (JInt 0) JNull)))))))))))))))"

text \<open>The end of the two login handlers: a chat server and a token from the status server.\<close>

definition login_reply :: "string \<Rightarrow> int \<Rightarrow> GetChatServerRes \<Rightarrow> json" where
  "login_reply username uid reply =
     jset ''port'' (JInt (gcs_port reply)) (
     jset ''host'' (JStr (gcs_host reply)) (
     jset ''token'' (JStr (gcs_token reply)) (
     jset ''uid'' (JInt uid) (
     jset ''username'' (JStr username) (
     jset ''error'' (JInt 0) JNull)))))"

definition hand_over :: "('r, 'm, 'g, 'v) gate_env \<Rightarrow> string \<Rightarrow> int \<Rightarrow> ('r, 'm, 'g, 'v) HttpHandler" where
  "hand_over E username uid =
     bnd (outer (gate_status_op (StatusGrpcClient_GetChatServer (gate_status_rpc E) uid))) (\<lambda>reply.
     if gcs_error reply \<noteq> 0 then answer (gate_json E) (error_reply_msg RPCFailed server_error_text)
     else answer (gate_json E) (login_reply username uid reply))"

definition userLoginCallback :: "('r, 'm, 'g, 'v) gate_env \<Rightarrow> ('r, 'm, 'g, 'v) HttpHandler" where
  "userLoginCallback E =
     (let J = gate_json E in
      with_json_body J (\<lambda>src_root.
        bnd (json_str J src_root ''username'') (\<lambda>username.
        bnd (json_str J src_root ''password'') (\<lambda>password.
        bnd (outer (gate_mysql_out (gate_checkUserLogin (gate_mysql_lib E) username password))) (\<lambda>(result, user_info).
        if result \<noteq> 0 then
          if result = 1 then answer J (error_reply_msg UserNotExist no_user_text)
          else answer J (error_reply_msg PasswdInvalid wrong_password_text)
        else hand_over E username (gu_uid user_info))))))"

definition emailLoginCallback :: "('r, 'm, 'g, 'v) gate_env \<Rightarrow> ('r, 'm, 'g, 'v) HttpHandler" where
  "emailLoginCallback E =
     (let J = gate_json E in
      with_json_body J (\<lambda>src_root.
        bnd (json_str J src_root ''email'') (\<lambda>email.
        bnd (json_str J src_root ''code'') (\<lambda>code.
        with_code E email code
          (bnd (outer (gate_mysql_out (gate_checkEmailLoginWithCode (gate_mysql_lib E) email))) (\<lambda>(success, user_info).
           if \<not> success then answer J (error_reply_msg EmailNotMatch no_email_text)
           else hand_over E (gu_name user_info) (gu_uid user_info)))))))"

section \<open>Dispatch\<close>

record ('r, 'm, 'g, 'v) GateLogic =
  get_handlers :: "string \<rightharpoonup> ('r, 'm, 'g, 'v) HttpHandler"
  post_handlers :: "string \<rightharpoonup> ('r, 'm, 'g, 'v) HttpHandler"

definition find_get :: "('r, 'm, 'g, 'v) GateLogic \<Rightarrow> string \<Rightarrow> ('r, 'm, 'g, 'v) HttpHandler option" where
  "find_get L path = get_handlers L path"

definition find_post :: "('r, 'm, 'g, 'v) GateLogic \<Rightarrow> string \<Rightarrow> ('r, 'm, 'g, 'v) HttpHandler option" where
  "find_post L path = post_handlers L path"

definition regGet :: "string \<Rightarrow> ('r, 'm, 'g, 'v) HttpHandler \<Rightarrow> ('r, 'm, 'g, 'v) GateLogic \<Rightarrow> ('r, 'm, 'g, 'v) GateLogic" where
  "regGet url handler L =
     (case find_get L url of None \<Rightarrow> L\<lparr>get_handlers := (get_handlers L)(url \<mapsto> handler)\<rparr> | Some _ \<Rightarrow> L)"

definition regPost :: "string \<Rightarrow> ('r, 'm, 'g, 'v) HttpHandler \<Rightarrow> ('r, 'm, 'g, 'v) GateLogic \<Rightarrow> ('r, 'm, 'g, 'v) GateLogic" where
  "regPost url handler L =
     (case find_post L url of None \<Rightarrow> L\<lparr>post_handlers := (post_handlers L)(url \<mapsto> handler)\<rparr> | Some _ \<Rightarrow> L)"

interpretation get_table: first_wins find_get regGet
  by unfold_locales (auto simp: find_get_def regGet_def fun_eq_iff split: option.splits)

interpretation post_table: first_wins find_post regPost
  by unfold_locales (auto simp: find_post_def regPost_def fun_eq_iff split: option.splits)

definition gate_routes :: "('r, 'm, 'g, 'v) gate_env \<Rightarrow> (string \<times> ('r, 'm, 'g, 'v) HttpHandler) list" where
  "gate_routes E =
     [(''/get_varifycode'', getVarifycodeCallback E),
      (''/user_register'', userRegsterCallback E),
      (''/reset_pwd'', forgetPasswordCallback E),
      (''/user_login'', userLoginCallback E),
      (''/email_login'', emailLoginCallback E)]"

definition new_GateLogic :: "('r, 'm, 'g, 'v) gate_env \<Rightarrow> ('r, 'm, 'g, 'v) GateLogic" where
  "new_GateLogic E =
     fold (\<lambda>(url, handler). regPost url handler) (gate_routes E) \<lparr>get_handlers = Map.empty, post_handlers = Map.empty\<rparr>"

definition handleGet ::
    "('r, 'm, 'g, 'v) GateLogic \<Rightarrow> string \<Rightarrow> (('r, 'm, 'g, 'v) gate_server \<times> HttpConnection, bool) prog" where
  "handleGet L path =
     (case find_get L path of None \<Rightarrow> ret False | Some handler \<Rightarrow> bnd handler (\<lambda>_. ret True))"

definition handlePost ::
    "('r, 'm, 'g, 'v) GateLogic \<Rightarrow> string \<Rightarrow> (('r, 'm, 'g, 'v) gate_server \<times> HttpConnection, bool) prog" where
  "handlePost L path =
     (case find_post L path of None \<Rightarrow> ret False | Some handler \<Rightarrow> bnd handler (\<lambda>_. ret True))"

section \<open>HttpConnection\<close>

definition writeResponse :: "HttpConnection \<Rightarrow> HttpConnection" where
  "writeResponse con =
     (let con' = set_field ''Content-Length'' (to_string (int (length (rsp_body con)))) con in
      con'\<lparr>rsp_writes := rsp_writes con' + 1\<rparr>)"

text \<open>The end of both branches of \<open>hanleReq\<close>.\<close>

definition respond :: "bool \<Rightarrow> ('s \<times> HttpConnection, unit) prog" where
  "respond success =
     (if \<not> success then
        local_upd (\<lambda>con. writeResponse (append_body (''url not found'' @ [CHR 0x0D, CHR 0x0A])
          (set_field ''Content-Type'' ''text/plain'' (con\<lparr>rsp_result := 404\<rparr>))))
      else local_upd (\<lambda>con. writeResponse (set_field ''Server'' ''GateServer'' (con\<lparr>rsp_result := 200\<rparr>))))"

definition hanleReq :: "('r, 'm, 'g, 'v) GateLogic \<Rightarrow> ('r, 'm, 'g, 'v) HttpHandler" where
  "hanleReq L =
     bnd (local_upd (\<lambda>con. con\<lparr>rsp_version := req_version con, rsp_keep_alive := False\<rparr>)) (\<lambda>_.
     bnd (gets snd) (\<lambda>con.
     case req_method con of
       HttpGet \<Rightarrow>
         bnd (\<lambda>x. (preParseGetParam (req_target con) (get_params con), x)) (\<lambda>(result_url, params).
         bnd (local_upd (\<lambda>con. con\<lparr>get_params := params\<rparr>)) (\<lambda>_.
         bnd (handleGet L result_url) respond))
     | HttpPost \<Rightarrow> bnd (handlePost L (req_target con)) respond
     | HttpOther \<Rightarrow> ret ()))"

text \<open>The completion of \<open>async_read\<close> in \<open>start\<close>; \<open>ec\<close> is its error flag.\<close>

definition http_start :: "('r, 'm, 'g, 'v) GateLogic \<Rightarrow> bool \<Rightarrow> ('r, 'm, 'g, 'v) HttpHandler" where
  "http_start L ec =
     catching
       (if ec then ret ()
        else bnd (hanleReq L) (\<lambda>_. local_upd (\<lambda>con. con\<lparr>deadline := True\<rparr>)))
       (\<lambda>_. ret ())"

section \<open>Routing\<close>

lemma find_post_new: "find_post (new_GateLogic E) path = map_of (gate_routes E) path"
proof -
  have "find_post (post_table.puts (gate_routes E) \<lparr>get_handlers = Map.empty, post_handlers = Map.empty\<rparr>) path =
      (case map_of (gate_routes E) path of Some v \<Rightarrow> Some v
       | None \<Rightarrow> find_post \<lparr>get_handlers = Map.empty, post_handlers = Map.empty\<rparr> path)"
    by (rule post_table.find_puts) (simp_all add: gate_routes_def find_post_def)
  then show ?thesis
    unfolding new_GateLogic_def post_table.puts_def by (simp add: find_post_def split: option.splits)
qed

definition not_found :: "HttpConnection \<Rightarrow> HttpConnection" where
  "not_found con = writeResponse (append_body (''url not found'' @ [CHR 0x0D, CHR 0x0A])
     (set_field ''Content-Type'' ''text/plain'' (con\<lparr>rsp_result := 404\<rparr>)))"

definition found :: "HttpConnection \<Rightarrow> HttpConnection" where
  "found con = writeResponse (set_field ''Server'' ''GateServer'' (con\<lparr>rsp_result := 200\<rparr>))"

text \<open>
  POST requests: a POST to one of the five paths runs the handler of that path; when the handler
  returns, the request is answered once, with status 200 and what the handler has written; any
  other path is answered once, with 404. A handler that throws leaves the request without an answer
  and without the deadline timer.
\<close>

theorem post_dispatch:
  assumes "req_method con = HttpPost"
  shows "http_start (new_GateLogic E) False (s, con) =
    (let con1 = con\<lparr>rsp_version := req_version con, rsp_keep_alive := False\<rparr> in
     case map_of (gate_routes E) (req_target con) of
       None \<Rightarrow> (Val (), (s, (not_found con1)\<lparr>deadline := True\<rparr>))
     | Some handler \<Rightarrow>
         (case handler (s, con1) of
            (Val _, (t, con2)) \<Rightarrow> (Val (), (t, (found con2)\<lparr>deadline := True\<rparr>))
          | (Exn _, (t, con2)) \<Rightarrow> (Val (), (t, con2))
          | (Waits, y) \<Rightarrow> (Waits, y) | (Crash, y) \<Rightarrow> (Crash, y)))"
  using assms
  by (auto simp: http_start_def hanleReq_def handlePost_def find_post_new respond_def prog_defs Let_def not_found_def found_def
      split: option.splits prod.splits result.splits)

section \<open>A concrete gate\<close>

text \<open>
  One connection to everything, the status server of the examples behind the status stub, a
  verification service that answers without error, and a database with the given rows. Its JSON
  library reads the given value from every text and prints every value as two characters.
\<close>

definition demo_gate_env :: "json \<Rightarrow> sql_row list \<Rightarrow> (keyspace, unit, keyspace StatusServiceImpl, unit) gate_env" where
  "demo_gate_env root rows = \<lparr>gate_json = ref_json\<lparr>jparse := (\<lambda>_. (True, root)), toStyledString := (\<lambda>_. ''{}'')\<rparr>,
     gate_redis_lib = ref_redis, gate_mysql_lib = table_driver (\<lambda>_ _. rows),
     gate_status_rpc = direct_rpc ref_redis ''ipv4:10.0.0.9:5000'' 130 ''tok'', gate_verify_rpc = (\<lambda>_ email v. (Some new_GetVarifyRsp, v))\<rparr>"

definition demo_gate :: "keyspace \<Rightarrow> (keyspace, unit, keyspace StatusServiceImpl, unit) gate_server" where
  "demo_gate ks = \<lparr>gate_redis = \<lparr>redis_pool = \<lparr>connections = [0], is_stop = False\<rparr>, redis_server = ks\<rparr>,
     gate_mysql = \<lparr>mysql_pool = \<lparr>connections = [\<lparr>sql_connection = 0, last_oper_time = 0\<rparr>], is_stop = False\<rparr>, mysql_server = ()\<rparr>,
     gate_status = \<lparr>status_stubs = \<lparr>connections = [0], is_stop = False\<rparr>,
       status_peer = demo_status (ks(LOGIN_COUNT \<mapsto> VHash [(''c1'', ''3''), (''c2'', ''2'')]))\<rparr>,
     gate_verify = \<lparr>rcp_pool = \<lparr>connections = [0], is_stop = False\<rparr>, verify_peer = ()\<rparr>\<rparr>"

definition demo_request :: "string \<Rightarrow> HttpConnection" where
  "demo_request path = new_HttpConnection HttpPost path 11 ''{}''"

theorem post_dispatch_witness:
  "http_start (new_GateLogic (demo_gate_env JNull [])) False (demo_gate Map.empty, demo_request ''/nope'') =
     (Val (), (demo_gate Map.empty, (not_found ((demo_request ''/nope'')\<lparr>rsp_version := 11, rsp_keep_alive := False\<rparr>))\<lparr>deadline := True\<rparr>))"
proof -
  have "req_method (demo_request ''/nope'') = HttpPost" "req_target (demo_request ''/nope'') = ''/nope''"
      "req_version (demo_request ''/nope'') = 11"
    by (simp_all add: demo_request_def new_HttpConnection_def)
  then show ?thesis
    using post_dispatch [of "demo_request ''/nope''" "demo_gate_env JNull []" "demo_gate Map.empty"] by (simp add: gate_routes_def Let_def)
qed

section \<open>Codes and passwords\<close>

lemma keeps_gate_ops:
  "(\<And>s x. I s \<Longrightarrow> I (s\<lparr>gate_redis := x\<rparr>)) \<Longrightarrow> keeps I (gate_redis_op p)"
  "(\<And>s x. I s \<Longrightarrow> I (s\<lparr>gate_mysql := x\<rparr>)) \<Longrightarrow> keeps I (gate_mysql_op q)"
  "(\<And>s x. I s \<Longrightarrow> I (s\<lparr>gate_status := x\<rparr>)) \<Longrightarrow> keeps I (gate_status_op r)"
  "(\<And>s x. I s \<Longrightarrow> I (s\<lparr>gate_verify := x\<rparr>)) \<Longrightarrow> keeps I (gate_verify_op v)"
  by (auto simp: keeps_def gate_redis_op_def gate_mysql_op_def gate_status_op_def gate_verify_op_def zoom_def split: prod.splits)

text \<open>What \<open>with_code\<close> has established when its continuation changes the database.\<close>

lemma with_code_db:
  assumes run: "with_code E email code rest (s, con) = (r, (t, con'))" and db: "gate_mysql t \<noteq> gate_mysql s"
  shows "\<exists>m. redis_get (gate_redis_lib E) (CODE_PREFIX @ email) [] (gate_redis s) = (Val (True, code), m)"
proof -
  obtain x m where g: "redis_get (gate_redis_lib E) (CODE_PREFIX @ email) [] (gate_redis s) = (x, m)" by fastforce
  show ?thesis
  proof (cases x)
    case (Val bv)
    then obtain b v where bv: "bv = (b, v)" by fastforce
    show ?thesis
    proof (cases "b \<and> v = code")
      case True
      then show ?thesis using g Val bv by simp
    next
      case False
      then have "gate_mysql t = gate_mysql s"
        using run g Val bv by (auto simp: with_code_def gate_redis_op_def answer_def prog_defs split: if_splits)
      then show ?thesis using db by simp
    qed
  qed (use run g db in \<open>auto simp: with_code_def gate_redis_op_def prog_defs\<close>)
qed

text \<open>A handler that reads the body and then members of it.\<close>

lemma with_json_body_run:
  assumes "with_json_body J rest (s, con) = (r, (t, con'))" and "gate_mysql t \<noteq> gate_mysql s"
  obtains con1 where "rest (snd (jparse J (req_body con))) (s, con1) = (r, (t, con'))"
  using assms by (auto simp: with_json_body_def answer_def prog_defs split: if_splits)

lemma json_str_run:
  assumes "bnd (json_str J root key) rest x = (r, (t, con'))" and "gate_mysql t \<noteq> gate_mysql (fst x)"
  obtains v where "field_str J root key = Some v" "rest v x = (r, (t, con'))"
  using assms by (cases "field_str J root key") (auto simp: json_str_def from_option_def bnd_def ret_def raise_def)

text \<open>
  C5. Accounts are touched only with the mailed code: if the registration, the password reset or the
  login by mail changes anything on the side of the database (a statement, or even the use of a
  connection), in whatever way the handler ends and whatever the libraries do, then the body of
  the request has an address and a code as strings, and Redis returned exactly this code for
  this address.
\<close>

theorem accounts_need_code:
  assumes "handler \<in> {userRegsterCallback E, forgetPasswordCallback E, emailLoginCallback E}"
    and "handler (s, con) = (r, (t, con'))" and "gate_mysql t \<noteq> gate_mysql s"
  shows "\<exists>email code m. field_str (gate_json E) (snd (jparse (gate_json E) (req_body con))) ''email'' = Some email \<and>
    field_str (gate_json E) (snd (jparse (gate_json E) (req_body con))) ''code'' = Some code \<and>
    redis_get (gate_redis_lib E) (CODE_PREFIX @ email) [] (gate_redis s) = (Val (True, code), m)"
proof -
  consider "handler = userRegsterCallback E" | "handler = forgetPasswordCallback E" | "handler = emailLoginCallback E"
    using assms(1) by blast
  then show ?thesis
  proof cases
    case 1
    then show ?thesis using assms(2,3)
      by (auto simp: userRegsterCallback_def Let_def elim!: with_json_body_run json_str_run dest!: with_code_db)
  next
    case 2
    then show ?thesis using assms(2,3)
      by (auto simp: forgetPasswordCallback_def Let_def elim!: with_json_body_run json_str_run dest!: with_code_db)
  next
    case 3
    then show ?thesis using assms(2,3)
      by (auto simp: emailLoginCallback_def Let_def elim!: with_json_body_run json_str_run dest!: with_code_db)
  qed
qed

theorem accounts_need_code_witness:
  "\<exists>email code m. redis_get ref_redis (CODE_PREFIX @ email) [] (gate_redis (demo_gate [''code_a@b'' \<mapsto> VStr ''1234''])) = (Val (True, code), m)"
proof -
  let ?E = "demo_gate_env (JObj [(''email'', JStr ''a@b''), (''code'', JStr ''1234'')]) []"
  let ?s2 = "demo_gate [''code_a@b'' \<mapsto> VStr ''1234'']\<lparr>gate_mysql := \<lparr>mysql_pool = \<lparr>connections =
    [\<lparr>sql_connection = 0, last_oper_time = 0\<rparr>, \<lparr>sql_connection = 1, last_oper_time = 0\<rparr>], is_stop = False\<rparr>, mysql_server = ()\<rparr>\<rparr>"
  obtain r t con' where run: "emailLoginCallback ?E (?s2, demo_request ''/email_login'') = (r, (t, con'))"
    by (metis prod.collapse)
  have "connections (mysql_pool (gate_mysql (fst (snd (emailLoginCallback ?E (?s2, demo_request ''/email_login'')))))) =
     [\<lparr>sql_connection = 1, last_oper_time = 0\<rparr>, \<lparr>sql_connection = 0, last_oper_time = 0\<rparr>]" by code_simp
  then have "gate_mysql t \<noteq> gate_mysql ?s2" using run by auto
  from accounts_need_code [of "emailLoginCallback ?E" ?E, OF _ run this] show ?thesis
    by (auto simp: demo_gate_env_def demo_gate_def)
qed

lemma userLogin_run:
  assumes "gate_json E = J" and "fst (jparse J (req_body con))" and "snd (jparse J (req_body con)) = root"
    and "field_str J root ''username'' = Some username" and "field_str J root ''password'' = Some password"
    and pool: "mysql_pool (gate_mysql s) = \<lparr>connections = conn # conns, is_stop = False\<rparr>"
    and query: "drv_query (gate_mysql_lib E) (sql_connection conn) ''SELECT * FROM user WHERE username = ?'' [PString username]
      (mysql_server (gate_mysql s)) = (Some res, db)"
    and rows: "\<And>row rows. res = row # rows \<Longrightarrow>
      getString row ''password'' = Some stored \<and> getString row ''email'' = Some email \<and> getInt row ''uid'' = Some uid"
    and s1: "s1 = s\<lparr>gate_mysql := queried conn conns db (gate_mysql s)\<rparr>"
    and con1: "con1 = set_field ''Content-Type'' ''text/json'' con"
  shows "userLoginCallback E (s, con) =
    (if res = [] then (Val (), (s1, append_body (toStyledString J (error_reply_msg UserNotExist no_user_text)) con1))
     else if stored \<noteq> password then (Val (), (s1, append_body (toStyledString J (error_reply_msg PasswdInvalid wrong_password_text)) con1))
     else hand_over E username uid (s1, con1))"
proof -
  note start = userLoginCallback_def with_json_body_def json_str_def from_option_def gate_mysql_out_def gate_mysql_op_def gate_manager_defs
    answer_def prog_defs
  show ?thesis
  proof (cases res)
    case Nil
    then show ?thesis using assms(1-5) checkUserLogin_run(1) [OF pool query] by (simp add: start s1 con1)
  next
    case (Cons row rows')
    note row = rows [OF Cons]
    show ?thesis
    proof (cases "stored = password")
      case True
      then show ?thesis using assms(1-5) checkUserLogin_run(3) [OF pool query Cons] row Cons by (simp add: start s1 con1)
    next
      case False
      then show ?thesis using assms(1-5) checkUserLogin_run(2) [OF pool query Cons] row Cons by (simp add: start s1 con1)
    qed
  qed
qed

text \<open>
  The password decides: when the database answers the query for the name with \<open>res\<close>, the handler
  reports UserNotExist for an empty answer and PasswdInvalid when the password of the first row
  is not the one of the request, in both cases without asking the status server; otherwise it goes
  on to hand the user, with the row's uid, to a chat server.
\<close>

theorem userLogin_decides:
  assumes "gate_json E = J" and "fst (jparse J (req_body con))" and "snd (jparse J (req_body con)) = root"
    and "field_str J root ''username'' = Some username" and "field_str J root ''password'' = Some password"
    and pool: "mysql_pool (gate_mysql s) = \<lparr>connections = conn # conns, is_stop = False\<rparr>"
    and query: "drv_query (gate_mysql_lib E) (sql_connection conn) ''SELECT * FROM user WHERE username = ?'' [PString username]
      (mysql_server (gate_mysql s)) = (Some res, db)"
    and rows: "\<And>row rows. res = row # rows \<Longrightarrow>
      getString row ''password'' = Some stored \<and> getString row ''email'' = Some email \<and> getInt row ''uid'' = Some uid"
    and s1: "s1 = s\<lparr>gate_mysql := queried conn conns db (gate_mysql s)\<rparr>"
    and con1: "con1 = set_field ''Content-Type'' ''text/json'' con"
  shows "userLoginCallback E (s, con) =
    (if res = [] then (Val (), (s1, append_body (toStyledString J (error_reply_msg UserNotExist no_user_text)) con1))
     else if stored \<noteq> password then (Val (), (s1, append_body (toStyledString J (error_reply_msg PasswdInvalid wrong_password_text)) con1))
     else hand_over E username uid (s1, con1))"
  using assms by (rule userLogin_run)

definition demo_row :: sql_row where
  "demo_row = \<lparr>getString = [''password'' \<mapsto> ''pw'', ''email'' \<mapsto> ''a@b''], getInt = [''uid'' \<mapsto> 7]\<rparr>"

theorem userLogin_decides_witness:
  "\<exists>t con'. userLoginCallback (demo_gate_env (JObj [(''username'', JStr ''ann''), (''password'', JStr ''guess'')]) [demo_row])
     (demo_gate Map.empty, demo_request ''/user_login'') = (Val (), (t, con')) \<and> gate_status t = gate_status (demo_gate Map.empty)"
proof -
  let ?root = "JObj [(''username'', JStr ''ann''), (''password'', JStr ''guess'')]"
  let ?E = "demo_gate_env ?root [demo_row]" and ?con = "demo_request ''/user_login''" and ?s = "demo_gate Map.empty"
  let ?s1 = "?s\<lparr>gate_mysql := queried \<lparr>sql_connection = 0, last_oper_time = 0\<rparr> [] () (gate_mysql ?s)\<rparr>"
  have "userLoginCallback ?E (?s, ?con) =
    (if [demo_row] = [] then (Val (), (?s1, append_body (toStyledString (gate_json ?E) (error_reply_msg UserNotExist no_user_text))
       (set_field ''Content-Type'' ''text/json'' ?con)))
     else if ''pw'' \<noteq> ''guess'' then (Val (), (?s1, append_body (toStyledString (gate_json ?E) (error_reply_msg PasswdInvalid wrong_password_text))
       (set_field ''Content-Type'' ''text/json'' ?con)))
     else hand_over ?E ''ann'' 7 (?s1, set_field ''Content-Type'' ''text/json'' ?con))"
    by (rule userLogin_decides [where root = ?root and email = "''a@b''"])
      (simp_all add: demo_gate_env_def demo_gate_def field_str_def ref_json_def table_driver_def demo_row_def)
  then show ?thesis by simp
qed

lemma userLogin_closed_pool:
  assumes "gate_json E = J" and "fst (jparse J (req_body con))" and "snd (jparse J (req_body con)) = root"
    and "field_str J root ''username'' = Some username" and "field_str J root ''password'' = Some password"
    and "is_stop (mysql_pool (gate_mysql s))"
  shows "userLoginCallback E (s, con) = hand_over E username 0 (s, set_field ''Content-Type'' ''text/json'' con)"
  using assms(1-5) checkUserLogin_closed [OF assms(6)]
  by (simp add: userLoginCallback_def with_json_body_def json_str_def from_option_def gate_mysql_out_def gate_mysql_op_def
      gate_manager_defs answer_def prog_defs new_GateUserInfo_def)

end
