(* ===== verification/ServerMain.thy ===== *)
theory ServerMain
  imports Logging ChatLogicFacts GateServer
begin

text \<open>
  The server processes: \<open>main\<close> of the chat, gate and status servers, the pool of io contexts
  (\<open>platform/AsioIOServicePool.cpp\<close>) and the accept loop of the gate server
  (\<open>GateServer/cserver.cpp\<close>). The \<open>main\<close> functions call the operations of the other theories in the
  order of the source; what a process finds on its machine (configuration file, shell, ports, network
  interface, the servers it talks to) is a record of parameters. Lines written to the log after its
  set-up and output on the terminal are left out.
\<close>

section \<open>AsioIOServicePool\<close>

text \<open>
  A pool of \<open>n\<close> contexts, each run by one thread: which contexts are stopped, the number of work
  guards, which threads can be joined, and the next context to hand out.
\<close>

record AsioIOServicePool =
  io_stopped :: "bool list"
  work_guards :: nat
  pool_threads :: "bool list"
  next_ioService :: nat

definition new_AsioIOServicePool :: "nat \<Rightarrow> AsioIOServicePool" where
  "new_AsioIOServicePool pool_size =
     \<lparr>io_stopped = replicate pool_size False, work_guards = pool_size, pool_threads = replicate pool_size True, next_ioService = 0\<rparr>"

definition pool_GetIOService :: "(AsioIOServicePool, nat) prog" where
  "pool_GetIOService p =
     (case GetIOService (length (io_stopped p)) (next_ioService p) of (r, next) \<Rightarrow> (r, p\<lparr>next_ioService := next\<rparr>))"

text \<open>\<open>std::thread::join\<close> throws a \<open>std::system_error\<close> on a thread that was joined before.\<close>

fun join_threads :: "nat list \<Rightarrow> (AsioIOServicePool, unit) prog" where
  "join_threads [] = ret ()"
| "join_threads (i # is) =
     bnd (gets (\<lambda>p. i < length (pool_threads p) \<and> pool_threads p ! i)) (\<lambda>joinable.
     if joinable then bnd (upd (\<lambda>p. p\<lparr>pool_threads := (pool_threads p)[i := False]\<rparr>)) (\<lambda>_. join_threads is)
     else raise (RuntimeError ''Invalid argument''))"

definition pool_stop :: "(AsioIOServicePool, unit) prog" where
  "pool_stop =
     bnd (upd (\<lambda>p. p\<lparr>io_stopped := map (\<lambda>_. True) (io_stopped p), work_guards := 0\<rparr>)) (\<lambda>_.
     bnd (gets (\<lambda>p. length (pool_threads p))) (\<lambda>n.
     join_threads [0..<n]))"

text \<open>The destructor calls \<open>stop\<close>; an exception that leaves it ends the process.\<close>

definition pool_destroy :: "(AsioIOServicePool, unit) prog" where
  "pool_destroy = no_throw pool_stop"

section \<open>The chat server\<close>

definition GetLocalIPs :: "string option \<Rightarrow> string list" where
  "GetLocalIPs local_endpoint = (case local_endpoint of Some address \<Rightarrow> [address] | None \<Rightarrow> [])"

record ('r, 'm, 's) chat_host =
  host_ini :: "(string \<times> (string \<times> string) list) list option"   \<comment> \<open>\<open>config.ini\<close>, if it can be read\<close>
  host_system :: "string \<Rightarrow> int"
  host_opens :: "string \<Rightarrow> bool"
  host_now :: tm
  host_ms :: int
  host_local_endpoint :: "string option"
  host_status :: "'s status_rpc"
  host_redis :: "'r redis_fun"
  host_mysql :: "'m mysql_driver"
  host_mysql_attempts :: "nat \<Rightarrow> (nat \<times> int) option"
  host_sql_file :: "string option"
  host_rpc_binds :: "string \<Rightarrow> bool"
  host_binds :: "16 word \<Rightarrow> bool"
  host_fresh :: "string \<times> int"

record ('r, 'm, 'g, 's) chat_process =
  cp_settings :: config_map
  cp_log :: Log
  cp_status :: "'s StatusGrpcClient"
  cp_server :: "('r, 'm, 'g) chat_server"
  cp_pool :: AsioIOServicePool
  cp_rpc :: "string option"            \<comment> \<open>the address the gRPC server listens on\<close>
  cp_acceptor :: "16 word option"      \<comment> \<open>the port of \<open>CServer\<close>\<close>
  cp_timer :: bool                     \<comment> \<open>the heartbeat timer is started\<close>

definition cp_settings_op :: "(config_map, 'a) prog \<Rightarrow> (('r, 'm, 'g, 's) chat_process, 'a) prog" where
  "cp_settings_op = zoom cp_settings (\<lambda>x p. p\<lparr>cp_settings := x\<rparr>)"

definition cp_status_op :: "('s StatusGrpcClient, 'a) prog \<Rightarrow> (('r, 'm, 'g, 's) chat_process, 'a) prog" where
  "cp_status_op = zoom cp_status (\<lambda>x p. p\<lparr>cp_status := x\<rparr>)"

definition cp_server_op :: "(('r, 'm, 'g) chat_server, 'a) prog \<Rightarrow> (('r, 'm, 'g, 's) chat_process, 'a) prog" where
  "cp_server_op = zoom cp_server (\<lambda>x p. p\<lparr>cp_server := x\<rparr>)"

definition cp_pool_op :: "(AsioIOServicePool, 'a) prog \<Rightarrow> (('r, 'm, 'g, 's) chat_process, 'a) prog" where
  "cp_pool_op = zoom cp_pool (\<lambda>x p. p\<lparr>cp_pool := x\<rparr>)"

text \<open>\<open>load\<close> throws when the file cannot be read.\<close>

definition read_settings :: "(string \<times> (string \<times> string) list) list option \<Rightarrow> (config_map, unit) prog" where
  "read_settings ini = (case ini of None \<Rightarrow> raise (RuntimeError ''config.ini'') | Some ptree \<Rightarrow> upd (load_settings ptree))"

definition chat_server_name :: "string \<Rightarrow> string" where
  "chat_server_name server_name_id = ''ChatServer'' @ server_name_id"

lemma chat_server_name_ne [simp]: "chat_server_name sid \<noteq> []"
  by (simp add: chat_server_name_def)

definition init_log :: "('r, 'm, 's) chat_host \<Rightarrow> string \<Rightarrow> (('r, 'm, 'g, 's) chat_process, bool) prog" where
  "init_log H program p =
     (case Log_Initialize (host_system H) (host_opens H) (host_now H) (host_ms H) program True ''./logs'' (cp_log p) of
        (ok, L) \<Rightarrow> (Val ok, p\<lparr>cp_log := L\<rparr>))"

text \<open>
  \<open>main\<close> up to the start of the gRPC thread; the result is the exit code of an early \<open>return\<close>, or the
  name and the port the process goes on with. \<open>BuildAndStart\<close> gives a null pointer when the port is
  taken, which the gRPC thread then follows.
\<close>

definition chat_prepare :: "('r, 'm, 's) chat_host \<Rightarrow> string \<Rightarrow> string list \<Rightarrow> (('r, 'm, 'g, 's) chat_process, int + string \<times> 16 word) prog" where
  "chat_prepare H program args =
     bnd (cp_settings_op (read_settings (host_ini H))) (\<lambda>_.
     bnd (init_log H program) (\<lambda>logging.
     if \<not> logging then ret (Inl (- 1))
     else case args of
       [server_name_id] \<Rightarrow>
         let server_name = chat_server_name server_name_id in
         bnd (gets (\<lambda>p. word_of_int (toInt 0 (settings_value (server_name @ ''/port'') [] (cp_settings p))))) (\<lambda>port.
         bnd (cp_settings_op (upd (setValue ''SelfServer/name'' server_name))) (\<lambda>_.
         bnd (cp_settings_op (upd (setValue ''SelfServer/host'' ''0.0.0.0''))) (\<lambda>_.
         bnd (cp_settings_op (upd (setValue ''SelfServer/port'' (to_string (uint port))))) (\<lambda>_.
         let localIPs = GetLocalIPs (host_local_endpoint H);
             localIP = (if localIPs \<noteq> [] then hd localIPs else []) in
         bnd (cp_status_op (StatusGrpcClient_RegisterChatServer (host_status H) server_name localIP (to_string (uint port)))) (\<lambda>message_res.
         if message_res \<noteq> RpcSuccess then ret (Inl (- 3))
         else
           bnd (cp_server_op (mysql_op (MySQLManager_init (host_mysql H) (host_mysql_attempts H) (host_sql_file H)))) (\<lambda>ok.
           if \<not> ok then ret (Inl (- 4))
           else
             bnd (cp_server_op (redis_op (hset (host_redis H) LOGIN_COUNT server_name ''0''))) (\<lambda>_.
             ret (Inr (server_name, port)))))))))
     | _ \<Rightarrow> ret (Inl (- 2))))"

definition chat_start_rpc :: "('r, 'm, 's) chat_host \<Rightarrow> string \<Rightarrow> (('r, 'm, 'g, 's) chat_process, unit) prog" where
  "chat_start_rpc H server_name =
     bnd (gets (\<lambda>p. ''0.0.0.0:'' @ to_string (toInt 0 (settings_value (server_name @ ''/rpc_port'') [] (cp_settings p))))) (\<lambda>server_address.
     if host_rpc_binds H server_address then upd (\<lambda>p. p\<lparr>cp_rpc := Some server_address\<rparr>) else crash)"

text \<open>\<open>CServer::CServer\<close>; the acceptor throws when the port is taken.\<close>

definition new_CServer :: "('r, 'm, 's) chat_host \<Rightarrow> 16 word \<Rightarrow> (('r, 'm, 'g, 's) chat_process, unit) prog" where
  "new_CServer H port =
     (if \<not> host_binds H port then raise (RuntimeError ''bind: Address already in use'')
      else
        bnd (cp_pool_op pool_GetIOService) (\<lambda>_.
        upd (\<lambda>p. p\<lparr>cp_acceptor := Some port, cp_server := startAccept (host_fresh H) (cp_server p), cp_timer := True\<rparr>)))"

text \<open>
  The rest of \<open>main\<close>. \<open>serve\<close> stands for the events of \<open>context.run()\<close>, up to the handler of the signal,
  which ends the loop. The thread object of the gRPC server is neither joined nor detached, so its
  destructor calls \<open>std::terminate\<close> when the block is left, by its end or by an exception.
\<close>

definition on_signal :: "(('r, 'm, 'g, 's) chat_process, unit) prog" where
  "on_signal = bnd (cp_pool_op pool_stop) (\<lambda>_. upd (\<lambda>p. p\<lparr>cp_rpc := None\<rparr>))"

definition chat_serve ::
    "('r, 'm, 's) chat_host \<Rightarrow> (('r, 'm, 'g, 's) chat_process, unit) prog \<Rightarrow> string \<Rightarrow> 16 word \<Rightarrow> (('r, 'm, 'g, 's) chat_process, unit) prog" where
  "chat_serve H serve server_name port =
     bnd (new_CServer H port) (\<lambda>_.
     bnd serve (\<lambda>_.
     bnd on_signal (\<lambda>_.
     bnd (cp_server_op (redis_op (hdel (host_redis H) LOGIN_COUNT server_name))) (\<lambda>_.
     cp_server_op (redis_op (upd redis_manager_close))))))"

definition joinable_thread :: "('s, unit) prog \<Rightarrow> ('s, 'a) prog" where
  "joinable_thread body = bnd (no_throw body) (\<lambda>_. crash)"

definition chat_main ::
    "('r, 'm, 's) chat_host \<Rightarrow> (('r, 'm, 'g, 's) chat_process, unit) prog \<Rightarrow> string \<Rightarrow> string list \<Rightarrow> (('r, 'm, 'g, 's) chat_process, int) prog" where
  "chat_main H serve program args =
     catching
       (bnd (chat_prepare H program args) (\<lambda>r.
        case r of
          Inl code \<Rightarrow> ret code
        | Inr (server_name, port) \<Rightarrow>
            bnd (chat_start_rpc H server_name) (\<lambda>_. joinable_thread (chat_serve H serve server_name port))))
       (\<lambda>_. ret 0)"

section \<open>The gate server\<close>

record ('r, 'm, 'g, 'v) gate_process =
  gp_settings :: config_map
  gp_log :: Log
  gp_server :: "('r, 'm, 'g, 'v) gate_server"
  gp_pool :: AsioIOServicePool
  gp_acceptor :: "16 word option"
  gp_accept :: "nat option"            \<comment> \<open>the context of the connection that waits to be accepted\<close>
  gp_connections :: "nat list"         \<comment> \<open>the contexts of the started connections\<close>

definition gp_pool_op :: "(AsioIOServicePool, 'a) prog \<Rightarrow> (('r, 'm, 'g, 'v) gate_process, 'a) prog" where
  "gp_pool_op = zoom gp_pool (\<lambda>x p. p\<lparr>gp_pool := x\<rparr>)"

text \<open>\<open>CServer::start\<close>, and the completion of its \<open>async_accept\<close>.\<close>

definition gate_start :: "(('r, 'm, 'g, 'v) gate_process, unit) prog" where
  "gate_start = bnd (gp_pool_op pool_GetIOService) (\<lambda>io_context. upd (\<lambda>p. p\<lparr>gp_accept := Some io_context\<rparr>))"

definition gate_accepted :: "bool \<Rightarrow> (('r, 'm, 'g, 'v) gate_process, unit) prog" where
  "gate_accepted err_code =
     bnd (gets gp_accept) (\<lambda>new_con.
     case new_con of
       None \<Rightarrow> crash
     | Some io_context \<Rightarrow>
         catching
           (if err_code then gate_start
            else bnd (upd (\<lambda>p. p\<lparr>gp_connections := gp_connections p @ [io_context]\<rparr>)) (\<lambda>_. gate_start))
           (\<lambda>_. ret ()))"

record 'm gate_host =
  gh_ini :: "(string \<times> (string \<times> string) list) list option"
  gh_system :: "string \<Rightarrow> int"
  gh_opens :: "string \<Rightarrow> bool"
  gh_now :: tm
  gh_ms :: int
  gh_mysql :: "'m mysql_driver"
  gh_mysql_attempts :: "nat \<Rightarrow> (nat \<times> int) option"
  gh_user_sql :: "string option"
  gh_procedure_sql :: "string option"
  gh_binds :: "16 word \<Rightarrow> bool"

text \<open>\<open>main\<close>; \<open>serve\<close> stands for the events of \<open>ioc.run()\<close> until the signal handler stops the context.\<close>

definition gate_main ::
    "'m gate_host \<Rightarrow> (('r, 'm, 'g, 'v) gate_process, unit) prog \<Rightarrow> string \<Rightarrow> (('r, 'm, 'g, 'v) gate_process, int) prog" where
  "gate_main H serve program =
     catching
       (bnd (zoom gp_settings (\<lambda>x p. p\<lparr>gp_settings := x\<rparr>) (read_settings (gh_ini H))) (\<lambda>_.
        bnd (\<lambda>p. case Log_Initialize (gh_system H) (gh_opens H) (gh_now H) (gh_ms H) program True ''./logs'' (gp_log p) of
               (ok, L) \<Rightarrow> (Val ok, p\<lparr>gp_log := L\<rparr>)) (\<lambda>logging.
        if \<not> logging then ret (- 1)
        else
          bnd (zoom gp_server (\<lambda>x p. p\<lparr>gp_server := x\<rparr>)
                (gate_mysql_op (gate_init (gh_mysql H) (gh_mysql_attempts H) (gh_user_sql H) (gh_procedure_sql H)))) (\<lambda>ok.
          if \<not> ok then ret (- 2)
          else
            bnd (gets (\<lambda>p. word_of_int (toInt 0 (settings_value ''GateServer/port'' ''8080'' (gp_settings p))))) (\<lambda>port.
            bnd (if gh_binds H port then upd (\<lambda>p. p\<lparr>gp_acceptor := Some port\<rparr>) else raise (RuntimeError ''bind'')) (\<lambda>_.
            bnd gate_start (\<lambda>_.
            bnd serve (\<lambda>_.
            ret 0))))))))
       (\<lambda>_. ret 0)"

section \<open>The status server\<close>

record status_process =
  sp_settings :: config_map
  sp_log :: Log
  sp_rpc :: "string option"

record status_host =
  sh_ini :: "(string \<times> (string \<times> string) list) list option"
  sh_system :: "string \<Rightarrow> int"
  sh_opens :: "string \<Rightarrow> bool"
  sh_now :: tm
  sh_ms :: int
  sh_rpc_binds :: "string \<Rightarrow> bool"

text \<open>
  \<open>RunServer\<close>; \<open>serve\<close> stands for the calls handled until the signal handler shuts the server down.
  \<open>BuildAndStart\<close> gives a null pointer when the address cannot be bound. The configuration is read
  outside of the \<open>try\<close> block of \<open>main\<close>.
\<close>

definition RunServer :: "status_host \<Rightarrow> (status_process, unit) prog \<Rightarrow> string \<Rightarrow> string \<Rightarrow> (status_process, unit) prog" where
  "RunServer H serve host port =
     (let server_address = host @ '':'' @ port in
      if \<not> sh_rpc_binds H server_address then crash
      else
        bnd (upd (\<lambda>p. p\<lparr>sp_rpc := Some server_address\<rparr>)) (\<lambda>_.
        bnd serve (\<lambda>_.
        upd (\<lambda>p. p\<lparr>sp_rpc := None\<rparr>))))"

definition status_main :: "status_host \<Rightarrow> (status_process, unit) prog \<Rightarrow> string \<Rightarrow> (status_process, int) prog" where
  "status_main H serve program =
     bnd (no_throw (zoom sp_settings (\<lambda>x p. p\<lparr>sp_settings := x\<rparr>) (read_settings (sh_ini H)))) (\<lambda>_.
     bnd (\<lambda>p. case Log_Initialize (sh_system H) (sh_opens H) (sh_now H) (sh_ms H) program True ''./logs'' (sp_log p) of
            (ok, L) \<Rightarrow> (Val ok, p\<lparr>sp_log := L\<rparr>)) (\<lambda>logging.
     if \<not> logging then ret 1
     else
       catching
         (bnd (gets sp_settings) (\<lambda>settings.
          bnd (RunServer H serve (settings_value ''StatusServer/host'' [] settings) (settings_value ''StatusServer/port'' [] settings)) (\<lambda>_.
          ret 0)))
         (\<lambda>_. ret 1)))"

section \<open>Stopping the pool\<close>

lemma join_threads_rest:
  "i \<le> n \<Longrightarrow> pool_threads p = replicate i False @ replicate (n - i) True \<Longrightarrow>
   join_threads [i..<n] p = (Val (), p\<lparr>pool_threads := replicate n False\<rparr>)"
proof (induction "n - i" arbitrary: i p)
  case 0
  then show ?case by (simp add: ret_def)
next
  case (Suc k)
  then have i: "i < n" by simp
  let ?p = "p\<lparr>pool_threads := (pool_threads p)[i := False]\<rparr>"
  have r: "replicate (n - i) True = True # replicate (n - Suc i) True" using i by (metis Suc_diff_Suc replicate_Suc)
  have t: "(pool_threads p)[i := False] = replicate (Suc i) False @ replicate (n - Suc i) True"
    using Suc.prems(2) r by (simp add: list_update_append replicate_append_same)
  have "pool_threads p ! i" "i < length (pool_threads p)" using Suc.prems(2) r i by (simp_all add: nth_append)
  then have "join_threads [i..<n] p = join_threads [Suc i..<n] ?p"
    using i by (simp add: upt_conv_Cons bnd_def gets_def upd_def)
  moreover have "join_threads [Suc i..<n] ?p = (Val (), ?p\<lparr>pool_threads := replicate n False\<rparr>)"
    using Suc.hyps(1) [of "Suc i" ?p] Suc.hyps(2) i t by simp
  ultimately show ?case by simp
qed

definition pool_running :: "nat \<Rightarrow> AsioIOServicePool \<Rightarrow> bool" where
  "pool_running n p \<longleftrightarrow> io_stopped p = replicate n False \<and> work_guards p = n \<and> pool_threads p = replicate n True \<and> next_ioService p < n"

definition pool_stopped :: "nat \<Rightarrow> AsioIOServicePool \<Rightarrow> bool" where
  "pool_stopped n p \<longleftrightarrow> io_stopped p = replicate n True \<and> work_guards p = 0 \<and> pool_threads p = replicate n False"

lemma new_pool_running: "0 < n \<Longrightarrow> pool_running n (new_AsioIOServicePool n)"
  by (simp add: pool_running_def new_AsioIOServicePool_def)

lemma pool_GetIOService_running:
  assumes "pool_running n p"
  shows "\<exists>q. pool_GetIOService p = (Val (next_ioService p), q) \<and> pool_running n q \<and> next_ioService q = (next_ioService p + 1) mod n"
  using assms by (auto simp: pool_GetIOService_def GetIOService_def pool_running_def)

lemma pool_stop_running:
  assumes "pool_running n p"
  shows "\<exists>q. pool_stop p = (Val (), q) \<and> pool_stopped n q"
proof -
  let ?p = "p\<lparr>io_stopped := replicate n True, work_guards := 0\<rparr>"
  have "pool_stop p = join_threads [0..<n] ?p"
    using assms by (simp add: pool_stop_def bnd_def upd_def gets_def pool_running_def map_replicate_const)
  then show ?thesis using assms join_threads_rest [of 0 n ?p] by (auto simp: pool_running_def pool_stopped_def)
qed

lemma pool_stop_again: "pool_stopped n p \<Longrightarrow> 0 < n \<Longrightarrow> fst (pool_stop p) = Exn (RuntimeError ''Invalid argument'')"
  by (cases n) (auto simp: pool_stop_def pool_stopped_def bnd_def upd_def gets_def raise_def upt_conv_Cons simp del: upt_Suc)

text \<open>
  The contexts of a running pool are handed out in turn, and \<open>stop\<close> ends and joins all of them. The
  destructor stops the pool once more: joining the threads a second time throws inside the
  destructor, so a process that has stopped its pool cannot be left in an orderly way.
\<close>

theorem pool_stop_then_destroy:
  assumes "pool_running n p"
  shows "\<exists>q. pool_stop p = (Val (), q) \<and> pool_stopped n q \<and> fst (pool_destroy q) = Crash"
proof -
  obtain q where q: "pool_stop p = (Val (), q)" "pool_stopped n q" using pool_stop_running [OF assms] by blast
  have "0 < n" using assms by (auto simp: pool_running_def)
  then have "fst (pool_destroy q) = Crash"
    using pool_stop_again [OF q(2)] by (cases "pool_stop q") (auto simp: pool_destroy_def no_throw_def catching_def crash_def)
  then show ?thesis using q by blast
qed

section \<open>How the chat server ends\<close>

lemma keeps_rpc_zoom [intro]: "keeps (\<lambda>p. cp_rpc p = a \<and> cp_acceptor p = b) (cp_settings_op f)"
  "keeps (\<lambda>p. cp_rpc p = a \<and> cp_acceptor p = b) (cp_status_op g)" "keeps (\<lambda>p. cp_rpc p = a \<and> cp_acceptor p = b) (cp_server_op h)"
  "keeps (\<lambda>p. cp_rpc p = a \<and> cp_acceptor p = b) (init_log H program)"
  by (auto simp: keeps_def cp_settings_op_def cp_status_op_def cp_server_op_def zoom_def init_log_def split: prod.splits)

lemma keeps_rpc_prepare: "keeps (\<lambda>p. cp_rpc p = a \<and> cp_acceptor p = b) (chat_prepare H program args)"
  unfolding chat_prepare_def Let_def
  by (intro keeps_bnd keeps_rpc_zoom) (auto split: list.splits intro!: keeps_bnd keeps_rpc_zoom)

text \<open>The exit codes of the early returns.\<close>

lemma ret_Val [simp]: "ret x s = (Val y, t) \<longleftrightarrow> y = x \<and> t = s" "crash s \<noteq> (Val y, t)" "crash s \<noteq> (Exn e, t)"
  by (auto simp: ret_def crash_def)

lemma chat_prepare_code: "chat_prepare H program args p = (Val (Inl code), q) \<Longrightarrow> code \<in> {- 1, - 2, - 3, - 4}"
  by (auto simp: chat_prepare_def Let_def dest!: bnd_ValD split: if_splits list.splits)

lemma joinable_thread_crashes [simp]: "joinable_thread body s \<noteq> (Val x, t)" "joinable_thread body s \<noteq> (Exn e, t)"
  by (auto simp: joinable_thread_def prog_defs split: prod.splits result.splits)

text \<open>
  A chat server that has started its gRPC service never returns from \<open>main\<close>: whatever happens while it
  serves, it ends by \<open>std::terminate\<close> (or goes on waiting), because the object of the gRPC thread is
  destroyed without being joined. Exit codes come only from the time before: 0 when an exception
  was caught there, and -1 to -4 for the log, the arguments, the registration and the database.
\<close>

theorem chat_main_returns_only_before_service:
  assumes "chat_main H serve program args p = (Val code, q)"
  shows "code \<in> {0, - 1, - 2, - 3, - 4} \<and> cp_rpc q = cp_rpc p \<and> cp_acceptor q = cp_acceptor p"
proof -
  obtain r u where u: "chat_prepare H program args p = (r, u)" by fastforce
  have k: "cp_rpc u = cp_rpc p \<and> cp_acceptor u = cp_acceptor p"
    using keepsD [OF keeps_rpc_prepare _ u, of "cp_rpc p" "cp_acceptor p"] by simp
  show ?thesis
  proof (cases r)
    case (Val x)
    show ?thesis
    proof (cases x)
      case (Inl c)
      then show ?thesis
        using assms u Val k chat_prepare_code [of H program args p c u] by (auto simp: chat_main_def catching_def bnd_def ret_def)
    next
      case (Inr y)
      obtain server_name port where y: "y = (server_name, port)" by (cases y)
      have "bnd (chat_start_rpc H server_name) (\<lambda>_. joinable_thread (chat_serve H serve server_name port)) u \<noteq> (Val c, t)"
        "bnd (chat_start_rpc H server_name) (\<lambda>_. joinable_thread (chat_serve H serve server_name port)) u \<noteq> (Exn e, t)" for c :: int and e t
        by (auto simp: chat_start_rpc_def bnd_def gets_def upd_def crash_def split: if_splits)
      then show ?thesis
        using assms u Val Inr y by (auto simp: chat_main_def catching_def bnd_def [of "chat_prepare H program args"] split: prod.splits result.splits)
    qed
  qed (use assms u k in \<open>auto simp: chat_main_def catching_def bnd_def ret_def\<close>)
qed

section \<open>How the chat server starts\<close>

lemma register_direct:
  assumes "client_up c" "name \<noteq> []" "port \<noteq> []"
  obtains c' where "StatusGrpcClient_RegisterChatServer (direct_rpc redis peer now unique) name host port c = (Val RpcSuccess, c')"
    "client_up c'" "status_peer c' = put_server name \<lparr>cs_host = (if host = [] then peer else host), cs_port = port, cs_name = name,
        conn_count = 0, last_heartbeat = now\<rparr> (status_peer c)"
proof -
  let ?call = "\<lambda>stub. rpc_RegisterChatServer (direct_rpc redis peer now unique) stub name host port"
  obtain stub c' where c': "with_status_stub ?call c = (Val (fst (?call stub (status_peer c))), c')"
      "status_peer c' = snd (?call stub (status_peer c))" "client_up c'"
    by (rule with_status_stub_up [OF assms(1), where call = ?call])
  show thesis
    by (rule that [OF _ c'(3)]) (use c' assms in \<open>simp_all add: StatusGrpcClient_RegisterChatServer_def direct_rpc_def answered_def
      RegisterChatServer_def prog_defs\<close>)
qed

lemma getRawValue_setValue [simp]:
  "split_at (CHR ''/'') k = Some x \<Longrightarrow> getRawValue k (setValue k v config) = v"
  "split_at (CHR ''/'') k = Some x \<Longrightarrow> split_at (CHR ''/'') k' = Some y \<Longrightarrow> x \<noteq> y \<Longrightarrow> getRawValue k (setValue k' v config) = getRawValue k config"
  by (auto simp: getRawValue_def setValue_def split: prod.splits option.splits)

definition started_entry :: "('r, 'm, 's) chat_host \<Rightarrow> string \<Rightarrow> int \<Rightarrow> string \<Rightarrow> 16 word \<Rightarrow> ChatServerEntry" where
  "started_entry H peer now server_name port =
     \<lparr>cs_host = (let localIPs = GetLocalIPs (host_local_endpoint H); localIP = (if localIPs \<noteq> [] then hd localIPs else []) in
        if localIP = [] then peer else localIP),
      cs_port = to_string (uint port), cs_name = server_name, conn_count = 0, last_heartbeat = now\<rparr>"

definition configured_port :: "('r, 'm, 's) chat_host \<Rightarrow> string \<Rightarrow> config_map \<Rightarrow> 16 word" where
  "configured_port H server_name config =
     (case host_ini H of Some ptree \<Rightarrow> word_of_int (toInt 0 (settings_value (server_name @ ''/port'') [] (load_settings ptree config))) | None \<Rightarrow> 0)"

lemma chat_prepare_runs:
  assumes H: "host_ini H = Some ptree" "host_system H ''mkdir -p ./logs'' = 0" "host_status H = direct_rpc redis peer now unique"
    and c: "client_up (cp_status p)"
    and D: "MySQLManager_init (host_mysql H) (host_mysql_attempts H) (host_sql_file H) (mysql_mgr (cp_server p)) = (Val ok, m)"
    and R: "does view (hset (host_redis H) LOGIN_COUNT (chat_server_name sid) ''0'') (redis_mgr (cp_server p)) (Val x) ks"
  obtains q where "chat_prepare H program [sid] p =
      (Val (if ok then Inr (chat_server_name sid, configured_port H (chat_server_name sid) (cp_settings p)) else Inl (- 4)), q)"
    "status_peer (cp_status q) = put_server (chat_server_name sid)
      (started_entry H peer now (chat_server_name sid) (configured_port H (chat_server_name sid) (cp_settings p))) (status_peer (cp_status p))"
    "client_up (cp_status q)"
    "ok \<Longrightarrow> redis_up (redis_mgr (cp_server q)) \<and> view (redis_server (redis_mgr (cp_server q))) = ks"
    "settings_value ''SelfServer/name'' [] (cp_settings q) = chat_server_name sid"
proof -
  let ?name = "chat_server_name sid"
  let ?port = "configured_port H ?name (cp_settings p)"
  let ?ip = "if GetLocalIPs (host_local_endpoint H) \<noteq> [] then hd (GetLocalIPs (host_local_endpoint H)) else []"
  obtain r where r: "hset (host_redis H) LOGIN_COUNT ?name ''0'' (redis_mgr (cp_server p)) = (Val x, r)" "redis_up r" "view (redis_server r) = ks"
    using R by (auto simp: does_def)
  obtain L where L: "Log_Initialize (host_system H) (host_opens H) (host_now H) (host_ms H) program True ''./logs'' (cp_log p) = (True, L)"
    using Log_Initialize_result [of "host_system H" "host_opens H" "host_now H" "host_ms H" program True "''./logs''" "cp_log p"] H(2)
    by (cases "Log_Initialize (host_system H) (host_opens H) (host_now H) (host_ms H) program True ''./logs'' (cp_log p)") auto
  obtain st where st: "StatusGrpcClient_RegisterChatServer (host_status H) ?name ?ip (to_string (uint ?port)) (cp_status p) = (Val RpcSuccess, st)"
      "client_up st" "status_peer st = put_server ?name (started_entry H peer now ?name ?port) (status_peer (cp_status p))"
    using register_direct [OF c, of ?name "to_string (uint ?port)" redis peer now unique ?ip] H(3)
    by (auto simp: started_entry_def Let_def)
  define config where "config = setValue ''SelfServer/port'' (to_string (uint ?port)) (setValue ''SelfServer/host'' ''0.0.0.0''
    (setValue ''SelfServer/name'' ?name (load_settings ptree (cp_settings p))))"
  define q where "q = p\<lparr>cp_settings := config, cp_log := L, cp_status := st,
    cp_server := (cp_server p)\<lparr>mysql_mgr := m, redis_mgr := (if ok then r else redis_mgr (cp_server p))\<rparr>\<rparr>"
  have port: "word_of_int (toInt 0 (settings_value (?name @ ''/port'') [] (load_settings ptree (cp_settings p)))) = ?port"
    using H(1) by (simp add: configured_port_def)
  have "chat_prepare H program [sid] p = (Val (if ok then Inr (?name, ?port) else Inl (- 4)), q)"
    using H(1) L st(1) D r(1) port
    by (cases ok) (simp_all add: chat_prepare_def Let_def bnd_def cp_settings_op_def zoom_def read_settings_def init_log_def upd_def gets_def ret_def
      cp_status_op_def cp_server_op_def mysql_op_def redis_op_def q_def config_def)
  moreover have "settings_value ''SelfServer/name'' [] config = ?name"
    by (simp add: config_def settings_value_def)
  moreover have "cp_settings q = config" "cp_status q = st" "redis_mgr (cp_server q) = (if ok then r else redis_mgr (cp_server p))"
    by (simp_all add: q_def)
  ultimately show thesis using st(2,3) r(2,3) by (intro that [of q]) simp_all
qed

section \<open>A new chat server gets logins\<close>

lemma uint_port_bounds: "0 \<le> uint (port :: 16 word) \<and> uint port \<le> 65535"
  using unsigned_less [of port, where ?'a = int] by simp

lemma atoi_port: "atoi (c_str (to_string (uint (port :: 16 word)))) = Val (uint port)"
proof -
  have "INT_MIN \<le> uint port" "uint port \<le> INT_MAX"
    using uint_port_bounds [of port] unfolding INT_MIN_def INT_MAX_def by linarith+
  then show ?thesis by (simp add: atoi_def)
qed

definition zero_login_count :: "string \<Rightarrow> keyspace \<Rightarrow> keyspace" where
  "zero_login_count name ks = ks(LOGIN_COUNT \<mapsto> VHash (AList.update name ''0'' (hash_of ks LOGIN_COUNT)))"

lemma server_load_zero: "server_load (zero_login_count name ks) other = (if other = name then 0 else server_load ks other)"
proof -
  have "stoi ''0'' = Inr 0" using stoi_to_string [of 0] by (simp add: INT_MIN_def INT_MAX_def)
  then show ?thesis by (simp add: server_load_def zero_login_count_def hash_of_def update_conv')
qed

lemma counters_ok_zero: "counters_ok ks \<Longrightarrow> counters_ok (zero_login_count name ks)"
proof -
  assume "counters_ok ks"
  moreover have "no_nul ''0''" "stoi ''0'' = Inr 0"
    using stoi_to_string [of 0] no_nul_to_string [of 0] by (simp_all add: INT_MIN_def INT_MAX_def)
  ultimately show ?thesis
    by (auto simp: counters_ok_def zero_login_count_def is_hash_def hash_of_def update_conv' split: if_splits)
qed

lemma ports_ok_put: "ports_ok s \<Longrightarrow> atoi (c_str (cs_port e)) = Val p \<Longrightarrow> ports_ok (put_server name e s)"
  by (auto simp: ports_ok_def server_table.find_put)

text \<open>
  C13. A chat server that starts up gets the next logins: when its configuration, log directory,
  database and Redis are in order and the status server answers, \<open>main\<close> gets past its checks with the
  server in the status server's table and its login counter at 0; and from then on, as long as every
  other registered server counts at least one login, the status server answers \<open>GetChatServer\<close> with the
  address of the new one and the port that the entry \<open>port\<close> of its section in the configuration file
  gives, as a 16-bit number.
\<close>

theorem started_server_gets_logins:
  assumes H: "host_ini H = Some ptree" "host_system H ''mkdir -p ./logs'' = 0" "host_status H = direct_rpc (host_redis H) peer now unique"
    and c: "client_up (cp_status p)"
    and D: "MySQLManager_init (host_mysql H) (host_mysql_attempts H) (host_sql_file H) (mysql_mgr (cp_server p)) = (Val True, m)"
    and R: "redis_documented (host_redis H) view" "redis_up (redis_mgr (cp_server p))" "view (redis_server (redis_mgr (cp_server p))) = ks"
    and ks: "counters_ok ks" "no_nul sid" "no_nul token"
    and S: "servers_wf (status_peer (cp_status p))" "ports_ok (status_peer (cp_status p))"
    and others: "\<forall>other \<in> fst ` set (servers (status_peer (cp_status p))). other \<noteq> chat_server_name sid \<longrightarrow> 0 < server_load ks other"
    and port: "port = (word_of_int (toInt 0 (settings_value (chat_server_name sid @ ''/port'') [] (load_settings ptree (cp_settings p)))) :: 16 word)"
  shows "\<exists>q. chat_prepare H program [sid] p = (Val (Inr (chat_server_name sid, port)), q) \<and>
    (\<forall>status. servers status = servers (status_peer (cp_status q)) \<longrightarrow> redis_up (status_redis status) \<longrightarrow>
      view (redis_server (status_redis status)) = view (redis_server (redis_mgr (cp_server q))) \<longrightarrow>
      (\<exists>t. GetChatServer (host_redis H) token uid status =
        (Val \<lparr>gcs_error = 0, gcs_host = cs_host (started_entry H peer now (chat_server_name sid) port), gcs_port = uint port, gcs_token = token\<rparr>, t)))"
proof -
  let ?name = "chat_server_name sid"
  let ?port = "configured_port H ?name (cp_settings p)"
  have port': "port = ?port" using port H(1) by (simp add: configured_port_def)
  let ?e = "started_entry H peer now ?name ?port"
  let ?ks = "zero_login_count ?name ks"
  have nul: "no_nul LOGIN_COUNT" "no_nul ?name" "no_nul ''0''"
    using ks(2) no_nul_to_string [of 0] by (simp_all add: LOGIN_COUNT_def chat_server_name_def no_nul_def)
  have "does view (hset (host_redis H) LOGIN_COUNT ?name ''0'') (redis_mgr (cp_server p)) (Val True) ?ks"
    using does_hset [OF R(1,2) nul] R(3) ks(1) by (simp add: zero_login_count_def counters_ok_def)
  from chat_prepare_runs [OF H c D this, where program = program]
  obtain q where q: "chat_prepare H program [sid] p = (Val (Inr (?name, ?port)), q)"
      "status_peer (cp_status q) = put_server ?name ?e (status_peer (cp_status p))"
      "view (redis_server (redis_mgr (cp_server q))) = ?ks" by auto
  have "\<exists>t. GetChatServer (host_redis H) token uid s =
      (Val \<lparr>gcs_error = 0, gcs_host = cs_host ?e, gcs_port = uint ?port, gcs_token = token\<rparr>, t)"
    if s: "servers s = servers (status_peer (cp_status q))" "redis_up (status_redis s)" "view (redis_server (status_redis s)) = ?ks" for s
  proof -
    have f: "find_server s k = find_server (put_server ?name ?e (status_peer (cp_status p))) k" for k
      using s(1) q(2) by (simp add: find_server_def)
    have wf: "servers_wf (put_server ?name ?e (status_peer (cp_status p)))"
      using S(1) by (intro servers_wf_put) (simp_all add: started_entry_def)
    then have wf': "servers_wf s" using s(1) q(2) by (simp add: servers_wf_def distinct_servers_def)
    have "ports_ok (put_server ?name ?e (status_peer (cp_status p)))"
      using ports_ok_put [OF S(2), of ?e] atoi_port [of ?port] by (simp add: started_entry_def)
    then have po: "ports_ok s" using f by (simp add: ports_ok_def)
    have here: "find_server s ?name = Some ?e" using f by (simp add: server_table.find_put)
    have keys: "?name \<in> fst ` set (servers s)" using here by (force simp: find_server_def dest: map_of_SomeD)
    obtain t name server port where t: "GetChatServer (host_redis H) token uid s =
         (Val \<lparr>gcs_error = 0, gcs_host = cs_host server, gcs_port = port, gcs_token = token\<rparr>, t)"
       "find_server s name = Some server" "atoi (c_str (cs_port server)) = Val port"
       "\<forall>other \<in> fst ` set (servers s). server_load ?ks name \<le> server_load ?ks other"
      using GetChatServer_effect [OF R(1) s(2,3) counters_ok_zero [OF ks(1)] wf' _ po ks(3), where uid = uid] keys by fastforce
    have "name = ?name"
    proof (rule ccontr)
      assume ne: "name \<noteq> ?name"
      then have "find_server (status_peer (cp_status p)) name = Some server" using t(2) f by (simp add: server_table.find_put)
      then have "0 < server_load ks name" using others ne by (force simp: find_server_def dest: map_of_SomeD)
      then show False using t(4) keys ne server_load_zero [of ?name ks] by fastforce
    qed
    then have "server = ?e" using t(2) here by simp
    then show ?thesis using t(1,3) atoi_port [of ?port] by (auto simp: started_entry_def)
  qed
  then show ?thesis using q(1,3) unfolding port' by (intro exI [of _ q]) simp
qed

lemma table_driver_init:
  assumes "script \<noteq> []"
  shows "\<exists>m. MySQLManager_init (table_driver rows) (\<lambda>i. Some (i, 0)) (Some script) d = (Val True, m)"
proof -
  have f: "forM (statement (table_driver rows) c) xs m = (Val (), m)" for c xs and m :: "'a MySQLDao"
    by (induction xs) (simp_all add: statement_def lift_ok_def table_driver_def bnd_def ret_def)
  then show ?thesis
    using assms by (simp add: MySQLManager_init_def dao_init_def or_fail_def dao_getConnection_def mysql_getConnection_def MySQLConnectPool_def prog_defs upt_rec f)
qed

definition demo_host :: "(keyspace, unit, keyspace StatusServiceImpl) chat_host" where
  "demo_host = \<lparr>host_ini = Some [(''ChatServer1'', [(''port'', ''8090''), (''rpc_port'', ''50055'')])], host_system = (\<lambda>_. 0), host_opens = (\<lambda>_. True),
     host_now = \<lparr>tm_year = 125, tm_mon = 1, tm_mday = 12, tm_hour = 9, tm_min = 30, tm_sec = 0\<rparr>, host_ms = 7,
     host_local_endpoint = Some ''192.168.0.7'', host_status = direct_rpc ref_redis ''ipv4:192.168.0.7:40000'' 130 [],
     host_redis = ref_redis, host_mysql = table_driver (\<lambda>_ _. []), host_mysql_attempts = (\<lambda>i. Some (i, 0)),
     host_sql_file = Some ''SELECT 1;'', host_rpc_binds = (\<lambda>_. True), host_binds = (\<lambda>_. True), host_fresh = (''s0'', 0)\<rparr>"

definition demo_log :: Log where
  "demo_log = \<lparr>log_initialized = False, custom_sink = None, FLAGS_log_dir = [], FLAGS_logtostderr = False, FLAGS_max_log_size = 0,
     FLAGS_logbufsecs = 0, FLAGS_stop_logging_if_full_disk = False, log_destination = Map.empty, log_out = \<lparr>log_files = (\<lambda>_. []), terminal = []\<rparr>\<rparr>"

definition demo_process :: "keyspace \<Rightarrow> (keyspace, unit, unit, keyspace StatusServiceImpl) chat_process" where
  "demo_process ks = \<lparr>cp_settings = Map.empty, cp_log = demo_log,
     cp_status = \<lparr>status_stubs = \<lparr>connections = [0], is_stop = False\<rparr>, status_peer = demo_status ks\<rparr>,
     cp_server = demo_server ks, cp_pool = new_AsioIOServicePool 4, cp_rpc = None, cp_acceptor = None, cp_timer = False\<rparr>"

theorem started_server_gets_logins_witness:
  "\<exists>q. chat_prepare demo_host ''./ChatServer'' [''1''] (demo_process [LOGIN_COUNT \<mapsto> VHash [(''c1'', ''3''), (''c2'', ''2'')]]) =
      (Val (Inr (''ChatServer1'', 8090)), q) \<and>
    (\<forall>status. servers status = servers (status_peer (cp_status q)) \<longrightarrow> redis_up (status_redis status) \<longrightarrow>
      redis_server (status_redis status) = redis_server (redis_mgr (cp_server q)) \<longrightarrow>
      (\<exists>t. GetChatServer ref_redis ''tok'' 7 status =
        (Val \<lparr>gcs_error = 0, gcs_host = ''192.168.0.7'', gcs_port = 8090, gcs_token = ''tok''\<rparr>, t)))"
proof -
  let ?ks = "[LOGIN_COUNT \<mapsto> VHash [(''c1'', ''3''), (''c2'', ''2'')]]"
  let ?p = "demo_process ?ks"
  have n: "stoi ''3'' = Inr 3" "stoi ''2'' = Inr 2" by code_simp+
  have po: "atoi (c_str ''8090'') = Val 8090" "atoi (c_str ''8091'') = Val 8091" by code_simp+
  obtain m where D: "MySQLManager_init (host_mysql demo_host) (host_mysql_attempts demo_host) (host_sql_file demo_host) (mysql_mgr (cp_server ?p)) =
      (Val True, m)"
    using table_driver_init [of "''SELECT 1;''" "\<lambda>_ _. []" "mysql_mgr (cp_server ?p)"] by (auto simp: demo_host_def)
  have up: "client_up (cp_status ?p)" "redis_up (redis_mgr (cp_server ?p))" "redis_server (redis_mgr (cp_server ?p)) = ?ks"
    by (simp_all add: demo_process_def client_up_def)
  have S: "servers_wf (status_peer (cp_status ?p))" by (simp add: demo_process_def)
  have P: "ports_ok (status_peer (cp_status ?p))"
    using po by (auto simp: demo_process_def ports_ok_def find_server_def demo_status_def split: if_splits)
  have c: "counters_ok ?ks" by (auto simp: counters_ok_def is_hash_def hash_of_def n split: if_splits)
  have o: "\<forall>other \<in> fst ` set (servers (status_peer (cp_status ?p))). other \<noteq> chat_server_name ''1'' \<longrightarrow> 0 < server_load ?ks other"
    by (simp add: demo_process_def demo_status_def server_load_def hash_of_def n)
  have H: "host_ini demo_host = Some [(''ChatServer1'', [(''port'', ''8090''), (''rpc_port'', ''50055'')])]" "host_system demo_host ''mkdir -p ./logs'' = 0"
    "host_status demo_host = direct_rpc (host_redis demo_host) ''ipv4:192.168.0.7:40000'' 130 []" "redis_documented (host_redis demo_host) (\<lambda>r. r)"
    by (simp_all add: demo_host_def ref_redis_documented)
  have port: "8090 = (word_of_int (toInt 0 (settings_value (chat_server_name ''1'' @ ''/port'') []
      (load_settings [(''ChatServer1'', [(''port'', ''8090''), (''rpc_port'', ''50055'')])] (cp_settings ?p)))) :: 16 word)"
    unfolding demo_process_def by code_simp
  have "no_nul ''1''" "no_nul ''tok''" by (simp_all add: no_nul_def)
  from started_server_gets_logins [OF H(1-3) up(1) D H(4) up(2,3) c this S P o port, of "''./ChatServer''" 7]
  show ?thesis by (simp add: demo_host_def started_entry_def GetLocalIPs_def chat_server_name_def)
qed

section \<open>The gate server keeps accepting\<close>

lemma gate_start_running:
  assumes "pool_running n (gp_pool p)"
  obtains q where "gate_start p = (Val (), q)" "pool_running n (gp_pool q)" "gp_accept q = Some (next_ioService (gp_pool p))"
    "next_ioService (gp_pool q) = (next_ioService (gp_pool p) + 1) mod n" "gp_connections q = gp_connections p" "gp_acceptor q = gp_acceptor p"
proof -
  obtain x where "pool_GetIOService (gp_pool p) = (Val (next_ioService (gp_pool p)), x)" "pool_running n x"
      "next_ioService x = (next_ioService (gp_pool p) + 1) mod n"
    using pool_GetIOService_running [OF assms] by blast
  then show thesis by (intro that [of "p\<lparr>gp_pool := x, gp_accept := Some (next_ioService (gp_pool p))\<rparr>"])
    (simp_all add: gate_start_def gp_pool_op_def bnd_def zoom_def upd_def)
qed

text \<open>The contexts of the connections among the accepts number \<open>i\<close>, \<open>i + 1\<close>, \dots\ that succeed.\<close>

fun accepted_contexts :: "nat \<Rightarrow> nat \<Rightarrow> bool list \<Rightarrow> nat list" where
  "accepted_contexts n i [] = []"
| "accepted_contexts n i (err # errs) = (if err then [] else [i mod n]) @ accepted_contexts n (i + 1) errs"

lemma gate_accepts:
  assumes "pool_running n (gp_pool p)" "gp_accept p = Some (i mod n)" "next_ioService (gp_pool p) = (i + 1) mod n"
  shows "\<exists>q. forM gate_accepted errs p = (Val (), q) \<and> pool_running n (gp_pool q) \<and> gp_accept q = Some ((i + length errs) mod n) \<and>
    gp_connections q = gp_connections p @ accepted_contexts n i errs \<and> gp_acceptor q = gp_acceptor p"
  using assms
proof (induction errs arbitrary: p i)
  case Nil
  then show ?case by (simp add: ret_def)
next
  case (Cons err errs)
  let ?p = "if err then p else p\<lparr>gp_connections := gp_connections p @ [i mod n]\<rparr>"
  have "pool_running n (gp_pool ?p)" using Cons.prems(1) by simp
  then obtain q where q: "gate_start ?p = (Val (), q)" "pool_running n (gp_pool q)" "gp_accept q = Some (next_ioService (gp_pool ?p))"
      "next_ioService (gp_pool q) = (next_ioService (gp_pool ?p) + 1) mod n" "gp_connections q = gp_connections ?p" "gp_acceptor q = gp_acceptor ?p"
    by (rule gate_start_running)
  have "gate_accepted err p = (Val (), q)"
    using q(1) Cons.prems(2) by (cases err) (simp_all add: gate_accepted_def bnd_def gets_def catching_def upd_def)
  moreover have "gp_accept q = Some ((i + 1) mod n)" "next_ioService (gp_pool q) = (i + 1 + 1) mod n"
    using q(3,4) Cons.prems(3) by (cases err; simp add: mod_Suc_eq)+
  ultimately show ?case using Cons.IH [OF q(2), of "i + 1"] q(5,6) by (auto simp: bnd_def)
qed

text \<open>
  The gate server keeps accepting: after its start and any sequence of completed accepts, failed ones
  among them, exactly one accept is outstanding, and the accepts, hence the connections, are spread
  over the io contexts in turn.
\<close>

theorem gate_keeps_accepting:
  assumes "pool_running n (gp_pool p)" "next_ioService (gp_pool p) = 0"
  shows "\<exists>q. bnd gate_start (\<lambda>_. forM gate_accepted errs) p = (Val (), q) \<and> pool_running n (gp_pool q) \<and>
    gp_accept q = Some (length errs mod n) \<and> gp_connections q = gp_connections p @ accepted_contexts n 0 errs"
proof -
  obtain q where q: "gate_start p = (Val (), q)" "pool_running n (gp_pool q)" "gp_accept q = Some (next_ioService (gp_pool p))"
      "next_ioService (gp_pool q) = (next_ioService (gp_pool p) + 1) mod n" "gp_connections q = gp_connections p" "gp_acceptor q = gp_acceptor p"
    by (rule gate_start_running [OF assms(1)])
  then show ?thesis using gate_accepts [OF q(2), of 0 errs] assms(2) by (auto simp: bnd_def)
qed

text \<open>
  A gate server process that was started and stopped is left in order: \<open>main\<close> returns 0 and the
  destructor of the pool, which nobody has stopped before, returns too.
\<close>

theorem gate_main_ends:
  assumes "gate_main H serve program p = (Val code, q)" and "pool_running n (gp_pool q)"
  shows "code \<in> {0, - 1, - 2} \<and> fst (pool_destroy (gp_pool q)) = Val ()"
proof
  show "code \<in> {0, - 1, - 2}"
    using assms(1) by (auto simp: gate_main_def catching_def ret_def dest!: bnd_ValD split: prod.splits result.splits if_splits)
  show "fst (pool_destroy (gp_pool q)) = Val ()"
    using pool_stop_running [OF assms(2)] by (auto simp: pool_destroy_def no_throw_def catching_def)
qed

text \<open>A status server without a readable configuration is ended by the exception.\<close>

lemma status_main_no_config: "sh_ini H = None \<Longrightarrow> fst (status_main H serve program p) = Crash"
  by (simp add: status_main_def read_settings_def prog_defs)

text \<open>
  A chat server whose database set-up fails returns -4, but it has registered itself by then: the
  status server keeps it in the table until its missing heartbeats are noticed.
\<close>

theorem failed_start_stays_registered:
  assumes H: "host_ini H = Some ptree" "host_system H ''mkdir -p ./logs'' = 0" "host_status H = direct_rpc redis peer now unique"
    and c: "client_up (cp_status p)"
    and D: "MySQLManager_init (host_mysql H) (host_mysql_attempts H) (host_sql_file H) (mysql_mgr (cp_server p)) = (Val False, m)"
    and R: "does view (hset (host_redis H) LOGIN_COUNT (chat_server_name sid) ''0'') (redis_mgr (cp_server p)) (Val x) ks"
  shows "\<exists>q. chat_main H serve program [sid] p = (Val (- 4), q) \<and> alive (status_peer (cp_status q)) (chat_server_name sid) = Some now"
proof -
  obtain q where "chat_prepare H program [sid] p = (Val (Inl (- 4)), q)"
      "status_peer (cp_status q) = put_server (chat_server_name sid)
        (started_entry H peer now (chat_server_name sid) (configured_port H (chat_server_name sid) (cp_settings p))) (status_peer (cp_status p))"
    using chat_prepare_runs [OF H c D R, where program = program] by auto
  then show ?thesis by (intro exI [of _ q]) (simp add: chat_main_def catching_def bnd_def ret_def alive_put started_entry_def)
qed

end
