(* ===== verification/GateTimer.thy ===== *)
theory GateTimer
  imports GateServer
begin

text \<open>
  The life of an HTTP connection of the gate server with its timer: \<open>GateServer/http_connection.cpp\<close> and the
  moment at which \<open>GateServer/cserver.cpp\<close> makes the connection, which is before a client connects. Time is
  counted in seconds; asio runs the completions of one connection one after the other. The object ends with its last completion, which is
  left out.
\<close>

section \<open>State and completions\<close>

text \<open>
  \<open>http_con\<close> is the connection of theory \<open>GateServer\<close>; the rest are the timer \<open>_deadline\<close>, made with the
  connection to run out after 60 seconds, the wait on it, the outstanding read and write, and the socket.
\<close>

record http_life =
  http_con :: HttpConnection
  expires_at :: int
  wait_armed :: bool
  read_pending :: bool
  write_pending :: bool
  sock_open :: bool
  shut_send :: bool
  response_sent :: bool

definition new_http_life :: "int \<Rightarrow> HttpConnection \<Rightarrow> http_life" where
  "new_http_life now con = \<lparr>http_con = con, expires_at = now + 60, wait_armed = False, read_pending = False, write_pending = False,
     sock_open = True, shut_send = False, response_sent = False\<rparr>"

text \<open>\<open>start\<close>, called when the connection is accepted.\<close>

definition http_accepted :: "http_life \<Rightarrow> http_life" where
  "http_accepted l = l\<lparr>read_pending := True\<rparr>"

text \<open>
  The completion of the read: the handler and \<open>checkDeadline\<close> of \<open>http_start\<close>. A call of \<open>writeResponse\<close>
  starts the write.
\<close>

definition read_completed :: "HttpConnection \<Rightarrow> http_life \<Rightarrow> http_life" where
  "read_completed con' l = l\<lparr>http_con := con', read_pending := False,
     write_pending := (rsp_writes (http_con l) < rsp_writes con'), wait_armed := deadline con'\<rparr>"

text \<open>The completion of the write, with or without an error, and of the wait.\<close>

definition write_completed :: "bool \<Rightarrow> http_life \<Rightarrow> http_life" where
  "write_completed ok l = l\<lparr>write_pending := False, response_sent := ok, shut_send := sock_open l, wait_armed := False\<rparr>"

definition deadline_passed :: "http_life \<Rightarrow> http_life" where
  "deadline_passed l = l\<lparr>wait_armed := False, sock_open := False\<rparr>"

section \<open>Runs\<close>

inductive http_step :: "('r, 'm, 'g, 'v) GateLogic \<Rightarrow> int \<times> http_life \<Rightarrow> int \<times> http_life \<Rightarrow> bool" for L where
  time_passes: "0 \<le> d \<Longrightarrow> http_step L (now, l) (now + d, l)"
| read_done: "read_pending l \<Longrightarrow> http_start L ec (s, http_con l) = (Val (), (s', con')) \<Longrightarrow> http_step L (now, l) (now, read_completed con' l)"
| write_done: "write_pending l \<Longrightarrow> sock_open l \<Longrightarrow> http_step L (now, l) (now, write_completed True l)"
| write_failed: "write_pending l \<Longrightarrow> http_step L (now, l) (now, write_completed False l)"
| expired: "wait_armed l \<Longrightarrow> expires_at l \<le> now \<Longrightarrow> http_step L (now, l) (now, deadline_passed l)"

inductive_cases http_stepE: "http_step L x y"

text \<open>A connection made at \<open>made\<close> and accepted at \<open>at\<close>.\<close>

inductive http_run :: "('r, 'm, 'g, 'v) GateLogic \<Rightarrow> HttpConnection \<Rightarrow> int \<Rightarrow> int \<Rightarrow> int \<times> http_life \<Rightarrow> bool" for L con made "at" where
  run_start: "made \<le> at \<Longrightarrow> http_run L con made at (at, http_accepted (new_http_life made con))"
| run_step: "http_run L con made at x \<Longrightarrow> http_step L x y \<Longrightarrow> http_run L con made at y"

definition http_ok :: "int \<Rightarrow> int \<Rightarrow> int \<times> http_life \<Rightarrow> bool" where
  "http_ok made at = (\<lambda>(now, l). at \<le> now \<and> expires_at l = made + 60 \<and> (\<not> sock_open l \<longrightarrow> made + 60 \<le> now) \<and>
     (read_pending l \<longrightarrow> sock_open l \<and> \<not> write_pending l \<and> \<not> response_sent l \<and> \<not> wait_armed l))"

lemma http_ok_step: "http_ok made at x \<Longrightarrow> http_step L x y \<Longrightarrow> http_ok made at y"
  by (erule http_stepE) (auto simp: http_ok_def read_completed_def write_completed_def deadline_passed_def)

lemma http_ok_run: "http_run L con made at x \<Longrightarrow> http_ok made at x"
proof (induction rule: http_run.induct)
  case run_start
  then show ?case by (auto simp: http_ok_def http_accepted_def new_http_life_def)
next
  case (run_step x y)
  then show ?case by (blast intro: http_ok_step)
qed

text \<open>
  The deadline counts from the making of the connection: no response is cut off within 60 seconds of
  it, and a client that sends nothing is never cut off, however long it waits.
\<close>

theorem http_deadline:
  assumes "http_run L con made at (now, l)"
  shows "now < made + 60 \<longrightarrow> sock_open l" "read_pending l \<longrightarrow> sock_open l"
  using http_ok_run [OF assms] by (auto simp: http_ok_def)

lemma idle_client_stays:
  assumes "made \<le> at" "0 \<le> d"
  shows "http_run L con made at (at + d, http_accepted (new_http_life made con))"
  by (rule run_step [OF run_start [OF assms(1)] time_passes [OF assms(2)]])

text \<open>
  A connection that waited for its client for a minute or more has no time left: as soon as its request
  is handled, the deadline may close the socket before the response is written.
\<close>

theorem late_client_cut_off:
  assumes "made + 60 \<le> at" and "http_start L False (s, con) = (Val (), (s', con'))" "deadline con'" "rsp_writes con < rsp_writes con'"
  shows "\<exists>l. http_run L con made at (at, l) \<and> \<not> sock_open l \<and> write_pending l \<and> \<not> response_sent l \<and>
    (\<forall>now l'. http_step L (at, l) (now, l') \<longrightarrow> \<not> response_sent l')"
proof -
  let ?l0 = "http_accepted (new_http_life made con)"
  let ?l1 = "read_completed con' ?l0"
  have "http_run L con made at (at, ?l0)" using assms(1) by (intro run_start) simp
  moreover have "http_step L (at, ?l0) (at, ?l1)"
    using assms(2) by (intro read_done [of _ _ False s]) (simp_all add: http_accepted_def new_http_life_def)
  moreover have "http_step L (at, ?l1) (at, deadline_passed ?l1)"
    using assms(1,3) by (intro expired) (simp_all add: read_completed_def http_accepted_def new_http_life_def)
  ultimately have "http_run L con made at (at, deadline_passed ?l1)" by (blast intro: run_step)
  moreover have "\<not> response_sent l'" if "http_step L (at, deadline_passed ?l1) (now, l')" for now l'
    using that by (rule http_stepE)
      (auto simp: deadline_passed_def read_completed_def write_completed_def http_accepted_def new_http_life_def)
  ultimately show ?thesis
    using assms(4) by (intro exI [of _ "deadline_passed ?l1"])
      (auto simp: deadline_passed_def read_completed_def http_accepted_def new_http_life_def)
qed

text \<open>A request for an unknown path is such a request.\<close>

lemma late_client_cut_off_example:
  "\<exists>l. http_run (new_GateLogic (demo_gate_env JNull [])) (demo_request ''/nope'') 0 60 (60, l) \<and> \<not> sock_open l \<and> \<not> response_sent l"
proof -
  have d: "req_method (demo_request ''/nope'') = HttpPost" "req_target (demo_request ''/nope'') = ''/nope''"
      "rsp_writes (demo_request ''/nope'') = 0"
    by (simp_all add: demo_request_def new_HttpConnection_def)
  show ?thesis
    using late_client_cut_off [of 0 60 "new_GateLogic (demo_gate_env JNull [])" "demo_gate Map.empty" "demo_request ''/nope''", OF _
        post_dispatch [OF d(1), of "demo_gate_env JNull []" "demo_gate Map.empty", unfolded d(2) Let_def gate_routes_def, simplified]]
    by (auto simp: d not_found_def writeResponse_def append_body_def set_field_def Let_def)
qed

end
