(* ===== verification/OrionMessage.thy ===== *)
theory OrionMessage
  imports ChatData Registry Constants
begin

text \<open>
  The message library \<open>orion-message\<close>: message objects with a common header, their JSON form, and the
  factory that creates objects by message id.
\<close>

section \<open>Timestamp\<close>

text \<open>
  A time point of \<open>system_clock\<close>: a signed 64-bit number of nanoseconds since the epoch. The
  conversions scale by the number of units; a product outside the range is undefined behaviour.
  \<open>duration_cast\<close> rounds towards zero and the result is converted to an unsigned 64-bit number.
\<close>

type_synonym Timestamp = int

definition from_units :: "int \<Rightarrow> int \<Rightarrow> Timestamp result" where
  "from_units scale n =
     (let dur = (if n < 2 ^ 63 then n else n - 2 ^ 64) in
      if - (2 ^ 63) \<le> dur * scale \<and> dur * scale < 2 ^ 63 then Val (dur * scale) else Crash)"

definition to_units :: "int \<Rightarrow> Timestamp \<Rightarrow> int" where
  "to_units scale t = (if 0 \<le> t then t div scale else - ((- t) div scale)) mod 2 ^ 64"

definition from_seconds :: "int \<Rightarrow> Timestamp result" where
  "from_seconds = from_units (10 ^ 9)"

definition from_milliseconds :: "int \<Rightarrow> Timestamp result" where
  "from_milliseconds = from_units (10 ^ 6)"

definition from_microseconds :: "int \<Rightarrow> Timestamp result" where
  "from_microseconds = from_units (10 ^ 3)"

definition to_seconds :: "Timestamp \<Rightarrow> int" where
  "to_seconds = to_units (10 ^ 9)"

definition to_milliseconds :: "Timestamp \<Rightarrow> int" where
  "to_milliseconds = to_units (10 ^ 6)"

definition to_microseconds :: "Timestamp \<Rightarrow> int" where
  "to_microseconds = to_units (10 ^ 3)"

definition from_time_t :: "int \<Rightarrow> Timestamp result" where
  "from_time_t n = (if - (2 ^ 63) \<le> n * 10 ^ 9 \<and> n * 10 ^ 9 < 2 ^ 63 then Val (n * 10 ^ 9) else Crash)"

definition to_time_t :: "Timestamp \<Rightarrow> int" where
  "to_time_t t = (if 0 \<le> t then t div 10 ^ 9 else - ((- t) div 10 ^ 9))"

lemma units_roundtrip:
  assumes "0 \<le> t" "t < 2 ^ 63" "0 < scale"
  shows "from_units scale (to_units scale t) = Val (t div scale * scale)"
proof -
  have d: "0 \<le> t div scale" "t div scale \<le> t" using assms by (simp_all add: pos_imp_zdiv_nonneg_iff) (smt (verit) div_by_1 zdiv_mono2)
  have m: "(t div scale) mod 2 ^ 64 = t div scale" using d assms(2) by simp
  have "t div scale * scale \<le> t" using div_mult_mod_eq [of t scale] pos_mod_sign [OF assms(3), of t] by linarith
  moreover have "0 \<le> t div scale * scale" using d(1) assms(3) by simp
  ultimately have "- (2 ^ 63) \<le> t div scale * scale \<and> t div scale * scale < 2 ^ 63" using assms(2) by linarith
  then show ?thesis using assms d by (simp add: from_units_def to_units_def m Let_def)
qed

section \<open>Messages\<close>

text \<open>What the library uses of jsoncpp besides the common part: \<open>FastWriter\<close> and \<open>asUInt64\<close>.\<close>

record fast_json =
  fj_lib :: jsoncpp
  fj_write :: "json \<Rightarrow> string"
  fj_asUInt64 :: "json \<Rightarrow> int option"

definition fast_documented :: "fast_json \<Rightarrow> bool" where
  "fast_documented F \<longleftrightarrow> json_documented (fj_lib F) \<and>
     (\<forall>i. 0 \<le> i \<and> i < 2 ^ 64 \<longrightarrow> fj_asUInt64 F (JInt i) = Some i) \<and>
     (\<forall>kvs k. fst (jparse (fj_lib F) (fj_write F (JObj kvs))) \<and>
        jmember (fj_lib F) (snd (jparse (fj_lib F) (fj_write F (JObj kvs)))) k = jmember (fj_lib F) (JObj kvs) k)"

record MessageBase =
  message_id :: int
  error_codes :: int
  timestamp :: Timestamp
  from_uid :: int
  to_uid :: int

record TextChatMessage = MessageBase +
  chat_msg_id :: string
  tcm_content :: string
  tcm_msg_type :: int

definition set_header :: "'z MessageBase_scheme \<Rightarrow> json \<Rightarrow> json" where
  "set_header msg data =
     jset ''to_uid'' (JInt (to_uid msg)) (
     jset ''from_uid'' (JInt (from_uid msg)) (
     jset ''timestamp'' (JInt (to_seconds (timestamp msg))) (
     jset ''error_codes'' (JInt (error_codes msg)) (
     jset ''message_id'' (JInt (message_id msg)) data))))"

definition SerializeHeader :: "fast_json \<Rightarrow> 'z MessageBase_scheme \<Rightarrow> string" where
  "SerializeHeader F msg = fj_write F (set_header msg JNull)"

text \<open>\<open>SeirializeHeader\<close> on a pointer that may be null.\<close>

definition SeirializeHeader :: "'z MessageBase_scheme \<Rightarrow> json option \<Rightarrow> json option" where
  "SeirializeHeader msg data = (case data of None \<Rightarrow> None | Some root \<Rightarrow> Some (set_header msg root))"

definition ParseHeader :: "fast_json \<Rightarrow> string \<Rightarrow> ('z MessageBase_scheme, bool) prog" where
  "ParseHeader F data =
     (let J = fj_lib F; root = snd (jparse J data) in
      if fst (jparse J data) then
        bnd (json_int J root ''message_id'') (\<lambda>i.
        bnd (upd (\<lambda>msg. msg\<lparr>message_id := i\<rparr>)) (\<lambda>_.
        bnd (json_int J root ''error_codes'') (\<lambda>e.
        bnd (upd (\<lambda>msg. msg\<lparr>error_codes := e\<rparr>)) (\<lambda>_.
        bnd (from_option JsonLogicError (Option.bind (jmember J root ''timestamp'') (fj_asUInt64 F))) (\<lambda>sec.
        bnd (\<lambda>msg. (from_seconds sec, msg)) (\<lambda>ts.
        bnd (upd (\<lambda>msg. msg\<lparr>timestamp := ts\<rparr>)) (\<lambda>_.
        bnd (json_int J root ''from_uid'') (\<lambda>a.
        bnd (upd (\<lambda>msg. msg\<lparr>from_uid := a\<rparr>)) (\<lambda>_.
        bnd (json_int J root ''to_uid'') (\<lambda>b.
        bnd (upd (\<lambda>msg. msg\<lparr>to_uid := b\<rparr>)) (\<lambda>_.
        ret True)))))))))))
      else ret False)"

definition MessageBase_Deserialize :: "fast_json \<Rightarrow> string \<Rightarrow> ('z MessageBase_scheme, bool) prog" where
  "MessageBase_Deserialize F data = ParseHeader F data"

text \<open>
  The constructor sets the message id only. The time point is that of its creation; the other
  members hold whatever was in memory, given by \<open>junk\<close>.
\<close>

definition new_TextChatMessage :: "TextChatMessage \<Rightarrow> Timestamp \<Rightarrow> TextChatMessage" where
  "new_TextChatMessage junk now =
     junk\<lparr>message_id := uint (msg_id ID_TEXT_CHAT_MSG_REQ), timestamp := now, chat_msg_id := [], tcm_content := []\<rparr>"

definition Serialize :: "fast_json \<Rightarrow> TextChatMessage \<Rightarrow> string" where
  "Serialize F msg =
     (case SeirializeHeader msg (Some JNull) of
        None \<Rightarrow> fj_write F JNull
      | Some root \<Rightarrow>
          fj_write F (
            jset ''content'' (JStr (tcm_content msg)) (
            jset ''chat_msg_id'' (JStr (chat_msg_id msg)) (
            jset ''msg_type'' (JInt (tcm_msg_type msg)) root))))"

definition Deserialize :: "fast_json \<Rightarrow> string \<Rightarrow> (TextChatMessage, bool) prog" where
  "Deserialize F data =
     bnd (ParseHeader F data) (\<lambda>ok.
     if \<not> ok then ret False
     else
       let J = fj_lib F; root = snd (jparse J data) in
       if fst (jparse J data) then
         bnd (json_int J root ''msg_type'') (\<lambda>t.
         bnd (upd (\<lambda>msg. msg\<lparr>tcm_msg_type := t\<rparr>)) (\<lambda>_.
         bnd (json_str J root ''chat_msg_id'') (\<lambda>i.
         bnd (upd (\<lambda>msg. msg\<lparr>chat_msg_id := i\<rparr>)) (\<lambda>_.
         bnd (json_str J root ''content'') (\<lambda>c.
         bnd (upd (\<lambda>msg. msg\<lparr>tcm_content := c\<rparr>)) (\<lambda>_.
         ret True))))))
       else ret False)"

section \<open>MessageFactory\<close>

text \<open>A creator makes a new object; \<open>mem\<close> stands for the memory and the clock it finds.\<close>

type_synonym MessageCreator = "TextChatMessage \<times> Timestamp \<Rightarrow> TextChatMessage"

record MessageFactory =
  creators :: "int \<rightharpoonup> MessageCreator"

definition find_creator :: "MessageFactory \<Rightarrow> int \<Rightarrow> MessageCreator option" where
  "find_creator f i = creators f i"

definition RegisterProtocol :: "int \<Rightarrow> MessageCreator \<Rightarrow> MessageFactory \<Rightarrow> MessageFactory" where
  "RegisterProtocol i creator f = f\<lparr>creators := (creators f)(i \<mapsto> creator)\<rparr>"

interpretation factory: overwriting find_creator RegisterProtocol
  by unfold_locales (simp_all add: find_creator_def RegisterProtocol_def)

definition createMessage :: "MessageFactory \<Rightarrow> TextChatMessage \<times> Timestamp \<Rightarrow> int \<Rightarrow> TextChatMessage option" where
  "createMessage f mem msgId = (case find_creator f msgId of Some creator \<Rightarrow> Some (creator mem) | None \<Rightarrow> None)"

definition ParseMessage ::
    "fast_json \<Rightarrow> MessageFactory \<Rightarrow> TextChatMessage \<times> Timestamp \<Rightarrow> int \<Rightarrow> string \<Rightarrow> TextChatMessage option result" where
  "ParseMessage F f mem msgId data =
     (case createMessage f mem msgId of
        None \<Rightarrow> Val None
      | Some msg \<Rightarrow>
          (case Deserialize F data msg of
             (Val b, msg') \<Rightarrow> Val (if b then Some msg' else None)
           | (Exn e, _) \<Rightarrow> Exn e | (Waits, _) \<Rightarrow> Waits | (Crash, _) \<Rightarrow> Crash))"

text \<open>The registration that \<open>REGISTER_MESSAGE\<close> makes before \<open>main\<close>.\<close>

definition registered_factory :: MessageFactory where
  "registered_factory = RegisterProtocol (uint (msg_id ID_TEXT_CHAT_MSG_REQ)) (\<lambda>(junk, now). new_TextChatMessage junk now) \<lparr>creators = Map.empty\<rparr>"

section \<open>Round trip\<close>

definition header_in_range :: "'z MessageBase_scheme \<Rightarrow> bool" where
  "header_in_range msg \<longleftrightarrow> (\<forall>i \<in> {message_id msg, error_codes msg, from_uid msg, to_uid msg}. INT_MIN \<le> i \<and> i \<le> INT_MAX) \<and>
     0 \<le> timestamp msg \<and> timestamp msg < 2 ^ 63"

definition wire_fields :: "TextChatMessage \<Rightarrow> (string \<times> json) list" where
  "wire_fields msg = [(''message_id'', JInt (message_id msg)), (''error_codes'', JInt (error_codes msg)),
     (''timestamp'', JInt (to_seconds (timestamp msg))), (''from_uid'', JInt (from_uid msg)), (''to_uid'', JInt (to_uid msg)),
     (''msg_type'', JInt (tcm_msg_type msg)), (''chat_msg_id'', JStr (chat_msg_id msg)), (''content'', JStr (tcm_content msg))]"

lemma Serialize_fields: "Serialize F msg = fj_write F (JObj (wire_fields msg))"
  by (simp add: Serialize_def SeirializeHeader_def set_header_def wire_fields_def)

lemma Deserialize_Serialize:
  assumes F: "fast_documented F" and r: "header_in_range msg" "INT_MIN \<le> tcm_msg_type msg" "tcm_msg_type msg \<le> INT_MAX"
  shows "Deserialize F (Serialize F msg) m0 = (Val True, msg\<lparr>timestamp := timestamp msg div 10 ^ 9 * 10 ^ 9\<rparr>)"
proof -
  let ?p = "jparse (fj_lib F) (Serialize F msg)"
  have J: "json_documented (fj_lib F)" using F by (simp add: fast_documented_def)
  have p: "fst ?p" and mem: "jmember (fj_lib F) (snd ?p) k = jmember (fj_lib F) (JObj (wire_fields msg)) k" for k
    using F by (simp_all add: fast_documented_def Serialize_fields)
  have i: "field_int (fj_lib F) (snd ?p) k = Some n" if "map_of (wire_fields msg) k = Some (JInt n)" "INT_MIN \<le> n" "n \<le> INT_MAX" for k n
    using that by (simp add: field_int_def mem json_docD(8) [OF J] json_docD(1) [OF J])
  have s: "field_str (fj_lib F) (snd ?p) k = Some t" if "map_of (wire_fields msg) k = Some (JStr t)" for k t
    using that by (simp add: field_str_def mem json_docD(8) [OF J] json_docD(5) [OF J])
  have h: "INT_MIN \<le> message_id msg" "message_id msg \<le> INT_MAX" "INT_MIN \<le> error_codes msg" "error_codes msg \<le> INT_MAX"
      "INT_MIN \<le> from_uid msg" "from_uid msg \<le> INT_MAX" "INT_MIN \<le> to_uid msg" "to_uid msg \<le> INT_MAX"
      "0 \<le> timestamp msg" "timestamp msg < 2 ^ 63"
    using r(1) by (simp_all add: header_in_range_def)
  have ints: "field_int (fj_lib F) (snd ?p) ''message_id'' = Some (message_id msg)"
      "field_int (fj_lib F) (snd ?p) ''error_codes'' = Some (error_codes msg)"
      "field_int (fj_lib F) (snd ?p) ''from_uid'' = Some (from_uid msg)"
      "field_int (fj_lib F) (snd ?p) ''to_uid'' = Some (to_uid msg)"
      "field_int (fj_lib F) (snd ?p) ''msg_type'' = Some (tcm_msg_type msg)"
    using h r(2,3) by (auto intro!: i simp: wire_fields_def)
  have strs: "field_str (fj_lib F) (snd ?p) ''chat_msg_id'' = Some (chat_msg_id msg)"
      "field_str (fj_lib F) (snd ?p) ''content'' = Some (tcm_content msg)"
    by (auto intro!: s simp: wire_fields_def)
  have u: "0 \<le> to_seconds (timestamp msg)" "to_seconds (timestamp msg) < 2 ^ 64" by (simp_all add: to_seconds_def to_units_def)
  have t: "Option.bind (jmember (fj_lib F) (snd ?p) ''timestamp'') (fj_asUInt64 F) = Some (to_seconds (timestamp msg))"
    using F u by (simp add: mem json_docD(8) [OF J] wire_fields_def fast_documented_def)
  have ts: "from_seconds (to_seconds (timestamp msg)) = Val (timestamp msg div 10 ^ 9 * 10 ^ 9)"
    unfolding from_seconds_def to_seconds_def using h(9,10) by (intro units_roundtrip) simp_all
  show ?thesis
    by (simp add: Deserialize_def ParseHeader_def Let_def p json_int_def json_str_def ints strs t ts from_option_def bnd_def ret_def upd_def)
qed

text \<open>
  Messages survive the wire: the factory recognises a serialised text message by its id and gives
  back an object equal to the one that was sent, whatever its memory held before, except that the
  time is cut to whole seconds.
\<close>

theorem ParseMessage_Serialize:
  assumes "fast_documented F" and "header_in_range msg" and "INT_MIN \<le> tcm_msg_type msg" and "tcm_msg_type msg \<le> INT_MAX"
  shows "ParseMessage F registered_factory mem 1017 (Serialize F msg) =
    Val (Some (msg\<lparr>timestamp := timestamp msg div 10 ^ 9 * 10 ^ 9\<rparr>))"
  by (cases mem) (simp add: ParseMessage_def createMessage_def registered_factory_def factory.find_put Deserialize_Serialize [OF assms])

definition ref_fast :: fast_json where
  "ref_fast = \<lparr>fj_lib = ref_json, fj_write = toStyledString ref_json,
     fj_asUInt64 = (\<lambda>v. case v of JInt i \<Rightarrow> if 0 \<le> i \<and> i < 2 ^ 64 then Some i else None | JNull \<Rightarrow> Some 0 | _ \<Rightarrow> None)\<rparr>"

definition sample_message :: TextChatMessage where
  "sample_message = \<lparr>message_id = 1017, error_codes = 0, timestamp = 1755648000500000000, from_uid = 12345, to_uid = 67890,
     chat_msg_id = ''aaaaaaa'', tcm_content = ''hello world'', tcm_msg_type = 1\<rparr>"

theorem ParseMessage_Serialize_witness:
  "ParseMessage ref_fast registered_factory (sample_message, 0) 1017 (Serialize ref_fast sample_message) =
    Val (Some (sample_message\<lparr>timestamp := 1755648000000000000\<rparr>))"
proof -
  have "fast_documented ref_fast"
    using ref_json_documented ref_json_reparse by (simp add: fast_documented_def ref_fast_def json_reparse_def)
  moreover have "header_in_range sample_message" "INT_MIN \<le> tcm_msg_type sample_message" "tcm_msg_type sample_message \<le> INT_MAX"
    by (simp_all add: header_in_range_def sample_message_def INT_MIN_def INT_MAX_def)
  ultimately have "ParseMessage ref_fast registered_factory (sample_message, 0) 1017 (Serialize ref_fast sample_message) =
    Val (Some (sample_message\<lparr>timestamp := timestamp sample_message div 10 ^ 9 * 10 ^ 9\<rparr>))"
    by (rule ParseMessage_Serialize)
  then show ?thesis by (simp add: sample_message_def)
qed

end
