(* ===== verification/ChatFriends.thy ===== *)
theory ChatFriends
  imports ChatLogicFacts
begin

text \<open>
  Searching users and making friends on one chat server: what \<open>SearchInfoHandler\<close>,
  \<open>AddFriendApplyHandler\<close> and \<open>AuthFriendApplyHandler\<close> store, answer and announce.
\<close>

section \<open>Sending a notification and a reply\<close>

lemma notify_and_reply:
  assumes c: "session_objs s sid = Some c" "session_objs s sid' = Some c'" "sid \<noteq> sid'" "has_room 1 c" "has_room 1 c'"
    and short: "length note1 \<le> 32763" "length answer1 \<le> 32763"
  obtains s1 t d d' where "session_send sid' note1 i s = (Val (), s1)" "session_send sid answer1 j s1 = (Val (), t)"
    "session_objs t = (session_objs s)(sid \<mapsto> d, sid' \<mapsto> d')" "same_but_sessions s t"
    "outbox d' = outbox c' @ [frame (msg_id i) note1]" "outbox d = outbox c @ [frame (msg_id j) answer1]"
proof -
  have r: "has_room (Suc 0) c" "has_room (Suc 0) c'" using c by simp_all
  obtain d' s1 where s1: "session_send sid' note1 i s = (Val (), s1)" "session_objs s1 = (session_objs s)(sid' \<mapsto> d')"
      "same_but_sessions s s1" "outbox d' = outbox c' @ [frame (msg_id i) note1]"
    using session_send_outbox [OF c(2) short(1) r(2)] by metis
  have "session_objs s1 sid = Some c" using c by (simp add: s1(2))
  from session_send_outbox [OF this short(2) r(1)]
  obtain d t where t: "session_send sid answer1 j s1 = (Val (), t)" "session_objs t = (session_objs s1)(sid \<mapsto> d)"
      "same_but_sessions s1 t" "outbox d = outbox c @ [frame (msg_id j) answer1]" by metis
  show thesis
    by (rule that [OF s1(1) t(1) _ _ s1(4) t(4)])
      (use c(3) s1(2,3) t(2,3) in \<open>auto simp: fun_upd_twist same_but_sessions_def\<close>)
qed

lemma server_of_user_unknown:
  assumes "redis_documented (lib_redis E) view" "redis_up (redis_mgr s)"
    and "view (redis_server (redis_mgr s)) (USERIPPREFIX @ to_string touid) = None"
  obtains t where "server_of_user E touid s = (Val (False, []), t)" "redis_up (redis_mgr t)"
    "view (redis_server (redis_mgr t)) = view (redis_server (redis_mgr s))" "same_but_redis s t"
proof -
  have k: "no_nul (USERIPPREFIX @ to_string touid)" by simp
  show thesis
    using redis_op_does [OF does_get_missing [OF assms(1,2) k assms(3), of "[]"]] that unfolding server_of_user_def by blast
qed

lemma with_defer_reply:
  assumes "body (s, v) = (Val x, (t, w))" and "session_send sid (toStyledString J w) i t = (Val (), t')"
  shows "with_defer v body (\<lambda>rtvalue. session_send sid (toStyledString J rtvalue) i) s = (Val x, t')"
  using assms(1) by (rule with_defer_Val) (rule assms(2))

section \<open>Searching\<close>

text \<open>The reply to a search: the user's record, or \<open>UserNotExist\<close>.\<close>

definition search_reply :: "UserInfo option \<Rightarrow> json" where
  "search_reply found =
     (case found of
        None \<Rightarrow> set_error UserNotExist (set_error Success JNull)
      | Some u \<Rightarrow> set_user_members u (set_error Success JNull))"

lemma returns_GetUser_name: "returns (dao_ready (Suc n)) (GetUser_name D name)"
  unfolding GetUser_name_def by (intro returns_or_fail ss_rules)

lemma SearchInfo_run:
  assumes R: "redis_documented (lib_redis E) view" "redis_up (redis_mgr s)" "view (redis_server (redis_mgr s)) = ks"
    and name: "field_str (lib_json E) (snd (jparse (lib_json E) msg_data)) ''uid'' = Some name" "no_nul name"
      "\<And>v. no_nul (toStyledString (lib_json E) v)"
    and missing: "ks (USER_BASE_INFO @ name) = None"
    and db: "GetUser_name (lib_mysql E) name (mysql_mgr s) = (Val found, m)"
    and session: "session_objs s sid = Some c" "has_room 1 c"
    and short: "length (toStyledString (lib_json E) (search_reply found)) \<le> 32763"
  obtains t d where "SearchInfoHandler E sid msg_data s = (Val (), t)" "session_objs t = (session_objs s)(sid \<mapsto> d)"
    "outbox d = outbox c @ [frame (msg_id ID_SEARCH_USER_RSP) (toStyledString (lib_json E) (search_reply found))]"
    "mysql_mgr t = m" "GetSession t = GetSession s"
    "view (redis_server (redis_mgr t)) = (case found of None \<Rightarrow> ks
       | Some u \<Rightarrow> ks(USER_BASE_INFO @ name \<mapsto> VStr (toStyledString (lib_json E) (base_info_json (u_uid u) u))))"
proof -
  let ?k = "USER_BASE_INFO @ name"
  have k: "no_nul ?k" using name(2) by simp
  obtain s1 where s1: "redis_op (redis_get (lib_redis E) ?k []) s = (Val (False, []), s1)" "redis_up (redis_mgr s1)"
      "view (redis_server (redis_mgr s1)) = ks" "same_but_redis s s1"
    using redis_op_does [OF does_get_missing [OF R(1,2) k missing [folded R(3)]]] unfolding R(3) by blast
  note e1 = same_but_redisD [OF s1(4)]
  have q: "mysql_op (GetUser_name (lib_mysql E) name) s1 = (Val found, s1\<lparr>mysql_mgr := m\<rparr>)"
    using db by (intro mysql_op_run) (simp add: e1)
  obtain s3 where s3: "GetUserByName E name (s, JNull) = (Val (), (s3, search_reply found))" "session_objs s3 = session_objs s"
      "mysql_mgr s3 = m" "GetSession s3 = GetSession s" "view (redis_server (redis_mgr s3)) = (case found of None \<Rightarrow> ks
       | Some u \<Rightarrow> ks(?k \<mapsto> VStr (toStyledString (lib_json E) (base_info_json (u_uid u) u))))"
  proof (cases found)
    case None
    have "GetUserByName E name (s, JNull) = (Val (), (s1\<lparr>mysql_mgr := m\<rparr>, search_reply found))"
      by (simp add: GetUserByName_def Let_def bnd_def outer_pair s1(1) MySQLManager_defs q local_upd_def upd_def search_reply_def None)
    with that show thesis by (simp add: None e1 s1(3) GetSession_def fun_eq_iff)
  next
    case (Some u)
    let ?text = "toStyledString (lib_json E) (base_info_json (u_uid u) u)"
    have up: "redis_up (redis_mgr (s1\<lparr>mysql_mgr := m\<rparr>))" using s1(2) by simp
    obtain s3 where s3: "redis_op (redis_set (lib_redis E) ?k ?text) (s1\<lparr>mysql_mgr := m\<rparr>) = (Val True, s3)"
        "view (redis_server (redis_mgr s3)) = (view (redis_server (redis_mgr (s1\<lparr>mysql_mgr := m\<rparr>))))(?k \<mapsto> VStr ?text)"
        "same_but_redis (s1\<lparr>mysql_mgr := m\<rparr>) s3"
      using redis_op_does [OF does_set [OF R(1) up k name(3)]] by metis
    have "GetUserByName E name (s, JNull) = (Val (), (s3, search_reply found))"
      by (simp add: GetUserByName_def Let_def bnd_def outer_pair s1(1) MySQLManager_defs q s3(1) local_upd_def upd_def search_reply_def Some)
    with that show thesis by (simp add: Some e1 s1(3) s3(2) same_but_redisD [OF s3(3)] GetSession_def fun_eq_iff)
  qed
  have "session_objs s3 sid = Some c" "has_room (Suc 0) c" using session by (simp_all add: s3(2))
  from session_send_outbox [OF this(1) short this(2)]
  obtain d t where t: "session_send sid (toStyledString (lib_json E) (search_reply found)) ID_SEARCH_USER_RSP s3 = (Val (), t)"
      "session_objs t = (session_objs s3)(sid \<mapsto> d)" "same_but_sessions s3 t"
      "outbox d = outbox c @ [frame (msg_id ID_SEARCH_USER_RSP) (toStyledString (lib_json E) (search_reply found))]" by metis
  have "SearchInfoHandler E sid msg_data s = (Val (), t)"
    using with_defer_reply [where body = "GetUserByName E name", OF s3(1) t(1)]
    by (simp add: SearchInfoHandler_def json_str_def from_option_def name(1))
  then show thesis by (rule that) (use t s3 in \<open>simp_all add: same_but_sessionsD [OF t(3)]\<close>)
qed

section \<open>Friend requests\<close>

text \<open>What the other user is told about a request, and the reply to the one who made it.\<close>

definition request_note :: "int \<Rightarrow> string \<Rightarrow> UserInfo \<Rightarrow> json" where
  "request_note uid applyname u =
     JObj [(''error'', JInt 0), (''applyuid'', JInt uid), (''name'', JStr applyname), (''desc'', JStr []), (''icon'', JStr (u_icon u)),
       (''sex'', JInt (u_sex u)), (''nick'', JStr (u_nick u))]"

definition success_reply :: json where
  "success_reply = JObj [(''error'', JInt 0)]"

lemma request_note_built:
  "jset ''nick'' (JStr (u_nick u)) (jset ''sex'' (JInt (u_sex u)) (jset ''icon'' (JStr (u_icon u))
     (jset ''desc'' (JStr []) (jset ''name'' (JStr applyname) (jset ''applyuid'' (JInt uid) (set_error Success JNull)))))) =
   request_note uid applyname u"
  by (simp add: request_note_def set_error_def)

lemma success_reply_built: "set_error Success JNull = success_reply"
  by (simp add: success_reply_def set_error_def)

lemma returns_AddFriendApply: "returns (dao_ready (Suc n)) (dao_AddFriendApply D a z)"
  unfolding dao_AddFriendApply_def by (intro returns_or_fail ss_rules)

text \<open>
  A friend request to a user of the same server: the request of \<open>uid\<close> (whose record is cached) for
  \<open>touid\<close>, with the session of \<open>touid\<close>.
\<close>

definition friend_ready :: "('r, 'm, 'g) chat_env \<Rightarrow> ('r \<Rightarrow> keyspace) \<Rightarrow> keyspace \<Rightarrow> int \<Rightarrow> UserInfo \<Rightarrow> ('r, 'm, 'g) chat_server \<Rightarrow> bool" where
  "friend_ready E view ks uid u s \<longleftrightarrow>
     redis_documented (lib_redis E) view \<and> redis_up (redis_mgr s) \<and> view (redis_server (redis_mgr s)) = ks \<and>
     (\<exists>info. ks (USER_BASE_INFO @ to_string uid) = Some (VStr info) \<and> no_nul info \<and>
        shows_user (lib_json E) (snd (jparse (lib_json E) info)) u)"

lemma friend_ready_lookup:
  assumes "friend_ready E view ks uid u s"
  obtains t where "GetBaseInfo E uid new_UserInfo s = (Val (True, u), t)" "redis_up (redis_mgr t)"
    "view (redis_server (redis_mgr t)) = ks" "same_but_redis s t"
proof -
  obtain info where i: "redis_documented (lib_redis E) view" "redis_up (redis_mgr s)"
      "view (redis_server (redis_mgr s)) (USER_BASE_INFO @ to_string uid) = Some (VStr info)" "no_nul info"
      "shows_user (lib_json E) (snd (jparse (lib_json E) info)) u" and ks: "view (redis_server (redis_mgr s)) = ks"
    using assms by (auto simp: friend_ready_def)
  show thesis by (rule GetBaseInfo_hit [OF i]) (rule that, simp_all add: ks)
qed

lemma friend_ready_cong:
  "friend_ready E view ks uid u s \<Longrightarrow> redis_up (redis_mgr t) \<Longrightarrow> view (redis_server (redis_mgr t)) = ks \<Longrightarrow> friend_ready E view ks uid u t"
  by (simp add: friend_ready_def)

text \<open>Redis records this server for the other user, who has a session here beside the session of the request.\<close>

definition same_server :: "('r, 'm, 'g) chat_env \<Rightarrow> keyspace \<Rightarrow> int \<Rightarrow> string \<Rightarrow> CSession \<Rightarrow> string \<Rightarrow> CSession \<Rightarrow>
    ('r, 'm, 'g) chat_server \<Rightarrow> bool" where
  "same_server E ks touid sid c sid' c' s \<longleftrightarrow>
     ks (USERIPPREFIX @ to_string touid) = Some (VStr (self_server_name E)) \<and> no_nul (self_server_name E) \<and>
     GetSession s touid = Some sid' \<and> session_objs s sid = Some c \<and> session_objs s sid' = Some c' \<and> sid \<noteq> sid' \<and>
     has_room 1 c \<and> has_room 1 c'"

lemma same_serverD:
  assumes "same_server E ks touid sid c sid' c' s"
  shows "ks (USERIPPREFIX @ to_string touid) = Some (VStr (self_server_name E))" "no_nul (self_server_name E)"
    "GetSession s touid = Some sid'" "session_objs s sid = Some c" "session_objs s sid' = Some c'" "sid \<noteq> sid'"
    "has_room 1 c" "has_room 1 c'"
  using assms by (simp_all add: same_server_def)

text \<open>
  A friend request on one server: it is handed to the database, the other user is told who asks, with
  the picture, sex and nick name of the asking user's record, and the asking user gets the
  reply with error code Success; no other session and no binding changes.
\<close>

lemma friend_request_delivered:
  assumes msg: "field_int (lib_json E) (snd (jparse (lib_json E) msg_data)) ''uid'' = Some uid"
      "field_str (lib_json E) (snd (jparse (lib_json E) msg_data)) ''applyname'' = Some applyname"
      "field_str (lib_json E) (snd (jparse (lib_json E) msg_data)) ''bakname'' = Some bakname"
      "field_int (lib_json E) (snd (jparse (lib_json E) msg_data)) ''touid'' = Some touid"
    and ready: "friend_ready E view ks uid u s" "dao_ready 1 (mysql_mgr s)"
    and near: "same_server E ks touid sid c sid' c' s"
    and short: "length (toStyledString (lib_json E) (request_note uid applyname u)) \<le> 32763"
      "length (toStyledString (lib_json E) success_reply) \<le> 32763"
  shows "\<exists>t d d' b. AddFriendApplyHandler E sid msg_data s = (Val (), t) \<and>
     session_objs t = (session_objs s)(sid \<mapsto> d, sid' \<mapsto> d') \<and> GetSession t = GetSession s \<and>
     outbox d' = outbox c' @ [frame (msg_id ID_NOTIFY_ADD_FRIEND_REQ) (toStyledString (lib_json E) (request_note uid applyname u))] \<and>
     outbox d = outbox c @ [frame (msg_id ID_ADD_FRIEND_RSP) (toStyledString (lib_json E) success_reply)] \<and>
     MySQLManager_AddFriendApply (lib_mysql E) uid touid (mysql_mgr s) = (Val b, mysql_mgr t)"
proof -
  note to = same_serverD(1-3) [OF near] and sessions = same_serverD(4-8) [OF near]
  have "dao_ready (Suc 0) (mysql_mgr s)" using ready(2) by simp
  then obtain b s1 where s1: "mysql_op (dao_AddFriendApply (lib_mysql E) uid touid) s = (Val b, s1)"
      "dao_AddFriendApply (lib_mysql E) uid touid (mysql_mgr s) = (Val b, mysql_mgr s1)" "same_but_mysql s s1"
    by (metis mysql_op_returns [OF returns_AddFriendApply [of 0]])
  note e1 = same_but_mysqlD [OF s1(3)]
  have R: "redis_documented (lib_redis E) view" "redis_up (redis_mgr s1)"
      "view (redis_server (redis_mgr s1)) (USERIPPREFIX @ to_string touid) = Some (VStr (self_server_name E))"
    using ready(1) to(1) by (simp_all add: friend_ready_def e1)
  obtain s2 where s2: "server_of_user E touid s1 = (Val (True, self_server_name E), s2)" "redis_up (redis_mgr s2)"
      "view (redis_server (redis_mgr s2)) = view (redis_server (redis_mgr s1))" "same_but_redis s1 s2"
    using server_of_user_known [OF R to(2)] by metis
  note e2 = same_but_redisD [OF s2(4)]
  have "friend_ready E view ks uid u s2"
    using ready(1) s2(2,3) by (auto simp: e1 intro!: friend_ready_cong [OF ready(1)]) (simp add: friend_ready_def)
  then obtain s3 where s3: "GetBaseInfo E uid new_UserInfo s2 = (Val (True, u), s3)" "same_but_redis s2 s3"
    by (metis friend_ready_lookup)
  note e3 = same_but_redisD [OF s3(2)]
  have "session_objs s3 sid = Some c" "session_objs s3 sid' = Some c'" using sessions by (simp_all add: e3 e2 e1)
  from notify_and_reply [OF this sessions(3-5) short]
  obtain s4 t d d' where
    send: "session_send sid' (toStyledString (lib_json E) (request_note uid applyname u)) ID_NOTIFY_ADD_FRIEND_REQ s3 = (Val (), s4)"
      "session_send sid (toStyledString (lib_json E) success_reply) ID_ADD_FRIEND_RSP s4 = (Val (), t)"
    and t: "session_objs t = (session_objs s3)(sid \<mapsto> d, sid' \<mapsto> d')" "same_but_sessions s3 t"
      "outbox d' = outbox c' @ [frame (msg_id ID_NOTIFY_ADD_FRIEND_REQ) (toStyledString (lib_json E) (request_note uid applyname u))]"
      "outbox d = outbox c @ [frame (msg_id ID_ADD_FRIEND_RSP) (toStyledString (lib_json E) success_reply)]" by metis
  note et = same_but_sessionsD [OF t(2)]
  have "add_friend_body E uid applyname touid (s, success_reply) = (Val (), (s4, success_reply))"
    by (simp add: add_friend_body_def bnd_def outer_pair MySQLManager_defs s1(1) s2(1) s3(1) gets_def e1 e2 e3 to(3) send(1) request_note_built)
  then have run: "AddFriendApplyHandler E sid msg_data s = (Val (), t)"
    using with_defer_reply [where body = "add_friend_body E uid applyname touid", OF _ send(2)]
    by (simp add: AddFriendApplyHandler_def json_str_def json_int_def from_option_def msg success_reply_built)
  show ?thesis
    by (intro exI [of _ t] exI [of _ d] exI [of _ d'] exI [of _ b] conjI run)
      (simp_all add: t et e1 e2 e3 MySQLManager_defs s1(2))
qed

section \<open>Accepting a friend\<close>

text \<open>What the acceptor is answered and what the other user is told.\<close>

definition accept_reply :: "int \<Rightarrow> UserInfo \<Rightarrow> json" where
  "accept_reply touid u =
     JObj [(''error'', JInt 0), (''name'', JStr (u_name u)), (''nick'', JStr (u_nick u)), (''icon'', JStr (u_icon u)),
       (''sex'', JInt (u_sex u)), (''uid'', JInt touid)]"

definition accept_note :: "int \<Rightarrow> int \<Rightarrow> UserInfo \<Rightarrow> json" where
  "accept_note fromuid touid u =
     JObj [(''error'', JInt 0), (''fromuid'', JInt fromuid), (''touid'', JInt touid), (''name'', JStr (u_name u)),
       (''nick'', JStr (u_nick u)), (''icon'', JStr (u_icon u)), (''sex'', JInt (u_sex u))]"

lemma accept_built:
  "jset ''uid'' (JInt touid) (jset ''sex'' (JInt (u_sex u)) (jset ''icon'' (JStr (u_icon u)) (jset ''nick'' (JStr (u_nick u))
     (jset ''name'' (JStr (u_name u)) success_reply)))) = accept_reply touid u"
  "jset ''sex'' (JInt (u_sex v)) (jset ''icon'' (JStr (u_icon v)) (jset ''nick'' (JStr (u_nick v)) (jset ''name'' (JStr (u_name v))
     (jset ''touid'' (JInt touid) (jset ''fromuid'' (JInt fromuid) (set_error Success JNull)))))) = accept_note fromuid touid v"
  by (simp_all add: accept_reply_def accept_note_def success_reply_def set_error_def)

text \<open>
  What every acceptance begins with: the record of the other user is looked up, the request is marked
  and the two rows of the friendship are inserted, whatever becomes of the notification.
\<close>

definition accept_ready :: "('r, 'm, 'g) chat_env \<Rightarrow> ('r \<Rightarrow> keyspace) \<Rightarrow> keyspace \<Rightarrow> string \<Rightarrow> int \<Rightarrow> string \<Rightarrow> int \<Rightarrow>
    UserInfo \<Rightarrow> ('r, 'm, 'g) chat_server \<Rightarrow> 'm MySQLDao \<Rightarrow> bool" where
  "accept_ready E view ks msg_data fromuid back_name touid u s m \<longleftrightarrow>
     (let root = snd (jparse (lib_json E) msg_data) in
      field_int (lib_json E) root ''fromuid'' = Some fromuid \<and> field_str (lib_json E) root ''back_name'' = Some back_name \<and>
      field_int (lib_json E) root ''touid'' = Some touid \<and> field_str (lib_json E) root ''apply_name'' \<noteq> None) \<and>
     friend_ready E view ks touid u s \<and>
     (\<exists>b m1 added. MySQLManager_AuthFriendApply (lib_mysql E) fromuid touid (mysql_mgr s) = (Val b, m1) \<and>
        MySQLManager_AddFriend (lib_mysql E) fromuid touid back_name m1 = (Val added, m))"

definition tell_acceptance :: "('r, 'm, 'g) chat_env \<Rightarrow> int \<Rightarrow> int \<Rightarrow> (('r, 'm, 'g) chat_server \<times> json, unit) prog" where
  "tell_acceptance E fromuid touid =
     bnd (outer (server_of_user E touid)) (\<lambda>(b_ip, to_ip_value).
       if \<not> b_ip then local_upd (set_error UidInvalid)
       else if to_ip_value = self_server_name E then
         bnd (gets (\<lambda>(s, _). GetSession s touid)) (\<lambda>to_session.
         case to_session of
           None \<Rightarrow> local_upd (set_error UidInvalid)
         | Some sid \<Rightarrow>
             let notify = jset ''touid'' (JInt touid) (jset ''fromuid'' (JInt fromuid) (set_error Success JNull)) in
             bnd (outer (GetBaseInfo E fromuid new_UserInfo)) (\<lambda>(b_info, apply_info).
             let notify = (if b_info then
                  jset ''sex'' (JInt (u_sex apply_info)) (jset ''icon'' (JStr (u_icon apply_info)) (
                  jset ''nick'' (JStr (u_nick apply_info)) (jset ''name'' (JStr (u_name apply_info)) notify)))
                else set_error UidInvalid notify) in
             outer (session_send sid (toStyledString (lib_json E) notify) ID_NOTIFY_AUTH_FRIEND_REQ)))
       else bnd (outer (ChatGrpcClient_NotifyAuthFriend E to_ip_value \<lparr>au_fromuid = fromuid, au_touid = touid\<rparr>)) (\<lambda>_. ret ()))"

lemma accept_stored:
  assumes "accept_ready E view ks msg_data fromuid back_name touid u s m"
  obtains s3 where "redis_up (redis_mgr s3)" "view (redis_server (redis_mgr s3)) = ks" "mysql_mgr s3 = m"
    "session_objs s3 = session_objs s" "GetSession s3 = GetSession s" "rpc_peers s3 = rpc_peers s"
    "auth_friend_body E fromuid back_name touid (s, success_reply) =
      tell_acceptance E fromuid touid (s3, accept_reply touid u)"
proof -
  obtain b m1 added where r: "friend_ready E view ks touid u s"
      "MySQLManager_AuthFriendApply (lib_mysql E) fromuid touid (mysql_mgr s) = (Val b, m1)"
      "MySQLManager_AddFriend (lib_mysql E) fromuid touid back_name m1 = (Val added, m)"
    using assms by (auto simp: accept_ready_def)
  obtain s1 where s1: "GetBaseInfo E touid new_UserInfo s = (Val (True, u), s1)" "redis_up (redis_mgr s1)"
      "view (redis_server (redis_mgr s1)) = ks" "same_but_redis s s1"
    using friend_ready_lookup [OF r(1)] .
  note e1 = same_but_redisD [OF s1(4)]
  have q1: "mysql_op (MySQLManager_AuthFriendApply (lib_mysql E) fromuid touid) s1 = (Val b, s1\<lparr>mysql_mgr := m1\<rparr>)"
    by (rule mysql_op_run) (simp add: e1 r(2))
  have q2: "mysql_op (MySQLManager_AddFriend (lib_mysql E) fromuid touid back_name) (s1\<lparr>mysql_mgr := m1\<rparr>) =
      (Val added, s1\<lparr>mysql_mgr := m\<rparr>)"
    using mysql_op_run [where s = "s1\<lparr>mysql_mgr := m1\<rparr>"] r(3) by fastforce
  show thesis
    by (rule that [of "s1\<lparr>mysql_mgr := m\<rparr>"], unfold auth_friend_body_def tell_acceptance_def)
      (simp_all add: s1(2,3) e1 GetSession_def fun_eq_iff bnd_assoc outer_pair s1(1) q1 q2 bnd_def local_upd_def upd_def accept_built(1))
qed

lemma accept_handler:
  assumes "accept_ready E view ks msg_data fromuid back_name touid u s m"
    and "auth_friend_body E fromuid back_name touid (s, success_reply) = (Val (), (s', rt))"
    and "session_send sid (toStyledString (lib_json E) rt) ID_AUTH_FRIEND_RSP s' = (Val (), t)"
  shows "AuthFriendApplyHandler E sid msg_data s = (Val (), t)"
  using assms(1) with_defer_reply [where body = "auth_friend_body E fromuid back_name touid", OF assms(2,3)]
  by (auto simp: AuthFriendApplyHandler_def accept_ready_def Let_def json_int_def json_str_def from_option_def success_reply_built)

text \<open>
  Accepting a friend on one server: the request is marked and the friendship inserted, the acceptor is
  answered with the record of the other user, and the other user is told the acceptor's.
  The result of the insertion is not looked at: the answer is the same when it failed.
\<close>

lemma friend_acceptance_delivered:
  assumes ready: "accept_ready E view ks msg_data fromuid back_name touid u s m" "friend_ready E view ks fromuid v s"
    and near: "same_server E ks touid sid c sid' c' s"
    and short: "length (toStyledString (lib_json E) (accept_note fromuid touid v)) \<le> 32763"
      "length (toStyledString (lib_json E) (accept_reply touid u)) \<le> 32763"
  shows "\<exists>t d d'. AuthFriendApplyHandler E sid msg_data s = (Val (), t) \<and> mysql_mgr t = m \<and>
     session_objs t = (session_objs s)(sid \<mapsto> d, sid' \<mapsto> d') \<and> GetSession t = GetSession s \<and>
     outbox d' = outbox c' @ [frame (msg_id ID_NOTIFY_AUTH_FRIEND_REQ) (toStyledString (lib_json E) (accept_note fromuid touid v))] \<and>
     outbox d = outbox c @ [frame (msg_id ID_AUTH_FRIEND_RSP) (toStyledString (lib_json E) (accept_reply touid u))]"
proof -
  note to = same_serverD(1-3) [OF near] and sessions = same_serverD(4-8) [OF near]
  obtain s3 where s3: "redis_up (redis_mgr s3)" "view (redis_server (redis_mgr s3)) = ks" "mysql_mgr s3 = m"
      "session_objs s3 = session_objs s" "GetSession s3 = GetSession s"
    and body: "auth_friend_body E fromuid back_name touid (s, success_reply) =
      tell_acceptance E fromuid touid (s3, accept_reply touid u)"
    by (rule accept_stored [OF ready(1)])
  have R: "redis_documented (lib_redis E) view"
      "view (redis_server (redis_mgr s3)) (USERIPPREFIX @ to_string touid) = Some (VStr (self_server_name E))"
    using ready(2) to(1) s3(2) by (simp_all add: friend_ready_def)
  obtain s4 where s4: "server_of_user E touid s3 = (Val (True, self_server_name E), s4)" "redis_up (redis_mgr s4)"
      "view (redis_server (redis_mgr s4)) = ks" "same_but_redis s3 s4"
    using server_of_user_known [OF R(1) s3(1) R(2) to(2)] s3(2) by metis
  note e4 = same_but_redisD [OF s4(4)]
  obtain s5 where s5: "GetBaseInfo E fromuid new_UserInfo s4 = (Val (True, v), s5)" "same_but_redis s4 s5"
    using friend_ready_lookup [OF friend_ready_cong [OF ready(2) s4(2,3)]] by metis
  note e5 = same_but_redisD [OF s5(2)]
  have "session_objs s5 sid = Some c" "session_objs s5 sid' = Some c'" using sessions by (simp_all add: e5 e4 s3(4))
  from notify_and_reply [OF this sessions(3-5) short]
  obtain s6 t d d' where
    send: "session_send sid' (toStyledString (lib_json E) (accept_note fromuid touid v)) ID_NOTIFY_AUTH_FRIEND_REQ s5 = (Val (), s6)"
      "session_send sid (toStyledString (lib_json E) (accept_reply touid u)) ID_AUTH_FRIEND_RSP s6 = (Val (), t)"
    and t: "session_objs t = (session_objs s5)(sid \<mapsto> d, sid' \<mapsto> d')" "same_but_sessions s5 t"
      "outbox d' = outbox c' @ [frame (msg_id ID_NOTIFY_AUTH_FRIEND_REQ) (toStyledString (lib_json E) (accept_note fromuid touid v))]"
      "outbox d = outbox c @ [frame (msg_id ID_AUTH_FRIEND_RSP) (toStyledString (lib_json E) (accept_reply touid u))]" by metis
  have "auth_friend_body E fromuid back_name touid (s, success_reply) = (Val (), (s6, accept_reply touid u))"
    unfolding body by (simp add: tell_acceptance_def Let_def bnd_def outer_pair s4(1) gets_def e4 s3(5) to(3) s5(1) send(1) accept_built(2))
  then have run: "AuthFriendApplyHandler E sid msg_data s = (Val (), t)" by (rule accept_handler [OF ready(1) _ send(2)])
  show ?thesis
    by (intro exI [of _ t] exI [of _ d] exI [of _ d'] conjI run) (simp_all add: t same_but_sessionsD [OF t(2)] e5 e4 s3)
qed

text \<open>
  Accepting a user who is not logged in: the friendship is inserted all the same, but the
  acceptor is answered with error code UidInvalid and nobody is told.
\<close>

lemma acceptance_of_offline_user:
  assumes ready: "accept_ready E view ks msg_data fromuid back_name touid u s m"
    and to: "ks (USERIPPREFIX @ to_string touid) = None"
    and session: "session_objs s sid = Some c" "has_room 1 c"
    and short: "length (toStyledString (lib_json E) (set_error UidInvalid (accept_reply touid u))) \<le> 32763"
  shows "\<exists>t d. AuthFriendApplyHandler E sid msg_data s = (Val (), t) \<and> mysql_mgr t = m \<and>
     session_objs t = (session_objs s)(sid \<mapsto> d) \<and> rpc_peers t = rpc_peers s \<and>
     outbox d = outbox c @ [frame (msg_id ID_AUTH_FRIEND_RSP) (toStyledString (lib_json E) (set_error UidInvalid (accept_reply touid u)))]"
proof -
  obtain s3 where s3: "redis_up (redis_mgr s3)" "view (redis_server (redis_mgr s3)) = ks" "mysql_mgr s3 = m"
      "session_objs s3 = session_objs s" "GetSession s3 = GetSession s" "rpc_peers s3 = rpc_peers s"
    and body: "\<And>s4. server_of_user E touid s3 = (Val (False, []), s4) \<Longrightarrow> auth_friend_body E fromuid back_name touid (s, success_reply) =
      (Val (), (s4, set_error UidInvalid (accept_reply touid u)))"
    by (rule accept_stored [OF ready]) (simp add: tell_acceptance_def bnd_def outer_pair local_upd_def upd_def)
  have R: "redis_documented (lib_redis E) view" "view (redis_server (redis_mgr s3)) (USERIPPREFIX @ to_string touid) = None"
    using ready to s3(2) by (simp_all add: accept_ready_def friend_ready_def)
  obtain s4 where s4: "server_of_user E touid s3 = (Val (False, []), s4)" "same_but_redis s3 s4"
    using server_of_user_unknown [OF R(1) s3(1) R(2)] by metis
  note e4 = same_but_redisD [OF s4(2)]
  have "session_objs s4 sid = Some c" "has_room (Suc 0) c" using session by (simp_all add: e4 s3(4))
  from session_send_outbox [OF this(1) short this(2)]
  obtain d t where t: "session_send sid (toStyledString (lib_json E) (set_error UidInvalid (accept_reply touid u))) ID_AUTH_FRIEND_RSP s4 = (Val (), t)"
      "session_objs t = (session_objs s4)(sid \<mapsto> d)" "same_but_sessions s4 t"
      "outbox d = outbox c @ [frame (msg_id ID_AUTH_FRIEND_RSP) (toStyledString (lib_json E) (set_error UidInvalid (accept_reply touid u)))]"
    by metis
  have run: "AuthFriendApplyHandler E sid msg_data s = (Val (), t)" by (rule accept_handler [OF ready body [OF s4(1)] t(1)])
  show ?thesis
    by (intro exI [of _ t] exI [of _ d] conjI run) (simp_all add: t(2,4) same_but_sessionsD [OF t(3)] e4 s3)
qed

end
