(* ===== verification/ClientView.thy ===== *)
theory ClientView
  imports Prelude
begin

text \<open>
  The list of chat bubbles in the client: \<open>gui/chats/chat_view.cpp\<close> with the selection state of its items
  (\<open>gui/chats/chat_item_base.cpp\<close>). Layout, painting and icons are left out; an item is its identifier,
  its role, what its bubble shows and whether it is selected.
\<close>

section \<open>State\<close>

datatype ChatRole = Self | Other

text \<open>\<open>MsgInfo\<close> of \<open>core/global.h\<close> without the pixmap; the flag is text, image or emotion.\<close>

record MsgInfo =
  msgFlag :: string
  msg_body :: string

datatype bubble = ContentBubble "MsgInfo list" | PictureBubble string

record ChatItemBase =
  ci_uuid :: string
  ci_role :: ChatRole
  ci_bubble :: bubble
  ci_selected :: bool
  ci_connected :: bool      \<comment> \<open>its signals are connected to the view\<close>

text \<open>
  \<open>m_chatItems\<close>; the widgets of the scroll area from top to bottom, without the stretch widget at the
  end; \<open>m_selectedItems\<close>, in the order of insertion (a \<open>QSet\<close> promises no order).
\<close>

record ChatView =
  chatItems :: "string \<rightharpoonup> ChatItemBase"
  vlayout :: "string list"
  selectedItems :: "string list"
  selectionMode :: bool
  isAppended :: bool

definition new_ChatView :: ChatView where
  "new_ChatView = \<lparr>chatItems = Map.empty, vlayout = [], selectedItems = [], selectionMode = False, isAppended = False\<rparr>"

definition new_ChatItem :: "ChatRole \<Rightarrow> string \<Rightarrow> bubble \<Rightarrow> ChatItemBase" where
  "new_ChatItem role uuid b = \<lparr>ci_uuid = uuid, ci_role = role, ci_bubble = b, ci_selected = False, ci_connected = False\<rparr>"

section \<open>Items\<close>

text \<open>
  \<open>m_chatItems.insert\<close> and the three connections. An item that was stored under the same identifier
  is destroyed, and a destroyed widget leaves its layout.
\<close>

definition store_item :: "ChatItemBase \<Rightarrow> ChatView \<Rightarrow> ChatView" where
  "store_item item v = v\<lparr>chatItems := (chatItems v)(ci_uuid item \<mapsto> item\<lparr>ci_connected := True\<rparr>),
     vlayout := filter (\<lambda>u. u \<noteq> ci_uuid item) (vlayout v)\<rparr>"

definition appendChatItem :: "ChatItemBase option \<Rightarrow> ChatView \<Rightarrow> ChatView" where
  "appendChatItem x v =
     (case x of None \<Rightarrow> v
      | Some item \<Rightarrow> let w = store_item item v in w\<lparr>vlayout := vlayout w @ [ci_uuid item], isAppended := True\<rparr>)"

definition prependChatItem :: "ChatItemBase option \<Rightarrow> ChatView \<Rightarrow> ChatView" where
  "prependChatItem x v =
     (case x of None \<Rightarrow> v
      | Some item \<Rightarrow> let w = store_item item v in w\<lparr>vlayout := ci_uuid item # vlayout w, isAppended := True\<rparr>)"

fun insert_before :: "'a \<Rightarrow> 'a \<Rightarrow> 'a list \<Rightarrow> 'a list" where
  "insert_before b x [] = []"
| "insert_before b x (y # ys) = (if y = b then x # y # ys else y # insert_before b x ys)"

definition insertChatItem :: "ChatItemBase option \<Rightarrow> ChatItemBase option \<Rightarrow> ChatView \<Rightarrow> ChatView" where
  "insertChatItem x y v =
     (case (x, y) of
        (Some before, Some item) \<Rightarrow>
          let w = store_item item v in
          if ci_uuid before \<notin> set (vlayout w) then w
          else w\<lparr>vlayout := insert_before (ci_uuid before) (ci_uuid item) (vlayout w), isAppended := True\<rparr>
      | _ \<Rightarrow> v)"

text \<open>\<open>m_chatItems.clear()\<close> destroys the items.\<close>

definition removeAllItem :: "ChatView \<Rightarrow> ChatView" where
  "removeAllItem v = v\<lparr>chatItems := Map.empty, vlayout := filter (\<lambda>u. chatItems v u = None) (vlayout v)\<rparr>"

definition getChatItemCount :: "ChatView \<Rightarrow> nat" where
  "getChatItemCount v = card (dom (chatItems v))"

section \<open>Selection\<close>

definition onItemSelectionChanged :: "string \<Rightarrow> bool \<Rightarrow> ChatView \<Rightarrow> ChatView" where
  "onItemSelectionChanged uuid selected v =
     (let w = v\<lparr>selectedItems := if selected then List.insert uuid (selectedItems v) else removeAll uuid (selectedItems v)\<rparr> in
      w\<lparr>selectionMode := (selectedItems w \<noteq> [])\<rparr>)"

text \<open>\<open>ChatItemBase::setSelected\<close> on an item of the view, with the signal it emits.\<close>

definition setSelected :: "bool \<Rightarrow> string \<Rightarrow> ChatView \<Rightarrow> ChatView" where
  "setSelected selected uuid v =
     (case chatItems v uuid of
        None \<Rightarrow> v
      | Some item \<Rightarrow>
          let now = (if ci_selected item \<noteq> selected then selected else False);
              w = v\<lparr>chatItems := (chatItems v)(uuid \<mapsto> item\<lparr>ci_selected := now\<rparr>)\<rparr> in
          if ci_connected item then onItemSelectionChanged uuid now w else w)"

definition clearSelection :: "ChatView \<Rightarrow> ChatView" where
  "clearSelection v =
     (if dom (chatItems v) = {} \<or> selectedItems v = [] then v
      else (fold (setSelected False) (selectedItems v) v)\<lparr>selectedItems := [], selectionMode := False\<rparr>)"

definition setSelectionMode :: "bool \<Rightarrow> ChatView \<Rightarrow> ChatView" where
  "setSelectionMode enabled v =
     (let w = v\<lparr>selectionMode := enabled\<rparr> in if \<not> enabled then clearSelection w else w)"

definition onItemMultiSelectRequested :: "string \<Rightarrow> ChatView \<Rightarrow> ChatView" where
  "onItemMultiSelectRequested uuid v = v\<lparr>selectionMode := True, selectedItems := [uuid]\<rparr>"

definition onItemDeleteRequested :: "string \<Rightarrow> ChatView \<Rightarrow> ChatView" where
  "onItemDeleteRequested uuid v =
     (case chatItems v uuid of
        None \<Rightarrow> v
      | Some item \<Rightarrow> v\<lparr>chatItems := (chatItems v)(uuid \<mapsto> item\<lparr>ci_connected := False\<rparr>),
          vlayout := filter (\<lambda>u. u \<noteq> uuid) (vlayout v)\<rparr>)"

text \<open>The body of the loop: \<open>item->hide()\<close> on a null pointer when the identifier is not stored.\<close>

definition delete_item :: "string \<Rightarrow> (ChatView, unit) prog" where
  "delete_item uuid =
     bnd (gets (\<lambda>v. chatItems v uuid)) (\<lambda>x.
     case x of
       None \<Rightarrow> crash
     | Some item \<Rightarrow> upd (\<lambda>v. v\<lparr>vlayout := filter (\<lambda>u. u \<noteq> uuid) (vlayout v), chatItems := (chatItems v)(uuid := None)\<rparr>))"

definition deleteSelectedItems :: "(ChatView, unit) prog" where
  "deleteSelectedItems =
     bnd (gets selectedItems) (\<lambda>uuids.
     bnd (forM delete_item uuids) (\<lambda>_.
     upd (\<lambda>v. v\<lparr>selectedItems := [], selectionMode := False\<rparr>)))"

section \<open>Invariant\<close>

text \<open>
  What is on screen is stored, once each, under its own identifier; and what is selected is stored, so
  that it can be deleted.
\<close>

definition shown_ok :: "ChatView \<Rightarrow> bool" where
  "shown_ok v \<longleftrightarrow> distinct (vlayout v) \<and> (\<forall>u \<in> set (vlayout v). chatItems v u \<noteq> None) \<and>
     (\<forall>u item. chatItems v u = Some item \<longrightarrow> ci_uuid item = u) \<and> finite (dom (chatItems v))"

definition selection_ok :: "ChatView \<Rightarrow> bool" where
  "selection_ok v \<longleftrightarrow> distinct (selectedItems v) \<and> (\<forall>u \<in> set (selectedItems v). chatItems v u \<noteq> None)"

lemma set_insert_before: "b \<in> set xs \<Longrightarrow> set (insert_before b x xs) = insert x (set xs)"
  by (induction xs) auto

lemma distinct_insert_before: "b \<in> set xs \<Longrightarrow> x \<notin> set xs \<Longrightarrow> distinct xs \<Longrightarrow> distinct (insert_before b x xs)"
  by (induction xs) (auto simp: set_insert_before)

lemma shown_ok_insertions:
  assumes "shown_ok v"
  shows "shown_ok (appendChatItem x v)" "shown_ok (prependChatItem x v)" "shown_ok (insertChatItem b x v)"
  using assms
  by (auto simp: shown_ok_def appendChatItem_def prependChatItem_def insertChatItem_def store_item_def Let_def
      set_insert_before distinct_insert_before split: option.splits if_splits)

lemma selection_ok_insertions:
  assumes "selection_ok v"
  shows "selection_ok (appendChatItem x v)" "selection_ok (prependChatItem x v)" "selection_ok (insertChatItem b x v)"
  using assms
  by (auto simp: selection_ok_def appendChatItem_def prependChatItem_def insertChatItem_def store_item_def Let_def split: option.splits)

lemma view_ok_setSelected:
  "shown_ok v \<Longrightarrow> shown_ok (setSelected b u v)" "selection_ok v \<Longrightarrow> selection_ok (setSelected b u v)"
  by (auto simp: shown_ok_def selection_ok_def setSelected_def onItemSelectionChanged_def Let_def distinct_removeAll split: option.splits)

lemma view_ok_clearSelection:
  assumes "shown_ok v"
  shows "shown_ok (clearSelection v)" and "selection_ok v \<Longrightarrow> selection_ok (clearSelection v)"
proof -
  have "shown_ok (fold (setSelected False) us v)" for us
    using assms by (induction us arbitrary: v) (simp_all add: view_ok_setSelected)
  then show "shown_ok (clearSelection v)" "selection_ok v \<Longrightarrow> selection_ok (clearSelection v)"
    using assms by (auto simp: clearSelection_def shown_ok_def selection_ok_def)
qed

lemma view_ok_delete_request:
  "shown_ok v \<Longrightarrow> shown_ok (onItemDeleteRequested u v)" "selection_ok v \<Longrightarrow> selection_ok (onItemDeleteRequested u v)"
  by (auto simp: shown_ok_def selection_ok_def onItemDeleteRequested_def split: option.splits)

lemma shown_ok_removeAllItem: "shown_ok v \<Longrightarrow> shown_ok (removeAllItem v) \<and> vlayout (removeAllItem v) = []"
  by (auto simp: shown_ok_def removeAllItem_def)

section \<open>Deleting the selection\<close>

lemma delete_items_run:
  assumes "distinct us" and "\<forall>u \<in> set us. chatItems v u \<noteq> None"
  shows "forM delete_item us v =
    (Val (), v\<lparr>chatItems := chatItems v |` (- set us), vlayout := filter (\<lambda>u. u \<notin> set us) (vlayout v)\<rparr>)"
  using assms
proof (induction us arbitrary: v)
  case Nil
  then show ?case by (simp add: ret_def)
next
  case (Cons u us)
  let ?w = "v\<lparr>vlayout := filter (\<lambda>x. x \<noteq> u) (vlayout v), chatItems := (chatItems v)(u := None)\<rparr>"
  have "delete_item u v = (Val (), ?w)"
    using Cons.prems(2) by (auto simp: delete_item_def prog_defs)
  moreover have "forM delete_item us ?w =
      (Val (), ?w\<lparr>chatItems := chatItems ?w |` (- set us), vlayout := filter (\<lambda>x. x \<notin> set us) (vlayout ?w)\<rparr>)"
    using Cons.prems by (intro Cons.IH) auto
  moreover have "(chatItems v)(u := None) |` (- set us) = chatItems v |` (- set (u # us))"
    by (auto simp: fun_eq_iff restrict_map_def)
  ultimately show ?case by (simp add: bnd_def conj_commute)
qed

lemma delete_items_crash: "\<exists>u \<in> set us. chatItems v u = None \<Longrightarrow> fst (forM delete_item us v) = Crash"
proof (induction us arbitrary: v)
  case (Cons u us)
  show ?case
  proof (cases "chatItems v u")
    case None
    then show ?thesis by (simp add: delete_item_def prog_defs)
  next
    case (Some item)
    let ?w = "v\<lparr>vlayout := filter (\<lambda>x. x \<noteq> u) (vlayout v), chatItems := (chatItems v)(u := None)\<rparr>"
    have "\<exists>x \<in> set us. chatItems ?w x = None" using Cons.prems Some by auto
    from Cons.IH [OF this] Some show ?thesis by (simp add: delete_item_def prog_defs)
  qed
qed simp

text \<open>
  Deleting the selected messages: when every selected identifier is stored, \<open>deleteSelectedItems\<close>
  returns, exactly the selected items are gone from the store and from the screen, the others keep
  their order, and nothing is selected any more. A selected identifier that is not stored ends
  the client on a null pointer.
\<close>

theorem deleteSelectedItems_decides:
  assumes "shown_ok v" and "distinct (selectedItems v)"
  shows "if selection_ok v then
      deleteSelectedItems v = (Val (), v\<lparr>chatItems := chatItems v |` (- set (selectedItems v)),
        vlayout := filter (\<lambda>u. u \<notin> set (selectedItems v)) (vlayout v), selectedItems := [], selectionMode := False\<rparr>) \<and>
      shown_ok (snd (deleteSelectedItems v)) \<and> selection_ok (snd (deleteSelectedItems v))
    else fst (deleteSelectedItems v) = Crash"
proof (cases "selection_ok v")
  case True
  then have "deleteSelectedItems v = (Val (), v\<lparr>chatItems := chatItems v |` (- set (selectedItems v)),
      vlayout := filter (\<lambda>u. u \<notin> set (selectedItems v)) (vlayout v), selectedItems := [], selectionMode := False\<rparr>)"
    using assms(2) by (simp add: deleteSelectedItems_def selection_ok_def delete_items_run prog_defs)
  with True assms(1) show ?thesis
    by (auto simp: shown_ok_def selection_ok_def restrict_map_def split: if_splits intro: finite_subset [of _ "dom (chatItems v)"])
next
  case False
  then have "fst (forM delete_item (selectedItems v) v) = Crash"
    using assms(2) by (intro delete_items_crash) (auto simp: selection_ok_def)
  with False show ?thesis
    by (cases "forM delete_item (selectedItems v) v") (simp add: deleteSelectedItems_def prog_defs)
qed

definition demo_view :: ChatView where
  "demo_view = onItemMultiSelectRequested ''b'' (fold (\<lambda>u. appendChatItem (Some (new_ChatItem Other u (ContentBubble [])))) [''a'', ''b'', ''c''] new_ChatView)"

lemmas view_ops = appendChatItem_def store_item_def new_ChatItem_def onItemMultiSelectRequested_def new_ChatView_def Let_def

theorem deleteSelectedItems_decides_witness:
  "shown_ok demo_view \<and> selection_ok demo_view \<and> vlayout (snd (deleteSelectedItems demo_view)) = [''a'', ''c''] \<and>
   fst (deleteSelectedItems (removeAllItem demo_view)) = Crash"
proof -
  have s: "shown_ok demo_view" "selection_ok demo_view" "shown_ok (removeAllItem demo_view)" "\<not> selection_ok (removeAllItem demo_view)"
    by (simp_all add: shown_ok_def selection_ok_def demo_view_def view_ops removeAllItem_def)
  have d: "distinct (selectedItems demo_view)" "distinct (selectedItems (removeAllItem demo_view))"
      "filter (\<lambda>u. u \<notin> set (selectedItems demo_view)) (vlayout demo_view) = [''a'', ''c'']"
    by (simp_all add: demo_view_def view_ops removeAllItem_def)
  from deleteSelectedItems_decides [OF s(1) d(1)] deleteSelectedItems_decides [OF s(3) d(2)] s d(3) show ?thesis by simp
qed

text \<open>
  What the view shows stays consistent: every operation keeps the shown bubbles stored, once each
  and under their own identifiers; every operation but \<open>removeAllItem\<close> also keeps the selection among
  the stored items, and \<open>removeAllItem\<close> does so only when nothing is selected.
\<close>

theorem view_ok_kept:
  assumes "shown_ok v"
  shows "shown_ok (appendChatItem x v) \<and> shown_ok (prependChatItem x v) \<and> shown_ok (insertChatItem b x v) \<and>
      shown_ok (setSelected c u v) \<and> shown_ok (clearSelection v) \<and> shown_ok (setSelectionMode c v) \<and>
      shown_ok (onItemDeleteRequested u v) \<and> shown_ok (removeAllItem v) \<and>
    (selection_ok v \<longrightarrow> selection_ok (appendChatItem x v) \<and> selection_ok (prependChatItem x v) \<and>
      selection_ok (insertChatItem b x v) \<and> selection_ok (setSelected c u v) \<and> selection_ok (clearSelection v) \<and>
      selection_ok (setSelectionMode c v) \<and> selection_ok (onItemDeleteRequested u v) \<and>
      (selection_ok (removeAllItem v) \<longleftrightarrow> selectedItems v = []))"
proof -
  have m: "shown_ok (v\<lparr>selectionMode := d\<rparr>)" "selection_ok (v\<lparr>selectionMode := d\<rparr>) = selection_ok v" for d
    using assms by (simp_all add: shown_ok_def selection_ok_def)
  have "selection_ok v \<Longrightarrow> selection_ok (removeAllItem v) \<longleftrightarrow> selectedItems v = []"
    by (auto simp: selection_ok_def removeAllItem_def)
  then show ?thesis
    using assms m by (simp add: shown_ok_insertions selection_ok_insertions view_ok_setSelected view_ok_clearSelection
        view_ok_delete_request shown_ok_removeAllItem setSelectionMode_def Let_def)
qed

theorem view_ok_kept_witness:
  "selection_ok (setSelectionMode False demo_view) \<and> shown_ok (removeAllItem demo_view) \<and> \<not> selection_ok (removeAllItem demo_view)"
proof -
  have s: "shown_ok demo_view" "selection_ok demo_view" "selectedItems demo_view \<noteq> []"
    by (simp_all add: shown_ok_def selection_ok_def demo_view_def view_ops)
  from view_ok_kept [OF s(1)] s(2,3) show ?thesis by blast
qed

end
