(* ===== verification/ClientUserMgr.thy ===== *)
theory ClientUserMgr
  imports ChatData
begin

text \<open>
  The client's data: \<open>core/user/user_mgr.cpp\<close> with the records of \<open>core/user/user_data.h\<close>, and the two
  message handlers of the login window that fill it (\<open>gui/auth/login/login_gui.cpp\<close>).
\<close>

section \<open>Data\<close>

record TextChatData =
  t_msg_id :: string
  t_msg_content :: string
  t_from_uid :: int
  t_to_uid :: int
  t_send_time :: int
  t_msg_type :: int
  t_status :: int

record FriendInfo =
  f_uid :: int
  f_name :: string
  f_nick :: string
  f_icon :: string
  f_sex :: int
  f_desc :: string
  f_back :: string
  f_last_msg :: string
  f_last_msg_time :: int
  f_chat_msgs :: "TextChatData list"

text \<open>\<open>AuthInfo\<close> and \<open>AuthRsp\<close> have the same members.\<close>

record AuthInfo =
  ai_uid :: int
  ai_name :: string
  ai_nick :: string
  ai_icon :: string
  ai_sex :: int

record ClientApplyInfo =
  ca_uid :: int
  ca_name :: string
  ca_desc :: string
  ca_icon :: string
  ca_nick :: string
  ca_sex :: int
  ca_status :: int

record ClientUserInfo =
  cu_uid :: int
  cu_name :: string
  cu_nick :: string
  cu_icon :: string
  cu_sex :: int
  cu_last_msg :: string
  cu_last_msg_time :: int
  cu_chat_msgs :: "TextChatData list"

definition FriendInfo_of_auth :: "AuthInfo \<Rightarrow> FriendInfo" where
  "FriendInfo_of_auth auth = \<lparr>f_uid = ai_uid auth, f_name = ai_name auth, f_nick = ai_nick auth, f_icon = ai_icon auth,
     f_sex = ai_sex auth, f_desc = [], f_back = [], f_last_msg = [], f_last_msg_time = 0, f_chat_msgs = []\<rparr>"

definition AppendChatMsgs :: "TextChatData list \<Rightarrow> FriendInfo \<Rightarrow> FriendInfo" where
  "AppendChatMsgs text_vec =
     fold (\<lambda>txt f. f\<lparr>f_last_msg := t_msg_content txt, f_chat_msgs := f_chat_msgs f @ [txt]\<rparr>) text_vec"

text \<open>
  \<open>_friend_list\<close> and \<open>_friend_map\<close> hold shared pointers to the same objects, so the objects are kept in a
  store \<open>friend_objs\<close> by address. The other objects are values; the only later change to one of them, the
  picture of a request, is made in both containers (\<open>loadApplyList\<close>).
\<close>

record UserMgr =
  user_info :: "ClientUserInfo option"
  apply_list :: "ClientApplyInfo list"
  apply_map :: "int \<rightharpoonup> ClientApplyInfo"
  friend_objs :: "nat \<rightharpoonup> FriendInfo"
  friend_next :: nat
  friend_map :: "int \<rightharpoonup> nat"
  friend_list :: "nat list"
  user_token :: string
  contact_loaded :: nat
  chat_loaded :: nat

definition chat_count_per_page :: nat where
  "chat_count_per_page = 13"

definition new_UserMgr :: UserMgr where
  "new_UserMgr = \<lparr>user_info = None, apply_list = [], apply_map = Map.empty, friend_objs = Map.empty, friend_next = 0,
     friend_map = Map.empty, friend_list = [], user_token = [], contact_loaded = 0, chat_loaded = 0\<rparr>"

text \<open>
  What the sources call of Qt's JSON classes: \<open>fromJson\<close> (\<open>None\<close> for a null document), the object of a
  document, and access and conversion of values, with their defaults.
\<close>

record qt_json =
  q_fromJson :: "string \<Rightarrow> json option"
  q_contains :: "json \<Rightarrow> string \<Rightarrow> bool"
  q_value :: "json \<Rightarrow> string \<Rightarrow> json"
  q_toString :: "json \<Rightarrow> string"
  q_toInt :: "json \<Rightarrow> int"
  q_toArray :: "json \<Rightarrow> json list"

text \<open>
  Documented behaviour: members of an object by key, \<open>toInt\<close> of a number outside \<open>int\<close> is the default 0,
  \<open>toArray\<close> of an undefined value is empty.
\<close>

definition qt_documented :: "qt_json \<Rightarrow> bool" where
  "qt_documented Q \<longleftrightarrow>
     (\<forall>kvs k. q_contains Q (JObj kvs) k \<longleftrightarrow> map_of kvs k \<noteq> None) \<and>
     (\<forall>kvs k. q_value Q (JObj kvs) k = (case map_of kvs k of Some v \<Rightarrow> v | None \<Rightarrow> JNull)) \<and>
     (\<forall>x. q_toString Q (JStr x) = x) \<and> q_toString Q JNull = [] \<and>
     (\<forall>i. q_toInt Q (JInt i) = (if INT_MIN \<le> i \<and> i \<le> INT_MAX then i else 0)) \<and>
     (\<forall>xs. q_toArray Q (JArr xs) = xs) \<and> q_toArray Q JNull = []"

text \<open>Values that differ only in the order of object members, and Qt reading what jsoncpp printed.\<close>

inductive json_same :: "json \<Rightarrow> json \<Rightarrow> bool" where
  same_value: "json_same v v"
| same_array: "list_all2 json_same xs ys \<Longrightarrow> json_same (JArr xs) (JArr ys)"
| same_object: "(\<forall>k. rel_option json_same (map_of kvs k) (map_of kvs' k)) \<Longrightarrow> json_same (JObj kvs) (JObj kvs')"
monos list_all2_mono option.rel_mono

inductive_cases json_same_JIntE: "json_same v (JInt i)"
inductive_cases json_same_JStrE: "json_same v (JStr x)"
inductive_cases json_same_JArrE: "json_same v (JArr xs)"
inductive_cases json_same_JObjE: "json_same v (JObj kvs)"

definition qt_reads :: "qt_json \<Rightarrow> jsoncpp \<Rightarrow> bool" where
  "qt_reads Q J \<longleftrightarrow> (\<forall>kvs. \<exists>v. q_fromJson Q (toStyledString J (JObj kvs)) = Some v \<and> json_same v (JObj kvs))"

section \<open>Members of documents\<close>

lemma json_same_members:
  assumes "json_same v (JObj kvs)" and "qt_documented Q"
  shows "q_contains Q v k \<longleftrightarrow> map_of kvs k \<noteq> None" "map_of kvs k = Some w \<Longrightarrow> json_same (q_value Q v k) w"
    "map_of kvs k = None \<Longrightarrow> q_value Q v k = JNull"
proof -
  obtain kvs' where v: "v = JObj kvs'" and "rel_option json_same (map_of kvs' j) (map_of kvs j)" for j
    using assms(1) by (rule json_same_JObjE) (auto simp: option.rel_refl json_same.same_value)
  from this(2) [of k] show "q_contains Q v k \<longleftrightarrow> map_of kvs k \<noteq> None" "map_of kvs k = Some w \<Longrightarrow> json_same (q_value Q v k) w"
    "map_of kvs k = None \<Longrightarrow> q_value Q v k = JNull"
    using assms(2) by (auto simp: v qt_documented_def option_rel_Some2 split: option.splits elim: option.rel_cases)
qed

lemma json_same_leaf:
  assumes "qt_documented Q"
  shows "json_same v (JInt i) \<Longrightarrow> INT_MIN \<le> i \<Longrightarrow> i \<le> INT_MAX \<Longrightarrow> q_toInt Q v = i"
    and "json_same v (JStr x) \<Longrightarrow> q_toString Q v = x" and "json_same v (JArr ws) \<Longrightarrow> list_all2 json_same (q_toArray Q v) ws"
  using assms by (auto elim!: json_same_JIntE json_same_JStrE json_same_JArrE simp: qt_documented_def list_all2_refl json_same.same_value)

lemma json_same_fields:
  assumes "json_same v (JObj kvs)" "json_documented J"
  shows "map_of kvs k = Some (JStr x) \<Longrightarrow> field_str J v k = Some x"
    and "map_of kvs k = Some (JInt i) \<Longrightarrow> INT_MIN \<le> i \<Longrightarrow> i \<le> INT_MAX \<Longrightarrow> field_int J v k = Some i"
proof -
  obtain kvs' where v: "v = JObj kvs'" and r: "rel_option json_same (map_of kvs' j) (map_of kvs j)" for j
    using assms(1) by (rule json_same_JObjE) (auto simp: option.rel_refl json_same.same_value)
  have m: "jmember J v k = Some (case map_of kvs' k of Some w \<Rightarrow> w | None \<Rightarrow> JNull)" using assms(2) by (simp add: v json_documented_def)
  show "field_str J v k = Some x" if "map_of kvs k = Some (JStr x)"
    using r [of k] that m assms(2) by (auto simp: field_str_def option_rel_Some2 json_documented_def elim!: json_same_JStrE)
  show "field_int J v k = Some i" if "map_of kvs k = Some (JInt i)" "INT_MIN \<le> i" "i \<le> INT_MAX"
    using r [of k] that m assms(2) by (auto simp: field_int_def option_rel_Some2 json_documented_def elim!: json_same_JIntE)
qed

section \<open>Operations\<close>

definition SetUserInfo :: "ClientUserInfo \<Rightarrow> UserMgr \<Rightarrow> UserMgr" where
  "SetUserInfo info s = s\<lparr>user_info := Some info\<rparr>"

definition SetToken :: "string \<Rightarrow> UserMgr \<Rightarrow> UserMgr" where
  "SetToken token s = s\<lparr>user_token := token\<rparr>"

definition of_user :: "(ClientUserInfo \<Rightarrow> 'a) \<Rightarrow> (UserMgr, 'a) prog" where
  "of_user get = bnd (gets user_info) (\<lambda>u. case u of None \<Rightarrow> crash | Some info \<Rightarrow> ret (get info))"

definition GetUid :: "(UserMgr, int) prog" where "GetUid = of_user cu_uid"
definition GetName :: "(UserMgr, string) prog" where "GetName = of_user cu_name"
definition GetIcon :: "(UserMgr, string) prog" where "GetIcon = of_user cu_icon"

definition GetUserInfo :: "UserMgr \<Rightarrow> ClientUserInfo option" where
  "GetUserInfo s = user_info s"

text \<open>\<open>std::make_shared<FriendInfo>(...)\<close>, with its address.\<close>

definition new_friend :: "FriendInfo \<Rightarrow> UserMgr \<Rightarrow> nat \<times> UserMgr" where
  "new_friend info s = (friend_next s, s\<lparr>friend_objs := (friend_objs s)(friend_next s \<mapsto> info), friend_next := friend_next s + 1\<rparr>)"

definition append_friend :: "qt_json \<Rightarrow> json \<Rightarrow> UserMgr \<Rightarrow> UserMgr" where
  "append_friend Q v s =
     (let get = (\<lambda>k. q_toString Q (q_value Q v k));
          uid = q_toInt Q (q_value Q v ''uid'');
          (info, s1) = new_friend \<lparr>f_uid = uid, f_name = get ''name'', f_nick = get ''nick'', f_icon = get ''icon'',
            f_sex = q_toInt Q (q_value Q v ''sex''), f_desc = get ''desc'', f_back = get ''back'', f_last_msg = [],
            f_last_msg_time = 0, f_chat_msgs = []\<rparr> s in
      s1\<lparr>friend_list := friend_list s1 @ [info], friend_map := (friend_map s1)(uid \<mapsto> info)\<rparr>)"

definition AppendFriendList :: "qt_json \<Rightarrow> json list \<Rightarrow> UserMgr \<Rightarrow> UserMgr" where
  "AppendFriendList Q array = fold (append_friend Q) array"

definition CheckFriendById :: "int \<Rightarrow> UserMgr \<Rightarrow> bool" where
  "CheckFriendById uid s \<longleftrightarrow> friend_map s uid \<noteq> None"

definition AddFriend :: "AuthInfo \<Rightarrow> UserMgr \<Rightarrow> UserMgr" where
  "AddFriend auth s =
     (let (info, s1) = new_friend (FriendInfo_of_auth auth) s in
      s1\<lparr>friend_map := (friend_map s1)(ai_uid auth \<mapsto> info)\<rparr>)"

definition GetFriendById :: "int \<Rightarrow> UserMgr \<Rightarrow> nat option" where
  "GetFriendById uid s = friend_map s uid"

definition GetApplyList :: "UserMgr \<Rightarrow> ClientApplyInfo list" where
  "GetApplyList s = apply_list s"

definition append_apply :: "qt_json \<Rightarrow> json \<Rightarrow> UserMgr \<Rightarrow> UserMgr" where
  "append_apply Q v s =
     (let get = (\<lambda>k. q_toString Q (q_value Q v k));
          uid = q_toInt Q (q_value Q v ''uid'');
          info = \<lparr>ca_uid = uid, ca_name = get ''name'', ca_desc = get ''desc'', ca_icon = get ''icon'', ca_nick = get ''nick'',
            ca_sex = q_toInt Q (q_value Q v ''sex''), ca_status = q_toInt Q (q_value Q v ''status'')\<rparr> in
      s\<lparr>apply_list := apply_list s @ [info], apply_map := (apply_map s)(uid \<mapsto> info)\<rparr>)"

definition AppendApplyList :: "qt_json \<Rightarrow> json list \<Rightarrow> UserMgr \<Rightarrow> UserMgr" where
  "AppendApplyList Q array = fold (append_apply Q) array"

definition AddApplyList :: "ClientApplyInfo \<Rightarrow> UserMgr \<Rightarrow> UserMgr" where
  "AddApplyList app s = s\<lparr>apply_map := (apply_map s)(ca_uid app \<mapsto> app), apply_list := apply_list s @ [app]\<rparr>"

definition AlreadyApply :: "int \<Rightarrow> UserMgr \<Rightarrow> bool" where
  "AlreadyApply uid s \<longleftrightarrow> apply_map s uid \<noteq> None"

definition GetApplyInfoByUid :: "int \<Rightarrow> UserMgr \<Rightarrow> ClientApplyInfo option" where
  "GetApplyInfoByUid uid s = apply_map s uid"

section \<open>Pages\<close>

definition GetConListPerPage :: "UserMgr \<Rightarrow> nat list" where
  "GetConListPerPage s =
     (if friend_list s = [] \<or> chat_count_per_page \<le> 0 then []
      else
        let begin_ix = contact_loaded s; end_ix = min (begin_ix + chat_count_per_page) (length (friend_list s)) in
        if begin_ix \<ge> length (friend_list s) then []
        else take (end_ix - begin_ix) (drop begin_ix (friend_list s)))"

definition UpdateContactLoadedCount :: "UserMgr \<Rightarrow> UserMgr" where
  "UpdateContactLoadedCount s =
     (let begin_ix = contact_loaded s; end_ix = begin_ix + chat_count_per_page in
      if begin_ix \<ge> length (friend_list s) then s
      else if end_ix > length (friend_list s) then s\<lparr>contact_loaded := length (friend_list s)\<rparr>
      else s\<lparr>contact_loaded := end_ix\<rparr>)"

definition IsLoadConFinal :: "UserMgr \<Rightarrow> bool" where
  "IsLoadConFinal s \<longleftrightarrow> contact_loaded s \<ge> length (friend_list s)"

definition GetChatListPerPage :: "UserMgr \<Rightarrow> nat list" where
  "GetChatListPerPage s =
     (let begin_ix = chat_loaded s; end_ix = begin_ix + chat_count_per_page in
      if begin_ix \<ge> length (friend_list s) then []
      else if end_ix > length (friend_list s) then drop begin_ix (friend_list s)
      else take (end_ix - begin_ix) (drop begin_ix (friend_list s)))"

definition IsLoadChatFinal :: "UserMgr \<Rightarrow> bool" where
  "IsLoadChatFinal s \<longleftrightarrow> chat_loaded s \<ge> length (friend_list s)"

definition UpdateChatLoadedCount :: "UserMgr \<Rightarrow> UserMgr" where
  "UpdateChatLoadedCount s =
     (let begin_ix = chat_loaded s; end_ix = begin_ix + chat_count_per_page in
      if begin_ix \<ge> length (friend_list s) then s
      else if end_ix > length (friend_list s) then s\<lparr>chat_loaded := length (friend_list s)\<rparr>
      else s\<lparr>chat_loaded := end_ix\<rparr>)"

section \<open>Messages\<close>

definition AppendFriendChatMsg :: "int \<Rightarrow> TextChatData list \<Rightarrow> UserMgr \<Rightarrow> UserMgr" where
  "AppendFriendChatMsg friend_id msgs s =
     (case friend_map s friend_id of
        None \<Rightarrow> s
      | Some info \<Rightarrow> s\<lparr>friend_objs := (friend_objs s)(info := map_option (AppendChatMsgs msgs) (friend_objs s info))\<rparr>)"

definition user_message :: "TextChatData \<Rightarrow> (UserMgr, unit) prog" where
  "user_message txt =
     bnd (gets user_info) (\<lambda>u.
     case u of
       None \<Rightarrow> crash
     | Some info \<Rightarrow>
         upd (\<lambda>s. s\<lparr>user_info := Some (info\<lparr>cu_last_msg := t_msg_content txt, cu_last_msg_time := t_send_time txt,
           cu_chat_msgs := cu_chat_msgs info @ [txt]\<rparr>)\<rparr>))"

definition touch_friend :: "int \<Rightarrow> int \<Rightarrow> string \<Rightarrow> int \<Rightarrow> nat \<Rightarrow> UserMgr \<Rightarrow> UserMgr" where
  "touch_friend fromid toid last_msg last_msg_time a s =
     s\<lparr>friend_objs := (friend_objs s)(a := map_option (\<lambda>f.
        if fromid = f_uid f \<or> f_uid f = toid then f\<lparr>f_last_msg := last_msg, f_last_msg_time := last_msg_time\<rparr> else f)
        (friend_objs s a))\<rparr>"

definition AppendSlefChatMsg :: "TextChatData list \<Rightarrow> (UserMgr, unit) prog" where
  "AppendSlefChatMsg msgs =
     (let last_msg = (if msgs = [] then [] else t_msg_content (last msgs));
          last_msg_time = (if msgs = [] then 0 else t_send_time (last msgs));
          fromid = (if msgs = [] then 0 else t_from_uid (hd msgs));
          toid = (if msgs = [] then 0 else t_to_uid (hd msgs)) in
      bnd (forM user_message msgs) (\<lambda>_.
      upd (\<lambda>s. fold (touch_friend fromid toid last_msg last_msg_time) (friend_list s) s)))"

section \<open>Handlers of the login window\<close>

text \<open>
  What a handler asks of the rest of the client: a tip in the window, a message on the bus, closing
  the window with success.
\<close>

datatype gui_event = ShowTip int | BusMessage string | AcceptDialog

definition onChatLoginRsp :: "qt_json \<Rightarrow> string \<Rightarrow> (UserMgr, gui_event list) prog" where
  "onChatLoginRsp Q data =
     (case q_fromJson Q data of
        None \<Rightarrow> ret []
      | Some jsonObj \<Rightarrow>
          if \<not> q_contains Q jsonObj ''error'' then ret []
          else
            let err = q_toInt Q (q_value Q jsonObj ''error''); get = (\<lambda>k. q_toString Q (q_value Q jsonObj k)) in
            if err \<noteq> 0 then ret [ShowTip err]
            else
              bnd (upd (SetUserInfo \<lparr>cu_uid = q_toInt Q (q_value Q jsonObj ''uid''), cu_name = get ''name'', cu_nick = get ''nick'',
                cu_icon = get ''icon'', cu_sex = q_toInt Q (q_value Q jsonObj ''sex''), cu_last_msg = [], cu_last_msg_time = 0,
                cu_chat_msgs = []\<rparr>)) (\<lambda>_.
              bnd (upd (SetToken (get ''token''))) (\<lambda>_.
              bnd (if q_contains Q jsonObj ''apply_list''
                   then upd (AppendApplyList Q (q_toArray Q (q_value Q jsonObj ''apply_list''))) else ret ()) (\<lambda>_.
              bnd (if q_contains Q jsonObj ''friend_list''
                   then upd (AppendFriendList Q (q_toArray Q (q_value Q jsonObj ''friend_list''))) else ret ()) (\<lambda>_.
              ret [BusMessage ''BEGIN_LOAD_APPLY_CONTENT_LIST'', AcceptDialog])))))"

definition text_data :: "qt_json \<Rightarrow> json \<Rightarrow> TextChatData" where
  "text_data Q msg =
     \<lparr>t_msg_id = q_toString Q (q_value Q msg ''msg_id''), t_msg_content = q_toString Q (q_value Q msg ''content''),
      t_from_uid = q_toInt Q (q_value Q msg ''from_uid''), t_to_uid = q_toInt Q (q_value Q msg ''to_uid''),
      t_send_time = q_toInt Q (q_value Q msg ''send_time''), t_msg_type = q_toInt Q (q_value Q msg ''msg_type''),
      t_status = q_toInt Q (q_value Q msg ''status'')\<rparr>"

text \<open>The body of the loop over the messages.\<close>

definition load_text :: "TextChatData \<Rightarrow> (UserMgr, unit) prog" where
  "load_text d = bnd (upd (AppendFriendChatMsg (t_from_uid d) [d])) (\<lambda>_. AppendSlefChatMsg [d])"

definition LoginLoadUnRedChatMsg :: "qt_json \<Rightarrow> string \<Rightarrow> (UserMgr, gui_event list) prog" where
  "LoginLoadUnRedChatMsg Q data =
     (case q_fromJson Q data of
        None \<Rightarrow> ret []
      | Some jsonObj \<Rightarrow>
          if \<not> q_contains Q jsonObj ''error'' then ret []
          else if q_toInt Q (q_value Q jsonObj ''error'') \<noteq> 0 then ret []
          else
            bnd (forM (\<lambda>msg. load_text (text_data Q msg)) (q_toArray Q (q_value Q jsonObj ''messages''))) (\<lambda>_.
            ret [BusMessage ''LOGIN_LOAD_UNREAD_CHAT_MSG'']))"

section \<open>Well-formed friend data\<close>

text \<open>
  Every pointer in the list and in the map points to a friend object, the map files a friend under
  its own uid, and no object is in the list twice.
\<close>

definition friends_wf :: "UserMgr \<Rightarrow> bool" where
  "friends_wf s \<longleftrightarrow>
     (\<forall>a. friend_objs s a \<noteq> None \<longrightarrow> a < friend_next s) \<and>
     (\<forall>a \<in> set (friend_list s). friend_objs s a \<noteq> None) \<and> distinct (friend_list s) \<and>
     (\<forall>uid a. friend_map s uid = Some a \<longrightarrow> (\<exists>f. friend_objs s a = Some f \<and> f_uid f = uid))"

lemma f_uid_AppendChatMsgs [simp]: "f_uid (AppendChatMsgs msgs f) = f_uid f"
  unfolding AppendChatMsgs_def by (induction msgs arbitrary: f) simp_all

lemma chat_msgs_AppendChatMsgs [simp]: "f_chat_msgs (AppendChatMsgs msgs f) = f_chat_msgs f @ msgs"
  unfolding AppendChatMsgs_def by (induction msgs arbitrary: f) simp_all

lemma friends_wf_fresh:
  assumes "friends_wf s"
  shows "friend_objs s (friend_next s) = None" "friend_next s \<notin> set (friend_list s)" "friend_map s uid \<noteq> Some (friend_next s)"
proof -
  show n: "friend_objs s (friend_next s) = None" using assms by (auto simp: friends_wf_def)
  show "friend_next s \<notin> set (friend_list s)" using assms n by (auto simp: friends_wf_def)
  show "friend_map s uid \<noteq> Some (friend_next s)" using assms n unfolding friends_wf_def by fastforce
qed

lemma friends_wf_append_friend: "friends_wf s \<Longrightarrow> friends_wf (append_friend Q v s)"
  using friends_wf_fresh [of s] by (auto simp: friends_wf_def append_friend_def new_friend_def Let_def less_Suc_eq)

lemma friends_wf_fold: "(\<And>x s. friends_wf s \<Longrightarrow> friends_wf (f x s)) \<Longrightarrow> friends_wf s \<Longrightarrow> friends_wf (fold f xs s)"
  by (induction xs arbitrary: s) simp_all

lemma friends_wf_map_obj:
  assumes "friends_wf s" and "\<And>f. f_uid (g f) = f_uid f"
  shows "friends_wf (s\<lparr>friend_objs := (friend_objs s)(a := map_option g (friend_objs s a))\<rparr>)"
  using assms unfolding friends_wf_def by (auto split: if_splits) (metis option.distinct(1))+

lemma friends_wf_touch: "friends_wf s \<Longrightarrow> friends_wf (touch_friend x y m t a s)"
  unfolding touch_friend_def by (rule friends_wf_map_obj) simp_all

lemma friends_wf_AppendFriendChatMsg: "friends_wf s \<Longrightarrow> friends_wf (AppendFriendChatMsg i msgs s)"
  unfolding AppendFriendChatMsg_def by (auto split: option.splits intro!: friends_wf_map_obj)

lemma friends_wf_user [simp]: "friends_wf (s\<lparr>user_info := x\<rparr>) = friends_wf s"
  by (simp add: friends_wf_def)

lemma keeps_wf_AppendSlef: "keeps friends_wf (AppendSlefChatMsg msgs)"
  unfolding AppendSlefChatMsg_def Let_def user_message_def
  by (intro keeps_bnd keeps_forM keeps_upd friends_wf_fold [OF friends_wf_touch])
    (auto intro!: keeps_upd simp: friends_wf_fold [OF friends_wf_touch] split: option.splits)

lemma friends_wf_AddFriend: "friends_wf s \<Longrightarrow> friends_wf (AddFriend auth s)"
  using friends_wf_fresh [of s]
  by (auto simp: friends_wf_def AddFriend_def new_friend_def FriendInfo_of_auth_def Let_def less_Suc_eq)

text \<open>
  The friend data of the client stays well formed: every operation of \<open>UserMgr\<close> that touches it, and
  both handlers of the login window, keep all pointers of list and map pointing to friend objects,
  each filed under its own uid and none twice in the list, whatever the messages contain.
\<close>

theorem friends_wf_kept:
  assumes "friends_wf s"
  shows "friends_wf (AppendFriendList Q array s) \<and> friends_wf (AddFriend auth s) \<and> friends_wf (AppendFriendChatMsg i msgs s) \<and>
    friends_wf (snd (AppendSlefChatMsg msgs s)) \<and> friends_wf (UpdateContactLoadedCount s) \<and> friends_wf (UpdateChatLoadedCount s) \<and>
    friends_wf (snd (onChatLoginRsp Q data s)) \<and> friends_wf (snd (LoginLoadUnRedChatMsg Q data s))"
proof -
  have u: "friends_wf (x\<lparr>contact_loaded := n\<rparr>) = friends_wf x" "friends_wf (x\<lparr>chat_loaded := n\<rparr>) = friends_wf x"
      "friends_wf (x\<lparr>user_token := k\<rparr>) = friends_wf x" "friends_wf (x\<lparr>apply_list := l, apply_map := m\<rparr>) = friends_wf x" for x n k l m
    by (simp_all add: friends_wf_def)
  have list: "friends_wf (AppendFriendList Q arr x)" if "friends_wf x" for arr x
    unfolding AppendFriendList_def by (intro friends_wf_fold friends_wf_append_friend that)
  have apps: "friends_wf (AppendApplyList Q arr x)" if "friends_wf x" for arr x
    unfolding AppendApplyList_def using that by (rule friends_wf_fold [rotated]) (simp add: append_apply_def Let_def u)
  have "keeps friends_wf (onChatLoginRsp Q data)"
    unfolding onChatLoginRsp_def
    by (auto intro!: keeps_bnd keeps_upd list apps simp: SetUserInfo_def SetToken_def u Let_def split: option.splits)
  moreover have "keeps friends_wf (LoginLoadUnRedChatMsg Q data)"
    unfolding LoginLoadUnRedChatMsg_def
    by (auto intro!: keeps_bnd keeps_upd keeps_forM keeps_wf_AppendSlef friends_wf_AppendFriendChatMsg simp: load_text_def split: option.splits)
  ultimately show ?thesis
    using assms keeps_wf_AppendSlef [of msgs]
    by (auto simp: list friends_wf_AddFriend friends_wf_AppendFriendChatMsg keeps_def UpdateContactLoadedCount_def
        UpdateChatLoadedCount_def Let_def u)
qed

section \<open>Loading messages\<close>

text \<open>The messages kept for a friend.\<close>

definition friend_msgs :: "UserMgr \<Rightarrow> int \<Rightarrow> TextChatData list" where
  "friend_msgs s uid = (case GetFriendById uid s of None \<Rightarrow> [] | Some a \<Rightarrow>
     (case friend_objs s a of None \<Rightarrow> [] | Some f \<Rightarrow> f_chat_msgs f))"

definition friend_texts :: "int \<Rightarrow> TextChatData list \<Rightarrow> UserMgr \<Rightarrow> TextChatData list" where
  "friend_texts uid ds s = (if CheckFriendById uid s then filter (\<lambda>d. t_from_uid d = uid) ds else [])"

lemma friend_msgs_touch [simp]:
  "friend_msgs (touch_friend x y m t a s) uid = friend_msgs s uid" "friend_map (touch_friend x y m t a s) = friend_map s"
  by (auto simp: friend_msgs_def touch_friend_def GetFriendById_def split: option.splits)

lemma friend_msgs_touch_all [simp]:
  "friend_msgs (fold (touch_friend x y m t) as s) uid = friend_msgs s uid"
  "friend_map (fold (touch_friend x y m t) as s) = friend_map s"
  "user_info (fold (touch_friend x y m t) as s) = user_info s"
  by (induction as arbitrary: s) (simp_all, simp add: touch_friend_def)

lemma friend_msgs_append:
  assumes "friends_wf s"
  shows "friend_msgs (AppendFriendChatMsg i ds s) uid = friend_msgs s uid @ (if uid = i \<and> CheckFriendById i s then ds else [])"
proof -
  have "friend_map s i \<noteq> friend_map s uid" if "i \<noteq> uid" "friend_map s i \<noteq> None"
    using assms that unfolding friends_wf_def by (metis option.inject not_None_eq)
  moreover have "friend_objs s a \<noteq> None" if "friend_map s i = Some a" for a
    using assms that unfolding friends_wf_def by blast
  ultimately show ?thesis
    by (auto simp: friend_msgs_def AppendFriendChatMsg_def GetFriendById_def CheckFriendById_def split: option.splits)
qed

lemma AppendFriendChatMsg_rest [simp]:
  "friend_map (AppendFriendChatMsg i ds s) = friend_map s" "user_info (AppendFriendChatMsg i ds s) = user_info s"
  by (simp_all add: AppendFriendChatMsg_def split: option.splits)

lemma load_text_run:
  assumes "friends_wf s" and "user_info s = Some u"
  obtains t u' where "load_text d s = (Val (), t)" "friends_wf t" "user_info t = Some u'" "cu_chat_msgs u' = cu_chat_msgs u @ [d]"
    "friend_map t = friend_map s" "\<And>uid. friend_msgs t uid = friend_msgs s uid @ friend_texts uid [d] s"
proof -
  let ?s1 = "AppendFriendChatMsg (t_from_uid d) [d] s"
  let ?u = "u\<lparr>cu_last_msg := t_msg_content d, cu_last_msg_time := t_send_time d, cu_chat_msgs := cu_chat_msgs u @ [d]\<rparr>"
  let ?t = "fold (touch_friend (t_from_uid d) (t_to_uid d) (t_msg_content d) (t_send_time d)) (friend_list (?s1\<lparr>user_info := Some ?u\<rparr>)) (?s1\<lparr>user_info := Some ?u\<rparr>)"
  have wf: "friends_wf ?s1" by (rule friends_wf_AppendFriendChatMsg) fact
  have m: "friend_msgs (x\<lparr>user_info := y\<rparr>) uid = friend_msgs x uid" for x y uid by (simp add: friend_msgs_def GetFriendById_def split: option.splits)
  have "load_text d s = (Val (), ?t)"
    using assms(2) by (simp add: load_text_def AppendSlefChatMsg_def user_message_def Let_def prog_defs)
  moreover have "friends_wf ?t" by (rule friends_wf_fold [OF friends_wf_touch]) (simp_all add: wf)
  moreover have "friend_msgs ?t uid = friend_msgs s uid @ friend_texts uid [d] s" for uid
    by (simp add: m friend_msgs_append [OF assms(1)] friend_texts_def)
  ultimately show thesis by (intro that [of ?t ?u]) simp_all
qed

lemma load_texts_run:
  assumes "friends_wf s" and "user_info s = Some u"
  shows "\<exists>t u'. forM load_text ds s = (Val (), t) \<and> user_info t = Some u' \<and> cu_chat_msgs u' = cu_chat_msgs u @ ds \<and>
    (\<forall>uid. friend_msgs t uid = friend_msgs s uid @ friend_texts uid ds s)"
  using assms
proof (induction ds arbitrary: s u)
  case Nil
  then show ?case by (simp add: ret_def friend_texts_def)
next
  case (Cons d ds)
  obtain t u' where t: "load_text d s = (Val (), t)" "friends_wf t" "user_info t = Some u'" "cu_chat_msgs u' = cu_chat_msgs u @ [d]"
      "friend_map t = friend_map s" "\<And>uid. friend_msgs t uid = friend_msgs s uid @ friend_texts uid [d] s"
    using load_text_run [OF Cons.prems] by blast
  from Cons.IH [OF t(2,3)] show ?case
    by (auto simp: bnd_def t friend_texts_def CheckFriendById_def)
qed

section \<open>Paging\<close>

text \<open>
  The contract of a list that is shown page by page: a page starts where the count of loaded items
  stands, and advancing moves the count past the page.
\<close>

locale pager =
  fixes items :: "'s \<Rightarrow> 'a list" and loaded :: "'s \<Rightarrow> nat" and page :: "'s \<Rightarrow> 'a list" and advance :: "'s \<Rightarrow> 's"
    and is_final :: "'s \<Rightarrow> bool" and per_page :: nat
  assumes per_page_pos: "0 < per_page"
    and page: "page s = take per_page (drop (loaded s) (items s))"
    and items_advance: "items (advance s) = items s"
    and loaded_advance: "loaded s < length (items s) \<Longrightarrow> loaded (advance s) = min (loaded s + per_page) (length (items s))"
    and final: "is_final s \<longleftrightarrow> length (items s) \<le> loaded s"
begin

text \<open>Scrolling to the end of what is shown: nothing when all is loaded, else a page.\<close>

fun scroll :: "nat \<Rightarrow> 's \<Rightarrow> 'a list \<times> 's" where
  "scroll 0 s = ([], s)"
| "scroll (Suc n) s =
     (if is_final s then ([], s) else let (rest, t) = scroll n (advance s) in (page s @ rest, t))"

lemma scroll_shows:
  "loaded s \<le> length (items s) \<Longrightarrow> fst (scroll n s) = take (n * per_page) (drop (loaded s) (items s)) \<and>
     items (snd (scroll n s)) = items s \<and> loaded (snd (scroll n s)) = min (loaded s + n * per_page) (length (items s))"
proof (induction n arbitrary: s)
  case (Suc n)
  show ?case
  proof (cases "is_final s")
    case True
    then have "loaded s = length (items s)" using Suc.prems final [of s] by linarith
    then show ?thesis using True by simp
  next
    case False
    then have l: "loaded s < length (items s)" by (simp add: final)
    have a: "loaded (advance s) = min (loaded s + per_page) (length (items s))" using loaded_advance [OF l] .
    have "loaded (advance s) \<le> length (items (advance s))" by (simp add: a items_advance)
    note IH = Suc.IH [OF this, unfolded items_advance a]
    obtain rest t where r: "scroll n (advance s) = (rest, t)" by fastforce
    have "take per_page xs @ take (n * per_page) (drop (min per_page (length xs)) xs) = take (per_page + n * per_page) xs" for xs :: "'a list"
      by (cases "per_page \<le> length xs") (simp_all add: take_add min_def)
    from this [of "drop (loaded s) (items s)"]
    have p: "page s @ take (n * per_page) (drop (min (loaded s + per_page) (length (items s))) (items s)) =
        take (Suc n * per_page) (drop (loaded s) (items s))"
      using l by (simp add: page min_def add.commute split: if_splits)
    show ?thesis using IH r p False by (simp add: min_def)
  qed
qed simp

lemma scroll_all:
  assumes "loaded s = 0" and "length (items s) \<le> n * per_page"
  shows "fst (scroll n s) = items s \<and> is_final (snd (scroll n s))"
  using scroll_shows [of s n] assms by (simp add: final min_def)

end

interpretation contacts: pager friend_list contact_loaded GetConListPerPage UpdateContactLoadedCount IsLoadConFinal chat_count_per_page
  by unfold_locales
    (auto simp: GetConListPerPage_def UpdateContactLoadedCount_def IsLoadConFinal_def Let_def chat_count_per_page_def min_def)

interpretation chats: pager friend_list chat_loaded GetChatListPerPage UpdateChatLoadedCount IsLoadChatFinal chat_count_per_page
  by unfold_locales
    (auto simp: GetChatListPerPage_def UpdateChatLoadedCount_def IsLoadChatFinal_def Let_def chat_count_per_page_def min_def)

text \<open>A library that meets the hypotheses, for texts printed by the reference instance of jsoncpp.\<close>

definition ref_qt :: qt_json where
  "ref_qt = \<lparr>
     q_fromJson = (\<lambda>x. Some (snd (jparse ref_json x))),
     q_contains = (\<lambda>v k. case v of JObj kvs \<Rightarrow> map_of kvs k \<noteq> None | _ \<Rightarrow> False),
     q_value = (\<lambda>v k. jfield k v),
     q_toString = (\<lambda>v. case v of JStr x \<Rightarrow> x | _ \<Rightarrow> []),
     q_toInt = (\<lambda>v. case v of JInt i \<Rightarrow> if INT_MIN \<le> i \<and> i \<le> INT_MAX then i else 0 | _ \<Rightarrow> 0),
     q_toArray = (\<lambda>v. case v of JArr xs \<Rightarrow> xs | _ \<Rightarrow> [])\<rparr>"

lemma ref_qt_documented: "qt_documented ref_qt"
  by (simp add: qt_documented_def ref_qt_def jfield_def)

lemma ref_qt_reads: "qt_reads ref_qt ref_json"
  by (auto simp: qt_reads_def ref_qt_def ref_json_def intro: json_same.intros)

theorem friends_wf_kept_witness:
  "friends_wf new_UserMgr \<and>
   friends_wf (AppendFriendList ref_qt [JObj [(''uid'', JInt 7)], JObj [(''uid'', JInt 7)]] new_UserMgr)"
proof -
  have "friends_wf new_UserMgr" by (simp add: friends_wf_def new_UserMgr_def)
  with friends_wf_kept [of new_UserMgr ref_qt "[JObj [(''uid'', JInt 7)], JObj [(''uid'', JInt 7)]]"] show ?thesis by blast
qed

end
