(* ===== verification/ClientPage.thy ===== *)
theory ClientPage
  imports ClientView ClientUserMgr
begin

text \<open>
  The chat page of the client (\<open>gui/chat_page.cpp\<close>): the cached views of the conversations, showing a
  conversation, and sending what was typed; and how the text of a message is cut into texts and
  emoticons (\<open>gui/chats/content_bubble.cpp\<close>).
\<close>

section \<open>Texts with emoticons\<close>

text \<open>
  \<open>parseMixedMessage\<close>: the matches of \<^verbatim>\<open>(\[.*?\])|([^[]+)\<close> from left to right; a dot does not match a
  line feed, and a character where neither alternative matches is skipped. \<open>emoji\<close> is the table of
  \<open>EmojiManager\<close>, \<open>None\<close> when it is empty.
\<close>

fun bracketed :: "string \<Rightarrow> (string \<times> string) option" where
  "bracketed [] = None"
| "bracketed (c # cs) =
     (if c = CHR '']'' then Some ([], cs)
      else if c = CHR 0x0A then None
      else map_option (\<lambda>(key, rest). (c # key, rest)) (bracketed cs))"

lemma bracketed_length: "bracketed cs = Some (key, rest) \<Longrightarrow> length rest < length cs"
  by (induction cs arbitrary: key) (fastforce split: if_splits)+

function parseMixedMessage :: "(string \<Rightarrow> string) option \<Rightarrow> string \<Rightarrow> MsgInfo list" where
  "parseMixedMessage emoji message =
     (case message of
        [] \<Rightarrow> []
      | c # cs \<Rightarrow>
          if c = CHR ''['' then
            (case bracketed cs of
               None \<Rightarrow> parseMixedMessage emoji cs
             | Some (key, rest) \<Rightarrow>
                 (case emoji of None \<Rightarrow> [] | Some table \<Rightarrow> [\<lparr>msgFlag = ''emotion'', msg_body = table key\<rparr>]) @
                 parseMixedMessage emoji rest)
          else
            \<lparr>msgFlag = ''text'', msg_body = takeWhile (\<lambda>d. d \<noteq> CHR ''['') message\<rparr> #
            parseMixedMessage emoji (dropWhile (\<lambda>d. d \<noteq> CHR ''['') message))"
  by pat_completeness auto
termination
  by (relation "measure (\<lambda>(_, m). length m)")
    (auto dest: bracketed_length simp: less_Suc_eq_le length_dropWhile_le)

declare parseMixedMessage.simps [simp del]

text \<open>\<open>lastIndexOf\<close> and \<open>mid\<close> of \<open>QString\<close>; a negative length means the rest of the string.\<close>

fun lastIndexOf :: "char \<Rightarrow> string \<Rightarrow> int" where
  "lastIndexOf c [] = - 1"
| "lastIndexOf c (x # xs) = (let i = lastIndexOf c xs in if i \<ge> 0 then i + 1 else if x = c then 0 else - 1)"

definition qmid :: "string \<Rightarrow> int \<Rightarrow> int \<Rightarrow> string" where
  "qmid s pos n = (let rest = drop (nat pos) s in if n < 0 then rest else take (nat n) rest)"

text \<open>The form in which an emoticon is sent: the base name of its file in brackets.\<close>

definition emotion_tag :: "string \<Rightarrow> string" where
  "emotion_tag emotion_path =
     (let startIndex = lastIndexOf CHR ''/'' emotion_path + 1; endIndex = lastIndexOf CHR ''.'' emotion_path in
      ''['' @ qmid emotion_path startIndex (endIndex - startIndex) @ '']'')"

definition msg_text :: "MsgInfo \<Rightarrow> string" where
  "msg_text msg =
     (if msgFlag msg = ''text'' then msg_body msg else if msgFlag msg = ''emotion'' then emotion_tag (msg_body msg) else [])"

text \<open>
  \<open>MessageTextEdit::getMsgList\<close>: the text of the editor, where \<open>None\<close> is an object replacement
  character, the list of the pasted objects and whether the HTML form of the document contains the
  address of an object.
\<close>

fun next_object :: "(string \<Rightarrow> bool) \<Rightarrow> MsgInfo list \<Rightarrow> MsgInfo list \<times> MsgInfo list" where
  "next_object html [] = ([], [])"
| "next_object html (msg # msgs) = (if html (msg_body msg) then ([msg], msgs) else next_object html msgs)"

definition text_msg :: "string \<Rightarrow> MsgInfo list" where
  "text_msg txt = (if txt = [] then [] else [\<lparr>msgFlag = ''text'', msg_body = txt\<rparr>])"

fun collect_msgs :: "(string \<Rightarrow> bool) \<Rightarrow> MsgInfo list \<Rightarrow> string \<Rightarrow> char option list \<Rightarrow> MsgInfo list" where
  "collect_msgs html msgs txt [] = text_msg txt"
| "collect_msgs html msgs txt (Some c # doc) = collect_msgs html msgs (txt @ [c]) doc"
| "collect_msgs html msgs txt (None # doc) =
     (let (found, rest) = next_object html msgs in text_msg txt @ found @ collect_msgs html rest [] doc)"

definition getMsgList :: "(string \<Rightarrow> bool) \<Rightarrow> MsgInfo list \<Rightarrow> char option list \<Rightarrow> MsgInfo list" where
  "getMsgList html mMsgList doc = collect_msgs html mMsgList [] doc"

section \<open>State of the page\<close>

record ChatViewData =
  view_of :: "ChatView option"
  view_msgs :: "TextChatData list"

text \<open>
  \<open>ui->chat_data_list\<close> is the view of one of the cached conversations, or the widget of the form;
  \<open>uuid_count\<close> counts the calls of \<open>QUuid::createUuid\<close>; \<open>sent\<close> are the requests given to \<open>TcpMgr\<close> and
  \<open>appended\<close> the texts signalled to \<open>ChatDialog\<close>, oldest first.
\<close>

record ChatPage =
  friend_user :: "ClientUserInfo option"
  view_cache :: "int \<rightharpoonup> ChatViewData"
  shown_view :: "int option"
  form_view :: ChatView
  uuid_count :: nat
  sent :: "(int \<times> json) list"
  appended :: "TextChatData list"

record chat_client =
  umgr :: UserMgr
  cpage :: ChatPage

definition new_ChatPage :: ChatPage where
  "new_ChatPage = \<lparr>friend_user = None, view_cache = Map.empty, shown_view = None, form_view = new_ChatView, uuid_count = 0,
     sent = [], appended = []\<rparr>"

text \<open>The identifiers Qt generates, the table of emoticons, and whether an animation file is valid.\<close>

record gui_env =
  createUuid :: "nat \<Rightarrow> string"
  emojiObject :: "(string \<Rightarrow> string) option"
  movie_valid :: "string \<Rightarrow> bool"

definition the_data :: "int \<Rightarrow> ChatPage \<Rightarrow> ChatViewData" where
  "the_data uid p = (case view_cache p uid of Some d \<Rightarrow> d | None \<Rightarrow> \<lparr>view_of = None, view_msgs = []\<rparr>)"

definition with_data :: "int \<Rightarrow> (ChatViewData \<Rightarrow> ChatViewData) \<Rightarrow> ChatPage \<Rightarrow> ChatPage" where
  "with_data uid f p = p\<lparr>view_cache := (view_cache p)(uid \<mapsto> f (the_data uid p))\<rparr>"

definition on_view :: "(ChatView \<Rightarrow> ChatView) \<Rightarrow> ChatPage \<Rightarrow> ChatPage" where
  "on_view f p =
     (case shown_view p of
        None \<Rightarrow> p\<lparr>form_view := f (form_view p)\<rparr>
      | Some uid \<Rightarrow> with_data uid (\<lambda>d. d\<lparr>view_of := map_option f (view_of d)\<rparr>) p)"

definition on_page :: "(ChatPage \<Rightarrow> ChatPage) \<Rightarrow> chat_client \<Rightarrow> chat_client" where
  "on_page f s = s\<lparr>cpage := f (cpage s)\<rparr>"

definition on_umgr :: "(UserMgr \<Rightarrow> UserMgr) \<Rightarrow> chat_client \<Rightarrow> chat_client" where
  "on_umgr f s = s\<lparr>umgr := f (umgr s)\<rparr>"

text \<open>\<open>std::make_unique<ChatItemBase>(role)\<close>, of which only the new identifier matters until it is shown.\<close>

definition make_item :: "gui_env \<Rightarrow> (chat_client, string) prog" where
  "make_item E = bnd (gets (\<lambda>s. uuid_count (cpage s))) (\<lambda>n.
     bnd (upd (on_page (\<lambda>p. p\<lparr>uuid_count := n + 1\<rparr>))) (\<lambda>_. ret (createUuid E n)))"

section \<open>Showing a conversation\<close>

definition set_user_icon :: "string \<Rightarrow> ClientUserInfo \<Rightarrow> UserMgr \<Rightarrow> UserMgr" where
  "set_user_icon icon info m = m\<lparr>user_info := Some (info\<lparr>cu_icon := icon\<rparr>)\<rparr>"

definition AppendChatMsg :: "gui_env \<Rightarrow> TextChatData \<Rightarrow> (chat_client, unit) prog" where
  "AppendChatMsg E msg =
     bnd (gets (\<lambda>s. GetUserInfo (umgr s))) (\<lambda>x.
     case x of
       None \<Rightarrow> crash
     | Some self_info \<Rightarrow>
         let put = (\<lambda>role uuid. upd (on_page (on_view (appendChatItem (Some
               (new_ChatItem role uuid (ContentBubble (parseMixedMessage (emojiObject E) (t_msg_content msg))))))))) in
         if t_from_uid msg = cu_uid self_info then
           bnd (make_item E) (\<lambda>uuid.
           bnd (upd (on_umgr (set_user_icon '':/pic/head_3.jpg'' self_info))) (\<lambda>_.
           put Self uuid))
         else
           bnd (make_item E) (\<lambda>uuid.
           bnd (gets (\<lambda>s. GetFriendById (t_from_uid msg) (umgr s))) (\<lambda>y.
           case y of
             None \<Rightarrow> ret ()
           | Some a \<Rightarrow>
               bnd (upd (on_umgr (\<lambda>m. m\<lparr>friend_objs := (friend_objs m)(a :=
                 map_option (\<lambda>f. f\<lparr>f_icon := '':/pic/head_2.jpg''\<rparr>) (friend_objs m a))\<rparr>))) (\<lambda>_.
               put Other uuid))))"

definition view_count :: "int \<Rightarrow> chat_client \<Rightarrow> nat" where
  "view_count uid s = (case view_of (the_data uid (cpage s)) of None \<Rightarrow> 0 | Some v \<Rightarrow> getChatItemCount v)"

text \<open>The \<open>while\<close> loop at the end of \<open>SetFriendUserInfo\<close>; \<open>None\<close> when it does not end.\<close>

partial_function (option) show_rest :: "gui_env \<Rightarrow> int \<Rightarrow> chat_client \<Rightarrow> (unit result \<times> chat_client) option" where
  "show_rest E uid s =
     (let messages = view_msgs (the_data uid (cpage s)); n = view_count uid s in
      if n < length messages then
        (let (r, t) = AppendChatMsg E (messages ! n) s in
         if r = Val () then show_rest E uid t else Some (r, t))
      else Some (Val (), s))"

definition open_view :: "ClientUserInfo \<Rightarrow> ChatPage \<Rightarrow> ChatPage" where
  "open_view info p =
     (with_data (cu_uid info) (\<lambda>d. if view_of d = None then d\<lparr>view_of := Some new_ChatView\<rparr> else d)
        (p\<lparr>friend_user := Some info\<rparr>))\<lparr>shown_view := Some (cu_uid info)\<rparr>"

definition refresh_view :: "gui_env \<Rightarrow> ClientUserInfo \<Rightarrow> (chat_client, unit) prog" where
  "refresh_view E info =
     bnd (gets (\<lambda>s. view_msgs (the_data (cu_uid info) (cpage s)))) (\<lambda>messages.
     if length messages \<noteq> length (cu_chat_msgs info) then
       bnd (upd (on_page (with_data (cu_uid info) (\<lambda>d. d\<lparr>view_msgs := cu_chat_msgs info,
         view_of := map_option removeAllItem (view_of d)\<rparr>)))) (\<lambda>_.
       forM (AppendChatMsg E) (cu_chat_msgs info))
     else ret ())"

definition SetFriendUserInfo :: "gui_env \<Rightarrow> ClientUserInfo \<Rightarrow> chat_client \<Rightarrow> (unit result \<times> chat_client) option" where
  "SetFriendUserInfo E info s =
     (let (r, t) = bnd (upd (on_page (open_view info))) (\<lambda>_. refresh_view E info) s in
      if r = Val () then show_rest E (cu_uid info) t else Some (r, t))"

definition slot_append_send_chat_msg :: "TextChatData option \<Rightarrow> ChatPage \<Rightarrow> ChatPage" where
  "slot_append_send_chat_msg msgdata p =
     (case msgdata of None \<Rightarrow> p | Some msg \<Rightarrow> with_data (t_to_uid msg) (\<lambda>d. d\<lparr>view_msgs := view_msgs d @ [msg]\<rparr>) p)"

definition slot_notify_text_chat_msg :: "TextChatData list \<Rightarrow> ChatPage \<Rightarrow> ChatPage" where
  "slot_notify_text_chat_msg chat_msgs p =
     (if chat_msgs = [] then p
      else fold (\<lambda>msg. with_data (t_from_uid msg) (\<lambda>d. d\<lparr>view_msgs := view_msgs d @ [msg]\<rparr>)) chat_msgs p)"

section \<open>Sending\<close>

text \<open>\<open>ContentBubbleFrame::setContent\<close> reports whether the document got any text.\<close>

definition setContent :: "gui_env \<Rightarrow> MsgInfo list \<Rightarrow> bool" where
  "setContent E grp \<longleftrightarrow>
     (\<exists>msg \<in> set grp. msgFlag msg = ''text'' \<and> msg_body msg \<noteq> [] \<or> msgFlag msg = ''emotion'' \<and> movie_valid E (msg_body msg))"

definition createAndAppendChatItem :: "gui_env \<Rightarrow> MsgInfo list \<Rightarrow> bool \<Rightarrow> (chat_client, string) prog" where
  "createAndAppendChatItem E grp isPicture =
     (if grp = [] then ret []
      else
        bnd (make_item E) (\<lambda>uuid.
        if \<not> isPicture \<and> \<not> setContent E grp then ret []
        else
          bnd (upd (on_page (on_view (appendChatItem (Some (new_ChatItem Self uuid
            (if isPicture then PictureBubble (msg_body (hd grp)) else ContentBubble grp))))))) (\<lambda>_.
          ret uuid)))"

definition text_request_json :: "int \<Rightarrow> int \<Rightarrow> string \<Rightarrow> string \<Rightarrow> int \<Rightarrow> json" where
  "text_request_json from_uid to_uid msgid content send_time =
     jset ''msg_type'' (JInt 1) (
     jset ''send_time'' (JInt send_time) (
     jset ''content'' (JStr content) (
     jset ''msg_id'' (JStr msgid) (
     jset ''to_uid'' (JInt to_uid) (
     jset ''from_uid'' (JInt from_uid) JNull)))))"

text \<open>\<open>now n\<close> is the clock when the \<open>n\<close>-th request of the session is made.\<close>

definition send_group :: "gui_env \<Rightarrow> (nat \<Rightarrow> int) \<Rightarrow> int \<Rightarrow> MsgInfo list \<Rightarrow> string \<Rightarrow> (chat_client, unit) prog" where
  "send_group E now uid grp content =
     bnd (createAndAppendChatItem E grp False) (\<lambda>msgid.
     bnd (gets (\<lambda>s. now (length (sent (cpage s))))) (\<lambda>send_time.
     bnd (gets (\<lambda>s. friend_user (cpage s))) (\<lambda>x.
     case x of
       None \<Rightarrow> crash
     | Some fr \<Rightarrow>
         let txt_msg = \<lparr>t_msg_id = msgid, t_msg_content = content, t_from_uid = uid, t_to_uid = cu_uid fr,
               t_send_time = send_time, t_msg_type = 1, t_status = 0\<rparr> in
         bnd (upd (on_page (\<lambda>p. p\<lparr>sent := sent p @ [(1017, text_request_json uid (cu_uid fr) msgid content send_time)]\<rparr>))) (\<lambda>_.
         bnd (upd (on_page (slot_append_send_chat_msg (Some txt_msg)))) (\<lambda>_.
         upd (on_page (\<lambda>p. p\<lparr>appended := appended p @ [txt_msg]\<rparr>)))))))"

text \<open>
  \<open>QString::length\<close> of a text in UTF-8: the number of its UTF-16 code units. The bytes 128 to 191 continue
  a character, and a character whose first byte is 240 or more takes two units.
\<close>

definition QString_length :: "string \<Rightarrow> nat" where
  "QString_length txt = sum_list (map (\<lambda>c. let b = of_char c :: nat in if 128 \<le> b \<and> b < 192 then 0 else if 240 \<le> b then 2 else 1) txt)"

text \<open>The loop over the messages, with the current group and its text.\<close>

fun send_loop :: "gui_env \<Rightarrow> (nat \<Rightarrow> int) \<Rightarrow> int \<Rightarrow> MsgInfo list \<Rightarrow> string \<Rightarrow> MsgInfo list \<Rightarrow> (chat_client, unit) prog" where
  "send_loop E now uid grp content [] = (if grp \<noteq> [] then send_group E now uid grp content else ret ())"
| "send_loop E now uid grp content (msg # msgs) =
     (if QString_length (msg_body msg) > 1024 then send_loop E now uid grp content msgs
      else if msgFlag msg = ''image'' then
        bnd (if grp \<noteq> [] then send_group E now uid grp content else ret ()) (\<lambda>_.
        bnd (createAndAppendChatItem E [msg] True) (\<lambda>_.
        send_loop E now uid [] (if grp \<noteq> [] then [] else content) msgs))
      else if msgFlag msg = ''text'' \<or> msgFlag msg = ''emotion'' then
        send_loop E now uid (grp @ [msg]) (content @ msg_text msg) msgs
      else send_loop E now uid grp content msgs)"

definition on_send_btn_clicked :: "gui_env \<Rightarrow> (nat \<Rightarrow> int) \<Rightarrow> MsgInfo list \<Rightarrow> (chat_client, unit) prog" where
  "on_send_btn_clicked E now msgList =
     bnd (gets (\<lambda>s. GetUserInfo (umgr s))) (\<lambda>x.
     case x of
       None \<Rightarrow> crash
     | Some self_info \<Rightarrow>
         bnd (upd (on_umgr (set_user_icon '':/pic/head_1.jpg'' self_info))) (\<lambda>_.
         if msgList = [] then ret () else send_loop E now (cu_uid self_info) [] [] msgList))"

section \<open>Round trip of texts with emoticons\<close>

text \<open>
  What the editor can hold so that the receiver sees the same: texts are not empty and have no
  opening bracket, no two of them are adjacent, and an emoticon's name has no closing bracket or
  line feed and is listed in the receiver's table with its file.
\<close>

definition emotion_name :: "string \<Rightarrow> string" where
  "emotion_name path = butlast (tl (emotion_tag path))"

fun readable_msgs :: "(string \<Rightarrow> string) \<Rightarrow> MsgInfo list \<Rightarrow> bool" where
  "readable_msgs table [] \<longleftrightarrow> True"
| "readable_msgs table (m # ms) \<longleftrightarrow>
     (if msgFlag m = ''text'' then msg_body m \<noteq> [] \<and> CHR ''['' \<notin> set (msg_body m) \<and> (ms = [] \<or> msgFlag (hd ms) = ''emotion'')
      else msgFlag m = ''emotion'' \<and> set (emotion_name (msg_body m)) \<inter> {CHR '']'', CHR 0x0A} = {} \<and>
        table (emotion_name (msg_body m)) = msg_body m) \<and> readable_msgs table ms"

lemma emotion_tag_name: "emotion_tag path = CHR ''['' # emotion_name path @ [CHR '']'']"
  by (simp add: emotion_name_def emotion_tag_def Let_def)

lemma bracketed_name: "set key \<inter> {CHR '']'', CHR 0x0A} = {} \<Longrightarrow> bracketed (key @ CHR '']'' # rest) = Some (key, rest)"
  by (induction key) auto

lemma hd_readable: "readable_msgs table ms \<Longrightarrow> ms = [] \<or> msgFlag (hd ms) = ''emotion'' \<Longrightarrow>
    concat (map msg_text ms) = [] \<and> ms = [] \<or> (\<exists>rest. concat (map msg_text ms) = CHR ''['' # rest)"
  by (cases ms) (auto simp: msg_text_def emotion_tag_name)

lemma takeWhile_text:
  assumes "x \<notin> set xs" "ys = [] \<or> (\<exists>zs. ys = x # zs)"
  shows "takeWhile (\<lambda>d. d \<noteq> x) (xs @ ys) = xs" "dropWhile (\<lambda>d. d \<noteq> x) (xs @ ys) = ys"
proof -
  have "\<And>d. d \<in> set xs \<Longrightarrow> d \<noteq> x" using assms(1) by blast
  then show "takeWhile (\<lambda>d. d \<noteq> x) (xs @ ys) = xs" "dropWhile (\<lambda>d. d \<noteq> x) (xs @ ys) = ys"
    using assms(2) by (auto simp: takeWhile_append2 dropWhile_append2)
qed

text \<open>
  Texts with emoticons arrive as they were written: cutting the text that a group of messages is
  sent as gives the group back, when the editor's texts contain no opening bracket and the
  receiver's table knows the emoticons.
\<close>

theorem mixed_message_roundtrip:
  assumes "readable_msgs table ms"
  shows "parseMixedMessage (Some table) (concat (map msg_text ms)) = ms"
  using assms
proof (induction ms)
  case Nil
  then show ?case by (simp add: parseMixedMessage.simps)
next
  case (Cons m ms)
  have IH: "parseMixedMessage (Some table) (concat (map msg_text ms)) = ms" using Cons by simp
  show ?case
  proof (cases "msgFlag m = ''text''")
    case True
    obtain c cs where b: "msg_body m = c # cs" "c \<noteq> CHR ''[''" using Cons.prems True by (cases "msg_body m") auto
    have "concat (map msg_text ms) = [] \<or> (\<exists>rest. concat (map msg_text ms) = CHR ''['' # rest)"
      using hd_readable [of table ms] Cons.prems True by auto
    from takeWhile_text [OF _ this, of "msg_body m"] have t:
      "takeWhile (\<lambda>d. d \<noteq> CHR ''['') (msg_body m @ concat (map msg_text ms)) = msg_body m"
      "dropWhile (\<lambda>d. d \<noteq> CHR ''['') (msg_body m @ concat (map msg_text ms)) = concat (map msg_text ms)"
      using Cons.prems True by simp_all
    have "concat (map msg_text (m # ms)) = c # cs @ concat (map msg_text ms)" using True b by (simp add: msg_text_def)
    moreover have "m = \<lparr>msgFlag = ''text'', msg_body = msg_body m\<rparr>" using True by (cases m) simp
    ultimately show ?thesis
      using t b IH by (subst parseMixedMessage.simps) simp
  next
    case False
    then have e: "msgFlag m = ''emotion''" "table (emotion_name (msg_body m)) = msg_body m"
        "set (emotion_name (msg_body m)) \<inter> {CHR '']'', CHR 0x0A} = {}"
      using Cons.prems by simp_all
    have "concat (map msg_text (m # ms)) = CHR ''['' # emotion_name (msg_body m) @ CHR '']'' # concat (map msg_text ms)"
      using e(1) by (simp add: msg_text_def emotion_tag_name)
    moreover have "m = \<lparr>msgFlag = ''emotion'', msg_body = msg_body m\<rparr>" using e(1) by (cases m) simp
    ultimately show ?thesis
      using bracketed_name [OF e(3)] e(2) IH by (subst parseMixedMessage.simps) simp
  qed
qed

theorem mixed_message_roundtrip_witness:
  "parseMixedMessage (Some (\<lambda>k. '':/emo/'' @ k @ ''.png''))
     (concat (map msg_text [\<lparr>msgFlag = ''text'', msg_body = ''hi ''\<rparr>, \<lparr>msgFlag = ''emotion'', msg_body = '':/emo/smile.png''\<rparr>])) =
     [\<lparr>msgFlag = ''text'', msg_body = ''hi ''\<rparr>, \<lparr>msgFlag = ''emotion'', msg_body = '':/emo/smile.png''\<rparr>]"
  by (rule mixed_message_roundtrip) (simp add: emotion_name_def emotion_tag_def Let_def qmid_def)

section \<open>What a conversation shows\<close>

definition self_uid :: "chat_client \<Rightarrow> int" where
  "self_uid s = (case user_info (umgr s) of Some u \<Rightarrow> cu_uid u | None \<Rightarrow> 0)"

definition known_sender :: "chat_client \<Rightarrow> TextChatData \<Rightarrow> bool" where
  "known_sender s m \<longleftrightarrow> t_from_uid m = self_uid s \<or> CheckFriendById (t_from_uid m) (umgr s)"

definition bubble_for :: "gui_env \<Rightarrow> int \<Rightarrow> TextChatData \<Rightarrow> ChatRole \<times> bubble" where
  "bubble_for E self m =
     (if t_from_uid m = self then Self else Other, ContentBubble (parseMixedMessage (emojiObject E) (t_msg_content m)))"

definition shown :: "ChatView \<Rightarrow> (ChatRole \<times> bubble) list" where
  "shown v = map (\<lambda>u. let item = the (chatItems v u) in (ci_role item, ci_bubble item)) (vlayout v)"

text \<open>A view from which no bubble was deleted, with identifiers that were generated before.\<close>

definition view_in_step :: "gui_env \<Rightarrow> nat \<Rightarrow> ChatView \<Rightarrow> (ChatRole \<times> bubble) list \<Rightarrow> bool" where
  "view_in_step E n v bs \<longleftrightarrow> shown_ok v \<and> dom (chatItems v) = set (vlayout v) \<and>
     dom (chatItems v) \<subseteq> createUuid E ` {..<n} \<and> shown v = bs"

definition page_shows :: "gui_env \<Rightarrow> int \<Rightarrow> chat_client \<Rightarrow> (ChatRole \<times> bubble) list \<Rightarrow> bool" where
  "page_shows E uid s bs \<longleftrightarrow> shown_view (cpage s) = Some uid \<and> user_info (umgr s) \<noteq> None \<and>
     (\<exists>v. view_of (the_data uid (cpage s)) = Some v \<and> view_in_step E (uuid_count (cpage s)) v bs)"

text \<open>Nothing else changes while bubbles are added.\<close>

definition same_chat :: "int \<Rightarrow> chat_client \<Rightarrow> chat_client \<Rightarrow> bool" where
  "same_chat uid s t \<longleftrightarrow> self_uid t = self_uid s \<and> friend_map (umgr t) = friend_map (umgr s) \<and>
     view_msgs (the_data uid (cpage t)) = view_msgs (the_data uid (cpage s))"

lemma known_same: "same_chat uid s t \<Longrightarrow> known_sender t m = known_sender s m"
  by (simp add: same_chat_def known_sender_def CheckFriendById_def)

lemma view_count_shown: "page_shows E uid s bs \<Longrightarrow> view_count uid s = length bs"
  by (auto simp: page_shows_def view_in_step_def view_count_def getChatItemCount_def shown_ok_def shown_def distinct_card)

text \<open>
  The same for a view from which bubbles may have been taken that are still stored: \<open>k\<close> of them are
  stored and \<open>bs\<close> are seen.
\<close>

definition view_has :: "gui_env \<Rightarrow> nat \<Rightarrow> ChatView \<Rightarrow> nat \<Rightarrow> (ChatRole \<times> bubble) list \<Rightarrow> bool" where
  "view_has E n v k bs \<longleftrightarrow> shown_ok v \<and> dom (chatItems v) \<subseteq> createUuid E ` {..<n} \<and> getChatItemCount v = k \<and> shown v = bs"

definition page_has :: "gui_env \<Rightarrow> int \<Rightarrow> chat_client \<Rightarrow> nat \<Rightarrow> (ChatRole \<times> bubble) list \<Rightarrow> bool" where
  "page_has E uid s k bs \<longleftrightarrow> shown_view (cpage s) = Some uid \<and> user_info (umgr s) \<noteq> None \<and>
     (\<exists>v. view_of (the_data uid (cpage s)) = Some v \<and> view_has E (uuid_count (cpage s)) v k bs)"

lemma view_in_step_has: "view_in_step E n v bs \<longleftrightarrow> view_has E n v (length bs) bs"
proof
  assume "view_in_step E n v bs"
  then show "view_has E n v (length bs) bs"
    by (auto simp: view_in_step_def view_has_def getChatItemCount_def shown_ok_def shown_def distinct_card)
next
  assume h: "view_has E n v (length bs) bs"
  then have "set (vlayout v) \<subseteq> dom (chatItems v)" "finite (dom (chatItems v))" "card (dom (chatItems v)) = card (set (vlayout v))"
    by (auto simp: view_has_def getChatItemCount_def shown_ok_def shown_def distinct_card)
  then have "dom (chatItems v) = set (vlayout v)" by (metis card_subset_eq)
  then show "view_in_step E n v bs" using h by (simp add: view_in_step_def view_has_def)
qed

lemma page_shows_has: "page_shows E uid s bs \<longleftrightarrow> page_has E uid s (length bs) bs"
  by (simp add: page_shows_def page_has_def view_in_step_has)

lemma view_count_has: "page_has E uid s k bs \<Longrightarrow> view_count uid s = k"
  by (auto simp: page_has_def view_has_def view_count_def)

lemma view_has_append:
  assumes "inj (createUuid E)" and "view_has E n v k bs"
  shows "view_has E (Suc n) (appendChatItem (Some (new_ChatItem role (createUuid E n) b)) v) (Suc k) (bs @ [(role, b)])"
proof -
  let ?u = "createUuid E n"
  have fresh: "?u \<notin> dom (chatItems v)"
    using assms(2) inj_image_mem_iff [OF assms(1), of n "{..<n}"] by (auto simp: view_has_def)
  then have fresh': "?u \<notin> set (vlayout v)" using assms(2) by (auto simp: view_has_def shown_ok_def)
  have "filter (\<lambda>u. u \<noteq> ?u) (vlayout v) = vlayout v" using fresh' by (auto simp: filter_id_conv)
  moreover have "shown_ok (appendChatItem (Some (new_ChatItem role ?u b)) v)" "finite (dom (chatItems v))"
    using assms(2) by (simp_all add: view_has_def shown_ok_insertions) (simp add: shown_ok_def)
  ultimately show ?thesis
    using assms(2) fresh fresh' by (auto simp: view_has_def getChatItemCount_def shown_def appendChatItem_def store_item_def new_ChatItem_def Let_def lessThan_Suc)
qed

lemma view_has_later: "view_has E n v k bs \<Longrightarrow> view_has E (Suc n) v k bs"
  by (auto simp: view_has_def lessThan_Suc)

lemma the_data_with [simp]:
  "the_data uid (with_data uid' f p) = (if uid = uid' then f (the_data uid p) else the_data uid p)"
  "the_data uid (p\<lparr>uuid_count := n\<rparr>) = the_data uid p"
  "the_data uid (p\<lparr>shown_view := x\<rparr>) = the_data uid p"
  "the_data uid (p\<lparr>friend_user := y\<rparr>) = the_data uid p"
  "the_data uid (p\<lparr>sent := l\<rparr>) = the_data uid p"
  "the_data uid (p\<lparr>appended := k\<rparr>) = the_data uid p"
  by (simp_all add: with_data_def the_data_def)

lemma with_data_rest [simp]:
  "shown_view (with_data uid f p) = shown_view p" "uuid_count (with_data uid f p) = uuid_count p"
  "sent (with_data uid f p) = sent p" "appended (with_data uid f p) = appended p" "friend_user (with_data uid f p) = friend_user p"
  by (simp_all add: with_data_def)

lemma AppendChatMsg_has:
  assumes "inj (createUuid E)" and "page_has E uid s k bs"
  obtains t where "AppendChatMsg E m s = (Val (), t)" "same_chat uid s t"
    "page_has E uid t (if known_sender s m then Suc k else k) (bs @ (if known_sender s m then [bubble_for E (self_uid s) m] else []))"
proof -
  obtain v where v: "view_of (the_data uid (cpage s)) = Some v" "view_has E (uuid_count (cpage s)) v k bs"
      "shown_view (cpage s) = Some uid" using assms(2) by (auto simp: page_has_def)
  obtain u where u: "user_info (umgr s) = Some u" using assms(2) by (auto simp: page_has_def)
  note defs = AppendChatMsg_def make_item_def GetUserInfo_def GetFriendById_def on_page_def on_umgr_def on_view_def set_user_icon_def
    prog_defs Let_def v u page_has_def same_chat_def self_uid_def known_sender_def CheckFriendById_def bubble_for_def
    view_has_append [OF assms(1) v(2)] view_has_later [OF v(2)]
  consider (self) "t_from_uid m = cu_uid u" | (unknown) "t_from_uid m \<noteq> cu_uid u" "friend_map (umgr s) (t_from_uid m) = None"
    | (friend) a where "t_from_uid m \<noteq> cu_uid u" "friend_map (umgr s) (t_from_uid m) = Some a"
    by (cases "friend_map (umgr s) (t_from_uid m)") auto
  then show thesis
  proof cases
    case self
    then show thesis by (intro that) (auto simp: defs)
  next
    case unknown
    then show thesis by (intro that) (auto simp: defs)
  next
    case friend
    then show thesis by (intro that) (auto simp: defs)
  qed
qed

lemma AppendChatMsg_step:
  assumes "inj (createUuid E)" and "page_shows E uid s bs"
  obtains t where "AppendChatMsg E m s = (Val (), t)" "same_chat uid s t"
    "page_shows E uid t (bs @ (if known_sender s m then [bubble_for E (self_uid s) m] else []))"
proof -
  have "page_has E uid s (length bs) bs" using assms(2) by (simp only: page_shows_has)
  from AppendChatMsg_has [OF assms(1) this, of m] obtain t where "AppendChatMsg E m s = (Val (), t)" "same_chat uid s t"
      "page_has E uid t (if known_sender s m then Suc (length bs) else length bs)
        (bs @ (if known_sender s m then [bubble_for E (self_uid s) m] else []))" by blast
  then show thesis by (intro that [of t]) (simp_all add: page_shows_has split: if_splits)
qed

lemma forM_AppendChatMsg:
  assumes "inj (createUuid E)" and "page_shows E uid s bs"
  shows "\<exists>t. forM (AppendChatMsg E) ms s = (Val (), t) \<and> same_chat uid s t \<and>
    page_shows E uid t (bs @ map (bubble_for E (self_uid s)) (filter (known_sender s) ms))"
  using assms(2)
proof (induction ms arbitrary: s bs)
  case Nil
  then show ?case by (simp add: ret_def same_chat_def)
next
  case (Cons m ms)
  obtain t where t: "AppendChatMsg E m s = (Val (), t)" "same_chat uid s t"
      "page_shows E uid t (bs @ (if known_sender s m then [bubble_for E (self_uid s) m] else []))"
    using AppendChatMsg_step [OF assms(1) Cons.prems] by blast
  have k: "known_sender t = known_sender s" "self_uid t = self_uid s"
    using t(2) by (auto simp: fun_eq_iff known_same [OF t(2)] same_chat_def)
  from Cons.IH [OF t(3)] show ?case by (auto simp: bnd_def t(1) k) (use t(2) in \<open>auto simp: same_chat_def\<close>)
qed

lemma show_rest_all:
  assumes inj: "inj (createUuid E)"
  shows "page_shows E uid s bs \<Longrightarrow> ms = view_msgs (the_data uid (cpage s)) \<Longrightarrow> \<forall>m \<in> set ms. known_sender s m \<Longrightarrow>
    length bs \<le> length ms \<Longrightarrow> bs = map (bubble_for E (self_uid s)) (take (length bs) ms) \<Longrightarrow>
    \<exists>t. show_rest E uid s = Some (Val (), t) \<and> page_shows E uid t (map (bubble_for E (self_uid s)) ms) \<and> same_chat uid s t"
proof (induction "length ms - length bs" arbitrary: s bs)
  case 0
  then have "view_count uid s = length ms" using view_count_shown [OF 0(2)] by simp
  then have "show_rest E uid s = Some (Val (), s)" using 0(3) by (subst show_rest.simps) simp
  then show ?case using 0 by (simp add: same_chat_def)
next
  case (Suc n)
  then have l: "length bs < length ms" by simp
  obtain t where t: "AppendChatMsg E (ms ! length bs) s = (Val (), t)" "same_chat uid s t"
      "page_shows E uid t (bs @ (if known_sender s (ms ! length bs) then [bubble_for E (self_uid s) (ms ! length bs)] else []))"
    using AppendChatMsg_step [OF inj Suc.prems(1)] by blast
  have k: "known_sender s (ms ! length bs)" using Suc.prems(3) l by simp
  have "show_rest E uid s = show_rest E uid t"
    using l t(1) view_count_shown [OF Suc.prems(1)] Suc.prems(2) by (subst show_rest.simps) simp
  moreover have "\<exists>t'. show_rest E uid t = Some (Val (), t') \<and> page_shows E uid t' (map (bubble_for E (self_uid t)) ms) \<and> same_chat uid t t'"
  proof (rule Suc.hyps(1))
    show "n = length ms - length (bs @ [bubble_for E (self_uid s) (ms ! length bs)])" using Suc.hyps(2) by simp
    show "page_shows E uid t (bs @ [bubble_for E (self_uid s) (ms ! length bs)])" using t(3) k by simp
    show "bs @ [bubble_for E (self_uid s) (ms ! length bs)] = map (bubble_for E (self_uid t)) (take (length (bs @ [bubble_for E (self_uid s) (ms ! length bs)])) ms)"
      using Suc.prems(5) l t(2) by (simp add: take_Suc_conv_app_nth same_chat_def)
  qed (use Suc.prems(2,3) t(2) l in \<open>simp_all add: known_same [OF t(2)] same_chat_def\<close>)
  ultimately show ?case using t(2) by (simp add: same_chat_def)
qed

lemma show_rest_hangs:
  assumes inj: "inj (createUuid E)" and s: "page_shows E uid s bs" "length bs < length (view_msgs (the_data uid (cpage s)))"
    "\<not> known_sender s (last (view_msgs (the_data uid (cpage s))))"
  shows "show_rest E uid s = None"
proof -
  define stuck where "stuck = (\<lambda>x. \<exists>bs. page_shows E uid x bs \<and> length bs < length (view_msgs (the_data uid (cpage x))) \<and>
    \<not> known_sender x (last (view_msgs (the_data uid (cpage x)))))"
  have step: "\<exists>t. AppendChatMsg E (view_msgs (the_data uid (cpage x)) ! view_count uid x) x = (Val (), t) \<and> stuck t"
    if x: "stuck x" for x
  proof -
    obtain cs where cs: "page_shows E uid x cs" "length cs < length (view_msgs (the_data uid (cpage x)))"
        "\<not> known_sender x (last (view_msgs (the_data uid (cpage x))))" using x by (auto simp: stuck_def)
    let ?ms = "view_msgs (the_data uid (cpage x))" and ?m = "view_msgs (the_data uid (cpage x)) ! length cs"
    obtain t where t: "AppendChatMsg E ?m x = (Val (), t)" "same_chat uid x t"
        "page_shows E uid t (cs @ (if known_sender x ?m then [bubble_for E (self_uid x) ?m] else []))"
      using AppendChatMsg_step [OF inj cs(1)] by blast
    have "Suc (length cs) \<noteq> length ?ms" if "known_sender x ?m"
      using that cs(2,3) by (metis diff_Suc_1 last_conv_nth length_greater_0_conv less_nat_zero_code neq0_conv)
    then have "length (cs @ (if known_sender x ?m then [bubble_for E (self_uid x) ?m] else [])) < length ?ms"
      using cs(2) by auto
    moreover have "view_msgs (the_data uid (cpage t)) = ?ms" "\<not> known_sender t (last ?ms)"
      using t(2) cs(3) by (simp_all add: same_chat_def known_same [OF t(2)])
    ultimately have "stuck t" using t(3) unfolding stuck_def by metis
    then show ?thesis using t(1) view_count_shown [OF cs(1)] by simp
  qed
  have "\<not> stuck s" if ret: "show_rest E uid s = Some y" for y
  proof (rule show_rest.raw_induct [where P = "\<lambda>E' uid' x y. E' = E \<and> uid' = uid \<longrightarrow> \<not> stuck x", OF _ ret, simplified])
    fix f E' uid' x y
    assume IH: "\<And>E' uid' x y. f E' uid' x = Some y \<Longrightarrow> E' = E \<and> uid' = uid \<longrightarrow> \<not> stuck x"
      and eq: "(let messages = view_msgs (the_data uid' (cpage x)); n = view_count uid' x in
        if n < length messages then (let (r, t) = AppendChatMsg E' (messages ! n) x in if r = Val () then f E' uid' t else Some (r, t))
        else Some (Val (), x)) = Some y"
    show "E' = E \<and> uid' = uid \<longrightarrow> \<not> stuck x"
    proof (intro impI notI)
      assume e: "E' = E \<and> uid' = uid" and st: "stuck x"
      obtain t where t: "AppendChatMsg E (view_msgs (the_data uid (cpage x)) ! view_count uid x) x = (Val (), t)" "stuck t"
        using step [OF st] by blast
      have "view_count uid x < length (view_msgs (the_data uid (cpage x)))"
        using st view_count_shown by (auto simp: stuck_def)
      with eq t(1) e have "f E uid t = Some y" by simp
      with IH t(2) show False by blast
    qed
  qed
  moreover have "stuck s" using s unfolding stuck_def by blast
  ultimately show ?thesis by (cases "show_rest E uid s") blast+
qed

lemma removeAllItem_in_step: "shown_ok v \<Longrightarrow> view_in_step E n (removeAllItem v) []"
  using shown_ok_removeAllItem [of v] by (simp add: view_in_step_def shown_def) (simp add: removeAllItem_def)

lemma new_view_in_step: "view_in_step E n new_ChatView []"
  by (simp add: view_in_step_def shown_def shown_ok_def new_ChatView_def)

lemma refresh_run:
  assumes inj: "inj (createUuid E)" and user: "user_info (umgr s) = Some u"
    and d: "the_data (cu_uid info) (cpage s) = d" "length (view_msgs d) \<noteq> length (cu_chat_msgs info)"
    and ok: "\<And>v. view_of d = Some v \<Longrightarrow> shown_ok v"
  obtains t where "bnd (upd (on_page (open_view info))) (\<lambda>_. refresh_view E info) s = (Val (), t)"
    "self_uid t = self_uid s" "known_sender t = known_sender s" "view_msgs (the_data (cu_uid info) (cpage t)) = cu_chat_msgs info"
    "page_shows E (cu_uid info) t (map (bubble_for E (self_uid s)) (filter (known_sender s) (cu_chat_msgs info)))"
proof -
  let ?uid = "cu_uid info"
  let ?s1 = "on_page (open_view info) s"
  let ?s2 = "on_page (with_data ?uid (\<lambda>d. d\<lparr>view_msgs := cu_chat_msgs info, view_of := map_option removeAllItem (view_of d)\<rparr>)) ?s1"
  have d1: "the_data ?uid (cpage ?s1) = (if view_of d = None then d\<lparr>view_of := Some new_ChatView\<rparr> else d)"
    using d(1) by (simp add: on_page_def open_view_def)
  have new: "shown_ok new_ChatView" by (simp add: shown_ok_def new_ChatView_def)
  have "page_shows E ?uid ?s2 []"
    using d1 user new ok removeAllItem_in_step
    by (cases "view_of d") (auto simp: page_shows_def on_page_def open_view_def d(1))
  then obtain t where t: "forM (AppendChatMsg E) (cu_chat_msgs info) ?s2 = (Val (), t)" "same_chat ?uid ?s2 t"
      "page_shows E ?uid t (map (bubble_for E (self_uid ?s2)) (filter (known_sender ?s2) (cu_chat_msgs info)))"
    using forM_AppendChatMsg [OF inj, of ?uid ?s2 "[]" "cu_chat_msgs info"] by auto
  have e: "self_uid ?s2 = self_uid s" "known_sender ?s2 = known_sender s"
    by (auto simp: self_uid_def known_sender_def on_page_def fun_eq_iff)
  have "view_msgs (the_data ?uid (cpage ?s1)) = view_msgs d" by (simp add: d1)
  then have "bnd (upd (on_page (open_view info))) (\<lambda>_. refresh_view E info) s = (Val (), t)"
    using t(1) d(2) by (simp add: refresh_view_def prog_defs)
  moreover have "view_msgs (the_data ?uid (cpage ?s2)) = cu_chat_msgs info" by (simp add: on_page_def)
  ultimately show thesis using t(2,3) e known_same [OF t(2)] by (intro that) (auto simp: same_chat_def fun_eq_iff)
qed

text \<open>
  The messages a conversation consists of when it is opened: the friend's own list when the cached one
  has another length. The cached view has to show a beginning of it, unless it is filled anew.
\<close>

definition conversation :: "ClientUserInfo \<Rightarrow> chat_client \<Rightarrow> TextChatData list" where
  "conversation info s =
     (let cached = view_msgs (the_data (cu_uid info) (cpage s)) in
      if length cached \<noteq> length (cu_chat_msgs info) then cu_chat_msgs info else cached)"

definition ready_to_show :: "gui_env \<Rightarrow> ClientUserInfo \<Rightarrow> chat_client \<Rightarrow> bool" where
  "ready_to_show E info s \<longleftrightarrow>
     (case view_of (the_data (cu_uid info) (cpage s)) of
        None \<Rightarrow> True
      | Some v \<Rightarrow>
          if length (view_msgs (the_data (cu_uid info) (cpage s))) \<noteq> length (cu_chat_msgs info) then shown_ok v
          else length (vlayout v) \<le> length (conversation info s) \<and>
            view_in_step E (uuid_count (cpage s)) v (map (bubble_for E (self_uid s)) (take (length (vlayout v)) (conversation info s))))"

lemma SetFriendUserInfo_shows:
  assumes inj: "inj (createUuid E)" and user: "user_info (umgr s) = Some u"
    and known: "\<forall>m \<in> set (conversation info s). known_sender s m" and ready: "ready_to_show E info s"
  shows "\<exists>t. SetFriendUserInfo E info s = Some (Val (), t) \<and>
    page_shows E (cu_uid info) t (map (bubble_for E (cu_uid u)) (conversation info s)) \<and>
    view_msgs (the_data (cu_uid info) (cpage t)) = conversation info s"
proof -
  let ?uid = "cu_uid info"
  define d where "d = the_data ?uid (cpage s)"
  have self: "self_uid s = cu_uid u" using user by (simp add: self_uid_def)
  show ?thesis
  proof (cases "length (view_msgs d) \<noteq> length (cu_chat_msgs info)")
    case True
    then have c: "conversation info s = cu_chat_msgs info" by (simp add: conversation_def d_def)
    have "\<And>v. view_of d = Some v \<Longrightarrow> shown_ok v" using ready True by (simp add: ready_to_show_def d_def)
    from refresh_run [OF inj user d_def [symmetric] True this] obtain t where t:
      "bnd (upd (on_page (open_view info))) (\<lambda>_. refresh_view E info) s = (Val (), t)"
      "self_uid t = self_uid s" "known_sender t = known_sender s" "view_msgs (the_data ?uid (cpage t)) = cu_chat_msgs info"
      "page_shows E ?uid t (map (bubble_for E (self_uid s)) (filter (known_sender s) (cu_chat_msgs info)))" by blast
    have f: "filter (known_sender s) (cu_chat_msgs info) = cu_chat_msgs info" using known c by (simp add: filter_id_conv)
    have "\<exists>t'. show_rest E ?uid t = Some (Val (), t') \<and> page_shows E ?uid t' (map (bubble_for E (self_uid t)) (cu_chat_msgs info)) \<and> same_chat ?uid t t'"
      using t known c f by (intro show_rest_all [OF inj, of ?uid t "map (bubble_for E (self_uid s)) (cu_chat_msgs info)"]) simp_all
    then show ?thesis using t(1,2,4) c self by (auto simp: SetFriendUserInfo_def same_chat_def)
  next
    case False
    let ?s1 = "on_page (open_view info) s"
    have c: "conversation info s = view_msgs d" using False by (simp add: conversation_def d_def)
    have d1: "the_data ?uid (cpage ?s1) = (if view_of d = None then d\<lparr>view_of := Some new_ChatView\<rparr> else d)"
      by (simp add: on_page_def open_view_def d_def)
    have r: "bnd (upd (on_page (open_view info))) (\<lambda>_. refresh_view E info) s = (Val (), ?s1)"
      using False d1 by (simp add: refresh_view_def prog_defs)
    have e: "self_uid ?s1 = self_uid s" "known_sender ?s1 = known_sender s" "uuid_count (cpage ?s1) = uuid_count (cpage s)"
      by (auto simp: self_uid_def known_sender_def on_page_def open_view_def fun_eq_iff)
    obtain n where n: "n \<le> length (view_msgs d)" "page_shows E ?uid ?s1 (map (bubble_for E (self_uid s)) (take n (view_msgs d)))"
    proof (cases "view_of d")
      case None
      then show thesis using that [of 0] new_view_in_step user d1
        by (simp add: page_shows_def) (simp add: on_page_def open_view_def)
    next
      case (Some v)
      then show thesis using that [of "length (vlayout v)"] ready False c user d1 e(3)
        by (simp add: page_shows_def ready_to_show_def d_def [symmetric]) (simp add: on_page_def open_view_def)
    qed
    have "\<exists>t. show_rest E ?uid ?s1 = Some (Val (), t) \<and> page_shows E ?uid t (map (bubble_for E (self_uid ?s1)) (view_msgs d)) \<and> same_chat ?uid ?s1 t"
      using n known c e d1 by (intro show_rest_all [OF inj n(2)]) auto
    moreover have "view_msgs (the_data ?uid (cpage ?s1)) = view_msgs d" by (simp add: d1)
    ultimately show ?thesis using r e(1) c self by (auto simp: SetFriendUserInfo_def same_chat_def)
  qed
qed

lemma show_rest_adds:
  assumes inj: "inj (createUuid E)"
  shows "page_has E uid s k bs \<Longrightarrow> ms = view_msgs (the_data uid (cpage s)) \<Longrightarrow> \<forall>m \<in> set (drop k ms). known_sender s m \<Longrightarrow>
    \<exists>t j. show_rest E uid s = Some (Val (), t) \<and> page_has E uid t j (bs @ map (bubble_for E (self_uid s)) (drop k ms))"
proof (induction "length ms - k" arbitrary: s k bs)
  case 0
  then have "show_rest E uid s = Some (Val (), s)" using view_count_has [OF 0(2)] by (subst show_rest.simps) simp
  then show ?case using 0 by auto
next
  case (Suc n)
  then have l: "k < length ms" by simp
  then have d: "drop k ms = ms ! k # drop (Suc k) ms" by (rule Cons_nth_drop_Suc [symmetric])
  have k: "known_sender s (ms ! k)" using Suc.prems(3) d by simp
  obtain t where t: "AppendChatMsg E (ms ! k) s = (Val (), t)" "same_chat uid s t"
      "page_has E uid t (Suc k) (bs @ [bubble_for E (self_uid s) (ms ! k)])"
    using AppendChatMsg_has [OF inj Suc.prems(1), of "ms ! k"] k by auto
  have "show_rest E uid s = show_rest E uid t"
    using l t(1) view_count_has [OF Suc.prems(1)] Suc.prems(2) by (subst show_rest.simps) simp
  moreover have "\<exists>t' j. show_rest E uid t = Some (Val (), t') \<and>
      page_has E uid t' j ((bs @ [bubble_for E (self_uid s) (ms ! k)]) @ map (bubble_for E (self_uid t)) (drop (Suc k) ms))"
    by (rule Suc.hyps(1) [OF _ t(3)]) (use Suc.hyps(2) Suc.prems d t(2) in \<open>simp_all add: known_same [OF t(2)] same_chat_def\<close>)
  ultimately show ?case using t(2) d by (simp add: same_chat_def)
qed

text \<open>
  C24. Opening a conversation: let the senders of the messages still to be shown be the user or friends, and
  the view kept for this friend, if there is one, consistent with its own table. Then
  \<open>SetFriendUserInfo\<close> returns and the page shows that friend's view. When the friend's list of messages has
  another length than the cached one, the view then has one bubble for each message of the list, in
  order and on the side of its sender, and nothing else; otherwise the bubbles it had stay, pictures
  among them, and bubbles of the cached messages from the number of stored bubbles on follow them.
\<close>

theorem conversation_shown:
  assumes inj: "inj (createUuid E)" and user: "user_info (umgr s) = Some u"
    and cached: "view_msgs (the_data (cu_uid info) (cpage s)) = cached"
    and view: "v = (case view_of (the_data (cu_uid info) (cpage s)) of None \<Rightarrow> new_ChatView | Some v \<Rightarrow> v)"
      "shown_ok v" "dom (chatItems v) \<subseteq> createUuid E ` {..<uuid_count (cpage s)}"
    and known: "\<forall>m \<in> set (if length cached \<noteq> length (cu_chat_msgs info) then cu_chat_msgs info else drop (getChatItemCount v) cached).
      known_sender s m"
  shows "\<exists>t w. SetFriendUserInfo E info s = Some (Val (), t) \<and> shown_view (cpage t) = Some (cu_uid info) \<and>
    view_of (the_data (cu_uid info) (cpage t)) = Some w \<and>
    shown w = (if length cached \<noteq> length (cu_chat_msgs info) then map (bubble_for E (cu_uid u)) (cu_chat_msgs info)
      else shown v @ map (bubble_for E (cu_uid u)) (drop (getChatItemCount v) cached))"
proof (cases "length cached \<noteq> length (cu_chat_msgs info)")
  case True
  have "ready_to_show E info s"
    using True cached view by (auto simp: ready_to_show_def split: option.splits)
  moreover have "conversation info s = cu_chat_msgs info" using True cached by (simp add: conversation_def)
  ultimately show ?thesis
    using SetFriendUserInfo_shows [OF inj user, of info] known True
    by (auto simp: page_shows_def view_in_step_def)
next
  case False
  let ?uid = "cu_uid info" and ?s1 = "on_page (open_view info) s"
  have d1: "view_msgs (the_data ?uid (cpage ?s1)) = cached" "view_of (the_data ?uid (cpage ?s1)) = Some v"
    using cached view(1) by (auto simp: on_page_def open_view_def split: option.splits)
  have r: "bnd (upd (on_page (open_view info))) (\<lambda>_. refresh_view E info) s = (Val (), ?s1)"
    using False d1 by (simp add: refresh_view_def prog_defs)
  have e: "self_uid ?s1 = cu_uid u" "known_sender ?s1 = known_sender s"
    using user by (auto simp: self_uid_def known_sender_def on_page_def fun_eq_iff)
  have "page_has E ?uid ?s1 (getChatItemCount v) (shown v)"
    using view(2,3) user d1(2) by (simp add: page_has_def view_has_def) (simp add: on_page_def open_view_def)
  from show_rest_adds [OF inj this d1(1) [symmetric]] show ?thesis
    using r e known False by (fastforce simp: SetFriendUserInfo_def page_has_def view_has_def)
qed

text \<open>
  C39. A conversation that ends with a message of somebody who is neither the user nor a friend stops the
  client: no bubble is added for it, so the loop that waits for as many bubbles as messages does not
  end.
\<close>

theorem unknown_sender_hangs:
  assumes inj: "inj (createUuid E)" and user: "user_info (umgr s) = Some u" and ready: "ready_to_show E info s"
    and fill: "length (view_msgs (the_data (cu_uid info) (cpage s))) \<noteq> length (cu_chat_msgs info)"
    and unknown: "cu_chat_msgs info \<noteq> []" "\<not> known_sender s (last (cu_chat_msgs info))"
  shows "SetFriendUserInfo E info s = None"
proof -
  have "\<And>v. view_of (the_data (cu_uid info) (cpage s)) = Some v \<Longrightarrow> shown_ok v" using ready fill by (simp add: ready_to_show_def)
  from refresh_run [OF inj user refl fill this] obtain t where t:
    "bnd (upd (on_page (open_view info))) (\<lambda>_. refresh_view E info) s = (Val (), t)"
    "known_sender t = known_sender s" "view_msgs (the_data (cu_uid info) (cpage t)) = cu_chat_msgs info"
    "page_shows E (cu_uid info) t (map (bubble_for E (self_uid s)) (filter (known_sender s) (cu_chat_msgs info)))" by blast
  have "length (filter (known_sender s) (cu_chat_msgs info)) < length (cu_chat_msgs info)"
    using unknown by (intro length_filter_less [of "last (cu_chat_msgs info)"]) simp_all
  then have "show_rest E (cu_uid info) t = None"
    using unknown t by (intro show_rest_hangs [OF inj t(4)]) simp_all
  then show ?thesis by (simp add: SetFriendUserInfo_def t(1))
qed

text \<open>
  A view with as many bubbles as messages is left as it is, also when some of its bubbles are pictures,
  which are not among the messages: the last messages then stay hidden.
\<close>

lemma full_view_kept:
  assumes "view_of (the_data (cu_uid info) (cpage s)) = Some v"
    "length (view_msgs (the_data (cu_uid info) (cpage s))) = length (cu_chat_msgs info)"
    "length (cu_chat_msgs info) \<le> getChatItemCount v"
  shows "SetFriendUserInfo E info s = Some (Val (), on_page (open_view info) s)"
proof -
  let ?s = "on_page (open_view info) s"
  have d: "the_data (cu_uid info) (cpage ?s) = the_data (cu_uid info) (cpage s)"
    using assms(1) by (simp add: on_page_def open_view_def)
  have "show_rest E (cu_uid info) ?s = Some (Val (), ?s)"
    using assms d by (subst show_rest.simps) (simp add: view_count_def)
  then show ?thesis using assms(2) d by (simp add: SetFriendUserInfo_def refresh_view_def prog_defs)
qed

section \<open>What is sent\<close>

definition accepted :: "MsgInfo \<Rightarrow> bool" where
  "accepted m \<longleftrightarrow> QString_length (msg_body m) \<le> 1024 \<and> (msgFlag m = ''text'' \<or> msgFlag m = ''emotion'')"

definition request_of :: "TextChatData \<Rightarrow> int \<times> json" where
  "request_of d = (1017, text_request_json (t_from_uid d) (t_to_uid d) (t_msg_id d) (t_msg_content d) (t_send_time d))"

text \<open>The texts \<open>ds\<close> were sent to the friend on the way from one state of the page to another.\<close>

definition sends :: "gui_env \<Rightarrow> int \<Rightarrow> ClientUserInfo \<Rightarrow> TextChatData list \<Rightarrow> ChatPage \<Rightarrow> ChatPage \<Rightarrow> bool" where
  "sends E uid fr ds p q \<longleftrightarrow> friend_user q = friend_user p \<and> sent q = sent p @ map request_of ds \<and> appended q = appended p @ ds \<and>
     view_msgs (the_data (cu_uid fr) q) = view_msgs (the_data (cu_uid fr) p) @ ds \<and>
     uuid_count p \<le> uuid_count q \<and> t_msg_id ` set ds \<subseteq> createUuid E ` {uuid_count p..<uuid_count q} \<and> distinct (map t_msg_id ds) \<and>
     (\<forall>d \<in> set ds. t_from_uid d = uid \<and> t_to_uid d = cu_uid fr)"

lemma sends_none: "sends E uid fr [] p p"
  by (simp add: sends_def)

lemma sends_trans:
  assumes "inj (createUuid E)" "sends E uid fr ds p q" "sends E uid fr es q r"
  shows "sends E uid fr (ds @ es) p r"
proof -
  have "createUuid E ` {uuid_count p..<uuid_count q} \<inter> createUuid E ` {uuid_count q..<uuid_count r} = {}"
    using assms(1) by (auto simp: inj_eq)
  then have "t_msg_id ` set ds \<inter> t_msg_id ` set es = {}"
    using assms(2,3) unfolding sends_def by blast
  moreover have "createUuid E ` {uuid_count p..<uuid_count q} \<union> createUuid E ` {uuid_count q..<uuid_count r} \<subseteq>
      createUuid E ` {uuid_count p..<uuid_count r}" if "uuid_count p \<le> uuid_count q" "uuid_count q \<le> uuid_count r"
    using that by auto
  ultimately show ?thesis
    using assms(2,3) unfolding sends_def by (simp add: ball_Un image_Un) (meson subset_trans)
qed

lemma on_view_rest [simp]:
  "friend_user (on_view f p) = friend_user p" "sent (on_view f p) = sent p" "appended (on_view f p) = appended p"
  "uuid_count (on_view f p) = uuid_count p" "view_msgs (the_data uid (on_view f p)) = view_msgs (the_data uid p)"
  by (simp_all add: on_view_def with_data_def split: option.splits) (auto simp: the_data_def)

lemma createAndAppend_run:
  assumes "setContent E grp \<or> pic" and "grp \<noteq> []"
  obtains t where "createAndAppendChatItem E grp pic s = (Val (createUuid E (uuid_count (cpage s))), t)" "umgr t = umgr s"
    "friend_user (cpage t) = friend_user (cpage s)" "sent (cpage t) = sent (cpage s)" "appended (cpage t) = appended (cpage s)"
    "uuid_count (cpage t) = Suc (uuid_count (cpage s))"
    "\<And>uid. view_msgs (the_data uid (cpage t)) = view_msgs (the_data uid (cpage s))"
proof -
  show thesis
    by (rule that [of "snd (createAndAppendChatItem E grp pic s)"])
      (use assms in \<open>auto simp: createAndAppendChatItem_def make_item_def prog_defs on_page_def\<close>)
qed

lemma send_group_run:
  assumes "setContent E grp" "grp \<noteq> []" "friend_user (cpage s) = Some fr"
  obtains t d where "send_group E now uid grp content s = (Val (), t)" "umgr t = umgr s" "sends E uid fr [d] (cpage s) (cpage t)"
    "t_msg_content d = content"
proof -
  obtain t where t: "createAndAppendChatItem E grp False s = (Val (createUuid E (uuid_count (cpage s))), t)" "umgr t = umgr s"
      "friend_user (cpage t) = friend_user (cpage s)" "sent (cpage t) = sent (cpage s)" "appended (cpage t) = appended (cpage s)"
      "uuid_count (cpage t) = Suc (uuid_count (cpage s))"
      "\<And>uid. view_msgs (the_data uid (cpage t)) = view_msgs (the_data uid (cpage s))"
    using createAndAppend_run [of E grp False s] assms by blast
  let ?d = "\<lparr>t_msg_id = createUuid E (uuid_count (cpage s)), t_msg_content = content, t_from_uid = uid, t_to_uid = cu_uid fr,
    t_send_time = now (length (sent (cpage s))), t_msg_type = 1, t_status = 0\<rparr>"
  show thesis
    by (rule that [of "snd (send_group E now uid grp content s)" ?d])
      (use assms t in \<open>simp_all add: send_group_def prog_defs on_page_def slot_append_send_chat_msg_def sends_def request_of_def
        Let_def\<close>)
qed

lemma setContent_visible: "m \<in> set grp \<Longrightarrow> setContent E [m] \<Longrightarrow> setContent E grp"
  by (auto simp: setContent_def)

lemma sends_picture:
  assumes "friend_user q = friend_user p" "sent q = sent p" "appended q = appended p" "uuid_count q = Suc (uuid_count p)"
    "\<And>uid. view_msgs (the_data uid q) = view_msgs (the_data uid p)"
  shows "sends E uid fr [] p q"
  using assms by (simp add: sends_def)

lemma flush_run:
  assumes "\<forall>m \<in> set grp. setContent E [m]" "friend_user (cpage s) = Some fr" "content = concat (map msg_text grp)"
  obtains t ds where "(if grp \<noteq> [] then send_group E now uid grp content else ret ()) s = (Val (), t)" "umgr t = umgr s"
    "sends E uid fr ds (cpage s) (cpage t)" "concat (map t_msg_content ds) = content"
proof (cases "grp = []")
  case True
  then show thesis using assms(3) by (intro that [of s "[]"]) (simp_all add: ret_def sends_none)
next
  case False
  then have "setContent E grp" using assms(1) setContent_visible by (metis list.set_intros(1) neq_Nil_conv)
  from send_group_run [OF this False assms(2), of now uid content] obtain t d where
    "send_group E now uid grp content s = (Val (), t)" "umgr t = umgr s" "sends E uid fr [d] (cpage s) (cpage t)" "t_msg_content d = content"
    by blast
  then show thesis using False by (intro that [of t "[d]"]) simp_all
qed

lemma send_loop_run:
  "inj (createUuid E) \<Longrightarrow> \<forall>m \<in> set grp. setContent E [m] \<Longrightarrow> \<forall>m \<in> set msgs. accepted m \<longrightarrow> setContent E [m] \<Longrightarrow> friend_user (cpage s) = Some fr \<Longrightarrow>
    content = concat (map msg_text grp) \<Longrightarrow>
    \<exists>t ds. send_loop E now uid grp content msgs s = (Val (), t) \<and> sends E uid fr ds (cpage s) (cpage t) \<and>
      concat (map t_msg_content ds) = content @ concat (map msg_text (filter accepted msgs))"
proof (induction E now uid grp content msgs arbitrary: s rule: send_loop.induct)
  case (1 E now uid grp content)
  then show ?case using flush_run [of grp E s fr content now uid] by (metis append_Nil2 concat.simps(1) filter.simps(1) list.map(1) send_loop.simps(1))
next
  case (2 E now uid grp content msg msgs)
  consider (long) "QString_length (msg_body msg) > 1024" | (image) "QString_length (msg_body msg) \<le> 1024" "msgFlag msg = ''image''"
    | (part) "QString_length (msg_body msg) \<le> 1024" "msgFlag msg \<noteq> ''image''" "msgFlag msg = ''text'' \<or> msgFlag msg = ''emotion''"
    | (other) "QString_length (msg_body msg) \<le> 1024" "msgFlag msg \<noteq> ''image''" "\<not> (msgFlag msg = ''text'' \<or> msgFlag msg = ''emotion'')"
    by linarith
  then show ?case
  proof cases
    case long
    then show ?thesis using 2 by (simp add: accepted_def)
  next
    case image
    obtain s1 ds where s1: "(if grp \<noteq> [] then send_group E now uid grp content else ret ()) s = (Val (), s1)"
        "sends E uid fr ds (cpage s) (cpage s1)" "concat (map t_msg_content ds) = content"
      using flush_run [OF 2(6,8,9), of now uid] by blast
    obtain s2 where s2: "createAndAppendChatItem E [msg] True s1 = (Val (createUuid E (uuid_count (cpage s1))), s2)"
        "sends E uid fr [] (cpage s1) (cpage s2)"
      using createAndAppend_run [of E "[msg]" True s1] sends_picture by (metis list.distinct(1))
    have "friend_user (cpage s2) = Some fr" using 2(8) s1(2) s2(2) by (simp add: sends_def)
    moreover have "(if grp \<noteq> [] then [] else content) = []" using 2(9) by simp
    ultimately obtain t es where t: "send_loop E now uid [] (if grp \<noteq> [] then [] else content) msgs s2 = (Val (), t)"
        "sends E uid fr es (cpage s2) (cpage t)" "concat (map t_msg_content es) = concat (map msg_text (filter accepted msgs))"
      using 2(2) [of s2] image 2(5,7) by (fastforce simp: not_less)
    have "sends E uid fr (ds @ es) (cpage s) (cpage t)"
      using sends_trans [OF 2(5) sends_trans [OF 2(5) s1(2) s2(2)] t(2)] by simp
    moreover have "send_loop E now uid grp content (msg # msgs) s = (Val (), t)"
      using image s1(1) s2(1) t(1) by (simp add: bnd_def not_less)
    moreover have "\<not> accepted msg" using image by (simp add: accepted_def)
    ultimately show ?thesis
      using s1(3) t(3) by (intro exI [of _ t] exI [of _ "ds @ es"]) simp
  next
    case part
    then show ?thesis using 2 by (simp add: accepted_def)
  next
    case other
    then show ?thesis using 2 by (simp add: accepted_def)
  qed
qed

text \<open>
  C29. Sending what was typed: for a conversation with a friend and texts that the bubble can show,
  \<open>on_send_btn_clicked\<close> returns and sends text requests from the user to the friend whose contents
  make up, in order, the typed texts and emoticons of at most 1024 UTF-16 units each, while a longer text is
  left out without notice; each request has an identifier of its own, and the same messages go to the
  conversation and to the dialog.
\<close>

theorem typed_text_sent:
  assumes "inj (createUuid E)" and "user_info (umgr s) = Some u" and "friend_user (cpage s) = Some fr"
    and "\<forall>m \<in> set msgs. accepted m \<longrightarrow> setContent E [m]"
  shows "\<exists>t ds. on_send_btn_clicked E now msgs s = (Val (), t) \<and>
    concat (map t_msg_content ds) = concat (map msg_text (filter accepted msgs)) \<and>
    sent (cpage t) = sent (cpage s) @ map request_of ds \<and> appended (cpage t) = appended (cpage s) @ ds \<and>
    view_msgs (the_data (cu_uid fr) (cpage t)) = view_msgs (the_data (cu_uid fr) (cpage s)) @ ds \<and>
    distinct (map t_msg_id ds) \<and> t_msg_id ` set ds \<inter> createUuid E ` {..<uuid_count (cpage s)} = {} \<and>
    (\<forall>d \<in> set ds. t_from_uid d = cu_uid u \<and> t_to_uid d = cu_uid fr)"
proof -
  let ?s = "on_umgr (set_user_icon '':/pic/head_1.jpg'' u) s"
  have p: "cpage ?s = cpage s" by (simp add: on_umgr_def)
  obtain t ds where t: "send_loop E now (cu_uid u) [] [] msgs ?s = (Val (), t)" "sends E (cu_uid u) fr ds (cpage s) (cpage t)"
      "concat (map t_msg_content ds) = concat (map msg_text (filter accepted msgs))"
    using send_loop_run [OF assms(1), of "[]" msgs ?s fr "[]" now "cu_uid u"] assms(3,4) p by auto
  have r: "on_send_btn_clicked E now msgs s = (Val (), t)"
    using t(1) assms(2) by (cases "msgs = []") (simp_all add: on_send_btn_clicked_def GetUserInfo_def prog_defs)
  have "createUuid E ` {uuid_count (cpage s)..<uuid_count (cpage t)} \<inter> createUuid E ` {..<uuid_count (cpage s)} = {}"
    using assms(1) by (auto simp: inj_eq)
  then have "t_msg_id ` set ds \<inter> createUuid E ` {..<uuid_count (cpage s)} = {}" using t(2) unfolding sends_def by blast
  with r t(2,3) show ?thesis unfolding sends_def by blast
qed

section \<open>Concrete runs\<close>

text \<open>A user 1 with a friend 2, and identifiers of increasing length.\<close>

definition page_env :: gui_env where
  "page_env = \<lparr>createUuid = (\<lambda>n. replicate n CHR ''x''), emojiObject = None, movie_valid = (\<lambda>_. True)\<rparr>"

definition page_info :: "int \<Rightarrow> TextChatData list \<Rightarrow> ClientUserInfo" where
  "page_info uid msgs = \<lparr>cu_uid = uid, cu_name = [], cu_nick = [], cu_icon = [], cu_sex = 0, cu_last_msg = [], cu_last_msg_time = 0,
     cu_chat_msgs = msgs\<rparr>"

definition page_chat :: chat_client where
  "page_chat = \<lparr>umgr = new_UserMgr\<lparr>user_info := Some (page_info 1 []), friend_map := [2 \<mapsto> 0]\<rparr>, cpage = new_ChatPage\<rparr>"

definition page_text :: "int \<Rightarrow> string \<Rightarrow> TextChatData" where
  "page_text sender content = \<lparr>t_msg_id = [], t_msg_content = content, t_from_uid = sender, t_to_uid = 1, t_send_time = 0, t_msg_type = 1, t_status = 0\<rparr>"

lemma page_env_inj: "inj (createUuid page_env)"
  by (auto simp: page_env_def inj_def)

lemma page_chat_ready: "ready_to_show page_env (page_info uid ms) page_chat"
  by (simp add: ready_to_show_def page_chat_def new_ChatPage_def the_data_def)

text \<open>A conversation whose view has a picture and one message: the other message is hidden behind the picture.\<close>

definition page_picture :: chat_client where
  "page_picture = on_page (\<lambda>p. (with_data 2 (\<lambda>_. \<lparr>view_of = Some (appendChatItem (Some (new_ChatItem Self ''x'' (PictureBubble ''a.png'')))
       (appendChatItem (Some (new_ChatItem Self [] (ContentBubble []))) new_ChatView)),
     view_msgs = [page_text 1 [], page_text 2 ''hi'', page_text 2 ''ho'']\<rparr>) p)\<lparr>uuid_count := 2\<rparr>) page_chat"

theorem conversation_shown_witness:
  "\<exists>t w. SetFriendUserInfo page_env (page_info 2 [page_text 1 [], page_text 2 ''hi'', page_text 2 ''ho'']) page_picture = Some (Val (), t) \<and>
     view_of (the_data 2 (cpage t)) = Some w \<and>
     shown w = [(Self, ContentBubble []), (Self, PictureBubble ''a.png''), bubble_for page_env 1 (page_text 2 ''ho'')]"
proof -
  let ?ms = "[page_text 1 [], page_text 2 ''hi'', page_text 2 ''ho'']"
  let ?info = "page_info 2 ?ms"
  let ?v = "appendChatItem (Some (new_ChatItem Self ''x'' (PictureBubble ''a.png'')))
       (appendChatItem (Some (new_ChatItem Self [] (ContentBubble []))) new_ChatView)"
  have u: "user_info (umgr page_picture) = Some (page_info 1 [])" by (simp add: page_picture_def page_chat_def on_page_def)
  have d: "view_msgs (the_data (cu_uid ?info) (cpage page_picture)) = ?ms" "view_of (the_data (cu_uid ?info) (cpage page_picture)) = Some ?v"
      "uuid_count (cpage page_picture) = 2"
    by (simp_all add: page_picture_def on_page_def page_info_def)
  have v: "view_has page_env 2 ?v 2 [(Self, ContentBubble []), (Self, PictureBubble ''a.png'')]"
    using view_has_append [OF page_env_inj view_has_append [OF page_env_inj,
      of 0 new_ChatView 0 "[]" Self "ContentBubble []"], of Self "PictureBubble ''a.png''"]
    by (simp add: view_has_def shown_ok_def shown_def new_ChatView_def getChatItemCount_def page_env_def numeral_2_eq_2)
  have k: "known_sender page_picture (page_text 2 ''ho'')"
    by (simp add: known_sender_def self_uid_def CheckFriendById_def page_picture_def on_page_def page_chat_def page_text_def)
  have "\<exists>t w. SetFriendUserInfo page_env ?info page_picture = Some (Val (), t) \<and> shown_view (cpage t) = Some (cu_uid ?info) \<and>
    view_of (the_data (cu_uid ?info) (cpage t)) = Some w \<and>
    shown w = (if length ?ms \<noteq> length (cu_chat_msgs ?info) then map (bubble_for page_env (cu_uid (page_info 1 []))) (cu_chat_msgs ?info)
      else shown ?v @ map (bubble_for page_env (cu_uid (page_info 1 []))) (drop (getChatItemCount ?v) ?ms))"
    by (rule conversation_shown [OF page_env_inj u d(1)]) (use v k d(2,3) in \<open>simp_all add: view_has_def page_info_def\<close>)
  then show ?thesis using v by (auto simp: view_has_def page_info_def numeral_2_eq_2)
qed

theorem unknown_sender_hangs_witness: "SetFriendUserInfo page_env (page_info 3 [page_text 3 ''hi'']) page_chat = None"
proof (rule unknown_sender_hangs [OF page_env_inj _ page_chat_ready])
  show "user_info (umgr page_chat) = Some (page_info 1 [])" by (simp add: page_chat_def)
qed (simp_all add: page_chat_def new_ChatPage_def the_data_def page_info_def known_sender_def self_uid_def CheckFriendById_def page_text_def)

definition page_talk :: chat_client where
  "page_talk = on_page (open_view (page_info 2 [])) page_chat"

theorem typed_text_sent_witness:
  "\<exists>t ds. on_send_btn_clicked page_env int [\<lparr>msgFlag = ''text'', msg_body = ''hi ''\<rparr>, \<lparr>msgFlag = ''emotion'', msg_body = ''e/ok.png''\<rparr>,
       \<lparr>msgFlag = ''image'', msg_body = ''a.png''\<rparr>, \<lparr>msgFlag = ''text'', msg_body = replicate 1025 CHR ''a''\<rparr>,
       \<lparr>msgFlag = ''text'', msg_body = ''bye''\<rparr>] page_talk = (Val (), t) \<and>
     concat (map t_msg_content ds) = ''hi [ok]bye'' \<and> sent (cpage t) = map request_of ds"
proof -
  have s: "user_info (umgr page_talk) = Some (page_info 1 [])" "friend_user (cpage page_talk) = Some (page_info 2 [])"
      "sent (cpage page_talk) = []"
    by (simp_all add: page_talk_def page_chat_def on_page_def open_view_def new_ChatPage_def)
  let ?ms = "[\<lparr>msgFlag = ''text'', msg_body = ''hi ''\<rparr>, \<lparr>msgFlag = ''emotion'', msg_body = ''e/ok.png''\<rparr>,
       \<lparr>msgFlag = ''image'', msg_body = ''a.png''\<rparr>, \<lparr>msgFlag = ''text'', msg_body = replicate 1025 CHR ''a''\<rparr>,
       \<lparr>msgFlag = ''text'', msg_body = ''bye''\<rparr>]"
  have n: "QString_length ''hi '' = 3" "QString_length ''e/ok.png'' = 8" "QString_length ''a.png'' = 5" "QString_length ''bye'' = 3"
    "QString_length (replicate n CHR ''a'') = n" for n
    by (simp_all add: QString_length_def sum_list_replicate)
  have v: "\<forall>m \<in> set ?ms. accepted m \<longrightarrow> setContent page_env [m]" by (simp add: accepted_def setContent_def page_env_def)
  have c: "concat (map msg_text (filter accepted ?ms)) = ''hi [ok]bye''"
    by (simp add: accepted_def n msg_text_def emotion_tag_def qmid_def Let_def)
  from typed_text_sent [OF page_env_inj s(1,2) v, of int, unfolded s(3) append_Nil c] show ?thesis by blast
qed

end
