(* ===== verification/ClientDialog.thy ===== *)
theory ClientDialog
  imports ClientPage
begin

text \<open>
  The main dialog of the client (\<open>gui/chat_dialog.cpp\<close>) with the items of the chat list
  (\<open>gui/chats/chat_user_item.cpp\<close>) and the two handlers of the contact list that add friends
  (\<open>gui/contacts/contact_user_list.cpp\<close>). Stacked pages, labels and red dots are left out.
\<close>

section \<open>State\<close>

record ChatUserItem =
  item_user :: "ClientUserInfo option"
  item_selected :: bool
  first_click :: bool

record ConUserItem =
  con_info :: ClientUserInfo
  con_first_click :: bool

definition new_ConUserItem :: "ClientUserInfo \<Rightarrow> ConUserItem" where
  "new_ConUserItem info = \<lparr>con_info = info, con_first_click = True\<rparr>"

text \<open>
  Items are objects that the list, the map \<open>_chat_items_added\<close> and \<open>_last_selected_item\<close> share, so they
  live in a store. \<open>side_chat_selected\<close> is the state of the side button; \<open>contact_rows\<close> are the users of the
  contact list, below its group item, and \<open>applies\<close> the requests handed to the page of friend requests.
\<close>

record ChatDialog =
  client :: chat_client
  items :: "nat \<rightharpoonup> ChatUserItem"
  next_item :: nat
  chat_rows :: "nat list"
  current_row :: "nat option"
  chat_items_added :: "int \<rightharpoonup> nat"
  current_chat_uid :: int
  unread_total :: int
  unread_counts :: "int \<rightharpoonup> int"
  last_selected :: "nat option"
  side_chat_selected :: bool
  contact_rows :: "ConUserItem list"
  applies :: "ClientApplyInfo list"

text \<open>Qt's JSON classes, the bubbles' environment, and the pictures that the code draws at random.\<close>

record dialog_env =
  env_qt :: qt_json
  env_gui :: gui_env
  head_pic :: "nat \<Rightarrow> string"

definition new_ChatDialog :: "chat_client \<Rightarrow> ChatDialog" where
  "new_ChatDialog c = \<lparr>client = c, items = Map.empty, next_item = 0, chat_rows = [], current_row = None,
     chat_items_added = Map.empty, current_chat_uid = 0, unread_total = 0, unread_counts = Map.empty, last_selected = None,
     side_chat_selected = True, contact_rows = [], applies = []\<rparr>"

definition dlg_umgr :: "ChatDialog \<Rightarrow> UserMgr" where
  "dlg_umgr s = umgr (client s)"

definition on_client :: "(chat_client \<Rightarrow> chat_client) \<Rightarrow> ChatDialog \<Rightarrow> ChatDialog" where
  "on_client f s = s\<lparr>client := f (client s)\<rparr>"

definition on_mgr :: "(UserMgr \<Rightarrow> UserMgr) \<Rightarrow> ChatDialog \<Rightarrow> ChatDialog" where
  "on_mgr f = on_client (on_umgr f)"

definition page_call :: "(chat_client, 'a) prog \<Rightarrow> (ChatDialog, 'a) prog" where
  "page_call = zoom client (\<lambda>c s. s\<lparr>client := c\<rparr>)"

definition on_item :: "nat \<Rightarrow> (ChatUserItem \<Rightarrow> ChatUserItem) \<Rightarrow> ChatDialog \<Rightarrow> ChatDialog" where
  "on_item a f s = s\<lparr>items := (items s)(a := map_option f (items s a))\<rparr>"

section \<open>Items\<close>

definition UserInfo_of_friend :: "FriendInfo \<Rightarrow> ClientUserInfo" where
  "UserInfo_of_friend f = \<lparr>cu_uid = f_uid f, cu_name = f_name f, cu_nick = f_nick f, cu_icon = f_icon f, cu_sex = f_sex f,
     cu_last_msg = f_last_msg f, cu_last_msg_time = f_last_msg_time f, cu_chat_msgs = f_chat_msgs f\<rparr>"

text \<open>\<open>new ChatUserItem\<close> with \<open>SetInfo\<close>, a row at the end or at the front, and the entry in the map.\<close>

definition add_item :: "bool \<Rightarrow> int \<Rightarrow> ClientUserInfo option \<Rightarrow> (ChatDialog, nat) prog" where
  "add_item front uid info =
     bnd (gets next_item) (\<lambda>a.
     bnd (upd (\<lambda>s. s\<lparr>items := (items s)(a \<mapsto> \<lparr>item_user = info, item_selected = False, first_click = True\<rparr>), next_item := a + 1,
       chat_rows := if front then a # chat_rows s else chat_rows s @ [a], chat_items_added := (chat_items_added s)(uid \<mapsto> a)\<rparr>)) (\<lambda>_.
     ret a))"

definition updateLastMsg :: "TextChatData list \<Rightarrow> ChatUserItem \<Rightarrow> ChatUserItem" where
  "updateLastMsg msgs item =
     (case item_user item of
        None \<Rightarrow> item
      | Some u \<Rightarrow> item\<lparr>item_user := Some (u\<lparr>cu_chat_msgs := cu_chat_msgs u @ msgs,
          cu_last_msg := (if msgs = [] then [] else t_msg_content (last msgs)),
          cu_last_msg_time := (if msgs = [] then 0 else t_send_time (last msgs))\<rparr>)\<rparr>)"

section \<open>Loading pages\<close>

definition load_chat_user :: "dialog_env \<Rightarrow> nat \<Rightarrow> (ChatDialog, unit) prog" where
  "load_chat_user E a =
     bnd (gets (\<lambda>s. friend_objs (dlg_umgr s) a)) (\<lambda>x.
     case x of
       None \<Rightarrow> crash
     | Some f \<Rightarrow>
         bnd (gets (\<lambda>s. chat_items_added s (f_uid f))) (\<lambda>found.
         if found \<noteq> None then ret ()
         else
           bnd (gets (\<lambda>s. head_pic E (next_item s))) (\<lambda>pic.
           bnd (upd (\<lambda>s. s\<lparr>unread_counts := (unread_counts s)(f_uid f \<mapsto> 0)\<rparr>)) (\<lambda>_.
           bnd (add_item False (f_uid f) (Some ((UserInfo_of_friend f)\<lparr>cu_icon := pic\<rparr>))) (\<lambda>_.
           ret ())))))"

definition loadMoreChatUser :: "dialog_env \<Rightarrow> (ChatDialog, unit) prog" where
  "loadMoreChatUser E =
     bnd (gets (\<lambda>s. GetChatListPerPage (dlg_umgr s))) (\<lambda>page.
     if page = [] then ret ()
     else bnd (forM (load_chat_user E) page) (\<lambda>_. upd (on_mgr UpdateChatLoadedCount)))"

definition load_con_user :: "dialog_env \<Rightarrow> nat \<Rightarrow> (ChatDialog, unit) prog" where
  "load_con_user E a =
     bnd (gets (\<lambda>s. head_pic E (length (contact_rows s)))) (\<lambda>pic.
     bnd (upd (on_mgr (\<lambda>m. m\<lparr>friend_objs := (friend_objs m)(a := map_option (\<lambda>f. f\<lparr>f_icon := pic\<rparr>) (friend_objs m a))\<rparr>))) (\<lambda>_.
     bnd (gets (\<lambda>s. friend_objs (dlg_umgr s) a)) (\<lambda>x.
     case x of
       None \<Rightarrow> crash
     | Some f \<Rightarrow> upd (\<lambda>s. s\<lparr>contact_rows := contact_rows s @ [new_ConUserItem \<lparr>cu_uid = f_uid f, cu_name = f_name f, cu_nick = f_name f,
         cu_icon = f_icon f, cu_sex = 0, cu_last_msg = [], cu_last_msg_time = 0, cu_chat_msgs = []\<rparr>]\<rparr>))))"

definition loadMoreConUser :: "dialog_env \<Rightarrow> (ChatDialog, unit) prog" where
  "loadMoreConUser E =
     bnd (gets (\<lambda>s. GetConListPerPage (dlg_umgr s))) (\<lambda>page.
     if page = [] then ret ()
     else bnd (forM (load_con_user E) page) (\<lambda>_. upd (on_mgr UpdateContactLoadedCount)))"

section \<open>Messages from the server\<close>

text \<open>The opening lines of the handlers: nothing happens without an object with error code 0.\<close>

definition with_reply :: "qt_json \<Rightarrow> string \<Rightarrow> (json \<Rightarrow> ('s, unit) prog) \<Rightarrow> ('s, unit) prog" where
  "with_reply Q data body =
     (case q_fromJson Q data of
        None \<Rightarrow> ret ()
      | Some jsonObj \<Rightarrow>
          if \<not> q_contains Q jsonObj ''error'' then ret ()
          else if q_toInt Q (q_value Q jsonObj ''error'') \<noteq> 0 then ret ()
          else body jsonObj)"

definition NotifyAddFriendReq :: "dialog_env \<Rightarrow> string \<Rightarrow> (ChatDialog, unit) prog" where
  "NotifyAddFriendReq E data =
     (let Q = env_qt E in
      with_reply Q data (\<lambda>jsonObj.
        let get = (\<lambda>k. q_toString Q (q_value Q jsonObj k));
            info = \<lparr>ca_uid = q_toInt Q (q_value Q jsonObj ''applyuid''), ca_name = get ''name'', ca_desc = get ''desc'',
              ca_icon = get ''icon'', ca_nick = get ''nick'', ca_sex = q_toInt Q (q_value Q jsonObj ''sex''), ca_status = 0\<rparr> in
        bnd (gets (\<lambda>s. AlreadyApply (ca_uid info) (dlg_umgr s))) (\<lambda>b_already.
        if b_already then ret ()
        else
          bnd (upd (on_mgr (AddApplyList info))) (\<lambda>_.
          upd (\<lambda>s. s\<lparr>applies := applies s @ [info]\<rparr>)))))"

fun UpdateChatMsg :: "dialog_env \<Rightarrow> TextChatData list \<Rightarrow> (ChatDialog, unit) prog" where
  "UpdateChatMsg E [] = ret ()"
| "UpdateChatMsg E (msg # msgs) =
     bnd (gets current_chat_uid) (\<lambda>uid.
     if t_from_uid msg \<noteq> uid then ret ()
     else bnd (page_call (AppendChatMsg (env_gui E) msg)) (\<lambda>_. UpdateChatMsg E msgs))"

definition notified_text :: "qt_json \<Rightarrow> json \<Rightarrow> TextChatData" where
  "notified_text Q jsonObj =
     \<lparr>t_msg_id = q_toString Q (q_value Q jsonObj ''msg_id''), t_msg_content = q_toString Q (q_value Q jsonObj ''content''),
      t_from_uid = q_toInt Q (q_value Q jsonObj ''from_uid''), t_to_uid = q_toInt Q (q_value Q jsonObj ''to_uid''),
      t_send_time = q_toInt Q (q_value Q jsonObj ''send_time''), t_msg_type = q_toInt Q (q_value Q jsonObj ''msg_type''), t_status = 0\<rparr>"

text \<open>The item of the sender, which is made when there is none; \<open>SetInfo\<close> of an unknown friend does nothing.\<close>

definition sender_item :: "int \<Rightarrow> (ChatDialog, nat) prog" where
  "sender_item fromuid =
     bnd (gets (\<lambda>s. chat_items_added s fromuid)) (\<lambda>found.
     case found of
       Some a \<Rightarrow> ret a
     | None \<Rightarrow>
         bnd (gets (\<lambda>s. Option.bind (GetFriendById fromuid (dlg_umgr s)) (friend_objs (dlg_umgr s)))) (\<lambda>fi_ptr.
         add_item True fromuid (map_option UserInfo_of_friend fi_ptr)))"

text \<open>\<open>QMap::value\<close>, with its default.\<close>

definition unread_of :: "ChatDialog \<Rightarrow> int \<Rightarrow> int" where
  "unread_of s uid = (case unread_counts s uid of None \<Rightarrow> 0 | Some n \<Rightarrow> n)"

definition is_selected :: "ChatDialog \<Rightarrow> nat \<Rightarrow> bool" where
  "is_selected s a = (case items s a of None \<Rightarrow> False | Some i \<Rightarrow> item_selected i)"

definition count_unread :: "int \<Rightarrow> nat \<Rightarrow> ChatDialog \<Rightarrow> ChatDialog" where
  "count_unread fromuid a s =
     s\<lparr>unread_counts := (unread_counts s)(fromuid \<mapsto> unread_of s fromuid + 1),
       unread_total := (if side_chat_selected s \<and> is_selected s a \<and> unread_total s > 0 then unread_total s - 1 else unread_total s)\<rparr>"

definition NotifyTextChatMsgReq :: "dialog_env \<Rightarrow> string \<Rightarrow> (ChatDialog, unit) prog" where
  "NotifyTextChatMsgReq E data =
     with_reply (env_qt E) data (\<lambda>jsonObj.
       bnd (upd (\<lambda>s. s\<lparr>unread_total := unread_total s + 1\<rparr>)) (\<lambda>_.
       let msg = notified_text (env_qt E) jsonObj; fromuid = t_from_uid msg in
       bnd (sender_item fromuid) (\<lambda>a.
       bnd (upd (on_item a (updateLastMsg [msg]))) (\<lambda>_.
       bnd (upd (count_unread fromuid a)) (\<lambda>_.
       bnd (UpdateChatMsg E [msg]) (\<lambda>_.
       bnd (upd (on_mgr (AppendFriendChatMsg fromuid [msg]))) (\<lambda>_.
       upd (on_client (on_page (slot_notify_text_chat_msg [msg]))))))))))"

definition new_row :: "int \<Rightarrow> string \<Rightarrow> string \<Rightarrow> string \<Rightarrow> int \<Rightarrow> ClientUserInfo" where
  "new_row uid name nick icon sex =
     \<lparr>cu_uid = uid, cu_name = name, cu_nick = nick, cu_icon = icon, cu_sex = sex, cu_last_msg = [], cu_last_msg_time = 0, cu_chat_msgs = []\<rparr>"

definition onAuthFriendRsp :: "dialog_env \<Rightarrow> json \<Rightarrow> (ChatDialog, unit) prog" where
  "onAuthFriendRsp E jsonObj =
     (let Q = env_qt E; get = (\<lambda>k. q_toString Q (q_value Q jsonObj k)); uid = q_toInt Q (q_value Q jsonObj ''uid'') in
      if jsonObj = JNull \<or> jsonObj = JObj [] then ret ()
      else
        bnd (gets (\<lambda>s. head_pic E (next_item s))) (\<lambda>pic.
        bnd (add_item True uid (Some (new_row uid (get ''name'') (get ''nick'') pic (q_toInt Q (q_value Q jsonObj ''sex''))))) (\<lambda>_.
        ret ())))"

definition onNotifyAuthFriendReq :: "dialog_env \<Rightarrow> json \<Rightarrow> (ChatDialog, unit) prog" where
  "onNotifyAuthFriendReq E jsonObj =
     (let Q = env_qt E; get = (\<lambda>k. q_toString Q (q_value Q jsonObj k)); uid = q_toInt Q (q_value Q jsonObj ''fromuid'') in
      if jsonObj = JNull \<or> jsonObj = JObj [] then ret ()
      else
        bnd (gets (\<lambda>s. head_pic E (next_item s))) (\<lambda>pic.
        bnd (add_item True uid (Some (new_row uid (get ''name'') (get ''nick'') pic (q_toInt Q (q_value Q jsonObj ''sex''))))) (\<lambda>_.
        ret ())))"

text \<open>
  The contact list: a new friend is stored, shown below the group item and announced on the message
  bus, where the dialog listens.
\<close>

definition add_contact :: "dialog_env \<Rightarrow> AuthInfo \<Rightarrow> (string \<Rightarrow> ClientUserInfo) \<Rightarrow> (ChatDialog, unit) prog \<Rightarrow> (ChatDialog, unit) prog" where
  "add_contact E auth row announce =
     bnd (gets (\<lambda>s. CheckFriendById (ai_uid auth) (dlg_umgr s))) (\<lambda>isFriend.
     if isFriend then ret ()
     else
       bnd (upd (on_mgr (AddFriend auth))) (\<lambda>_.
       bnd (gets (\<lambda>s. head_pic E (length (contact_rows s)))) (\<lambda>pic.
       bnd (upd (\<lambda>s. s\<lparr>contact_rows := new_ConUserItem (row pic) # contact_rows s\<rparr>)) (\<lambda>_.
       announce))))"

definition NotifyAuthFriendReq :: "dialog_env \<Rightarrow> string \<Rightarrow> (ChatDialog, unit) prog" where
  "NotifyAuthFriendReq E data =
     (let Q = env_qt E in
      with_reply Q data (\<lambda>jsonObj.
        let get = (\<lambda>k. q_toString Q (q_value Q jsonObj k));
            auth = \<lparr>ai_uid = q_toInt Q (q_value Q jsonObj ''fromuid''), ai_name = get ''name'', ai_nick = get ''nick'',
              ai_icon = get ''icon'', ai_sex = q_toInt Q (q_value Q jsonObj ''sex'')\<rparr> in
        add_contact E auth (\<lambda>pic. new_row (ai_uid auth) (ai_name auth) (ai_nick auth) pic (ai_sex auth)) (onNotifyAuthFriendReq E jsonObj)))"

definition AuthFriendRsp_handler :: "dialog_env \<Rightarrow> string \<Rightarrow> (ChatDialog, unit) prog" where
  "AuthFriendRsp_handler E data =
     (let Q = env_qt E in
      with_reply Q data (\<lambda>jsonObj.
        let get = (\<lambda>k. q_toString Q (q_value Q jsonObj k));
            auth = \<lparr>ai_uid = q_toInt Q (q_value Q jsonObj ''uid''), ai_name = get ''name'', ai_nick = get ''nick'',
              ai_icon = get ''icon'', ai_sex = q_toInt Q (q_value Q jsonObj ''sex'')\<rparr> in
        add_contact E auth (\<lambda>pic. new_row (ai_uid auth) (ai_name auth) (ai_name auth) pic 0) (onAuthFriendRsp E jsonObj)))"

section \<open>Clicks\<close>

text \<open>Calls that may not return, because they open a conversation.\<close>

definition run_opt :: "('s, 'a) prog \<Rightarrow> ('a \<Rightarrow> 's \<Rightarrow> ('b result \<times> 's) option) \<Rightarrow> 's \<Rightarrow> ('b result \<times> 's) option" where
  "run_opt m f s = (case m s of (r, t) \<Rightarrow>
     (case r of Val x \<Rightarrow> f x t | Exn e \<Rightarrow> Some (Exn e, t) | Waits \<Rightarrow> Some (Waits, t) | Crash \<Rightarrow> Some (Crash, t)))"

definition open_page :: "dialog_env \<Rightarrow> ClientUserInfo \<Rightarrow> (ChatDialog, 'a) prog \<Rightarrow> ChatDialog \<Rightarrow> ('a result \<times> ChatDialog) option" where
  "open_page E info after s =
     Option.bind (SetFriendUserInfo (env_gui E) info (client s)) (\<lambda>(r, c).
       run_opt (\<lambda>t. (r, t)) (\<lambda>_ t. Some (after t)) (s\<lparr>client := c\<rparr>))"

definition involves :: "int \<Rightarrow> TextChatData \<Rightarrow> bool" where
  "involves uid msg \<longleftrightarrow> t_to_uid msg = uid \<or> uid = t_from_uid msg"

text \<open>The messages of the user's own list that were exchanged with somebody.\<close>

definition own_messages :: "int \<Rightarrow> UserMgr \<Rightarrow> TextChatData list" where
  "own_messages uid m = (case GetUserInfo m of None \<Rightarrow> [] | Some u \<Rightarrow> filter (involves uid) (cu_chat_msgs u))"

definition drop_unread :: "int \<Rightarrow> ChatDialog \<Rightarrow> ChatDialog" where
  "drop_unread uid s = s\<lparr>unread_total := max 0 (unread_total s - unread_of s uid), unread_counts := (unread_counts s)(uid \<mapsto> 0)\<rparr>"

definition select_item :: "nat \<Rightarrow> ChatDialog \<Rightarrow> ChatDialog" where
  "select_item a s =
     (let unselected = (case last_selected s of None \<Rightarrow> s | Some b \<Rightarrow> on_item b (\<lambda>i. i\<lparr>item_selected := False\<rparr>) s) in
      (on_item a (\<lambda>i. i\<lparr>item_selected := True\<rparr>) unselected)\<lparr>last_selected := Some a\<rparr>)"

definition slot_chat_user_item_clicked :: "dialog_env \<Rightarrow> nat \<Rightarrow> ChatDialog \<Rightarrow> (unit result \<times> ChatDialog) option" where
  "slot_chat_user_item_clicked E a s0 =
     (let s = (on_item a (\<lambda>i. i\<lparr>item_selected := True\<rparr>) s0)\<lparr>current_row := Some a\<rparr> in
      case items s a of
        None \<Rightarrow> Some (Val (), s0)
      | Some item \<Rightarrow>
          if last_selected s = Some a then Some (Val (), s)
          else
            let t = select_item a s in
            (case item_user item of
               None \<Rightarrow> Some (Crash, t)
             | Some info \<Rightarrow>
                 let uid = cu_uid info; fresh = (cu_chat_msgs info = [] \<or> first_click item);
                     info' = (if fresh then info\<lparr>cu_chat_msgs := own_messages uid (dlg_umgr t)\<rparr> else info);
                     t' = on_item a (\<lambda>i. i\<lparr>item_user := Some info', first_click := if fresh then False else first_click i\<rparr>) (drop_unread uid t) in
                 open_page E info' (upd (\<lambda>u. u\<lparr>current_chat_uid := uid\<rparr>)) t'))"

definition SetSelectChatItem :: "int \<Rightarrow> (ChatDialog, unit) prog" where
  "SetSelectChatItem uid =
     bnd (gets chat_rows) (\<lambda>rows.
     case rows of
       [] \<Rightarrow> ret ()
     | first # _ \<Rightarrow>
         if uid = 0 then
           bnd (upd (\<lambda>s. s\<lparr>current_row := Some first\<rparr>)) (\<lambda>_.
           bnd (gets (\<lambda>s. items s first)) (\<lambda>x.
           case x of
             None \<Rightarrow> ret ()
           | Some item \<Rightarrow>
               (case item_user item of
                  None \<Rightarrow> crash
                | Some u \<Rightarrow> upd (\<lambda>s. s\<lparr>current_chat_uid := cu_uid u\<rparr>))))
         else
           bnd (gets (\<lambda>s. chat_items_added s uid)) (\<lambda>found.
           case found of
             None \<Rightarrow> upd (\<lambda>s. s\<lparr>current_row := Some first\<rparr>)
           | Some a \<Rightarrow> upd (\<lambda>s. s\<lparr>current_row := Some a, current_chat_uid := uid\<rparr>)))"

definition slot_side_chat :: "(ChatDialog, unit) prog" where
  "slot_side_chat =
     bnd (gets (\<lambda>s. Option.bind (current_row s) (items s))) (\<lambda>x.
     case x of
       None \<Rightarrow> ret ()
     | Some item \<Rightarrow>
         bnd (gets unread_total) (\<lambda>total.
         if total > 0 then
           (case item_user item of None \<Rightarrow> crash | Some u \<Rightarrow> upd (drop_unread (cu_uid u)))
         else ret ()))"

text \<open>Pressing one of the side buttons selects it and clears the others.\<close>

definition press_side_chat :: "(ChatDialog, unit) prog" where
  "press_side_chat = bnd (upd (\<lambda>s. s\<lparr>side_chat_selected := True\<rparr>)) (\<lambda>_. slot_side_chat)"

definition slot_side_contact :: "(ChatDialog, unit) prog" where
  "slot_side_contact = upd (\<lambda>s. s\<lparr>side_chat_selected := False\<rparr>)"

definition slot_side_collect :: "(ChatDialog, unit) prog" where
  "slot_side_collect = upd (\<lambda>s. s\<lparr>side_chat_selected := False\<rparr>)"

definition jump_to :: "dialog_env \<Rightarrow> ClientUserInfo \<Rightarrow> bool \<Rightarrow> ChatDialog \<Rightarrow> (unit result \<times> ChatDialog) option" where
  "jump_to E info set_current =
     run_opt
       (bnd (gets (\<lambda>s. chat_items_added s (cu_uid info))) (\<lambda>found.
        bnd (if found = None then bnd (add_item True (cu_uid info) (Some info)) (\<lambda>_. ret ()) else ret ()) (\<lambda>_.
        bnd (upd (\<lambda>s. s\<lparr>side_chat_selected := True\<rparr>)) (\<lambda>_.
        bnd (upd (\<lambda>s. if set_current then s\<lparr>current_chat_uid := cu_uid info\<rparr> else s)) (\<lambda>_.
        SetSelectChatItem (cu_uid info))))))
       (\<lambda>_. open_page E info slot_side_chat)"

text \<open>\<open>slot_jump_chat_item\<close>, from a search result, and \<open>slot_jump_chat_item_from_infopage\<close>.\<close>

definition slot_jump_chat_item :: "dialog_env \<Rightarrow> ClientUserInfo \<Rightarrow> ChatDialog \<Rightarrow> (unit result \<times> ChatDialog) option" where
  "slot_jump_chat_item E si s = jump_to E (si\<lparr>cu_chat_msgs := own_messages (cu_uid si) (dlg_umgr s)\<rparr>) True s"

definition slot_jump_chat_item_from_infopage :: "dialog_env \<Rightarrow> ClientUserInfo \<Rightarrow> ChatDialog \<Rightarrow> (unit result \<times> ChatDialog) option" where
  "slot_jump_chat_item_from_infopage E info = jump_to E info False"

text \<open>The dialog's slot for a text that the page sent.\<close>

definition dialog_append_send_chat_msg :: "TextChatData \<Rightarrow> (ChatDialog, unit) prog" where
  "dialog_append_send_chat_msg msg =
     bnd (gets current_chat_uid) (\<lambda>uid.
     if uid = 0 then ret ()
     else
       bnd (gets (\<lambda>s. Option.bind (chat_items_added s uid) (\<lambda>a. map_option (Pair a) (items s a)))) (\<lambda>x.
       case x of
         None \<Rightarrow> ret ()
       | Some (a, item) \<Rightarrow>
           (case item_user item of
              None \<Rightarrow> crash
            | Some u \<Rightarrow>
                bnd (upd (on_item a (\<lambda>i. i\<lparr>item_user := Some (u\<lparr>cu_chat_msgs := cu_chat_msgs u @ [msg]\<rparr>)\<rparr>))) (\<lambda>_.
                upd (on_mgr (AppendFriendChatMsg uid [msg]))))))"

section \<open>Facts shared by the properties\<close>

lemma client_updates [simp]:
  "client (on_item a f s) = client s" "client (select_item a s) = client s" "client (drop_unread uid s) = client s"
  "client (count_unread uid a s) = client s"
  by (simp_all add: on_item_def select_item_def drop_unread_def count_unread_def Let_def split: option.splits)

lemma dlg_umgr_simps [simp]:
  "dlg_umgr (on_item a f s) = dlg_umgr s" "dlg_umgr (select_item a s) = dlg_umgr s" "dlg_umgr (s\<lparr>current_row := r\<rparr>) = dlg_umgr s"
  by (simp_all add: dlg_umgr_def)

lemma on_item_simps [simp]:
  "items (on_item a f s) a = map_option f (items s a)" "last_selected (on_item a f s) = last_selected s"
  by (simp_all add: on_item_def)

lemma open_page_shows:
  "SetFriendUserInfo (env_gui E) info (client s) = Some (Val (), c) \<Longrightarrow> open_page E info after s = Some (after (s\<lparr>client := c\<rparr>))"
  by (simp add: open_page_def run_opt_def)

section \<open>Opening a conversation\<close>

text \<open>
  The first click on a conversation forgets what arrived since the login: the list of the item is
  replaced by the messages of the user's own list, which only the login fills, and when the page has
  counted another number of messages it drops them and shows exactly those of the login.
\<close>

theorem first_click_shows_login_messages:
  assumes inj: "inj (createUuid (env_gui E))" and user: "user_info (dlg_umgr s) = Some u"
    and item: "items s a = Some item" "item_user item = Some info" "first_click item" "last_selected s \<noteq> Some a"
    and own: "own_messages (cu_uid info) (dlg_umgr s) = ms" "\<forall>m \<in> set ms. known_sender (client s) m"
    and page: "length (view_msgs (the_data (cu_uid info) (cpage (client s)))) \<noteq> length ms"
      "\<And>v. view_of (the_data (cu_uid info) (cpage (client s))) = Some v \<Longrightarrow> shown_ok v"
  shows "\<exists>t. slot_chat_user_item_clicked E a s = Some (Val (), t) \<and>
    page_shows (env_gui E) (cu_uid info) (client t) (map (bubble_for (env_gui E) (cu_uid u)) ms) \<and>
    view_msgs (the_data (cu_uid info) (cpage (client t))) = ms"
proof -
  let ?info = "info\<lparr>cu_chat_msgs := ms\<rparr>"
  have c: "conversation ?info (client s) = ms" using page(1) by (simp add: conversation_def)
  have "\<exists>t. SetFriendUserInfo (env_gui E) ?info (client s) = Some (Val (), t) \<and>
      page_shows (env_gui E) (cu_uid ?info) t (map (bubble_for (env_gui E) (cu_uid u)) (conversation ?info (client s))) \<and>
      view_msgs (the_data (cu_uid ?info) (cpage t)) = conversation ?info (client s)"
  proof (rule SetFriendUserInfo_shows [OF inj])
    show "ready_to_show (env_gui E) ?info (client s)"
      using page by (auto simp: ready_to_show_def split: option.splits)
  qed (use user own c in \<open>simp_all add: dlg_umgr_def\<close>)
  then obtain t where t: "SetFriendUserInfo (env_gui E) ?info (client s) = Some (Val (), t)"
      "page_shows (env_gui E) (cu_uid info) t (map (bubble_for (env_gui E) (cu_uid u)) ms)"
      "view_msgs (the_data (cu_uid info) (cpage t)) = ms" by (auto simp: c)
  have "\<exists>w. slot_chat_user_item_clicked E a s = Some (upd (\<lambda>x. x\<lparr>current_chat_uid := cu_uid info\<rparr>) (w\<lparr>client := t\<rparr>))"
    using item own(1) t(1) by (fastforce simp: slot_chat_user_item_clicked_def Let_def open_page_shows)
  then show ?thesis using t(2,3) by (auto simp: upd_def)
qed

section \<open>A text arrives\<close>

lemma AppendChatMsg_frame:
  assumes "user_info (umgr c) \<noteq> None"
  obtains c' where "AppendChatMsg E m c = (Val (), c')" "user_info (umgr c') \<noteq> None" "friend_map (umgr c') = friend_map (umgr c)"
    "\<And>uid. view_msgs (the_data uid (cpage c')) = view_msgs (the_data uid (cpage c))"
    "\<And>uid. friend_msgs (umgr c') uid = friend_msgs (umgr c) uid" "friends_wf (umgr c) \<Longrightarrow> friends_wf (umgr c')"
proof -
  obtain u where u: "user_info (umgr c) = Some u" using assms by blast
  have m: "friend_msgs (x\<lparr>user_info := y\<rparr>) uid = friend_msgs x uid"
      "friend_msgs (x\<lparr>friend_objs := (friend_objs x)(a := map_option (\<lambda>f. f\<lparr>f_icon := i\<rparr>) (friend_objs x a))\<rparr>) uid = friend_msgs x uid"
    for x y uid a i by (auto simp: friend_msgs_def GetFriendById_def split: option.splits)
  show thesis
    by (rule that [of "snd (AppendChatMsg E m c)"])
      (auto simp: AppendChatMsg_def make_item_def GetUserInfo_def u on_page_def on_umgr_def set_user_icon_def prog_defs Let_def m
        friends_wf_map_obj split: option.splits)
qed

lemma updateLastMsg_selected [simp]: "item_selected (updateLastMsg msgs i) = item_selected i"
  by (simp add: updateLastMsg_def split: option.splits)

lemma sender_item_run:
  obtains a t where "sender_item uid s = (Val a, t)" "client t = client s" "chat_items_added t uid = Some a"
    "dom (chat_items_added t) = insert uid (dom (chat_items_added s))" "unread_counts t = unread_counts s" "unread_total t = unread_total s"
    "current_chat_uid t = current_chat_uid s" "side_chat_selected t = side_chat_selected s"
proof -
  show thesis
    by (rule that [of "the (chat_items_added (snd (sender_item uid s)) uid)" "snd (sender_item uid s)"])
      (auto simp: sender_item_def add_item_def prog_defs split: option.splits)
qed

lemma on_item_rest [simp]:
  "chat_items_added (on_item a f s) = chat_items_added s" "unread_counts (on_item a f s) = unread_counts s"
  "unread_total (on_item a f s) = unread_total s" "current_chat_uid (on_item a f s) = current_chat_uid s"
  "unread_of (on_item a f s) uid = unread_of s uid"
  by (simp_all add: on_item_def unread_of_def)

lemma NotifyText_run:
  assumes j: "q_fromJson (env_qt E) data = Some j" "q_contains (env_qt E) j ''error''" "q_toInt (env_qt E) (q_value (env_qt E) j ''error'') = 0"
    and msg: "notified_text (env_qt E) j = msg" and wf: "friends_wf (dlg_umgr s)" and user: "user_info (dlg_umgr s) \<noteq> None"
  obtains t where "NotifyTextChatMsgReq E data s = (Val (), t)" "friend_map (dlg_umgr t) = friend_map (dlg_umgr s)"
    "\<And>uid. friend_msgs (dlg_umgr t) uid = friend_msgs (dlg_umgr s) uid @ friend_texts uid [msg] (dlg_umgr s)"
    "\<And>uid. view_msgs (the_data uid (cpage (client t))) =
      view_msgs (the_data uid (cpage (client s))) @ (if uid = t_from_uid msg then [msg] else [])"
    "unread_counts t = (unread_counts s)(t_from_uid msg \<mapsto> unread_of s (t_from_uid msg) + 1)"
    "unread_total t = unread_total s + 1 \<or> unread_total t = unread_total s \<and> unread_total s \<ge> 0"
    "dom (chat_items_added t) = insert (t_from_uid msg) (dom (chat_items_added s))"
proof -
  let ?from = "t_from_uid msg"
  define s0 where "s0 = s\<lparr>unread_total := unread_total s + 1\<rparr>"
  obtain a s1 where s1: "sender_item ?from s0 = (Val a, s1)" "client s1 = client s0" "chat_items_added s1 ?from = Some a"
      "dom (chat_items_added s1) = insert ?from (dom (chat_items_added s0))" "unread_counts s1 = unread_counts s0" "unread_total s1 = unread_total s0"
    by (rule sender_item_run [of ?from s0])
  define s2 where "s2 = count_unread ?from a (on_item a (updateLastMsg [msg]) s1)"
  have c2: "client s2 = client s" by (simp add: s2_def s1(2)) (simp add: s0_def)
  obtain c where c: "UpdateChatMsg E [msg] s2 = (Val (), s2\<lparr>client := c\<rparr>)" "friend_map (umgr c) = friend_map (dlg_umgr s)"
      "\<And>uid. view_msgs (the_data uid (cpage c)) = view_msgs (the_data uid (cpage (client s)))"
      "\<And>uid. friend_msgs (umgr c) uid = friend_msgs (dlg_umgr s) uid" "friends_wf (umgr c)"
  proof (cases "?from = current_chat_uid s2")
    case True
    obtain c' where "AppendChatMsg (env_gui E) msg (client s2) = (Val (), c')" "friend_map (umgr c') = friend_map (umgr (client s2))"
        "\<And>uid. view_msgs (the_data uid (cpage c')) = view_msgs (the_data uid (cpage (client s2)))"
        "\<And>uid. friend_msgs (umgr c') uid = friend_msgs (umgr (client s2)) uid" "friends_wf (umgr (client s2)) \<Longrightarrow> friends_wf (umgr c')"
      by (rule AppendChatMsg_frame [of "client s2" "env_gui E" msg]) (use user c2 in \<open>simp_all add: dlg_umgr_def\<close>)
    then show thesis using True wf c2 by (intro that [of c']) (simp_all add: page_call_def prog_defs dlg_umgr_def)
  next
    case False
    then show thesis using wf c2 by (intro that [of "client s2"]) (simp_all add: prog_defs dlg_umgr_def)
  qed
  define t where "t = on_client (on_page (slot_notify_text_chat_msg [msg])) (on_mgr (AppendFriendChatMsg ?from [msg]) (s2\<lparr>client := c\<rparr>))"
  have "NotifyTextChatMsgReq E data s = (Val (), t)"
    using j msg s1(1) c(1)
    by (simp add: NotifyTextChatMsgReq_def with_reply_def Let_def bnd_def upd_def s0_def [symmetric] s2_def [symmetric] t_def
        del: UpdateChatMsg.simps)
  moreover have "dlg_umgr t = AppendFriendChatMsg ?from [msg] (umgr c)" "cpage (client t) = slot_notify_text_chat_msg [msg] (cpage c)"
    by (simp_all add: t_def on_client_def on_mgr_def on_umgr_def on_page_def dlg_umgr_def)
  moreover have "unread_counts t = unread_counts s2" "unread_total t = unread_total s2" "chat_items_added t = chat_items_added s2"
    by (simp_all add: t_def on_client_def on_mgr_def)
  moreover have "unread_counts s2 = (unread_counts s)(?from \<mapsto> unread_of s ?from + 1)"
      "unread_total s2 = unread_total s + 1 \<or> unread_total s2 = unread_total s \<and> unread_total s \<ge> 0"
      "chat_items_added s2 = chat_items_added s1"
    using s1(5,6) by (auto simp: s2_def count_unread_def unread_of_def s0_def)
  ultimately show thesis
    using c s1(4) by (intro that [of t])
      (simp_all add: friend_msgs_append friend_texts_def CheckFriendById_def slot_notify_text_chat_msg_def s0_def)
qed

section \<open>Unread messages\<close>

definition sum_unread :: "ChatDialog \<Rightarrow> int" where
  "sum_unread s = (\<Sum>uid \<in> dom (unread_counts s). unread_of s uid)"

text \<open>
  No count is negative, only users with an item have unread messages, and the total is at most the sum
  of the counts.
\<close>

definition unread_ok :: "ChatDialog \<Rightarrow> bool" where
  "unread_ok s \<longleftrightarrow> finite (dom (unread_counts s)) \<and> (\<forall>uid. 0 \<le> unread_of s uid) \<and>
     {uid. unread_of s uid \<noteq> 0} \<subseteq> dom (chat_items_added s) \<and> 0 \<le> unread_total s \<and> unread_total s \<le> sum_unread s"

lemma unread_of_upd: "unread_counts t = (unread_counts s)(uid \<mapsto> n) \<Longrightarrow> unread_of t x = (if x = uid then n else unread_of s x)"
  by (simp add: unread_of_def)

lemma unread_ok_cong:
  assumes "unread_counts t = unread_counts s" "unread_total t = unread_total s" "dom (chat_items_added s) \<subseteq> dom (chat_items_added t)" "unread_ok s"
  shows "unread_ok t"
proof -
  have "unread_of t = unread_of s" using assms(1) by (simp add: unread_of_def fun_eq_iff)
  then show ?thesis using assms unfolding unread_ok_def sum_unread_def by (metis subset_trans)
qed

lemma sum_unread_upd:
  assumes "finite (dom (unread_counts s))" "unread_counts t = (unread_counts s)(uid \<mapsto> n)"
  shows "sum_unread t = sum_unread s - unread_of s uid + n"
proof -
  let ?D = "dom (unread_counts s)"
  have "sum_unread t = n + (\<Sum>x \<in> ?D - {uid}. unread_of s x)"
    using assms by (simp add: sum_unread_def unread_of_upd [OF assms(2)] sum.insert_remove)
  moreover have "(\<Sum>x \<in> ?D. unread_of s x) = unread_of s uid + (\<Sum>x \<in> ?D - {uid}. unread_of s x)"
    using assms(1) by (cases "uid \<in> ?D") (auto simp: sum.remove unread_of_def dom_def)
  ultimately show ?thesis by (simp add: sum_unread_def)
qed

lemma unread_ok_set:
  assumes "unread_ok s" "unread_counts t = (unread_counts s)(uid \<mapsto> n)" "0 \<le> n" "n = 0 \<or> uid \<in> dom (chat_items_added t)"
    "dom (chat_items_added s) \<subseteq> dom (chat_items_added t)" "0 \<le> unread_total t" "unread_total t \<le> sum_unread s - unread_of s uid + n"
  shows "unread_ok t"
proof -
  note u = unread_of_upd [OF assms(2)]
  have "{x. unread_of t x \<noteq> 0} \<subseteq> dom (chat_items_added t)"
  proof
    fix x assume "x \<in> {x. unread_of t x \<noteq> 0}"
    then have "x = uid \<and> n \<noteq> 0 \<or> x \<in> {x. unread_of s x \<noteq> 0}" by (simp add: u split: if_splits)
    then show "x \<in> dom (chat_items_added t)" using assms(1,4,5) unfolding unread_ok_def by blast
  qed
  moreover have "sum_unread t = sum_unread s - unread_of s uid + n"
    using assms(1) by (intro sum_unread_upd [OF _ assms(2)]) (simp add: unread_ok_def)
  ultimately show ?thesis
    using assms by (simp add: unread_ok_def u)
qed

lemma unread_ok_drop:
  assumes "unread_ok s"
  shows "unread_ok (drop_unread uid s)"
proof (rule unread_ok_set [OF assms, where n = 0 and uid = uid])
  have f: "finite (dom (unread_counts s))" "\<And>x. 0 \<le> unread_of s x" using assms by (simp_all add: unread_ok_def)
  have "unread_of s uid \<le> sum_unread s"
  proof (cases "uid \<in> dom (unread_counts s)")
    case True
    then show ?thesis using f member_le_sum [of uid "dom (unread_counts s)" "unread_of s"] by (simp add: sum_unread_def)
  next
    case False
    then have "unread_of s uid = 0" by (auto simp: unread_of_def dom_def)
    then show ?thesis using f by (simp add: sum_unread_def sum_nonneg)
  qed
  then show "unread_total (drop_unread uid s) \<le> sum_unread s - unread_of s uid + 0"
    using assms by (simp add: drop_unread_def unread_ok_def)
qed (simp_all add: drop_unread_def)

lemma unread_ok_same [simp]:
  "unread_ok (on_mgr f s) = unread_ok s" "unread_ok (on_item a g s) = unread_ok s" "unread_ok (select_item a s) = unread_ok s"
  "unread_ok (s\<lparr>contact_rows := x\<rparr>) = unread_ok s" "unread_ok (s\<lparr>current_row := r\<rparr>) = unread_ok s"
  "unread_ok (s\<lparr>side_chat_selected := b\<rparr>) = unread_ok s" "unread_ok (s\<lparr>applies := y\<rparr>) = unread_ok s"
  "unread_ok (s\<lparr>client := c\<rparr>) = unread_ok s" "unread_ok (s\<lparr>current_chat_uid := i\<rparr>) = unread_ok s"
  by (auto simp: on_mgr_def on_client_def on_item_def select_item_def Let_def split: option.splits elim!: unread_ok_cong [rotated 3])

lemma keeps_unread_add_item: "keeps unread_ok (add_item front uid info)"
  unfolding add_item_def by (intro keeps_bnd keeps_basic keeps_upd) (auto elim!: unread_ok_cong [rotated 3])

lemma keeps_unread_load: "keeps unread_ok (loadMoreChatUser E)"
proof -
  have "unread_ok (snd (load_chat_user E a s))" if "unread_ok s" for a s
  proof (cases "friend_objs (dlg_umgr s) a")
    case (Some f)
    let ?s = "s\<lparr>unread_counts := (unread_counts s)(f_uid f \<mapsto> 0)\<rparr>"
    have "unread_ok ?s" if "chat_items_added s (f_uid f) = None"
    proof (rule unread_ok_set [OF \<open>unread_ok s\<close>, where n = 0 and uid = "f_uid f"])
      have "unread_of s (f_uid f) = 0" using that \<open>unread_ok s\<close> by (auto simp: unread_ok_def)
      then show "unread_total ?s \<le> sum_unread s - unread_of s (f_uid f) + 0" using \<open>unread_ok s\<close> by (simp add: unread_ok_def)
    qed (use \<open>unread_ok s\<close> in \<open>simp_all add: unread_ok_def\<close>)
    then have "unread_ok (snd (add_item False (f_uid f) info ?s))" if "chat_items_added s (f_uid f) = None" for info
      using that keeps_unread_add_item by (simp add: keeps_def)
    then show ?thesis
      using Some that by (auto simp: load_chat_user_def bnd_def gets_def upd_def ret_def split: prod.splits result.splits)
        (metis snd_conv)+
  qed (use that in \<open>simp add: load_chat_user_def prog_defs\<close>)
  then have "keeps unread_ok (load_chat_user E a)" for a by (simp add: keeps_def)
  then show ?thesis unfolding loadMoreChatUser_def by (auto intro!: keeps_bnd keeps_upd keeps_forM)
qed

lemma keeps_unread_load_con: "keeps unread_ok (loadMoreConUser E)"
  unfolding loadMoreConUser_def load_con_user_def by (auto intro!: keeps_bnd keeps_upd keeps_forM keeps_cases)

lemma keeps_with_reply: "(\<And>j. keeps I (body j)) \<Longrightarrow> keeps I (with_reply Q data body)"
  by (auto simp: with_reply_def split: option.splits)

lemma keeps_unread_contacts:
  "keeps unread_ok (NotifyAuthFriendReq E data)" "keeps unread_ok (AuthFriendRsp_handler E data)" "keeps unread_ok (NotifyAddFriendReq E data)"
  unfolding NotifyAuthFriendReq_def AuthFriendRsp_handler_def NotifyAddFriendReq_def Let_def add_contact_def onNotifyAuthFriendReq_def
    onAuthFriendRsp_def
  by (intro keeps_with_reply keeps_bnd keeps_basic keeps_upd keeps_cases keeps_unread_add_item; simp)+

lemma keeps_unread_side:
  "keeps unread_ok slot_side_chat" "keeps unread_ok press_side_chat" "keeps unread_ok slot_side_contact" "keeps unread_ok slot_side_collect"
proof -
  show *: "keeps unread_ok slot_side_chat"
    unfolding slot_side_chat_def by (auto intro!: keeps_bnd keeps_upd keeps_cases unread_ok_drop)
  then show "keeps unread_ok press_side_chat" "keeps unread_ok slot_side_contact" "keeps unread_ok slot_side_collect"
    unfolding press_side_chat_def slot_side_contact_def slot_side_collect_def by (auto intro!: keeps_bnd keeps_upd)
qed

lemma keeps_unread_select: "keeps unread_ok (SetSelectChatItem uid)"
  unfolding SetSelectChatItem_def by (auto intro!: keeps_bnd keeps_upd keeps_cases split: list.splits option.splits)

lemma keeps_unread_append: "keeps unread_ok (dialog_append_send_chat_msg msg)"
  unfolding dialog_append_send_chat_msg_def by (auto intro!: keeps_bnd keeps_upd keeps_cases split: option.splits)

lemma unread_ok_counted:
  assumes ok: "unread_ok s" and a: "sender_item uid (s\<lparr>unread_total := unread_total s + 1\<rparr>) = (Val a, t)"
  shows "unread_ok (count_unread uid a (on_item a f t))"
proof (rule unread_ok_set [OF ok, where n = "unread_of s uid + 1" and uid = uid])
  let ?s = "s\<lparr>unread_total := unread_total s + 1\<rparr>" and ?t = "count_unread uid a (on_item a f t)"
  obtain a' t' where r: "sender_item uid ?s = (Val a', t')" "dom (chat_items_added t') = insert uid (dom (chat_items_added ?s))"
      "unread_counts t' = unread_counts ?s" "unread_total t' = unread_total ?s"
    by (rule sender_item_run [of uid ?s])
  have t: "dom (chat_items_added t) = insert uid (dom (chat_items_added s))" "unread_counts t = unread_counts s"
      "unread_total t = unread_total s + 1" using r a by simp_all
  show "unread_counts ?t = (unread_counts s)(uid \<mapsto> unread_of s uid + 1)" by (simp add: count_unread_def unread_of_def t)
  show "0 \<le> unread_of s uid + 1" "0 \<le> unread_total ?t" "unread_total ?t \<le> sum_unread s - unread_of s uid + (unread_of s uid + 1)"
    using ok by (auto simp: unread_ok_def count_unread_def t)
  have "chat_items_added ?t = chat_items_added t" by (simp add: count_unread_def)
  then show "unread_of s uid + 1 = 0 \<or> uid \<in> dom (chat_items_added ?t)" "dom (chat_items_added s) \<subseteq> dom (chat_items_added ?t)"
    using t(1) by auto
qed

lemma keeps_unread_update: "keeps unread_ok (UpdateChatMsg E msgs)"
proof (induction msgs)
  case (Cons msg msgs)
  have "keeps unread_ok (page_call m)" for m :: "(chat_client, unit) prog"
    by (simp add: keeps_def page_call_def zoom_def split: prod.splits)
  with Cons show ?case by (auto intro!: keeps_bnd keeps_cases)
qed simp

lemma keeps_unread_text: "keeps unread_ok (NotifyTextChatMsgReq E data)"
  unfolding NotifyTextChatMsgReq_def
proof (rule keeps_with_reply)
  fix j
  let ?msg = "notified_text (env_qt E) j"
  let ?uid = "t_from_uid ?msg"
  let ?rest = "bnd (UpdateChatMsg E [?msg]) (\<lambda>_. bnd (upd (on_mgr (AppendFriendChatMsg ?uid [?msg]))) (\<lambda>_.
    upd (on_client (on_page (slot_notify_text_chat_msg [?msg])))))"
  have rest: "keeps unread_ok ?rest"
    by (intro keeps_bnd keeps_unread_update keeps_upd) (simp_all add: on_client_def)
  let ?body = "bnd (upd (\<lambda>s. s\<lparr>unread_total := unread_total s + 1\<rparr>)) (\<lambda>_.
       let msg = ?msg; fromuid = t_from_uid msg in
       bnd (sender_item fromuid) (\<lambda>a.
       bnd (upd (on_item a (updateLastMsg [msg]))) (\<lambda>_.
       bnd (upd (count_unread fromuid a)) (\<lambda>_.
       bnd (UpdateChatMsg E [msg]) (\<lambda>_.
       bnd (upd (on_mgr (AppendFriendChatMsg fromuid [msg]))) (\<lambda>_.
       upd (on_client (on_page (slot_notify_text_chat_msg [msg])))))))))"
  have "unread_ok (snd (?body s))" if s: "unread_ok s" for s
  proof -
    obtain a t where a: "sender_item ?uid (s\<lparr>unread_total := unread_total s + 1\<rparr>) = (Val a, t)" by (rule sender_item_run)
    have "?body s = ?rest (count_unread ?uid a (on_item a (updateLastMsg [?msg]) t))"
      using a by (simp add: Let_def bnd_def upd_def del: UpdateChatMsg.simps)
    then show ?thesis using rest unread_ok_counted [OF s a] by (simp add: keeps_def)
  qed
  then show "keeps unread_ok ?body" by (simp add: keeps_def)
qed

lemma unread_open_page:
  assumes "open_page E info after s = Some (r, t)" "keeps unread_ok after" "unread_ok s"
  shows "unread_ok t"
proof -
  from assms(1) obtain x :: "unit result" and c where o: "run_opt (\<lambda>t. (x, t)) (\<lambda>_ t. Some (after t)) (s\<lparr>client := c\<rparr>) = Some (r, t)"
    by (auto simp: open_page_def bind_eq_Some_conv)
  have "unread_ok (s\<lparr>client := c\<rparr>)" using assms(3) by simp
  with o keepsD [OF assms(2)] show ?thesis by (cases x) (auto simp: run_opt_def simp del: unread_ok_same)
qed

lemma unread_click:
  assumes "slot_chat_user_item_clicked E a s = Some (r, t)" "unread_ok s"
  shows "unread_ok t"
  using assms by (auto simp: slot_chat_user_item_clicked_def Let_def keeps_upd unread_ok_drop split: option.splits if_splits
      elim!: unread_open_page)

lemma unread_jump:
  assumes "jump_to E info b s = Some (r, t)" "unread_ok s"
  shows "unread_ok t"
proof -
  let ?m = "bnd (gets (\<lambda>s. chat_items_added s (cu_uid info))) (\<lambda>found.
        bnd (if found = None then bnd (add_item True (cu_uid info) (Some info)) (\<lambda>_. ret ()) else ret ()) (\<lambda>_.
        bnd (upd (\<lambda>s. s\<lparr>side_chat_selected := True\<rparr>)) (\<lambda>_.
        bnd (upd (\<lambda>s. if b then s\<lparr>current_chat_uid := cu_uid info\<rparr> else s)) (\<lambda>_.
        SetSelectChatItem (cu_uid info)))))"
  have "keeps unread_ok ?m" by (intro keeps_bnd keeps_basic keeps_cases keeps_upd keeps_unread_add_item keeps_unread_select) auto
  then have "unread_ok (snd (?m s))" using assms(2) by (simp add: keeps_def)
  then show ?thesis
    using assms(1) by (auto simp: jump_to_def run_opt_def split: prod.splits result.splits elim!: unread_open_page intro: keeps_unread_side)
qed

text \<open>
  What can happen in the window: messages of the server, clicks, and anything that the page, the user data
  and the contact list do on their own.
\<close>

inductive dialog_step :: "dialog_env \<Rightarrow> ChatDialog \<Rightarrow> ChatDialog \<Rightarrow> bool" for E where
  on_text: "dialog_step E s (snd (NotifyTextChatMsgReq E data s))"
| on_apply: "dialog_step E s (snd (NotifyAddFriendReq E data s))"
| on_auth: "dialog_step E s (snd (NotifyAuthFriendReq E data s))"
| on_auth_rsp: "dialog_step E s (snd (AuthFriendRsp_handler E data s))"
| scroll_chats: "dialog_step E s (snd (loadMoreChatUser E s))"
| scroll_contacts: "dialog_step E s (snd (loadMoreConUser E s))"
| click: "slot_chat_user_item_clicked E a s = Some (r, t) \<Longrightarrow> dialog_step E s t"
| press_chat: "dialog_step E s (snd (press_side_chat s))"
| press_contact: "dialog_step E s (snd (slot_side_contact s))"
| press_collect: "dialog_step E s (snd (slot_side_collect s))"
| jump_search: "slot_jump_chat_item E si s = Some (r, t) \<Longrightarrow> dialog_step E s t"
| jump_infopage: "slot_jump_chat_item_from_infopage E info s = Some (r, t) \<Longrightarrow> dialog_step E s t"
| message_sent: "dialog_step E s (snd (dialog_append_send_chat_msg msg s))"
| client_works: "dialog_step E s (s\<lparr>client := c\<rparr>)"
| contacts_work: "dialog_step E s (s\<lparr>contact_rows := rows\<rparr>)"

lemma dialog_step_unread: "dialog_step E s t \<Longrightarrow> unread_ok s \<Longrightarrow> unread_ok t"
proof (induction rule: dialog_step.induct)
  case (jump_search si s r t)
  then show ?case unfolding slot_jump_chat_item_def by (blast intro: unread_jump)
next
  case (jump_infopage info s r t)
  then show ?case unfolding slot_jump_chat_item_from_infopage_def by (blast intro: unread_jump)
qed (use keeps_unread_text keeps_unread_contacts keeps_unread_load keeps_unread_load_con keeps_unread_side keeps_unread_append unread_click
  in \<open>fastforce simp: keeps_def\<close>)+

text \<open>
  C34. Whatever happens in the window, the unread counters stay consistent: no count is negative, only
  users with an item in the list have unread messages, and the total on the side button is between 0
  and the sum of the counts.
\<close>

theorem unread_counts_consistent:
  assumes "(dialog_step E)\<^sup>*\<^sup>* (new_ChatDialog c) s"
  shows "unread_ok s"
  using assms
proof (induction rule: rtranclp_induct)
  case base
  show ?case by (simp add: unread_ok_def new_ChatDialog_def unread_of_def sum_unread_def)
qed (blast intro: dialog_step_unread)

section \<open>Examples\<close>

definition dialog_demo_env :: dialog_env where
  "dialog_demo_env = \<lparr>env_qt = ref_qt, env_gui = page_env, head_pic = (\<lambda>_. [])\<rparr>"

text \<open>Friend 2 has an item, which nobody clicked yet, and sent a text after the login.\<close>

definition late_text :: TextChatData where
  "late_text = page_text 2 ''news''"

definition dialog_demo :: ChatDialog where
  "dialog_demo = on_item 0 (updateLastMsg [late_text])
     (snd (add_item True 2 (Some (page_info 2 [])) (new_ChatDialog (on_page (slot_notify_text_chat_msg [late_text]) page_chat))))"

theorem first_click_shows_login_messages_witness:
  "view_msgs (the_data 2 (cpage (client dialog_demo))) = [late_text] \<and>
   (\<exists>t. slot_chat_user_item_clicked dialog_demo_env 0 dialog_demo = Some (Val (), t) \<and> view_msgs (the_data 2 (cpage (client t))) = [])"
proof -
  have i: "items dialog_demo 0 = Some \<lparr>item_user = Some (page_info 2 [late_text]\<lparr>cu_last_msg := ''news''\<rparr>), item_selected = False, first_click = True\<rparr>"
    by (simp add: dialog_demo_def add_item_def prog_defs new_ChatDialog_def updateLastMsg_def page_info_def late_text_def page_text_def)
  have c: "client dialog_demo = on_page (slot_notify_text_chat_msg [late_text]) page_chat" "last_selected dialog_demo = None"
    by (simp_all add: dialog_demo_def add_item_def prog_defs new_ChatDialog_def)
  have u: "user_info (dlg_umgr dialog_demo) = Some (page_info 1 [])"
    by (simp add: dlg_umgr_def c on_page_def page_chat_def)
  have v: "view_msgs (the_data 2 (cpage (client dialog_demo))) = [late_text]" "view_of (the_data 2 (cpage (client dialog_demo))) = None"
    by (simp_all add: c on_page_def slot_notify_text_chat_msg_def page_chat_def new_ChatPage_def the_data_def with_data_def late_text_def page_text_def)
  let ?info = "page_info 2 [late_text]\<lparr>cu_last_msg := ''news''\<rparr>"
  have e: "own_messages (cu_uid ?info) (dlg_umgr dialog_demo) = []" "cu_uid ?info = 2"
    by (simp_all add: own_messages_def GetUserInfo_def u) (simp_all add: page_info_def)
  have "inj (createUuid (env_gui dialog_demo_env))" using page_env_inj by (simp add: dialog_demo_env_def)
  from first_click_shows_login_messages [OF this u i _ _ _ e(1), unfolded e(2)]
  have "\<exists>t. slot_chat_user_item_clicked dialog_demo_env 0 dialog_demo = Some (Val (), t) \<and> view_msgs (the_data 2 (cpage (client t))) = []"
    using c v by auto
  with v(1) show ?thesis by blast
qed

definition dialog_note :: json where
  "dialog_note = JObj [(''error'', JInt 0), (''from_uid'', JInt 2), (''to_uid'', JInt 1), (''msg_id'', JStr ''a''), (''content'', JStr ''hi''),
     (''send_time'', JInt 5), (''msg_type'', JInt 1)]"

theorem unread_counts_consistent_witness:
  "\<exists>s. (dialog_step dialog_demo_env)\<^sup>*\<^sup>* (new_ChatDialog page_chat) s \<and> unread_total s = 1 \<and> unread_of s 2 = 1 \<and> unread_ok s"
proof -
  let ?s = "snd (NotifyTextChatMsgReq dialog_demo_env (toStyledString ref_json dialog_note) (new_ChatDialog page_chat))"
  have r: "(dialog_step dialog_demo_env)\<^sup>*\<^sup>* (new_ChatDialog page_chat) ?s" by (blast intro: dialog_step.on_text)
  have "unread_total ?s = 1" "unread_of ?s 2 = 1"
    by (simp_all add: NotifyTextChatMsgReq_def with_reply_def dialog_demo_env_def ref_qt_def ref_json_def dialog_note_def jfield_def prog_defs
        notified_text_def sender_item_def add_item_def new_ChatDialog_def count_unread_def is_selected_def unread_of_def on_item_def
        on_mgr_def on_client_def INT_MIN_def INT_MAX_def Let_def)
  with r unread_counts_consistent [OF r] show ?thesis by blast
qed

end
