(* ===== verification/LabelBox.thy ===== *)
theory LabelBox
  imports Constants
begin

text \<open>
  The box of tags in the dialogs for requesting and accepting a friend. \<open>gui/contacts/apply_friend_dialog.cpp\<close>
  and \<open>gui/contacts/authen_friend_dialog.cpp\<close> hold the same code; the tags are \<open>FriendLabel\<close>s
  (\<open>gui/utilities/friend_label.cpp\<close>), typed into a \<open>CustomizeEdit\<close> (\<open>gui/utilities/customize_edit.h\<close>).
\<close>

section \<open>State\<close>

text \<open>
  What Qt and the form file decide: the width of the text and of the closing cross of a tag, the height
  of the font, the width of the box, the order of \<open>QString\<close>s in a \<open>QMap\<close>, and \<open>QString::fromUtf8\<close>.
\<close>

record label_env =
  tip_width :: "string \<Rightarrow> int"
  close_width :: int
  font_height :: int
  grid_width :: int
  q_less :: "string \<Rightarrow> string \<Rightarrow> bool"
  fromUtf8 :: "string \<Rightarrow> string"

record FriendLabel =
  fl_text :: string
  fl_x :: int
  fl_y :: int
  fl_width :: int
  fl_height :: int

text \<open>
  \<open>_friend_labels\<close> is a \<open>QMap\<close>, kept in the order of its keys; \<open>_add_labels\<close> is never filled. The
  tags are owned by the box; \<open>lb_ed\<close> is the line edit, \<open>tip_lb\<close> the suggestion below it.
\<close>

record LabelBox =
  label_point :: "int \<times> int"
  friend_labels :: "(string \<times> FriendLabel) list"
  friend_label_keys :: "string list"
  tip_data :: "string list"
  lb_ed :: string
  lb_ed_pos :: "int \<times> int"
  tip_lb :: string
  input_tip_shown :: bool
  grid_height :: int

definition MIN_APPLY_LABEL_ED_LEN :: int where
  "MIN_APPLY_LABEL_ED_LEN = 40"

text \<open>UTF-8: ``tian jia biao qian'' and a space.\<close>

definition add_prefix :: string where
  "add_prefix = bytes [0xE6, 0xB7, 0xBB, 0xE5, 0x8A, 0xA0, 0xE6, 0xA0, 0x87, 0xE7, 0xAD, 0xBE, 0x20]"

definition new_LabelBox :: "int \<Rightarrow> string list \<Rightarrow> LabelBox" where
  "new_LabelBox height tips = \<lparr>label_point = (2, 6), friend_labels = [], friend_label_keys = [], tip_data = tips, lb_ed = [],
     lb_ed_pos = (5, 5), tip_lb = [], input_tip_shown = False, grid_height = height\<rparr>"

definition new_FriendLabel :: "label_env \<Rightarrow> string \<Rightarrow> FriendLabel" where
  "new_FriendLabel E name = \<lparr>fl_text = name, fl_x = 0, fl_y = 0, fl_width = tip_width E name + close_width E + 8, fl_height = font_height E + 2\<rparr>"

fun qmap_insert :: "(string \<Rightarrow> string \<Rightarrow> bool) \<Rightarrow> string \<Rightarrow> 'v \<Rightarrow> (string \<times> 'v) list \<Rightarrow> (string \<times> 'v) list" where
  "qmap_insert lt k v [] = [(k, v)]"
| "qmap_insert lt k v ((j, w) # m) =
     (if k = j then (k, v) # m else if lt k j then (k, v) # (j, w) # m else (j, w) # qmap_insert lt k v m)"

section \<open>The line edit\<close>

definition SlotLabelTextChange :: "string \<Rightarrow> LabelBox \<Rightarrow> LabelBox" where
  "SlotLabelTextChange txt s =
     (if txt = [] then s\<lparr>tip_lb := [], input_tip_shown := False\<rparr>
      else if txt \<notin> set (tip_data s) then s\<lparr>tip_lb := add_prefix @ txt, input_tip_shown := True\<rparr>
      else s\<lparr>tip_lb := txt, input_tip_shown := True\<rparr>)"

text \<open>A \<open>CustomizeEdit\<close> to which only \<open>limitTextLength\<close> listens: the text after \<open>setText\<close>, by the old text.\<close>

partial_function (option) edit_text :: "label_env \<Rightarrow> nat \<Rightarrow> string \<Rightarrow> string \<Rightarrow> string option" where
  "edit_text E max_len old txt =
     (if txt = old then Some txt
      else if max_len > 0 \<and> length txt > max_len then edit_text E max_len txt (fromUtf8 E (take max_len txt))
      else Some txt)"

lemma edit_text_short: "length str \<le> max_len \<Longrightarrow> edit_text E max_len old str = Some str"
  by (subst edit_text.simps) simp

lemma edit_text_cut:
  assumes "fromUtf8 E (take max_len str) = take max_len str" "0 < max_len"
  shows "edit_text E max_len old str = Some (if str = old then str else take max_len str)"
proof (cases "str \<noteq> old \<and> max_len < length str")
  case True
  then have "edit_text E max_len old str = edit_text E max_len str (take max_len str)"
    using assms by (subst edit_text.simps) simp
  then show ?thesis using True by (simp add: edit_text_short)
qed (subst edit_text.simps, auto)

text \<open>
  \<open>setText\<close> emits \<open>textChanged\<close> when the text differs from the old one. Two slots are connected, in this
  order: \<open>limitTextLength\<close>, which may set the text again, and \<open>SlotLabelTextChange\<close>, which is then still
  called with the text of its own signal. The maximal length of the edit is 21.
\<close>

partial_function (option) set_lb_ed :: "label_env \<Rightarrow> string \<Rightarrow> LabelBox \<Rightarrow> LabelBox option" where
  "set_lb_ed E txt s =
     (let s1 = s\<lparr>lb_ed := txt\<rparr> in
      if txt = lb_ed s then Some s1
      else
        Option.bind (if length txt > 21 then set_lb_ed E (fromUtf8 E (take 21 txt)) s1 else Some s1) (\<lambda>s2.
        Some (SlotLabelTextChange txt s2)))"

definition clear_lb_ed :: "LabelBox \<Rightarrow> LabelBox" where
  "clear_lb_ed s = (if lb_ed s = [] then s else SlotLabelTextChange [] (s\<lparr>lb_ed := []\<rparr>))"

lemma clearing_lb_ed: "set_lb_ed E [] s = Some (clear_lb_ed s)"
  by (subst set_lb_ed.simps) (auto simp: clear_lb_ed_def Let_def)

section \<open>Placing tags\<close>

text \<open>The next row when the tag does not fit, and the point after the tag.\<close>

definition fit :: "label_env \<Rightarrow> FriendLabel \<Rightarrow> int \<times> int \<Rightarrow> int \<times> int" where
  "fit E l p = (if fst p + fl_width l > grid_width E then (2, snd p + fl_height l + 6) else p)"

definition move_label :: "int \<times> int \<Rightarrow> FriendLabel \<Rightarrow> FriendLabel" where
  "move_label p l = l\<lparr>fl_x := fst p, fl_y := snd p\<rparr>"

definition after_label :: "int \<times> int \<Rightarrow> FriendLabel \<Rightarrow> int \<times> int" where
  "after_label p l = (fst p + fl_width l + 2, snd p)"

definition addLabel :: "label_env \<Rightarrow> string \<Rightarrow> LabelBox \<Rightarrow> LabelBox" where
  "addLabel E name s =
     (if map_of (friend_labels s) name \<noteq> None then clear_lb_ed s
      else
        let tmplabel = new_FriendLabel E name; p = fit E tmplabel (label_point s); tmplabel = move_label p tmplabel;
            q = after_label p tmplabel;
            s1 = s\<lparr>friend_labels := qmap_insert (q_less E) (fl_text tmplabel) tmplabel (friend_labels s),
              friend_label_keys := friend_label_keys s @ [fl_text tmplabel], label_point := q,
              lb_ed_pos := (if fst q + MIN_APPLY_LABEL_ED_LEN > grid_width E then (2, snd q + fl_height tmplabel + 2) else q)\<rparr>;
            s2 = clear_lb_ed s1 in
        if grid_height s2 < snd q + fl_height tmplabel + 2 then s2\<lparr>grid_height := snd q + fl_height tmplabel * 2 + 2\<rparr> else s2)"

fun place_labels :: "label_env \<Rightarrow> (string \<times> FriendLabel) list \<Rightarrow> int \<times> int \<Rightarrow> (string \<times> FriendLabel) list \<times> (int \<times> int)" where
  "place_labels E [] p = ([], p)"
| "place_labels E ((k, l) # m) p =
     (let p' = fit E l p; l' = move_label p' l; (m', q) = place_labels E m (after_label p' l') in ((k, l') # m', q))"

definition resetLabels :: "label_env \<Rightarrow> LabelBox \<Rightarrow> LabelBox" where
  "resetLabels E s =
     (let (m, q) = place_labels E (friend_labels s) (label_point s);
          label_height = (if m = [] then 0 else fl_height (snd (last m)));
          s1 = s\<lparr>friend_labels := m, label_point := q\<rparr> in
      if m = [] then s1\<lparr>lb_ed_pos := q\<rparr>
      else if fst q + MIN_APPLY_LABEL_ED_LEN > grid_width E then s1\<lparr>lb_ed_pos := (2, snd q + label_height + 6)\<rparr>
      else s1\<lparr>lb_ed_pos := q\<rparr>)"

section \<open>Slots\<close>

definition remember_tip :: "string \<Rightarrow> LabelBox \<Rightarrow> LabelBox" where
  "remember_tip txt s = (if txt \<in> set (tip_data s) then s else s\<lparr>tip_data := tip_data s @ [txt]\<rparr>)"

definition SlotLabelEnter :: "label_env \<Rightarrow> LabelBox \<Rightarrow> LabelBox" where
  "SlotLabelEnter E s =
     (if lb_ed s = [] then s
      else remember_tip (lb_ed s) ((addLabel E (lb_ed s) s)\<lparr>input_tip_shown := False\<rparr>))"

definition SlotRemoveFriendLabel :: "label_env \<Rightarrow> string \<Rightarrow> LabelBox \<Rightarrow> LabelBox" where
  "SlotRemoveFriendLabel E name s =
     (let s1 = s\<lparr>label_point := (2, 6)\<rparr> in
      if map_of (friend_labels s1) name = None then s1
      else resetLabels E (s1\<lparr>friend_label_keys := remove1 name (friend_label_keys s1),
        friend_labels := filter (\<lambda>(k, _). k \<noteq> name) (friend_labels s1)\<rparr>))"

definition SlotLabelEditFinished :: "LabelBox \<Rightarrow> LabelBox" where
  "SlotLabelEditFinished s = s\<lparr>input_tip_shown := False\<rparr>"

text \<open>\<open>QString::indexOf\<close> and \<open>mid\<close>: the rest of the text after the first occurrence of the prefix.\<close>

fun after_first :: "string \<Rightarrow> string \<Rightarrow> string option" where
  "after_first p [] = (if p = [] then Some [] else None)"
| "after_first p (c # cs) = (if take (length p) (c # cs) = p then Some (drop (length p) (c # cs)) else after_first p cs)"

definition SlotAddFirendLabelByClickTip :: "label_env \<Rightarrow> string \<Rightarrow> LabelBox \<Rightarrow> LabelBox" where
  "SlotAddFirendLabelByClickTip E txt s =
     (let txt' = (case after_first add_prefix txt of None \<Rightarrow> txt | Some rest \<Rightarrow> rest) in
      remember_tip txt' (addLabel E txt' s))"

section \<open>Tags keep apart\<close>

text \<open>
  A tag lies before a point when it is in the same row to the left of it, or in an earlier row. Tags that
  lie before the point do not meet a tag placed from it.
\<close>

definition before :: "int \<times> int \<Rightarrow> FriendLabel \<Rightarrow> bool" where
  "before p l \<longleftrightarrow> fl_y l = snd p \<and> fl_x l + fl_width l + 2 \<le> fst p \<or> fl_y l + fl_height l + 6 \<le> snd p"

definition apart :: "FriendLabel \<Rightarrow> FriendLabel \<Rightarrow> bool" where
  "apart k l \<longleftrightarrow> fl_x k + fl_width k \<le> fl_x l \<or> fl_x l + fl_width l \<le> fl_x k \<or>
     fl_y k + fl_height k \<le> fl_y l \<or> fl_y l + fl_height l \<le> fl_y k"

definition inside :: "label_env \<Rightarrow> FriendLabel \<Rightarrow> bool" where
  "inside E l \<longleftrightarrow> 2 \<le> fl_x l \<and> (fl_x l = 2 \<or> fl_x l + fl_width l \<le> grid_width E)"

definition tag_sized :: "label_env \<Rightarrow> string \<Rightarrow> FriendLabel \<Rightarrow> bool" where
  "tag_sized E k l \<longleftrightarrow> fl_text l = k \<and> fl_width l = tip_width E k + close_width E + 8 \<and> fl_height l = font_height E + 2"

definition clear_of :: "int \<times> int \<Rightarrow> FriendLabel \<Rightarrow> bool" where
  "clear_of p l \<longleftrightarrow> fl_x l + fl_width l \<le> fst p \<or> fl_y l + fl_height l \<le> snd p"

definition fonts_ok :: "label_env \<Rightarrow> bool" where
  "fonts_ok E \<longleftrightarrow> (\<forall>t. 0 \<le> tip_width E t) \<and> 0 \<le> close_width E \<and> 0 \<le> font_height E"

definition laid_out :: "label_env \<Rightarrow> LabelBox \<Rightarrow> bool" where
  "laid_out E s \<longleftrightarrow>
     distinct (map fst (friend_labels s)) \<and> distinct (friend_label_keys s) \<and> set (friend_label_keys s) = fst ` set (friend_labels s) \<and>
     (\<forall>(k, l) \<in> set (friend_labels s). tag_sized E k l \<and> inside E l \<and> before (label_point s) l) \<and>
     2 \<le> fst (label_point s) \<and>
     (\<forall>(k, l) \<in> set (friend_labels s). \<forall>(k', l') \<in> set (friend_labels s). k \<noteq> k' \<longrightarrow> apart l l') \<and>
     (\<forall>(k, l) \<in> set (friend_labels s). clear_of (lb_ed_pos s) l)"

lemma placed:
  assumes "fonts_ok E" "tag_sized E k l" "2 \<le> fst p"
  defines "l' \<equiv> move_label (fit E l p) l"
  shows "tag_sized E k l'" "inside E l'" "before (after_label (fit E l p) l') l'" "2 \<le> fst (after_label (fit E l p) l')"
    "tag_sized E k' m \<Longrightarrow> before p m \<Longrightarrow> before (after_label (fit E l p) l') m \<and> apart m l' \<and> apart l' m"
proof -
  have w: "0 \<le> fl_width l" "0 \<le> fl_height l" using assms(1,2) by (auto simp: tag_sized_def fonts_ok_def)
  show "tag_sized E k l'" using assms(2) by (simp add: l'_def move_label_def tag_sized_def)
  show "inside E l'" using assms(3) by (auto simp: l'_def move_label_def inside_def fit_def)
  show "before (after_label (fit E l p) l') l'" by (simp add: l'_def move_label_def before_def after_label_def)
  show "2 \<le> fst (after_label (fit E l p) l')" using assms(3) w by (auto simp: l'_def move_label_def after_label_def fit_def)
  assume m: "tag_sized E k' m" "before p m"
  have h: "fl_height m = fl_height l" using m(1) assms(2) by (simp add: tag_sized_def)
  show "before (after_label (fit E l p) l') m \<and> apart m l' \<and> apart l' m"
    using m(2) w h by (auto simp: l'_def move_label_def before_def after_label_def fit_def apart_def)
qed

lemma fst_qmap_insert: "k \<notin> fst ` set m \<Longrightarrow> set (qmap_insert lt k v m) = insert (k, v) (set m)"
  by (induction lt k v m rule: qmap_insert.induct) auto

lemma distinct_qmap_insert: "k \<notin> fst ` set m \<Longrightarrow> distinct (map fst m) \<Longrightarrow> distinct (map fst (qmap_insert lt k v m))"
  by (induction lt k v m rule: qmap_insert.induct) (auto simp: fst_qmap_insert image_iff)

lemma place_labels_keys: "map fst (fst (place_labels E m p)) = map fst m"
proof (induction m arbitrary: p)
  case (Cons kl m)
  then show ?case by (cases kl) (simp add: Let_def split_beta)
qed simp

lemma place_labels_laid:
  assumes "fonts_ok E" "\<forall>(k, l) \<in> set m. tag_sized E k l" "2 \<le> fst p" "distinct (map fst m)" "place_labels E m p = (m', q)"
  shows "2 \<le> fst q \<and> (\<forall>(k, l) \<in> set m'. tag_sized E k l \<and> inside E l \<and> before q l) \<and>
    (\<forall>(k, l) \<in> set m'. \<forall>(k', l') \<in> set m'. k \<noteq> k' \<longrightarrow> apart l l') \<and>
    (\<forall>k l. tag_sized E k l \<and> before p l \<longrightarrow> before q l \<and> (\<forall>(k', l') \<in> set m'. apart l l' \<and> apart l' l))"
  using assms(2-5)
proof (induction m arbitrary: p m' q)
  case (Cons kl m)
  obtain k l where kl: "kl = (k, l)" by (cases kl)
  define p' l' where "p' = fit E l p" and "l' = move_label p' l"
  obtain m1 where m1: "place_labels E m (after_label p' l') = (m1, q)" "m' = (k, l') # m1"
    using Cons.prems(4) by (auto simp: kl p'_def l'_def Let_def split: prod.splits)
  have l: "tag_sized E k l" using Cons.prems(1) by (simp add: kl)
  note at = placed [OF assms(1) l Cons.prems(2), folded p'_def, folded l'_def]
  have "\<forall>(k, l) \<in> set m. tag_sized E k l" "distinct (map fst m)" using Cons.prems by (simp_all add: kl)
  from Cons.IH [OF this(1) at(4) this(2) m1(1)]
  show ?case using at unfolding m1(2) by (auto 0 4 simp: split_beta)
qed auto

definition box_kept :: "LabelBox \<Rightarrow> LabelBox \<Rightarrow> bool" where
  "box_kept s t \<longleftrightarrow> label_point t = label_point s \<and> friend_labels t = friend_labels s \<and> friend_label_keys t = friend_label_keys s \<and>
     lb_ed_pos t = lb_ed_pos s"

lemma box_kept_edit:
  "box_kept s (SlotLabelTextChange txt s)" "box_kept s (clear_lb_ed s)" "box_kept s (remember_tip txt s)" "box_kept s (s\<lparr>lb_ed := txt\<rparr>)"
  "box_kept s (s\<lparr>input_tip_shown := b\<rparr>)" "box_kept s (s\<lparr>grid_height := h\<rparr>)" "box_kept s (SlotLabelEditFinished s)"
  "box_kept s ((clear_lb_ed s)\<lparr>grid_height := h\<rparr>)"
  by (auto simp: box_kept_def SlotLabelTextChange_def clear_lb_ed_def remember_tip_def SlotLabelEditFinished_def)

lemma box_kept_trans: "box_kept s t \<Longrightarrow> box_kept t u \<Longrightarrow> box_kept s u"
  by (simp add: box_kept_def)

lemma laid_out_kept: "laid_out E s \<Longrightarrow> box_kept s t \<Longrightarrow> laid_out E t"
  by (simp add: laid_out_def box_kept_def)

lemma box_kept_set_lb_ed: "set_lb_ed E txt s = Some t \<Longrightarrow> box_kept s t"
proof (rule set_lb_ed.raw_induct [where P = "\<lambda>_ _ s t. box_kept s t"])
  fix f :: "label_env \<Rightarrow> string \<Rightarrow> LabelBox \<Rightarrow> LabelBox option" and E str s t
  assume IH: "\<And>E str s t. f E str s = Some t \<Longrightarrow> box_kept s t"
    and run: "(let s1 = s\<lparr>lb_ed := str\<rparr> in if str = lb_ed s then Some s1
      else Option.bind (if 21 < length str then f E (fromUtf8 E (take 21 str)) s1 else Some s1) (\<lambda>s2. Some (SlotLabelTextChange str s2))) = Some t"
  let ?s = "s\<lparr>lb_ed := str\<rparr>"
  show "box_kept s t"
  proof (cases "str = lb_ed s")
    case False
    with run obtain u where u: "(if 21 < length str then f E (fromUtf8 E (take 21 str)) ?s else Some ?s) = Some u"
        "t = SlotLabelTextChange str u"
      by (auto simp: Let_def bind_eq_Some_conv split: if_splits)
    have "box_kept ?s u" using u(1) IH by (auto split: if_splits simp: box_kept_def)
    then show ?thesis using u(2) box_kept_edit by (metis box_kept_trans)
  qed (use run in \<open>auto simp: Let_def box_kept_def\<close>)
qed

lemma laid_out_addLabel:
  assumes "fonts_ok E" "laid_out E s"
  shows "laid_out E (addLabel E name s)"
proof (cases "map_of (friend_labels s) name")
  case None
  define l p where "l = new_FriendLabel E name" and "p = fit E l (label_point s)"
  define l' q where "l' = move_label p l" and "q = after_label p l'"
  have l: "tag_sized E name l" by (simp add: l_def new_FriendLabel_def tag_sized_def)
  have fresh: "name \<notin> fst ` set (friend_labels s)" using None by (simp add: map_of_eq_None_iff)
  have two: "2 \<le> fst (label_point s)" using assms(2) by (simp add: laid_out_def)
  note at = placed [OF assms(1) l two, folded p_def, folded l'_def, folded q_def]
  let ?ed = "if fst q + MIN_APPLY_LABEL_ED_LEN > grid_width E then (2, snd q + fl_height l' + 2) else q"
  let ?t = "s\<lparr>friend_labels := qmap_insert (q_less E) name l' (friend_labels s), friend_label_keys := friend_label_keys s @ [name],
    label_point := q, lb_ed_pos := ?ed\<rparr>"
  have b: "clear_of ?ed k" if "tag_sized E i k" "before q k" for i k
    using that at(1) assms(1) by (auto simp: before_def clear_of_def tag_sized_def fonts_ok_def)
  have old: "tag_sized E i k \<and> inside E k \<and> before q k \<and> apart k l' \<and> apart l' k \<and> clear_of ?ed k" if "(i, k) \<in> set (friend_labels s)" for i k
  proof -
    have "tag_sized E i k" "inside E k" "before (label_point s) k" using assms(2) that by (auto simp: laid_out_def)
    then show ?thesis using at(5) b by blast
  qed
  have new: "clear_of ?ed l'" using b at(1,3) by blast
  have set: "set (friend_labels ?t) = insert (name, l') (set (friend_labels s))" by (simp add: fst_qmap_insert [OF fresh])
  have "laid_out E ?t"
    unfolding laid_out_def
  proof (intro conjI)
    show "\<forall>(k, l) \<in> set (friend_labels ?t). tag_sized E k l \<and> inside E l \<and> before (label_point ?t) l"
      unfolding set using at old by auto
    show "\<forall>(k, l) \<in> set (friend_labels ?t). \<forall>(k', l') \<in> set (friend_labels ?t). k \<noteq> k' \<longrightarrow> apart l l'"
      unfolding set using assms(2) old by (auto simp: laid_out_def)
    show "\<forall>(k, l) \<in> set (friend_labels ?t). clear_of (lb_ed_pos ?t) l"
      unfolding set using new old by (auto simp del: if_split)
  qed (use assms(2) at(4) fresh in \<open>auto simp: laid_out_def fst_qmap_insert distinct_qmap_insert\<close>)
  moreover have "box_kept ?t (addLabel E name s)"
  proof -
    have "fl_text l' = name" using at(1) by (simp add: tag_sized_def)
    then show ?thesis
      using None box_kept_edit
      by (auto simp: addLabel_def Let_def l_def [symmetric] p_def [symmetric] l'_def [symmetric] q_def [symmetric] simp del: fst_conv snd_conv)
  qed
  ultimately show ?thesis by (rule laid_out_kept)
qed (use laid_out_kept [OF assms(2) box_kept_edit(2)] in \<open>simp add: addLabel_def\<close>)

lemma place_labels_last:
  "place_labels E m p = (m', q) \<Longrightarrow> m' \<noteq> [] \<Longrightarrow> \<forall>(k, l) \<in> set m'. fl_height l = h \<Longrightarrow> fl_height (snd (last m')) = h"
  using last_in_set by fastforce

lemma laid_out_resetLabels:
  assumes E: "fonts_ok E" and m: "\<forall>(k, l) \<in> set (friend_labels s). tag_sized E k l" "distinct (map fst (friend_labels s))"
    and p: "label_point s = (2, 6)"
    and keys: "distinct (friend_label_keys s)" "set (friend_label_keys s) = fst ` set (friend_labels s)"
  shows "laid_out E (resetLabels E s)"
proof -
  obtain m' q where mq: "place_labels E (friend_labels s) (2, 6) = (m', q)" by (rule prod.exhaust)
  have r: "2 \<le> fst q" "\<forall>(k, l) \<in> set m'. tag_sized E k l \<and> inside E l \<and> before q l"
      "\<forall>(k, l) \<in> set m'. \<forall>(k', l') \<in> set m'. k \<noteq> k' \<longrightarrow> apart l l'"
    using place_labels_laid [OF E m(1) _ m(2) mq] by auto
  have k: "map fst m' = map fst (friend_labels s)" using place_labels_keys [of E "friend_labels s" "(2, 6)"] mq by simp
  then have k': "fst ` set m' = fst ` set (friend_labels s)" by (metis list.set_map)
  let ?h = "font_height E + 2"
  have h: "fl_height (snd (last m')) = ?h" if "m' \<noteq> []"
    by (rule place_labels_last [OF mq that]) (use r(2) in \<open>auto simp: tag_sized_def\<close>)
  have c: "clear_of q l" "clear_of (2, snd q + ?h + 6) l" if "(k, l) \<in> set m'" for k l
    using r(2) that E by (auto simp: before_def clear_of_def tag_sized_def fonts_ok_def)
  have *: "laid_out E (s\<lparr>friend_labels := m', label_point := q, lb_ed_pos := e\<rparr>)" if "e = q \<or> e = (2, snd q + ?h + 6)" for e
    using r c that keys m(2) k k' unfolding laid_out_def by auto
  show ?thesis using h * [of q] * [of "(2, snd q + ?h + 6)"] by (auto simp add: resetLabels_def p mq Let_def)
qed

lemma laid_out_remove:
  assumes "fonts_ok E" "laid_out E s" "name \<in> set (friend_label_keys s)"
  shows "laid_out E (SlotRemoveFriendLabel E name s)"
proof -
  let ?s = "s\<lparr>label_point := (2, 6), friend_label_keys := remove1 name (friend_label_keys s),
    friend_labels := filter (\<lambda>(k, _). k \<noteq> name) (friend_labels s)\<rparr>"
  have found: "map_of (friend_labels s) name \<noteq> None" using assms(2,3) by (simp add: laid_out_def map_of_eq_None_iff)
  have d: "distinct (map fst (filter (\<lambda>(k, _). k \<noteq> name) (friend_labels s)))"
    using assms(2) by (simp add: laid_out_def distinct_map_filter)
  have "laid_out E (resetLabels E ?s)"
    by (rule laid_out_resetLabels [OF assms(1)]) (use assms(2) d in \<open>auto simp: laid_out_def set_remove1_eq image_iff\<close>)
  then show ?thesis using found by (auto simp: SlotRemoveFriendLabel_def Let_def)
qed

text \<open>
  What can happen to the box: the user types, presses return, clicks the suggestion while it is shown, or
  clicks the cross of one of the tags.
\<close>

inductive label_step :: "label_env \<Rightarrow> LabelBox \<Rightarrow> LabelBox \<Rightarrow> bool" for E where
  typed: "set_lb_ed E str s = Some t \<Longrightarrow> label_step E s t"
| entered: "label_step E s (SlotLabelEditFinished (SlotLabelEnter E s))"
| left_edit: "label_step E s (SlotLabelEditFinished s)"
| tip_clicked: "input_tip_shown s \<Longrightarrow> label_step E s (SlotAddFirendLabelByClickTip E (tip_lb s) s)"
| closed: "name \<in> set (friend_label_keys s) \<Longrightarrow> label_step E s (SlotRemoveFriendLabel E name s)"

lemma label_step_laid_out:
  assumes "label_step E s t" "fonts_ok E" "laid_out E s"
  shows "laid_out E t"
  using assms(1)
proof cases
  case (typed str)
  then show ?thesis using assms(3) box_kept_set_lb_ed laid_out_kept by blast
next
  case entered
  then show ?thesis
    using assms(2,3) laid_out_addLabel box_kept_edit laid_out_kept by (metis SlotLabelEnter_def)
next
  case tip_clicked
  then show ?thesis
    using assms(2,3) laid_out_addLabel box_kept_edit laid_out_kept by (metis SlotAddFirendLabelByClickTip_def)
qed (use assms laid_out_remove box_kept_edit laid_out_kept in blast)+

text \<open>
  Whatever the user does in the box of tags, the tags are the entered ones, each once, no two of them
  overlap, none begins left of the margin or sticks out on the right unless it begins a row,
  and the line edit begins right of or below every tag.
\<close>

theorem labels_never_overlap:
  assumes "fonts_ok E" "(label_step E)\<^sup>*\<^sup>* (new_LabelBox height tips) s"
  shows "laid_out E s"
  using assms(2)
proof (induction rule: rtranclp_induct)
  case base
  show ?case by (simp add: laid_out_def new_LabelBox_def)
qed (blast intro: label_step_laid_out [OF _ assms(1)])

definition label_demo_env :: label_env where
  "label_demo_env = \<lparr>tip_width = (\<lambda>t. 10 * int (length t)), close_width = 12, font_height = 16, grid_width = 120,
     q_less = (\<lambda>s t. length t < length s), fromUtf8 = (\<lambda>b. b)\<rparr>"

definition two_tags :: LabelBox where
  "two_tags = SlotLabelEditFinished (SlotLabelEnter label_demo_env (the (set_lb_ed label_demo_env ''friend''
     (SlotLabelEditFinished (SlotLabelEnter label_demo_env (the (set_lb_ed label_demo_env ''golf'' (new_LabelBox 30 []))))))))"

lemma set_lb_ed_short: "length str \<le> 21 \<Longrightarrow> str \<noteq> lb_ed s \<Longrightarrow> set_lb_ed E str s = Some (SlotLabelTextChange str (s\<lparr>lb_ed := str\<rparr>))"
  by (subst set_lb_ed.simps) (simp add: Let_def)

theorem labels_never_overlap_witness:
  "friend_label_keys two_tags = [''golf'', ''friend''] \<and> map fst (friend_labels two_tags) = [''friend'', ''golf''] \<and>
   map (\<lambda>(_, l). (fl_x l, fl_y l)) (friend_labels two_tags) = [(2, 30), (2, 6)] \<and> laid_out label_demo_env two_tags"
proof -
  let ?E = label_demo_env and ?s = "new_LabelBox 30 []"
  define s1 where "s1 = SlotLabelTextChange ''golf'' (?s\<lparr>lb_ed := ''golf''\<rparr>)"
  define s2 where "s2 = SlotLabelEditFinished (SlotLabelEnter ?E s1)"
  define s3 where "s3 = SlotLabelTextChange ''friend'' (s2\<lparr>lb_ed := ''friend''\<rparr>)"
  have 1: "set_lb_ed ?E ''golf'' ?s = Some s1" unfolding s1_def by (rule set_lb_ed_short) (simp_all add: new_LabelBox_def)
  have e: "lb_ed s2 = []" unfolding s2_def s1_def by code_simp
  have 3: "set_lb_ed ?E ''friend'' s2 = Some s3" unfolding s3_def by (rule set_lb_ed_short) (simp_all add: e)
  have t: "two_tags = SlotLabelEditFinished (SlotLabelEnter ?E s3)" by (simp add: two_tags_def 1 s2_def [symmetric] 3)
  have "label_step ?E ?s s1" "label_step ?E s1 s2" "label_step ?E s2 s3" "label_step ?E s3 two_tags"
    using label_step.typed [OF 1] label_step.typed [OF 3] label_step.entered by (simp_all add: t s2_def)
  then have "(label_step ?E)\<^sup>*\<^sup>* ?s two_tags" by (meson converse_rtranclp_into_rtranclp rtranclp.rtrancl_refl)
  moreover have "fonts_ok ?E" by (simp add: fonts_ok_def label_demo_env_def)
  ultimately have "laid_out ?E two_tags" by (rule labels_never_overlap [rotated])
  moreover have "friend_label_keys two_tags = [''golf'', ''friend'']" "map fst (friend_labels two_tags) = [''friend'', ''golf'']"
    "map (\<lambda>(_, l). (fl_x l, fl_y l)) (friend_labels two_tags) = [(2, 30), (2, 6)]"
    unfolding t s3_def s2_def s1_def
    by (simp_all add: SlotLabelEditFinished_def SlotLabelEnter_def SlotLabelTextChange_def addLabel_def Let_def new_LabelBox_def
        new_FriendLabel_def fit_def move_label_def after_label_def clear_lb_ed_def remember_tip_def label_demo_env_def
        MIN_APPLY_LABEL_ED_LEN_def)
  ultimately show ?thesis by simp
qed

section \<open>Suggestions\<close>

lemma after_first_prefix: "after_first p (p @ xs) = Some xs"
proof (cases "p @ xs")
  case (Cons c cs)
  then have "take (length p) (c # cs) = p" "drop (length p) (c # cs) = xs" by (metis append_eq_conv_conj)+
  then show ?thesis by (simp add: Cons)
qed simp

lemma map_of_qmap_insert: "map_of (qmap_insert lt k v m) k = Some v"
  by (induction lt k v m rule: qmap_insert.induct) auto

lemma addLabel_keys:
  assumes "laid_out E s"
  shows "set (friend_label_keys (addLabel E name s)) = insert name (set (friend_label_keys s))"
proof (cases "map_of (friend_labels s) name")
  case None
  then show ?thesis
    by (simp add: addLabel_def Let_def new_FriendLabel_def move_label_def clear_lb_ed_def SlotLabelTextChange_def)
next
  case (Some l)
  then have "name \<in> fst ` set (friend_labels s)" by (metis map_of_eq_None_iff option.distinct(1))
  then show ?thesis
    using assms Some box_kept_edit(2) [of s] by (auto simp: addLabel_def box_kept_def laid_out_def)
qed

text \<open>
  Typing a tag of at most 21 bytes and clicking the suggestion adds exactly the typed tag, unless the
  tag was suggested before and contains the words that announce a new tag.
\<close>

theorem suggestion_adds_typed_tag:
  assumes "laid_out E s" "str \<noteq> []" "length str \<le> 21" "str \<noteq> lb_ed s"
    and "str \<notin> set (tip_data s) \<or> after_first add_prefix str = None"
  shows "\<exists>t. set_lb_ed E str s = Some t \<and> input_tip_shown t \<and>
    set (friend_label_keys (SlotAddFirendLabelByClickTip E (tip_lb t) t)) = insert str (set (friend_label_keys s))"
proof -
  let ?t = "SlotLabelTextChange str (s\<lparr>lb_ed := str\<rparr>)"
  have t: "set_lb_ed E str s = Some ?t" by (rule set_lb_ed_short [OF assms(3,4)])
  have keep: "box_kept s ?t" using box_kept_set_lb_ed [OF t] .
  have "(case after_first add_prefix (tip_lb ?t) of None \<Rightarrow> tip_lb ?t | Some rest \<Rightarrow> rest) = str"
    using assms(2,5) by (auto simp: SlotLabelTextChange_def after_first_prefix)
  moreover have "laid_out E ?t" by (rule laid_out_kept [OF assms(1) keep])
  ultimately have "set (friend_label_keys (SlotAddFirendLabelByClickTip E (tip_lb ?t) ?t)) = insert str (set (friend_label_keys ?t))"
    by (simp add: SlotAddFirendLabelByClickTip_def Let_def remember_tip_def addLabel_keys)
  moreover have "input_tip_shown ?t" using assms(2) by (simp add: SlotLabelTextChange_def)
  ultimately show ?thesis using t keep by (auto simp: box_kept_def)
qed

theorem suggestion_adds_typed_tag_witness:
  "\<exists>t. set_lb_ed label_demo_env ''golf'' (new_LabelBox 30 []) = Some t \<and> input_tip_shown t \<and>
    set (friend_label_keys (SlotAddFirendLabelByClickTip label_demo_env (tip_lb t) t)) = {''golf''}"
proof -
  have "laid_out label_demo_env (new_LabelBox 30 [])" by (simp add: laid_out_def new_LabelBox_def)
  from suggestion_adds_typed_tag [OF this, of "''golf''"] show ?thesis by (simp add: new_LabelBox_def)
qed

text \<open>
  A text longer than the edit's limit of 21 bytes: the edit shows the first 21 bytes when these end at
  a character, but the suggestion is made from the whole text, and a click on it adds the long tag.
\<close>

theorem long_tag_suggested:
  assumes "laid_out E s" "length str > 21" "str \<noteq> lb_ed s" "fromUtf8 E (take 21 str) = take 21 str" "str \<notin> set (tip_data s)"
  shows "\<exists>t. set_lb_ed E str s = Some t \<and> lb_ed t = take 21 str \<and>
    set (friend_label_keys (SlotAddFirendLabelByClickTip E (tip_lb t) t)) = insert str (set (friend_label_keys s))"
proof -
  let ?short = "take 21 str" and ?s1 = "s\<lparr>lb_ed := str\<rparr>"
  let ?s2 = "SlotLabelTextChange ?short (?s1\<lparr>lb_ed := ?short\<rparr>)"
  have "?short \<noteq> str" using assms(2) by (metis length_take min_less_iff_conj nat_neq_iff)
  then have 2: "set_lb_ed E ?short ?s1 = Some ?s2" by (intro set_lb_ed_short) simp_all
  let ?t = "SlotLabelTextChange str ?s2"
  have t: "set_lb_ed E str s = Some ?t" by (subst set_lb_ed.simps) (use assms(2-4) 2 in \<open>simp add: Let_def\<close>)
  have keep: "box_kept s ?t" using box_kept_set_lb_ed [OF t] .
  have d: "tip_data ?s2 = tip_data s" "lb_ed ?s2 = ?short" by (auto simp: SlotLabelTextChange_def)
  have ne: "str \<noteq> []" using assms(2) by auto
  have "tip_lb ?t = add_prefix @ str" "lb_ed ?t = ?short" using assms(5) ne d by (auto simp: SlotLabelTextChange_def)
  then show ?thesis
    using t keep laid_out_kept [OF assms(1) keep]
    by (auto simp: SlotAddFirendLabelByClickTip_def Let_def after_first_prefix remember_tip_def addLabel_keys box_kept_def)
qed

theorem long_tag_suggested_witness:
  "\<exists>t. set_lb_ed label_demo_env ''abcdefghijklmnopqrstuvwxyz'' (new_LabelBox 30 []) = Some t \<and> lb_ed t = ''abcdefghijklmnopqrstu'' \<and>
    set (friend_label_keys (SlotAddFirendLabelByClickTip label_demo_env (tip_lb t) t)) = {''abcdefghijklmnopqrstuvwxyz''}"
proof -
  have "laid_out label_demo_env (new_LabelBox 30 [])" by (simp add: laid_out_def new_LabelBox_def)
  from long_tag_suggested [OF this, of "''abcdefghijklmnopqrstuvwxyz''"] show ?thesis
    by (simp add: new_LabelBox_def label_demo_env_def)
qed

end
