(* ===== verification/MessageBus.thy ===== *)
theory MessageBus
  imports Registry Framing
begin

text \<open>
  How the parts of the client find each other: the message bus (\<open>utils/message_bus.h\<close>, \<open>utils/message_bus.cpp\<close>,
  \<open>utils/message_commands.h\<close>) and the table of message callbacks of the TCP manager (\<open>network/tcp_mgr.cpp\<close>).
\<close>

section \<open>The contract of a bus\<close>

text \<open>
  A handler is registered under a command for a receiver, which may be gone when a message comes. A bus
  runs the handlers of the command in the order of their registration, each only while its receiver lives.
\<close>

locale bus =
  fixes empty_bus :: 'b
    and register :: "string \<Rightarrow> 'r \<Rightarrow> ('d \<Rightarrow> ('s, unit) prog) \<Rightarrow> 'b \<Rightarrow> 'b"
    and post :: "'b \<Rightarrow> string \<Rightarrow> 'd \<Rightarrow> ('s, unit) prog"
    and live :: "'s \<Rightarrow> 'r \<Rightarrow> bool"
  assumes post_empty: "post empty_bus c d = ret ()"
    and post_register_same: "post (register c r h b) c d =
      bnd (post b c d) (\<lambda>_. bnd (gets (\<lambda>s. live s r)) (\<lambda>l. if l then h d else ret ()))"
    and post_register_other: "c' \<noteq> c \<Longrightarrow> post (register c r h b) c' d = post b c' d"
begin

definition if_alive :: "'r \<times> ('d \<Rightarrow> ('s, unit) prog) \<Rightarrow> 'd \<Rightarrow> ('s, unit) prog" where
  "if_alive = (\<lambda>(r, h) d. bnd (gets (\<lambda>s. live s r)) (\<lambda>l. if l then h d else ret ()))"

definition build :: "(string \<times> 'r \<times> ('d \<Rightarrow> ('s, unit) prog)) list \<Rightarrow> 'b" where
  "build regs = fold (\<lambda>(c, r, h). register c r h) regs empty_bus"

lemma build_snoc: "build (regs @ [(c, r, h)]) = register c r h (build regs)"
  by (simp add: build_def)

text \<open>Posting runs exactly the handlers registered for the command, in order.\<close>

lemma post_build: "post (build regs) c d = forM (\<lambda>rh. if_alive rh d) (map snd (filter (\<lambda>x. fst x = c) regs))"
proof (induction regs rule: rev_induct)
  case Nil
  then show ?case by (simp add: build_def post_empty)
next
  case (snoc x regs)
  obtain c' r h where x: "x = (c', r, h)" by (cases x)
  have one: "forM f [y] = f y" for f :: "'x \<Rightarrow> ('y, unit) prog" and y
    by (simp add: bnd_def ret_def fun_eq_iff split: prod.splits result.splits)
  show ?case
    by (cases "c' = c") (simp_all add: x build_snoc post_register_same post_register_other snoc forM_append if_alive_def one
        del: forM.simps)
qed

lemma post_keeps:
  assumes "\<And>r h. (c, r, h) \<in> set regs \<Longrightarrow> keeps I (h d)"
  shows "keeps I (post (build regs) c d)"
proof -
  have "keeps I (forM (\<lambda>rh. if_alive rh d) xs)" if "\<forall>(r, h) \<in> set xs. keeps I (h d)" for xs
    using that by (induction xs) (auto simp: if_alive_def intro!: keeps_bnd)
  then show ?thesis unfolding post_build using assms by fastforce
qed

end

section \<open>MessageBus\<close>

text \<open>The values that are posted, with the conversions of \<open>QVariant\<close> that the handlers use.\<close>

datatype 'j QVariant = QBool bool | QText string | QJsonObject 'j

fun v_toBool :: "'j QVariant \<Rightarrow> bool" where
  "v_toBool (QBool b) = b"
| "v_toBool (QText t) = (t \<noteq> [] \<and> t \<noteq> ''0'' \<and> t \<noteq> ''false'')"
| "v_toBool (QJsonObject j) = False"

fun v_toString :: "'j QVariant \<Rightarrow> string" where
  "v_toString (QText t) = t"
| "v_toString (QBool b) = (if b then ''true'' else ''false'')"
| "v_toString (QJsonObject j) = []"

record ('s, 'r, 'd) MessageBus =
  m_handlers :: "string \<rightharpoonup> ('r \<times> ('d \<Rightarrow> ('s, unit) prog)) list"

definition new_MessageBus :: "('s, 'r, 'd) MessageBus" where
  "new_MessageBus = \<lparr>m_handlers = Map.empty\<rparr>"

text \<open>The handler is stored with a \<open>QPointer\<close> to its receiver; nothing ever takes it out again.\<close>

definition registerHandler :: "string \<Rightarrow> 'r \<Rightarrow> ('d \<Rightarrow> ('s, unit) prog) \<Rightarrow> ('s, 'r, 'd) MessageBus \<Rightarrow> ('s, 'r, 'd) MessageBus" where
  "registerHandler command receiver handler B =
     B\<lparr>m_handlers := (m_handlers B)(command \<mapsto> (case m_handlers B command of None \<Rightarrow> [] | Some hs \<Rightarrow> hs) @ [(receiver, handler)])\<rparr>"

definition postMessage :: "('s \<Rightarrow> 'r \<Rightarrow> bool) \<Rightarrow> ('s, 'r, 'd) MessageBus \<Rightarrow> string \<Rightarrow> 'd \<Rightarrow> ('s, unit) prog" where
  "postMessage alive B command data =
     (case m_handlers B command of
        None \<Rightarrow> ret ()
      | Some handlers \<Rightarrow>
          forM (\<lambda>(receiver, handler).
            bnd (gets (\<lambda>s. alive s receiver)) (\<lambda>l. if l then handler data else ret ())) handlers)"

interpretation message_bus: bus new_MessageBus registerHandler "postMessage alive" alive for alive :: "'s \<Rightarrow> 'r \<Rightarrow> bool"
  by unfold_locales (auto simp: new_MessageBus_def registerHandler_def postMessage_def forM_append split: option.splits)

section \<open>Callbacks for messages of the server\<close>

text \<open>A slot may not return, because opening a conversation may not; then its value is \<open>None\<close>.\<close>

type_synonym 's slot = "'s \<Rightarrow> (unit result \<times> 's) option"

definition slot_of :: "('s, unit) prog \<Rightarrow> 's slot" where
  "slot_of p s = Some (p s)"

definition then_slot :: "'s slot \<Rightarrow> 's slot \<Rightarrow> 's slot" where
  "then_slot f g s = Option.bind (f s) (\<lambda>(r, t). case r of Val _ \<Rightarrow> g t | _ \<Rightarrow> Some (r, t))"

record 's TcpHandlers =
  tcp_handlers :: "int \<rightharpoonup> (string \<Rightarrow> 's slot)"

definition registerMessageCallback :: "int \<Rightarrow> (string \<Rightarrow> 's slot) \<Rightarrow> 's TcpHandlers \<Rightarrow> 's TcpHandlers" where
  "registerMessageCallback i handle T = T\<lparr>tcp_handlers := (tcp_handlers T)(i \<mapsto> handle)\<rparr>"

definition unregisterMessageCallback :: "int \<Rightarrow> 's TcpHandlers \<Rightarrow> 's TcpHandlers" where
  "unregisterMessageCallback i T = T\<lparr>tcp_handlers := (tcp_handlers T)(i := None)\<rparr>"

interpretation tcp_table: erasable "tcp_handlers :: 's TcpHandlers \<Rightarrow> _" registerMessageCallback unregisterMessageCallback
  by unfold_locales (auto simp: registerMessageCallback_def unregisterMessageCallback_def)

definition handleMsg :: "'s TcpHandlers \<Rightarrow> int \<Rightarrow> string \<Rightarrow> 's slot" where
  "handleMsg T i data s = (case tcp_handlers T i of None \<Rightarrow> Some (Val (), s) | Some handle \<Rightarrow> handle data s)"

fun handle_all :: "'s TcpHandlers \<Rightarrow> (i16 \<times> string) list \<Rightarrow> 's slot" where
  "handle_all T [] s = Some (Val (), s)"
| "handle_all T ((i, data) # ms) s = then_slot (handleMsg T (uint i) data) (handle_all T ms) s"

text \<open>Slots one after the other, up to the first that throws or does not return.\<close>

fun in_turn :: "'s slot list \<Rightarrow> 's slot" where
  "in_turn [] s = Some (Val (), s)"
| "in_turn (f # fs) s = (case f s of Some (Val _, t) \<Rightarrow> in_turn fs t | stop \<Rightarrow> stop)"

lemma tcp_handlers_registered:
  "tcp_handlers (fold (\<lambda>(i, h). registerMessageCallback i h) regs \<lparr>tcp_handlers = Map.empty\<rparr>) = map_of (rev regs)"
proof (induction regs rule: rev_induct)
  case (snoc x regs)
  then show ?case by (cases x) (simp add: registerMessageCallback_def fun_eq_iff)
qed simp

lemma handle_all_in_turn:
  "handle_all T ms s = in_turn (concat (map (\<lambda>(i, data). case tcp_handlers T (uint i) of None \<Rightarrow> [] | Some h \<Rightarrow> [h data]) ms)) s"
proof (induction ms arbitrary: s)
  case (Cons m ms)
  then show ?case
    by (cases m) (auto simp: then_slot_def handleMsg_def split: option.splits result.splits Option.bind_splits)
qed simp

text \<open>
  C16. Frames of the server reach the callbacks: with any callbacks registered for any ids, and frames of
  at most 32763 bytes each, cut into chunks in any way, the messages that the reader hands on make the
  callback that was registered last for the id of each message run on exactly the data of that message,
  one after the other in the order of sending, up to the first callback that throws or does not
  return; a message with an id that nobody registered runs nothing.
\<close>

theorem frames_reach_callbacks:
  assumes "\<forall>m \<in> set ms. length (snd m) \<le> 32763" and "concat chunks = concat (map server_frame ms)"
  shows "\<exists>c. feeds client_feed TcpMgr_init chunks = Some c \<and>
    handle_all (fold (\<lambda>(i, h). registerMessageCallback i h) regs \<lparr>tcp_handlers = Map.empty\<rparr>) (client_out c) s =
      in_turn (concat (map (\<lambda>(i, data). case map_of (rev regs) (uint i) of None \<Rightarrow> [] | Some h \<Rightarrow> [h data]) ms)) s"
proof -
  obtain c where c: "feeds client_feed TcpMgr_init chunks = Some c" "client_out c = ms"
    using to_client.feeds_stream [of TcpMgr_init ms chunks] assms
    by (auto simp: client_ready_def TcpMgr_init_def client_out_def list_all_iff)
  then show ?thesis by (simp add: handle_all_in_turn tcp_handlers_registered)
qed

theorem frames_reach_callbacks_witness:
  "\<exists>c. feeds client_feed TcpMgr_init [server_frame (1019, ''hi''), server_frame (7, ''x'') @ server_frame (1018, ''ok'')] = Some c \<and>
    handle_all (fold (\<lambda>(i, h). registerMessageCallback i h)
        [(1018, \<lambda>data s. Some (Val (), s @ [(''reply'', data)])), (1019, \<lambda>data s. Some (Val (), s @ [(''message'', data)]))]
        \<lparr>tcp_handlers = Map.empty\<rparr>) (client_out c) [] =
      Some (Val (), [(''message'', ''hi''), (''reply'', ''ok'')])"
proof -
  let ?r = "[(1018, \<lambda>data s. Some (Val (), s @ [(''reply'', data)])), (1019, \<lambda>data s. Some (Val (), s @ [(''message'', data)]))]
    :: (int \<times> (string \<Rightarrow> (string \<times> string) list slot)) list"
  show ?thesis
    using frames_reach_callbacks [of "[(1019, ''hi''), (7, ''x''), (1018, ''ok'')]"
        "[server_frame (1019, ''hi''), server_frame (7, ''x'') @ server_frame (1018, ''ok'')]" ?r "[]"]
    by (auto simp del: fold.simps)
qed

end
