(* ===== verification/ClientWindow.thy ===== *)
theory ClientWindow
  imports ClientDialog LabelBox MessageBus
begin

text \<open>
  The main window of the client with everything around the conversations: the pages and side buttons of
  \<open>gui/chat_dialog.cpp\<close>, searching users (\<open>gui/contacts/search_list.cpp\<close>, \<open>gui/find_success_dialog.cpp\<close>,
  \<open>gui/find_failed_dialog.cpp\<close>), requesting and accepting friends (\<open>gui/contacts/apply_friend_dialog.cpp\<close>,
  \<open>gui/contacts/authen_friend_dialog.cpp\<close>, \<open>gui/apply_friend_page.cpp\<close>, \<open>gui/contacts/apply_friend_item.cpp\<close>),
  the contact list (\<open>gui/contacts/contact_user_list.cpp\<close>, \<open>gui/friend_info_page.cpp\<close>), and the handlers
  registered at the message bus and the TCP manager. Sizes, pictures and painting are left out.
\<close>

section \<open>State\<close>

record SearchInfo =
  si_uid :: int
  si_name :: string
  si_nick :: string
  si_desc :: string
  si_sex :: int
  si_icon :: string

text \<open>
  \<open>_loadingDialog\<close> is not set by the constructor; after \<open>deleteLater\<close> the dialog lives until the event loop
  runs again.
\<close>

datatype loading_dialog = Uninitialised | Shown | Leaving | Destroyed

record SearchList =
  send_pending :: bool
  loading_dlg :: loading_dialog
  find_success :: "SearchInfo option"
  find_failed :: bool
  search_edit_text :: string

record ApplyFriendItem =
  ap_info :: ClientApplyInfo
  ap_added :: bool

record ApplyFriendPage =
  apply_items :: "nat \<rightharpoonup> ApplyFriendItem"
  next_apply :: nat
  apply_rows :: "nat list"
  unauth_items :: "int \<rightharpoonup> nat"

text \<open>The dialog for requesting a friend and the one for accepting a request.\<close>

record ApplyForm =
  form_info :: SearchInfo
  name_ed :: string
  back_ed :: string
  form_box :: LabelBox

record AuthenForm =
  authen_info :: ClientApplyInfo
  authen_back_ed :: string
  authen_back_hint :: string
  authen_box :: LabelBox

datatype main_page = ChatPageShown | FriendInfoShown | ApplyPageShown | NormalShown

text \<open>The pages of \<open>user_stacked\<close>, with their indices in the form file.\<close>

definition COLLECT_LIST :: nat where "COLLECT_LIST = 0"
definition SEARCH_LIST :: nat where "SEARCH_LIST = 1"
definition CON_USER_LIST :: nat where "CON_USER_LIST = 2"
definition CHAT_USER_LIST :: nat where "CHAT_USER_LIST = 3"

lemmas page_indices = COLLECT_LIST_def SEARCH_LIST_def CON_USER_LIST_def CHAT_USER_LIST_def

text \<open>
  The selection of the chat button is a field of the dialog; a red dot is shown or not, with a number.
  \<open>last_index\<close> is the static variable of \<open>slot_search_edit_text_changed\<close>, \<open>win_sent\<close> are the requests given
  to the TCP manager.
\<close>

record ClientWindow =
  dlg :: ChatDialog
  slist :: SearchList
  apage :: ApplyFriendPage
  apply_forms :: "nat \<rightharpoonup> ApplyForm"
  authen_forms :: "nat \<rightharpoonup> AuthenForm"
  next_form :: nat
  shown_page :: main_page
  user_index :: nat
  last_index :: nat
  search_edit :: string
  contact_selected :: bool
  collect_selected :: bool
  chat_dot :: "bool \<times> int"
  contact_dot :: "bool \<times> int"
  new_friend_dot :: "bool \<times> int"
  info_page :: "ClientUserInfo option"
  win_sent :: "(int \<times> json) list"

record window_env =
  win_dialog :: dialog_env
  win_labels :: label_env
  grid_start :: int
  tips_start :: "string list"

definition new_SearchList :: SearchList where
  "new_SearchList = \<lparr>send_pending = False, loading_dlg = Uninitialised, find_success = None, find_failed = False, search_edit_text = []\<rparr>"

definition new_ApplyFriendPage :: ApplyFriendPage where
  "new_ApplyFriendPage = \<lparr>apply_items = Map.empty, next_apply = 0, apply_rows = [], unauth_items = Map.empty\<rparr>"

definition new_ClientWindow :: "chat_client \<Rightarrow> ClientWindow" where
  "new_ClientWindow c = \<lparr>dlg = new_ChatDialog c, slist = new_SearchList, apage = new_ApplyFriendPage, apply_forms = Map.empty,
     authen_forms = Map.empty, next_form = 0, shown_page = NormalShown, user_index = CHAT_USER_LIST, last_index = 0, search_edit = [],
     contact_selected = False, collect_selected = False, chat_dot = (False, 0), contact_dot = (False, 0), new_friend_dot = (False, 0),
     info_page = None, win_sent = []\<rparr>"

definition win_umgr :: "ClientWindow \<Rightarrow> UserMgr" where
  "win_umgr w = dlg_umgr (dlg w)"

definition win_qt :: "window_env \<Rightarrow> qt_json" where
  "win_qt E = env_qt (win_dialog E)"

definition on_dlg :: "(ChatDialog, 'a) prog \<Rightarrow> (ClientWindow, 'a) prog" where
  "on_dlg = zoom dlg (\<lambda>d w. w\<lparr>dlg := d\<rparr>)"

definition on_user_mgr :: "(UserMgr, 'a) prog \<Rightarrow> (ClientWindow, 'a) prog" where
  "on_user_mgr = zoom win_umgr (\<lambda>m w. w\<lparr>dlg := on_mgr (\<lambda>_. m) (dlg w)\<rparr>)"

definition on_slist :: "(SearchList \<Rightarrow> SearchList) \<Rightarrow> (ClientWindow, unit) prog" where
  "on_slist f = upd (\<lambda>w. w\<lparr>slist := f (slist w)\<rparr>)"

definition on_apage :: "(ApplyFriendPage \<Rightarrow> ApplyFriendPage) \<Rightarrow> (ClientWindow, unit) prog" where
  "on_apage f = upd (\<lambda>w. w\<lparr>apage := f (apage w)\<rparr>)"

definition sig_send_data :: "int \<Rightarrow> json \<Rightarrow> (ClientWindow, unit) prog" where
  "sig_send_data i v = upd (\<lambda>w. w\<lparr>win_sent := win_sent w @ [(i, v)]\<rparr>)"

section \<open>Pages and side buttons\<close>

definition has_current :: "ChatDialog \<Rightarrow> bool" where
  "has_current d \<longleftrightarrow> Option.bind (current_row d) (items d) \<noteq> None"

text \<open>\<open>slot_side_chat\<close>, which runs on a click and at the end of every jump.\<close>

definition show_chats :: "ClientWindow \<Rightarrow> ClientWindow" where
  "show_chats w = w\<lparr>chat_dot := (False, 0), contact_selected := False, collect_selected := False,
     shown_page := (if has_current (dlg w) then ChatPageShown else NormalShown), user_index := CHAT_USER_LIST\<rparr>"

definition click_side_chat :: "(ClientWindow, unit) prog" where
  "click_side_chat = bnd (upd show_chats) (\<lambda>_. on_dlg press_side_chat)"

definition click_side_contact :: "(ClientWindow, unit) prog" where
  "click_side_contact =
     bnd (upd (\<lambda>w. w\<lparr>contact_selected := True, contact_dot := (False, 0), collect_selected := False, shown_page := NormalShown,
       user_index := CON_USER_LIST\<rparr>)) (\<lambda>_.
     on_dlg slot_side_contact)"

definition click_side_collect :: "(ClientWindow, unit) prog" where
  "click_side_collect =
     bnd (upd (\<lambda>w. w\<lparr>collect_selected := True, contact_selected := False, shown_page := NormalShown, user_index := COLLECT_LIST\<rparr>)) (\<lambda>_.
     on_dlg slot_side_collect)"

definition slot_presence_apply :: "int \<Rightarrow> ClientWindow \<Rightarrow> ClientWindow" where
  "slot_presence_apply new_apply_count w =
     (if new_apply_count = 0 then w
      else w\<lparr>contact_dot := (if contact_selected w then contact_dot w else (True, new_apply_count)), new_friend_dot := (True, 0)\<rparr>)"

definition slot_search_edit_text_changed :: "ClientWindow \<Rightarrow> ClientWindow" where
  "slot_search_edit_text_changed w =
     (if search_edit w \<noteq> [] then
        w\<lparr>last_index := (if last_index w = 0 then user_index w else last_index w), user_index := SEARCH_LIST\<rparr>
      else w\<lparr>user_index := last_index w, last_index := 0\<rparr>)"

definition slot_switch_apply_friend_page :: "ClientWindow \<Rightarrow> ClientWindow" where
  "slot_switch_apply_friend_page w = w\<lparr>shown_page := ApplyPageShown\<rparr>"

definition slot_friend_info_page :: "ClientUserInfo \<Rightarrow> ClientWindow \<Rightarrow> ClientWindow" where
  "slot_friend_info_page info w = w\<lparr>shown_page := FriendInfoShown, info_page := Some info\<rparr>"

text \<open>A jump to a conversation: the chat button is selected before \<open>slot_side_chat\<close> clears the others.\<close>

definition jumped :: "(ChatDialog \<Rightarrow> (unit result \<times> ChatDialog) option) \<Rightarrow> ClientWindow slot" where
  "jumped jump w =
     map_option (\<lambda>(r, d). (r, if r = Val () then show_chats (w\<lparr>dlg := d\<rparr>) else w\<lparr>dlg := d\<rparr>)) (jump (dlg w))"

section \<open>Searching\<close>

definition UserInfo_of_search :: "SearchInfo \<Rightarrow> ClientUserInfo" where
  "UserInfo_of_search si = \<lparr>cu_uid = si_uid si, cu_name = si_name si, cu_nick = si_nick si, cu_icon = si_icon si, cu_sex = si_sex si,
     cu_last_msg = [], cu_last_msg_time = 0, cu_chat_msgs = []\<rparr>"

definition CloseFindDlg :: "SearchList \<Rightarrow> SearchList" where
  "CloseFindDlg l = l\<lparr>find_success := None, find_failed := False\<rparr>"

definition waitPending :: "bool \<Rightarrow> (ClientWindow, unit) prog" where
  "waitPending pending =
     (if pending then on_slist (\<lambda>l. l\<lparr>loading_dlg := Shown, send_pending := True\<rparr>)
      else
        bnd (gets (\<lambda>w. loading_dlg (slist w))) (\<lambda>x.
        if x = Shown \<or> x = Leaving then on_slist (\<lambda>l. l\<lparr>loading_dlg := Leaving, send_pending := False\<rparr>) else crash))"

text \<open>The event loop deletes what \<open>deleteLater\<close> was called for.\<close>

definition event_loop :: "ClientWindow \<Rightarrow> ClientWindow" where
  "event_loop w = w\<lparr>slist := (slist w)\<lparr>loading_dlg := (if loading_dlg (slist w) = Leaving then Destroyed else loading_dlg (slist w))\<rparr>\<rparr>"

datatype ListItemType = CHAT_USER_ITEM | CONTACT_USER_ITEM | SEARCH_USER_ITEM | ADD_USER_TIP_ITEM | INVALID_ITEM | GROUP_TIP_ITEM |
  LINE_ITEM | APPLY_FRIEND_ITEM

text \<open>\<open>SearchList::slot_item_clicked\<close>; \<open>None\<close> is a row whose widget is not a list item.\<close>

definition search_item_clicked :: "ListItemType option \<Rightarrow> (ClientWindow, unit) prog" where
  "search_item_clicked ty =
     (case ty of
        None \<Rightarrow> ret ()
      | Some itemType \<Rightarrow>
          if itemType = INVALID_ITEM then ret ()
          else if itemType = ADD_USER_TIP_ITEM then
            bnd (gets slist) (\<lambda>l.
            if send_pending l \<or> search_edit_text l = [] then ret ()
            else
              bnd (waitPending True) (\<lambda>_.
              sig_send_data 1008 (JObj [(''uid'', JStr (search_edit_text l))])))
          else on_slist CloseFindDlg)"

definition found_user :: "qt_json \<Rightarrow> json \<Rightarrow> SearchInfo" where
  "found_user Q jsonObj =
     (let get = (\<lambda>k. q_toString Q (q_value Q jsonObj k)) in
      \<lparr>si_uid = q_toInt Q (q_value Q jsonObj ''uid''), si_name = get ''name'', si_nick = get ''nick'', si_desc = get ''desc'',
       si_sex = q_toInt Q (q_value Q jsonObj ''sex''), si_icon = get ''icon''\<rparr>)"

definition show_found :: "window_env \<Rightarrow> SearchInfo \<Rightarrow> ClientWindow slot" where
  "show_found E info =
     run_opt (on_user_mgr GetUid) (\<lambda>self_uid w.
       if si_uid info = self_uid then Some (Val (), w)
       else if CheckFriendById (si_uid info) (win_umgr w) then jumped (slot_jump_chat_item (win_dialog E) (UserInfo_of_search info)) w
       else Some (on_slist (\<lambda>l. l\<lparr>find_success := Some info\<rparr>) w))"

definition searchUserRsp :: "window_env \<Rightarrow> string \<Rightarrow> ClientWindow slot" where
  "searchUserRsp E data =
     run_opt (waitPending False) (\<lambda>_ w.
       let Q = win_qt E in
       case q_fromJson Q data of
         None \<Rightarrow> Some (Val (), w)
       | Some jsonObj \<Rightarrow>
           if \<not> q_contains Q jsonObj ''error'' then Some (Val (), w)
           else
             let err = q_toInt Q (q_value Q jsonObj ''error'') in
             if err \<noteq> 0 then Some (if err = 1010 then on_slist (\<lambda>l. l\<lparr>find_failed := True\<rparr>) w else (Val (), w))
             else show_found E (found_user Q jsonObj) w)"

section \<open>Requesting a friend\<close>

text \<open>UTF-8: the placeholders ``wo shi...'' and ``bei zhu''.\<close>

definition name_hint :: string where
  "name_hint = bytes [0xE6, 0x88, 0x91, 0xE6, 0x98, 0xAF] @ ''...''"

definition back_hint :: string where
  "back_hint = bytes [0xE5, 0xA4, 0x87, 0xE6, 0xB3, 0xA8]"

text \<open>
  \<open>FindSuccessDialog::on_add_friend_btn_clicked\<close> with \<open>ApplyFriend::SetSearchInfo\<close>: the name and the note are
  filled in, each cut to the 20 bytes of a \<open>CustomizeEdit\<close>.
\<close>

definition add_friend_btn_clicked :: "window_env \<Rightarrow> ClientWindow slot" where
  "add_friend_btn_clicked E w =
     (case find_success (slist w) of
        None \<Rightarrow> Some (Val (), w)
      | Some info \<Rightarrow>
          run_opt (on_user_mgr GetName) (\<lambda>applyname w.
            Option.bind (edit_text (win_labels E) 20 [] applyname) (\<lambda>name.
            Option.bind (edit_text (win_labels E) 20 [] (si_name info)) (\<lambda>back.
            Some (Val (), w\<lparr>apply_forms := (apply_forms w)(next_form w \<mapsto>
              \<lparr>form_info = info, name_ed = name, back_ed = back, form_box = new_LabelBox (grid_start E) (tips_start E)\<rparr>),
              next_form := next_form w + 1\<rparr>)))) w)"

definition ApplyFriend_SlotApplySure :: "nat \<Rightarrow> (ClientWindow, unit) prog" where
  "ApplyFriend_SlotApplySure a =
     bnd (gets (\<lambda>w. apply_forms w a)) (\<lambda>x.
     case x of
       None \<Rightarrow> ret ()
     | Some form \<Rightarrow>
         bnd (on_user_mgr GetUid) (\<lambda>uid.
         let name = (if name_ed form = [] then name_hint else name_ed form);
             bakname = (if back_ed form = [] then back_hint else back_ed form) in
         bnd (sig_send_data 1010 (JObj [(''uid'', JInt uid), (''applyname'', JStr name), (''bakname'', JStr bakname),
           (''touid'', JInt (si_uid (form_info form)))])) (\<lambda>_.
         upd (\<lambda>w. w\<lparr>apply_forms := (apply_forms w)(a := None)\<rparr>))))"

definition ApplyFriend_SlotApplyCancel :: "nat \<Rightarrow> ClientWindow \<Rightarrow> ClientWindow" where
  "ApplyFriend_SlotApplyCancel a w = w\<lparr>apply_forms := (apply_forms w)(a := None)\<rparr>"

section \<open>The page of requests\<close>

definition ShowAddBtn :: "bool \<Rightarrow> ApplyFriendItem \<Rightarrow> ApplyFriendItem" where
  "ShowAddBtn bshow item = item\<lparr>ap_added := \<not> bshow\<rparr>"

text \<open>A new item at the front of the list.\<close>

definition insert_apply :: "ClientApplyInfo \<Rightarrow> bool \<Rightarrow> ApplyFriendPage \<Rightarrow> ApplyFriendPage" where
  "insert_apply info bshow p =
     (let a = next_apply p in
      p\<lparr>apply_items := (apply_items p)(a \<mapsto> ShowAddBtn bshow \<lparr>ap_info = info, ap_added = False\<rparr>), next_apply := a + 1,
        apply_rows := a # apply_rows p, unauth_items := (if bshow then (unauth_items p)(ca_uid info \<mapsto> a) else unauth_items p)\<rparr>)"

text \<open>\<open>AddNewApply\<close>: the request is shown with its name for the nick name and a drawn picture.\<close>

definition AddNewApply :: "window_env \<Rightarrow> ClientApplyInfo \<Rightarrow> (ClientWindow, unit) prog" where
  "AddNewApply E apply =
     on_apage (\<lambda>p. insert_apply (apply\<lparr>ca_icon := head_pic (win_dialog E) (next_apply p), ca_nick := ca_name apply, ca_sex := 0,
       ca_status := 0\<rparr>) True p)"

text \<open>
  \<open>SetIcon\<close> of the request at position \<open>i\<close> of the list. The map holds the same object for the last request
  of a user.
\<close>

definition set_apply_icon :: "nat \<Rightarrow> string \<Rightarrow> UserMgr \<Rightarrow> UserMgr" where
  "set_apply_icon i icon m =
     (if i < length (apply_list m) then
        let uid = ca_uid (apply_list m ! i) in
        m\<lparr>apply_list := (apply_list m)[i := (apply_list m ! i)\<lparr>ca_icon := icon\<rparr>],
          apply_map := (if uid \<in> ca_uid ` set (drop (Suc i) (apply_list m)) then apply_map m
             else (apply_map m)(uid := map_option (\<lambda>a. a\<lparr>ca_icon := icon\<rparr>) (apply_map m uid)))\<rparr>
      else m)"

definition load_apply :: "window_env \<Rightarrow> nat \<times> ClientApplyInfo \<Rightarrow> (ClientWindow, unit) prog" where
  "load_apply E = (\<lambda>(i, apply).
     bnd (gets (\<lambda>w. head_pic (win_dialog E) (next_apply (apage w)))) (\<lambda>pic.
     bnd (on_user_mgr (upd (set_apply_icon i pic))) (\<lambda>_.
     on_apage (insert_apply (apply\<lparr>ca_icon := pic\<rparr>) (ca_status apply = 0)))))"

definition loadApplyList :: "window_env \<Rightarrow> (ClientWindow, unit) prog" where
  "loadApplyList E =
     bnd (gets (\<lambda>w. GetApplyList (win_umgr w))) (\<lambda>apply_list.
     bnd (forM (load_apply E) (enumerate 0 apply_list)) (\<lambda>_.
     upd (slot_presence_apply (int (length (filter (\<lambda>a. ca_status a = 0) apply_list))))))"

text \<open>The handler of \<open>AUTH_FRIEND_RSP\<close>.\<close>

definition mark_accepted :: "int \<Rightarrow> ApplyFriendPage \<Rightarrow> ApplyFriendPage" where
  "mark_accepted uid p =
     (case unauth_items p uid of
        None \<Rightarrow> p
      | Some a \<Rightarrow> p\<lparr>apply_items := (apply_items p)(a := map_option (ShowAddBtn False) (apply_items p a))\<rparr>)"

text \<open>The button of an item, shown until the request is accepted, opens the dialog.\<close>

definition add_btn_clicked :: "window_env \<Rightarrow> nat \<Rightarrow> ClientWindow \<Rightarrow> ClientWindow" where
  "add_btn_clicked E a w =
     (case apply_items (apage w) a of
        None \<Rightarrow> w
      | Some item \<Rightarrow>
          if ap_added item then w
          else w\<lparr>authen_forms := (authen_forms w)(next_form w \<mapsto> \<lparr>authen_info = ap_info item, authen_back_ed = [],
              authen_back_hint = ca_name (ap_info item), authen_box = new_LabelBox (grid_start E) (tips_start E)\<rparr>),
            next_form := next_form w + 1\<rparr>)"

definition AuthenFriend_SlotApplySure :: "nat \<Rightarrow> (ClientWindow, unit) prog" where
  "AuthenFriend_SlotApplySure a =
     bnd (gets (\<lambda>w. authen_forms w a)) (\<lambda>x.
     case x of
       None \<Rightarrow> ret ()
     | Some form \<Rightarrow>
         bnd (on_user_mgr GetUid) (\<lambda>uid.
         let back_name = (if authen_back_ed form = [] then authen_back_hint form else authen_back_ed form) in
         bnd (sig_send_data 1013 (JObj [(''fromuid'', JInt uid), (''touid'', JInt (ca_uid (authen_info form))),
           (''back_name'', JStr back_name), (''apply_name'', JStr (ca_name (authen_info form)))])) (\<lambda>_.
         upd (\<lambda>w. w\<lparr>authen_forms := (authen_forms w)(a := None)\<rparr>))))"

definition AuthenFriend_SlotApplyCancel :: "nat \<Rightarrow> ClientWindow \<Rightarrow> ClientWindow" where
  "AuthenFriend_SlotApplyCancel a w = w\<lparr>authen_forms := (authen_forms w)(a := None)\<rparr>"

section \<open>The contact list\<close>

text \<open>
  \<open>ContactUserList::slot_item_clicked\<close>: a click on the item for new friends, or on a contact by its row, whose
  messages are taken from the user's own list when there are none or on the first click.
\<close>

definition new_friend_clicked :: "ClientWindow \<Rightarrow> ClientWindow" where
  "new_friend_clicked w = slot_switch_apply_friend_page (w\<lparr>new_friend_dot := (False, 0)\<rparr>)"

definition contact_clicked :: "nat \<Rightarrow> ClientWindow \<Rightarrow> ClientWindow" where
  "contact_clicked i w =
     (if i < length (contact_rows (dlg w)) then
        let item = contact_rows (dlg w) ! i; info = con_info item; fresh = (cu_chat_msgs info = [] \<or> con_first_click item);
            info' = (if fresh then info\<lparr>cu_chat_msgs := own_messages (cu_uid info) (win_umgr w)\<rparr> else info);
            item' = (if fresh then \<lparr>con_info = info', con_first_click = False\<rparr> else item) in
        slot_friend_info_page info' (w\<lparr>dlg := (dlg w)\<lparr>contact_rows := (contact_rows (dlg w))[i := item']\<rparr>\<rparr>)
      else w)"

text \<open>\<open>FriendInfoPage::on_msg_chat_clicked\<close>.\<close>

definition msg_chat_clicked :: "window_env \<Rightarrow> ClientWindow slot" where
  "msg_chat_clicked E w =
     (case info_page w of
        None \<Rightarrow> Some (Crash, w)
      | Some info \<Rightarrow> jumped (slot_jump_chat_item_from_infopage (win_dialog E) info) w)"

section \<open>The message bus of the window\<close>

datatype receiver = RSearchList | RApplyFriendPage | RChatDialog

definition window_regs :: "window_env \<Rightarrow> (string \<times> receiver \<times> (json QVariant \<Rightarrow> (ClientWindow, unit) prog)) list" where
  "window_regs E =
     [(''SEARCH_EDIT_TEXT_CHANGED'', RSearchList, \<lambda>data. on_slist (\<lambda>l. l\<lparr>search_edit_text := v_toString data\<rparr>)),
      (''AUTH_FRIEND_RSP'', RApplyFriendPage, \<lambda>data. case data of
         QJsonObject jsonObj \<Rightarrow> on_apage (mark_accepted (q_toInt (win_qt E) (q_value (win_qt E) jsonObj ''uid'')))
       | _ \<Rightarrow> on_apage (mark_accepted 0)),
      (''BEGIN_LOAD_APPLY_CONTENT_LIST'', RApplyFriendPage, \<lambda>data. if v_toBool data then loadApplyList E else ret ()),
      (''AUTH_FRIEND_RSP'', RChatDialog, \<lambda>data. case data of
         QJsonObject jsonObj \<Rightarrow> on_dlg (onAuthFriendRsp (win_dialog E) jsonObj) | _ \<Rightarrow> ret ()),
      (''NOTIFY_AUTH_FRIEND_REQ'', RChatDialog, \<lambda>data. case data of
         QJsonObject jsonObj \<Rightarrow> on_dlg (onNotifyAuthFriendReq (win_dialog E) jsonObj) | _ \<Rightarrow> ret ()),
      (''LOGIN_LOAD_UNREAD_CHAT_MSG'', RChatDialog, \<lambda>data.
         if v_toBool data then
           bnd (on_dlg (loadMoreChatUser (win_dialog E))) (\<lambda>_. on_dlg (loadMoreConUser (win_dialog E)))
         else ret ())]"

definition window_bus :: "window_env \<Rightarrow> (ClientWindow, receiver, json QVariant) MessageBus" where
  "window_bus E = fold (\<lambda>(command, receiver, handler). registerHandler command receiver handler) (window_regs E) new_MessageBus"

text \<open>The receivers are parts of the window and live as long as it does.\<close>

definition sendMessage :: "window_env \<Rightarrow> string \<Rightarrow> json QVariant \<Rightarrow> (ClientWindow, unit) prog" where
  "sendMessage E = postMessage (\<lambda>_ _. True) (window_bus E)"

section \<open>Typing in the search box\<close>

text \<open>
  Three slots listen to the search box: \<open>limitTextLength\<close> with a limit of 20, which may set the text again,
  the one that posts the text of the signal, and \<open>slot_search_edit_text_changed\<close>, which reads the box. The texts
  are those that the box lets through, at most 15 characters, which may be more than 20 bytes.
\<close>

partial_function (option) set_search_edit :: "window_env \<Rightarrow> string \<Rightarrow> ClientWindow \<Rightarrow> (unit result \<times> ClientWindow) option" where
  "set_search_edit E txt w =
     (let w1 = w\<lparr>search_edit := txt\<rparr> in
      if txt = search_edit w then Some (Val (), w1)
      else
        Option.bind (if length txt > 20 then set_search_edit E (fromUtf8 (win_labels E) (take 20 txt)) w1 else Some (Val (), w1)) (\<lambda>(r, w2).
        if r \<noteq> Val () then Some (r, w2)
        else Some (bnd (sendMessage E ''SEARCH_EDIT_TEXT_CHANGED'' (QText txt)) (\<lambda>_. upd slot_search_edit_text_changed) w2)))"

text \<open>
  A press on the dialog's own surface: outside the search list it clears the box, outside a result dialog it
  closes the dialogs.
\<close>

definition mouse_press :: "window_env \<Rightarrow> bool \<Rightarrow> bool \<Rightarrow> bool \<Rightarrow> ClientWindow slot" where
  "mouse_press E in_list in_success in_failed w =
     Option.bind (if user_index w = SEARCH_LIST \<and> \<not> in_list then set_search_edit E [] w else Some (Val (), w)) (\<lambda>(r, w1).
     if r \<noteq> Val () then Some (r, w1)
     else
       let l = slist w1; l1 = (if find_success l \<noteq> None \<and> \<not> in_success then CloseFindDlg l else l);
           l2 = (if find_failed l1 \<and> \<not> in_failed then CloseFindDlg l1 else l1) in
       Some (Val (), w1\<lparr>slist := l2\<rparr>))"

section \<open>Messages of the server\<close>

text \<open>\<open>NotifyAddFriendReq\<close>: the request that the dialog hands to the page is shown there, with red dots.\<close>

definition win_NotifyAddFriendReq :: "window_env \<Rightarrow> string \<Rightarrow> (ClientWindow, unit) prog" where
  "win_NotifyAddFriendReq E data =
     bnd (gets (\<lambda>w. length (applies (dlg w)))) (\<lambda>n.
     bnd (on_dlg (NotifyAddFriendReq (win_dialog E) data)) (\<lambda>_.
     bnd (gets (\<lambda>w. drop n (applies (dlg w)))) (\<lambda>new.
     forM (\<lambda>apply.
       bnd (AddNewApply E apply) (\<lambda>_.
       upd (\<lambda>w. w\<lparr>contact_dot := (if contact_selected w then contact_dot w else (True, 0)), new_friend_dot := (True, 0)\<rparr>))) new)))"

definition win_NotifyTextChatMsgReq :: "window_env \<Rightarrow> string \<Rightarrow> (ClientWindow, unit) prog" where
  "win_NotifyTextChatMsgReq E data =
     bnd (gets (\<lambda>w. unread_total (dlg w))) (\<lambda>n.
     bnd (with_reply (win_qt E) data (\<lambda>_.
       upd (\<lambda>w. if side_chat_selected (dlg w) then w else w\<lparr>chat_dot := (True, n + 1)\<rparr>))) (\<lambda>_.
     on_dlg (NotifyTextChatMsgReq (win_dialog E) data)))"

text \<open>The contact list stores a new friend, adds a row and posts the reply on the bus.\<close>

definition announce_contact :: "window_env \<Rightarrow> string \<Rightarrow> AuthInfo \<Rightarrow> (string \<Rightarrow> ClientUserInfo) \<Rightarrow> json \<Rightarrow> (ClientWindow, unit) prog" where
  "announce_contact E command auth row jsonObj =
     bnd (gets (\<lambda>w. CheckFriendById (ai_uid auth) (win_umgr w))) (\<lambda>isFriend.
     bnd (on_dlg (add_contact (win_dialog E) auth row (ret ()))) (\<lambda>_.
     if isFriend then ret () else sendMessage E command (QJsonObject jsonObj)))"

definition win_NotifyAuthFriendReq :: "window_env \<Rightarrow> string \<Rightarrow> (ClientWindow, unit) prog" where
  "win_NotifyAuthFriendReq E data =
     (let Q = win_qt E in
      with_reply Q data (\<lambda>jsonObj.
        let get = (\<lambda>k. q_toString Q (q_value Q jsonObj k));
            auth = \<lparr>ai_uid = q_toInt Q (q_value Q jsonObj ''fromuid''), ai_name = get ''name'', ai_nick = get ''nick'',
              ai_icon = get ''icon'', ai_sex = q_toInt Q (q_value Q jsonObj ''sex'')\<rparr> in
        announce_contact E ''NOTIFY_AUTH_FRIEND_REQ'' auth
          (\<lambda>pic. new_row (ai_uid auth) (ai_name auth) (ai_nick auth) pic (ai_sex auth)) jsonObj))"

definition win_AuthFriendRsp :: "window_env \<Rightarrow> string \<Rightarrow> (ClientWindow, unit) prog" where
  "win_AuthFriendRsp E data =
     (let Q = win_qt E in
      with_reply Q data (\<lambda>jsonObj.
        let get = (\<lambda>k. q_toString Q (q_value Q jsonObj k));
            auth = \<lparr>ai_uid = q_toInt Q (q_value Q jsonObj ''uid''), ai_name = get ''name'', ai_nick = get ''nick'',
              ai_icon = get ''icon'', ai_sex = q_toInt Q (q_value Q jsonObj ''sex'')\<rparr> in
        announce_contact E ''AUTH_FRIEND_RSP'' auth (\<lambda>pic. new_row (ai_uid auth) (ai_name auth) (ai_name auth) pic 0) jsonObj))"

text \<open>The two handlers of the login window, with the messages that they post.\<close>

definition post_events :: "window_env \<Rightarrow> gui_event list \<Rightarrow> (ClientWindow, unit) prog" where
  "post_events E = forM (\<lambda>e. case e of BusMessage command \<Rightarrow> sendMessage E command (QBool True) | _ \<Rightarrow> ret ())"

definition win_onChatLoginRsp :: "window_env \<Rightarrow> string \<Rightarrow> (ClientWindow, unit) prog" where
  "win_onChatLoginRsp E data = bnd (on_user_mgr (onChatLoginRsp (win_qt E) data)) (post_events E)"

definition win_LoginLoadUnRedChatMsg :: "window_env \<Rightarrow> string \<Rightarrow> (ClientWindow, unit) prog" where
  "win_LoginLoadUnRedChatMsg E data = bnd (on_user_mgr (LoginLoadUnRedChatMsg (win_qt E) data)) (post_events E)"

definition window_handlers :: "window_env \<Rightarrow> (int \<times> (string \<Rightarrow> ClientWindow slot)) list" where
  "window_handlers E =
     [(1007, \<lambda>data. slot_of (win_onChatLoginRsp E data)),
      (1024, \<lambda>data. slot_of (win_LoginLoadUnRedChatMsg E data)),
      (1009, searchUserRsp E),
      (1015, \<lambda>data. slot_of (win_NotifyAuthFriendReq E data)),
      (1014, \<lambda>data. slot_of (win_AuthFriendRsp E data)),
      (1012, \<lambda>data. slot_of (win_NotifyAddFriendReq E data)),
      (1019, \<lambda>data. slot_of (win_NotifyTextChatMsgReq E data))]"

definition window_table :: "window_env \<Rightarrow> ClientWindow TcpHandlers" where
  "window_table E = fold (\<lambda>(i, handle). registerMessageCallback i handle) (window_handlers E) \<lparr>tcp_handlers = Map.empty\<rparr>"

section \<open>Who hears what\<close>

lemma window_bus_build: "window_bus E = message_bus.build (window_regs E)"
  by (simp add: window_bus_def message_bus.build_def)

lemma sendMessage_runs:
  "sendMessage E c d = forM (\<lambda>(r, h). h d) (map snd (filter (\<lambda>x. fst x = c) (window_regs E)))"
  unfolding sendMessage_def window_bus_build message_bus.post_build message_bus.if_alive_def
  by (intro arg_cong [where f = "\<lambda>f. forM f _"]) (auto simp: fun_eq_iff bnd_def gets_def)

lemma forM_single [simp]: "bnd p (\<lambda>_. ret ()) = p" for p :: "('s, unit) prog"
  by (simp add: bnd_def ret_def fun_eq_iff split: prod.splits result.splits)

lemma sendMessage_commands:
  "sendMessage E ''SEARCH_EDIT_TEXT_CHANGED'' (QText t) = on_slist (\<lambda>l. l\<lparr>search_edit_text := t\<rparr>)"
  "sendMessage E ''AUTH_FRIEND_RSP'' (QJsonObject j) =
     bnd (on_apage (mark_accepted (q_toInt (win_qt E) (q_value (win_qt E) j ''uid'')))) (\<lambda>_. on_dlg (onAuthFriendRsp (win_dialog E) j))"
  "sendMessage E ''NOTIFY_AUTH_FRIEND_REQ'' (QJsonObject j) = on_dlg (onNotifyAuthFriendReq (win_dialog E) j)"
  "sendMessage E ''BEGIN_LOAD_APPLY_CONTENT_LIST'' (QBool True) = loadApplyList E"
  "sendMessage E ''LOGIN_LOAD_UNREAD_CHAT_MSG'' (QBool True) =
     bnd (on_dlg (loadMoreChatUser (win_dialog E))) (\<lambda>_. on_dlg (loadMoreConUser (win_dialog E)))"
  by (simp_all add: sendMessage_runs window_regs_def)

lemma window_table_find: "tcp_handlers (window_table E) i = map_of (window_handlers E) i"
proof -
  have "window_table E = tcp_table.puts (window_handlers E) \<lparr>tcp_handlers = Map.empty\<rparr>"
    by (simp add: window_table_def tcp_table.puts_def)
  moreover have "distinct (map fst (window_handlers E))" by (simp add: window_handlers_def)
  ultimately show ?thesis using tcp_table.find_puts [of "window_handlers E" "\<lparr>tcp_handlers = Map.empty\<rparr>" i]
    by (auto split: option.splits)
qed

text \<open>An environment for the examples.\<close>

definition window_demo_env :: window_env where
  "window_demo_env = \<lparr>win_dialog = dialog_demo_env, win_labels = label_demo_env, grid_start = 30, tips_start = []\<rparr>"

end
