(* ===== verification/WindowFacts.thy ===== *)
theory WindowFacts
  imports ClientWindow
begin

text \<open>
  What can happen in the main window, as a step relation, and what holds in every reachable window: the
  dialog inside goes through steps of its own, one side button is selected, every request is on the page of
  requests, and the answer to a search finds its loading dialog.
\<close>

section \<open>Steps\<close>

text \<open>The page and the user data change on their own, too; only requests come in by messages.\<close>

definition same_applies :: "UserMgr \<Rightarrow> UserMgr \<Rightarrow> bool" where
  "same_applies m n \<longleftrightarrow> apply_list n = apply_list m \<and> apply_map n = apply_map m"

definition chat_row_clicked :: "window_env \<Rightarrow> nat \<Rightarrow> ClientWindow slot" where
  "chat_row_clicked E a w =
     map_option (\<lambda>(r, d). (r, w\<lparr>dlg := d, shown_page := (if last_selected (dlg w) = Some a then shown_page w else ChatPageShown)\<rparr>))
       (slot_chat_user_item_clicked (win_dialog E) a (dlg w))"

inductive win_step :: "window_env \<Rightarrow> ClientWindow \<Rightarrow> ClientWindow \<Rightarrow> bool" for E where
  from_server: "handleMsg (window_table E) i data w = Some (Val (), t) \<Longrightarrow> win_step E w t"
| loop_runs: "win_step E w (event_loop w)"
| side_chat: "click_side_chat w = (Val (), t) \<Longrightarrow> win_step E w t"
| side_contact: "click_side_contact w = (Val (), t) \<Longrightarrow> win_step E w t"
| side_collect: "click_side_collect w = (Val (), t) \<Longrightarrow> win_step E w t"
| search_typed: "set_search_edit E str w = Some (Val (), t) \<Longrightarrow> win_step E w t"
| pressed: "mouse_press E b1 b2 b3 w = Some (Val (), t) \<Longrightarrow> win_step E w t"
| search_clicked: "search_item_clicked ty w = (Val (), t) \<Longrightarrow> win_step E w t"
| add_friend: "add_friend_btn_clicked E w = Some (Val (), t) \<Longrightarrow> win_step E w t"
| apply_sure: "ApplyFriend_SlotApplySure a w = (Val (), t) \<Longrightarrow> win_step E w t"
| apply_cancel: "win_step E w (ApplyFriend_SlotApplyCancel a w)"
| authen_open: "win_step E w (add_btn_clicked E a w)"
| authen_sure: "AuthenFriend_SlotApplySure a w = (Val (), t) \<Longrightarrow> win_step E w t"
| authen_cancel: "win_step E w (AuthenFriend_SlotApplyCancel a w)"
| form_edited: "win_step E w (w\<lparr>apply_forms := f, authen_forms := g\<rparr>)"
| new_friends: "win_step E w (new_friend_clicked w)"
| contact: "win_step E w (contact_clicked i w)"
| msg_chat: "msg_chat_clicked E w = Some (Val (), t) \<Longrightarrow> win_step E w t"
| chat_row: "chat_row_clicked E a w = Some (Val (), t) \<Longrightarrow> win_step E w t"
| more_chats: "on_dlg (loadMoreChatUser (win_dialog E)) w = (Val (), t) \<Longrightarrow> win_step E w t"
| more_contacts: "on_dlg (loadMoreConUser (win_dialog E)) w = (Val (), t) \<Longrightarrow> win_step E w t"
| text_sent: "on_dlg (dialog_append_send_chat_msg msg) w = (Val (), t) \<Longrightarrow> win_step E w t"
| page_works: "same_applies (umgr (client (dlg w))) (umgr c) \<Longrightarrow> win_step E w (w\<lparr>dlg := (dlg w)\<lparr>client := c\<rparr>\<rparr>)"

section \<open>The dialog inside the window\<close>

text \<open>
  A call of the window refines a call of the dialog when it ends the same way and leaves the dialog in the
  same state, whatever it does to the rest.
\<close>

definition refines_dlg :: "(ClientWindow, 'a) prog \<Rightarrow> (ChatDialog, 'a) prog \<Rightarrow> bool" where
  "refines_dlg m m' \<longleftrightarrow> (\<forall>w. map_prod id dlg (m w) = m' (dlg w))"

lemma refines_dlgD: "refines_dlg m m' \<Longrightarrow> m w = (r, t) \<Longrightarrow> m' (dlg w) = (r, dlg t)"
  by (metis refines_dlg_def map_prod_simp id_apply)

named_theorems refine "calls of the window that refine calls of the dialog"

lemma refines_bnd [refine]:
  assumes "refines_dlg m m'" "\<And>x. refines_dlg (f x) (f' x)"
  shows "refines_dlg (bnd m f) (bnd m' f')"
  unfolding refines_dlg_def
proof
  fix w
  obtain r t where r: "m w = (r, t)" by fastforce
  have "m' (dlg w) = (r, dlg t)" by (rule refines_dlgD [OF assms(1) r])
  then show "map_prod id dlg (bnd m f w) = bnd m' f' (dlg w)"
    using r assms(2) by (cases r) (simp_all add: bnd_def refines_dlg_def)
qed

lemma refines_basic [refine]:
  "refines_dlg (ret x) (ret x)" "refines_dlg (on_dlg m) m" "refines_dlg (on_apage f) (ret ())" "refines_dlg (on_slist g) (ret ())"
  "refines_dlg (gets (\<lambda>w. h (dlg w))) (gets h)" "refines_dlg (gets (\<lambda>w. h' (win_umgr w))) (gets (\<lambda>d. h' (dlg_umgr d)))"
  by (simp_all add: refines_dlg_def ret_def on_dlg_def zoom_def on_apage_def on_slist_def upd_def gets_def win_umgr_def split_beta prod_eq_iff)

lemma refines_upd: "(\<And>w. dlg (f w) = dlg w) \<Longrightarrow> refines_dlg (upd f) (ret ())"
  by (simp add: refines_dlg_def upd_def ret_def)

lemma refines_cases [refine]:
  "refines_dlg m n \<Longrightarrow> refines_dlg m' n' \<Longrightarrow> refines_dlg (if b then m else m') (if b then n else n')"
  by simp

lemma refines_idle: "refines_dlg m (ret ()) \<Longrightarrow> (\<And>x. refines_dlg (f x) m') \<Longrightarrow> refines_dlg (bnd m f) m'"
  using refines_bnd [of m "ret ()" f "\<lambda>_. m'"] by simp

lemma refines_forM: "(\<And>x. refines_dlg (f x) (ret ())) \<Longrightarrow> refines_dlg (forM f xs) (ret ())"
  by (induction xs) (auto intro: refine refines_idle)

lemma refines_reply [refine]:
  "(\<And>j. refines_dlg (f j) (f' j)) \<Longrightarrow> refines_dlg (with_reply Q data f) (with_reply Q data f')"
  by (auto simp: with_reply_def refine split: option.split)

lemma refines_announce:
  assumes "refines_dlg (sendMessage E command (QJsonObject j)) ann"
  shows "refines_dlg (announce_contact E command auth row j) (add_contact (win_dialog E) auth row ann)"
proof -
  have "refines_dlg (announce_contact E command auth row j)
     (bnd (gets (\<lambda>d. CheckFriendById (ai_uid auth) (dlg_umgr d))) (\<lambda>isFriend.
      bnd (add_contact (win_dialog E) auth row (ret ())) (\<lambda>_. if isFriend then ret () else ann)))"
    unfolding announce_contact_def by (intro refine assms)
  also have "bnd (gets (\<lambda>d. CheckFriendById (ai_uid auth) (dlg_umgr d))) (\<lambda>isFriend.
      bnd (add_contact (win_dialog E) auth row (ret ())) (\<lambda>_. if isFriend then ret () else ann)) = add_contact (win_dialog E) auth row ann"
    by (simp add: fun_eq_iff add_contact_def bnd_def gets_def ret_def upd_def)
  finally show ?thesis .
qed

lemma refines_AuthFriendRsp: "refines_dlg (win_AuthFriendRsp E data) (AuthFriendRsp_handler (win_dialog E) data)"
proof -
  have "refines_dlg (sendMessage E ''AUTH_FRIEND_RSP'' (QJsonObject j)) (onAuthFriendRsp (win_dialog E) j)" for j
    unfolding sendMessage_commands by (intro refines_idle refine)
  then show ?thesis
    unfolding win_AuthFriendRsp_def AuthFriendRsp_handler_def Let_def win_qt_def by (intro refine refines_announce)
qed

lemma refines_NotifyAuthFriendReq: "refines_dlg (win_NotifyAuthFriendReq E data) (NotifyAuthFriendReq (win_dialog E) data)"
proof -
  have "refines_dlg (sendMessage E ''NOTIFY_AUTH_FRIEND_REQ'' (QJsonObject j)) (onNotifyAuthFriendReq (win_dialog E) j)" for j
    by (simp add: sendMessage_commands refine)
  then show ?thesis
    unfolding win_NotifyAuthFriendReq_def NotifyAuthFriendReq_def Let_def win_qt_def by (intro refine refines_announce)
qed

lemma refines_NotifyAddFriendReq: "refines_dlg (win_NotifyAddFriendReq E data) (NotifyAddFriendReq (win_dialog E) data)"
proof -
  have f: "refines_dlg (forM (\<lambda>apply. bnd (AddNewApply E apply) (\<lambda>_.
       upd (\<lambda>w. w\<lparr>contact_dot := (if contact_selected w then contact_dot w else (True, 0)), new_friend_dot := (True, 0)\<rparr>))) new) (ret ())" for new
    unfolding AddNewApply_def by (intro refines_forM refines_idle refines_upd refine) simp
  have "refines_dlg (win_NotifyAddFriendReq E data) (bnd (gets (\<lambda>d. length (applies d))) (\<lambda>n.
      bnd (NotifyAddFriendReq (win_dialog E) data) (\<lambda>_. bnd (gets (\<lambda>d. drop n (applies d))) (\<lambda>new. ret ()))))"
    unfolding win_NotifyAddFriendReq_def by (intro refine f)
  also have "bnd (gets (\<lambda>d. length (applies d))) (\<lambda>n. bnd (NotifyAddFriendReq (win_dialog E) data) (\<lambda>_.
      bnd (gets (\<lambda>d. drop n (applies d))) (\<lambda>new. ret ()))) = NotifyAddFriendReq (win_dialog E) data"
    by (simp add: fun_eq_iff bnd_def gets_def ret_def split: prod.splits result.splits)
  finally show ?thesis .
qed

lemma refines_NotifyTextChatMsgReq: "refines_dlg (win_NotifyTextChatMsgReq E data) (NotifyTextChatMsgReq (win_dialog E) data)"
proof -
  have u: "refines_dlg (upd (\<lambda>w. if side_chat_selected (dlg w) then w else w\<lparr>chat_dot := (True, n)\<rparr>)) (ret ())" for n
    by (rule refines_upd) simp
  have "refines_dlg (win_NotifyTextChatMsgReq E data) (bnd (gets (\<lambda>d. unread_total d)) (\<lambda>n.
      bnd (with_reply (win_qt E) data (\<lambda>_. ret ())) (\<lambda>_. NotifyTextChatMsgReq (win_dialog E) data)))"
    unfolding win_NotifyTextChatMsgReq_def by (intro refine u)
  also have "bnd (gets (\<lambda>d. unread_total d)) (\<lambda>n. bnd (with_reply (win_qt E) data (\<lambda>_. ret ())) (\<lambda>_.
      NotifyTextChatMsgReq (win_dialog E) data)) = NotifyTextChatMsgReq (win_dialog E) data"
    by (auto simp: fun_eq_iff bnd_def gets_def ret_def with_reply_def split: option.splits)
  finally show ?thesis .
qed

lemma on_dlg_run: "on_dlg m w = (r, t) \<longleftrightarrow> (\<exists>d. m (dlg w) = (r, d) \<and> t = w\<lparr>dlg := d\<rparr>)"
  by (auto simp: on_dlg_def zoom_def split: prod.splits)

lemma on_user_mgr_run: "on_user_mgr m w = (r, t) \<longleftrightarrow> (\<exists>n. m (win_umgr w) = (r, n) \<and> t = w\<lparr>dlg := on_mgr (\<lambda>_. n) (dlg w)\<rparr>)"
  by (auto simp: on_user_mgr_def zoom_def split: prod.splits)

text \<open>What changes the user data only is something the client does on its own.\<close>

lemma on_mgr_step: "dialog_step E d (on_mgr f d)"
  using dialog_step.client_works [of E d "on_umgr f (client d)"] by (simp add: on_mgr_def on_client_def)

lemma load_applies_dlg: "\<exists>f. dlg (snd (forM (load_apply E) xs w)) = on_mgr f (dlg w)"
proof (induction xs arbitrary: w)
  case Nil
  show ?case by (intro exI [of _ "\<lambda>m. m"]) (simp add: ret_def on_mgr_def on_client_def on_umgr_def)
next
  case (Cons ix xs)
  obtain i x where x: "ix = (i, x)" by (cases ix)
  let ?p = "head_pic (win_dialog E) (next_apply (apage w))"
  let ?w = "w\<lparr>dlg := on_mgr (\<lambda>_. set_apply_icon i ?p (win_umgr w)) (dlg w),
    apage := insert_apply (x\<lparr>ca_icon := ?p\<rparr>) (ca_status x = 0) (apage w)\<rparr>"
  have s: "load_apply E ix w = (Val (), ?w)" unfolding x
    by (simp add: load_apply_def bnd_def gets_def on_user_mgr_def zoom_def upd_def on_apage_def)
  obtain f where f: "dlg (snd (forM (load_apply E) xs ?w)) = on_mgr f (dlg ?w)" using Cons by blast
  then have "dlg (snd (forM (load_apply E) (ix # xs) w)) = on_mgr (\<lambda>m. f (set_apply_icon i ?p (win_umgr w))) (dlg w)"
    using s by (simp add: bnd_def on_mgr_def on_client_def on_umgr_def)
  then show ?case by blast
qed

lemma loadApplyList_dlg: "\<exists>f. dlg (snd (loadApplyList E w)) = on_mgr f (dlg w)"
proof -
  obtain f where f: "dlg (snd (forM (load_apply E) (enumerate 0 (GetApplyList (win_umgr w))) w)) = on_mgr f (dlg w)" using load_applies_dlg by blast
  have "dlg (slot_presence_apply n w) = dlg w" for n w by (simp add: slot_presence_apply_def)
  then have "dlg (snd (loadApplyList E w)) = on_mgr f (dlg w)"
    using f by (auto simp: loadApplyList_def bnd_def gets_def upd_def split: prod.splits result.splits)
  then show ?thesis by blast
qed

abbreviation dialog_steps :: "window_env \<Rightarrow> ChatDialog \<Rightarrow> ChatDialog \<Rightarrow> bool" where
  "dialog_steps E \<equiv> (dialog_step (win_dialog E))\<^sup>*\<^sup>*"

lemma dialog_one: "dialog_step (win_dialog E) d d' \<Longrightarrow> dialog_steps E d d'"
  by blast

lemma run_dialog: "m (dlg w) = (r, d) \<Longrightarrow> dialog_step (win_dialog E) (dlg w) (snd (m (dlg w))) \<Longrightarrow> dialog_steps E (dlg w) d"
  by (metis dialog_one snd_conv)

lemma steps_user_mgr: "dialog_steps E (dlg w) (dlg (snd (on_user_mgr m w)))"
  using on_mgr_step by (auto simp: on_user_mgr_def zoom_def split: prod.splits)

lemma steps_sendMessage:
  assumes "command \<in> {''BEGIN_LOAD_APPLY_CONTENT_LIST'', ''LOGIN_LOAD_UNREAD_CHAT_MSG''}"
  shows "dialog_steps E (dlg w) (dlg (snd (sendMessage E command (QBool True) w)))"
  using assms
proof (elim insertE)
  assume c: "command = ''BEGIN_LOAD_APPLY_CONTENT_LIST''"
  show ?thesis using loadApplyList_dlg [of E w] on_mgr_step unfolding c sendMessage_commands by (metis dialog_one)
next
  assume c: "command = ''LOGIN_LOAD_UNREAD_CHAT_MSG''"
  let ?d = "snd (loadMoreChatUser (win_dialog E) (dlg w))"
  have "dialog_step (win_dialog E) (dlg w) ?d" "dialog_step (win_dialog E) ?d (snd (loadMoreConUser (win_dialog E) ?d))"
    by (rule dialog_step.scroll_chats dialog_step.scroll_contacts)+
  then show ?thesis
    unfolding c sendMessage_commands
    by (auto simp: bnd_def on_dlg_def zoom_def split: prod.splits result.splits)
qed simp

definition loads_only :: "gui_event list \<Rightarrow> bool" where
  "loads_only es \<longleftrightarrow> (\<forall>c. BusMessage c \<in> set es \<longrightarrow> c \<in> {''BEGIN_LOAD_APPLY_CONTENT_LIST'', ''LOGIN_LOAD_UNREAD_CHAT_MSG''})"

lemma login_events:
  "onChatLoginRsp Q data m = (Val es, n) \<Longrightarrow> loads_only es"
  "LoginLoadUnRedChatMsg Q data m = (Val es, n) \<Longrightarrow> loads_only es"
  by (auto simp: onChatLoginRsp_def LoginLoadUnRedChatMsg_def loads_only_def bnd_def ret_def upd_def Let_def
      split: option.splits if_splits prod.splits result.splits)

lemma steps_post_events: "loads_only es \<Longrightarrow> dialog_steps E (dlg w) (dlg (snd (post_events E es w)))"
proof (induction es arbitrary: w)
  case (Cons e es)
  let ?p = "case e of BusMessage command \<Rightarrow> sendMessage E command (QBool True) | _ \<Rightarrow> ret ()"
  have 1: "dialog_steps E (dlg w) (dlg (snd (?p w)))"
    using Cons.prems steps_sendMessage by (cases e) (auto simp: loads_only_def ret_def)
  have 2: "dialog_steps E (dlg u) (dlg (snd (post_events E es u)))" for u using Cons by (auto simp: loads_only_def)
  show ?case
    using 1 2 [of "snd (?p w)"]
    by (auto simp: post_events_def bnd_def split: prod.splits result.splits)
qed (simp add: post_events_def ret_def)

lemma steps_login:
  assumes "\<And>es n. m (win_umgr w) = (Val es, n) \<Longrightarrow> loads_only es"
  shows "dialog_steps E (dlg w) (dlg (snd (bnd (on_user_mgr m) (post_events E) w)))"
proof -
  obtain r u where ru: "on_user_mgr m w = (r, u)" by fastforce
  have 1: "dialog_steps E (dlg w) (dlg u)" using steps_user_mgr [of E w m] ru by simp
  show ?thesis
  proof (cases r)
    case (Val es)
    then have "loads_only es" using assms ru by (auto simp: on_user_mgr_run)
    then show ?thesis using 1 steps_post_events [of es E u] ru Val by (simp add: bnd_def)
  qed (use 1 ru in \<open>simp_all add: bnd_def\<close>)
qed

lemma steps_jumped:
  assumes "jumped jump w = Some (r, t)" "\<And>r d. jump (dlg w) = Some (r, d) \<Longrightarrow> dialog_step (win_dialog E) (dlg w) d"
  shows "dialog_steps E (dlg w) (dlg t)"
  using assms by (auto simp: jumped_def show_chats_def split: if_splits)

lemma steps_search:
  assumes "searchUserRsp E data w = Some (r, t)"
  shows "dialog_steps E (dlg w) (dlg t)"
proof -
  obtain r1 w1 where 1: "waitPending False w = (r1, w1)" by fastforce
  have d1: "dlg w1 = dlg w" using 1 by (auto simp: waitPending_def bnd_def gets_def on_slist_def upd_def crash_def split: if_splits)
  have found: "dialog_steps E (dlg w1) (dlg t)" if f: "show_found E info w1 = Some (r, t)" for info
  proof -
    obtain r2 w2 where 2: "on_user_mgr GetUid w1 = (r2, w2)" by fastforce
    have s2: "dialog_steps E (dlg w1) (dlg w2)" using steps_user_mgr [of E w1 GetUid] 2 by simp
    have j: "dialog_steps E (dlg w1) (dlg t)" if "jumped (slot_jump_chat_item (win_dialog E) u) w2 = Some (r, t)" for u
      by (rule rtranclp_trans [OF s2 steps_jumped [OF that]]) (rule dialog_step.jump_search)
    show ?thesis
      using f 2 s2 j by (auto simp: show_found_def run_opt_def on_slist_def upd_def split: result.splits if_splits)
  qed
  show ?thesis
    using assms 1 d1 found
    by (auto simp: searchUserRsp_def run_opt_def Let_def on_slist_def upd_def split: result.splits option.splits if_splits)
qed

lemma steps_handler:
  assumes "handleMsg (window_table E) i data w = Some (r, t)"
  shows "dialog_steps E (dlg w) (dlg t)"
proof (cases "map_of (window_handlers E) i")
  case None
  then show ?thesis using assms by (simp add: handleMsg_def window_table_find)
next
  case (Some h)
  then have h: "h data w = Some (r, t)" using assms by (simp add: handleMsg_def window_table_find)
  have step: "dialog_steps E (dlg w) (dlg t)"
    if "refines_dlg p p'" "p w = (r, t)" "dialog_step (win_dialog E) (dlg w) (snd (p' (dlg w)))" for p p' :: "(_, unit) prog"
    using refines_dlgD [OF that(1,2)] that(3) by auto
  have "\<exists>q. q w = (r, t) \<and> (q = bnd (on_user_mgr (onChatLoginRsp (win_qt E) data)) (post_events E) \<or>
      q = bnd (on_user_mgr (LoginLoadUnRedChatMsg (win_qt E) data)) (post_events E)) \<or>
    searchUserRsp E data w = Some (r, t) \<or> win_NotifyAuthFriendReq E data w = (r, t) \<or> win_AuthFriendRsp E data w = (r, t) \<or>
    win_NotifyAddFriendReq E data w = (r, t) \<or> win_NotifyTextChatMsgReq E data w = (r, t)"
    using Some h by (auto simp: window_handlers_def slot_of_def win_onChatLoginRsp_def win_LoginLoadUnRedChatMsg_def split: if_splits)
  then consider (login) q where "q w = (r, t)" "q = bnd (on_user_mgr (onChatLoginRsp (win_qt E) data)) (post_events E) \<or>
      q = bnd (on_user_mgr (LoginLoadUnRedChatMsg (win_qt E) data)) (post_events E)" | (search) "searchUserRsp E data w = Some (r, t)"
    | (auth) "win_NotifyAuthFriendReq E data w = (r, t)" | (rsp) "win_AuthFriendRsp E data w = (r, t)"
    | (req) "win_NotifyAddFriendReq E data w = (r, t)" | (chat) "win_NotifyTextChatMsgReq E data w = (r, t)" by blast
  then show ?thesis
  proof cases
    case login
    then show ?thesis
      using steps_login [where w = w and E = E and m = "onChatLoginRsp (win_qt E) data", OF login_events(1)]
        steps_login [where w = w and E = E and m = "LoginLoadUnRedChatMsg (win_qt E) data", OF login_events(2)] by (elim disjE) simp_all
  next
    case search
    then show ?thesis by (rule steps_search)
  next
    case auth
    show ?thesis by (rule step [OF refines_NotifyAuthFriendReq auth]) (rule dialog_step.on_auth)
  next
    case rsp
    show ?thesis by (rule step [OF refines_AuthFriendRsp rsp]) (rule dialog_step.on_auth_rsp)
  next
    case req
    show ?thesis by (rule step [OF refines_NotifyAddFriendReq req]) (rule dialog_step.on_apply)
  next
    case chat
    show ?thesis by (rule step [OF refines_NotifyTextChatMsgReq chat]) (rule dialog_step.on_text)
  qed
qed

lemma search_edit_keeps:
  assumes set: "\<And>w str. I w \<Longrightarrow> I (w\<lparr>search_edit := str\<rparr>)"
    and post: "\<And>w str. I w \<Longrightarrow> I (slot_search_edit_text_changed (w\<lparr>slist := (slist w)\<lparr>search_edit_text := str\<rparr>\<rparr>))"
    and run: "set_search_edit E str w = Some (r, t)" "I w"
  shows "I t"
proof -
  have "I w \<longrightarrow> I (snd y)" if "set_search_edit E str w = Some y" for y
    using that
  proof (rule set_search_edit.raw_induct [where P = "\<lambda>E str w y. I w \<longrightarrow> I (snd y)", rotated], intro impI)
    fix f :: "window_env \<Rightarrow> string \<Rightarrow> ClientWindow \<Rightarrow> (unit result \<times> ClientWindow) option" and E str and w :: ClientWindow and y
    let ?w = "w\<lparr>search_edit := str\<rparr>"
    assume IH: "\<And>E str w y. f E str w = Some y \<Longrightarrow> I w \<longrightarrow> I (snd y)" and w: "I w"
      and run: "(let w1 = ?w in if str = search_edit w then Some (Val (), w1)
        else Option.bind (if 20 < length str then f E (fromUtf8 (win_labels E) (take 20 str)) w1 else Some (Val (), w1)) (\<lambda>(r, w2).
          if r \<noteq> Val () then Some (r, w2)
          else Some (bnd (sendMessage E ''SEARCH_EDIT_TEXT_CHANGED'' (QText str)) (\<lambda>_. upd slot_search_edit_text_changed) w2))) = Some y"
    have p: "I (snd (bnd (sendMessage E ''SEARCH_EDIT_TEXT_CHANGED'' (QText str)) (\<lambda>_. upd slot_search_edit_text_changed) w2))" if "I w2" for w2
      using post [OF that] by (simp add: sendMessage_commands on_slist_def bnd_def upd_def)
    show "I (snd y)"
    proof (cases "str = search_edit w")
      case False
      then obtain r2 w2 where 2: "(if 20 < length str then f E (fromUtf8 (win_labels E) (take 20 str)) ?w else Some (Val (), ?w)) = Some (r2, w2)"
          "(if r2 \<noteq> Val () then Some (r2, w2)
            else Some (bnd (sendMessage E ''SEARCH_EDIT_TEXT_CHANGED'' (QText str)) (\<lambda>_. upd slot_search_edit_text_changed) w2)) = Some y"
        using run by (auto simp: Let_def bind_eq_Some_conv)
      have "I w2" using 2(1) IH [of E _ ?w "(r2, w2)"] set [OF w, of str] by (auto split: if_splits)
      then show ?thesis using 2(2) p by (auto split: if_splits)
    qed (use run w in \<open>auto simp: Let_def\<close>)
  qed
  with run show ?thesis by fastforce
qed

lemma search_edit_dlg: "set_search_edit E str w = Some (r, t) \<Longrightarrow> dlg t = dlg w"
  using search_edit_keeps [where I = "\<lambda>x. dlg x = dlg w"] by (auto simp: slot_search_edit_text_changed_def)

text \<open>
  The window refines the dialog: whatever happens in the window, the dialog inside goes through steps
  of its own, so that what holds for every reachable dialog holds in the window.
\<close>

theorem window_refines_dialog:
  assumes "win_step E w t"
  shows "(dialog_step (win_dialog E))\<^sup>*\<^sup>* (dlg w) (dlg t)"
  using assms
proof cases
  case (from_server i data)
  then show ?thesis by (rule steps_handler)
next
  case side_chat
  then show ?thesis
    using dialog_step.press_chat [of "win_dialog E" "dlg w"] by (auto simp: click_side_chat_def bnd_def upd_def on_dlg_run show_chats_def)
next
  case side_contact
  then show ?thesis
    using dialog_step.press_contact [of "win_dialog E" "dlg w"] by (auto simp: click_side_contact_def bnd_def upd_def on_dlg_run)
next
  case side_collect
  then show ?thesis
    using dialog_step.press_collect [of "win_dialog E" "dlg w"] by (auto simp: click_side_collect_def bnd_def upd_def on_dlg_run)
next
  case (search_typed str)
  then show ?thesis using search_edit_dlg by simp
next
  case (pressed b1 b2 b3)
  then have "dlg t = dlg w"
    by (auto simp: mouse_press_def bind_eq_Some_conv Let_def split: if_splits dest!: search_edit_dlg)
  then show ?thesis by simp
next
  case (search_clicked ty)
  then have "dlg t = dlg w"
    by (auto simp: search_item_clicked_def bnd_def gets_def ret_def waitPending_def on_slist_def upd_def sig_send_data_def
        split: option.splits if_splits)
  then show ?thesis by simp
next
  case add_friend
  then show ?thesis
    using steps_user_mgr [of E w GetName]
    by (auto simp: add_friend_btn_clicked_def run_opt_def bind_eq_Some_conv split: option.splits prod.splits result.splits)
next
  case (apply_sure a)
  then show ?thesis
    using steps_user_mgr [of E w GetUid]
    by (auto simp: ApplyFriend_SlotApplySure_def bnd_def gets_def ret_def sig_send_data_def upd_def Let_def
        split: option.splits prod.splits result.splits)
next
  case (authen_sure a)
  then show ?thesis
    using steps_user_mgr [of E w GetUid]
    by (auto simp: AuthenFriend_SlotApplySure_def bnd_def gets_def ret_def sig_send_data_def upd_def Let_def
        split: option.splits prod.splits result.splits)
next
  case (contact i)
  then show ?thesis
    using dialog_step.contacts_work [of "win_dialog E" "dlg w"] by (auto simp: contact_clicked_def slot_friend_info_page_def Let_def)
next
  case msg_chat
  then obtain info where "jumped (slot_jump_chat_item_from_infopage (win_dialog E) info) w = Some (Val (), t)"
    by (auto simp: msg_chat_clicked_def split: option.splits)
  then show ?thesis by (rule steps_jumped) (rule dialog_step.jump_infopage)
next
  case (chat_row a)
  then show ?thesis using dialog_step.click by (auto simp: chat_row_clicked_def)
next
  case more_chats
  then show ?thesis using dialog_step.scroll_chats [of "win_dialog E" "dlg w"] by (auto simp: on_dlg_run)
next
  case more_contacts
  then show ?thesis using dialog_step.scroll_contacts [of "win_dialog E" "dlg w"] by (auto simp: on_dlg_run)
next
  case (text_sent msg)
  then show ?thesis using dialog_step.message_sent [of "win_dialog E" "dlg w" msg] by (auto simp: on_dlg_run)
next
  case (page_works c)
  then show ?thesis using dialog_step.client_works by auto
qed (auto simp: event_loop_def ApplyFriend_SlotApplyCancel_def AuthenFriend_SlotApplyCancel_def add_btn_clicked_def new_friend_clicked_def
    slot_switch_apply_friend_page_def split: option.splits)

theorem window_refines_dialog_witness:
  "\<exists>t. win_step window_demo_env (new_ClientWindow page_chat) t \<and> contact_selected t \<and>
     (dialog_step (win_dialog window_demo_env))\<^sup>*\<^sup>* (new_ChatDialog page_chat) (dlg t) \<and> \<not> side_chat_selected (dlg t)"
proof -
  let ?w = "new_ClientWindow page_chat" and ?t = "snd (click_side_contact (new_ClientWindow page_chat))"
  have "click_side_contact ?w = (Val (), ?t)" by (simp add: click_side_contact_def bnd_def upd_def on_dlg_def zoom_def slot_side_contact_def)
  then have s: "win_step window_demo_env ?w ?t" by (rule win_step.side_contact)
  have "contact_selected ?t" "\<not> side_chat_selected (dlg ?t)"
    by (simp_all add: click_side_contact_def bnd_def upd_def on_dlg_def zoom_def slot_side_contact_def)
  moreover have "dlg ?w = new_ChatDialog page_chat" by (simp add: new_ClientWindow_def)
  ultimately show ?thesis using s window_refines_dialog [OF s] by auto
qed

end
