(* ===== verification/WindowInv.thy ===== *)
theory WindowInv
  imports WindowFacts
begin

text \<open>
  Invariants of the main window: one side button is selected, the answer to a search finds its loading
  dialog, and every friend request that the client knows is on the page of requests.
\<close>

section \<open>What handlers leave alone\<close>

lemma keeps_AppendChatMsg: "keeps (\<lambda>c. same_applies m (umgr c)) (AppendChatMsg E msg)"
  unfolding AppendChatMsg_def make_item_def Let_def
  by (auto intro!: keeps_bnd keeps_upd keeps_cases simp: on_page_def on_umgr_def same_applies_def set_user_icon_def split: option.splits)

lemma show_rest_keeps:
  assumes "\<And>msg. keeps I (AppendChatMsg E msg)" "show_rest E uid c = Some (r, c')" "I c"
  shows "I c'"
proof -
  have "E' = E \<and> I c \<longrightarrow> I (snd y)" if "show_rest E' uid c = Some y" for E' y
    using that
  proof (rule show_rest.raw_induct [where P = "\<lambda>E' uid c y. E' = E \<and> I c \<longrightarrow> I (snd y)", rotated], intro impI, elim conjE)
    fix f :: "gui_env \<Rightarrow> int \<Rightarrow> chat_client \<Rightarrow> (unit result \<times> chat_client) option" and E' uid and c :: chat_client and y
    assume IH: "\<And>E' uid c y. f E' uid c = Some y \<Longrightarrow> E' = E \<and> I c \<longrightarrow> I (snd y)" and E: "E' = E" and c: "I c"
      and run: "(let messages = view_msgs (the_data uid (cpage c)); n = view_count uid c
        in if n < length messages then let (r, t) = AppendChatMsg E' (messages ! n) c in if r = Val () then f E' uid t else Some (r, t)
           else Some (Val (), c)) = Some y"
    obtain r t where rt: "AppendChatMsg E (view_msgs (the_data uid (cpage c)) ! view_count uid c) c = (r, t)" by fastforce
    have "I t" using keepsD [OF assms(1) c rt] .
    then show "I (snd y)" using run rt IH E c by (auto simp: Let_def split: if_splits) (metis snd_conv)
  qed
  with assms(2,3) show ?thesis by fastforce
qed

lemma SetFriendUserInfo_keeps:
  assumes "SetFriendUserInfo E info c = Some (r, c')" "same_applies m (umgr c)"
  shows "same_applies m (umgr c')"
proof -
  let ?p = "bnd (upd (on_page (open_view info))) (\<lambda>_. refresh_view E info)" and ?I = "\<lambda>c. same_applies m (umgr c)"
  have k: "keeps ?I ?p"
    unfolding refresh_view_def by (intro keeps_bnd keeps_upd keeps_cases keeps_forM keeps_AppendChatMsg keeps_basic) (auto simp: on_page_def)
  obtain r1 t where t: "?p c = (r1, t)" by fastforce
  have "?I t" using keepsD [OF k assms(2) t] .
  then show ?thesis
    using assms(1) t show_rest_keeps [where I = ?I, OF keeps_AppendChatMsg] by (auto simp: SetFriendUserInfo_def split: if_splits)
qed

text \<open>The dialog keeps its requests and the state of its side button.\<close>

definition dlg_frame :: "bool \<Rightarrow> UserMgr \<Rightarrow> ChatDialog \<Rightarrow> bool" where
  "dlg_frame b m d \<longleftrightarrow> side_chat_selected d = b \<and> same_applies m (dlg_umgr d)"

lemma dlg_frame_same [simp]:
  "dlg_frame b m (d\<lparr>items := i\<rparr>) = dlg_frame b m d" "dlg_frame b m (d\<lparr>chat_rows := l\<rparr>) = dlg_frame b m d"
  "dlg_frame b m (d\<lparr>current_row := x\<rparr>) = dlg_frame b m d" "dlg_frame b m (d\<lparr>chat_items_added := y\<rparr>) = dlg_frame b m d"
  "dlg_frame b m (d\<lparr>unread_total := n\<rparr>) = dlg_frame b m d" "dlg_frame b m (d\<lparr>unread_counts := f\<rparr>) = dlg_frame b m d"
  "dlg_frame b m (d\<lparr>last_selected := z\<rparr>) = dlg_frame b m d" "dlg_frame b m (d\<lparr>contact_rows := cs\<rparr>) = dlg_frame b m d"
  "dlg_frame b m (d\<lparr>current_chat_uid := u\<rparr>) = dlg_frame b m d" "dlg_frame b m (d\<lparr>next_item := k\<rparr>) = dlg_frame b m d"
  "dlg_frame b m (on_item a g d) = dlg_frame b m d" "dlg_frame b m (drop_unread v d) = dlg_frame b m d"
  "dlg_frame b m (count_unread v a d) = dlg_frame b m d" "dlg_frame b m (select_item a d) = dlg_frame b m d"
  "dlg_frame b m (on_client (on_page h) d) = dlg_frame b m d"
  by (simp_all add: dlg_frame_def dlg_umgr_def on_item_def drop_unread_def count_unread_def select_item_def on_client_def on_page_def Let_def
      split: option.splits)

lemma dlg_frame_mgr: "(\<And>n. same_applies n (f n)) \<Longrightarrow> dlg_frame b m (on_mgr f d) = dlg_frame b m d"
  by (simp add: dlg_frame_def dlg_umgr_def on_mgr_def on_client_def on_umgr_def same_applies_def)

lemma same_applies_ops [simp]:
  "same_applies n n" "same_applies n (UpdateChatLoadedCount n)" "same_applies n (UpdateContactLoadedCount n)" "same_applies n (AddFriend auth n)"
  "same_applies n (AppendFriendChatMsg u msgs n)" "same_applies n (n\<lparr>friend_objs := f\<rparr>)"
  by (auto simp: same_applies_def UpdateChatLoadedCount_def UpdateContactLoadedCount_def AddFriend_def AppendFriendChatMsg_def new_friend_def
      Let_def split: option.splits)

lemma frame_add_item: "keeps (dlg_frame b m) (add_item front uid info)"
  unfolding add_item_def by (intro keeps_bnd keeps_basic keeps_upd) simp_all

lemma frame_loads: "keeps (dlg_frame b m) (loadMoreChatUser E)" "keeps (dlg_frame b m) (loadMoreConUser E)"
  unfolding loadMoreChatUser_def load_chat_user_def loadMoreConUser_def load_con_user_def
  by (auto intro!: keeps_bnd keeps_upd keeps_forM keeps_cases frame_add_item simp: dlg_frame_mgr split: option.splits)

lemma frame_contacts: "keeps (dlg_frame b m) (NotifyAuthFriendReq E data)" "keeps (dlg_frame b m) (AuthFriendRsp_handler E data)"
  unfolding NotifyAuthFriendReq_def AuthFriendRsp_handler_def Let_def add_contact_def onNotifyAuthFriendReq_def onAuthFriendRsp_def
  by (intro keeps_with_reply keeps_bnd keeps_basic keeps_upd keeps_cases frame_add_item; simp add: dlg_frame_mgr)+

lemma frame_append: "keeps (dlg_frame b m) (dialog_append_send_chat_msg msg)"
  unfolding dialog_append_send_chat_msg_def by (auto intro!: keeps_bnd keeps_upd keeps_cases simp: dlg_frame_mgr split: option.splits)

lemma frame_update: "keeps (dlg_frame b m) (UpdateChatMsg E msgs)"
proof (induction msgs)
  case (Cons msg msgs)
  have "keeps (dlg_frame b m) (page_call (AppendChatMsg (env_gui E) msg))"
    using keeps_AppendChatMsg [of m "env_gui E" msg]
    by (auto simp: keeps_def page_call_def zoom_def dlg_frame_def dlg_umgr_def split: prod.splits)
  with Cons show ?case by (auto intro!: keeps_bnd keeps_cases)
qed simp

lemma frame_text: "keeps (dlg_frame b m) (NotifyTextChatMsgReq E data)"
  unfolding NotifyTextChatMsgReq_def sender_item_def Let_def
  by (intro keeps_with_reply keeps_bnd keeps_basic keeps_upd keeps_cases frame_add_item frame_update)
    (auto simp: dlg_frame_mgr split: option.splits intro: frame_add_item)

lemma frame_side: "keeps (dlg_frame b m) slot_side_chat"
  unfolding slot_side_chat_def by (auto intro!: keeps_bnd keeps_upd keeps_cases split: option.splits)

lemma frame_select: "keeps (dlg_frame b m) (SetSelectChatItem uid)"
  unfolding SetSelectChatItem_def by (auto intro!: keeps_bnd keeps_upd keeps_cases split: list.splits option.splits)

lemma frame_open_page:
  assumes "open_page E info after d = Some (r, d')" "keeps (dlg_frame b m) after" "dlg_frame b m d"
  shows "dlg_frame b m d'"
proof -
  obtain x c where c: "SetFriendUserInfo (env_gui E) info (client d) = Some (x, c)"
      and o: "run_opt (\<lambda>t. (x, t)) (\<lambda>_ t. Some (after t)) (d\<lparr>client := c\<rparr>) = Some (r, d')"
    using assms(1) by (auto simp: open_page_def bind_eq_Some_conv)
  have "dlg_frame b m (d\<lparr>client := c\<rparr>)" using SetFriendUserInfo_keeps [OF c] assms(3) by (simp add: dlg_frame_def dlg_umgr_def)
  with o keepsD [OF assms(2)] show ?thesis by (cases x) (auto simp: run_opt_def)
qed

lemma frame_click:
  assumes "slot_chat_user_item_clicked E a d = Some (r, d')" "dlg_frame b m d"
  shows "dlg_frame b m d'"
  using assms by (auto simp: slot_chat_user_item_clicked_def Let_def keeps_upd split: option.splits if_splits elim!: frame_open_page)

lemma frame_jump:
  assumes "jump_to E info b' d = Some (Val (), d')" "dlg_frame b m d"
  shows "dlg_frame True m d'"
proof -
  let ?m = "bnd (gets (\<lambda>s. chat_items_added s (cu_uid info))) (\<lambda>found.
        bnd (if found = None then bnd (add_item True (cu_uid info) (Some info)) (\<lambda>_. ret ()) else ret ()) (\<lambda>_.
        bnd (upd (\<lambda>s. s\<lparr>side_chat_selected := True\<rparr>)) (\<lambda>_.
        bnd (upd (\<lambda>s. if b' then s\<lparr>current_chat_uid := cu_uid info\<rparr> else s)) (\<lambda>_.
        SetSelectChatItem (cu_uid info)))))"
  obtain d1 where d1: "?m d = (Val (), d1)" "open_page E info slot_side_chat d1 = Some (Val (), d')"
    using assms(1) by (auto simp: jump_to_def run_opt_def split: prod.splits result.splits)
  let ?n = "bnd (upd (\<lambda>s. if b' then s\<lparr>current_chat_uid := cu_uid info\<rparr> else s)) (\<lambda>_. SetSelectChatItem (cu_uid info))"
  have n: "keeps (dlg_frame True m) ?n" by (intro keeps_bnd keeps_upd frame_select) simp
  have i: "keeps (dlg_frame b m) (if found = None then bnd (add_item True (cu_uid info) (Some info)) (\<lambda>_. ret ()) else ret ())" for found :: "nat option"
    by (intro keeps_cases keeps_bnd keeps_basic frame_add_item)
  obtain d2 where d2: "(if chat_items_added d (cu_uid info) = None then bnd (add_item True (cu_uid info) (Some info)) (\<lambda>_. ret ()) else ret ()) d =
      (Val (), d2)" "?n (d2\<lparr>side_chat_selected := True\<rparr>) = (Val (), d1)"
    using d1(1) by (auto simp: bnd_def gets_def upd_def ret_def split: prod.splits result.splits if_splits)
  have "dlg_frame b m d2" using keepsD [OF i assms(2) d2(1)] .
  then have "dlg_frame True m (d2\<lparr>side_chat_selected := True\<rparr>)" by (simp add: dlg_frame_def dlg_umgr_def)
  from keepsD [OF n this d2(2)] have "dlg_frame True m d1" .
  then show ?thesis by (rule frame_open_page [OF d1(2) frame_side])
qed

section \<open>Requests\<close>

definition shown_uids :: "ApplyFriendPage \<Rightarrow> int set" where
  "shown_uids p = {uid. \<exists>a item. apply_items p a = Some item \<and> ca_uid (ap_info item) = uid}"

definition page_wf :: "ApplyFriendPage \<Rightarrow> bool" where
  "page_wf p \<longleftrightarrow> dom (apply_items p) = set (apply_rows p) \<and> distinct (apply_rows p) \<and> (\<forall>a \<in> set (apply_rows p). a < next_apply p) \<and>
     (\<forall>uid a. unauth_items p uid = Some a \<longrightarrow> (\<exists>item. apply_items p a = Some item \<and> ca_uid (ap_info item) = uid))"

definition applies_wf :: "UserMgr \<Rightarrow> bool" where
  "applies_wf m \<longleftrightarrow> dom (apply_map m) = ca_uid ` set (apply_list m)"

definition requests_ok :: "UserMgr \<Rightarrow> ApplyFriendPage \<Rightarrow> bool" where
  "requests_ok m p \<longleftrightarrow> applies_wf m \<and> page_wf p \<and> ca_uid ` set (apply_list m) \<subseteq> shown_uids p"

lemma page_fresh: "page_wf p \<Longrightarrow> apply_items p (next_apply p) = None"
  unfolding page_wf_def by (metis domIff less_irrefl)

lemma page_wf_insert:
  assumes "page_wf p"
  shows "page_wf (insert_apply info b p)" "shown_uids (insert_apply info b p) = insert (ca_uid info) (shown_uids p)"
proof -
  note f = page_fresh [OF assms]
  have n: "next_apply p \<notin> set (apply_rows p)" using assms by (auto simp: page_wf_def)
  show "page_wf (insert_apply info b p)"
    using assms f n unfolding page_wf_def insert_apply_def ShowAddBtn_def Let_def
    by (auto simp: less_Suc_eq) (metis option.distinct(1))+
  show "shown_uids (insert_apply info b p) = insert (ca_uid info) (shown_uids p)"
    using f by (auto simp: shown_uids_def insert_apply_def ShowAddBtn_def Let_def) (metis option.distinct(1))
qed

lemma page_wf_mark:
  assumes "page_wf p"
  shows "page_wf (mark_accepted uid p)" "shown_uids (mark_accepted uid p) = shown_uids p"
proof -
  have u: "ca_uid (ap_info (ShowAddBtn b item)) = ca_uid (ap_info item)" for b item by (simp add: ShowAddBtn_def)
  have d: "dom (apply_items (mark_accepted uid p)) = dom (apply_items p)" by (auto simp: mark_accepted_def dom_def split: option.splits if_splits)
  have r: "apply_rows (mark_accepted uid p) = apply_rows p" "next_apply (mark_accepted uid p) = next_apply p"
    "unauth_items (mark_accepted uid p) = unauth_items p"
    by (simp_all add: mark_accepted_def split: option.splits)
  have i: "\<exists>item'. apply_items (mark_accepted uid p) a = Some item' \<and> ca_uid (ap_info item') = v"
    if "apply_items p a = Some item" "ca_uid (ap_info item) = v" for a item v
    using that u by (auto simp: mark_accepted_def split: option.splits)
  show "page_wf (mark_accepted uid p)"
    using assms i unfolding page_wf_def d r by blast
  have "\<exists>item. apply_items p a = Some item \<and> ca_uid (ap_info item) = ca_uid (ap_info item')"
    if "apply_items (mark_accepted uid p) a = Some item'" for a item'
    using that u by (auto simp: mark_accepted_def split: option.splits if_splits)
  with i show "shown_uids (mark_accepted uid p) = shown_uids p" unfolding shown_uids_def by blast
qed

lemma applies_wf_icon:
  "ca_uid ` set (apply_list (set_apply_icon i pic m)) = ca_uid ` set (apply_list m)" "applies_wf m \<Longrightarrow> applies_wf (set_apply_icon i pic m)"
proof -
  have "map ca_uid (apply_list (set_apply_icon i pic m)) = map ca_uid (apply_list m)"
    by (simp add: set_apply_icon_def Let_def map_update) (metis list_update_id map_update nth_map)
  then show *: "ca_uid ` set (apply_list (set_apply_icon i pic m)) = ca_uid ` set (apply_list m)" by (metis list.set_map)
  show "applies_wf m \<Longrightarrow> applies_wf (set_apply_icon i pic m)"
    unfolding applies_wf_def * by (auto simp: set_apply_icon_def Let_def dom_def split: if_splits)
qed

lemma win_umgr_mgr [simp]: "win_umgr (w\<lparr>dlg := on_mgr f d\<rparr>) = f (dlg_umgr d)" "dlg_umgr (on_mgr f d) = f (dlg_umgr d)"
  by (simp_all add: win_umgr_def dlg_umgr_def on_mgr_def on_client_def on_umgr_def)

text \<open>Loading requests shows all of them and keeps the rest of the window.\<close>

definition only_requests :: "ClientWindow \<Rightarrow> ClientWindow \<Rightarrow> bool" where
  "only_requests w t \<longleftrightarrow> slist t = slist w \<and> contact_selected t = contact_selected w \<and> collect_selected t = collect_selected w \<and>
     side_chat_selected (dlg t) = side_chat_selected (dlg w)"

lemma load_applies_shown:
  assumes "page_wf (apage w)" "applies_wf (win_umgr w)"
  shows "\<exists>t. forM (load_apply E) xs w = (Val (), t) \<and> page_wf (apage t) \<and> shown_uids (apage t) = shown_uids (apage w) \<union> ca_uid ` snd ` set xs \<and>
    applies_wf (win_umgr t) \<and> ca_uid ` set (apply_list (win_umgr t)) = ca_uid ` set (apply_list (win_umgr w)) \<and> only_requests w t"
  using assms
proof (induction xs arbitrary: w)
  case Nil
  then show ?case by (simp add: ret_def only_requests_def)
next
  case (Cons ix xs)
  obtain i x where x: "ix = (i, x)" by (cases ix)
  let ?p = "head_pic (win_dialog E) (next_apply (apage w))"
  let ?w = "w\<lparr>dlg := on_mgr (\<lambda>_. set_apply_icon i ?p (win_umgr w)) (dlg w),
    apage := insert_apply (x\<lparr>ca_icon := ?p\<rparr>) (ca_status x = 0) (apage w)\<rparr>"
  have s: "load_apply E ix w = (Val (), ?w)" unfolding x
    by (simp add: load_apply_def bnd_def gets_def on_user_mgr_def zoom_def upd_def on_apage_def)
  have m: "win_umgr ?w = set_apply_icon i ?p (win_umgr w)" by (simp add: win_umgr_def)
  have "page_wf (apage ?w)" "applies_wf (win_umgr ?w)" using Cons.prems page_wf_insert applies_wf_icon m by simp_all
  from Cons.IH [OF this] obtain t where t: "forM (load_apply E) xs ?w = (Val (), t)" "page_wf (apage t)"
    "shown_uids (apage t) = shown_uids (apage ?w) \<union> ca_uid ` snd ` set xs" "applies_wf (win_umgr t)"
    "ca_uid ` set (apply_list (win_umgr t)) = ca_uid ` set (apply_list (win_umgr ?w))" "only_requests ?w t" by blast
  show ?case
  proof (intro exI [of _ t] conjI)
    have "side_chat_selected (on_mgr f d) = side_chat_selected d" for f d by (simp add: on_mgr_def on_client_def)
    then show "only_requests w t" using t(6) by (simp add: only_requests_def)
    show "forM (load_apply E) (ix # xs) w = (Val (), t)" using t(1) s by (simp add: bnd_def)
    show "shown_uids (apage t) = shown_uids (apage w) \<union> ca_uid ` snd ` set (ix # xs)" using t(3) Cons.prems x by (simp add: page_wf_insert)
    show "ca_uid ` set (apply_list (win_umgr t)) = ca_uid ` set (apply_list (win_umgr w))" using t(5) m applies_wf_icon by simp
  qed (use t in simp_all)
qed

lemma loadApplyList_ok:
  assumes "page_wf (apage w)" "applies_wf (win_umgr w)"
  shows "\<exists>t. loadApplyList E w = (Val (), t) \<and> requests_ok (win_umgr t) (apage t) \<and> only_requests w t"
proof -
  have snds: "snd ` set (enumerate 0 (apply_list (win_umgr w))) = set (apply_list (win_umgr w))"
    by (metis list.set_map map_snd_enumerate)
  obtain u where u: "forM (load_apply E) (enumerate 0 (apply_list (win_umgr w))) w = (Val (), u)" "page_wf (apage u)"
    "shown_uids (apage u) = shown_uids (apage w) \<union> ca_uid ` set (apply_list (win_umgr w))" "applies_wf (win_umgr u)"
    "ca_uid ` set (apply_list (win_umgr u)) = ca_uid ` set (apply_list (win_umgr w))" "only_requests w u"
    using load_applies_shown [OF assms, of E "enumerate 0 (apply_list (win_umgr w))"] unfolding snds by blast
  let ?t = "slot_presence_apply (int (length (filter (\<lambda>a. ca_status a = 0) (apply_list (win_umgr w))))) u"
  have "win_umgr ?t = win_umgr u" "apage ?t = apage u" "only_requests u ?t"
    by (simp_all add: slot_presence_apply_def win_umgr_def only_requests_def)
  then show ?thesis
    using u by (intro exI [of _ ?t]) (auto simp: loadApplyList_def GetApplyList_def bnd_def gets_def upd_def requests_ok_def only_requests_def)
qed

section \<open>The invariant\<close>

definition one_side :: "ClientWindow \<Rightarrow> bool" where
  "one_side w \<longleftrightarrow> (let a = side_chat_selected (dlg w); b = contact_selected w; c = collect_selected w in
     a \<and> \<not> b \<and> \<not> c \<or> \<not> a \<and> b \<and> \<not> c \<or> \<not> a \<and> \<not> b \<and> c)"

definition search_wf :: "SearchList \<Rightarrow> bool" where
  "search_wf l \<longleftrightarrow> (send_pending l \<longleftrightarrow> loading_dlg l = Shown)"

definition window_ok :: "ClientWindow \<Rightarrow> bool" where
  "window_ok w \<longleftrightarrow> one_side w \<and> search_wf (slist w) \<and> requests_ok (win_umgr w) (apage w)"

lemma requests_ok_same: "same_applies m n \<Longrightarrow> requests_ok n p = requests_ok m p"
  by (simp add: requests_ok_def applies_wf_def same_applies_def)

lemma requests_ok_mark: "requests_ok m p \<Longrightarrow> requests_ok m (mark_accepted uid p)"
  by (simp add: requests_ok_def page_wf_mark)

lemma window_ok_dlg:
  assumes "window_ok w" "dlg_frame (side_chat_selected (dlg w)) (win_umgr w) d"
  shows "window_ok (w\<lparr>dlg := d\<rparr>)"
proof -
  have "win_umgr (w\<lparr>dlg := d\<rparr>) = dlg_umgr d" by (simp add: win_umgr_def)
  then show ?thesis using assms requests_ok_same by (auto simp: window_ok_def one_side_def dlg_frame_def)
qed

lemma window_ok_start: "applies_wf (umgr c) \<Longrightarrow> apply_list (umgr c) = [] \<Longrightarrow> window_ok (new_ClientWindow c)"
  by (simp add: window_ok_def one_side_def search_wf_def requests_ok_def new_ClientWindow_def new_ChatDialog_def new_SearchList_def
      new_ApplyFriendPage_def win_umgr_def dlg_umgr_def page_wf_def)

lemma frame_self [simp]: "dlg_frame (side_chat_selected (dlg w)) (win_umgr w) (dlg w)"
  by (simp add: dlg_frame_def win_umgr_def)

lemma ok_on_dlg:
  assumes "\<And>b m. keeps (dlg_frame b m) p"
  shows "keeps window_ok (on_dlg p)"
proof -
  have "window_ok (w\<lparr>dlg := d\<rparr>)" if "window_ok w" "p (dlg w) = (r, d)" for w r d
    using window_ok_dlg [OF that(1) keepsD [OF assms frame_self that(2)]] .
  then show ?thesis by (auto simp: keeps_def on_dlg_def zoom_def split: prod.splits)
qed

lemma ok_on_mgr:
  assumes "\<And>m r n. p m = (r, n) \<Longrightarrow> same_applies m n"
  shows "keeps window_ok (on_user_mgr p)"
proof -
  have "window_ok (w\<lparr>dlg := on_mgr (\<lambda>_. n) (dlg w)\<rparr>)" if "window_ok w" "p (win_umgr w) = (r, n)" for w r n
    using assms [OF that(2)] that(1)
    by (intro window_ok_dlg) (auto simp: dlg_frame_def dlg_umgr_def on_mgr_def on_client_def on_umgr_def)
  then show ?thesis by (auto simp: keeps_def on_user_mgr_def zoom_def split: prod.splits)
qed

lemma ok_slist: "(\<And>l. search_wf l \<Longrightarrow> search_wf (f l)) \<Longrightarrow> keeps window_ok (on_slist f)"
  by (auto simp: on_slist_def window_ok_def one_side_def win_umgr_def intro!: keeps_upd)

lemma ok_apage: "(\<And>m p. requests_ok m p \<Longrightarrow> requests_ok m (f p)) \<Longrightarrow> keeps window_ok (on_apage f)"
  by (auto simp: on_apage_def window_ok_def one_side_def win_umgr_def intro!: keeps_upd)

lemma ok_other [simp]:
  "window_ok (w\<lparr>apply_forms := f\<rparr>) = window_ok w" "window_ok (w\<lparr>authen_forms := g\<rparr>) = window_ok w" "window_ok (w\<lparr>next_form := n\<rparr>) = window_ok w"
  "window_ok (w\<lparr>shown_page := s\<rparr>) = window_ok w" "window_ok (w\<lparr>user_index := i\<rparr>) = window_ok w" "window_ok (w\<lparr>last_index := j\<rparr>) = window_ok w"
  "window_ok (w\<lparr>search_edit := e\<rparr>) = window_ok w" "window_ok (w\<lparr>chat_dot := d1\<rparr>) = window_ok w" "window_ok (w\<lparr>contact_dot := d2\<rparr>) = window_ok w"
  "window_ok (w\<lparr>new_friend_dot := d3\<rparr>) = window_ok w" "window_ok (w\<lparr>info_page := q\<rparr>) = window_ok w" "window_ok (w\<lparr>win_sent := x\<rparr>) = window_ok w"
  by (simp_all add: window_ok_def one_side_def win_umgr_def)

lemma ok_get_user: "keeps window_ok (on_user_mgr GetUid)" "keeps window_ok (on_user_mgr GetName)"
  by (rule ok_on_mgr; auto simp: GetUid_def GetName_def of_user_def bnd_def gets_def ret_def crash_def split: option.splits)+

lemma ok_sig: "keeps window_ok (sig_send_data i v)"
  unfolding sig_send_data_def by (intro keeps_upd) simp

lemma ok_wait: "keeps window_ok (waitPending b)"
  unfolding waitPending_def by (intro keeps_cases keeps_bnd keeps_basic ok_slist) (simp_all add: search_wf_def)

lemma ok_jumped:
  assumes "jumped (jump_to E info b) w = Some (Val (), t)" "window_ok w"
  shows "window_ok t"
proof -
  obtain d where d: "jump_to E info b (dlg w) = Some (Val (), d)" "t = show_chats (w\<lparr>dlg := d\<rparr>)"
    using assms(1) by (auto simp: jumped_def split: if_splits)
  have "dlg_frame True (win_umgr w) d" by (rule frame_jump [OF d(1) frame_self])
  then show ?thesis
    using assms(2) requests_ok_same [of "win_umgr w" "dlg_umgr d"]
    by (simp add: d(2) window_ok_def one_side_def show_chats_def dlg_frame_def win_umgr_def)
qed

lemma ok_search:
  assumes "searchUserRsp E data w = Some (Val (), t)" "window_ok w"
  shows "window_ok t"
proof -
  obtain w1 where 1: "waitPending False w = (Val (), w1)"
    using assms(1) by (auto simp: searchUserRsp_def run_opt_def split: prod.splits result.splits)
  have ok1: "window_ok w1" by (rule keepsD [OF ok_wait assms(2) 1])
  have fail: "window_ok t" if "on_slist (\<lambda>l. l\<lparr>find_failed := True\<rparr>) w1 = (Val (), t)"
    by (rule keepsD [OF ok_slist ok1 that]) (simp add: search_wf_def)
  have found: "window_ok t" if f: "show_found E info w1 = Some (Val (), t)" for info
  proof -
    obtain self w2 where 2: "on_user_mgr GetUid w1 = (Val self, w2)"
      using f by (auto simp: show_found_def run_opt_def split: prod.splits result.splits)
    have ok2: "window_ok w2" by (rule keepsD [OF ok_get_user(1) ok1 2])
    have "window_ok t" if "on_slist (\<lambda>l. l\<lparr>find_success := Some info\<rparr>) w2 = (Val (), t)"
      by (rule keepsD [OF ok_slist ok2 that]) (simp add: search_wf_def)
    then show ?thesis
      using f 2 ok2 ok_jumped
      by (auto simp: show_found_def run_opt_def slot_jump_chat_item_def jumped_def split: if_splits)
  qed
  show ?thesis
    using assms(1) 1 ok1 fail found
    by (auto simp: searchUserRsp_def run_opt_def Let_def split: option.splits if_splits)
qed

text \<open>Logging in adds requests and then has them shown.\<close>

lemma applies_wf_append: "applies_wf m \<Longrightarrow> applies_wf (AppendApplyList Q vs m)"
  unfolding AppendApplyList_def
  by (induction vs arbitrary: m) (auto simp: append_apply_def Let_def applies_wf_def)

lemma same_AppendFriendList: "same_applies m (AppendFriendList Q vs m)"
  unfolding AppendFriendList_def
proof (induction vs arbitrary: m)
  case (Cons v vs)
  have "same_applies m (append_friend Q v m)" by (simp add: append_friend_def new_friend_def same_applies_def Let_def)
  with Cons [of "append_friend Q v m"] show ?case by (simp add: same_applies_def)
qed simp

lemma applies_wf_same: "same_applies m n \<Longrightarrow> applies_wf m = applies_wf n"
  by (simp add: same_applies_def applies_wf_def)

lemma login_applies:
  assumes "onChatLoginRsp Q data m = (Val es, n)" "applies_wf m"
  shows "n = m \<and> (\<forall>c. BusMessage c \<notin> set es) \<or> es = [BusMessage ''BEGIN_LOAD_APPLY_CONTENT_LIST'', AcceptDialog] \<and> applies_wf n"
proof -
  have u: "applies_wf (SetToken tk (SetUserInfo info m)) = applies_wf m" for tk info
    by (simp add: applies_wf_def SetToken_def SetUserInfo_def)
  show ?thesis
    using assms applies_wf_append u applies_wf_same [OF same_AppendFriendList]
    by (auto simp: onChatLoginRsp_def bnd_def ret_def upd_def Let_def split: option.splits if_splits)
qed

lemma ok_login:
  assumes "win_onChatLoginRsp E data w = (Val (), t)" "window_ok w"
  shows "window_ok t"
proof -
  obtain es n where n: "onChatLoginRsp (win_qt E) data (win_umgr w) = (Val es, n)"
      and p: "post_events E es (w\<lparr>dlg := on_mgr (\<lambda>_. n) (dlg w)\<rparr>) = (Val (), t)"
    using assms(1) by (auto simp: win_onChatLoginRsp_def bnd_def on_user_mgr_def zoom_def split: prod.splits result.splits)
  let ?w = "w\<lparr>dlg := on_mgr (\<lambda>_. n) (dlg w)\<rparr>"
  have wf: "page_wf (apage w)" "applies_wf (win_umgr w)" using assms(2) by (simp_all add: window_ok_def requests_ok_def)
  have side: "side_chat_selected (on_mgr f d) = side_chat_selected d" for f d by (simp add: on_mgr_def on_client_def)
  from login_applies [OF n wf(2)] show ?thesis
  proof (elim disjE conjE)
    assume a: "n = win_umgr w" "\<forall>c. BusMessage c \<notin> set es"
    have "window_ok ?w" using assms(2) a(1) by (auto simp: window_ok_def one_side_def side)
    moreover have "post_events E es x = (Val (), x)" for x
      unfolding post_events_def using a(2) by (induction es) (auto simp: bnd_def ret_def split: gui_event.splits)
    ultimately show ?thesis using p by simp
  next
    assume a: "es = [BusMessage ''BEGIN_LOAD_APPLY_CONTENT_LIST'', AcceptDialog]" "applies_wf n"
    obtain u where u: "loadApplyList E ?w = (Val (), u)" "requests_ok (win_umgr u) (apage u)" "only_requests ?w u"
      using loadApplyList_ok [of ?w E] wf a(2) by auto
    have "t = u" using p u(1) by (simp add: a(1) post_events_def sendMessage_commands bnd_def ret_def)
    then show ?thesis
      using assms(2) u(2,3) by (auto simp: window_ok_def one_side_def only_requests_def side)
  qed
qed

lemma same_applies_trans: "same_applies l m \<Longrightarrow> same_applies m n \<Longrightarrow> same_applies l n"
  by (simp add: same_applies_def)

lemma ok_unread: "keeps window_ok (win_LoginLoadUnRedChatMsg E data)"
proof -
  have touch: "same_applies x (fold (touch_friend i j str tm) fs x)" for i j str tm fs x
  proof (induction fs arbitrary: x)
    case (Cons f fs)
    have "same_applies x (touch_friend i j str tm f x)" by (simp add: touch_friend_def same_applies_def split: option.splits)
    then show ?case using Cons same_applies_trans by fastforce
  qed simp
  have k: "keeps (same_applies m) (LoginLoadUnRedChatMsg Q data)" for m Q
    unfolding LoginLoadUnRedChatMsg_def load_text_def AppendSlefChatMsg_def user_message_def Let_def
    by (intro keeps_cases keeps_bnd keeps_basic keeps_forM keeps_upd)
      (auto simp: same_applies_def touch [unfolded same_applies_def] same_applies_ops(5) [unfolded same_applies_def])
  have u: "keeps window_ok (on_user_mgr (LoginLoadUnRedChatMsg (win_qt E) data))"
    by (rule ok_on_mgr) (metis keepsD k same_applies_ops(1))
  show ?thesis
    unfolding keeps_def
  proof (intro allI impI)
    fix w assume w: "window_ok w"
    obtain r v where v: "on_user_mgr (LoginLoadUnRedChatMsg (win_qt E) data) w = (r, v)" by fastforce
    have ok: "window_ok v" by (rule keepsD [OF u w v])
    have es: "es = [] \<or> es = [BusMessage ''LOGIN_LOAD_UNREAD_CHAT_MSG'']" if "r = Val es" for es
      using v that by (auto simp: on_user_mgr_run LoginLoadUnRedChatMsg_def bnd_def ret_def split: option.splits if_splits prod.splits result.splits)
    have l: "keeps window_ok (post_events E es)" if "r = Val es" for es
    proof -
      have "keeps window_ok (bnd (on_dlg (loadMoreChatUser (win_dialog E))) (\<lambda>_. on_dlg (loadMoreConUser (win_dialog E))))"
        by (intro keeps_bnd ok_on_dlg frame_loads)
      with es [OF that] show ?thesis by (elim disjE) (simp_all add: post_events_def sendMessage_commands)
    qed
    show "window_ok (snd (win_LoginLoadUnRedChatMsg E data w))"
      using v ok l by (cases r) (simp_all add: win_LoginLoadUnRedChatMsg_def bnd_def keeps_def)
  qed
qed

lemma ok_announce:
  assumes "keeps window_ok (sendMessage E command (QJsonObject j))"
  shows "keeps window_ok (announce_contact E command auth row j)"
proof -
  have "keeps (dlg_frame b m) (add_contact (win_dialog E) auth row (ret ()))" for b m
    unfolding add_contact_def by (intro keeps_bnd keeps_basic keeps_upd keeps_cases) (simp_all add: dlg_frame_mgr)
  then show ?thesis unfolding announce_contact_def by (intro keeps_bnd keeps_basic keeps_cases ok_on_dlg assms)
qed

lemma ok_auth: "keeps window_ok (win_NotifyAuthFriendReq E data)" "keeps window_ok (win_AuthFriendRsp E data)"
proof -
  have f: "keeps (dlg_frame b m) (onNotifyAuthFriendReq (win_dialog E) j)" "keeps (dlg_frame b m) (onAuthFriendRsp (win_dialog E) j)" for b m j
    unfolding onNotifyAuthFriendReq_def onAuthFriendRsp_def Let_def
    by (intro keeps_bnd keeps_basic keeps_upd keeps_cases frame_add_item; simp)+
  show "keeps window_ok (win_NotifyAuthFriendReq E data)"
    unfolding win_NotifyAuthFriendReq_def Let_def
    by (intro keeps_with_reply ok_announce) (simp add: sendMessage_commands ok_on_dlg f)
  show "keeps window_ok (win_AuthFriendRsp E data)"
    unfolding win_AuthFriendRsp_def Let_def
    by (intro keeps_with_reply ok_announce) (auto simp: sendMessage_commands intro!: keeps_bnd ok_apage requests_ok_mark ok_on_dlg f)
qed

lemma ok_text: "keeps window_ok (win_NotifyTextChatMsgReq E data)"
  unfolding win_NotifyTextChatMsgReq_def
  by (intro keeps_bnd keeps_basic keeps_with_reply keeps_upd ok_on_dlg frame_text) simp

text \<open>A request that comes in is stored and shown, unless the user's request is known.\<close>

definition notified_request :: "qt_json \<Rightarrow> json \<Rightarrow> ClientApplyInfo" where
  "notified_request Q j = (let get = (\<lambda>k. q_toString Q (q_value Q j k)) in
     \<lparr>ca_uid = q_toInt Q (q_value Q j ''applyuid''), ca_name = get ''name'', ca_desc = get ''desc'', ca_icon = get ''icon'',
      ca_nick = get ''nick'', ca_sex = q_toInt Q (q_value Q j ''sex''), ca_status = 0\<rparr>)"

definition store_request :: "ClientApplyInfo \<Rightarrow> ChatDialog \<Rightarrow> ChatDialog" where
  "store_request info d = (on_mgr (AddApplyList info) d)\<lparr>applies := applies d @ [info]\<rparr>"

lemma NotifyAddFriendReq_run:
  "NotifyAddFriendReq E data d = with_reply (env_qt E) data (\<lambda>j. upd (\<lambda>d.
     if AlreadyApply (ca_uid (notified_request (env_qt E) j)) (dlg_umgr d) then d else store_request (notified_request (env_qt E) j) d)) d"
  by (auto simp: NotifyAddFriendReq_def with_reply_def notified_request_def store_request_def bnd_def gets_def upd_def ret_def Let_def on_mgr_def
      on_client_def split: option.splits)

lemma add_request:
  assumes "win_NotifyAddFriendReq E data w = (r, t)"
  shows "t = w \<or> (\<exists>info. r = Val () \<and> \<not> AlreadyApply (ca_uid info) (win_umgr w) \<and> slist t = slist w \<and>
    contact_selected t = contact_selected w \<and> collect_selected t = collect_selected w \<and>
    dlg t = store_request info (dlg w) \<and>
    (\<exists>info'. ca_uid info' = ca_uid info \<and> apage t = insert_apply info' True (apage w)))"
proof -
  obtain r1 d1 where d1: "NotifyAddFriendReq (win_dialog E) data (dlg w) = (r1, d1)" by fastforce
  have "r1 = Val ()" and c: "d1 = dlg w \<or> (\<exists>info. \<not> AlreadyApply (ca_uid info) (win_umgr w) \<and> d1 = store_request info (dlg w))"
    using d1 by (auto simp: NotifyAddFriendReq_run with_reply_def upd_def ret_def win_umgr_def split: option.splits if_splits)
  from c show ?thesis
  proof
    assume "d1 = dlg w"
    then show ?thesis
      using assms d1 \<open>r1 = Val ()\<close> by (auto simp: win_NotifyAddFriendReq_def bnd_def gets_def on_dlg_def zoom_def ret_def)
  next
    assume "\<exists>info. \<not> AlreadyApply (ca_uid info) (win_umgr w) \<and> d1 = store_request info (dlg w)"
    then obtain info where i: "\<not> AlreadyApply (ca_uid info) (win_umgr w)" "d1 = store_request info (dlg w)"
      by blast
    show ?thesis
      using assms d1 \<open>r1 = Val ()\<close> i
      by (intro disjI2 exI [of _ info])
        (auto simp: win_NotifyAddFriendReq_def bnd_def gets_def on_dlg_def zoom_def ret_def AddNewApply_def on_apage_def upd_def store_request_def
          intro!: exI [of _ "info\<lparr>ca_icon := head_pic (win_dialog E) (next_apply (apage w)), ca_nick := ca_name info, ca_sex := 0, ca_status := 0\<rparr>"])
  qed
qed

lemma ok_request: "keeps window_ok (win_NotifyAddFriendReq E data)"
  unfolding keeps_def
proof (intro allI impI)
  fix w assume w: "window_ok w"
  obtain r t where t: "win_NotifyAddFriendReq E data w = (r, t)" by fastforce
  have side: "side_chat_selected (on_mgr f d) = side_chat_selected d" for f d by (simp add: on_mgr_def on_client_def)
  from add_request [OF t] have "window_ok t"
  proof (elim disjE exE conjE)
    fix info info'
    assume a: "slist t = slist w" "contact_selected t = contact_selected w" "collect_selected t = collect_selected w"
      "dlg t = store_request info (dlg w)" "ca_uid info' = ca_uid info"
      "apage t = insert_apply info' True (apage w)"
    have p: "page_wf (apage w)" using w by (simp add: window_ok_def requests_ok_def)
    have m: "win_umgr t = AddApplyList info (win_umgr w)"
      by (simp add: win_umgr_def a(4) store_request_def dlg_umgr_def on_mgr_def on_client_def on_umgr_def)
    have "requests_ok (AddApplyList info (win_umgr w)) (apage t)"
      using w page_wf_insert [OF p, of info' True] a(5)
      by (auto simp: window_ok_def requests_ok_def applies_wf_def AddApplyList_def a(6))
    then show ?thesis using w by (simp add: window_ok_def one_side_def a(1-4) side m store_request_def)
  qed (use w in simp)
  then show "window_ok (snd (win_NotifyAddFriendReq E data w))" using t by simp
qed

lemma ok_search_edit:
  assumes "set_search_edit E str w = Some (r, t)" "window_ok w"
  shows "window_ok t"
proof (rule search_edit_keeps [where I = window_ok, OF _ _ assms])
  fix v str
  assume v: "window_ok v"
  show "window_ok (slot_search_edit_text_changed (v\<lparr>slist := (slist v)\<lparr>search_edit_text := str\<rparr>\<rparr>))"
    using v by (simp add: slot_search_edit_text_changed_def window_ok_def one_side_def win_umgr_def search_wf_def)
qed simp

lemma ok_handler:
  assumes "handleMsg (window_table E) i data w = Some (Val (), t)" "window_ok w"
  shows "window_ok t"
proof -
  have "t = w \<or> win_onChatLoginRsp E data w = (Val (), t) \<or> win_LoginLoadUnRedChatMsg E data w = (Val (), t) \<or>
    searchUserRsp E data w = Some (Val (), t) \<or> win_NotifyAuthFriendReq E data w = (Val (), t) \<or> win_AuthFriendRsp E data w = (Val (), t) \<or>
    win_NotifyAddFriendReq E data w = (Val (), t) \<or> win_NotifyTextChatMsgReq E data w = (Val (), t)"
    using assms(1) by (auto simp: handleMsg_def window_table_find window_handlers_def slot_of_def split: option.splits if_splits)
  then show ?thesis
    using assms(2) ok_login ok_search keepsD [OF ok_unread] keepsD [OF ok_auth(1)] keepsD [OF ok_auth(2)] keepsD [OF ok_request]
      keepsD [OF ok_text] by metis
qed

lemma ok_sides:
  assumes "window_ok w" "click_side_chat w = (Val (), t) \<or> click_side_contact w = (Val (), t) \<or> click_side_collect w = (Val (), t)"
  shows "window_ok t"
proof -
  have chat: "window_ok t" if c: "click_side_chat w = (Val (), t)"
  proof -
    obtain d where d: "slot_side_chat ((dlg w)\<lparr>side_chat_selected := True\<rparr>) = (Val (), d)" "t = (show_chats w)\<lparr>dlg := d\<rparr>"
      using c by (auto simp: click_side_chat_def press_side_chat_def bnd_def upd_def on_dlg_run show_chats_def)
    have "dlg_frame True (win_umgr w) ((dlg w)\<lparr>side_chat_selected := True\<rparr>)" by (simp add: dlg_frame_def win_umgr_def dlg_umgr_def)
    from keepsD [OF frame_side this d(1)] have "dlg_frame True (win_umgr w) d" .
    then show ?thesis
      using assms(1) requests_ok_same [of "win_umgr w" "dlg_umgr d"]
      by (simp add: d(2) window_ok_def one_side_def show_chats_def dlg_frame_def win_umgr_def)
  qed
  show ?thesis
    using assms chat
    by (auto simp: click_side_contact_def click_side_collect_def slot_side_contact_def slot_side_collect_def bnd_def upd_def on_dlg_run
        window_ok_def one_side_def win_umgr_def dlg_umgr_def)
qed

lemma window_ok_step: "win_step E w t \<Longrightarrow> window_ok w \<Longrightarrow> window_ok t"
proof (induction rule: win_step.induct)
  case (from_server i data w t)
  then show ?case using ok_handler by blast
next
  case (search_typed str w t)
  then show ?case using ok_search_edit by blast
next
  case (pressed b1 b2 b3 w t)
  then obtain v where v: "(if user_index w = SEARCH_LIST \<and> \<not> b1 then set_search_edit E [] w else Some (Val (), w)) = Some (Val (), v)"
      "t = v\<lparr>slist := slist t\<rparr>" "search_wf (slist v) \<longrightarrow> search_wf (slist t)"
    by (auto simp: mouse_press_def bind_eq_Some_conv Let_def CloseFindDlg_def search_wf_def split: if_splits)
  have "window_ok v" using v(1) pressed(2) ok_search_edit by (auto split: if_splits)
  then have "window_ok (v\<lparr>slist := slist t\<rparr>)" using v(3) by (simp add: window_ok_def one_side_def win_umgr_def)
  then show ?case using v(2) by simp
next
  case (search_clicked ty w t)
  have "keeps window_ok (search_item_clicked ty)"
    unfolding search_item_clicked_def
    by (intro keeps_cases keeps_bnd keeps_basic ok_wait ok_sig ok_slist) (simp add: search_wf_def CloseFindDlg_def)
  from keepsD [OF this search_clicked(2,1)] show ?case .
next
  case (add_friend w t)
  show ?case
  proof (cases "find_success (slist w)")
    case (Some info)
    then obtain n v where "on_user_mgr GetName w = (Val n, v)" "window_ok t = window_ok v"
      using add_friend(1) by (auto simp: add_friend_btn_clicked_def run_opt_def bind_eq_Some_conv split: prod.splits result.splits)
    then show ?thesis using keepsD [OF ok_get_user(2) add_friend(2)] by blast
  qed (use add_friend in \<open>simp add: add_friend_btn_clicked_def\<close>)
next
  case (apply_sure a w t)
  have "keeps window_ok (ApplyFriend_SlotApplySure a)"
    unfolding ApplyFriend_SlotApplySure_def Let_def by (intro keeps_cases keeps_bnd keeps_basic keeps_upd ok_sig ok_get_user) simp
  from keepsD [OF this apply_sure(2,1)] show ?case .
next
  case (authen_sure a w t)
  have "keeps window_ok (AuthenFriend_SlotApplySure a)"
    unfolding AuthenFriend_SlotApplySure_def Let_def by (intro keeps_cases keeps_bnd keeps_basic keeps_upd ok_sig ok_get_user) simp
  from keepsD [OF this authen_sure(2,1)] show ?case .
next
  case (contact w i)
  have "dlg_frame (side_chat_selected (dlg w)) (win_umgr w) ((dlg w)\<lparr>contact_rows := cs\<rparr>)" for cs by simp
  then show ?case using contact window_ok_dlg by (auto simp: contact_clicked_def slot_friend_info_page_def Let_def)
next
  case (msg_chat w t)
  then show ?case using ok_jumped by (auto simp: msg_chat_clicked_def slot_jump_chat_item_from_infopage_def split: option.splits)
next
  case (chat_row a w t)
  then obtain d where d: "slot_chat_user_item_clicked (win_dialog E) a (dlg w) = Some (Val (), d)" "window_ok t = window_ok (w\<lparr>dlg := d\<rparr>)"
    by (auto simp: chat_row_clicked_def)
  then show ?case using window_ok_dlg [OF chat_row(2) frame_click [OF d(1) frame_self]] by simp
next
  case (page_works w c)
  then show ?case by (intro window_ok_dlg) (simp_all add: dlg_frame_def win_umgr_def dlg_umgr_def)
next
  case (loop_runs w)
  then show ?case by (simp add: event_loop_def window_ok_def one_side_def search_wf_def win_umgr_def)
next
  case (more_chats w t)
  from keepsD [OF ok_on_dlg [OF frame_loads(1)] more_chats(2,1)] show ?case .
next
  case (more_contacts w t)
  from keepsD [OF ok_on_dlg [OF frame_loads(2)] more_contacts(2,1)] show ?case .
next
  case (text_sent msg w t)
  from keepsD [OF ok_on_dlg [OF frame_append] text_sent(2,1)] show ?case .
qed (use ok_sides in \<open>auto simp: ApplyFriend_SlotApplyCancel_def AuthenFriend_SlotApplyCancel_def add_btn_clicked_def
    new_friend_clicked_def slot_switch_apply_friend_page_def split: option.splits\<close>)

definition no_requests :: "chat_client \<Rightarrow> bool" where
  "no_requests c \<longleftrightarrow> apply_list (umgr c) = [] \<and> apply_map (umgr c) = Map.empty"

lemma window_ok_reachable:
  assumes "(win_step E)\<^sup>*\<^sup>* (new_ClientWindow c) w" "no_requests c"
  shows "window_ok w"
  using assms(1)
proof (induction rule: rtranclp_induct)
  case base
  show ?case using assms(2) by (intro window_ok_start) (simp_all add: no_requests_def applies_wf_def)
qed (rule window_ok_step)

section \<open>What the user sees\<close>

text \<open>
  C25. In every window that the program can reach, however the user's clicks and the server's messages
  alternate, exactly one of the three side buttons is selected, and each friend request that the client
  stored, at login or from a notification, has a row of its sender on the page of requests; the rows are
  distinct items.
\<close>

theorem requests_are_shown:
  assumes "(win_step E)\<^sup>*\<^sup>* (new_ClientWindow c) w" "no_requests c"
  shows "one_side w \<and> distinct (apply_rows (apage w)) \<and>
    (\<forall>info \<in> set (GetApplyList (win_umgr w)). \<exists>a \<in> set (apply_rows (apage w)). \<exists>item.
       apply_items (apage w) a = Some item \<and> ca_uid (ap_info item) = ca_uid info)"
proof (intro conjI ballI)
  have ok: "window_ok w" by (rule window_ok_reachable [OF assms])
  then show "one_side w" "distinct (apply_rows (apage w))" by (simp_all add: window_ok_def requests_ok_def page_wf_def)
  fix info assume "info \<in> set (GetApplyList (win_umgr w))"
  then have "ca_uid info \<in> shown_uids (apage w)" using ok by (auto simp: window_ok_def requests_ok_def GetApplyList_def)
  then obtain a item where a: "apply_items (apage w) a = Some item" "ca_uid (ap_info item) = ca_uid info" by (auto simp: shown_uids_def)
  have "a \<in> set (apply_rows (apage w))" using ok a(1) by (auto simp: window_ok_def requests_ok_def page_wf_def)
  with a show "\<exists>a \<in> set (apply_rows (apage w)). \<exists>item. apply_items (apage w) a = Some item \<and> ca_uid (ap_info item) = ca_uid info" by blast
qed

text \<open>
  An answer to a search, in a reachable window whose event loop has run: while a search is pending,
  an error answer ends it, closes the loading dialog and shows the dialog ``not found'' when the error is
  the one for an unknown uid; with no search pending, any answer makes the client use the pointer of a
  loading dialog that does not exist.
\<close>

theorem search_answers:
  assumes "(win_step E)\<^sup>*\<^sup>* (new_ClientWindow c) v" "no_requests c"
  defines "w \<equiv> event_loop v"
  shows "(\<not> send_pending (slist w) \<longrightarrow> handleMsg (window_table E) 1009 data w = Some (Crash, w)) \<and>
    (send_pending (slist w) \<longrightarrow> q_fromJson (win_qt E) data = Some j \<longrightarrow> q_contains (win_qt E) j ''error'' \<longrightarrow>
     q_toInt (win_qt E) (q_value (win_qt E) j ''error'') = err \<longrightarrow> err \<noteq> 0 \<longrightarrow>
     (\<exists>t. handleMsg (window_table E) 1009 data w = Some (Val (), t) \<and> dlg t = dlg w \<and>
        slist t = (slist w)\<lparr>send_pending := False, loading_dlg := Leaving, find_failed := (find_failed (slist w) \<or> err = 1010)\<rparr>))"
proof -
  have h: "handleMsg (window_table E) 1009 data = searchUserRsp E data"
    by (simp add: fun_eq_iff handleMsg_def window_table_find window_handlers_def)
  have ok: "search_wf (slist v)" using window_ok_reachable [OF assms(1,2)] by (simp add: window_ok_def)
  have "loading_dlg (slist w) \<noteq> Leaving" "send_pending (slist w) \<longleftrightarrow> loading_dlg (slist w) = Shown"
    using ok by (auto simp: w_def event_loop_def search_wf_def)
  then show ?thesis
    unfolding h by (auto simp: searchUserRsp_def run_opt_def waitPending_def bnd_def gets_def crash_def on_slist_def upd_def Let_def)
qed

section \<open>The search box\<close>

text \<open>Texts that the box has one after the other.\<close>

fun type_all :: "window_env \<Rightarrow> string list \<Rightarrow> ClientWindow slot" where
  "type_all E [] w = Some (Val (), w)"
| "type_all E (str # strs) w = Option.bind (set_search_edit E str w) (\<lambda>(r, t). if r = Val () then type_all E strs t else Some (r, t))"

lemma search_edit_short:
  assumes "length str \<le> 20"
  shows "set_search_edit E str w = Some (Val (), if str = search_edit w then w else
    slot_search_edit_text_changed (w\<lparr>search_edit := str, slist := (slist w)\<lparr>search_edit_text := str\<rparr>\<rparr>))"
  using assms by (subst set_search_edit.simps) (auto simp: Let_def sendMessage_commands bnd_def on_slist_def upd_def)

lemma typing_goes_on:
  assumes "search_edit w \<noteq> []" "user_index w = SEARCH_LIST" "\<forall>x \<in> set texts. x \<noteq> [] \<and> length x \<le> 20"
  shows "\<exists>t. type_all E texts w = Some (Val (), t) \<and> search_edit t \<noteq> [] \<and> user_index t = SEARCH_LIST \<and>
    last_index t = (if last_index w = 0 \<and> remdups_adj (search_edit w # texts) \<noteq> [search_edit w] then SEARCH_LIST else last_index w)"
  using assms
proof (induction texts arbitrary: w)
  case (Cons x xs)
  let ?v = "if x = search_edit w then w else
    slot_search_edit_text_changed (w\<lparr>search_edit := x, slist := (slist w)\<lparr>search_edit_text := x\<rparr>\<rparr>)"
  have v: "set_search_edit E x w = Some (Val (), ?v)" using Cons.prems(3) by (intro search_edit_short) simp
  have e: "search_edit ?v = x" "user_index ?v = SEARCH_LIST" using Cons.prems by (auto simp: slot_search_edit_text_changed_def)
  have l: "last_index ?v = (if last_index w = 0 \<and> x \<noteq> search_edit w then SEARCH_LIST else last_index w)"
    using Cons.prems by (simp add: slot_search_edit_text_changed_def)
  obtain t where t: "type_all E xs ?v = Some (Val (), t)" "search_edit t \<noteq> []" "user_index t = SEARCH_LIST"
    "last_index t = (if last_index ?v = 0 \<and> remdups_adj (x # xs) \<noteq> [x] then SEARCH_LIST else last_index ?v)"
    using Cons.IH [of ?v] Cons.prems e by auto
  have "last_index t = (if last_index w = 0 \<and> remdups_adj (search_edit w # x # xs) \<noteq> [search_edit w] then SEARCH_LIST else last_index w)"
    using t(4) l by (auto simp: page_indices)
  with t v show ?case by auto
qed simp

text \<open>
  Typing in the search box, one or more short texts, and clearing it: the list that was shown before is
  shown again, except for the list of favourites, which has index 0 in the form: the second different text
  takes the search list for the one to return to, and it stays.
\<close>

theorem search_box_cleared:
  assumes "search_edit w = []" "last_index w = 0" "texts \<noteq> []" "\<forall>x \<in> set texts. x \<noteq> [] \<and> length x \<le> 20"
  shows "\<exists>t. type_all E (texts @ [[]]) w = Some (Val (), t) \<and> search_edit t = [] \<and> last_index t = 0 \<and>
    user_index t = (if user_index w = COLLECT_LIST \<and> length (remdups_adj texts) > 1 then SEARCH_LIST else user_index w)"
proof -
  obtain x xs where x: "texts = x # xs" using assms(3) by (cases texts) auto
  let ?v = "slot_search_edit_text_changed (w\<lparr>search_edit := x, slist := (slist w)\<lparr>search_edit_text := x\<rparr>\<rparr>)"
  have v: "set_search_edit E x w = Some (Val (), ?v)" using search_edit_short [of x E w] assms(1,4) x by auto
  have e: "search_edit ?v = x" "user_index ?v = SEARCH_LIST" "last_index ?v = user_index w" "x \<noteq> []"
    using assms x by (auto simp: slot_search_edit_text_changed_def)
  obtain u where u: "type_all E xs ?v = Some (Val (), u)" "search_edit u \<noteq> []"
    "last_index u = (if user_index w = 0 \<and> remdups_adj (x # xs) \<noteq> [x] then SEARCH_LIST else user_index w)"
    using typing_goes_on [of ?v xs E] e assms(4) x by auto
  let ?t = "slot_search_edit_text_changed (u\<lparr>search_edit := [], slist := (slist u)\<lparr>search_edit_text := []\<rparr>\<rparr>)"
  have t: "set_search_edit E [] u = Some (Val (), ?t)" using search_edit_short [of "[]" E u] u(2) by auto
  have app: "type_all E (xs @ ys) w1 = type_all E ys w2" if "type_all E xs w1 = Some (Val (), w2)" for xs ys w1 w2
    using that by (induction xs arbitrary: w1) (auto simp: bind_eq_Some_conv split: if_splits)
  have "type_all E (texts @ [[]]) w = Some (Val (), ?t)" using v app [OF u(1), of "[[]]"] t by (simp add: x)
  moreover have "length (remdups_adj texts) > 1 \<longleftrightarrow> remdups_adj (x # xs) \<noteq> [x]"
    using remdups_adj_length_ge1 [of texts] assms(3) by (cases "remdups_adj (x # xs)") (auto simp: x hd_remdups_adj dest: arg_cong [where f = hd])
  ultimately show ?thesis using u(3) by (intro exI [of _ ?t]) (auto simp: slot_search_edit_text_changed_def page_indices)
qed

section \<open>Examples of the window\<close>

definition window_note :: json where
  "window_note = JObj [(''error'', JInt 0), (''applyuid'', JInt 7), (''name'', JStr ''bo'')]"

lemma no_requests_demo: "no_requests page_chat"
  by (simp add: no_requests_def page_chat_def new_UserMgr_def)

theorem requests_are_shown_witness:
  "\<exists>w. (win_step window_demo_env)\<^sup>*\<^sup>* (new_ClientWindow page_chat) w \<and> map ca_uid (GetApplyList (win_umgr w)) = [7] \<and>
     (\<exists>a \<in> set (apply_rows (apage w)). \<exists>item. apply_items (apage w) a = Some item \<and> ca_uid (ap_info item) = 7)"
proof -
  let ?E = window_demo_env and ?w = "new_ClientWindow page_chat" and ?data = "toStyledString ref_json window_note"
  let ?t = "snd (win_NotifyAddFriendReq ?E ?data ?w)"
  have f: "fst (win_NotifyAddFriendReq ?E ?data ?w) = Val ()" and g: "map ca_uid (GetApplyList (win_umgr ?t)) = [7]"
    by (simp_all add: win_NotifyAddFriendReq_def NotifyAddFriendReq_def with_reply_def window_demo_env_def dialog_demo_env_def ref_qt_def ref_json_def
        window_note_def jfield_def prog_defs on_dlg_def AlreadyApply_def AddApplyList_def AddNewApply_def on_apage_def dlg_umgr_def on_mgr_def
        on_client_def on_umgr_def new_ClientWindow_def new_ChatDialog_def page_chat_def new_UserMgr_def win_umgr_def GetApplyList_def
        INT_MIN_def INT_MAX_def Let_def)
  have "handleMsg (window_table ?E) 1012 ?data ?w = Some (Val (), ?t)"
    using f by (simp add: handleMsg_def window_table_find window_handlers_def slot_of_def prod_eq_iff)
  then have r: "(win_step ?E)\<^sup>*\<^sup>* ?w ?t" by (blast intro: win_step.from_server)
  have "7 \<in> ca_uid ` set (GetApplyList (win_umgr ?t))" using g by (metis list.set_map list.set_intros(1))
  then show ?thesis using r g requests_are_shown [OF r no_requests_demo] by force
qed

theorem search_answers_witness:
  "handleMsg (window_table window_demo_env) 1009 [] (event_loop (new_ClientWindow page_chat)) = Some (Crash, event_loop (new_ClientWindow page_chat)) \<and>
   (\<exists>w t. (win_step window_demo_env)\<^sup>*\<^sup>* (new_ClientWindow page_chat) w \<and> win_sent w = [(1008, JObj [(''uid'', JStr ''42'')])] \<and>
      handleMsg (window_table window_demo_env) 1009 (toStyledString ref_json (JObj [(''error'', JInt 1010)])) (event_loop w) = Some (Val (), t) \<and>
      find_failed (slist t) \<and> \<not> send_pending (slist t))"
proof
  let ?E = window_demo_env and ?w = "new_ClientWindow page_chat"
  have "\<not> send_pending (slist (event_loop ?w))" by (simp add: event_loop_def new_ClientWindow_def new_SearchList_def)
  then show "handleMsg (window_table ?E) 1009 [] (event_loop ?w) = Some (Crash, event_loop ?w)"
    using search_answers [where E = ?E and c = page_chat and v = ?w, OF _ no_requests_demo] by blast
  define v where "v = snd (the (set_search_edit ?E ''42'' ?w))"
  define u where "u = snd (search_item_clicked (Some ADD_USER_TIP_ITEM) v)"
  have e: "set_search_edit ?E ''42'' ?w = Some (Val (), v)"
    by (simp add: v_def search_edit_short)
  have v: "slist v = new_SearchList\<lparr>search_edit_text := ''42''\<rparr>" "win_sent v = []"
    by (simp_all add: v_def search_edit_short slot_search_edit_text_changed_def new_ClientWindow_def)
  have u: "search_item_clicked (Some ADD_USER_TIP_ITEM) v = (Val (), u)" "win_sent u = [(1008, JObj [(''uid'', JStr ''42'')])]" "send_pending (slist u)"
    "loading_dlg (slist u) = Shown"
    unfolding u_def search_item_clicked_def
    by (simp_all add: v bnd_def gets_def waitPending_def on_slist_def upd_def sig_send_data_def new_SearchList_def)
  have r: "(win_step ?E)\<^sup>*\<^sup>* ?w u" using win_step.search_typed [OF e] win_step.search_clicked [OF u(1)] by (meson rtranclp.simps)
  have p: "send_pending (slist (event_loop u))" using u(3) by (simp add: event_loop_def)
  let ?j = "JObj [(''error'', JInt 1010)]"
  have j: "q_fromJson (win_qt ?E) (toStyledString ref_json ?j) = Some ?j" "q_contains (win_qt ?E) ?j ''error''"
    "q_toInt (win_qt ?E) (q_value (win_qt ?E) ?j ''error'') = 1010"
    by (simp_all add: win_qt_def window_demo_env_def dialog_demo_env_def ref_qt_def ref_json_def jfield_def INT_MIN_def INT_MAX_def)
  obtain t where "handleMsg (window_table ?E) 1009 (toStyledString ref_json ?j) (event_loop u) = Some (Val (), t)"
    "slist t = (slist (event_loop u))\<lparr>send_pending := False, loading_dlg := Leaving, find_failed := (find_failed (slist (event_loop u)) \<or> (1010::int) = 1010)\<rparr>"
    using search_answers [OF r no_requests_demo] p j by fastforce
  then show "\<exists>w t. (win_step ?E)\<^sup>*\<^sup>* ?w w \<and> win_sent w = [(1008, JObj [(''uid'', JStr ''42'')])] \<and>
      handleMsg (window_table ?E) 1009 (toStyledString ref_json ?j) (event_loop w) = Some (Val (), t) \<and> find_failed (slist t) \<and> \<not> send_pending (slist t)"
    using r u(2) by (intro exI [of _ u] exI [of _ t]) simp
qed

theorem search_box_cleared_witness:
  "(\<exists>t. type_all window_demo_env [''4'', ''42'', []] (new_ClientWindow page_chat) = Some (Val (), t) \<and> user_index t = CHAT_USER_LIST) \<and>
   (\<exists>t. type_all window_demo_env [''4'', ''42'', []] (snd (click_side_collect (new_ClientWindow page_chat))) = Some (Val (), t) \<and>
      user_index t = SEARCH_LIST)"
proof -
  let ?w = "new_ClientWindow page_chat" and ?v = "snd (click_side_collect (new_ClientWindow page_chat))"
  have "search_edit ?w = []" "last_index ?w = 0" "user_index ?w = CHAT_USER_LIST" "search_edit ?v = []" "last_index ?v = 0" "user_index ?v = COLLECT_LIST"
    by (simp_all add: new_ClientWindow_def click_side_collect_def bnd_def upd_def on_dlg_def zoom_def slot_side_collect_def)
  then show ?thesis
    using search_box_cleared [of ?w "[''4'', ''42'']" window_demo_env] search_box_cleared [of ?v "[''4'', ''42'']" window_demo_env]
    by (auto simp: page_indices)
qed

end
