(* ===== verification/ClientLogin.thy ===== *)
theory ClientLogin
  imports ClientUserMgr RedisManager Registry
begin

text \<open>
  The login window of the client (\<open>gui/auth/login/login_gui.cpp\<close>): its four forms, their checks, the
  requests to the gate server with the countdown of the code button, and the way from the gate server's
  answer to the chat server; with the HTTP manager (\<open>network/http_mgr.cpp\<close>) in between. Texts shown to
  the user are constructors of \<open>login_tip\<close>; styles, pictures, echo modes and window moves are left out.
\<close>

section \<open>State\<close>

datatype Modules = REGISTER_MOD | LOGIN_MOD

datatype HttpReqId = ID_GET_VARIFY_CODE | ID_REG_USER | ID_RESET_PWD | ID_LOGIN_USER | ID_LOGIN_EMAIL

definition ERR_JSON :: int where "ERR_JSON = 1001"
definition ERR_NETWORK :: int where "ERR_NETWORK = 1002"

datatype TipErr = TIP_SUCCESS | TIP_EMAIL_ERR | TIP_PWD_ERR | TIP_CONFIRM_ERR | TIP_PWD_CONFIRM | TIP_VARIFY_ERR | TIP_USER_ERR

datatype login_tip = UserEmpty | PwdEmpty | EmailEmpty | EmailFormat | CodeEmpty | NetworkFailed | ParamError | CodeMailed | Registered |
  PwdChanged | Connecting | LoggingIn | ServerText string

datatype tip_label = err_msg | err_msg_2 | err_msg_3 | err_msg_4

text \<open>A request that was handed to the network: path, text, and where its answer goes.\<close>

record http_post =
  post_path :: string
  post_data :: string
  post_mod :: Modules
  post_id :: HttpReqId

text \<open>
  The fields of the forms, the buttons that are switched off while a request runs, the tips, and what
  the window hands to other objects: requests, connections, data for the chat server, settings and keys.
  The three code buttons and the four frames around the tips are always switched together.
\<close>

record LoginGUI =
  lineE_user_name :: string
  user_name_edit :: string
  user_name_edit_2 :: string
  lineE_pwd :: string
  pwd_edit :: string
  pwd_edit_2 :: string
  email_edit :: string
  email_edit_2 :: string
  email_edit_3 :: string
  code_edit :: string
  code_edit_2 :: string
  code_edit_3 :: string
  remPwd_checked :: bool
  autoLogin_checked :: bool
  frame_login :: nat
  btn_login_on :: bool
  btn_email_login_on :: bool
  btn_register_on :: bool
  btn_submit_on :: bool
  getcode_on :: bool
  remaining_time :: int
  countdown_on :: bool
  tip_errs :: "TipErr \<rightharpoonup> login_tip"
  tip_labels :: "tip_label \<Rightarrow> login_tip option \<times> bool"
  frames_shown :: bool
  login_uid :: int
  login_token :: string
  http_posts :: "http_post list"
  tcp_connects :: "(string \<times> 16 word) list"
  tcp_sent :: "(int \<times> string) list"
  login_state :: "(string \<times> bool \<times> bool) option"
  stored_keys :: "(string \<times> string) list"

text \<open>What Qt does: JSON in both directions, whether a document counts as empty, the hash in hexadecimal.\<close>

record login_env =
  login_qt :: qt_json
  q_toJson :: "json \<Rightarrow> string"
  q_isEmpty :: "json \<Rightarrow> bool"
  sha256_hex :: "string \<Rightarrow> string"

text \<open>jsoncpp reads what Qt printed, and a document with members is not empty for Qt.\<close>

definition qt_prints :: "login_env \<Rightarrow> jsoncpp \<Rightarrow> bool" where
  "qt_prints L J \<longleftrightarrow> (\<forall>kvs. \<exists>v. jparse J (q_toJson L (JObj kvs)) = (True, v) \<and> json_same v (JObj kvs)) \<and>
     (\<forall>kvs. kvs \<noteq> [] \<longrightarrow> \<not> q_isEmpty L (JObj kvs))"

definition new_LoginGUI :: LoginGUI where
  "new_LoginGUI = \<lparr>lineE_user_name = [], user_name_edit = [], user_name_edit_2 = [], lineE_pwd = [], pwd_edit = [], pwd_edit_2 = [],
     email_edit = [], email_edit_2 = [], email_edit_3 = [], code_edit = [], code_edit_2 = [], code_edit_3 = [],
     remPwd_checked = False, autoLogin_checked = False, frame_login = 0, btn_login_on = True, btn_email_login_on = True,
     btn_register_on = True, btn_submit_on = True, getcode_on = True, remaining_time = 60, countdown_on = False,
     tip_errs = Map.empty, tip_labels = (\<lambda>_. (None, True)), frames_shown = False, login_uid = 0, login_token = [],
     http_posts = [], tcp_connects = [], tcp_sent = [], login_state = None, stored_keys = []\<rparr>"

section \<open>HTTP manager\<close>

record 's HttpMgr =
  modules_handlers :: "Modules \<rightharpoonup> (HttpReqId \<Rightarrow> json \<Rightarrow> int \<Rightarrow> ('s, unit) prog)"

definition registerModulesHandlers :: "Modules \<Rightarrow> (HttpReqId \<Rightarrow> json \<Rightarrow> int \<Rightarrow> ('s, unit) prog) \<Rightarrow> 's HttpMgr \<Rightarrow> 's HttpMgr" where
  "registerModulesHandlers mdl h H = H\<lparr>modules_handlers := (modules_handlers H)(mdl \<mapsto> h)\<rparr>"

definition unregisterModulesHandlers :: "Modules \<Rightarrow> 's HttpMgr \<Rightarrow> 's HttpMgr" where
  "unregisterModulesHandlers mdl H = H\<lparr>modules_handlers := (modules_handlers H)(mdl := None)\<rparr>"

interpretation http_modules: erasable "modules_handlers :: 's HttpMgr \<Rightarrow> _" registerModulesHandlers unregisterModulesHandlers
  by unfold_locales (auto simp: registerModulesHandlers_def unregisterModulesHandlers_def)

definition postHttpReq :: "login_env \<Rightarrow> string \<Rightarrow> json \<Rightarrow> Modules \<Rightarrow> HttpReqId \<Rightarrow> LoginGUI \<Rightarrow> LoginGUI" where
  "postHttpReq E path json mdl req_id s =
     s\<lparr>http_posts := http_posts s @ [\<lparr>post_path = path, post_data = q_toJson E json, post_mod = mdl, post_id = req_id\<rparr>]\<rparr>"

text \<open>
  The handler of a module that was never registered is an empty function object; calling it throws
  through the event loop, which ends the program.
\<close>

definition slot_http_finish :: "login_env \<Rightarrow> 's HttpMgr \<Rightarrow> Modules \<Rightarrow> HttpReqId \<Rightarrow> string \<Rightarrow> int \<Rightarrow> ('s, unit) prog" where
  "slot_http_finish E H mdl req_id res err =
     (let (err', json_obj) =
        (case q_fromJson (login_qt E) res of
           Some (JObj kvs) \<Rightarrow> (if q_isEmpty E (JObj kvs) then ERR_JSON else err, JObj kvs)
         | _ \<Rightarrow> (ERR_JSON, JObj [])) in
      case modules_handlers H mdl of
        None \<Rightarrow> crash
      | Some handler \<Rightarrow> handler req_id json_obj err')"

text \<open>The lambda of \<open>postHttpReq\<close>; no text stands for a network error.\<close>

definition http_finished :: "login_env \<Rightarrow> 's HttpMgr \<Rightarrow> http_post \<Rightarrow> string option \<Rightarrow> ('s, unit) prog" where
  "http_finished E H post reply =
     (case reply of
        None \<Rightarrow> slot_http_finish E H (post_mod post) (post_id post) [] ERR_NETWORK
      | Some res \<Rightarrow> slot_http_finish E H (post_mod post) (post_id post) res 0)"

section \<open>Tips\<close>

definition showTip :: "login_tip \<Rightarrow> bool \<Rightarrow> tip_label \<Rightarrow> LoginGUI \<Rightarrow> LoginGUI" where
  "showTip tip is_ok label s = s\<lparr>frames_shown := True, tip_labels := (tip_labels s)(label := (Some tip, is_ok))\<rparr>"

definition show_on :: "tip_label list \<Rightarrow> login_tip \<Rightarrow> bool \<Rightarrow> LoginGUI \<Rightarrow> LoginGUI" where
  "show_on labels tip is_ok = fold (showTip tip is_ok) labels"

definition all_labels :: "tip_label list" where
  "all_labels = [err_msg, err_msg_2, err_msg_3, err_msg_4]"

definition AddTipErr :: "TipErr \<Rightarrow> login_tip \<Rightarrow> LoginGUI \<Rightarrow> LoginGUI" where
  "AddTipErr te tips s = show_on all_labels tips False (s\<lparr>tip_errs := (tip_errs s)(te \<mapsto> tips)\<rparr>)"

text \<open>\<open>QMap::first\<close>: the entry with the smallest key.\<close>

definition first_tip :: "(TipErr \<rightharpoonup> login_tip) \<Rightarrow> login_tip option" where
  "first_tip m = Option.bind (find (\<lambda>te. m te \<noteq> None)
     [TIP_SUCCESS, TIP_EMAIL_ERR, TIP_PWD_ERR, TIP_CONFIRM_ERR, TIP_PWD_CONFIRM, TIP_VARIFY_ERR, TIP_USER_ERR]) m"

definition DelTipErr :: "TipErr \<Rightarrow> LoginGUI \<Rightarrow> LoginGUI" where
  "DelTipErr te s =
     (let t = s\<lparr>tip_errs := (tip_errs s)(te := None)\<rparr> in
      case first_tip (tip_errs t) of
        None \<Rightarrow> t\<lparr>tip_labels := (\<lambda>l. (None, snd (tip_labels t l))), frames_shown := False\<rparr>
      | Some tip \<Rightarrow> show_on all_labels tip False t)"

section \<open>Checks\<close>

definition check :: "TipErr \<Rightarrow> (LoginGUI \<Rightarrow> login_tip option) \<Rightarrow> (LoginGUI, bool) prog" where
  "check te wrong =
     bnd (gets wrong) (\<lambda>x.
     case x of
       Some tip \<Rightarrow> bnd (upd (AddTipErr te tip)) (\<lambda>_. ret False)
     | None \<Rightarrow> bnd (upd (DelTipErr te)) (\<lambda>_. ret True))"

definition checkUserValid :: "(LoginGUI, bool) prog" where
  "checkUserValid = check TIP_USER_ERR (\<lambda>s.
     if lineE_user_name s = [] \<and> user_name_edit s = [] \<and> user_name_edit_2 s = [] then Some UserEmpty else None)"

definition checkPassValid :: "(LoginGUI, bool) prog" where
  "checkPassValid = check TIP_PWD_ERR (\<lambda>s. if lineE_pwd s = [] \<and> pwd_edit s = [] \<and> pwd_edit_2 s = [] then Some PwdEmpty else None)"

text \<open>The expression of the validators, \<open>[a-zA-Z0-9-_]+@[a-zA-Z0-9-_]+\.[a-zA-Z]+\<close>, on the whole text.\<close>

definition mail_char :: "char \<Rightarrow> bool" where
  "mail_char c \<longleftrightarrow> is_alnum c \<or> c = CHR ''-'' \<or> c = CHR ''_''"

definition email_acceptable :: "string \<Rightarrow> bool" where
  "email_acceptable s =
     (let name = takeWhile mail_char s; r = dropWhile mail_char s; host = takeWhile mail_char (tl r); r' = dropWhile mail_char (tl r) in
      name \<noteq> [] \<and> r \<noteq> [] \<and> hd r = CHR ''@'' \<and> host \<noteq> [] \<and> r' \<noteq> [] \<and> hd r' = CHR ''.'' \<and> tl r' \<noteq> [] \<and> list_all is_alpha (tl r'))"

definition checkEmailValid :: "(LoginGUI, bool) prog" where
  "checkEmailValid = check TIP_EMAIL_ERR (\<lambda>s.
     if email_edit s = [] \<and> email_edit_2 s = [] \<and> email_edit_3 s = [] then Some EmailEmpty
     else if \<not> email_acceptable (email_edit s) \<and> \<not> email_acceptable (email_edit_2 s) \<and> \<not> email_acceptable (email_edit_3 s)
     then Some EmailFormat else None)"

definition checkVarifyValid :: "(LoginGUI, bool) prog" where
  "checkVarifyValid = check TIP_VARIFY_ERR (\<lambda>s.
     if code_edit s = [] \<and> code_edit_2 s = [] \<and> code_edit_3 s = [] then Some CodeEmpty else None)"

text \<open>\<open>if (!c1 || !c2 ...) return;\<close>\<close>

fun guarded :: "(LoginGUI, bool) prog list \<Rightarrow> (LoginGUI \<Rightarrow> LoginGUI) \<Rightarrow> (LoginGUI, unit) prog" where
  "guarded [] body = upd body"
| "guarded (c # cs) body = bnd c (\<lambda>ok. if ok then guarded cs body else ret ())"

section \<open>Requests\<close>

definition saveLoginState :: "string \<Rightarrow> bool \<Rightarrow> bool \<Rightarrow> LoginGUI \<Rightarrow> LoginGUI" where
  "saveLoginState username remember autoLogin s = s\<lparr>login_state := Some (if remember then username else [], remember, autoLogin)\<rparr>"

definition login_request :: "login_env \<Rightarrow> string \<Rightarrow> string \<Rightarrow> json" where
  "login_request E username password = jset ''password'' (JStr (sha256_hex E password)) (jset ''username'' (JStr username) (JObj []))"

definition account_request :: "login_env \<Rightarrow> string \<Rightarrow> string \<Rightarrow> string \<Rightarrow> string \<Rightarrow> json" where
  "account_request E username password email code =
     jset ''code'' (JStr (c_str code)) (jset ''email'' (JStr (c_str email)) (
     jset ''password'' (JStr (sha256_hex E password)) (jset ''username'' (JStr (c_str username)) (JObj []))))"

definition login_body :: "login_env \<Rightarrow> LoginGUI \<Rightarrow> LoginGUI" where
  "login_body E s =
     (let username = c_str (lineE_user_name s);
         s1 = postHttpReq E ''/user_login'' (login_request E username (lineE_pwd s)) LOGIN_MOD ID_LOGIN_USER (s\<lparr>btn_login_on := False\<rparr>);
         s2 = saveLoginState username (remPwd_checked s) (autoLogin_checked s) s1 in
      if remPwd_checked s \<or> autoLogin_checked s then s2\<lparr>stored_keys := stored_keys s2 @ [(username, lineE_pwd s)]\<rparr> else s2)"

definition login :: "login_env \<Rightarrow> (LoginGUI, unit) prog" where
  "login E = guarded [checkUserValid, checkPassValid] (login_body E)"

definition attemptAutoLogin :: "login_env \<Rightarrow> string \<Rightarrow> string \<Rightarrow> (LoginGUI, unit) prog" where
  "attemptAutoLogin E username password = upd (\<lambda>s.
     saveLoginState username (remPwd_checked s) False
       (postHttpReq E ''/user_login'' (login_request E username password) LOGIN_MOD ID_LOGIN_USER (s\<lparr>btn_login_on := False\<rparr>)))"

definition emailLogin :: "login_env \<Rightarrow> (LoginGUI, unit) prog" where
  "emailLogin E = guarded [checkEmailValid, checkVarifyValid] (\<lambda>s.
     postHttpReq E ''/email_login'' (jset ''code'' (JStr (c_str (code_edit_2 s))) (jset ''email'' (JStr (c_str (email_edit_2 s))) (JObj [])))
       LOGIN_MOD ID_LOGIN_EMAIL (s\<lparr>btn_email_login_on := False\<rparr>))"

definition registerReq :: "login_env \<Rightarrow> (LoginGUI, unit) prog" where
  "registerReq E = guarded [checkUserValid, checkPassValid, checkVarifyValid, checkEmailValid] (\<lambda>s.
     postHttpReq E ''/user_register'' (account_request E (user_name_edit s) (pwd_edit s) (email_edit s) (code_edit s))
       REGISTER_MOD ID_REG_USER (s\<lparr>btn_register_on := False\<rparr>))"

definition forgetPassword :: "login_env \<Rightarrow> (LoginGUI, unit) prog" where
  "forgetPassword E = guarded [checkUserValid, checkPassValid, checkVarifyValid, checkEmailValid] (\<lambda>s.
     postHttpReq E ''/reset_pwd'' (account_request E (user_name_edit_2 s) (pwd_edit_2 s) (email_edit_3 s) (code_edit_3 s))
       REGISTER_MOD ID_RESET_PWD (s\<lparr>btn_submit_on := False\<rparr>))"

definition page_email :: "LoginGUI \<Rightarrow> string" where
  "page_email s = (if frame_login s = 1 then email_edit_2 s else if frame_login s = 2 then email_edit s
     else if frame_login s = 3 then email_edit_3 s else [])"

definition getCode :: "login_env \<Rightarrow> (LoginGUI, unit) prog" where
  "getCode E = guarded [checkEmailValid] (\<lambda>s.
     (postHttpReq E ''/get_varifycode'' (jset ''email'' (JStr (c_str (page_email s))) (JObj [])) REGISTER_MOD ID_GET_VARIFY_CODE s)
       \<lparr>getcode_on := False, countdown_on := True, remaining_time := 60\<rparr>)"

definition updateButton :: "(LoginGUI, unit) prog" where
  "updateButton = upd (\<lambda>s.
     let t = s\<lparr>remaining_time := remaining_time s - 1\<rparr> in
     if remaining_time t \<le> 0 then t\<lparr>countdown_on := False, getcode_on := True\<rparr> else t)"

text \<open>\<open>loginPage\<close>, \<open>emailPage\<close>, \<open>registerPage\<close> and \<open>forgetPage\<close> are pages 0 to 3.\<close>

definition show_page :: "nat \<Rightarrow> (LoginGUI, unit) prog" where
  "show_page i = upd (\<lambda>s. s\<lparr>frames_shown := False, frame_login := i\<rparr>)"

definition loginPage :: "(LoginGUI, unit) prog" where "loginPage = show_page 0"
definition emailPage :: "(LoginGUI, unit) prog" where "emailPage = show_page 1"
definition registerPage :: "(LoginGUI, unit) prog" where "registerPage = show_page 2"
definition forgetPage :: "(LoginGUI, unit) prog" where "forgetPage = show_page 3"

section \<open>Answers\<close>

definition no_answer :: "int \<Rightarrow> bool" where
  "no_answer err \<longleftrightarrow> err = ERR_NETWORK \<or> err = ERR_JSON"

definition reg_done :: "qt_json \<Rightarrow> json \<Rightarrow> login_tip \<Rightarrow> login_tip option \<Rightarrow> LoginGUI \<Rightarrow> LoginGUI" where
  "reg_done Q res success failure =
     (let labels = [err_msg_2, err_msg_3, err_msg_4] in
      if q_toInt Q (q_value Q res ''error'') \<noteq> 0 then
        show_on labels (case failure of Some tip \<Rightarrow> tip | None \<Rightarrow> ServerText (q_toString Q (q_value Q res ''error_msg''))) False
      else show_on labels success True)"

definition regModCallback :: "qt_json \<Rightarrow> HttpReqId \<Rightarrow> json \<Rightarrow> int \<Rightarrow> (LoginGUI, unit) prog" where
  "regModCallback Q req_id res err =
     bnd (upd (\<lambda>s. s\<lparr>btn_register_on := True, btn_submit_on := True\<rparr>)) (\<lambda>_.
     if no_answer err then upd (show_on [err_msg_2, err_msg_3, err_msg_4] NetworkFailed False)
     else
       (case req_id of
          ID_GET_VARIFY_CODE \<Rightarrow> upd (reg_done Q res CodeMailed (Some ParamError))
        | ID_REG_USER \<Rightarrow> upd (reg_done Q res Registered None)
        | ID_RESET_PWD \<Rightarrow> upd (reg_done Q res PwdChanged None)
        | _ \<Rightarrow> ret ()))"

text \<open>The port is an \<open>int\<close> in the answer and a \<open>uint16_t\<close> in \<open>sig_connect_tcp\<close>.\<close>

definition loginModCallback :: "qt_json \<Rightarrow> HttpReqId \<Rightarrow> json \<Rightarrow> int \<Rightarrow> (LoginGUI, unit) prog" where
  "loginModCallback Q req_id res err =
     bnd (upd (\<lambda>s. s\<lparr>btn_login_on := True, btn_email_login_on := True\<rparr>)) (\<lambda>_.
     if no_answer err then upd (show_on all_labels NetworkFailed False)
     else if req_id = ID_LOGIN_USER \<or> req_id = ID_LOGIN_EMAIL then
       if q_toInt Q (q_value Q res ''error'') \<noteq> 0 then
         upd (show_on [err_msg, err_msg_3] (ServerText (q_toString Q (q_value Q res ''error_msg''))) False)
       else
         bnd (upd (\<lambda>s. s\<lparr>login_uid := q_toInt Q (q_value Q res ''uid''), login_token := q_toString Q (q_value Q res ''token'')\<rparr>)) (\<lambda>_.
         bnd (upd (show_on [err_msg, err_msg_3] Connecting True)) (\<lambda>_.
         upd (\<lambda>s. s\<lparr>tcp_connects := tcp_connects s @ [(q_toString Q (q_value Q res ''host''), word_of_int (q_toInt Q (q_value Q res ''port'')))]\<rparr>)))
     else ret ())"

definition slot_tcp_con_finish :: "login_env \<Rightarrow> bool \<Rightarrow> string \<Rightarrow> (LoginGUI, unit) prog" where
  "slot_tcp_con_finish E bsuccess error_msg =
     (if bsuccess then
        bnd (upd (show_on [err_msg, err_msg_3] LoggingIn True)) (\<lambda>_.
        upd (\<lambda>s. s\<lparr>tcp_sent := tcp_sent s @ [(1006, q_toJson E (jset ''token'' (JStr (login_token s)) (jset ''uid'' (JInt (login_uid s)) (JObj []))))]\<rparr>))
      else upd (show_on [err_msg, err_msg_3] (ServerText error_msg) False))"

definition login_modules :: "qt_json \<Rightarrow> LoginGUI HttpMgr" where
  "login_modules Q = registerModulesHandlers LOGIN_MOD (loginModCallback Q)
     (registerModulesHandlers REGISTER_MOD (regModCallback Q) \<lparr>modules_handlers = Map.empty\<rparr>)"

section \<open>What the checks change\<close>

definition only_tips :: "LoginGUI \<Rightarrow> LoginGUI \<Rightarrow> bool" where
  "only_tips s t \<longleftrightarrow> (\<exists>a b c. t = s\<lparr>tip_errs := a, tip_labels := b, frames_shown := c\<rparr>)"

lemma only_tipsI: "t = s\<lparr>tip_errs := a, tip_labels := b, frames_shown := c\<rparr> \<Longrightarrow> only_tips s t"
  by (auto simp: only_tips_def)

lemma only_tips_refl [simp]: "only_tips s s"
  by (rule only_tipsI [where a = "tip_errs s" and b = "tip_labels s" and c = "frames_shown s"]) simp

lemma only_tips_trans:
  assumes "only_tips s t" "only_tips t u"
  shows "only_tips s u"
proof -
  obtain a b c where "t = s\<lparr>tip_errs := a, tip_labels := b, frames_shown := c\<rparr>" using assms(1) by (auto simp: only_tips_def)
  moreover obtain a' b' c' where "u = t\<lparr>tip_errs := a', tip_labels := b', frames_shown := c'\<rparr>" using assms(2) by (auto simp: only_tips_def)
  ultimately show ?thesis by (intro only_tipsI [where a = a' and b = b' and c = c']) simp
qed

lemma show_on_tips: "only_tips s (show_on labels tip ok s)"
proof (induction labels arbitrary: s)
  case (Cons l ls)
  have "only_tips s (showTip tip ok l s)"
    by (rule only_tipsI [where a = "tip_errs s" and b = "(tip_labels s)(l := (Some tip, ok))" and c = True]) (simp add: showTip_def)
  then show ?case using Cons [of "showTip tip ok l s"] by (auto simp: show_on_def intro: only_tips_trans)
qed (simp add: show_on_def)

lemma tip_ops: "only_tips s (AddTipErr te tip s)" "only_tips s (DelTipErr te s)"
proof -
  have e: "only_tips s (s\<lparr>tip_errs := m\<rparr>)" for m by (rule only_tipsI [where a = m and b = "tip_labels s" and c = "frames_shown s"]) simp
  show "only_tips s (AddTipErr te tip s)" unfolding AddTipErr_def by (rule only_tips_trans [OF e show_on_tips])
  show "only_tips s (DelTipErr te s)"
    unfolding DelTipErr_def Let_def
    by (auto intro: only_tips_trans [OF e show_on_tips] only_tipsI split: option.splits)
qed

text \<open>A check succeeds when it finds nothing wrong; it changes the tips only, and not what later checks see.\<close>

definition tip_free :: "(LoginGUI \<Rightarrow> 'a) \<Rightarrow> bool" where
  "tip_free f \<longleftrightarrow> (\<forall>s a b c. f (s\<lparr>tip_errs := a, tip_labels := b, frames_shown := c\<rparr>) = f s)"

lemma check_run: obtains t where "check te wrong s = (Val (wrong s = None), t)" "only_tips s t"
  by (rule that [of "snd (check te wrong s)"]) (auto simp: check_def prog_defs tip_ops split: option.splits)

lemma guarded_run:
  assumes "\<forall>(te, w) \<in> set cs. tip_free w"
  obtains t where "only_tips s t"
    "guarded (map (\<lambda>(te, w). check te w) cs) body s = (Val (), if \<forall>(te, w) \<in> set cs. w s = None then body t else t)"
  using assms
proof (induction cs arbitrary: s thesis)
  case Nil
  show ?case by (rule Nil(1) [of s]) (simp_all add: upd_def)
next
  case (Cons c cs)
  obtain te w where c: "c = (te, w)" by fastforce
  obtain t1 where t1: "check te w s = (Val (w s = None), t1)" "only_tips s t1" by (rule check_run)
  obtain t where t: "only_tips t1 t"
      "guarded (map (\<lambda>(te, w). check te w) cs) body t1 = (Val (), if \<forall>(te, w) \<in> set cs. w t1 = None then body t else t)"
    by (rule Cons.IH [of t1]) (use Cons(3) in auto)
  have "w' t1 = w' s" if "(te', w') \<in> set cs" for te' w'
  proof -
    have "tip_free w'" using Cons(3) that by auto
    then show ?thesis using t1(2) by (auto simp: only_tips_def tip_free_def)
  qed
  then have same: "(\<forall>(te, w) \<in> set cs. w t1 = None) = (\<forall>(te, w) \<in> set cs. w s = None)"
    by (intro ball_cong refl) (clarsimp, metis)
  show ?case
  proof (cases "w s = None")
    case True
    show ?thesis by (rule Cons(2) [OF only_tips_trans [OF t1(2) t(1)]]) (use True t t1 in \<open>simp_all add: c bnd_def same\<close>)
  next
    case False
    show ?thesis by (rule Cons(2) [OF t1(2)]) (use False t1 in \<open>auto simp: c bnd_def ret_def\<close>)
  qed
qed

lemma keeps_guarded:
  "(\<And>c. c \<in> set cs \<Longrightarrow> keeps I c) \<Longrightarrow> (\<And>s. I s \<Longrightarrow> I (body s)) \<Longrightarrow> keeps I (guarded cs body)"
  by (induction cs) (auto intro!: keeps_bnd keeps_upd)

section \<open>The login form\<close>

lemma name_password_free:
  "tip_free (\<lambda>s. if lineE_user_name s = [] \<and> user_name_edit s = [] \<and> user_name_edit_2 s = [] then Some UserEmpty else None)"
  "tip_free (\<lambda>s. if lineE_pwd s = [] \<and> pwd_edit s = [] \<and> pwd_edit_2 s = [] then Some PwdEmpty else None)"
  by (simp_all add: tip_free_def)

text \<open>
  What the login button does: one request goes to \<open>/user_login\<close>, with the name of the login form cut at
  a null character and the hash of its password, exactly when one of the three name fields and one of
  the three password fields of the window is filled; otherwise nothing is sent. The name and the
  password in the request may be empty, when only another form is filled.
\<close>

definition filled :: "LoginGUI \<Rightarrow> bool" where
  "filled s \<longleftrightarrow> (lineE_user_name s \<noteq> [] \<or> user_name_edit s \<noteq> [] \<or> user_name_edit_2 s \<noteq> []) \<and>
     (lineE_pwd s \<noteq> [] \<or> pwd_edit s \<noteq> [] \<or> pwd_edit_2 s \<noteq> [])"

definition login_post :: "login_env \<Rightarrow> LoginGUI \<Rightarrow> http_post" where
  "login_post E s = \<lparr>post_path = ''/user_login'', post_data = q_toJson E (login_request E (c_str (lineE_user_name s)) (lineE_pwd s)),
     post_mod = LOGIN_MOD, post_id = ID_LOGIN_USER\<rparr>"

lemma login_outcome:
  obtains t where "only_tips s t" "login E s = (Val (), if filled s then login_body E t else t)"
proof -
  let ?cs = "[(TIP_USER_ERR, \<lambda>s. if lineE_user_name s = [] \<and> user_name_edit s = [] \<and> user_name_edit_2 s = [] then Some UserEmpty else None),
    (TIP_PWD_ERR, \<lambda>s. if lineE_pwd s = [] \<and> pwd_edit s = [] \<and> pwd_edit_2 s = [] then Some PwdEmpty else None)]"
  obtain t where t: "only_tips s t"
      "guarded (map (\<lambda>(te, w). check te w) ?cs) (login_body E) s = (Val (), if \<forall>(te, w) \<in> set ?cs. w s = None then login_body E t else t)"
    by (rule guarded_run [of ?cs s "login_body E"]) (use name_password_free in auto)
  then have "login E s = (Val (), if filled s then login_body E t else t)"
    by (simp add: login_def checkUserValid_def checkPassValid_def filled_def split: if_splits)
  then show thesis using t(1) by (rule that [rotated])
qed

lemma login_decides:
  "\<exists>t. login E s = (Val (), t) \<and> http_posts t = http_posts s @ (if filled s then [login_post E s] else []) \<and>
     btn_login_on t = (if filled s then False else btn_login_on s) \<and> tcp_connects t = tcp_connects s \<and> tcp_sent t = tcp_sent s"
proof -
  obtain t where t: "only_tips s t" "login E s = (Val (), if filled s then login_body E t else t)" by (rule login_outcome)
  then show ?thesis
    by (auto simp: only_tips_def login_post_def login_body_def postHttpReq_def saveLoginState_def Let_def)
qed

section \<open>The answer of the gate server\<close>

lemma modules_found: "modules_handlers (login_modules Q) LOGIN_MOD = Some (loginModCallback Q)"
    "modules_handlers (login_modules Q) REGISTER_MOD = Some (regModCallback Q)"
  by (simp_all add: login_modules_def http_modules.find_put)

lemma show_on_rest [simp]:
  "login_uid (show_on ls tip ok s) = login_uid s" "login_token (show_on ls tip ok s) = login_token s"
  "tcp_connects (show_on ls tip ok s) = tcp_connects s" "tcp_sent (show_on ls tip ok s) = tcp_sent s"
  "http_posts (show_on ls tip ok s) = http_posts s" "btn_login_on (show_on ls tip ok s) = btn_login_on s"
  "getcode_on (show_on ls tip ok s) = getcode_on s" "countdown_on (show_on ls tip ok s) = countdown_on s"
  "remaining_time (show_on ls tip ok s) = remaining_time s"
  using show_on_tips [of s ls tip ok] by (auto simp: only_tips_def)

text \<open>An accepted login: the client keeps uid and token, connects to the chat server, and presents both there.\<close>

lemma login_answered:
  assumes "q_fromJson (login_qt E) res = Some (JObj kvs)" "\<not> q_isEmpty E (JObj kvs)"
    and "post_mod post = LOGIN_MOD" "post_id post = ID_LOGIN_USER \<or> post_id post = ID_LOGIN_EMAIL"
    and "q_toInt (login_qt E) (q_value (login_qt E) (JObj kvs) ''error'') = 0" "q_toInt (login_qt E) (q_value (login_qt E) (JObj kvs) ''uid'') = uid"
    and "q_toString (login_qt E) (q_value (login_qt E) (JObj kvs) ''token'') = token"
    and "q_toString (login_qt E) (q_value (login_qt E) (JObj kvs) ''host'') = host" "q_toInt (login_qt E) (q_value (login_qt E) (JObj kvs) ''port'') = port"
  shows "\<exists>t u. http_finished E (login_modules (login_qt E)) post (Some res) s = (Val (), t) \<and> btn_login_on t \<and>
    tcp_connects t = tcp_connects s @ [(host, word_of_int port)] \<and> slot_tcp_con_finish E True [] t = (Val (), u) \<and>
    tcp_sent u = tcp_sent s @ [(1006, q_toJson E (JObj [(''uid'', JInt uid), (''token'', JStr token)]))]"
  using assms by (auto simp: http_finished_def slot_http_finish_def modules_found loginModCallback_def no_answer_def ERR_JSON_def
      ERR_NETWORK_def slot_tcp_con_finish_def prog_defs)

section \<open>The countdown of the code button\<close>

text \<open>
  Events of the window. Buttons that are switched off cannot be clicked, and the timer only ticks while
  the countdown runs; typing changes the fields.
\<close>

datatype login_event = CodeClick | SecondPassed | AnyEvent

definition same_controls :: "LoginGUI \<Rightarrow> LoginGUI \<Rightarrow> bool" where
  "same_controls s t \<longleftrightarrow> http_posts t = http_posts s \<and> getcode_on t = getcode_on s \<and> countdown_on t = countdown_on s \<and>
     remaining_time t = remaining_time s"

inductive login_step :: "login_env \<Rightarrow> LoginGUI \<Rightarrow> login_event \<Rightarrow> LoginGUI \<Rightarrow> bool" for E where
  code_click: "getcode_on s \<Longrightarrow> login_step E s CodeClick (snd (getCode E s))"
| tick: "countdown_on s \<Longrightarrow> login_step E s SecondPassed (snd (updateButton s))"
| login_click: "btn_login_on s \<Longrightarrow> login_step E s AnyEvent (snd (login E s))"
| auto_login: "login_step E s AnyEvent (snd (attemptAutoLogin E username password s))"
| email_click: "btn_email_login_on s \<Longrightarrow> login_step E s AnyEvent (snd (emailLogin E s))"
| register_click: "btn_register_on s \<Longrightarrow> login_step E s AnyEvent (snd (registerReq E s))"
| submit_click: "btn_submit_on s \<Longrightarrow> login_step E s AnyEvent (snd (forgetPassword E s))"
| page_click: "p \<in> {loginPage, emailPage, registerPage, forgetPage} \<Longrightarrow> login_step E s AnyEvent (snd (p s))"
| answer: "post \<in> set (http_posts s) \<Longrightarrow> login_step E s AnyEvent (snd (http_finished E (login_modules (login_qt E)) post reply s))"
| connected: "login_step E s AnyEvent (snd (slot_tcp_con_finish E ok msg s))"
| typing: "same_controls s t \<Longrightarrow> login_step E s AnyEvent t"

inductive login_run :: "login_env \<Rightarrow> login_event list \<Rightarrow> LoginGUI \<Rightarrow> bool" for E where
  opened: "login_run E [] new_LoginGUI"
| event: "login_run E evs s \<Longrightarrow> login_step E s e t \<Longrightarrow> login_run E (evs @ [e]) t"

definition code_posts :: "LoginGUI \<Rightarrow> nat" where
  "code_posts s = length (filter (\<lambda>p. post_id p = ID_GET_VARIFY_CODE) (http_posts s))"

definition countdown_ok :: "nat \<Rightarrow> LoginGUI \<Rightarrow> bool" where
  "countdown_ok n s \<longleftrightarrow> 60 * int (code_posts s) = int n + (if countdown_on s then remaining_time s else 0) \<and>
     (countdown_on s \<longrightarrow> \<not> getcode_on s \<and> 0 < remaining_time s) \<and> remaining_time s \<le> 60"

lemma countdown_ok_same: "same_controls s t \<Longrightarrow> countdown_ok n t = countdown_ok n s"
  by (simp add: same_controls_def countdown_ok_def code_posts_def)

lemma same_controls_tips: "only_tips s t \<Longrightarrow> same_controls s t"
  by (auto simp: only_tips_def same_controls_def)

lemma keeps_countdown_check: "keeps (countdown_ok n) (check te w)"
  unfolding keeps_def by (metis check_run countdown_ok_same same_controls_tips snd_conv)

lemma countdown_post:
  assumes "i \<noteq> ID_GET_VARIFY_CODE"
  shows "countdown_ok n (postHttpReq E path j m i s) = countdown_ok n s"
  using assms by (simp add: countdown_ok_def code_posts_def postHttpReq_def)

lemma countdown_other [simp]:
  "countdown_ok n (s\<lparr>btn_login_on := b\<rparr>) = countdown_ok n s" "countdown_ok n (s\<lparr>btn_email_login_on := b\<rparr>) = countdown_ok n s"
  "countdown_ok n (s\<lparr>btn_register_on := b\<rparr>) = countdown_ok n s" "countdown_ok n (s\<lparr>btn_submit_on := b\<rparr>) = countdown_ok n s"
  "countdown_ok n (s\<lparr>stored_keys := k\<rparr>) = countdown_ok n s" "countdown_ok n (saveLoginState u r a s) = countdown_ok n s"
  "countdown_ok n (s\<lparr>login_uid := i, login_token := x\<rparr>) = countdown_ok n s" "countdown_ok n (s\<lparr>tcp_connects := cs\<rparr>) = countdown_ok n s"
  "countdown_ok n (s\<lparr>tcp_sent := ds\<rparr>) = countdown_ok n s" "countdown_ok n (s\<lparr>frames_shown := b, frame_login := f\<rparr>) = countdown_ok n s"
  "countdown_ok n (show_on ls tip ok s) = countdown_ok n s"
  by (simp_all add: countdown_ok_def code_posts_def saveLoginState_def)

lemma keeps_countdown_forms:
  "keeps (countdown_ok n) (login E)" "keeps (countdown_ok n) (attemptAutoLogin E x y)" "keeps (countdown_ok n) (emailLogin E)"
  "keeps (countdown_ok n) (registerReq E)" "keeps (countdown_ok n) (forgetPassword E)"
  unfolding login_def attemptAutoLogin_def emailLogin_def registerReq_def forgetPassword_def checkUserValid_def checkPassValid_def
    checkEmailValid_def checkVarifyValid_def
  by (intro keeps_guarded keeps_upd; auto simp: countdown_post login_body_def Let_def intro: keeps_countdown_check)+

lemma keeps_countdown_answers:
  "keeps (countdown_ok n) (http_finished E (login_modules Q) post reply)" "keeps (countdown_ok n) (slot_tcp_con_finish E ok msg)"
  "p \<in> {loginPage, emailPage, registerPage, forgetPage} \<Longrightarrow> keeps (countdown_ok n) p"
proof -
  have "keeps (countdown_ok n) (loginModCallback Q i res err)" "keeps (countdown_ok n) (regModCallback Q i res err)" for i res err
    unfolding loginModCallback_def regModCallback_def reg_done_def Let_def
    by (auto intro!: keeps_bnd keeps_upd keeps_cases split: HttpReqId.splits)
  then have "keeps (countdown_ok n) (slot_http_finish E (login_modules Q) m i res err)" for m i res err
    by (cases m) (auto simp: slot_http_finish_def modules_found Let_def split: option.splits json.splits prod.splits)
  then show "keeps (countdown_ok n) (http_finished E (login_modules Q) post reply)"
    by (auto simp: http_finished_def split: option.splits)
  show "keeps (countdown_ok n) (slot_tcp_con_finish E ok msg)"
    unfolding slot_tcp_con_finish_def by (auto intro!: keeps_bnd keeps_upd)
  show "p \<in> {loginPage, emailPage, registerPage, forgetPage} \<Longrightarrow> keeps (countdown_ok n) p"
    by (auto simp: loginPage_def emailPage_def registerPage_def forgetPage_def show_page_def intro!: keeps_upd)
qed

lemma countdown_code:
  assumes "countdown_ok n s" "getcode_on s"
  shows "countdown_ok n (snd (getCode E s))"
proof -
  have "\<exists>b t. check te w s = (Val b, t) \<and> only_tips s t" for te w by (metis check_run)
  then obtain b t where t: "checkEmailValid s = (Val b, t)" "only_tips s t" unfolding checkEmailValid_def by blast
  then have "countdown_ok n t" "getcode_on t"
    using assms countdown_ok_same [OF same_controls_tips] same_controls_tips [OF t(2)] by (auto simp: same_controls_def)
  then show ?thesis
    using t(1) by (auto simp: getCode_def bnd_def ret_def upd_def countdown_ok_def code_posts_def postHttpReq_def)
qed

lemma countdown_tick:
  assumes "countdown_ok n s" "countdown_on s"
  shows "countdown_ok (Suc n) (snd (updateButton s))"
  using assms by (auto simp: countdown_ok_def updateButton_def upd_def Let_def code_posts_def)

lemma login_step_countdown:
  assumes "login_step E s e t" "countdown_ok n s"
  shows "countdown_ok (n + (if e = SecondPassed then 1 else 0)) t"
  using assms
proof cases
  case tick
  then show ?thesis using countdown_tick assms(2) by simp
next
  case typing
  then show ?thesis using assms(2) by (simp add: countdown_ok_same)
qed (use assms(2) countdown_code keeps_countdown_forms keeps_countdown_answers in \<open>simp_all add: keeps_def\<close>)

text \<open>
  Codes are requested at most once a minute: in every run of the window, whatever is typed, clicked or
  answered, the number of requests for a verification code is at most one more than the number of whole
  minutes that the countdown has ticked.
\<close>

theorem codes_once_a_minute:
  assumes "login_run E evs s"
  shows "60 * code_posts s \<le> count_list evs SecondPassed + 60"
proof -
  have "countdown_ok (count_list evs SecondPassed) s"
    using assms
  proof induction
    case opened
    show ?case by (simp add: countdown_ok_def new_LoginGUI_def code_posts_def)
  next
    case (event evs s e t)
    then show ?case using login_step_countdown [OF event(2,3)] by (simp split: if_splits)
  qed
  then show ?thesis by (auto simp: countdown_ok_def split: if_splits)
qed

definition login_demo_env :: login_env where
  "login_demo_env = \<lparr>login_qt = ref_qt, q_toJson = toStyledString ref_json, q_isEmpty = (\<lambda>v. v = JObj []), sha256_hex = (\<lambda>x. ''h'' @ x)\<rparr>"

text \<open>A mail address is typed on the page for new accounts, and the code button clicked.\<close>

definition mail_form :: LoginGUI where
  "mail_form = new_LoginGUI\<lparr>email_edit := ''a@b.de'', frame_login := 2\<rparr>"

theorem codes_once_a_minute_witness:
  "\<exists>s. login_run login_demo_env [AnyEvent, CodeClick] s \<and> code_posts s = 1 \<and> 60 * code_posts s \<le> count_list [AnyEvent, CodeClick] SecondPassed + 60"
proof -
  have "login_run login_demo_env ([] @ [AnyEvent]) mail_form"
    by (rule login_run.event [OF login_run.opened], rule login_step.typing) (simp add: same_controls_def mail_form_def)
  moreover have "login_step login_demo_env mail_form CodeClick (snd (getCode login_demo_env mail_form))"
    by (rule login_step.code_click) (simp add: mail_form_def new_LoginGUI_def)
  ultimately have r: "login_run login_demo_env ([] @ [AnyEvent] @ [CodeClick]) (snd (getCode login_demo_env mail_form))"
    using login_run.event by force
  have "code_posts (snd (getCode login_demo_env mail_form)) = 1" by code_simp
  then show ?thesis using r codes_once_a_minute [OF r] by auto
qed

end
