(* ===== verification/FriendFlow.thy ===== *)
theory FriendFlow
  imports ChatFriends WindowInv ClientLogin
begin

text \<open>
  Making friends across the programs: from a click in one client through a handler of the chat server to
  the windows of both clients, with the documents read as Qt and jsoncpp read each other's output.
\<close>

section \<open>Documents between server and client\<close>

definition in_int :: "int \<Rightarrow> bool" where
  "in_int i \<longleftrightarrow> INT_MIN \<le> i \<and> i \<le> INT_MAX"

text \<open>What a client reads of a document of the server.\<close>

definition reads_members :: "qt_json \<Rightarrow> json \<Rightarrow> (string \<times> json) list \<Rightarrow> bool" where
  "reads_members Q v kvs \<longleftrightarrow>
     (\<forall>k. q_contains Q v k \<longleftrightarrow> map_of kvs k \<noteq> None) \<and>
     (\<forall>k i. map_of kvs k = Some (JInt i) \<longrightarrow> in_int i \<longrightarrow> q_toInt Q (q_value Q v k) = i) \<and>
     (\<forall>k x. map_of kvs k = Some (JStr x) \<longrightarrow> q_toString Q (q_value Q v k) = x) \<and>
     (kvs \<noteq> [] \<longrightarrow> v \<noteq> JNull \<and> v \<noteq> JObj [])"

lemma client_reads:
  assumes Q: "qt_documented Q" "qt_reads Q J"
  obtains v where "q_fromJson Q (toStyledString J (JObj kvs)) = Some v" "reads_members Q v kvs"
proof -
  obtain v where v: "q_fromJson Q (toStyledString J (JObj kvs)) = Some v" "json_same v (JObj kvs)"
    using Q(2) by (auto simp: qt_reads_def)
  note mem = json_same_members [OF v(2) Q(1)]
  have n: "v \<noteq> JNull" using v(2) by (auto elim: json_same_JObjE)
  have "v \<noteq> JObj []" if "kvs \<noteq> []"
  proof
    assume "v = JObj []"
    then have "map_of kvs (fst (hd kvs)) = None" using mem(1) [of "fst (hd kvs)"] Q(1) by (simp add: qt_documented_def)
    then show False using that by (cases kvs) auto
  qed
  with n show thesis
    using that [OF v(1)] mem json_same_leaf(1,2) [OF Q(1) mem(2)] by (simp add: reads_members_def in_int_def)
qed

lemma server_reads:
  assumes "json_documented J" "qt_prints L J"
  obtains v where "jparse J (q_toJson L (JObj kvs)) = (True, v)" "\<And>k x. map_of kvs k = Some (JStr x) \<Longrightarrow> field_str J v k = Some x"
    "\<And>k i. map_of kvs k = Some (JInt i) \<Longrightarrow> in_int i \<Longrightarrow> field_int J v k = Some i"
proof -
  obtain v where v: "jparse J (q_toJson L (JObj kvs)) = (True, v)" "json_same v (JObj kvs)" using assms(2) by (auto simp: qt_prints_def)
  from json_same_fields [OF v(2) assms(1)] that [OF v(1)] show thesis by (auto simp: in_int_def)
qed

lemma replied:
  assumes "q_fromJson Q data = Some v" "reads_members Q v kvs" "map_of kvs ''error'' = Some (JInt 0)"
  shows "with_reply Q data f = f v"
  using assms by (auto simp: with_reply_def reads_members_def in_int_def INT_MIN_def INT_MAX_def)

text \<open>The libraries of a server and of the clients that talk to it.\<close>

definition json_together :: "jsoncpp \<Rightarrow> login_env \<Rightarrow> window_env list \<Rightarrow> bool" where
  "json_together J L Ws \<longleftrightarrow> json_documented J \<and> qt_prints L J \<and> (\<forall>W \<in> set Ws. qt_documented (win_qt W) \<and> qt_reads (win_qt W) J)"

lemma json_togetherD:
  assumes "json_together J L Ws"
  shows "json_documented J" "qt_prints L J" "W \<in> set Ws \<Longrightarrow> qt_documented (win_qt W)" "W \<in> set Ws \<Longrightarrow> qt_reads (win_qt W) J"
  using assms by (auto simp: json_together_def)

lemma window_handler: "handleMsg (window_table E) 1012 data = slot_of (win_NotifyAddFriendReq E data)"
  "handleMsg (window_table E) 1014 data = slot_of (win_AuthFriendRsp E data)"
  "handleMsg (window_table E) 1015 data = slot_of (win_NotifyAuthFriendReq E data)"
  "handleMsg (window_table E) 1009 data = searchUserRsp E data"
  by (simp_all add: fun_eq_iff handleMsg_def window_table_find window_handlers_def)

lemma own_uid:
  assumes "user_info (win_umgr w) = Some self"
  shows "on_user_mgr GetUid w = (Val (cu_uid self), w)"
proof -
  have "w\<lparr>dlg := on_mgr (\<lambda>_. win_umgr w) (dlg w)\<rparr> = w"
    by (simp add: win_umgr_def dlg_umgr_def on_mgr_def on_client_def on_umgr_def)
  then show ?thesis using assms by (simp add: on_user_mgr_def zoom_def GetUid_def of_user_def bnd_def gets_def ret_def)
qed

section \<open>A request\<close>

definition request_json :: "int \<Rightarrow> string \<Rightarrow> string \<Rightarrow> int \<Rightarrow> json" where
  "request_json uid name bakname touid =
     JObj [(''uid'', JInt uid), (''applyname'', JStr name), (''bakname'', JStr bakname), (''touid'', JInt touid)]"

definition sent_name :: "ApplyForm \<Rightarrow> string" where
  "sent_name form = (if name_ed form = [] then name_hint else name_ed form)"

lemma apply_sure_sends:
  assumes "apply_forms w a = Some form" "user_info (win_umgr w) = Some self"
  obtains bakname where "ApplyFriend_SlotApplySure a w = (Val (), w\<lparr>win_sent := win_sent w @
      [(1010, request_json (cu_uid self) (sent_name form) bakname (si_uid (form_info form)))], apply_forms := (apply_forms w)(a := None)\<rparr>)"
  using assms own_uid [OF assms(2)]
  by (auto simp: ApplyFriend_SlotApplySure_def request_json_def sent_name_def Let_def bnd_def gets_def sig_send_data_def upd_def)

lemma request_note_shown:
  assumes Q: "qt_documented (win_qt W)" "qt_reads (win_qt W) J" and new: "\<not> AlreadyApply uid (win_umgr w)" and int: "in_int uid" "in_int (u_sex u)"
  obtains t where "handleMsg (window_table W) 1012 (toStyledString J (request_note uid name u)) w = Some (Val (), t)"
    "GetApplyList (win_umgr t) = GetApplyList (win_umgr w) @ [\<lparr>ca_uid = uid, ca_name = name, ca_desc = [], ca_icon = u_icon u,
      ca_nick = u_nick u, ca_sex = u_sex u, ca_status = 0\<rparr>]"
    "apply_rows (apage t) = next_apply (apage w) # apply_rows (apage w)"
    "\<exists>item. apply_items (apage t) (next_apply (apage w)) = Some item \<and> ca_uid (ap_info item) = uid \<and> ca_name (ap_info item) = name \<and> \<not> ap_added item"
proof -
  obtain v where v: "q_fromJson (win_qt W) (toStyledString J (request_note uid name u)) = Some v"
      "reads_members (win_qt W) v [(''error'', JInt 0), (''applyuid'', JInt uid), (''name'', JStr name), (''desc'', JStr []), (''icon'', JStr (u_icon u)),
       (''sex'', JInt (u_sex u)), (''nick'', JStr (u_nick u))]"
    unfolding request_note_def by (rule client_reads [OF Q])
  let ?info = "\<lparr>ca_uid = uid, ca_name = name, ca_desc = [], ca_icon = u_icon u, ca_nick = u_nick u, ca_sex = u_sex u, ca_status = 0\<rparr>"
  have info: "notified_request (win_qt W) v = ?info" using v(2) int by (simp add: notified_request_def reads_members_def)
  have d: "NotifyAddFriendReq (win_dialog W) (toStyledString J (request_note uid name u)) (dlg w) = (Val (), store_request ?info (dlg w))"
    using new info by (simp add: NotifyAddFriendReq_run replied [OF v, unfolded win_qt_def] win_qt_def upd_def win_umgr_def)
  have app: "applies (store_request i d) = applies d @ [i]" for i d by (simp add: store_request_def)
  define t where "t = snd (win_NotifyAddFriendReq W (toStyledString J (request_note uid name u)) w)"
  have run: "win_NotifyAddFriendReq W (toStyledString J (request_note uid name u)) w = (Val (), t)"
    unfolding t_def win_NotifyAddFriendReq_def
    by (simp add: bnd_def gets_def on_dlg_def zoom_def d app AddNewApply_def on_apage_def upd_def ret_def)
  have t: "dlg t = store_request ?info (dlg w)" "apage t = insert_apply (?info\<lparr>ca_icon := head_pic (win_dialog W) (next_apply (apage w)),
      ca_nick := name, ca_sex := 0, ca_status := 0\<rparr>) True (apage w)"
    unfolding t_def win_NotifyAddFriendReq_def
    by (simp_all add: bnd_def gets_def on_dlg_def zoom_def d app AddNewApply_def on_apage_def upd_def ret_def)
  show thesis
  proof (rule that [of t])
    show "handleMsg (window_table W) 1012 (toStyledString J (request_note uid name u)) w = Some (Val (), t)"
      by (simp add: window_handler slot_of_def run)
    show "GetApplyList (win_umgr t) = GetApplyList (win_umgr w) @ [?info]"
      by (simp add: GetApplyList_def win_umgr_def t(1) store_request_def dlg_umgr_def on_mgr_def on_client_def on_umgr_def AddApplyList_def)
  qed (simp_all add: t(2) insert_apply_def ShowAddBtn_def Let_def)
qed

text \<open>
  C9. A friend request from click to row: confirming the dialog sends the request and closes the dialog; the
  server hands it to the database and tells the other user, whose client, if it does not know a request of
  this user, stores it and shows it in the first row of the page of requests, with the name that was typed
  and a button to accept it. The asking client has no handler for the reply.
\<close>

theorem friend_request_shown:
  assumes lib: "json_together (lib_json E) L [W, W']"
    and form: "apply_forms w a = Some form" "user_info (win_umgr w) = Some self"
    and ids: "uid = cu_uid self" "touid = si_uid (form_info form)" "in_int uid" "in_int touid" "in_int (u_sex u)"
    and ready: "friend_ready E view ks uid u s" "dao_ready 1 (mysql_mgr s)" "same_server E ks touid sid c sid' c' s"
    and short: "length (toStyledString (lib_json E) (request_note uid (sent_name form) u)) \<le> 32763"
      "length (toStyledString (lib_json E) success_reply) \<le> 32763"
    and new: "\<not> AlreadyApply uid (win_umgr w')"
  shows "\<exists>w1 request t d d' told answer w2 item. ApplyFriend_SlotApplySure a w = (Val (), w1) \<and> apply_forms w1 a = None \<and>
    win_sent w1 = win_sent w @ [(1010, request)] \<and>
    AddFriendApplyHandler E sid (q_toJson L request) s = (Val (), t) \<and> session_objs t = (session_objs s)(sid \<mapsto> d, sid' \<mapsto> d') \<and>
    outbox d' = outbox c' @ [frame 1012 told] \<and> outbox d = outbox c @ [frame 1011 answer] \<and>
    handleMsg (window_table W') 1012 told w' = Some (Val (), w2) \<and>
    map ca_uid (GetApplyList (win_umgr w2)) = map ca_uid (GetApplyList (win_umgr w')) @ [uid] \<and>
    apply_rows (apage w2) = next_apply (apage w') # apply_rows (apage w') \<and> apply_items (apage w2) (next_apply (apage w')) = Some item \<and>
    ca_uid (ap_info item) = uid \<and> ca_name (ap_info item) = sent_name form \<and> \<not> ap_added item \<and>
    handleMsg (window_table W) 1011 answer w1 = Some (Val (), w1)"
proof -
  let ?J = "lib_json E" and ?told = "toStyledString (lib_json E) (request_note uid (sent_name form) u)"
  obtain bakname where sent: "ApplyFriend_SlotApplySure a w = (Val (), w\<lparr>win_sent := win_sent w @ [(1010, request_json uid (sent_name form) bakname touid)],
      apply_forms := (apply_forms w)(a := None)\<rparr>)"
    using apply_sure_sends [OF form] ids(1,2) by metis
  let ?r = "request_json uid (sent_name form) bakname touid"
  obtain v where v: "jparse ?J (q_toJson L ?r) = (True, v)" "field_int ?J v ''uid'' = Some uid" "field_int ?J v ''touid'' = Some touid"
      "field_str ?J v ''applyname'' = Some (sent_name form)" "field_str ?J v ''bakname'' = Some bakname"
    unfolding request_json_def by (rule server_reads [OF json_togetherD(1,2) [OF lib], where kvs = "[(''uid'', JInt uid),
      (''applyname'', JStr (sent_name form)), (''bakname'', JStr bakname), (''touid'', JInt touid)]"]) (use ids(3,4) in simp)
  obtain t d d' b where t: "AddFriendApplyHandler E sid (q_toJson L ?r) s = (Val (), t)" "session_objs t = (session_objs s)(sid \<mapsto> d, sid' \<mapsto> d')"
      "outbox d' = outbox c' @ [frame (msg_id ID_NOTIFY_ADD_FRIEND_REQ) ?told]"
      "outbox d = outbox c @ [frame (msg_id ID_ADD_FRIEND_RSP) (toStyledString ?J success_reply)]"
    using friend_request_delivered [OF _ _ _ _ ready(1,2,3) short, of "q_toJson L ?r"] v by auto
  obtain w2 where w2: "handleMsg (window_table W') 1012 ?told w' = Some (Val (), w2)"
      "GetApplyList (win_umgr w2) = GetApplyList (win_umgr w') @ [\<lparr>ca_uid = uid, ca_name = sent_name form, ca_desc = [], ca_icon = u_icon u,
        ca_nick = u_nick u, ca_sex = u_sex u, ca_status = 0\<rparr>]"
      "apply_rows (apage w2) = next_apply (apage w') # apply_rows (apage w')"
      "\<exists>item. apply_items (apage w2) (next_apply (apage w')) = Some item \<and> ca_uid (ap_info item) = uid \<and> ca_name (ap_info item) = sent_name form \<and>
        \<not> ap_added item"
    by (rule request_note_shown [where W = W' and u = u and name = "sent_name form", OF json_togetherD(3,4) [OF lib] new ids(3,5)]) auto
  have none: "handleMsg (window_table W) 1011 x y = Some (Val (), y)" for x y
    by (simp add: handleMsg_def window_table_find window_handlers_def)
  show ?thesis
    using sent t w2 none
    by (intro exI [of _ "w\<lparr>win_sent := win_sent w @ [(1010, ?r)], apply_forms := (apply_forms w)(a := None)\<rparr>"] exI [of _ ?r] exI [of _ t]
        exI [of _ d] exI [of _ d'] exI [of _ ?told] exI [of _ "toStyledString ?J success_reply"] exI [of _ w2]) auto
qed

section \<open>An acceptance\<close>

definition acceptance_json :: "int \<Rightarrow> int \<Rightarrow> string \<Rightarrow> string \<Rightarrow> json" where
  "acceptance_json uid touid back_name apply_name =
     JObj [(''fromuid'', JInt uid), (''touid'', JInt touid), (''back_name'', JStr back_name), (''apply_name'', JStr apply_name)]"

definition sent_back_name :: "AuthenForm \<Rightarrow> string" where
  "sent_back_name form = (if authen_back_ed form = [] then authen_back_hint form else authen_back_ed form)"

lemma authen_sure_sends:
  assumes "authen_forms w a = Some form" "user_info (win_umgr w) = Some self"
  shows "AuthenFriend_SlotApplySure a w = (Val (), w\<lparr>win_sent := win_sent w @
      [(1013, acceptance_json (cu_uid self) (ca_uid (authen_info form)) (sent_back_name form) (ca_name (authen_info form)))],
      authen_forms := (authen_forms w)(a := None)\<rparr>)"
  using assms own_uid [OF assms(2)]
  by (simp add: AuthenFriend_SlotApplySure_def acceptance_json_def sent_back_name_def Let_def bnd_def gets_def sig_send_data_def upd_def)

text \<open>A friend of the client by uid, with the name.\<close>

definition has_friend :: "int \<Rightarrow> string \<Rightarrow> UserMgr \<Rightarrow> bool" where
  "has_friend uid name m \<longleftrightarrow> (\<exists>x f. GetFriendById uid m = Some x \<and> friend_objs m x = Some f \<and> f_uid f = uid \<and> f_name f = name)"

lemma has_friend_added: "has_friend (ai_uid auth) (ai_name auth) (AddFriend auth m)"
  by (simp add: has_friend_def AddFriend_def new_friend_def GetFriendById_def FriendInfo_of_auth_def Let_def)

lemma announce_run:
  assumes "\<not> CheckFriendById (ai_uid auth) (win_umgr w)"
  obtains d where "announce_contact E command auth row j w = sendMessage E command (QJsonObject j) (w\<lparr>dlg := d\<rparr>)"
    "dlg_umgr d = AddFriend auth (win_umgr w)" "chat_items_added d = chat_items_added (dlg w)" "next_item d = next_item (dlg w)"
proof -
  let ?d = "(on_mgr (AddFriend auth) (dlg w))\<lparr>contact_rows := new_ConUserItem (row (head_pic (win_dialog E) (length (contact_rows (dlg w))))) # contact_rows (dlg w)\<rparr>"
  have r: "contact_rows (on_mgr f x) = contact_rows x" for f x by (simp add: on_mgr_def on_client_def)
  show thesis
  proof (rule that [of ?d])
    show "announce_contact E command auth row j w = sendMessage E command (QJsonObject j) (w\<lparr>dlg := ?d\<rparr>)"
      using assms by (simp add: announce_contact_def add_contact_def bnd_def gets_def upd_def ret_def on_dlg_def zoom_def win_umgr_def r)
  qed (simp_all add: on_mgr_def on_client_def on_umgr_def dlg_umgr_def win_umgr_def)
qed

text \<open>The acceptor's client reads the reply.\<close>

lemma accept_reply_shown:
  assumes Q: "qt_documented (win_qt W)" "qt_reads (win_qt W) J" and new: "\<not> CheckFriendById touid (win_umgr w)" and int: "in_int touid" "in_int (u_sex u)"
  obtains t where "handleMsg (window_table W) 1014 (toStyledString J (accept_reply touid u)) w = Some (Val (), t)"
    "has_friend touid (u_name u) (win_umgr t)" "chat_items_added (dlg t) touid \<noteq> None" "apage t = mark_accepted touid (apage w)"
proof -
  obtain v where v: "q_fromJson (win_qt W) (toStyledString J (accept_reply touid u)) = Some v"
      "reads_members (win_qt W) v [(''error'', JInt 0), (''name'', JStr (u_name u)), (''nick'', JStr (u_nick u)), (''icon'', JStr (u_icon u)),
       (''sex'', JInt (u_sex u)), (''uid'', JInt touid)]"
    unfolding accept_reply_def by (rule client_reads [OF Q])
  let ?Q = "win_qt W" and ?data = "toStyledString J (accept_reply touid u)"
  let ?auth = "\<lparr>ai_uid = touid, ai_name = u_name u, ai_nick = u_nick u, ai_icon = u_icon u, ai_sex = u_sex u\<rparr>"
  have m: "q_toInt ?Q (q_value ?Q v ''uid'') = touid" "q_toInt ?Q (q_value ?Q v ''sex'') = u_sex u" "q_toString ?Q (q_value ?Q v ''name'') = u_name u"
      "q_toString ?Q (q_value ?Q v ''nick'') = u_nick u" "q_toString ?Q (q_value ?Q v ''icon'') = u_icon u" "v \<noteq> JNull" "v \<noteq> JObj []"
    using v(2) int by (simp_all add: reads_members_def)
  obtain d where d: "announce_contact W ''AUTH_FRIEND_RSP'' ?auth (\<lambda>pic. new_row touid (u_name u) (u_name u) pic 0) v w =
      sendMessage W ''AUTH_FRIEND_RSP'' (QJsonObject v) (w\<lparr>dlg := d\<rparr>)" "dlg_umgr d = AddFriend ?auth (win_umgr w)"
    by (rule announce_run [of ?auth w W "''AUTH_FRIEND_RSP''" _ v]) (use new in auto)
  define t where "t = snd (sendMessage W ''AUTH_FRIEND_RSP'' (QJsonObject v) (w\<lparr>dlg := d\<rparr>))"
  have "win_AuthFriendRsp W ?data w = sendMessage W ''AUTH_FRIEND_RSP'' (QJsonObject v) (w\<lparr>dlg := d\<rparr>)"
    by (simp add: win_AuthFriendRsp_def Let_def replied [OF v] m d(1))
  moreover have "fst (sendMessage W ''AUTH_FRIEND_RSP'' (QJsonObject v) (w\<lparr>dlg := d\<rparr>)) = Val ()"
    by (simp add: sendMessage_commands bnd_def on_apage_def upd_def on_dlg_def zoom_def onAuthFriendRsp_def Let_def m gets_def add_item_def ret_def)
  ultimately have run: "handleMsg (window_table W) 1014 ?data w = Some (Val (), t)"
    by (simp add: window_handler slot_of_def t_def prod_eq_iff)
  have t: "dlg_umgr (dlg t) = dlg_umgr d" "chat_items_added (dlg t) touid \<noteq> None" "apage t = mark_accepted touid (apage w)"
    unfolding t_def
    by (simp_all add: sendMessage_commands bnd_def on_apage_def upd_def on_dlg_def zoom_def onAuthFriendRsp_def Let_def m [unfolded win_qt_def]
        win_qt_def gets_def add_item_def ret_def dlg_umgr_def)
  show thesis by (rule that [OF run _ t(2,3)]) (use has_friend_added [of ?auth] d(2) t(1) in \<open>simp add: win_umgr_def\<close>)
qed

text \<open>The requester's client reads the notification.\<close>

lemma accept_note_shown:
  assumes Q: "qt_documented (win_qt W)" "qt_reads (win_qt W) J" and new: "\<not> CheckFriendById fromuid (win_umgr w)" and int: "in_int fromuid" "in_int (u_sex u)"
  obtains t where "handleMsg (window_table W) 1015 (toStyledString J (accept_note fromuid touid u)) w = Some (Val (), t)"
    "has_friend fromuid (u_name u) (win_umgr t)" "chat_items_added (dlg t) fromuid \<noteq> None"
proof -
  obtain v where v: "q_fromJson (win_qt W) (toStyledString J (accept_note fromuid touid u)) = Some v"
      "reads_members (win_qt W) v [(''error'', JInt 0), (''fromuid'', JInt fromuid), (''touid'', JInt touid), (''name'', JStr (u_name u)),
       (''nick'', JStr (u_nick u)), (''icon'', JStr (u_icon u)), (''sex'', JInt (u_sex u))]"
    unfolding accept_note_def by (rule client_reads [OF Q])
  let ?Q = "win_qt W" and ?data = "toStyledString J (accept_note fromuid touid u)"
  let ?auth = "\<lparr>ai_uid = fromuid, ai_name = u_name u, ai_nick = u_nick u, ai_icon = u_icon u, ai_sex = u_sex u\<rparr>"
  have m: "q_toInt ?Q (q_value ?Q v ''fromuid'') = fromuid" "q_toInt ?Q (q_value ?Q v ''sex'') = u_sex u" "q_toString ?Q (q_value ?Q v ''name'') = u_name u"
      "q_toString ?Q (q_value ?Q v ''nick'') = u_nick u" "q_toString ?Q (q_value ?Q v ''icon'') = u_icon u" "v \<noteq> JNull" "v \<noteq> JObj []"
    using v(2) int by (simp_all add: reads_members_def)
  obtain d where d: "announce_contact W ''NOTIFY_AUTH_FRIEND_REQ'' ?auth (\<lambda>pic. new_row fromuid (u_name u) (u_nick u) pic (u_sex u)) v w =
      sendMessage W ''NOTIFY_AUTH_FRIEND_REQ'' (QJsonObject v) (w\<lparr>dlg := d\<rparr>)" "dlg_umgr d = AddFriend ?auth (win_umgr w)"
    by (rule announce_run [of ?auth w W "''NOTIFY_AUTH_FRIEND_REQ''" _ v]) (use new in auto)
  define t where "t = snd (sendMessage W ''NOTIFY_AUTH_FRIEND_REQ'' (QJsonObject v) (w\<lparr>dlg := d\<rparr>))"
  have "win_NotifyAuthFriendReq W ?data w = sendMessage W ''NOTIFY_AUTH_FRIEND_REQ'' (QJsonObject v) (w\<lparr>dlg := d\<rparr>)"
    by (simp add: win_NotifyAuthFriendReq_def Let_def replied [OF v] m d(1))
  moreover have "fst (sendMessage W ''NOTIFY_AUTH_FRIEND_REQ'' (QJsonObject v) (w\<lparr>dlg := d\<rparr>)) = Val ()"
    by (simp add: sendMessage_commands bnd_def upd_def on_dlg_def zoom_def onNotifyAuthFriendReq_def Let_def m gets_def add_item_def ret_def)
  ultimately have run: "handleMsg (window_table W) 1015 ?data w = Some (Val (), t)"
    by (simp add: window_handler slot_of_def t_def prod_eq_iff)
  have t: "dlg_umgr (dlg t) = dlg_umgr d" "chat_items_added (dlg t) fromuid \<noteq> None"
    unfolding t_def
    by (simp_all add: sendMessage_commands bnd_def upd_def on_dlg_def zoom_def onNotifyAuthFriendReq_def Let_def m [unfolded win_qt_def]
        gets_def add_item_def ret_def dlg_umgr_def)
  show thesis by (rule that [OF run _ t(2)]) (use has_friend_added [of ?auth] d(2) t(1) in \<open>simp add: win_umgr_def\<close>)
qed

text \<open>The acceptance as the server reads it.\<close>

lemma acceptance_read:
  assumes lib: "json_together (lib_json E) L Ws" and ids: "in_int fromuid" "in_int touid"
    and ready: "friend_ready E view ks touid u s"
      "MySQLManager_AuthFriendApply (lib_mysql E) fromuid touid (mysql_mgr s) = (Val b, m1)"
      "MySQLManager_AddFriend (lib_mysql E) fromuid touid back_name m1 = (Val added, m)"
  shows "accept_ready E view ks (q_toJson L (acceptance_json fromuid touid back_name apply_name)) fromuid back_name touid u s m"
proof -
  let ?J = "lib_json E"
  obtain v where "jparse ?J (q_toJson L (acceptance_json fromuid touid back_name apply_name)) = (True, v)" "field_int ?J v ''fromuid'' = Some fromuid"
      "field_int ?J v ''touid'' = Some touid" "field_str ?J v ''back_name'' = Some back_name" "field_str ?J v ''apply_name'' = Some apply_name"
    unfolding acceptance_json_def by (rule server_reads [OF json_togetherD(1,2) [OF lib], where kvs = "[(''fromuid'', JInt fromuid),
      (''touid'', JInt touid), (''back_name'', JStr back_name), (''apply_name'', JStr apply_name)]"]) (use ids in simp)
  then show ?thesis using ready by (auto simp: accept_ready_def Let_def)
qed

text \<open>
  C10. Accepting a request makes friends on both sides: confirming the dialog sends the acceptance; the server
  inserts the friendship, answers the acceptor and tells the other user; each client then has the other user
  as a friend, with the name in the database, and a conversation for it, and the acceptor's row on the page
  of requests changes from the button to ``added''.
\<close>

theorem acceptance_makes_friends:
  assumes lib: "json_together (lib_json E) L [W, W']"
    and form: "authen_forms w a = Some form" "user_info (win_umgr w) = Some self"
    and ids: "fromuid = cu_uid self" "touid = ca_uid (authen_info form)" "in_int fromuid" "in_int touid" "in_int (u_sex u)" "in_int (u_sex v)"
    and ready: "friend_ready E view ks touid u s" "friend_ready E view ks fromuid v s" "same_server E ks touid sid c sid' c' s"
    and db: "MySQLManager_AuthFriendApply (lib_mysql E) fromuid touid (mysql_mgr s) = (Val b, m1)"
      "MySQLManager_AddFriend (lib_mysql E) fromuid touid (sent_back_name form) m1 = (Val added, m)"
    and short: "length (toStyledString (lib_json E) (accept_note fromuid touid v)) \<le> 32763"
      "length (toStyledString (lib_json E) (accept_reply touid u)) \<le> 32763"
    and row: "unauth_items (apage w) touid = Some i" "apply_items (apage w) i = Some item"
    and new: "\<not> CheckFriendById touid (win_umgr w)" "\<not> CheckFriendById fromuid (win_umgr w')"
  shows "\<exists>w1 request t d d' answer told w2 w3. AuthenFriend_SlotApplySure a w = (Val (), w1) \<and> win_sent w1 = win_sent w @ [(1013, request)] \<and>
    AuthFriendApplyHandler E sid (q_toJson L request) s = (Val (), t) \<and> mysql_mgr t = m \<and>
    session_objs t = (session_objs s)(sid \<mapsto> d, sid' \<mapsto> d') \<and>
    outbox d = outbox c @ [frame 1014 answer] \<and> outbox d' = outbox c' @ [frame 1015 told] \<and>
    handleMsg (window_table W) 1014 answer w1 = Some (Val (), w2) \<and> has_friend touid (u_name u) (win_umgr w2) \<and>
    chat_items_added (dlg w2) touid \<noteq> None \<and> apply_items (apage w2) i = Some (item\<lparr>ap_added := True\<rparr>) \<and>
    handleMsg (window_table W') 1015 told w' = Some (Val (), w3) \<and> has_friend fromuid (u_name v) (win_umgr w3) \<and>
    chat_items_added (dlg w3) fromuid \<noteq> None"
proof -
  let ?J = "lib_json E" and ?r = "acceptance_json fromuid touid (sent_back_name form) (ca_name (authen_info form))"
  let ?told = "toStyledString ?J (accept_note fromuid touid v)" and ?answer = "toStyledString ?J (accept_reply touid u)"
  define w1 where "w1 = w\<lparr>win_sent := win_sent w @ [(1013, ?r)], authen_forms := (authen_forms w)(a := None)\<rparr>"
  have sent: "AuthenFriend_SlotApplySure a w = (Val (), w1)" using authen_sure_sends [OF form] ids(1,2) by (simp add: w1_def)
  obtain t d d' where t: "AuthFriendApplyHandler E sid (q_toJson L ?r) s = (Val (), t)" "mysql_mgr t = m"
      "session_objs t = (session_objs s)(sid \<mapsto> d, sid' \<mapsto> d')"
      "outbox d' = outbox c' @ [frame (msg_id ID_NOTIFY_AUTH_FRIEND_REQ) ?told]" "outbox d = outbox c @ [frame (msg_id ID_AUTH_FRIEND_RSP) ?answer]"
    using friend_acceptance_delivered [OF acceptance_read [OF lib ids(3,4) ready(1) db] ready(2,3) short] by blast
  have w1: "\<not> CheckFriendById touid (win_umgr w1)" "apage w1 = apage w" "win_sent w1 = win_sent w @ [(1013, ?r)]"
    using new(1) by (simp_all add: w1_def win_umgr_def)
  obtain w2 where w2: "handleMsg (window_table W) 1014 ?answer w1 = Some (Val (), w2)" "has_friend touid (u_name u) (win_umgr w2)"
      "chat_items_added (dlg w2) touid \<noteq> None" "apage w2 = mark_accepted touid (apage w1)"
    by (rule accept_reply_shown [OF json_togetherD(3,4) [OF lib] w1(1) ids(4,5)]) auto
  obtain w3 where w3: "handleMsg (window_table W') 1015 ?told w' = Some (Val (), w3)" "has_friend fromuid (u_name v) (win_umgr w3)"
      "chat_items_added (dlg w3) fromuid \<noteq> None"
    by (rule accept_note_shown [where W = W', OF json_togetherD(3,4) [OF lib] new(2) ids(3,6)]) auto
  have "apply_items (apage w2) i = Some (item\<lparr>ap_added := True\<rparr>)" using row w1(2) by (simp add: w2(4) mark_accepted_def ShowAddBtn_def)
  then show ?thesis
    using sent t w1(3) w2 w3
    by (intro exI [of _ w1] exI [of _ ?r] exI [of _ t] exI [of _ d] exI [of _ d'] exI [of _ ?answer] exI [of _ ?told] exI [of _ w2] exI [of _ w3])
      auto
qed

text \<open>
  C32. Accepting a user who is not logged in: the friendship is inserted into the database, but the
  acceptor is answered with the error code UidInvalid, and the window drops that answer: nothing in it
  changes, the friend does not appear and the row keeps its button.
\<close>

theorem acceptance_of_absent_user:
  assumes lib: "json_together (lib_json E) L [W]"
    and form: "authen_forms w a = Some form" "user_info (win_umgr w) = Some self"
    and ids: "fromuid = cu_uid self" "touid = ca_uid (authen_info form)" "in_int fromuid" "in_int touid"
    and ready: "friend_ready E view ks touid u s" "ks (USERIPPREFIX @ to_string touid) = None" "session_objs s sid = Some c" "has_room 1 c"
    and db: "MySQLManager_AuthFriendApply (lib_mysql E) fromuid touid (mysql_mgr s) = (Val b, m1)"
      "MySQLManager_AddFriend (lib_mysql E) fromuid touid (sent_back_name form) m1 = (Val True, m)"
    and short: "length (toStyledString (lib_json E) (set_error UidInvalid (accept_reply touid u))) \<le> 32763"
  shows "\<exists>w1 request t d answer. AuthenFriend_SlotApplySure a w = (Val (), w1) \<and> win_sent w1 = win_sent w @ [(1013, request)] \<and>
    AuthFriendApplyHandler E sid (q_toJson L request) s = (Val (), t) \<and> mysql_mgr t = m \<and>
    session_objs t = (session_objs s)(sid \<mapsto> d) \<and> outbox d = outbox c @ [frame 1014 (toStyledString (lib_json E) answer)] \<and>
    jfield ''error'' answer = JInt (error_code UidInvalid) \<and>
    handleMsg (window_table W) 1014 (toStyledString (lib_json E) answer) w1 = Some (Val (), w1) \<and> win_umgr w1 = win_umgr w \<and> apage w1 = apage w"
proof -
  let ?J = "lib_json E" and ?r = "acceptance_json fromuid touid (sent_back_name form) (ca_name (authen_info form))"
  let ?reply = "set_error UidInvalid (accept_reply touid u)" and ?answer = "toStyledString ?J (set_error UidInvalid (accept_reply touid u))"
  define w1 where "w1 = w\<lparr>win_sent := win_sent w @ [(1013, ?r)], authen_forms := (authen_forms w)(a := None)\<rparr>"
  have sent: "AuthenFriend_SlotApplySure a w = (Val (), w1)" using authen_sure_sends [OF form] ids(1,2) by (simp add: w1_def)
  obtain t d where t: "AuthFriendApplyHandler E sid (q_toJson L ?r) s = (Val (), t)" "mysql_mgr t = m" "session_objs t = (session_objs s)(sid \<mapsto> d)"
      "outbox d = outbox c @ [frame (msg_id ID_AUTH_FRIEND_RSP) ?answer]"
    using acceptance_of_offline_user [OF acceptance_read [OF lib ids(3,4) ready(1) db] ready(2-4) short] by blast
  have "\<exists>kvs. set_error UidInvalid (accept_reply touid u) = JObj kvs \<and> map_of kvs ''error'' = Some (JInt (error_code UidInvalid))"
    by (simp add: accept_reply_def set_error_def)
  then obtain kvs where kvs: "set_error UidInvalid (accept_reply touid u) = JObj kvs" "map_of kvs ''error'' = Some (JInt (error_code UidInvalid))" by blast
  obtain x where x: "q_fromJson (win_qt W) ?answer = Some x" "reads_members (win_qt W) x kvs"
    unfolding kvs(1) by (rule client_reads [where J = ?J, OF json_togetherD(3,4) [OF lib]]) auto
  have "q_toInt (win_qt W) (q_value (win_qt W) x ''error'') = error_code UidInvalid"
    using x(2) kvs(2) by (simp add: reads_members_def in_int_def INT_MIN_def INT_MAX_def)
  then have "handleMsg (window_table W) 1014 ?answer w1 = Some (Val (), w1)"
    using x(1) by (simp add: window_handler slot_of_def win_AuthFriendRsp_def with_reply_def Let_def ret_def)
  moreover have "jfield ''error'' ?reply = JInt (error_code UidInvalid)" using kvs by (simp add: jfield_def)
  ultimately show ?thesis
    using sent t by (intro exI [of _ w1] exI [of _ ?r] exI [of _ t] exI [of _ d] exI [of _ ?reply]) (auto simp: w1_def win_umgr_def)
qed

section \<open>A search\<close>

definition search_info :: "UserInfo \<Rightarrow> SearchInfo" where
  "search_info u = \<lparr>si_uid = u_uid u, si_name = u_name u, si_nick = u_nick u, si_desc = u_desc u, si_sex = u_sex u, si_icon = u_icon u\<rparr>"

lemma search_reply_members:
  "search_reply None = JObj [(''error'', JInt (error_code UserNotExist))]"
  "search_reply (Some u) = JObj [(''error'', JInt 0), (''uid'', JInt (u_uid u)), (''pwd'', JStr (u_pwd u)), (''name'', JStr (u_name u)),
     (''email'', JStr (u_email u)), (''nick'', JStr (u_nick u)), (''desc'', JStr (u_desc u)), (''sex'', JInt (u_sex u)), (''icon'', JStr (u_icon u))]"
  by (simp_all add: search_reply_def set_error_def set_user_members_def)

lemma search_reply_shown:
  assumes Q: "qt_documented (win_qt W)" "qt_reads (win_qt W) J" and pending: "loading_dlg (slist w) = Shown"
    and self: "user_info (win_umgr w) = Some self"
    and found: "\<And>u. found = Some u \<Longrightarrow> in_int (u_uid u) \<and> in_int (u_sex u) \<and> u_uid u \<noteq> cu_uid self \<and> \<not> CheckFriendById (u_uid u) (win_umgr w)"
  obtains t where "handleMsg (window_table W) 1009 (toStyledString J (search_reply found)) w = Some (Val (), t)"
    "slist t = (case found of
        None \<Rightarrow> (slist w)\<lparr>loading_dlg := Leaving, send_pending := False, find_failed := True\<rparr>
      | Some u \<Rightarrow> (slist w)\<lparr>loading_dlg := Leaving, send_pending := False, find_success := Some (search_info u)\<rparr>)"
proof (cases found)
  case None
  obtain v where v: "q_fromJson (win_qt W) (toStyledString J (search_reply found)) = Some v"
      "reads_members (win_qt W) v [(''error'', JInt (error_code UserNotExist))]"
    unfolding None search_reply_members by (rule client_reads [OF Q])
  have "q_contains (win_qt W) v ''error''" "q_toInt (win_qt W) (q_value (win_qt W) v ''error'') = 1010"
    using v(2) by (simp_all add: reads_members_def in_int_def INT_MIN_def INT_MAX_def)
  then show thesis
    using v(1) pending None
    by (intro that) (auto simp: window_handler searchUserRsp_def run_opt_def waitPending_def bnd_def gets_def on_slist_def upd_def Let_def)
next
  case (Some u)
  obtain v where v: "q_fromJson (win_qt W) (toStyledString J (search_reply found)) = Some v"
      "reads_members (win_qt W) v [(''error'', JInt 0), (''uid'', JInt (u_uid u)), (''pwd'', JStr (u_pwd u)), (''name'', JStr (u_name u)),
     (''email'', JStr (u_email u)), (''nick'', JStr (u_nick u)), (''desc'', JStr (u_desc u)), (''sex'', JInt (u_sex u)), (''icon'', JStr (u_icon u))]"
    unfolding Some search_reply_members by (rule client_reads [OF Q])
  note f = found [OF Some]
  have info: "found_user (win_qt W) v = search_info u" "q_contains (win_qt W) v ''error''" "q_toInt (win_qt W) (q_value (win_qt W) v ''error'') = 0"
    using v(2) f by (simp_all add: reads_members_def found_user_def search_info_def Let_def in_int_def INT_MIN_def INT_MAX_def)
  define w1 where "w1 = w\<lparr>slist := (slist w)\<lparr>loading_dlg := Leaving, send_pending := False\<rparr>\<rparr>"
  have wait: "waitPending False w = (Val (), w1)"
    using pending by (simp add: w1_def waitPending_def bnd_def gets_def on_slist_def upd_def)
  have m: "win_umgr w1 = win_umgr w" by (simp add: w1_def win_umgr_def)
  have "show_found W (search_info u) w1 = Some (Val (), w1\<lparr>slist := (slist w1)\<lparr>find_success := Some (search_info u)\<rparr>\<rparr>)"
    using own_uid [of w1 self] self f by (simp add: show_found_def run_opt_def m search_info_def on_slist_def upd_def)
  then have "searchUserRsp W (toStyledString J (search_reply found)) w = Some (Val (), w1\<lparr>slist := (slist w1)\<lparr>find_success := Some (search_info u)\<rparr>\<rparr>)"
    using v(1) info by (simp add: searchUserRsp_def run_opt_def wait Let_def)
  then show thesis
    by (intro that [of "w1\<lparr>slist := (slist w1)\<lparr>find_success := Some (search_info u)\<rparr>\<rparr>"]) (simp_all add: window_handler Some w1_def)
qed

text \<open>
  C17. A search from click to dialog: a click on the row for adding users, with a text in the box and no
  search pending, sends one request; the server looks the user up in the database, when it is not cached,
  and answers; the client ends the search and shows the user that was found, or the
  dialog ``not found''. The answer for a found user carries the hash of the user's password.
\<close>

theorem search_shows_result:
  assumes lib: "json_together (lib_json E) L [W]"
    and window: "\<not> send_pending (slist w)" "search_edit_text (slist w) = name" "name \<noteq> []" "user_info (win_umgr w) = Some self"
    and redis: "redis_documented (lib_redis E) view" "redis_up (redis_mgr s)" "view (redis_server (redis_mgr s)) = ks" "no_nul name"
      "\<And>x. no_nul (toStyledString (lib_json E) x)" "ks (USER_BASE_INFO @ name) = None"
    and db: "GetUser_name (lib_mysql E) name (mysql_mgr s) = (Val found, m)"
    and found: "\<And>u. found = Some u \<Longrightarrow> in_int (u_uid u) \<and> in_int (u_sex u) \<and> u_uid u \<noteq> cu_uid self \<and> \<not> CheckFriendById (u_uid u) (win_umgr w)"
    and session: "session_objs s sid = Some c" "has_room 1 c" "length (toStyledString (lib_json E) (search_reply found)) \<le> 32763"
  shows "\<exists>w1 request t d reply w2. search_item_clicked (Some ADD_USER_TIP_ITEM) w = (Val (), w1) \<and>
    win_sent w1 = win_sent w @ [(1008, request)] \<and>
    SearchInfoHandler E sid (q_toJson L request) s = (Val (), t) \<and> session_objs t = (session_objs s)(sid \<mapsto> d) \<and>
    outbox d = outbox c @ [frame 1009 (toStyledString (lib_json E) reply)] \<and>
    (\<forall>u. found = Some u \<longrightarrow> jfield ''pwd'' reply = JStr (u_pwd u)) \<and>
    handleMsg (window_table W) 1009 (toStyledString (lib_json E) reply) (event_loop w1) = Some (Val (), w2) \<and> \<not> send_pending (slist w2) \<and>
    (case found of None \<Rightarrow> find_failed (slist w2) | Some u \<Rightarrow> find_success (slist w2) = Some (search_info u))"
proof -
  let ?J = "lib_json E" and ?r = "JObj [(''uid'', JStr name)]"
  define w1 where "w1 = w\<lparr>slist := (slist w)\<lparr>loading_dlg := Shown, send_pending := True\<rparr>, win_sent := win_sent w @ [(1008, ?r)]\<rparr>"
  have click: "search_item_clicked (Some ADD_USER_TIP_ITEM) w = (Val (), w1)"
    using window by (simp add: search_item_clicked_def bnd_def gets_def waitPending_def on_slist_def upd_def sig_send_data_def w1_def)
  obtain v where v: "jparse ?J (q_toJson L ?r) = (True, v)" "field_str ?J v ''uid'' = Some name"
    by (rule server_reads [OF json_togetherD(1,2) [OF lib], where kvs = "[(''uid'', JStr name)]"]) simp
  obtain t d where t: "SearchInfoHandler E sid (q_toJson L ?r) s = (Val (), t)" "session_objs t = (session_objs s)(sid \<mapsto> d)"
      "outbox d = outbox c @ [frame (msg_id ID_SEARCH_USER_RSP) (toStyledString ?J (search_reply found))]"
    by (rule SearchInfo_run [OF redis(1-3) _ redis(4,5,6) db session, where msg_data = "q_toJson L ?r"]) (use v in auto)
  have w1: "loading_dlg (slist (event_loop w1)) = Shown" "user_info (win_umgr (event_loop w1)) = Some self"
      "win_umgr (event_loop w1) = win_umgr w"
    using window(4) by (simp_all add: event_loop_def w1_def win_umgr_def)
  obtain w2 where w2: "handleMsg (window_table W) 1009 (toStyledString ?J (search_reply found)) (event_loop w1) = Some (Val (), w2)"
      "slist w2 = (case found of
        None \<Rightarrow> (slist (event_loop w1))\<lparr>loading_dlg := Leaving, send_pending := False, find_failed := True\<rparr>
      | Some u \<Rightarrow> (slist (event_loop w1))\<lparr>loading_dlg := Leaving, send_pending := False, find_success := Some (search_info u)\<rparr>)"
    by (rule search_reply_shown [where W = W and J = ?J and w = "event_loop w1" and found = found, OF json_togetherD(3,4) [OF lib] w1(1,2)])
      (use found w1(3) in auto)
  have pwd: "jfield ''pwd'' (search_reply found) = JStr (u_pwd u)" if "found = Some u" for u
    by (simp add: that search_reply_members jfield_def)
  show ?thesis
    using click t w2 pwd
    by (intro exI [of _ w1] exI [of _ ?r] exI [of _ t] exI [of _ d] exI [of _ "search_reply found"] exI [of _ w2])
      (auto simp: w1_def split: option.splits)
qed

section \<open>Examples of the flows\<close>

text \<open>A JSON library that prints the given documents as short numbers and any other one as the number of its code.\<close>

fun position :: "'a \<Rightarrow> 'a list \<Rightarrow> nat" where
  "position x [] = 0"
| "position x (y # ys) = (if x = y then 0 else Suc (position x ys))"

lemma position_nth: "position x ys < length ys \<Longrightarrow> ys ! position x ys = x"
  by (induction ys) auto

definition short_json :: "json list \<Rightarrow> jsoncpp" where
  "short_json docs = ref_json\<lparr>
     jparse := (\<lambda>x. (True, let n = digits_value x in if n < length docs then docs ! n else from_nat (n - length docs))),
     toStyledString := (\<lambda>v. nat_to_string (if position v docs < length docs then position v docs else length docs + to_nat v))\<rparr>"

definition short_qt :: "json list \<Rightarrow> qt_json" where
  "short_qt docs = ref_qt\<lparr>q_fromJson := (\<lambda>x. Some (snd (jparse (short_json docs) x)))\<rparr>"

definition flow_login :: "json list \<Rightarrow> login_env" where
  "flow_login docs = login_demo_env\<lparr>login_qt := short_qt docs, q_toJson := toStyledString (short_json docs)\<rparr>"

definition flow_window :: "json list \<Rightarrow> window_env" where
  "flow_window docs = window_demo_env\<lparr>win_dialog := dialog_demo_env\<lparr>env_qt := short_qt docs\<rparr>\<rparr>"

definition flow_server :: "json list \<Rightarrow> (keyspace, unit, unit) chat_env" where
  "flow_server docs = (demo_env JNull)\<lparr>lib_json := short_json docs\<rparr>"

lemma short_json_inverse: "jparse (short_json docs) (toStyledString (short_json docs) v) = (True, v)"
  by (simp add: short_json_def Let_def position_nth)

lemma short_no_nul: "no_nul (toStyledString (short_json docs) v)"
proof -
  have "CHR 0x00 \<notin> set (nat_to_string n)" for n using nat_to_string_digits [of "CHR 0x00" n] by (auto simp: is_digit_def)
  then show ?thesis by (simp add: short_json_def no_nul_def)
qed

lemma short_json_documented: "json_documented (short_json docs)"
  using ref_json_documented by (simp add: json_documented_def short_json_def)

lemma short_qt_ok: "qt_documented (short_qt docs)" "qt_reads (short_qt docs) (short_json docs)"
  using ref_qt_documented by (auto simp: qt_documented_def short_qt_def qt_reads_def short_json_inverse intro: json_same.same_value)

lemma flow_together:
  assumes "\<And>W. W \<in> set Ws \<Longrightarrow> W = flow_window docs"
  shows "json_together (short_json docs) (flow_login docs) Ws"
proof -
  have "qt_prints (flow_login docs) (short_json docs)"
    by (auto simp: qt_prints_def flow_login_def login_demo_env_def short_json_inverse intro: json_same.same_value)
  moreover have "win_qt (flow_window docs) = short_qt docs" by (simp add: win_qt_def flow_window_def)
  ultimately show ?thesis using assms short_json_documented short_qt_ok by (force simp: json_together_def)
qed

definition ann :: UserInfo where "ann = new_UserInfo\<lparr>u_uid := 1, u_name := ''ann''\<rparr>"
definition bob :: UserInfo where "bob = new_UserInfo\<lparr>u_uid := 2, u_name := ''bob''\<rparr>"

definition flow_docs :: "json list" where
  "flow_docs = [base_info_json 1 ann, base_info_json 2 bob, request_note 1 ''ann'' ann, success_reply, accept_note 1 2 ann, accept_reply 2 bob,
     set_error UidInvalid (accept_reply 2 bob), search_reply None]"

lemma position_less: "x \<in> set ys \<Longrightarrow> position x ys < length ys"
  by (induction ys) auto

lemma flow_short: "v \<in> set flow_docs \<Longrightarrow> length (toStyledString (short_json flow_docs) v) \<le> 32763"
proof -
  assume "v \<in> set flow_docs"
  then have p: "position v flow_docs < length flow_docs" by (rule position_less)
  then have "position v flow_docs < 10" by (simp add: flow_docs_def)
  then show ?thesis using p by (simp add: short_json_def nat_to_string.simps)
qed

definition flow_keys :: "bool \<Rightarrow> keyspace" where
  "flow_keys online = [''ubaseinfo_1'' \<mapsto> VStr (toStyledString (short_json flow_docs) (base_info_json 1 ann)),
     ''ubaseinfo_2'' \<mapsto> VStr (toStyledString (short_json flow_docs) (base_info_json 2 bob))](''uip_2'' := if online then Some (VStr ''chat1'') else None)"

lemma flow_env [simp]:
  "lib_json (flow_server docs) = short_json docs" "lib_redis (flow_server docs) = ref_redis" "lib_mysql (flow_server docs) = table_driver (\<lambda>_ _. [])"
  "self_server_name (flow_server docs) = ''chat1''"
  using demo_self [of JNull] by (simp_all add: flow_server_def demo_env_def self_server_name_def)

lemma flow_numbers: "to_string 1 = ''1''" "to_string 2 = ''2''"
  by code_simp+

lemma flow_ready:
  "friend_ready (flow_server flow_docs) (\<lambda>ks. ks) (flow_keys b) 1 ann (demo_server (flow_keys b))"
  "friend_ready (flow_server flow_docs) (\<lambda>ks. ks) (flow_keys b) 2 bob (demo_server (flow_keys b))"
proof -
  have u: "shows_user (short_json docs) (base_info_json 1 ann) ann" "shows_user (short_json docs) (base_info_json 2 bob) bob" for docs
    by (simp_all add: shows_user_def base_info_json_def ann_def bob_def new_UserInfo_def field_int_def field_str_def short_json_def ref_json_def
        INT_MIN_def INT_MAX_def)
  note n = short_no_nul
  show "friend_ready (flow_server flow_docs) (\<lambda>ks. ks) (flow_keys b) 1 ann (demo_server (flow_keys b))"
    "friend_ready (flow_server flow_docs) (\<lambda>ks. ks) (flow_keys b) 2 bob (demo_server (flow_keys b))"
    using u n by (simp_all add: friend_ready_def ref_redis_documented flow_numbers key_prefixes flow_keys_def short_json_inverse)
qed

lemma flow_near: "same_server (flow_server flow_docs) (flow_keys True) 2 ''s1'' (new_CSession ''s1'' 0) ''s2'' (new_CSession ''s2'' 2) (demo_server (flow_keys True))"
  by (simp add: same_server_def flow_numbers key_prefixes flow_keys_def new_session_room MAX_SENDQUE_def)

definition flow_client :: "int \<Rightarrow> ClientWindow" where
  "flow_client uid = new_ClientWindow \<lparr>umgr = new_UserMgr\<lparr>user_info := Some (page_info uid [])\<rparr>, cpage = new_ChatPage\<rparr>"

lemma flow_client_simps [simp]:
  "user_info (win_umgr (flow_client uid)) = Some (page_info uid [])" "cu_uid (page_info uid []) = uid" "\<not> AlreadyApply x (win_umgr (flow_client uid))"
  "\<not> CheckFriendById x (win_umgr (flow_client uid))" "apage (flow_client uid) = new_ApplyFriendPage" "win_sent (flow_client uid) = []"
  "slist (flow_client uid) = new_SearchList"
  by (simp_all add: flow_client_def win_umgr_def dlg_umgr_def new_ClientWindow_def new_ChatDialog_def AlreadyApply_def CheckFriendById_def
      new_UserMgr_def page_info_def)

definition ask_bob :: ClientWindow where
  "ask_bob = (flow_client 1)\<lparr>apply_forms := [0 \<mapsto> \<lparr>form_info = search_info bob, name_ed = ''ann'', back_ed = ''bob'', form_box = new_LabelBox 30 []\<rparr>]\<rparr>"

theorem friend_request_shown_witness:
  "\<exists>w1 request t told w2 item. ApplyFriend_SlotApplySure 0 ask_bob = (Val (), w1) \<and> win_sent w1 = [(1010, request)] \<and>
    AddFriendApplyHandler (flow_server flow_docs) ''s1'' (q_toJson (flow_login flow_docs) request) (demo_server (flow_keys True)) = (Val (), t) \<and>
    map_option outbox (session_objs t ''s2'') = Some [frame 1012 told] \<and>
    handleMsg (window_table (flow_window flow_docs)) 1012 told (flow_client 2) = Some (Val (), w2) \<and>
    apply_items (apage w2) 0 = Some item \<and> ca_name (ap_info item) = ''ann''"
proof -
  let ?form = "\<lparr>form_info = search_info bob, name_ed = ''ann'', back_ed = ''bob'', form_box = new_LabelBox 30 []\<rparr>" and ?E = "flow_server flow_docs"
  have a: "apply_forms ask_bob 0 = Some ?form" "user_info (win_umgr ask_bob) = Some (page_info 1 [])" "win_sent ask_bob = []" "sent_name ?form = ''ann''"
    by (simp_all add: ask_bob_def win_umgr_def sent_name_def) (simp_all flip: win_umgr_def)
  have i: "2 = si_uid (form_info ?form)" "in_int 1" "in_int 2" "in_int (u_sex ann)"
    by (simp_all add: search_info_def bob_def ann_def new_UserInfo_def in_int_def INT_MIN_def INT_MAX_def)
  have d: "dao_ready 1 (mysql_mgr (demo_server (flow_keys True)))" by (simp add: dao_ready_def demo_server_def)
  have lib: "json_together (lib_json ?E) (flow_login flow_docs) [flow_window flow_docs, flow_window flow_docs]"
    unfolding flow_env by (rule flow_together) auto
  have short: "length (toStyledString (lib_json ?E) (request_note 1 (sent_name ?form) ann)) \<le> 32763" "length (toStyledString (lib_json ?E) success_reply) \<le> 32763"
    using flow_short [of "request_note 1 ''ann'' ann"] flow_short [of success_reply] by (simp_all add: a(4)) (simp_all add: flow_docs_def)
  note run = friend_request_shown [OF lib a(1,2) flow_client_simps(2) [symmetric] i flow_ready(1) d flow_near short flow_client_simps(3) [of 1 2]]
  then show ?thesis by (elim exE) (auto simp: a(3,4) new_session_room new_ApplyFriendPage_def)
qed

text \<open>The window of user 1 with a request of user 2 on its page and the dialog for accepting it open.\<close>

definition bob_asks :: ClientApplyInfo where
  "bob_asks = \<lparr>ca_uid = 2, ca_name = ''bob'', ca_desc = [], ca_icon = [], ca_nick = [], ca_sex = 0, ca_status = 0\<rparr>"

definition accept_bob :: ClientWindow where
  "accept_bob = (flow_client 1)\<lparr>apage := insert_apply bob_asks True new_ApplyFriendPage,
     authen_forms := [0 \<mapsto> \<lparr>authen_info = bob_asks, authen_back_ed = [], authen_back_hint = ''bob'', authen_box = new_LabelBox 30 []\<rparr>]\<rparr>"

abbreviation bob_form :: AuthenForm where
  "bob_form \<equiv> \<lparr>authen_info = bob_asks, authen_back_ed = [], authen_back_hint = ''bob'', authen_box = new_LabelBox 30 []\<rparr>"

lemma accept_bob_simps:
  "authen_forms accept_bob 0 = Some bob_form" "user_info (win_umgr accept_bob) = Some (page_info 1 [])" "win_sent accept_bob = []"
  "unauth_items (apage accept_bob) 2 = Some 0" "apply_items (apage accept_bob) 0 = Some \<lparr>ap_info = bob_asks, ap_added = False\<rparr>"
  "\<not> CheckFriendById 2 (win_umgr accept_bob)" "2 = ca_uid (authen_info bob_form)" "sent_back_name bob_form = ''bob''"
  unfolding accept_bob_def
  by (simp_all add: win_umgr_def insert_apply_def new_ApplyFriendPage_def ShowAddBtn_def bob_asks_def sent_back_name_def Let_def)
    (simp_all flip: win_umgr_def)

lemma flow_database:
  obtains b m1 m where "MySQLManager_AuthFriendApply (lib_mysql (flow_server flow_docs)) 1 2 (mysql_mgr (demo_server ks)) = (Val b, m1)"
    "MySQLManager_AddFriend (lib_mysql (flow_server flow_docs)) 1 2 (sent_back_name bob_form) m1 = (Val True, m)"
proof -
  have m: "mysql_mgr (demo_server ks) = mysql_mgr (demo_server Map.empty)" by (simp add: demo_server_def)
  have "fst (bnd (MySQLManager_AuthFriendApply (table_driver (\<lambda>_ _. [])) 1 2)
      (\<lambda>_. MySQLManager_AddFriend (table_driver (\<lambda>_ _. [])) 1 2 ''bob'') (mysql_mgr (demo_server Map.empty))) = Val True"
    by code_simp
  then show thesis
    using that unfolding m flow_env accept_bob_simps(8)
    by (cases "MySQLManager_AuthFriendApply (table_driver (\<lambda>_ _. [])) 1 2 (mysql_mgr (demo_server Map.empty))")
      (auto simp: bnd_def prod_eq_iff split: prod.splits result.splits)
qed

lemma flow_ranges: "in_int 1" "in_int 2" "in_int (u_sex ann)" "in_int (u_sex bob)"
  by (simp_all add: bob_def ann_def new_UserInfo_def in_int_def INT_MIN_def INT_MAX_def)

theorem acceptance_makes_friends_witness:
  "\<exists>w1 request t answer told w2 w3. AuthenFriend_SlotApplySure 0 accept_bob = (Val (), w1) \<and> win_sent w1 = [(1013, request)] \<and>
    AuthFriendApplyHandler (flow_server flow_docs) ''s1'' (q_toJson (flow_login flow_docs) request) (demo_server (flow_keys True)) = (Val (), t) \<and>
    map_option outbox (session_objs t ''s1'') = Some [frame 1014 answer] \<and> map_option outbox (session_objs t ''s2'') = Some [frame 1015 told] \<and>
    handleMsg (window_table (flow_window flow_docs)) 1014 answer w1 = Some (Val (), w2) \<and> has_friend 2 ''bob'' (win_umgr w2) \<and>
    handleMsg (window_table (flow_window flow_docs)) 1015 told (flow_client 2) = Some (Val (), w3) \<and> has_friend 1 ''ann'' (win_umgr w3)"
proof -
  let ?E = "flow_server flow_docs"
  obtain b m1 m where db: "MySQLManager_AuthFriendApply (lib_mysql ?E) 1 2 (mysql_mgr (demo_server (flow_keys True))) = (Val b, m1)"
    "MySQLManager_AddFriend (lib_mysql ?E) 1 2 (sent_back_name bob_form) m1 = (Val True, m)" by (rule flow_database)
  have lib: "json_together (lib_json ?E) (flow_login flow_docs) [flow_window flow_docs, flow_window flow_docs]"
    unfolding flow_env by (rule flow_together) auto
  have short: "length (toStyledString (lib_json ?E) (accept_note 1 2 ann)) \<le> 32763" "length (toStyledString (lib_json ?E) (accept_reply 2 bob)) \<le> 32763"
    using flow_short [of "accept_note 1 2 ann"] flow_short [of "accept_reply 2 bob"] by simp_all (simp_all add: flow_docs_def)
  have names: "u_name ann = ''ann''" "u_name bob = ''bob''" by (simp_all add: ann_def bob_def)
  note run = acceptance_makes_friends [OF lib accept_bob_simps(1,2) flow_client_simps(2) [symmetric] accept_bob_simps(7) flow_ranges(1,2,4,3)
      flow_ready(2,1) flow_near db short accept_bob_simps(4-6) flow_client_simps(4) [of 1 2]]
  then show ?thesis by (elim exE) (auto simp: accept_bob_simps(3) new_session_room names)
qed

theorem acceptance_of_absent_user_witness:
  "\<exists>w1 request t answer. AuthenFriend_SlotApplySure 0 accept_bob = (Val (), w1) \<and> win_sent w1 = [(1013, request)] \<and>
    AuthFriendApplyHandler (flow_server flow_docs) ''s1'' (q_toJson (flow_login flow_docs) request) (demo_server (flow_keys False)) = (Val (), t) \<and>
    map_option outbox (session_objs t ''s1'') = Some [frame 1014 (toStyledString (lib_json (flow_server flow_docs)) answer)] \<and>
    jfield ''error'' answer = JInt 1012 \<and>
    handleMsg (window_table (flow_window flow_docs)) 1014 (toStyledString (lib_json (flow_server flow_docs)) answer) w1 = Some (Val (), w1) \<and> win_umgr w1 = win_umgr accept_bob"
proof -
  let ?E = "flow_server flow_docs"
  obtain b m1 m where db: "MySQLManager_AuthFriendApply (lib_mysql ?E) 1 2 (mysql_mgr (demo_server (flow_keys False))) = (Val b, m1)"
    "MySQLManager_AddFriend (lib_mysql ?E) 1 2 (sent_back_name bob_form) m1 = (Val True, m)" by (rule flow_database)
  have lib: "json_together (lib_json ?E) (flow_login flow_docs) [flow_window flow_docs]" unfolding flow_env by (rule flow_together) auto
  have short: "length (toStyledString (lib_json ?E) (set_error UidInvalid (accept_reply 2 bob))) \<le> 32763"
    using flow_short [of "set_error UidInvalid (accept_reply 2 bob)"] by simp (simp add: flow_docs_def)
  have off: "flow_keys False (USERIPPREFIX @ to_string 2) = None" by (simp add: flow_numbers key_prefixes flow_keys_def)
  have room: "session_objs (demo_server (flow_keys False)) ''s1'' = Some (new_CSession ''s1'' 0)" "has_room 1 (new_CSession ''s1'' 0)"
    by (simp_all add: new_session_room MAX_SENDQUE_def)
  note run = acceptance_of_absent_user [OF lib accept_bob_simps(1,2) flow_client_simps(2) [symmetric] accept_bob_simps(7) flow_ranges(1,2)
      flow_ready(2) off room db short]
  then show ?thesis by (elim exE) (auto simp: accept_bob_simps(3) new_session_room)
qed

theorem search_shows_result_witness:
  "\<exists>w1 request t reply w2. search_item_clicked (Some ADD_USER_TIP_ITEM) ((flow_client 1)\<lparr>slist := new_SearchList\<lparr>search_edit_text := ''cid''\<rparr>\<rparr>) = (Val (), w1) \<and>
    win_sent w1 = [(1008, request)] \<and>
    SearchInfoHandler (flow_server flow_docs) ''s1'' (q_toJson (flow_login flow_docs) request) (demo_server (flow_keys True)) = (Val (), t) \<and>
    map_option outbox (session_objs t ''s1'') = Some [frame 1009 (toStyledString (short_json flow_docs) reply)] \<and>
    handleMsg (window_table (flow_window flow_docs)) 1009 (toStyledString (short_json flow_docs) reply) (event_loop w1) = Some (Val (), w2) \<and> find_failed (slist w2)"
proof -
  let ?E = "flow_server flow_docs" and ?w = "(flow_client 1)\<lparr>slist := new_SearchList\<lparr>search_edit_text := ''cid''\<rparr>\<rparr>"
    and ?s = "demo_server (flow_keys True)"
  have lib: "json_together (lib_json ?E) (flow_login flow_docs) [flow_window flow_docs]" unfolding flow_env by (rule flow_together) auto
  have m: "win_umgr ?w = win_umgr (flow_client 1)" "win_sent ?w = []" by (simp_all add: win_umgr_def)
  have w: "\<not> send_pending (slist ?w)" "search_edit_text (slist ?w) = ''cid''" "''cid'' \<noteq> []" "user_info (win_umgr ?w) = Some (page_info 1 [])"
    unfolding m by (simp_all add: new_SearchList_def)
  have "fst (GetUser_name (table_driver (\<lambda>_ _. [])) ''cid'' (mysql_mgr (demo_server Map.empty))) = Val None" by code_simp
  then obtain n where db: "GetUser_name (lib_mysql ?E) ''cid'' (mysql_mgr ?s) = (Val None, n)"
    by (auto simp: demo_server_def prod_eq_iff)
  have r: "redis_documented (lib_redis ?E) (\<lambda>ks. ks)" "redis_up (redis_mgr ?s)" "redis_server (redis_mgr ?s) = flow_keys True" "no_nul ''cid''"
      "\<And>x. no_nul (toStyledString (lib_json ?E) x)" "flow_keys True (USER_BASE_INFO @ ''cid'') = None"
    by (simp_all add: ref_redis_documented short_no_nul key_prefixes flow_keys_def)
  have c: "session_objs ?s ''s1'' = Some (new_CSession ''s1'' 0)" "has_room 1 (new_CSession ''s1'' 0)"
      "length (toStyledString (lib_json ?E) (search_reply None)) \<le> 32763"
    using flow_short [of "search_reply None"] by (simp_all add: new_session_room MAX_SENDQUE_def) (simp add: flow_docs_def)
  note run = search_shows_result [OF lib w r db _ c]
  then obtain w1 request t d reply w2 where x: "search_item_clicked (Some ADD_USER_TIP_ITEM) ?w = (Val (), w1)" "win_sent w1 = [(1008, request)]"
    "SearchInfoHandler ?E ''s1'' (q_toJson (flow_login flow_docs) request) ?s = (Val (), t)"
    "map_option outbox (session_objs t ''s1'') = Some [frame 1009 (toStyledString (short_json flow_docs) reply)]"
    "handleMsg (window_table (flow_window flow_docs)) 1009 (toStyledString (short_json flow_docs) reply) (event_loop w1) = Some (Val (), w2)"
    "find_failed (slist w2)"
    by (auto simp: m new_session_room)
  then show ?thesis by (intro exI conjI) (rule x)+
qed

end
