(* ===== verification/ClientEditor.thy ===== *)
theory ClientEditor
  imports ClientPage LabelBox
begin

text \<open>
  The editor of the chat page (\<open>gui/chats/message_text_edit.cpp\<close>) and the text of a bubble
  (\<open>gui/chats/content_bubble.cpp\<close>): documents of letters, pictures and emoticons, the clipboard, and what is
  sent. Pictures are known by their names; scaling, animation and menus are left out.
\<close>

section \<open>Documents\<close>

text \<open>
  A \<open>QString\<close> of a document, where \<open>None\<close> is the object replacement character. A letter carries the number of its
  character format, a picture its name and the number of the rest of its format, \<open>Emotion\<close> is the custom
  object of a bubble, and paragraphs are separated by \<open>Paragraph\<close>.
\<close>

type_synonym qtext = "char option list"

datatype doc_item = Letter nat "char option" | Picture string nat | Emotion string | Paragraph

text \<open>The clipboard and dropped data, by format; the messages are those of \<open>application/x-chat-messages\<close>.\<close>

datatype clip_msg = ClipText qtext | ClipEmotion string

record mime_data =
  md_messages :: "clip_msg list option"
  md_html :: "string option"
  md_image :: bool
  md_text :: "qtext option"

text \<open>What Qt decides: formats of inserted text, HTML in both directions, the base class, and the file system.\<close>

record editor_env =
  ed_gui :: gui_env
  insert_format :: "doc_item list \<Rightarrow> nat \<Rightarrow> nat"
  html_doc :: "string \<Rightarrow> doc_item list"
  toHtml :: "doc_item list \<Rightarrow> string"
  escaped :: "qtext \<Rightarrow> string"
  file_is_dir :: "string \<Rightarrow> bool"
  file_size :: "string \<Rightarrow> int"
  temp_png :: "nat \<Rightarrow> string"
  base_paste :: "mime_data \<Rightarrow> doc_item list"

record MessageTextEdit =
  ed_doc :: "doc_item list"
  ed_anchor :: nat
  ed_pos :: nat
  mMsgList :: "MsgInfo list"
  clipboard :: "mime_data option"
  uuids :: nat

definition new_MessageTextEdit :: MessageTextEdit where
  "new_MessageTextEdit = \<lparr>ed_doc = [], ed_anchor = 0, ed_pos = 0, mMsgList = [], clipboard = None, uuids = 0\<rparr>"

definition sel_start :: "MessageTextEdit \<Rightarrow> nat" where
  "sel_start s = min (ed_anchor s) (ed_pos s)"

definition sel_end :: "MessageTextEdit \<Rightarrow> nat" where
  "sel_end s = max (ed_anchor s) (ed_pos s)"

definition hasSelection :: "MessageTextEdit \<Rightarrow> bool" where
  "hasSelection s \<longleftrightarrow> ed_anchor s \<noteq> ed_pos s"

text \<open>
  \<open>document()->toPlainText()\<close>. Qt replaces a non-breaking space by a blank there; letters are bytes of UTF-8
  here, and the texts considered have no such space.
\<close>

fun plain_item :: "doc_item \<Rightarrow> char option" where
  "plain_item (Letter n c) = c"
| "plain_item (Picture name n) = None"
| "plain_item (Emotion name) = None"
| "plain_item Paragraph = Some (CHR 0x0A)"

section \<open>Inserting\<close>

text \<open>An insertion replaces the selection and leaves the cursor behind what was inserted.\<close>

definition insert_items :: "doc_item list \<Rightarrow> MessageTextEdit \<Rightarrow> MessageTextEdit" where
  "insert_items xs s = s\<lparr>ed_doc := take (sel_start s) (ed_doc s) @ xs @ drop (sel_end s) (ed_doc s),
     ed_anchor := sel_start s + length xs, ed_pos := sel_start s + length xs\<rparr>"

text \<open>\<open>QTextCursor::insertText\<close>: line feeds, carriage returns and pairs of both begin a paragraph.\<close>

fun text_items :: "nat \<Rightarrow> qtext \<Rightarrow> doc_item list" where
  "text_items n [] = []"
| "text_items n (c # cs) =
     (if c = Some (CHR 0x0D) then
        (if cs \<noteq> [] \<and> hd cs = Some (CHR 0x0A) then text_items n cs else Paragraph # text_items n cs)
      else if c = Some (CHR 0x0A) then Paragraph # text_items n cs
      else Letter n c # text_items n cs)"

definition insertText :: "editor_env \<Rightarrow> qtext \<Rightarrow> MessageTextEdit \<Rightarrow> MessageTextEdit" where
  "insertText E t s = insert_items (text_items (insert_format E (ed_doc s) (ed_pos s)) t) s"

definition insertMsgList :: "string \<Rightarrow> string \<Rightarrow> MsgInfo list \<Rightarrow> MsgInfo list" where
  "insertMsgList flag body l = l @ [\<lparr>msgFlag = flag, msg_body = body\<rparr>]"

text \<open>\<open>insertHtml\<close> of an image of 32 by 32 has format 0, \<open>insertImage\<close> has format 1.\<close>

definition addEmotionUrl :: "editor_env \<Rightarrow> string \<Rightarrow> MessageTextEdit \<Rightarrow> MessageTextEdit" where
  "addEmotionUrl E url s =
     (let t = insert_items [Picture url 0] s in
      if \<not> movie_valid (ed_gui E) url then t else t\<lparr>mMsgList := insertMsgList ''emotion'' url (mMsgList t)\<rparr>)"

definition insertImages :: "string \<Rightarrow> MessageTextEdit \<Rightarrow> MessageTextEdit" where
  "insertImages url s = (let t = insert_items [Picture url 1] s in t\<lparr>mMsgList := insertMsgList ''image'' url (mMsgList t)\<rparr>)"

definition insertTextFile :: "editor_env \<Rightarrow> string \<Rightarrow> MessageTextEdit \<Rightarrow> MessageTextEdit" where
  "insertTextFile E url s =
     (if file_is_dir E url then s
      else if file_size E url > 100 * 1024 * 1024 then s
      else let t = insert_items [Picture url 1] s in t\<lparr>mMsgList := insertMsgList ''file'' url (mMsgList t)\<rparr>)"

definition lower :: "char \<Rightarrow> char" where
  "lower c = (if of_char c \<ge> (65::nat) \<and> of_char c \<le> (90::nat) then char_of (of_char c + 32 :: nat) else c)"

text \<open>\<open>QFileInfo::suffix\<close>: what follows the last dot of the file name.\<close>

definition file_suffix :: "string \<Rightarrow> string" where
  "file_suffix url =
     (let name = drop (nat (lastIndexOf CHR ''/'' url + 1)) url; i = lastIndexOf CHR ''.'' name in
      if i < 0 then [] else drop (nat (i + 1)) name)"

definition isImage :: "string \<Rightarrow> bool" where
  "isImage url \<longleftrightarrow> map lower (file_suffix url) \<in>
     {''bmp'', ''jpg'', ''png'', ''tif'', ''gif'', ''pcx'', ''tga'', ''exif'', ''fpx'', ''svg'', ''psd'', ''cdr'', ''pcd'', ''dxf'', ''ufo'', ''eps'',
      ''ai'', ''raw'', ''wmf'', ''webp''}"

definition insertFileFromUrl :: "editor_env \<Rightarrow> string list \<Rightarrow> MessageTextEdit \<Rightarrow> MessageTextEdit" where
  "insertFileFromUrl E urls s = fold (\<lambda>url s. if isImage url then insertImages url s else insertTextFile E url s) urls s"

text \<open>\<open>getFileSize\<close>: the size is divided by the second component before it is printed with the unit.\<close>

definition getFileSize :: "int \<Rightarrow> int \<times> string" where
  "getFileSize n =
     (if n < 1024 then (1, ''B'') else if n < 1024 * 1224 then (1024, ''KB'')
      else if n < 1024 * 1024 * 1024 then (1024 * 1024, ''MB'') else (1024 * 1024 * 1024, ''GB''))"

section \<open>Copying\<close>

text \<open>A fragment of a document is a maximal run of characters of one format inside a paragraph.\<close>

fun same_format :: "doc_item \<Rightarrow> doc_item \<Rightarrow> bool" where
  "same_format (Letter m c) (Letter n d) = (m = n)"
| "same_format (Picture a m) (Picture b n) = (a = b \<and> m = n)"
| "same_format (Emotion a) (Emotion b) = (a = b)"
| "same_format x y = False"

fun fragments :: "nat \<Rightarrow> doc_item list \<Rightarrow> (nat \<times> doc_item list) list" where
  "fragments p [] = []"
| "fragments p (x # xs) =
     (if x = Paragraph then fragments (p + 1) xs
      else
        let ys = takeWhile (same_format x) xs in
        (p, x # ys) # fragments (p + 1 + length ys) (drop (length ys) xs))"

text \<open>The letters of a fragment in the selection, \<open>mid(copyStart, copyLength)\<close>.\<close>

definition frag_part :: "nat \<Rightarrow> nat \<Rightarrow> nat \<Rightarrow> doc_item list \<Rightarrow> doc_item list" where
  "frag_part sel_from sel_to p xs =
     (let copyStart = max p sel_from - p; copyEnd = min (p + length xs) sel_to - p in take (copyEnd - copyStart) (drop copyStart xs))"

definition is_emoticon :: "MsgInfo list \<Rightarrow> string \<Rightarrow> bool" where
  "is_emoticon l name \<longleftrightarrow> (\<exists>msg \<in> set l. msgFlag msg = ''emotion'' \<and> msg_body msg = name)"

text \<open>
  The body of the loop in \<open>createMimeDataFromSelection\<close>. The loop over the paragraphs from the one of the start to
  the one of the end meets every fragment that is not skipped by the test of the positions.
\<close>

definition copy_fragment :: "MsgInfo list \<Rightarrow> nat \<Rightarrow> nat \<Rightarrow> nat \<times> doc_item list \<Rightarrow> clip_msg list" where
  "copy_fragment l sel_from sel_to = (\<lambda>(p, xs).
     if p + length xs \<le> sel_from \<or> p \<ge> sel_to then []
     else
       case hd xs of
         Letter _ _ \<Rightarrow> [ClipText (map plain_item (frag_part sel_from sel_to p xs))]
       | Picture imgSource _ \<Rightarrow>
           if p \<ge> sel_from \<and> p + length xs \<le> sel_to \<and> is_emoticon l imgSource then [ClipEmotion imgSource] else []
       | _ \<Rightarrow> [])"

text \<open>That of \<open>ContentLabel::copySelectedContent\<close>.\<close>

definition bubble_fragment :: "nat \<Rightarrow> nat \<Rightarrow> nat \<times> doc_item list \<Rightarrow> clip_msg list" where
  "bubble_fragment sel_from sel_to = (\<lambda>(p, xs).
     if p + length xs \<le> sel_from \<or> p \<ge> sel_to then []
     else
       case hd xs of
         Emotion emotionUrl \<Rightarrow> if p \<ge> sel_from \<and> p + length xs \<le> sel_to then [ClipEmotion emotionUrl] else []
       | _ \<Rightarrow> [ClipText (map plain_item (frag_part sel_from sel_to p xs))])"

definition clip_plain :: "clip_msg \<Rightarrow> qtext" where
  "clip_plain m = (case m of ClipText t \<Rightarrow> t | ClipEmotion _ \<Rightarrow> [])"

definition clip_html :: "editor_env \<Rightarrow> clip_msg \<Rightarrow> string" where
  "clip_html E m =
     (case m of
        ClipText t \<Rightarrow> escaped E t
      | ClipEmotion url \<Rightarrow> concat [''<img class='', [CHR 0x27], ''emotion'', [CHR 0x27], '' src='', [CHR 0x27], url, [CHR 0x27],
          '' width='', [CHR 0x27], ''32'', [CHR 0x27], '' height='', [CHR 0x27], ''32'', [CHR 0x27], ''/>''])"

definition mime_of :: "editor_env \<Rightarrow> clip_msg list \<Rightarrow> mime_data" where
  "mime_of E ms = \<lparr>md_messages = Some ms, md_html = Some (''<html><body>'' @ concat (map (clip_html E) ms) @ ''</body></html>''),
     md_image = False, md_text = Some (concat (map clip_plain ms))\<rparr>"

definition createMimeDataFromSelection :: "editor_env \<Rightarrow> MessageTextEdit \<Rightarrow> mime_data" where
  "createMimeDataFromSelection E s =
     mime_of E (concat (map (copy_fragment (mMsgList s) (sel_start s) (sel_end s)) (fragments 0 (ed_doc s))))"

definition copySelectedContent :: "editor_env \<Rightarrow> doc_item list \<Rightarrow> nat \<Rightarrow> nat \<Rightarrow> mime_data option" where
  "copySelectedContent E d sel_from sel_to =
     (if sel_from = sel_to then None else Some (mime_of E (concat (map (bubble_fragment sel_from sel_to) (fragments 0 d)))))"

definition ed_copy :: "editor_env \<Rightarrow> MessageTextEdit \<Rightarrow> MessageTextEdit" where
  "ed_copy E s = (if \<not> hasSelection s then s else s\<lparr>clipboard := Some (createMimeDataFromSelection E s)\<rparr>)"

definition ed_cut :: "editor_env \<Rightarrow> MessageTextEdit \<Rightarrow> MessageTextEdit" where
  "ed_cut E s =
     (if \<not> hasSelection s then s
      else insert_items [] (s\<lparr>clipboard := Some (createMimeDataFromSelection E s)\<rparr>))"

section \<open>Pasting\<close>

definition paste_msg :: "editor_env \<Rightarrow> clip_msg \<Rightarrow> MessageTextEdit \<Rightarrow> MessageTextEdit" where
  "paste_msg E m s = (case m of ClipText t \<Rightarrow> insertText E t s | ClipEmotion url \<Rightarrow> addEmotionUrl E url s)"

text \<open>
  \<open>QTextCursor::charFormat\<close> is the format of the character before the cursor, at the beginning of a paragraph
  that of the one behind it.
\<close>

definition char_format_item :: "doc_item list \<Rightarrow> nat \<Rightarrow> doc_item option" where
  "char_format_item d p =
     (if p > 0 \<and> d ! (p - 1) \<noteq> Paragraph then Some (d ! (p - 1))
      else if p < length d \<and> d ! p \<noteq> Paragraph then Some (d ! p) else None)"

text \<open>What is looked for in the HTML text: the expression is not used as one, \<open>QString::contains\<close> takes it literally.\<close>

definition emotion_pattern :: "string \<Rightarrow> string" where
  "emotion_pattern name =
     (let q = [CHR ''['', CHR 0x22, CHR 0x27, CHR '']''] in
      ''<img[^>]*class='' @ q @ ''emotion'' @ q @ ''[^>]*src='' @ q @ name @ q)"

definition contains_text :: "string \<Rightarrow> string \<Rightarrow> bool" where
  "contains_text txt part \<longleftrightarrow> after_first part txt \<noteq> None"

definition paste_html_at :: "editor_env \<Rightarrow> mime_data \<Rightarrow> string \<Rightarrow> doc_item list \<Rightarrow> nat \<Rightarrow> MessageTextEdit \<Rightarrow> MessageTextEdit" where
  "paste_html_at E source html d p s =
     (case char_format_item d p of
        Some (Picture imgSource _) \<Rightarrow>
          if contains_text html (emotion_pattern imgSource) then addEmotionUrl E imgSource s else insert_items (base_paste E source) s
      | _ \<Rightarrow> insertText E [plain_item (d ! p)] s)"

definition insertFromMimeData :: "editor_env \<Rightarrow> mime_data \<Rightarrow> MessageTextEdit \<Rightarrow> MessageTextEdit" where
  "insertFromMimeData E source s =
     (case md_messages source of
        Some messages \<Rightarrow> fold (paste_msg E) messages s
      | None \<Rightarrow>
          (case md_html source of
             Some html \<Rightarrow> let d = html_doc E html in fold (paste_html_at E source html d) [0..<length d] s
           | None \<Rightarrow>
               if md_image source then
                 let tempPath = temp_png E (uuids s); t = insert_items [Picture tempPath 1] s in
                 t\<lparr>mMsgList := insertMsgList ''image'' tempPath (mMsgList t), uuids := uuids t + 1\<rparr>
               else
                 (case md_text source of
                    Some t \<Rightarrow> insertText E t s
                  | None \<Rightarrow> insert_items (base_paste E source) s)))"

text \<open>\<open>getUrl\<close>: of every line the part between the first and the second triple slash.\<close>

fun before_first :: "string \<Rightarrow> string \<Rightarrow> string" where
  "before_first p [] = []"
| "before_first p (c # cs) = (if take (length p) (c # cs) = p then [] else c # before_first p cs)"

fun text_lines :: "string \<Rightarrow> string list" where
  "text_lines [] = [[]]"
| "text_lines (c # cs) = (if c = CHR 0x0A then [] # text_lines cs else (c # hd (text_lines cs)) # tl (text_lines cs))"

definition getUrl :: "string \<Rightarrow> string list" where
  "getUrl txt = concat (map (\<lambda>url. case after_first ''///'' url of None \<Rightarrow> [] | Some rest \<Rightarrow> [before_first ''///'' rest]) (text_lines txt))"

text \<open>\<open>canInsertFromMimeData\<close>; the addresses are looked for when there is no text, in the empty text.\<close>

definition canInsertFromMimeData :: "bool \<Rightarrow> mime_data \<Rightarrow> bool" where
  "canInsertFromMimeData base_can source \<longleftrightarrow>
     md_image source \<or> md_html source \<noteq> None \<or> md_text source \<noteq> None \<or> getUrl [] \<noteq> [] \<or> base_can"

section \<open>Keys, dragging and sending\<close>

datatype ed_key = KeyReturn | KeyEnter | KeyC | KeyX | KeyV | OtherKey

text \<open>The result tells whether \<open>send\<close> is emitted; keys that the editor leaves alone are handled by \<open>QTextEdit\<close>.\<close>

definition keyPressEvent :: "editor_env \<Rightarrow> (ed_key \<Rightarrow> MessageTextEdit \<Rightarrow> MessageTextEdit) \<Rightarrow> ed_key \<Rightarrow> bool \<Rightarrow> MessageTextEdit \<Rightarrow> bool \<times> MessageTextEdit" where
  "keyPressEvent E base_key k ctrl s =
     (if k = KeyReturn \<or> k = KeyEnter then if ctrl then (False, insertText E [Some (CHR 0x0A)] s) else (True, s)
      else if ctrl \<and> k = KeyC then (False, ed_copy E s)
      else if ctrl \<and> k = KeyX then (False, ed_cut E s)
      else if ctrl \<and> k = KeyV then (False, case clipboard s of None \<Rightarrow> s | Some md \<Rightarrow> insertFromMimeData E md s)
      else (False, base_key k s))"

definition dragEnterEvent :: "bool \<Rightarrow> bool" where
  "dragEnterEvent source_is_this \<longleftrightarrow> \<not> source_is_this"

definition dropEvent :: "editor_env \<Rightarrow> mime_data \<Rightarrow> MessageTextEdit \<Rightarrow> MessageTextEdit" where
  "dropEvent E = insertFromMimeData E"

text \<open>\<open>getMsgList\<close> with the document and the list of the editor, which it clears.\<close>

definition take_messages :: "editor_env \<Rightarrow> MessageTextEdit \<Rightarrow> MsgInfo list \<times> MessageTextEdit" where
  "take_messages E s =
     (getMsgList (contains_text (toHtml E (ed_doc s))) (mMsgList s) (map plain_item (ed_doc s)),
      s\<lparr>ed_doc := [], ed_anchor := 0, ed_pos := 0, mMsgList := []\<rparr>)"

section \<open>The document of a bubble\<close>

text \<open>\<open>ContentBubbleFrame::setContent\<close> and \<open>insertEmotion\<close>: the text of a bubble; an invalid animation leaves nothing.\<close>

definition bubble_item :: "editor_env \<Rightarrow> MsgInfo \<Rightarrow> doc_item list \<Rightarrow> doc_item list" where
  "bubble_item E msg d =
     (if msgFlag msg = ''text'' then d @ text_items (insert_format E d (length d)) (map Some (msg_body msg))
      else if msgFlag msg = ''emotion'' \<and> movie_valid (ed_gui E) (msg_body msg) then d @ [Emotion (msg_body msg)]
      else d)"

definition bubble_doc :: "editor_env \<Rightarrow> MsgInfo list \<Rightarrow> doc_item list" where
  "bubble_doc E messages = fold (bubble_item E) messages []"

text \<open>\<open>calculateMaxWidth\<close>: the widest paragraph, 34 for every emoticon, the margins and 5.\<close>

fun paragraph_widths :: "(qtext \<Rightarrow> int) \<Rightarrow> qtext \<Rightarrow> doc_item list \<Rightarrow> int list" where
  "paragraph_widths fm t [] = [fm t]"
| "paragraph_widths fm t (x # xs) = (if x = Paragraph then fm t # paragraph_widths fm [] xs else paragraph_widths fm (t @ [plain_item x]) xs)"

definition calculateMaxWidth :: "(qtext \<Rightarrow> int) \<Rightarrow> int \<Rightarrow> int \<Rightarrow> MsgInfo list \<Rightarrow> doc_item list \<Rightarrow> int" where
  "calculateMaxWidth fm doc_margin margins messages d =
     fold (\<lambda>txtW max_width. if max_width < txtW then txtW else max_width) (paragraph_widths fm [] d) 0 + doc_margin * 2 + margins + 5 +
     34 * int (length (filter (\<lambda>msg. msgFlag msg = ''emotion'') messages))"

end
