(* ===== verification/EditorFacts.thy ===== *)
theory EditorFacts
  imports ClientEditor
begin

text \<open>
  What copying, pasting and sending do to the contents of the editor. The locale \<open>copier\<close> is what the editor and
  the bubbles share: a fragment inside the selection is copied, one outside is not.
\<close>

section \<open>Contents\<close>

datatype screen_unit = SChar "char option" | SEmotion string | SPicture string | SBreak

text \<open>What an item shows, by the list of the inserted objects; what the clipboard carries.\<close>

fun screen_item :: "MsgInfo list \<Rightarrow> doc_item \<Rightarrow> screen_unit" where
  "screen_item l (Letter n c) = SChar c"
| "screen_item l (Picture name n) = (if is_emoticon l name then SEmotion name else SPicture name)"
| "screen_item l (Emotion name) = SEmotion name"
| "screen_item l Paragraph = SBreak"

definition screen :: "MessageTextEdit \<Rightarrow> screen_unit list" where
  "screen s = map (screen_item (mMsgList s)) (ed_doc s)"

fun copyable :: "screen_unit \<Rightarrow> bool" where
  "copyable (SChar c) = True"
| "copyable (SEmotion name) = True"
| "copyable (SPicture name) = False"
| "copyable SBreak = False"

fun clip_shown :: "clip_msg \<Rightarrow> screen_unit list" where
  "clip_shown (ClipText t) = map SChar t"
| "clip_shown (ClipEmotion name) = [SEmotion name]"

definition between :: "nat \<Rightarrow> nat \<Rightarrow> 'a list \<Rightarrow> 'a list" where
  "between a b xs = take (b - a) (drop a xs)"

section \<open>Fragments\<close>

lemma frag_part_slice: "frag_part a b p xs = drop (a - p) (take (b - p) xs)"
proof -
  have "max p a - p = a - p" by simp
  moreover have "take (min (p + length xs) b - p - (a - p)) (drop (a - p) xs) = take (b - p - (a - p)) (drop (a - p) xs)"
    by (cases "p + length xs \<le> b") (simp_all add: min_def)
  ultimately show ?thesis by (simp add: frag_part_def Let_def drop_take)
qed

lemma frag_part_append: "frag_part a b p (xs @ ys) = frag_part a b p xs @ frag_part a b (p + length xs) ys"
  by (cases "length xs \<le> b - p") (simp_all add: frag_part_slice)

lemma frag_part_outside: "p + length xs \<le> a \<or> b \<le> p \<Longrightarrow> frag_part a b p xs = []"
  by (auto simp: frag_part_slice)

lemma frag_part_all: "frag_part a b 0 xs = between a b xs"
  by (simp add: frag_part_slice between_def drop_take)

fun is_letter :: "doc_item \<Rightarrow> bool" where
  "is_letter (Letter n c) = True"
| "is_letter x = False"

text \<open>No object stands beside one of its own format, which would make one fragment of both.\<close>

fun no_twins :: "doc_item list \<Rightarrow> bool" where
  "no_twins (x # y # xs) \<longleftrightarrow> (is_letter x \<or> \<not> same_format x y) \<and> no_twins (y # xs)"
| "no_twins xs \<longleftrightarrow> True"

lemma no_twins_Cons: "no_twins (x # xs) \<Longrightarrow> no_twins xs"
  by (cases xs) simp_all

lemma no_twins_drop: "no_twins xs \<Longrightarrow> no_twins (drop n xs)"
  by (induction n arbitrary: xs) (auto simp: drop_Suc dest: no_twins_Cons split: list.splits, metis no_twins_Cons list.exhaust_sel tl_Nil)

lemma no_twins_run: "no_twins (x # xs) \<Longrightarrow> is_letter x \<or> takeWhile (same_format x) xs = []"
  by (cases xs) auto

locale copier =
  fixes copy :: "nat \<Rightarrow> nat \<Rightarrow> nat \<times> doc_item list \<Rightarrow> clip_msg list"
    and shows_item :: "doc_item \<Rightarrow> screen_unit list"
  assumes skips: "p + length xs \<le> a \<or> b \<le> p \<Longrightarrow> copy a b (p, xs) = []"
    and copies: "xs \<noteq> [] \<Longrightarrow> hd xs \<noteq> Paragraph \<Longrightarrow> \<forall>x \<in> set (tl xs). same_format (hd xs) x \<Longrightarrow> is_letter (hd xs) \<or> length xs = 1 \<Longrightarrow>
      a < p + length xs \<Longrightarrow> p < b \<Longrightarrow> concat (map clip_shown (copy a b (p, xs))) = concat (map shows_item (frag_part a b p xs))"
    and breaks: "shows_item Paragraph = []"
begin

lemma copy_run:
  assumes "xs \<noteq> []" "hd xs \<noteq> Paragraph" "\<forall>x \<in> set (tl xs). same_format (hd xs) x" "is_letter (hd xs) \<or> length xs = 1"
  shows "concat (map clip_shown (copy a b (p, xs))) = concat (map shows_item (frag_part a b p xs))"
  using copies [OF assms, of a p b] skips [of p xs a b] frag_part_outside [of p xs a b] by (cases "a < p + length xs \<and> p < b") auto

text \<open>Without twins the copied messages show what was selected, except what cannot be copied.\<close>

lemma copy_fragments:
  "no_twins d \<Longrightarrow>
   concat (map clip_shown (concat (map (copy a b) (fragments p d)))) = concat (map shows_item (frag_part a b p d))"
proof (induction p d rule: fragments.induct)
  case (1 p)
  then show ?case by (simp add: frag_part_outside frag_part_slice)
next
  case (2 p x xs)
  show ?case
  proof (cases "x = Paragraph")
    case True
    then show ?thesis
      using "2.IH"(1) no_twins_Cons [OF "2.prems"] frag_part_append [of a b p "[x]" xs] by (auto simp: frag_part_slice breaks drop_Cons' take_Cons')
  next
    case False
    define ys where "ys = takeWhile (same_format x) xs"
    have split: "x # xs = (x # ys) @ drop (length ys) xs"
      by (simp add: ys_def) (metis takeWhile_dropWhile_id dropWhile_eq_drop)
    have "concat (map clip_shown (copy a b (p, x # ys))) = concat (map shows_item (frag_part a b p (x # ys)))"
      using no_twins_run [OF "2.prems"] False by (intro copy_run) (auto simp: ys_def dest: set_takeWhileD)
    moreover have "concat (map clip_shown (concat (map (copy a b) (fragments (p + 1 + length ys) (drop (length ys) xs))))) =
        concat (map shows_item (frag_part a b (p + 1 + length ys) (drop (length ys) xs)))"
      using "2.IH"(2) [OF False ys_def] no_twins_drop [OF no_twins_Cons [OF "2.prems"]] by blast
    moreover have "frag_part a b p (x # xs) = frag_part a b p (x # ys) @ frag_part a b (p + 1 + length ys) (drop (length ys) xs)"
      using frag_part_append [of a b p "x # ys" "drop (length ys) xs"] split by (simp add: add.commute)
    moreover have "fragments p (x # xs) = (p, x # ys) # fragments (p + 1 + length ys) (drop (length ys) xs)"
      using False by (simp add: ys_def Let_def)
    ultimately show ?thesis by simp
  qed
qed

end

section \<open>Both copiers\<close>

definition editor_shows :: "MsgInfo list \<Rightarrow> doc_item \<Rightarrow> screen_unit list" where
  "editor_shows l x = (case x of Letter _ c \<Rightarrow> [SChar c] | Picture name _ \<Rightarrow> if is_emoticon l name then [SEmotion name] else [] | _ \<Rightarrow> [])"

definition bubble_shows :: "doc_item \<Rightarrow> screen_unit list" where
  "bubble_shows x = (case x of Letter _ c \<Rightarrow> [SChar c] | Picture _ _ \<Rightarrow> [SChar None] | Emotion name \<Rightarrow> [SEmotion name] | Paragraph \<Rightarrow> [])"

text \<open>The letters of a run.\<close>

lemma letters_shown:
  assumes "\<forall>x \<in> set xs. is_letter x"
  shows "concat (map (editor_shows l) xs) = map (SChar \<circ> plain_item) xs" "concat (map bubble_shows xs) = map (SChar \<circ> plain_item) xs"
  using assms by (induction xs) (auto simp: editor_shows_def bubble_shows_def elim!: is_letter.elims(2))

lemma same_format_letter: "same_format x y \<Longrightarrow> is_letter x = is_letter y"
  by (cases x; cases y) simp_all

lemma run_of_letters: "is_letter (hd xs) \<Longrightarrow> \<forall>x \<in> set (tl xs). same_format (hd xs) x \<Longrightarrow> \<forall>x \<in> set xs. is_letter x"
  by (cases xs) (auto dest: same_format_letter)

lemma part_of_letters: "\<forall>x \<in> set xs. is_letter x \<Longrightarrow> \<forall>x \<in> set (frag_part a b p xs). is_letter x"
  by (auto simp: frag_part_slice dest!: in_set_dropD in_set_takeD)

lemma single_inside: "length xs = 1 \<Longrightarrow> a < p + length xs \<Longrightarrow> p < b \<Longrightarrow> p \<ge> a \<and> p + length xs \<le> b \<and> frag_part a b p xs = xs"
  by (auto simp: frag_part_slice)

interpretation editor_copy: copier "copy_fragment l" "editor_shows l" for l
proof
  fix xs and a b p :: nat
  assume xs: "xs \<noteq> []" "hd xs \<noteq> Paragraph" "\<forall>x \<in> set (tl xs). same_format (hd xs) x" "is_letter (hd xs) \<or> length xs = 1" "a < p + length xs" "p < b"
  show "concat (map clip_shown (copy_fragment l a b (p, xs))) = concat (map (editor_shows l) (frag_part a b p xs))"
  proof (cases "is_letter (hd xs)")
    case True
    then show ?thesis
      using xs letters_shown(1) [OF part_of_letters [OF run_of_letters [OF True xs(3)]], of l a b p]
      by (cases "hd xs") (simp_all add: copy_fragment_def)
  next
    case False
    then obtain x where "xs = [x]" using xs(4) by (auto simp: length_Suc_conv)
    then show ?thesis using single_inside [of xs a p b] xs(2,5,6) False by (cases x) (simp_all add: copy_fragment_def editor_shows_def)
  qed
qed (auto simp: copy_fragment_def editor_shows_def)

interpretation bubble_copy: copier bubble_fragment bubble_shows
proof
  fix xs and a b p :: nat
  assume xs: "xs \<noteq> []" "hd xs \<noteq> Paragraph" "\<forall>x \<in> set (tl xs). same_format (hd xs) x" "is_letter (hd xs) \<or> length xs = 1" "a < p + length xs" "p < b"
  show "concat (map clip_shown (bubble_fragment a b (p, xs))) = concat (map bubble_shows (frag_part a b p xs))"
  proof (cases "is_letter (hd xs)")
    case True
    then show ?thesis
      using xs letters_shown(2) [OF part_of_letters [OF run_of_letters [OF True xs(3)]], of a b p]
      by (cases "hd xs") (simp_all add: bubble_fragment_def)
  next
    case False
    then obtain x where "xs = [x]" using xs(4) by (auto simp: length_Suc_conv)
    then show ?thesis using single_inside [of xs a p b] xs(2,5,6) False by (cases x) (simp_all add: bubble_fragment_def bubble_shows_def)
  qed
qed (auto simp: bubble_fragment_def bubble_shows_def)

section \<open>Pasting what was copied\<close>

text \<open>The documents of the editor: no custom objects, and line ends only as paragraphs.\<close>

definition line_ends :: "char option set" where
  "line_ends = {Some (CHR 0x0A), Some (CHR 0x0D)}"

fun item_ok :: "doc_item \<Rightarrow> bool" where
  "item_ok (Letter n c) \<longleftrightarrow> c \<notin> line_ends"
| "item_ok (Picture name n) \<longleftrightarrow> True"
| "item_ok (Emotion name) \<longleftrightarrow> False"
| "item_ok Paragraph \<longleftrightarrow> True"

definition editor_ok :: "MessageTextEdit \<Rightarrow> bool" where
  "editor_ok s \<longleftrightarrow> (\<forall>x \<in> set (ed_doc s). item_ok x) \<and> ed_anchor s \<le> length (ed_doc s) \<and> ed_pos s \<le> length (ed_doc s)"

lemma text_items_ok: "\<forall>x \<in> set (text_items n t). item_ok x"
  by (induction n t rule: text_items.induct) (auto simp: line_ends_def)

lemma text_items_plain: "set t \<inter> line_ends = {} \<Longrightarrow> text_items n t = map (Letter n) t"
  by (induction n t rule: text_items.induct) (auto simp: line_ends_def)

lemma insert_items_ok: "editor_ok s \<Longrightarrow> \<forall>x \<in> set xs. item_ok x \<Longrightarrow> editor_ok (insert_items xs s)"
  by (auto simp: editor_ok_def insert_items_def sel_start_def sel_end_def dest: in_set_takeD in_set_dropD)

lemma editor_ok_list [simp]: "editor_ok (s\<lparr>mMsgList := l\<rparr>) = editor_ok s" "editor_ok (s\<lparr>uuids := n\<rparr>) = editor_ok s"
  "editor_ok (s\<lparr>clipboard := c\<rparr>) = editor_ok s"
  by (simp_all add: editor_ok_def)

lemma insertions_ok:
  assumes "editor_ok s"
  shows "editor_ok (insertText E t s)" "editor_ok (addEmotionUrl E url s)" "editor_ok (insertImages url s)" "editor_ok (insertTextFile E url s)"
    "editor_ok (ed_copy E s)" "editor_ok (ed_cut E s)" "editor_ok (paste_msg E m s)"
  using insert_items_ok [OF assms] text_items_ok assms
  by (simp_all add: insertText_def addEmotionUrl_def insertImages_def insertTextFile_def ed_copy_def ed_cut_def Let_def paste_msg_def
      insert_items_ok split: clip_msg.splits)

text \<open>The contents after an insertion, by a fixed list of objects.\<close>

definition shown_by :: "MsgInfo list \<Rightarrow> MessageTextEdit \<Rightarrow> screen_unit list" where
  "shown_by l s = map (screen_item l) (ed_doc s)"

lemma shown_insert:
  "shown_by l (insert_items xs s) = take (sel_start s) (shown_by l s) @ map (screen_item l) xs @ drop (sel_end s) (shown_by l s)"
  by (simp add: shown_by_def insert_items_def take_map drop_map)

lemma shown_by_fields [simp]: "shown_by l (s\<lparr>mMsgList := k\<rparr>) = shown_by l s" "shown_by l (s\<lparr>clipboard := c\<rparr>) = shown_by l s"
  by (simp_all add: shown_by_def)

lemma cursor_after:
  "sel_start (insert_items xs s) = sel_start s + length xs" "sel_end (insert_items xs s) = sel_start s + length xs"
  "sel_start (s\<lparr>mMsgList := k\<rparr>) = sel_start s" "sel_end (s\<lparr>mMsgList := k\<rparr>) = sel_end s"
  by (simp_all add: insert_items_def sel_start_def sel_end_def)

lemma is_emoticon_insert: "is_emoticon (insertMsgList flag url l) name \<longleftrightarrow> is_emoticon l name \<or> flag = ''emotion'' \<and> url = name"
  by (auto simp: is_emoticon_def insertMsgList_def)

text \<open>A message that can be pasted without changing which pictures are emoticons.\<close>

fun pastes_plainly :: "MsgInfo list \<Rightarrow> clip_msg \<Rightarrow> bool" where
  "pastes_plainly l (ClipText t) \<longleftrightarrow> set t \<inter> line_ends = {}"
| "pastes_plainly l (ClipEmotion name) \<longleftrightarrow> is_emoticon l name"

lemma insert_items_list [simp]: "mMsgList (insert_items xs s) = mMsgList s"
  by (simp add: insert_items_def)

text \<open>A pasted message is one insertion, with an entry in the list for an emoticon.\<close>

lemma paste_msg_insert:
  assumes "pastes_plainly l m"
  obtains xs k where "paste_msg E m s = (insert_items xs s)\<lparr>mMsgList := k\<rparr>" "map (screen_item l) xs = clip_shown m"
    "k = mMsgList s \<or> (\<exists>url. m = ClipEmotion url \<and> k = insertMsgList ''emotion'' url (mMsgList s))"
proof (cases m)
  case (ClipText t)
  define xs where "xs = map (Letter (insert_format E (ed_doc s) (ed_pos s))) t"
  have "paste_msg E m s = (insert_items xs s)\<lparr>mMsgList := mMsgList s\<rparr>" using assms ClipText
    by (simp add: paste_msg_def insertText_def text_items_plain xs_def insert_items_def)
  then show ?thesis by (rule that) (use ClipText in \<open>simp_all add: xs_def\<close>)
next
  case (ClipEmotion url)
  let ?k = "if movie_valid (ed_gui E) url then insertMsgList ''emotion'' url (mMsgList s) else mMsgList s"
  have "paste_msg E m s = (insert_items [Picture url 0] s)\<lparr>mMsgList := ?k\<rparr>" using ClipEmotion
    by (simp add: paste_msg_def addEmotionUrl_def Let_def insert_items_def)
  then show ?thesis by (rule that) (use assms ClipEmotion in simp_all)
qed

lemma paste_one:
  assumes "pastes_plainly l m"
  shows "shown_by l (paste_msg E m s) = take (sel_start s) (shown_by l s) @ clip_shown m @ drop (sel_end s) (shown_by l s)"
    "sel_start (paste_msg E m s) = sel_start s + length (clip_shown m)" "sel_end (paste_msg E m s) = sel_start s + length (clip_shown m)"
    "\<forall>name. is_emoticon (mMsgList s) name = is_emoticon l name \<Longrightarrow> is_emoticon (mMsgList (paste_msg E m s)) name = is_emoticon l name"
proof -
  obtain xs k where x: "paste_msg E m s = (insert_items xs s)\<lparr>mMsgList := k\<rparr>" "map (screen_item l) xs = clip_shown m"
      "k = mMsgList s \<or> (\<exists>url. m = ClipEmotion url \<and> k = insertMsgList ''emotion'' url (mMsgList s))"
    using paste_msg_insert [OF assms] by metis
  have n: "length xs = length (clip_shown m)" using x(2) length_map by metis
  show "shown_by l (paste_msg E m s) = take (sel_start s) (shown_by l s) @ clip_shown m @ drop (sel_end s) (shown_by l s)"
    by (simp add: x(1,2) shown_insert)
  show "sel_start (paste_msg E m s) = sel_start s + length (clip_shown m)" "sel_end (paste_msg E m s) = sel_start s + length (clip_shown m)"
    by (simp_all add: x(1) cursor_after n)
  show "is_emoticon (mMsgList (paste_msg E m s)) name = is_emoticon l name" if "\<forall>name. is_emoticon (mMsgList s) name = is_emoticon l name"
  proof (cases "k = mMsgList s")
    case False
    then obtain url where "m = ClipEmotion url" "k = insertMsgList ''emotion'' url (mMsgList s)" using x(3) by blast
    then have "mMsgList (paste_msg E m s) = insertMsgList ''emotion'' url (mMsgList s)" "is_emoticon l url" using x(1) assms by simp_all
    then show ?thesis using that by (cases "url = name") (simp_all add: is_emoticon_insert)
  qed (simp add: x(1) that)
qed

lemma paste_all:
  assumes "\<forall>m \<in> set ms. pastes_plainly l m" "editor_ok s" "hasSelection s \<Longrightarrow> ms \<noteq> []" "\<forall>name. is_emoticon (mMsgList s) name = is_emoticon l name"
  shows "shown_by l (fold (paste_msg E) ms s) = take (sel_start s) (shown_by l s) @ concat (map clip_shown ms) @ drop (sel_end s) (shown_by l s) \<and>
    (\<forall>name. is_emoticon (mMsgList (fold (paste_msg E) ms s)) name = is_emoticon l name) \<and> editor_ok (fold (paste_msg E) ms s)"
  using assms
proof (induction ms arbitrary: s)
  case Nil
  then have "ed_anchor s = ed_pos s" by (auto simp: hasSelection_def)
  then have "sel_start s = sel_end s" by (simp add: sel_start_def sel_end_def)
  then show ?case using Nil by simp
next
  case (Cons m ms)
  define t where "t = paste_msg E m s"
  have ok: "editor_ok t" unfolding t_def by (rule insertions_ok) (rule Cons.prems)
  have em: "\<forall>name. is_emoticon (mMsgList t) name = is_emoticon l name" using paste_one(4) [of l m s E] Cons.prems by (simp add: t_def)
  have cur: "sel_start t = sel_start s + length (clip_shown m)" "sel_end t = sel_start s + length (clip_shown m)"
    using paste_one(2,3) [of l m E s] Cons.prems by (simp_all add: t_def)
  have nosel: "\<not> hasSelection t" using cur by (auto simp: hasSelection_def sel_start_def sel_end_def)
  have le: "sel_start s \<le> length (shown_by l s)" using Cons.prems(2) by (auto simp: shown_by_def editor_ok_def sel_start_def)
  have sh: "shown_by l t = take (sel_start s) (shown_by l s) @ clip_shown m @ drop (sel_end s) (shown_by l s)"
    using paste_one(1) [of l m E s] Cons.prems by (simp add: t_def)
  have "shown_by l (fold (paste_msg E) ms t) = take (sel_start t) (shown_by l t) @ concat (map clip_shown ms) @ drop (sel_end t) (shown_by l t) \<and>
    (\<forall>name. is_emoticon (mMsgList (fold (paste_msg E) ms t)) name = is_emoticon l name) \<and> editor_ok (fold (paste_msg E) ms t)"
    using Cons.prems nosel by (intro Cons.IH ok em) auto
  then show ?case using le by (simp add: cur sh flip: t_def)
qed

text \<open>What the editor copies can be pasted.\<close>

lemma fragments_subset: "(q, xs) \<in> set (fragments p d) \<Longrightarrow> set xs \<subseteq> set d"
proof (induction p d rule: fragments.induct)
  case (2 p x xs')
  then show ?case
    by (auto simp: Let_def split: if_splits dest!: in_set_takeD in_set_dropD set_takeWhileD)
qed simp

lemma letters_plain: "\<forall>x \<in> set xs. item_ok x \<Longrightarrow> \<forall>x \<in> set xs. is_letter x \<Longrightarrow> set (map plain_item xs) \<inter> line_ends = {}"
  by (induction xs) (auto elim!: is_letter.elims(2))

lemma run_letters:
  "(q, xs) \<in> set (fragments p d) \<Longrightarrow> xs \<noteq> [] \<and> (\<forall>x \<in> set (tl xs). same_format (hd xs) x)"
  by (induction p d rule: fragments.induct) (auto simp: Let_def split: if_splits dest: set_takeWhileD)

lemma copied_plainly:
  assumes "\<forall>x \<in> set d. item_ok x" "m \<in> set (concat (map (copy_fragment l a b) (fragments p d)))"
  shows "pastes_plainly l m"
proof -
  obtain q xs where f: "(q, xs) \<in> set (fragments p d)" "m \<in> set (copy_fragment l a b (q, xs))" using assms(2) by auto
  have ok: "\<forall>x \<in> set xs. item_ok x" using fragments_subset [OF f(1)] assms(1) by blast
  show ?thesis
  proof (cases "is_letter (hd xs)")
    case True
    have "\<forall>x \<in> set xs. is_letter x" by (rule run_of_letters [OF True]) (use run_letters [OF f(1)] in blast)
    then have "set (map plain_item (frag_part a b q xs)) \<inter> line_ends = {}"
      using ok by (intro letters_plain part_of_letters) (auto simp: frag_part_slice dest!: in_set_dropD in_set_takeD)
    then show ?thesis using f(2) True by (cases "hd xs") (auto simp: copy_fragment_def split: if_splits)
  qed (use f(2) in \<open>auto simp: copy_fragment_def split: if_splits doc_item.splits\<close>)
qed

lemma editor_shows_screen: "\<forall>x \<in> set xs. item_ok x \<Longrightarrow> concat (map (editor_shows l) xs) = filter copyable (map (screen_item l) xs)"
  by (induction xs) (auto simp: editor_shows_def elim!: item_ok.elims split: doc_item.splits)

lemma copied_contents:
  assumes "editor_ok s" "no_twins (ed_doc s)"
  shows "concat (map clip_shown (the (md_messages (createMimeDataFromSelection E s)))) =
    filter copyable (between (sel_start s) (sel_end s) (screen s))"
proof -
  have ok: "\<forall>x \<in> set (between (sel_start s) (sel_end s) (ed_doc s)). item_ok x"
    using assms(1) by (auto simp: between_def editor_ok_def dest!: in_set_dropD in_set_takeD)
  show ?thesis
    using editor_shows_screen [OF ok, of "mMsgList s"]
    by (simp add: createMimeDataFromSelection_def mime_of_def editor_copy.copy_fragments [OF assms(2)] frag_part_all screen_def between_def
        take_map drop_map)
qed

text \<open>
  Copying and pasting with the keyboard: when a selection is copied with Ctrl+C and pasted with Ctrl+V at any
  position, the editor shows there what was selected, letters and emoticons in their order, and everything else is
  unchanged. Line ends and other pictures of the selection are not copied. This holds for documents in which no
  emoticon stands beside an equal one.
\<close>

theorem copy_and_paste:
  assumes "editor_ok s" "no_twins (ed_doc s)" "hasSelection s" "q \<le> length (ed_doc s)"
    and "keyPressEvent E base_key KeyC True s = (c, t)"
    and "keyPressEvent E base_key KeyV True (t\<lparr>ed_anchor := q, ed_pos := q\<rparr>) = (v, u)"
  shows "screen u = take q (screen s) @ filter copyable (between (sel_start s) (sel_end s) (screen s)) @ drop q (screen s) \<and>
    editor_ok u \<and> \<not> c \<and> \<not> v"
proof -
  define md where "md = createMimeDataFromSelection E s"
  define ms where "ms = the (md_messages md)"
  define t' where "t' = s\<lparr>clipboard := Some md, ed_anchor := q, ed_pos := q\<rparr>"
  have m: "md_messages md = Some ms" by (simp add: ms_def md_def createMimeDataFromSelection_def mime_of_def)
  have t: "t = s\<lparr>clipboard := Some md\<rparr>" "\<not> c" using assms(3,5) by (auto simp: keyPressEvent_def ed_copy_def md_def)
  then have u: "u = fold (paste_msg E) ms t'" "\<not> v"
    using assms(6) m by (auto simp: keyPressEvent_def insertFromMimeData_def t'_def)
  have p: "\<forall>m \<in> set ms. pastes_plainly (mMsgList s) m"
    using copied_plainly [of "ed_doc s"] assms(1) by (auto simp: ms_def md_def createMimeDataFromSelection_def mime_of_def editor_ok_def)
  have ok: "editor_ok t'" "\<not> hasSelection t'" "mMsgList t' = mMsgList s" "sel_start t' = q" "sel_end t' = q"
    using assms(1,4) by (simp_all add: t'_def editor_ok_def hasSelection_def sel_start_def sel_end_def)
  have pasted: "shown_by (mMsgList s) u = take q (shown_by (mMsgList s) t') @ concat (map clip_shown ms) @ drop q (shown_by (mMsgList s) t')"
      "\<forall>name. is_emoticon (mMsgList u) name = is_emoticon (mMsgList s) name" "editor_ok u"
    using paste_all [OF p ok(1), of E] ok by (simp_all add: u(1))
  have item: "screen_item (mMsgList u) x = screen_item (mMsgList s) x" for x using pasted(2) by (cases x) simp_all
  have "screen u = shown_by (mMsgList s) u" "screen s = shown_by (mMsgList s) t'"
    by (simp_all add: screen_def shown_by_def item t'_def)
  moreover have "concat (map clip_shown ms) = filter copyable (between (sel_start s) (sel_end s) (screen s))"
    using copied_contents [OF assms(1,2), of E] by (simp add: ms_def md_def)
  ultimately show ?thesis using pasted(1,3) u(2) t(2) by simp
qed

section \<open>Sending what is shown\<close>

text \<open>Letters and the names of objects, of a message and of the document.\<close>

definition msg_units :: "MsgInfo \<Rightarrow> (char + string) list" where
  "msg_units msg = (if msgFlag msg = ''text'' then map Inl (msg_body msg) else [Inr (msg_body msg)])"

fun doc_unit :: "doc_item \<Rightarrow> char + string" where
  "doc_unit (Letter n c) = Inl (the c)"
| "doc_unit (Picture name n) = Inr name"
| "doc_unit (Emotion name) = Inr name"
| "doc_unit Paragraph = Inl (CHR 0x0A)"

fun object_names :: "doc_item list \<Rightarrow> string list" where
  "object_names [] = []"
| "object_names (x # xs) = (case x of Picture name _ \<Rightarrow> name # object_names xs | Emotion name \<Rightarrow> name # object_names xs | _ \<Rightarrow> object_names xs)"

definition no_stray :: "doc_item list \<Rightarrow> bool" where
  "no_stray d \<longleftrightarrow> (\<forall>n. Letter n None \<notin> set d)"

text \<open>The list of inserted objects follows the document.\<close>

definition in_order :: "MessageTextEdit \<Rightarrow> bool" where
  "in_order s \<longleftrightarrow> map msg_body (mMsgList s) = object_names (ed_doc s) \<and> (\<forall>msg \<in> set (mMsgList s). msgFlag msg \<noteq> ''text'') \<and>
     no_stray (ed_doc s)"

text \<open>Documented: the HTML form of a document names the source of each of its pictures.\<close>

definition html_names :: "editor_env \<Rightarrow> doc_item list \<Rightarrow> bool" where
  "html_names E d \<longleftrightarrow> (\<forall>name \<in> set (object_names d). contains_text (toHtml E d) name)"

lemma object_names_append [simp]: "object_names (xs @ ys) = object_names xs @ object_names ys"
  by (induction xs) (auto split: doc_item.splits)

lemma text_units: "concat (map msg_units (text_msg txt)) = map Inl txt"
  by (simp add: text_msg_def msg_units_def)

lemma object_units: "msgFlag msg \<noteq> ''text'' \<Longrightarrow> msg_units msg = [Inr (msg_body msg)]"
  by (simp add: msg_units_def)

lemma collected:
  assumes "map msg_body msgs = object_names d" "\<forall>name \<in> set (object_names d). html name" "\<forall>msg \<in> set msgs. msgFlag msg \<noteq> ''text''" "no_stray d"
  shows "concat (map msg_units (collect_msgs html msgs acc (map plain_item d))) = map Inl acc @ map doc_unit d"
  using assms
proof (induction d arbitrary: msgs acc)
  case (Cons x d)
  have stray: "no_stray d" using Cons.prems(4) by (auto simp: no_stray_def)
  show ?case
  proof (cases "plain_item x")
    case None
    then obtain name where x: "object_names (x # d) = name # object_names d" "doc_unit x = Inr name"
      using Cons.prems(4) by (cases x) (auto simp: no_stray_def)
    then obtain msg ms where m: "msgs = msg # ms" "msg_body msg = name" "map msg_body ms = object_names d"
      using Cons.prems(1) by (auto simp: map_eq_Cons_conv)
    then show ?thesis using Cons.IH [OF m(3), of "[]"] Cons.prems(2,3) stray x None by (simp add: text_units object_units)
  next
    case (Some c)
    then have "object_names (x # d) = object_names d" "doc_unit x = Inl c" by (cases x; simp)+
    then show ?thesis using Cons.IH [of msgs "acc @ [c]"] Cons.prems stray Some by simp
  qed
qed (simp add: text_units)

text \<open>Writing a message: text anywhere, without overwriting objects, and emoticons behind those already there.\<close>

inductive composed :: "editor_env \<Rightarrow> MessageTextEdit \<Rightarrow> bool" for E where
  fresh: "ed_doc s = [] \<Longrightarrow> mMsgList s = [] \<Longrightarrow> ed_anchor s = 0 \<Longrightarrow> ed_pos s = 0 \<Longrightarrow> composed E s"
| cursor: "composed E s \<Longrightarrow> a \<le> length (ed_doc s) \<Longrightarrow> p \<le> length (ed_doc s) \<Longrightarrow> composed E (s\<lparr>ed_anchor := a, ed_pos := p\<rparr>)"
| types: "composed E s \<Longrightarrow> None \<notin> set t \<Longrightarrow> object_names (between (sel_start s) (sel_end s) (ed_doc s)) = [] \<Longrightarrow> composed E (insertText E t s)"
| emoticon: "composed E s \<Longrightarrow> movie_valid (ed_gui E) url \<Longrightarrow> object_names (drop (sel_start s) (ed_doc s)) = [] \<Longrightarrow> composed E (addEmotionUrl E url s)"
| image: "composed E s \<Longrightarrow> object_names (drop (sel_start s) (ed_doc s)) = [] \<Longrightarrow> composed E (insertImages url s)"

lemma text_items_objects: "object_names (text_items n t) = []" "None \<notin> set t \<Longrightarrow> no_stray (text_items n t)"
  by (induction n t rule: text_items.induct) (auto simp: no_stray_def)

lemma no_stray_parts: "no_stray d \<Longrightarrow> no_stray xs \<Longrightarrow> no_stray (take a d @ xs @ drop b d)"
  by (auto simp: no_stray_def dest: in_set_takeD in_set_dropD)

lemma slices: "a \<le> b \<Longrightarrow> d = take a d @ between a b d @ drop b d"
proof -
  assume "a \<le> b"
  then have "drop b d = drop (b - a) (drop a d)" by simp
  then show "d = take a d @ between a b d @ drop b d" by (simp add: between_def del: drop_drop)
qed

lemma cut_out: "a \<le> b \<Longrightarrow> object_names d = object_names (take a d) @ object_names (between a b d) @ object_names (drop b d)"
  using arg_cong [OF slices, of a b object_names d] by simp

lemma sel_le: "sel_start s \<le> sel_end s"
  by (simp add: sel_start_def sel_end_def)

lemma insert_object:
  assumes "in_order s" "object_names (drop (sel_start s) (ed_doc s)) = []" "flag \<noteq> ''text''"
  shows "in_order ((insert_items [Picture url n] s)\<lparr>mMsgList := insertMsgList flag url (mMsgList s)\<rparr>)"
proof -
  have "object_names (take (sel_start s) (ed_doc s)) = object_names (ed_doc s)"
    using assms(2) object_names_append [of "take (sel_start s) (ed_doc s)" "drop (sel_start s) (ed_doc s)"] by simp
  moreover have "object_names (drop (sel_end s) (ed_doc s)) = []"
    using assms(2) arg_cong [OF append_take_drop_id, of object_names "sel_end s - sel_start s" "drop (sel_start s) (ed_doc s)"] sel_le [of s] by simp
  ultimately show ?thesis
    using assms(1,3) no_stray_parts [of "ed_doc s" "[Picture url n]"] by (auto simp: in_order_def insertMsgList_def insert_items_def no_stray_def)
qed

lemma composed_in_order: "composed E s \<Longrightarrow> in_order s"
proof (induction rule: composed.induct)
  case (types s t)
  let ?xs = "text_items (insert_format E (ed_doc s) (ed_pos s)) t"
  have "object_names (ed_doc (insertText E t s)) = object_names (ed_doc s)"
    using cut_out [OF sel_le, of "ed_doc s" s] types(3) by (simp add: insertText_def insert_items_def text_items_objects)
  moreover have "no_stray (ed_doc (insertText E t s))"
    using types by (auto simp: insertText_def insert_items_def in_order_def text_items_objects intro!: no_stray_parts)
  ultimately show ?case using types(4) by (simp add: in_order_def insertText_def)
next
  case (emoticon s url)
  then show ?case using insert_object [of s "''emotion''" url 0] by (simp add: addEmotionUrl_def Let_def)
next
  case (image s url)
  then show ?case using insert_object [of s "''image''" url 1] by (simp add: insertImages_def Let_def)
qed (simp_all add: in_order_def no_stray_def)

lemma sent_units:
  "in_order s \<Longrightarrow> html_names E (ed_doc s) \<Longrightarrow> concat (map msg_units (fst (take_messages E s))) = map doc_unit (ed_doc s)"
  using collected [of "mMsgList s" "ed_doc s" "contains_text (toHtml E (ed_doc s))" "[]"]
  by (simp add: take_messages_def getMsgList_def in_order_def html_names_def)

text \<open>
  C27. What the editor shows is what it gives to be sent: for a message that was written with text at any place and
  with each emoticon and picture inserted behind the earlier ones, the messages of \<open>getMsgList\<close> are the letters and
  the objects of the document in their order, line ends included, and the editor is empty afterwards.
\<close>

theorem editor_sends_document:
  assumes "composed E s" "html_names E (ed_doc s)"
  shows "concat (map msg_units (fst (take_messages E s))) = map doc_unit (ed_doc s) \<and> composed E (snd (take_messages E s)) \<and>
    ed_doc (snd (take_messages E s)) = []"
  using sent_units [OF composed_in_order [OF assms(1)] assms(2)] by (auto simp: take_messages_def intro: composed.fresh)

text \<open>An emoticon inserted before an earlier one is sent behind it, although it is shown before it.\<close>

theorem late_emoticon_swapped:
  assumes "movie_valid (ed_gui E) a" "movie_valid (ed_gui E) b" "html_names E [Picture b 0, Picture a 0]"
    and "s = addEmotionUrl E b ((addEmotionUrl E a new_MessageTextEdit)\<lparr>ed_anchor := 0, ed_pos := 0\<rparr>)"
  shows "map doc_unit (ed_doc s) = [Inr b, Inr a] \<and> concat (map msg_units (fst (take_messages E s))) = [Inr a, Inr b]"
  using assms by (simp add: addEmotionUrl_def Let_def insert_items_def sel_start_def sel_end_def new_MessageTextEdit_def insertMsgList_def
      take_messages_def getMsgList_def html_names_def msg_units_def text_msg_def)

text \<open>
  Two equal emoticons side by side make one fragment and are copied as one; of the sizes below a terabyte, those
  between 1024 and 1224 kilobytes are shown with a number above 1023; an address is never what decides whether
  something can be inserted.
\<close>

lemma twins_copied_once: "copySelectedContent E [Emotion a, Emotion a] 0 2 = Some (mime_of E [ClipEmotion a])"
  by (simp add: copySelectedContent_def bubble_fragment_def)

lemma file_size_number:
  assumes "0 \<le> n" "n < 1024 * 1024 * 1024 * 1024"
  shows "1024 \<le> n div fst (getFileSize n) \<longleftrightarrow> 1024 * 1024 \<le> n \<and> n < 1024 * 1224"
  using assms by (auto simp: getFileSize_def)

lemma can_insert: "canInsertFromMimeData base md \<longleftrightarrow> md_image md \<or> md_html md \<noteq> None \<or> md_text md \<noteq> None \<or> base"
  by (auto simp: canInsertFromMimeData_def getUrl_def)

section \<open>From a bubble into the editor\<close>

fun shown_unit :: "screen_unit \<Rightarrow> char + string" where
  "shown_unit (SChar c) = Inl (the c)"
| "shown_unit (SEmotion name) = Inr name"
| "shown_unit (SPicture name) = Inr name"
| "shown_unit SBreak = Inl (CHR 0x0A)"

definition clip_units :: "clip_msg \<Rightarrow> (char + string) list" where
  "clip_units m = map shown_unit (clip_shown m)"

text \<open>Messages of one line with valid emoticons, the items of their bubble, and what is copied from it.\<close>

definition one_line_msg :: "editor_env \<Rightarrow> MsgInfo \<Rightarrow> bool" where
  "one_line_msg E msg \<longleftrightarrow> msgFlag msg = ''text'' \<and> set (map Some (msg_body msg)) \<inter> line_ends = {} \<or>
     msgFlag msg = ''emotion'' \<and> movie_valid (ed_gui E) (msg_body msg)"

fun bubble_ok :: "editor_env \<Rightarrow> doc_item \<Rightarrow> bool" where
  "bubble_ok E (Letter n c) \<longleftrightarrow> c \<noteq> None \<and> c \<notin> line_ends"
| "bubble_ok E (Emotion name) \<longleftrightarrow> movie_valid (ed_gui E) name"
| "bubble_ok E x \<longleftrightarrow> False"

fun clip_ok :: "editor_env \<Rightarrow> clip_msg \<Rightarrow> bool" where
  "clip_ok E (ClipText t) \<longleftrightarrow> None \<notin> set t \<and> set t \<inter> line_ends = {}"
| "clip_ok E (ClipEmotion name) \<longleftrightarrow> movie_valid (ed_gui E) name"

lemma bubble_item_units:
  assumes "one_line_msg E msg" "\<forall>x \<in> set d. bubble_ok E x"
  shows "\<forall>x \<in> set (bubble_item E msg d). bubble_ok E x" "map doc_unit (bubble_item E msg d) = map doc_unit d @ msg_units msg"
  using assms by (auto simp: one_line_msg_def bubble_item_def text_items_plain msg_units_def) blast+

lemma bubble_doc_units:
  assumes "\<forall>msg \<in> set ms. one_line_msg E msg"
  shows "(\<forall>x \<in> set (bubble_doc E ms). bubble_ok E x) \<and> map doc_unit (bubble_doc E ms) = concat (map msg_units ms)"
  using assms unfolding bubble_doc_def
  by (induction ms rule: rev_induct) (auto simp: bubble_item_units)

lemma bubble_shows_units: "\<forall>x \<in> set d. bubble_ok E x \<Longrightarrow> map shown_unit (concat (map bubble_shows d)) = map doc_unit d"
  by (induction d) (auto simp: bubble_shows_def split: doc_item.splits)

lemma bubble_letters: "\<forall>x \<in> set xs. bubble_ok E x \<Longrightarrow> \<forall>x \<in> set xs. is_letter x \<Longrightarrow> clip_ok E (ClipText (map plain_item xs))"
  by (induction xs) (auto elim!: is_letter.elims(2))

lemma bubble_copied_ok:
  assumes "\<forall>x \<in> set d. bubble_ok E x" "m \<in> set (concat (map (bubble_fragment a b) (fragments p d)))"
  shows "clip_ok E m"
proof -
  obtain q xs where f: "(q, xs) \<in> set (fragments p d)" "m \<in> set (bubble_fragment a b (q, xs))" using assms(2) by auto
  have ok: "\<forall>x \<in> set xs. bubble_ok E x" and ne: "xs \<noteq> []" using fragments_subset [OF f(1)] run_letters [OF f(1)] assms(1) by blast+
  show ?thesis
  proof (cases "is_letter (hd xs)")
    case True
    have "\<forall>x \<in> set xs. is_letter x" by (rule run_of_letters [OF True]) (use run_letters [OF f(1)] in blast)
    then have "clip_ok E (ClipText (map plain_item (frag_part a b q xs)))"
      using ok by (intro bubble_letters part_of_letters) (auto simp: frag_part_slice dest!: in_set_dropD in_set_takeD)
    then show ?thesis using f(2) True by (cases "hd xs") (auto simp: bubble_fragment_def split: if_splits)
  next
    case False
    have "bubble_ok E (hd xs)" using ok ne by simp
    then show ?thesis using f(2) False by (cases "hd xs") (auto simp: bubble_fragment_def split: if_splits)
  qed
qed

text \<open>Pasting at the end of the editor composes a message.\<close>

definition at_end :: "MessageTextEdit \<Rightarrow> bool" where
  "at_end s \<longleftrightarrow> ed_anchor s = length (ed_doc s) \<and> ed_pos s = length (ed_doc s)"

lemma at_end_sel: "at_end s \<Longrightarrow> sel_start s = length (ed_doc s) \<and> sel_end s = length (ed_doc s)"
  by (simp add: at_end_def sel_start_def sel_end_def)

lemma paste_at_end:
  assumes "composed E s" "at_end s" "clip_ok E m"
  shows "composed E (paste_msg E m s) \<and> at_end (paste_msg E m s) \<and> map doc_unit (ed_doc (paste_msg E m s)) = map doc_unit (ed_doc s) @ clip_units m"
proof (cases m)
  case (ClipText t)
  have "composed E (insertText E t s)"
    using assms ClipText at_end_sel [OF assms(2)] by (intro composed.types) (auto simp: between_def)
  then show ?thesis using assms ClipText at_end_sel [OF assms(2)]
    by (auto simp: paste_msg_def insertText_def text_items_plain insert_items_def at_end_def clip_units_def)
next
  case (ClipEmotion url)
  have "composed E (addEmotionUrl E url s)"
    using assms ClipEmotion at_end_sel [OF assms(2)] by (intro composed.emoticon) auto
  then show ?thesis using assms ClipEmotion at_end_sel [OF assms(2)]
    by (auto simp: paste_msg_def addEmotionUrl_def Let_def insert_items_def at_end_def clip_units_def)
qed

lemma paste_all_at_end:
  assumes "composed E s" "at_end s" "\<forall>m \<in> set ms. clip_ok E m"
  shows "composed E (fold (paste_msg E) ms s) \<and>
    map doc_unit (ed_doc (fold (paste_msg E) ms s)) = map doc_unit (ed_doc s) @ concat (map clip_units ms)"
  using assms
proof (induction ms arbitrary: s)
  case (Cons m ms)
  then show ?case using paste_at_end [of E s m] by simp
qed simp


section \<open>Examples\<close>

text \<open>An environment whose HTML form is the names of the objects, and a document of two lines with an emoticon.\<close>

definition editor_demo_env :: editor_env where
  "editor_demo_env = \<lparr>ed_gui = \<lparr>createUuid = \<lambda>_. [], emojiObject = None, movie_valid = \<lambda>_. True\<rparr>, insert_format = \<lambda>_ _. 0, html_doc = \<lambda>_. [],
     toHtml = \<lambda>d. concat (object_names d), escaped = \<lambda>_. [], file_is_dir = \<lambda>_. False, file_size = \<lambda>_. 0, temp_png = \<lambda>_. [], base_paste = \<lambda>_. []\<rparr>"

definition two_lines :: MessageTextEdit where
  "two_lines = insertText editor_demo_env [Some (CHR 0x0A), Some (CHR ''b'')] (addEmotionUrl editor_demo_env ''e.png''
     (insertText editor_demo_env [Some (CHR ''a'')] new_MessageTextEdit))"

lemma two_lines_state: "two_lines = \<lparr>ed_doc = [Letter 0 (Some (CHR ''a'')), Picture ''e.png'' 0, Paragraph, Letter 0 (Some (CHR ''b''))],
    ed_anchor = 4, ed_pos = 4, mMsgList = [\<lparr>msgFlag = ''emotion'', msg_body = ''e.png''\<rparr>], clipboard = None, uuids = 0\<rparr>"
  by (simp add: two_lines_def editor_demo_env_def insertText_def addEmotionUrl_def Let_def insert_items_def sel_start_def sel_end_def
      new_MessageTextEdit_def insertMsgList_def)

theorem copy_and_paste_witness:
  "\<exists>u. snd (keyPressEvent editor_demo_env (\<lambda>_ s. s) KeyV True
       ((snd (keyPressEvent editor_demo_env (\<lambda>_ s. s) KeyC True (two_lines\<lparr>ed_anchor := 0\<rparr>)))\<lparr>ed_anchor := 4, ed_pos := 4\<rparr>)) = u \<and>
     screen u = screen two_lines @ [SChar (Some (CHR ''a'')), SEmotion ''e.png'', SChar (Some (CHR ''b''))]"
proof -
  let ?s = "two_lines\<lparr>ed_anchor := 0\<rparr>"
  obtain c t v u where k: "keyPressEvent editor_demo_env (\<lambda>_ s. s) KeyC True ?s = (c, t)"
      "keyPressEvent editor_demo_env (\<lambda>_ s. s) KeyV True (t\<lparr>ed_anchor := 4, ed_pos := 4\<rparr>) = (v, u)"
    by (meson surj_pair)
  have h: "editor_ok ?s" "no_twins (ed_doc ?s)" "hasSelection ?s" "4 \<le> length (ed_doc ?s)"
    by (simp_all add: two_lines_state editor_ok_def line_ends_def hasSelection_def)
  from copy_and_paste [OF h k] have "screen u = screen two_lines @ [SChar (Some (CHR ''a'')), SEmotion ''e.png'', SChar (Some (CHR ''b''))]"
    by (simp add: two_lines_state screen_def between_def sel_start_def sel_end_def is_emoticon_def)
  then show ?thesis using k by simp
qed

theorem editor_sends_document_witness:
  "concat (map msg_units (fst (take_messages editor_demo_env two_lines))) = [Inl (CHR ''a''), Inr ''e.png'', Inl (CHR 0x0A), Inl (CHR ''b'')]"
proof -
  have "composed editor_demo_env two_lines" unfolding two_lines_def
    by (intro composed.types composed.emoticon composed.fresh)
      (simp_all add: editor_demo_env_def new_MessageTextEdit_def insertText_def addEmotionUrl_def Let_def insert_items_def sel_start_def
        sel_end_def between_def)
  moreover have "html_names editor_demo_env (ed_doc two_lines)"
    by (simp add: two_lines_state html_names_def editor_demo_env_def contains_text_def)
  ultimately show ?thesis using editor_sends_document [of editor_demo_env two_lines] by (simp add: two_lines_state)
qed


end
