(* ===== verification/ClientWidgets.thy ===== *)
theory ClientWidgets
  imports ClientUserMgr "HOL-Library.Signed_Division"
begin

text \<open>
  The small widgets of the client: the side buttons (\<open>gui/state_widget.cpp\<close>), the labels that can be
  clicked (\<open>gui/utilities/clicked_label.cpp\<close>), the red dot (\<open>gui/utilities/red_dot_label.cpp\<close>), and the
  wheel handling of the lists (\<open>gui/chats/chat_user_list.cpp\<close>, \<open>gui/contacts/contact_user_list.cpp\<close>).
\<close>

section \<open>Widgets with a state\<close>

datatype ClickLbState = Normal | Selected

text \<open>The names of the styles and the property \<open>state\<close> that selects one of them.\<close>

record state_names =
  st_normal :: string
  st_hover :: string
  st_press :: string
  st_selected :: string
  st_selected_hover :: string
  st_selected_press :: string

record StateWidget =
  sw_names :: state_names
  curstate :: ClickLbState
  state_property :: string

datatype mouse_event = LeftPress | LeftRelease | Enter | Leave | OtherButton

definition state_styles :: "state_names \<Rightarrow> ClickLbState \<Rightarrow> string list" where
  "state_styles n c = (case c of Normal \<Rightarrow> [st_normal n, st_hover n, st_press n] | Selected \<Rightarrow> [st_selected n, st_selected_hover n, st_selected_press n])"

definition style_fits :: "StateWidget \<Rightarrow> bool" where
  "style_fits s \<longleftrightarrow> state_property s \<in> set (state_styles (sw_names s) (curstate s))"

text \<open>The style that belongs to the state: the first, hovering or pressed one.\<close>

definition with_style :: "nat \<Rightarrow> StateWidget \<Rightarrow> StateWidget" where
  "with_style i s = s\<lparr>state_property := state_styles (sw_names s) (curstate s) ! i\<rparr>"

lemma with_style_fits: "i < 3 \<Longrightarrow> style_fits (with_style i s)"
  by (cases "curstate s") (auto simp: with_style_def style_fits_def state_styles_def less_Suc_eq numeral_3_eq_3)

definition SetState :: "state_names \<Rightarrow> StateWidget \<Rightarrow> StateWidget" where
  "SetState n s = s\<lparr>sw_names := n, state_property := st_normal n\<rparr>"

definition new_StateWidget :: StateWidget where
  "new_StateWidget = SetState \<lparr>st_normal = ''normal'', st_hover = ''hover'', st_press = ''pressed'', st_selected = ''selected_normal'',
     st_selected_hover = ''selected_hover'', st_selected_press = ''selected_pressed''\<rparr>
     \<lparr>sw_names = \<lparr>st_normal = [], st_hover = [], st_press = [], st_selected = [], st_selected_hover = [], st_selected_press = []\<rparr>,
      curstate = Normal, state_property = []\<rparr>"

definition new_ClickedLabel :: StateWidget where
  "new_ClickedLabel = SetState \<lparr>st_normal = ''normal'', st_hover = ''hover'', st_press = ''press'', st_selected = ''normal'',
     st_selected_hover = ''hover'', st_selected_press = ''press''\<rparr>
     \<lparr>sw_names = \<lparr>st_normal = [], st_hover = [], st_press = [], st_selected = [], st_selected_hover = [], st_selected_press = []\<rparr>,
      curstate = Normal, state_property = []\<rparr>"

definition ClearState :: "StateWidget \<Rightarrow> StateWidget" where
  "ClearState s = with_style 0 (s\<lparr>curstate := Normal\<rparr>)"

definition SetSelected :: "bool \<Rightarrow> StateWidget \<Rightarrow> StateWidget" where
  "SetSelected bselected s = with_style 0 (s\<lparr>curstate := (if bselected then Selected else Normal)\<rparr>)"

text \<open>The events of a \<open>StateWidget\<close>, with whether \<open>clicked\<close> is emitted.\<close>

fun StateWidget_event :: "mouse_event \<Rightarrow> StateWidget \<Rightarrow> bool \<times> StateWidget" where
  "StateWidget_event LeftPress s = (False, if curstate s = Selected then s else with_style 2 (s\<lparr>curstate := Selected\<rparr>))"
| "StateWidget_event LeftRelease s = (True, with_style 1 s)"
| "StateWidget_event Enter s = (False, with_style 1 s)"
| "StateWidget_event Leave s = (False, with_style 0 s)"
| "StateWidget_event OtherButton s = (False, s)"

text \<open>Those of a \<open>ClickedLabel\<close>, which a press switches.\<close>

fun ClickedLabel_event :: "mouse_event \<Rightarrow> StateWidget \<Rightarrow> bool \<times> StateWidget" where
  "ClickedLabel_event LeftPress s =
     (False, with_style 2 (s\<lparr>curstate := (if curstate s = Normal then Selected else Normal)\<rparr>))"
| "ClickedLabel_event LeftRelease s = (True, with_style 1 s)"
| "ClickedLabel_event Enter s = (False, with_style 1 s)"
| "ClickedLabel_event Leave s = (False, with_style 0 s)"
| "ClickedLabel_event OtherButton s = (False, s)"

definition SetCurState :: "ClickLbState \<Rightarrow> StateWidget \<Rightarrow> StateWidget" where
  "SetCurState state s = with_style 0 (s\<lparr>curstate := state\<rparr>)"

definition ResetNormalState :: "StateWidget \<Rightarrow> StateWidget" where
  "ResetNormalState s = with_style 0 (s\<lparr>curstate := Normal\<rparr>)"

text \<open>A sequence of events, with the number of clicks.\<close>

primrec run_events :: "(mouse_event \<Rightarrow> StateWidget \<Rightarrow> bool \<times> StateWidget) \<Rightarrow> mouse_event list \<Rightarrow> StateWidget \<Rightarrow> nat \<times> StateWidget" where
  "run_events event [] s = (0, s)"
| "run_events event (e # es) s = (let (c, t) = event e s; (n, u) = run_events event es t in (if c then n + 1 else n, u))"

declare run_events.simps(2) [simp del]

section \<open>What both kinds promise\<close>

text \<open>
  A widget that can be clicked: its events keep the style fitting, only a release clicks, and only a press
  changes the state.
\<close>

locale clickable =
  fixes event :: "mouse_event \<Rightarrow> StateWidget \<Rightarrow> bool \<times> StateWidget"
  assumes event_style: "style_fits s \<Longrightarrow> style_fits (snd (event e s))"
    and event_clicks: "fst (event e s) \<longleftrightarrow> e = LeftRelease"
    and event_state: "e \<noteq> LeftPress \<Longrightarrow> curstate (snd (event e s)) = curstate s"
begin

lemma events_Cons: "run_events event (e # es) s = (fst (run_events event es (snd (event e s))) + (if e = LeftRelease then 1 else 0), snd (run_events event es (snd (event e s))))"
  using event_clicks [of e s] by (auto simp: run_events.simps(2) Let_def split: prod.splits)

lemma events_ok: "style_fits s \<Longrightarrow> style_fits (snd (run_events event es s))" "fst (run_events event es s) = length (filter (\<lambda>e. e = LeftRelease) es)"
proof (induction es arbitrary: s)
  case (Cons e es)
  { case 1 then show ?case using Cons(1) event_style by (simp add: events_Cons) }
  { case 2 show ?case using Cons(2) by (simp add: events_Cons) }
qed simp_all

lemma events_hover: "LeftPress \<notin> set es \<Longrightarrow> curstate (snd (run_events event es s)) = curstate s"
  by (induction es arbitrary: s) (auto simp: events_Cons event_state)

end

lemma styles_fit_events:
  "style_fits s \<Longrightarrow> style_fits (snd (StateWidget_event e s))" "style_fits s \<Longrightarrow> style_fits (snd (ClickedLabel_event e s))"
  by (cases e; simp add: with_style_fits)+

interpretation side_button: clickable StateWidget_event
proof
  show "fst (StateWidget_event e s) \<longleftrightarrow> e = LeftRelease" for e s by (cases e) simp_all
  show "e \<noteq> LeftPress \<Longrightarrow> curstate (snd (StateWidget_event e s)) = curstate s" for e s by (cases e) (simp_all add: with_style_def)
qed (rule styles_fit_events)

interpretation click_label: clickable ClickedLabel_event
proof
  show "fst (ClickedLabel_event e s) \<longleftrightarrow> e = LeftRelease" for e s by (cases e) simp_all
  show "e \<noteq> LeftPress \<Longrightarrow> curstate (snd (ClickedLabel_event e s)) = curstate s" for e s by (cases e) (simp_all add: with_style_def)
qed (rule styles_fit_events)

lemma new_widgets:
  "style_fits new_StateWidget" "style_fits new_ClickedLabel" "curstate new_StateWidget = Normal" "curstate new_ClickedLabel = Normal"
  by (simp_all add: new_StateWidget_def new_ClickedLabel_def SetState_def style_fits_def state_styles_def)

text \<open>A side button, once pressed, stays selected until its dialog clears it; a label counts its presses.\<close>

lemma side_button_stays: "curstate s = Selected \<or> LeftPress \<in> set es \<Longrightarrow> curstate (snd (run_events StateWidget_event es s)) = Selected"
proof (induction es arbitrary: s)
  case (Cons e es)
  have "curstate (snd (StateWidget_event e s)) = Selected \<or> LeftPress \<in> set es"
    using Cons.prems by (cases e) (auto simp: with_style_def)
  then show ?case using Cons.IH by (simp add: side_button.events_Cons)
qed simp

lemma click_label_parity:
  "curstate (snd (run_events ClickedLabel_event es s)) = Selected \<longleftrightarrow> (curstate s = Selected) \<noteq> odd (length (filter (\<lambda>e. e = LeftPress) es))"
proof (induction es arbitrary: s)
  case (Cons e es)
  show ?case
    using Cons.IH [of "snd (ClickedLabel_event e s)"] by (cases e; cases "curstate s") (auto simp: click_label.events_Cons with_style_def)
qed simp

section \<open>The red dot\<close>

record RedDotLabel =
  dot_count :: int
  dot_shown :: bool

definition setCount :: "bool \<Rightarrow> int \<Rightarrow> RedDotLabel \<Rightarrow> RedDotLabel" where
  "setCount is_show n s = s\<lparr>dot_count := n, dot_shown := is_show\<rparr>"

text \<open>What \<open>paintEvent\<close> draws: the radius, whether two circles are drawn, the text.\<close>

definition dot_drawing :: "RedDotLabel \<Rightarrow> (int \<times> bool \<times> string) option" where
  "dot_drawing s =
     (if dot_shown s then
        Some (if dot_count s > 0 then 8 else 5, dot_count s \<ge> 10,
          if dot_count s > 0 then (if dot_count s > 99 then ''99+'' else to_string (dot_count s)) else [])
      else None)"

section \<open>The wheel\<close>

text \<open>C++ divides towards zero: a turn of less than 120 eighths of a degree, as touchpads report, does not scroll.\<close>

definition wheel_steps :: "int \<Rightarrow> int" where
  "wheel_steps angleDelta = (angleDelta sdiv 8) sdiv 15"

record ScrollList =
  scroll_value :: int
  scroll_max :: int
  load_pending :: bool

text \<open>\<open>QScrollBar::setValue\<close> keeps the value between 0 and the maximum.\<close>

definition scroll_to :: "int \<Rightarrow> ScrollList \<Rightarrow> ScrollList" where
  "scroll_to v s = s\<lparr>scroll_value := max 0 (min v (scroll_max s))\<rparr>"

text \<open>The wheel in the list of conversations and in the contact list, with whether more is to be loaded.\<close>

definition ChatUserList_wheel :: "int \<Rightarrow> ScrollList \<Rightarrow> bool \<times> ScrollList" where
  "ChatUserList_wheel angleDelta s =
     (let t = scroll_to (scroll_value s - wheel_steps angleDelta) s in (scroll_max t - scroll_value t \<le> 0, t))"

definition ContactUserList_wheel :: "UserMgr \<Rightarrow> int \<Rightarrow> ScrollList \<Rightarrow> bool \<times> ScrollList" where
  "ContactUserList_wheel m angleDelta s =
     (let t = scroll_to (scroll_value s - wheel_steps angleDelta) s in
      if scroll_max t - scroll_value t \<le> 0 then
        if IsLoadConFinal m \<or> load_pending t then (False, t) else (True, t\<lparr>load_pending := True\<rparr>)
      else (False, t))"

text \<open>The timer of 100 milliseconds.\<close>

definition load_timer :: "ScrollList \<Rightarrow> ScrollList" where
  "load_timer s = s\<lparr>load_pending := False\<rparr>"

lemma wheel_small: "\<bar>angle\<bar> < 120 \<Longrightarrow> wheel_steps angle = 0"
  unfolding wheel_steps_def signed_divide_int_def
  by (auto simp: sgn_if abs_if split: if_splits)

text \<open>Between two runs of the timer the contact list asks for more at most once.\<close>

fun contact_wheels :: "UserMgr \<Rightarrow> int list \<Rightarrow> ScrollList \<Rightarrow> nat" where
  "contact_wheels m [] s = 0"
| "contact_wheels m (a # as) s = (let (b, t) = ContactUserList_wheel m a s in (if b then 1 else 0) + contact_wheels m as t)"

lemma contact_wheels_once: "contact_wheels m as s \<le> (if IsLoadConFinal m \<or> load_pending s then 0 else 1)"
proof (induction as arbitrary: s)
  case (Cons a as)
  obtain b t where t: "ContactUserList_wheel m a s = (b, t)" by fastforce
  have "b \<Longrightarrow> load_pending t \<and> \<not> IsLoadConFinal m \<and> \<not> load_pending s" "\<not> b \<Longrightarrow> load_pending t = load_pending s"
    using t by (auto simp: ContactUserList_wheel_def scroll_to_def Let_def split: if_splits)
  then show ?case using Cons [of t] by (auto simp: t split: if_splits)
qed simp

section \<open>Styles\<close>

text \<open>
  The side buttons and the clickable labels always show a style of their state: after any sequence of
  mouse events, from a new widget, the property \<open>state\<close> is one of the three styles of the current state,
  \<open>clicked\<close> has been emitted once per release, a side button is selected exactly if it was pressed,
  and a label exactly if it was pressed an odd number of times.
\<close>

theorem widgets_show_their_state:
  "style_fits (snd (run_events StateWidget_event es new_StateWidget)) \<and> style_fits (snd (run_events ClickedLabel_event es new_ClickedLabel)) \<and>
   fst (run_events StateWidget_event es new_StateWidget) = length (filter (\<lambda>e. e = LeftRelease) es) \<and>
   fst (run_events ClickedLabel_event es new_ClickedLabel) = length (filter (\<lambda>e. e = LeftRelease) es) \<and>
   (curstate (snd (run_events StateWidget_event es new_StateWidget)) = Selected \<longleftrightarrow> LeftPress \<in> set es) \<and>
   (curstate (snd (run_events ClickedLabel_event es new_ClickedLabel)) = Selected \<longleftrightarrow> odd (length (filter (\<lambda>e. e = LeftPress) es)))"
proof (intro conjI)
  show "curstate (snd (run_events StateWidget_event es new_StateWidget)) = Selected \<longleftrightarrow> LeftPress \<in> set es"
    using side_button_stays [of new_StateWidget es] side_button.events_hover [of es new_StateWidget] new_widgets(3) by (cases "LeftPress \<in> set es") simp_all
  show "curstate (snd (run_events ClickedLabel_event es new_ClickedLabel)) = Selected \<longleftrightarrow> odd (length (filter (\<lambda>e. e = LeftPress) es))"
    by (simp add: click_label_parity new_widgets(4))
qed (simp_all add: side_button.events_ok click_label.events_ok new_widgets)

end
