(* ===== verification/ClientStart.thy ===== *)
theory ClientStart
  imports ClientLogin ClientPage ClientWidgets Logging
begin

text \<open>
  What the client keeps between two runs and reads when it starts: the login state and the password in
  the key chain (\<open>utils/tools.cpp\<close>, \<open>utils/keychainclass.cpp\<close>, the start of \<open>login_gui.cpp\<close>), and the
  emoticons (\<open>core/user/user_data.cpp\<close>, \<open>utils/common_utils.cpp\<close>, \<open>gui/chats/emotion_window.cpp\<close>); with the
  other helpers of \<open>common_utils.cpp\<close> and the times shown in the list of conversations. The key chain of
  the system, files and Qt are parameters.
\<close>

section \<open>KeyChainClass\<close>

text \<open>
  The three jobs are members that every call uses again; a call connects one more handler to its job,
  which keeps the key it was made for. A job that ends calls all handlers connected to it.
\<close>

record KeyChainClass =
  read_job :: "string option"
  read_handlers :: "string list"
  write_job :: "(string \<times> string) option"
  write_handlers :: "string list"
  delete_job :: "string option"
  delete_handlers :: "string list"

definition new_KeyChainClass :: KeyChainClass where
  "new_KeyChainClass = \<lparr>read_job = None, read_handlers = [], write_job = None, write_handlers = [], delete_job = None, delete_handlers = []\<rparr>"

datatype keychain_signal = keyRestored string string | keyStored string | keyDeleted string | keychain_error string

definition readKey :: "string \<Rightarrow> KeyChainClass \<Rightarrow> KeyChainClass" where
  "readKey key k = k\<lparr>read_handlers := read_handlers k @ [key], read_job := Some key\<rparr>"

definition writeKey :: "string \<Rightarrow> string \<Rightarrow> KeyChainClass \<Rightarrow> KeyChainClass" where
  "writeKey key v k = k\<lparr>write_handlers := write_handlers k @ [key], write_job := Some (key, v)\<rparr>"

definition deleteKey :: "string \<Rightarrow> KeyChainClass \<Rightarrow> KeyChainClass" where
  "deleteKey key k = k\<lparr>delete_handlers := delete_handlers k @ [key], delete_job := Some key\<rparr>"

text \<open>The handlers, for the error text or the text data of the finished job.\<close>

definition read_finished :: "string + string \<Rightarrow> KeyChainClass \<Rightarrow> keychain_signal list" where
  "read_finished result k =
     map (\<lambda>key. case result of Inl e \<Rightarrow> keychain_error (''Read key failed: '' @ e) | Inr textData \<Rightarrow> keyRestored key textData) (read_handlers k)"

definition write_finished :: "string option \<Rightarrow> KeyChainClass \<Rightarrow> keychain_signal list" where
  "write_finished error k =
     map (\<lambda>key. case error of Some e \<Rightarrow> keychain_error (''Write key failed: '' @ e) | None \<Rightarrow> keyStored key) (write_handlers k)"

definition delete_finished :: "string option \<Rightarrow> KeyChainClass \<Rightarrow> keychain_signal list" where
  "delete_finished error k =
     map (\<lambda>key. case error of Some e \<Rightarrow> keychain_error (''Delete key failed: '' @ e) | None \<Rightarrow> keyDeleted key) (delete_handlers k)"

text \<open>
  The first read answers for its own key. Because handlers are never disconnected, a later read answers
  for every key asked for before as well, with the text of the new key.
\<close>

theorem keychain_handlers_pile_up:
  "read_finished (Inr v) (readKey key new_KeyChainClass) = [keyRestored key v] \<and>
   read_finished (Inr v) (readKey key' (readKey key k)) = map (\<lambda>old. keyRestored old v) (read_handlers k) @ [keyRestored key v, keyRestored key' v]"
  by (simp add: read_finished_def readKey_def new_KeyChainClass_def)

section \<open>The login window at its start\<close>

definition loadLoginState :: "(string \<times> bool \<times> bool) option \<Rightarrow> string \<times> bool \<times> bool" where
  "loadLoginState settings = (case settings of Some state \<Rightarrow> state | None \<Rightarrow> ([], False, False))"

text \<open>The handler of \<open>keyRestored\<close>; those of the other signals only print.\<close>

definition on_keychain_signal :: "login_env \<Rightarrow> string \<Rightarrow> bool \<Rightarrow> keychain_signal \<Rightarrow> (LoginGUI, unit) prog" where
  "on_keychain_signal E savedUsername autoLogin sig =
     (case sig of
        keyRestored key v \<Rightarrow>
          bnd (upd (\<lambda>s. s\<lparr>lineE_user_name := savedUsername, lineE_pwd := v\<rparr>)) (\<lambda>_.
          if autoLogin then attemptAutoLogin E savedUsername v else ret ())
      | _ \<Rightarrow> ret ())"

text \<open>
  A new window over the settings and keys that the last run has left. \<open>chain\<close> is the key chain: what
  reading a key gives after some keys were written.
\<close>

type_synonym keychain = "(string \<times> string) list \<Rightarrow> string \<Rightarrow> string + string"

definition login_start :: "login_env \<Rightarrow> keychain \<Rightarrow> (LoginGUI, unit) prog" where
  "login_start E chain =
     bnd (gets (\<lambda>s. loadLoginState (login_state s))) (\<lambda>(savedUsername, remember, autoLogin).
     bnd (upd (\<lambda>s. s\<lparr>remPwd_checked := remember, autoLogin_checked := autoLogin\<rparr>)) (\<lambda>_.
     if remember \<or> autoLogin then
       bnd (gets stored_keys) (\<lambda>keys.
       forM (on_keychain_signal E savedUsername autoLogin)
         (read_finished (chain keys savedUsername) (readKey savedUsername new_KeyChainClass)))
     else ret ()))"

definition next_run :: "LoginGUI \<Rightarrow> LoginGUI" where
  "next_run s = new_LoginGUI\<lparr>login_state := login_state s, stored_keys := stored_keys s\<rparr>"

definition keychain_documented :: "keychain \<Rightarrow> bool" where
  "keychain_documented chain \<longleftrightarrow>
     (\<forall>ws k. case map_of (rev ws) k of Some v \<Rightarrow> chain ws k = Inr v | None \<Rightarrow> \<exists>e. chain ws k = Inl e)"

definition ref_keychain :: keychain where
  "ref_keychain ws k = (case map_of (rev ws) k of Some v \<Rightarrow> Inr v | None \<Rightarrow> Inl ''Entry not found'')"

lemma ref_keychain_documented: "keychain_documented ref_keychain"
  by (simp add: keychain_documented_def ref_keychain_def split: option.splits)

text \<open>What a login keeps for the next run.\<close>

lemma login_keeps:
  assumes "filled s"
  obtains t where "login E s = (Val (), t)"
    "login_state t = Some (if remPwd_checked s then c_str (lineE_user_name s) else [], remPwd_checked s, autoLogin_checked s)"
    "stored_keys t = stored_keys s @ (if remPwd_checked s \<or> autoLogin_checked s then [(c_str (lineE_user_name s), lineE_pwd s)] else [])"
proof -
  obtain t where t: "only_tips s t" "login E s = (Val (), login_body E t)" using login_outcome [of s E] assms by auto
  show thesis
    by (rule that [OF t(2)]) (use t(1) in \<open>auto simp: only_tips_def login_body_def postHttpReq_def saveLoginState_def Let_def\<close>)
qed

lemma login_start_state:
  assumes "keychain_documented chain" "login_state s = Some (u, r, a)" "r \<or> a"
  shows "login_start E chain (next_run s) = (Val (),
    let w = (next_run s)\<lparr>remPwd_checked := r, autoLogin_checked := a\<rparr> in
    case map_of (rev (stored_keys s)) u of
      None \<Rightarrow> w
    | Some v \<Rightarrow> (let w' = w\<lparr>lineE_user_name := u, lineE_pwd := v\<rparr> in if a then snd (attemptAutoLogin E u v w') else w'))"
proof -
  have c: "case map_of (rev (stored_keys s)) u of Some v \<Rightarrow> chain (stored_keys s) u = Inr v | None \<Rightarrow> \<exists>e. chain (stored_keys s) u = Inl e"
    using assms(1) by (simp add: keychain_documented_def)
  have n: "login_state (next_run s) = login_state s" "stored_keys (next_run s) = stored_keys s" by (simp_all add: next_run_def)
  show ?thesis
    using c assms(2,3) by (auto simp: login_start_def loadLoginState_def n prog_defs read_finished_def readKey_def new_KeyChainClass_def
      on_keychain_signal_def attemptAutoLogin_def Let_def split: option.splits)
qed

text \<open>
  C26. A remembered login comes back: after a login with a name and a password for which
  \<open>remember password\<close> was ticked, the next window shows the same name and password, with the boxes ticked
  as they were; and when \<open>log in automatically\<close> was ticked too, it sends the same request to the gate
  server as the first login did, without any click.
\<close>

theorem remembered_login_restored:
  assumes "keychain_documented chain" and "filled s" "remPwd_checked s" "login E s = (Val (), t)"
  shows "\<exists>w. login_start E chain (next_run t) = (Val (), w) \<and> lineE_user_name w = c_str (lineE_user_name s) \<and> lineE_pwd w = lineE_pwd s \<and>
    remPwd_checked w \<and> autoLogin_checked w = autoLogin_checked s \<and>
    http_posts w = (if autoLogin_checked s then [login_post E s] else []) \<and> btn_login_on w = (\<not> autoLogin_checked s)"
proof -
  obtain t' where t': "login E s = (Val (), t')"
      "login_state t' = Some (if remPwd_checked s then c_str (lineE_user_name s) else [], remPwd_checked s, autoLogin_checked s)"
      "stored_keys t' = stored_keys s @ (if remPwd_checked s \<or> autoLogin_checked s then [(c_str (lineE_user_name s), lineE_pwd s)] else [])"
    by (rule login_keeps [OF assms(2)])
  then have t: "login_state t = Some (c_str (lineE_user_name s), True, autoLogin_checked s)"
      "map_of (rev (stored_keys t)) (c_str (lineE_user_name s)) = Some (lineE_pwd s)"
    using assms(3,4) by auto
  show ?thesis
    unfolding login_start_state [OF assms(1) t(1) disjI1 [OF TrueI]]
    by (simp add: t Let_def attemptAutoLogin_def upd_def saveLoginState_def postHttpReq_def login_post_def next_run_def new_LoginGUI_def)
qed

definition demo_form :: "bool \<Rightarrow> bool \<Rightarrow> LoginGUI" where
  "demo_form remember autoLogin = new_LoginGUI\<lparr>lineE_user_name := ''ann'', lineE_pwd := ''secret'', remPwd_checked := remember, autoLogin_checked := autoLogin\<rparr>"

theorem remembered_login_restored_witness:
  "\<exists>t w. login login_demo_env (demo_form True True) = (Val (), t) \<and> login_start login_demo_env ref_keychain (next_run t) = (Val (), w) \<and>
     lineE_user_name w = ''ann'' \<and> lineE_pwd w = ''secret'' \<and> length (http_posts w) = 1 \<and> \<not> btn_login_on w"
proof -
  obtain t where t: "login login_demo_env (demo_form True True) = (Val (), t)" using login_decides by metis
  have "filled (demo_form True True)" "remPwd_checked (demo_form True True)" by (simp_all add: filled_def demo_form_def)
  from remembered_login_restored [OF ref_keychain_documented this t] t
  show ?thesis by (auto simp: demo_form_def c_str_def)
qed

text \<open>
  The automatic login works once: it stores that the next run is not to log in, so the run after it
  fills in the name and the password and waits.
\<close>

theorem auto_login_once:
  assumes "keychain_documented chain" "login_state t = Some (u, True, True)" "map_of (rev (stored_keys t)) u = Some v"
    and "login_start E chain (next_run t) = (Val (), w)"
  shows "\<exists>w'. login_start E chain (next_run w) = (Val (), w') \<and> lineE_user_name w' = u \<and> lineE_pwd w' = v \<and> http_posts w' = [] \<and>
    \<not> autoLogin_checked w'"
proof -
  have w: "login_state w = Some (u, True, False)" "stored_keys w = stored_keys t"
    using assms(4) unfolding login_start_state [OF assms(1,2) disjI1 [OF TrueI]]
    by (auto simp: assms(3) Let_def attemptAutoLogin_def upd_def saveLoginState_def postHttpReq_def next_run_def)
  show ?thesis
    unfolding login_start_state [OF assms(1) w(1) disjI1 [OF TrueI]] by (simp add: w(2) assms(3) next_run_def new_LoginGUI_def)
qed

text \<open>
  Logging in automatically without remembering the password does not work: the password is stored
  under the name, but the name itself is not stored, so the next run asks for the key with the empty
  name and stays empty.
\<close>

theorem auto_login_needs_remember:
  assumes "keychain_documented chain" and "filled s" "\<not> remPwd_checked s" "autoLogin_checked s" "login E s = (Val (), t)"
    and "c_str (lineE_user_name s) \<noteq> []" "[] \<notin> fst ` set (stored_keys s)"
  shows "\<exists>w. login_start E chain (next_run t) = (Val (), w) \<and> lineE_user_name w = [] \<and> lineE_pwd w = [] \<and> http_posts w = []"
proof -
  obtain t' where t': "login E s = (Val (), t')"
      "login_state t' = Some (if remPwd_checked s then c_str (lineE_user_name s) else [], remPwd_checked s, autoLogin_checked s)"
      "stored_keys t' = stored_keys s @ (if remPwd_checked s \<or> autoLogin_checked s then [(c_str (lineE_user_name s), lineE_pwd s)] else [])"
    by (rule login_keeps [OF assms(2)])
  then have t: "login_state t = Some ([], False, True)" "map_of (rev (stored_keys t)) [] = None"
    using assms(3-7) by (auto simp: map_of_eq_None_iff)
  show ?thesis
    unfolding login_start_state [OF assms(1) t(1) disjI2 [OF TrueI]] by (simp add: t(2) next_run_def new_LoginGUI_def)
qed

section \<open>JsonHandler and the table of emoticons\<close>

record JsonHandler =
  m_jsonObject :: "(string \<times> json) list"
  m_jsonArray :: "json list"

definition new_JsonHandler :: JsonHandler where
  "new_JsonHandler = \<lparr>m_jsonObject = [], m_jsonArray = []\<rparr>"

text \<open>\<open>file\<close> is the content of the file, if it can be opened.\<close>

definition readJsonFile :: "qt_json \<Rightarrow> string option \<Rightarrow> JsonHandler \<Rightarrow> bool \<times> JsonHandler" where
  "readJsonFile Q file h =
     (case file of
        None \<Rightarrow> (False, h)
      | Some jsonData \<Rightarrow>
          (case q_fromJson Q jsonData of
             Some (JObj kvs) \<Rightarrow> (True, h\<lparr>m_jsonObject := kvs, m_jsonArray := []\<rparr>)
           | Some (JArr xs) \<Rightarrow> (True, h\<lparr>m_jsonArray := xs, m_jsonObject := []\<rparr>)
           | _ \<Rightarrow> (False, h)))"

definition setJsonObject :: "(string \<times> json) list \<Rightarrow> JsonHandler \<Rightarrow> JsonHandler" where
  "setJsonObject jsonObject h = h\<lparr>m_jsonObject := jsonObject, m_jsonArray := []\<rparr>"

definition setJsonArray :: "json list \<Rightarrow> JsonHandler \<Rightarrow> JsonHandler" where
  "setJsonArray jsonArray h = h\<lparr>m_jsonArray := jsonArray, m_jsonObject := []\<rparr>"

text \<open>Writing: the new content of the file, if it can be opened for writing.\<close>

definition writeJsonFile :: "(json \<Rightarrow> string) \<Rightarrow> bool \<Rightarrow> json \<Rightarrow> string option \<Rightarrow> bool \<times> string option" where
  "writeJsonFile toJson writable v file = (if writable then (True, Some (toJson v)) else (False, file))"

definition json_handler_ok :: "JsonHandler \<Rightarrow> bool" where
  "json_handler_ok h \<longleftrightarrow> m_jsonObject h = [] \<or> m_jsonArray h = []"

lemma json_handler_ok_kept:
  "json_handler_ok new_JsonHandler" "json_handler_ok (setJsonObject kvs h)" "json_handler_ok (setJsonArray xs h)"
  "json_handler_ok h \<Longrightarrow> json_handler_ok (snd (readJsonFile Q file h))"
  by (auto simp: json_handler_ok_def new_JsonHandler_def setJsonObject_def setJsonArray_def readJsonFile_def split: option.splits json.splits)

text \<open>\<open>EmojiManager::loadEmojiData\<close>: the result and the new \<open>m_emojiObject\<close>.\<close>

definition loadEmojiData :: "qt_json \<Rightarrow> string option \<Rightarrow> bool \<times> (string \<times> json) list" where
  "loadEmojiData Q file =
     (let emoObject = m_jsonObject (snd (readJsonFile Q file new_JsonHandler)) in (emoObject \<noteq> [], emoObject))"

text \<open>The table that the bubbles look emoticons up in; an empty object stands for no table.\<close>

definition emoji_table :: "qt_json \<Rightarrow> (string \<times> json) list \<Rightarrow> (string \<Rightarrow> string) option" where
  "emoji_table Q emoObject = (if emoObject = [] then None else Some (\<lambda>key. q_toString Q (q_value Q (JObj emoObject) key)))"

section \<open>The emoticon window\<close>

record emotion_label =
  emotionName :: string
  emotionPath :: string
  label_row :: nat
  label_column :: nat

datatype emotion_signal = signalEmotionWindowHide | signalEmotionItemClicked string

record EmotionWindow =
  emotion_labels :: "emotion_label list"
  emotion_visible :: bool
  emotion_signals :: "emotion_signal list"

fun emotion_grid :: "qt_json \<Rightarrow> (string \<times> json) list \<Rightarrow> nat \<Rightarrow> nat \<Rightarrow> emotion_label list" where
  "emotion_grid Q [] row column = []"
| "emotion_grid Q ((emo_name, v) # kvs) row column =
     \<lparr>emotionName = emo_name, emotionPath = q_toString Q v, label_row = row, label_column = column\<rparr> #
     (if column + 1 = 10 then emotion_grid Q kvs (row + 1) 0 else emotion_grid Q kvs row (column + 1))"

definition EmotionWindow_initControl :: "qt_json \<Rightarrow> string option \<Rightarrow> EmotionWindow" where
  "EmotionWindow_initControl Q file =
     (let (is_load, emoObject) = loadEmojiData Q file in
      \<lparr>emotion_labels = (if \<not> is_load then [] else emotion_grid Q emoObject 0 0), emotion_visible = False, emotion_signals = []\<rparr>)"

definition addEmotion :: "string \<Rightarrow> EmotionWindow \<Rightarrow> EmotionWindow" where
  "addEmotion path w =
     w\<lparr>emotion_visible := False, emotion_signals := emotion_signals w @ [signalEmotionWindowHide, signalEmotionItemClicked path]\<rparr>"

text \<open>\<open>inside\<close>: the widget under the cursor is the window or one of its two areas.\<close>

definition EmotionWindow_focusOut :: "bool \<Rightarrow> EmotionWindow \<Rightarrow> EmotionWindow" where
  "EmotionWindow_focusOut inside w =
     (if inside then w else w\<lparr>emotion_visible := False, emotion_signals := emotion_signals w @ [signalEmotionWindowHide]\<rparr>)"

text \<open>The label in the chat page with the window it opens: its slot, and a whole click.\<close>

definition onEmoLabelClicked :: "ClickLbState \<Rightarrow> EmotionWindow \<Rightarrow> EmotionWindow" where
  "onEmoLabelClicked state w = (if state = Selected then w\<lparr>emotion_visible := \<not> emotion_visible w\<rparr> else w)"

definition click_emo_label :: "StateWidget \<times> EmotionWindow \<Rightarrow> StateWidget \<times> EmotionWindow" where
  "click_emo_label = (\<lambda>(emo_lb, w).
     let lb = snd (ClickedLabel_event LeftPress emo_lb); (clicked, lb') = ClickedLabel_event LeftRelease lb in
     (lb', if clicked then onEmoLabelClicked (curstate lb') w else w))"

lemma emotion_grid_position:
  "column < 10 \<Longrightarrow> i < length kvs \<Longrightarrow> emotion_grid Q kvs row column ! i =
     \<lparr>emotionName = fst (kvs ! i), emotionPath = q_toString Q (snd (kvs ! i)),
      label_row = (10 * row + column + i) div 10, label_column = (10 * row + column + i) mod 10\<rparr>"
proof (induction Q kvs row column arbitrary: i rule: emotion_grid.induct)
  case (2 Q emo_name v kvs row column)
  show ?case
  proof (cases i)
    case 0
    then show ?thesis using 2(3) by simp
  next
    case (Suc j)
    then have j: "j < length kvs" using 2(4) by simp
    show ?thesis
    proof (cases "column + 1 = 10")
      case True
      have e: "10 * (row + 1) + 0 + j = 10 * row + column + i" using True Suc by simp
      show ?thesis using 2(1) [OF True _ j] True Suc unfolding e by (simp del: mult_Suc_right)
    next
      case False
      have e: "10 * row + (column + 1) + j = 10 * row + column + i" using Suc by simp
      show ?thesis using 2(2) [OF False _ j] 2(3) False Suc unfolding e by simp
    qed
  qed
qed simp

lemma place_labels_paths: "map (\<lambda>l. (emotionName l, emotionPath l)) (emotion_grid Q kvs row column) = map (\<lambda>(k, v). (k, q_toString Q v)) kvs"
  by (induction Q kvs row column rule: emotion_grid.induct) auto

text \<open>
  Every emoticon of the window can be sent and read: when the names in the file are distinct and each is
  the base name of its picture, the text an emoticon is sent as is read back, with the same file, as
  that emoticon.
\<close>

theorem window_emoticons_readable:
  assumes Q: "qt_documented Q" and f: "file = Some txt" "q_fromJson Q txt = Some (JObj kvs)" "distinct (map fst kvs)"
    and l: "l \<in> set (emotion_labels (EmotionWindow_initControl Q file))" "emotion_name (emotionPath l) = emotionName l"
    and n: "set (emotionName l) \<inter> {CHR '']'', CHR 0x0A} = {}"
  shows "parseMixedMessage (emoji_table Q (snd (loadEmojiData Q file))) (emotion_tag (emotionPath l)) =
    [\<lparr>msgFlag = ''emotion'', msg_body = emotionPath l\<rparr>]"
proof -
  have k: "loadEmojiData Q file = (kvs \<noteq> [], kvs)" using f(1,2) by (simp add: loadEmojiData_def readJsonFile_def)
  then have ne: "kvs \<noteq> []" and "l \<in> set (emotion_grid Q kvs 0 0)"
    using l(1) by (auto simp: EmotionWindow_initControl_def split: if_splits)
  then have "(emotionName l, emotionPath l) \<in> (\<lambda>(k, v). (k, q_toString Q v)) ` set kvs"
    using place_labels_paths [of Q kvs 0 0] by (metis (no_types, lifting) image_eqI image_set)
  then obtain v where v: "(emotionName l, v) \<in> set kvs" "emotionPath l = q_toString Q v" by auto
  then have "map_of kvs (emotionName l) = Some v" using f(3) by simp
  then have t: "emoji_table Q kvs = Some (\<lambda>key. q_toString Q (q_value Q (JObj kvs) key))"
      "q_toString Q (q_value Q (JObj kvs) (emotionName l)) = emotionPath l"
    using Q ne v(2) by (simp_all add: emoji_table_def qt_documented_def)
  have "parseMixedMessage (Some (\<lambda>key. q_toString Q (q_value Q (JObj kvs) key)))
      (concat (map msg_text [\<lparr>msgFlag = ''emotion'', msg_body = emotionPath l\<rparr>])) = [\<lparr>msgFlag = ''emotion'', msg_body = emotionPath l\<rparr>]"
    by (rule mixed_message_roundtrip) (use l(2) n t(2) in simp)
  then show ?thesis by (simp add: k t(1) msg_text_def)
qed

text \<open>
  The label reacts to every other click only: the first click opens the window, choosing an emoticon
  closes it, and the next click on the label leaves it closed.
\<close>

theorem emoticon_window_needs_two_clicks:
  assumes "curstate lb = Normal" "\<not> emotion_visible w" "click_emo_label (lb, w) = (lb', w')" "click_emo_label (lb', addEmotion path w') = (lb'', w'')"
  shows "emotion_visible w' \<and> \<not> emotion_visible w'' \<and> emotion_visible (snd (click_emo_label (lb'', w'')))"
  using assms by (auto simp: click_emo_label_def onEmoLabelClicked_def addEmotion_def with_style_def)

section \<open>Texts and colours\<close>

text \<open>\<open>QString::replace\<close> of one character by a text.\<close>

definition replace_char :: "char \<Rightarrow> string \<Rightarrow> string \<Rightarrow> string" where
  "replace_char c by = concat \<circ> map (\<lambda>x. if x = c then by else [x])"

definition CharacterEscaping :: "string \<Rightarrow> string" where
  "CharacterEscaping content =
     replace_char (CHR 0x5C) ''&#92;''
       (replace_char (CHR ''>'') ''&gt;''
         (replace_char (CHR ''<'') ''&lt;''
           (replace_char (CHR ''&'') ''&amp;''
             (replace_char (CHR 0x22) ''&quot;'' content))))"

lemma replace_char_append [simp]: "replace_char c by (xs @ ys) = replace_char c by xs @ replace_char c by ys"
  by (simp add: replace_char_def)

lemma CharacterEscaping_append: "CharacterEscaping (xs @ ys) = CharacterEscaping xs @ CharacterEscaping ys"
  by (simp add: CharacterEscaping_def)

lemma CharacterEscaping_char:
  "CharacterEscaping [c] = (if c = CHR 0x22 then ''&amp;quot;'' else if c = CHR ''&'' then ''&amp;'' else if c = CHR ''<'' then ''&lt;''
     else if c = CHR ''>'' then ''&gt;'' else if c = CHR 0x5C then ''&#92;'' else [c])"
  by (simp add: CharacterEscaping_def replace_char_def)

text \<open>
  Escaped texts hold no markup: every character is escaped by itself, no angle bracket, quote or
  backslash is left. A quotation mark is escaped twice, because the ampersand of its entity is
  escaped again.
\<close>

theorem CharacterEscaping_safe:
  "CharacterEscaping content = concat (map (\<lambda>c. CharacterEscaping [c]) content) \<and>
   set (CharacterEscaping content) \<inter> {CHR ''<'', CHR ''>'', CHR 0x22, CHR 0x5C} = {}"
proof -
  have e: "CharacterEscaping content = concat (map (\<lambda>c. CharacterEscaping [c]) content)" for content
  proof (induction content)
    case (Cons c content)
    then show ?case using CharacterEscaping_append [of "[c]" content] by simp
  qed (simp add: CharacterEscaping_def replace_char_def)
  have "set (CharacterEscaping [c]) \<inter> {CHR ''<'', CHR ''>'', CHR 0x22, CHR 0x5C} = {}" for c by (simp add: CharacterEscaping_char)
  then have "set (concat (map (\<lambda>c. CharacterEscaping [c]) content)) \<inter> {CHR ''<'', CHR ''>'', CHR 0x22, CHR 0x5C} = {}"
    unfolding set_concat set_map image_image by blast
  then show ?thesis using e [of content] by metis
qed

text \<open>The skin colour in the settings file; \<open>None\<close> is a file that does not exist.\<close>

type_synonym skin = "(string \<rightharpoonup> int) option"

record QColor =
  red :: int
  green :: int
  blue :: int

definition setDefaultSkinColor :: "QColor \<Rightarrow> skin \<Rightarrow> skin" where
  "setDefaultSkinColor color settings =
     Some ((case settings of Some m \<Rightarrow> m | None \<Rightarrow> Map.empty)
       (''DefaultSkin/red'' \<mapsto> red color, ''DefaultSkin/green'' \<mapsto> green color, ''DefaultSkin/blue'' \<mapsto> blue color))"

definition getDefaultSkinColor :: "skin \<Rightarrow> QColor \<times> skin" where
  "getDefaultSkinColor settings =
     (let s = (case settings of None \<Rightarrow> setDefaultSkinColor \<lparr>red = 22, green = 154, blue = 218\<rparr> None | Some m \<Rightarrow> Some m);
          v = (\<lambda>k. case s of Some m \<Rightarrow> (case m k of Some i \<Rightarrow> i | None \<Rightarrow> 0) | None \<Rightarrow> 0) in
      (\<lparr>red = v ''DefaultSkin/red'', green = v ''DefaultSkin/green'', blue = v ''DefaultSkin/blue''\<rparr>, s))"

lemma skin_roundtrip: "fst (getDefaultSkinColor (setDefaultSkinColor c s)) = c"
  "fst (getDefaultSkinColor None) = \<lparr>red = 22, green = 154, blue = 218\<rparr>"
  "snd (getDefaultSkinColor (snd (getDefaultSkinColor s))) = snd (getDefaultSkinColor s)"
  by (simp_all add: getDefaultSkinColor_def setDefaultSkinColor_def Let_def split: option.splits)

section \<open>The top of the object tree\<close>

text \<open>\<open>parent\<close> is the parent of each object; the loop ends when an object has none.\<close>

partial_function (option) top_loop :: "(nat \<Rightarrow> nat option) \<Rightarrow> nat \<Rightarrow> nat option" where
  "top_loop parent obj = (case parent obj of None \<Rightarrow> Some obj | Some p \<Rightarrow> top_loop parent p)"

definition findTopLevelParent :: "(nat \<Rightarrow> nat option) \<Rightarrow> nat option \<Rightarrow> nat option option" where
  "findTopLevelParent parent obj = (case obj of None \<Rightarrow> Some None | Some a \<Rightarrow> map_option Some (top_loop parent a))"

text \<open>
  In a tree of objects, where no chain of parents goes on for ever, \<open>findTopLevelParent\<close> returns the
  object without parent that the chain leads to.
\<close>

theorem findTopLevelParent_top:
  assumes "wf {(p, a). parent a = Some p}"
  shows "\<exists>top. findTopLevelParent parent (Some obj) = Some (Some top) \<and> parent top = None \<and> (obj, top) \<in> {(a, p). parent a = Some p}\<^sup>*"
proof -
  have "\<exists>top. top_loop parent obj = Some top \<and> parent top = None \<and> (obj, top) \<in> {(a, p). parent a = Some p}\<^sup>*"
    using assms
  proof (induction obj rule: wf_induct_rule)
    case (less obj)
    show ?case
    proof (cases "parent obj")
      case None
      then show ?thesis by (auto simp: top_loop.simps)
    next
      case (Some p)
      then obtain top where "top_loop parent p = Some top" "parent top = None" "(p, top) \<in> {(a, p). parent a = Some p}\<^sup>*"
        using less.IH [of p] by auto
      then show ?thesis using Some by (intro exI [of _ top]) (auto simp: top_loop.simps [of parent obj] intro: converse_rtrancl_into_rtrancl)
    qed
  qed
  then show ?thesis by (auto simp: findTopLevelParent_def)
qed

section \<open>Times in the list of conversations\<close>

text \<open>A local date and time of Qt: the number of its day and its fields.\<close>

record QDateTime = tm +
  julian_day :: int

definition yesterday_text :: string where
  "yesterday_text = [CHR 0xE6, CHR 0x98, CHR 0xA8, CHR 0xE5, CHR 0xA4, CHR 0xA9, CHR '' '']"

definition hh_mm :: "QDateTime \<Rightarrow> string" where
  "hh_mm t = setw 2 (to_string (tm_hour t)) @ '':'' @ setw 2 (to_string (tm_min t))"

definition getFormattedTimeString :: "QDateTime \<Rightarrow> QDateTime \<Rightarrow> string" where
  "getFormattedTimeString currentDateTime datetime =
     (if julian_day datetime = julian_day currentDateTime then hh_mm datetime
      else if julian_day datetime = julian_day currentDateTime - 1 then yesterday_text @ hh_mm datetime
      else setw 2 (to_string (tm_year datetime mod 100)) @ ''/'' @ setw 2 (to_string (tm_mon datetime + 1)) @ ''/'' @
        setw 2 (to_string (tm_mday datetime)) @ '' '' @ hh_mm datetime)"

text \<open>
  The labels of an item: \<open>SetInfo\<close> and \<open>updateLastMsg\<close>. \<open>local\<close> is the local time of a
  number of seconds, \<open>now\<close> the present one. \<open>updateLastMsg\<close> compares the text, not the time, with 0,
  which holds for the empty text.
\<close>

record item_labels =
  user_name_lb :: string
  user_chat_lb :: string
  time_lb :: string
  time_lb_visible :: bool

definition show_time :: "(int \<Rightarrow> QDateTime) \<Rightarrow> QDateTime \<Rightarrow> int \<Rightarrow> item_labels \<Rightarrow> item_labels" where
  "show_time local now time l =
     (if time \<le> 0 then l\<lparr>time_lb_visible := False\<rparr>
      else l\<lparr>time_lb := getFormattedTimeString now (local time), time_lb_visible := True\<rparr>)"

definition SetInfo_labels :: "(int \<Rightarrow> QDateTime) \<Rightarrow> QDateTime \<Rightarrow> ClientUserInfo \<Rightarrow> item_labels \<Rightarrow> item_labels" where
  "SetInfo_labels local now info l =
     show_time local now (cu_last_msg_time info) (l\<lparr>user_name_lb := cu_name info, user_chat_lb := cu_last_msg info\<rparr>)"

definition updateLastMsg_labels :: "(int \<Rightarrow> QDateTime) \<Rightarrow> QDateTime \<Rightarrow> ClientUserInfo \<Rightarrow> item_labels \<Rightarrow> item_labels" where
  "updateLastMsg_labels local now info l =
     (if cu_last_msg info = [] then l\<lparr>time_lb_visible := False\<rparr>
      else l\<lparr>user_chat_lb := cu_last_msg info, time_lb := getFormattedTimeString now (local (cu_last_msg_time info)), time_lb_visible := True\<rparr>)"

text \<open>
  A message that came in shows in its item: after it, the item shows its text and its time, unless the
  text is empty, where the item keeps the text of the message before.
\<close>

lemma updateLastMsg_shows:
  "cu_last_msg info \<noteq> [] \<Longrightarrow> user_chat_lb (updateLastMsg_labels local now info l) = cu_last_msg info"
  "cu_last_msg info = [] \<Longrightarrow> user_chat_lb (updateLastMsg_labels local now info l) = user_chat_lb l"
  by (simp_all add: updateLastMsg_labels_def)

text \<open>A time of today is shown by the hour alone, one of yesterday and an older one never look like it.\<close>

lemma today_shown: "julian_day t = julian_day now \<Longrightarrow> getFormattedTimeString now t = hh_mm t"
  by (simp add: getFormattedTimeString_def)

lemma older_marked:
  assumes "julian_day t \<noteq> julian_day now" "0 \<le> tm_mon t" "0 \<le> tm_mday t" "0 \<le> tm_hour t" "0 \<le> tm_min t"
  shows "CHR '' '' \<in> set (getFormattedTimeString now t)" "CHR '' '' \<notin> set (hh_mm t)"
proof -
  have "\<not> is_digit (CHR '' '')" by (simp add: is_digit_def)
  then show "CHR '' '' \<notin> set (hh_mm t)" using assms setw_digits [of "tm_hour t" "CHR '' ''" 2] setw_digits [of "tm_min t" "CHR '' ''" 2]
    by (auto simp: hh_mm_def)
qed (use assms in \<open>simp add: getFormattedTimeString_def yesterday_text_def\<close>)

end
