(* ===== verification/MultiSelect.thy ===== *)
theory MultiSelect
  imports ClientView MessageBus
begin

text \<open>
  Selecting several messages in the client: the mouse and menu events of \<open>gui/chats/chat_item_base.cpp\<close> and
  the action bar of \<open>gui/chat_page.cpp\<close>, with the messages of the bus
  that connect them to every view (\<open>gui/chats/chat_view.cpp\<close>). Texts of the menu and painting are left out.
\<close>

section \<open>State\<close>

text \<open>
  The circle of an item, shown or not, with the picture for selected or not; the static member
  \<open>m_isMultiSelected\<close>; the views by the uid of their friend; and the page under the messages, the editor
  or the action bar. Identifiers of items are unique over all views.
\<close>

record select_icon =
  icon_visible :: bool
  icon_selected :: bool

record SelectState =
  isMultiSelected :: bool
  sel_views :: "int \<rightharpoonup> ChatView"
  sel_icons :: "string \<Rightarrow> select_icon"
  action_page :: bool

definition at_view :: "int \<Rightarrow> (ChatView \<Rightarrow> ChatView) \<Rightarrow> SelectState \<Rightarrow> SelectState" where
  "at_view uid f s = (case sel_views s uid of None \<Rightarrow> s | Some v \<Rightarrow> s\<lparr>sel_views := (sel_views s)(uid \<mapsto> f v)\<rparr>)"

definition set_icon :: "string \<Rightarrow> (select_icon \<Rightarrow> select_icon) \<Rightarrow> SelectState \<Rightarrow> SelectState" where
  "set_icon uuid f s = s\<lparr>sel_icons := (sel_icons s)(uuid := f (sel_icons s uuid))\<rparr>"

definition item_of :: "SelectState \<Rightarrow> int \<Rightarrow> string \<Rightarrow> ChatItemBase option" where
  "item_of s uid uuid = Option.bind (sel_views s uid) (\<lambda>v. chatItems v uuid)"

section \<open>Events of an item\<close>

text \<open>\<open>setSelected\<close>: the state of the item and the signal are those of the view's theory; then the circle.\<close>

definition item_setSelected :: "bool \<Rightarrow> int \<Rightarrow> string \<Rightarrow> SelectState \<Rightarrow> SelectState" where
  "item_setSelected selected uid uuid s =
     (let t = at_view uid (setSelected selected uuid) s in
      case item_of t uid uuid of
        None \<Rightarrow> t
      | Some item \<Rightarrow> set_icon uuid (\<lambda>_. \<lparr>icon_visible = isMultiSelected t, icon_selected = ci_selected item\<rparr>) t)"

definition item_mousePress :: "bool \<Rightarrow> int \<Rightarrow> string \<Rightarrow> SelectState \<Rightarrow> SelectState" where
  "item_mousePress left_button uid uuid s =
     (if isMultiSelected s \<and> left_button then item_setSelected True uid uuid s else s)"

text \<open>
  The handlers of \<open>MULTI_SELECT_REQ\<close>: of the page, of the views, and of the items. Leaving the mode clears
  the selection of every view, whose items then update their circles.
\<close>

definition view_multi_handler :: "bool \<Rightarrow> ChatView \<Rightarrow> ChatView" where
  "view_multi_handler selected v = (if \<not> selected then clearSelection v else v)"

definition stored_uuids :: "SelectState \<Rightarrow> string set" where
  "stored_uuids s = {uuid. \<exists>uid v. sel_views s uid = Some v \<and> chatItems v uuid \<noteq> None}"

definition cleared_uuids :: "SelectState \<Rightarrow> string set" where
  "cleared_uuids s = {uuid. \<exists>uid v. sel_views s uid = Some v \<and> chatItems v uuid \<noteq> None \<and> uuid \<in> set (selectedItems v)}"

definition multi_select_req :: "bool \<Rightarrow> SelectState \<Rightarrow> SelectState" where
  "multi_select_req selected s =
     s\<lparr>action_page := selected,
       sel_views := (\<lambda>uid. map_option (view_multi_handler selected) (sel_views s uid)),
       isMultiSelected := (if stored_uuids s = {} then isMultiSelected s else selected),
       sel_icons := (\<lambda>uuid. if uuid \<in> stored_uuids s
         then \<lparr>icon_visible = selected, icon_selected = (if \<not> selected \<and> uuid \<in> cleared_uuids s then False else icon_selected (sel_icons s uuid))\<rparr>
         else sel_icons s uuid)\<rparr>"

datatype menu_choice = ChooseMultiSelect | ChooseDelete | ChooseOther

definition mark_selected :: "string \<Rightarrow> ChatView \<Rightarrow> ChatView" where
  "mark_selected uuid v =
     (case chatItems v uuid of None \<Rightarrow> v | Some item \<Rightarrow> v\<lparr>chatItems := (chatItems v)(uuid \<mapsto> item\<lparr>ci_selected := True\<rparr>)\<rparr>)"

text \<open>
  \<open>showContextMenu\<close> of an item of the view. The children of its parent are the items laid out there; the
  signals reach the view while they are connected.
\<close>

definition showContextMenu :: "menu_choice \<Rightarrow> int \<Rightarrow> string \<Rightarrow> SelectState \<Rightarrow> SelectState" where
  "showContextMenu choice uid uuid s =
     (case choice of
        ChooseMultiSelect \<Rightarrow>
          let s1 = at_view uid (mark_selected uuid) (s\<lparr>isMultiSelected := True\<rparr>);
              layout = (case sel_views s uid of Some v \<Rightarrow> set (vlayout v) | None \<Rightarrow> {});
              s2 = s1\<lparr>sel_icons := (\<lambda>u. if u \<in> layout then \<lparr>icon_visible = True, icon_selected = False\<rparr> else sel_icons s1 u)\<rparr>;
              s3 = set_icon uuid (\<lambda>i. i\<lparr>icon_selected := True\<rparr>) s2;
              s4 = multi_select_req True s3 in
          (case item_of s4 uid uuid of
             Some item \<Rightarrow> if ci_connected item then at_view uid (onItemMultiSelectRequested uuid) s4 else s4
           | None \<Rightarrow> s4)
      | ChooseDelete \<Rightarrow>
          (case item_of s uid uuid of
             Some item \<Rightarrow> if ci_connected item then at_view uid (onItemDeleteRequested uuid) s else s
           | None \<Rightarrow> s)
      | ChooseOther \<Rightarrow> s)"

section \<open>The action bar\<close>

definition onCloseLabelClicked :: "SelectState \<Rightarrow> SelectState" where
  "onCloseLabelClicked = multi_select_req False"

text \<open>The handlers of \<open>DELETE_MULTI_SELECT_REQ\<close>, on the views in the order of their making.\<close>

definition delete_in_view :: "int \<Rightarrow> (SelectState, unit) prog" where
  "delete_in_view uid s =
     (case sel_views s uid of
        None \<Rightarrow> (Val (), s)
      | Some v \<Rightarrow> (case deleteSelectedItems v of (r, w) \<Rightarrow> (r, s\<lparr>sel_views := (sel_views s)(uid \<mapsto> w)\<rparr>)))"

definition onDeleteLabelClicked :: "int list \<Rightarrow> (SelectState, unit) prog" where
  "onDeleteLabelClicked uids = forM delete_in_view uids"

section \<open>Selected items\<close>

lemma view_multi_handler_True [simp]: "view_multi_handler True = (\<lambda>v. v)"
  by (simp add: view_multi_handler_def fun_eq_iff)

text \<open>A well-formed view whose items agree with its set of selected identifiers.\<close>

definition consistent :: "ChatView \<Rightarrow> bool" where
  "consistent v \<longleftrightarrow> shown_ok v \<and> selection_ok v \<and>
     (\<forall>u item. chatItems v u = Some item \<longrightarrow> ci_connected item \<and> (ci_selected item \<longleftrightarrow> u \<in> set (selectedItems v)))"

lemma setSelected_toggles:
  assumes "consistent v" "chatItems v u \<noteq> None"
  shows "consistent (setSelected True u v)" "set (selectedItems (setSelected True u v)) = {x. (x \<in> set (selectedItems v)) \<noteq> (x = u)}"
    "vlayout (setSelected True u v) = vlayout v" "dom (chatItems (setSelected True u v)) = dom (chatItems v)"
proof -
  have "shown_ok (setSelected True u v)" "selection_ok (setSelected True u v)"
    using view_ok_setSelected assms(1) by (simp_all add: consistent_def)
  then show "consistent (setSelected True u v)"
    using assms by (auto simp: consistent_def setSelected_def onItemSelectionChanged_def Let_def split: if_splits)
qed (use assms in \<open>auto simp: consistent_def selection_ok_def setSelected_def onItemSelectionChanged_def Let_def split: if_splits\<close>)

lemma fold_unselect:
  assumes "\<forall>u item. chatItems v u = Some item \<longrightarrow> ci_connected item"
  shows "chatItems (fold (setSelected False) us v) u = map_option (\<lambda>item. if u \<in> set us then item\<lparr>ci_selected := False\<rparr> else item) (chatItems v u)"
  using assms
proof (induction us arbitrary: v)
  case Nil
  then show ?case by (simp add: option.map_ident)
next
  case (Cons x us)
  have c: "chatItems (setSelected False x v) u = map_option (\<lambda>item. if u = x then item\<lparr>ci_selected := False\<rparr> else item) (chatItems v u)" for u
    by (cases "chatItems v u") (auto simp: setSelected_def onItemSelectionChanged_def Let_def split: option.splits)
  have "\<forall>u item. chatItems (setSelected False x v) u = Some item \<longrightarrow> ci_connected item"
    using Cons.prems by (auto simp: c split: if_splits)
  from Cons.IH [OF this] show ?case by (cases "chatItems v u") (auto simp: c)
qed

lemma clearSelection_consistent:
  assumes "consistent v"
  shows "selectedItems (clearSelection v) = []" "\<And>u item. chatItems (clearSelection v) u = Some item \<Longrightarrow> \<not> ci_selected item"
    "dom (chatItems (clearSelection v)) = dom (chatItems v)"
proof -
  have c: "\<forall>u item. chatItems v u = Some item \<longrightarrow> ci_connected item" using assms by (simp add: consistent_def)
  have e: "selectedItems v = [] \<or> chatItems v \<noteq> Map.empty" using assms by (auto simp: consistent_def selection_ok_def)
  show "selectedItems (clearSelection v) = []" using e by (auto simp: clearSelection_def)
  show "\<not> ci_selected item" if "chatItems (clearSelection v) u = Some item" for u item
  proof (cases "selectedItems v = []")
    case True
    then show ?thesis using that assms by (auto simp: clearSelection_def consistent_def)
  next
    case False
    then have "chatItems (fold (setSelected False) (selectedItems v) v) u = Some item" using that e by (auto simp: clearSelection_def)
    then obtain item' where "chatItems v u = Some item'" "item = (if u \<in> set (selectedItems v) then item'\<lparr>ci_selected := False\<rparr> else item')"
      unfolding fold_unselect [OF c] by auto
    then show ?thesis using assms by (auto simp: consistent_def)
  qed
  show "dom (chatItems (clearSelection v)) = dom (chatItems v)"
    using fold_unselect [OF c, of "selectedItems v"] by (auto simp: clearSelection_def dom_def)
qed

lemma press_in_mode:
  assumes "isMultiSelected s" "sel_views s uid = Some v" "consistent v" "chatItems v u \<noteq> None"
  obtains w where "sel_views (item_mousePress True uid u s) = (sel_views s)(uid \<mapsto> w)" "isMultiSelected (item_mousePress True uid u s)"
    "consistent w" "set (selectedItems w) = {x. (x \<in> set (selectedItems v)) \<noteq> (x = u)}" "vlayout w = vlayout v" "dom (chatItems w) = dom (chatItems v)"
    "ci_selected (the (item_of (item_mousePress True uid u s) uid u)) = icon_selected (sel_icons (item_mousePress True uid u s) u)"
proof -
  let ?w = "setSelected True u v"
  have w: "chatItems ?w u \<noteq> None" using setSelected_toggles(4) [OF assms(3,4)] assms(4) by (metis domIff)
  show thesis
    by (rule that [OF _ _ setSelected_toggles [OF assms(3,4)]])
      (use assms(1,2) w in \<open>auto simp: item_mousePress_def item_setSelected_def at_view_def item_of_def set_icon_def Let_def split: option.splits\<close>)
qed

lemma presses_in_mode:
  assumes "isMultiSelected s" "sel_views s uid = Some v" "consistent v" "\<forall>u \<in> set us. chatItems v u \<noteq> None"
  shows "\<exists>w. sel_views (fold (item_mousePress True uid) us s) = (sel_views s)(uid \<mapsto> w) \<and> consistent w \<and>
    set (selectedItems w) = {x. (x \<in> set (selectedItems v)) \<noteq> odd (count_list us x)} \<and> vlayout w = vlayout v \<and> dom (chatItems w) = dom (chatItems v)"
  using assms
proof (induction us arbitrary: s v)
  case Nil
  then show ?case by (intro exI [of _ v]) auto
next
  case (Cons u us)
  obtain w where w: "sel_views (item_mousePress True uid u s) = (sel_views s)(uid \<mapsto> w)" "isMultiSelected (item_mousePress True uid u s)"
      "consistent w" "set (selectedItems w) = {x. (x \<in> set (selectedItems v)) \<noteq> (x = u)}" "vlayout w = vlayout v" "dom (chatItems w) = dom (chatItems v)"
    by (rule press_in_mode [OF Cons.prems(1-3), of u]) (use Cons.prems(4) in auto)
  have all: "\<forall>x \<in> set us. chatItems w x \<noteq> None" using Cons.prems(4) w(6) by (metis domIff list.set_intros(2))
  have "sel_views (item_mousePress True uid u s) uid = Some w" using w(1) by simp
  from Cons.IH [OF w(2) this w(3) all] obtain w' where w': "sel_views (fold (item_mousePress True uid) us (item_mousePress True uid u s)) =
        (sel_views (item_mousePress True uid u s))(uid \<mapsto> w')" "consistent w'"
      "set (selectedItems w') = {x. (x \<in> set (selectedItems w)) \<noteq> odd (count_list us x)}" "vlayout w' = vlayout w" "dom (chatItems w') = dom (chatItems w)"
    by blast
  have "set (selectedItems w') = {x. (x \<in> set (selectedItems v)) \<noteq> odd (count_list (u # us) x)}"
    unfolding w'(3) w(4) by (rule Collect_cong) auto
  then show ?case using w(1,5,6) w'(1,2,4,5) by (intro exI [of _ w']) simp
qed

lemma menu_multi_select:
  assumes "sel_views s uid = Some v" "consistent v" "selectedItems v = []" "chatItems v u \<noteq> None"
  shows "isMultiSelected (showContextMenu ChooseMultiSelect uid u s)" "action_page (showContextMenu ChooseMultiSelect uid u s)"
    "\<exists>w. sel_views (showContextMenu ChooseMultiSelect uid u s) = (sel_views s)(uid \<mapsto> w) \<and> consistent w \<and> selectedItems w = [u] \<and>
      vlayout w = vlayout v \<and> dom (chatItems w) = dom (chatItems v)"
proof -
  let ?w = "onItemMultiSelectRequested u (mark_selected u v)"
  have c: "consistent ?w" "vlayout ?w = vlayout v" "dom (chatItems ?w) = dom (chatItems v)" "selectedItems ?w = [u]"
    using assms(2-4) by (auto simp: consistent_def shown_ok_def selection_ok_def onItemMultiSelectRequested_def mark_selected_def split: option.splits if_splits)
  have i: "\<And>item. chatItems (mark_selected u v) u = Some item \<Longrightarrow> ci_connected item"
    using assms(2,4) by (auto simp: consistent_def mark_selected_def)
  have "sel_views (showContextMenu ChooseMultiSelect uid u s) = (sel_views s)(uid \<mapsto> ?w)"
    using assms(1,4) i by (auto simp: showContextMenu_def Let_def at_view_def item_of_def multi_select_req_def set_icon_def fun_eq_iff
      option.map_ident mark_selected_def split: option.splits)
  with c show "\<exists>w. sel_views (showContextMenu ChooseMultiSelect uid u s) = (sel_views s)(uid \<mapsto> w) \<and> consistent w \<and> selectedItems w = [u] \<and>
      vlayout w = vlayout v \<and> dom (chatItems w) = dom (chatItems v)" by blast
  have m: "isMultiSelected (at_view a f t) = isMultiSelected t" "action_page (at_view a f t) = action_page t"
      "isMultiSelected (set_icon x g t) = isMultiSelected t" for a f t x g
    by (simp_all add: at_view_def set_icon_def split: option.splits)
  have "isMultiSelected t \<Longrightarrow> isMultiSelected (multi_select_req True t)" "action_page (multi_select_req True t)" for t
    by (simp_all add: multi_select_req_def)
  then show "isMultiSelected (showContextMenu ChooseMultiSelect uid u s)" "action_page (showContextMenu ChooseMultiSelect uid u s)"
    by (simp_all add: showContextMenu_def Let_def m split: option.splits)
qed

section \<open>Deleting what was chosen\<close>

lemma delete_in_views:
  assumes "distinct uids" "\<forall>a v. a \<in> set uids \<longrightarrow> sel_views s a = Some v \<longrightarrow> consistent v"
  shows "\<exists>t. onDeleteLabelClicked uids s = (Val (), t) \<and>
    (\<forall>a. sel_views t a = (if a \<in> set uids then map_option (\<lambda>v. snd (deleteSelectedItems v)) (sel_views s a) else sel_views s a))"
  using assms
proof (induction uids arbitrary: s)
  case Nil
  then show ?case by (simp add: onDeleteLabelClicked_def ret_def)
next
  case (Cons a uids)
  let ?t = "s\<lparr>sel_views := (sel_views s)(a := map_option (\<lambda>v. snd (deleteSelectedItems v)) (sel_views s a))\<rparr>"
  have d: "delete_in_view a s = (Val (), if sel_views s a = None then s else ?t)"
  proof (cases "sel_views s a")
    case (Some v)
    then have "fst (deleteSelectedItems v) = Val ()"
      using deleteSelectedItems_decides [of v] Cons.prems(2) by (auto simp: consistent_def selection_ok_def)
    then show ?thesis using Some by (cases "deleteSelectedItems v") (simp add: delete_in_view_def)
  qed (simp add: delete_in_view_def)
  have "\<exists>t. onDeleteLabelClicked uids u = (Val (), t) \<and>
      (\<forall>b. sel_views t b = (if b \<in> set uids then map_option (\<lambda>v. snd (deleteSelectedItems v)) (sel_views u b) else sel_views u b))"
    if "u = (if sel_views s a = None then s else ?t)" for u
    using that Cons.prems by (intro Cons.IH) auto
  then obtain t where "onDeleteLabelClicked uids (if sel_views s a = None then s else ?t) = (Val (), t)"
      "\<forall>b. sel_views t b = (if b \<in> set uids then map_option (\<lambda>v. snd (deleteSelectedItems v)) (sel_views (if sel_views s a = None then s else ?t) b)
        else sel_views (if sel_views s a = None then s else ?t) b)" by blast
  then show ?case using d Cons.prems(1) by (intro exI [of _ t]) (auto simp: onDeleteLabelClicked_def bnd_def)
qed

text \<open>
  C30. Deleting several messages removes those that were chosen: after \<open>multi-select\<close> in the menu of one
  message and any sequence of clicks on messages of the same conversation, the delete button takes
  away exactly the messages that were chosen an odd number of times (the first choice is the one in
  the menu, each click switches a message on or off); the others stay, in their order, and the
  conversations without a selection keep all their messages.
\<close>

theorem multi_delete_removes_chosen:
  assumes v: "sel_views s uid = Some v" "selectedItems v = []" "u \<in> set (vlayout v)" "set us \<subseteq> set (vlayout v)"
    and ok: "\<forall>a w. sel_views s a = Some w \<longrightarrow> consistent w" and uids: "distinct uids" "uid \<in> set uids"
  shows "\<exists>t w. onDeleteLabelClicked uids (fold (item_mousePress True uid) us (showContextMenu ChooseMultiSelect uid u s)) = (Val (), t) \<and>
    sel_views t uid = Some w \<and> vlayout w = filter (\<lambda>x. even (count_list (u # us) x)) (vlayout v) \<and> selectedItems w = [] \<and>
    (\<forall>a w'. a \<noteq> uid \<longrightarrow> sel_views s a = Some w' \<longrightarrow> selectedItems w' = [] \<longrightarrow> map_option vlayout (sel_views t a) = Some (vlayout w'))"
proof -
  have c: "consistent v" "shown_ok v" using ok v(1) by (auto simp: consistent_def)
  have st: "chatItems v x \<noteq> None" if "x \<in> set (vlayout v)" for x using c(2) that by (simp add: shown_ok_def)
  let ?s1 = "showContextMenu ChooseMultiSelect uid u s"
  obtain v1 where v1: "sel_views ?s1 = (sel_views s)(uid \<mapsto> v1)" "consistent v1" "selectedItems v1 = [u]" "vlayout v1 = vlayout v"
      "dom (chatItems v1) = dom (chatItems v)"
    using menu_multi_select(3) [OF v(1) c(1) v(2) st [OF v(3)]] by blast
  have "\<forall>x \<in> set us. chatItems v1 x \<noteq> None" using st v(4) v1(5) by (metis domIff subsetD)
  then obtain v2 where v2: "sel_views (fold (item_mousePress True uid) us ?s1) = (sel_views ?s1)(uid \<mapsto> v2)" "consistent v2"
      "set (selectedItems v2) = {x. (x \<in> set (selectedItems v1)) \<noteq> odd (count_list us x)}" "vlayout v2 = vlayout v1" "dom (chatItems v2) = dom (chatItems v1)"
    using presses_in_mode [OF menu_multi_select(1) [OF v(1) c(1) v(2) st [OF v(3)]] _ v1(2), of uid us] v1(1) by auto
  let ?s2 = "fold (item_mousePress True uid) us ?s1"
  have views: "sel_views ?s2 = (sel_views s)(uid \<mapsto> v2)" using v1(1) v2(1) by simp
  have "\<forall>a w. a \<in> set uids \<longrightarrow> sel_views ?s2 a = Some w \<longrightarrow> consistent w" using ok v2(2) views by auto
  from delete_in_views [OF uids(1) this] obtain t where t: "onDeleteLabelClicked uids ?s2 = (Val (), t)"
      "\<forall>a. sel_views t a = (if a \<in> set uids then map_option (\<lambda>v. snd (deleteSelectedItems v)) (sel_views ?s2 a) else sel_views ?s2 a)"
    by blast
  have d: "vlayout (snd (deleteSelectedItems w)) = filter (\<lambda>x. x \<notin> set (selectedItems w)) (vlayout w) \<and> selectedItems (snd (deleteSelectedItems w)) = []"
    if "consistent w" for w
    using deleteSelectedItems_decides [of w] that by (auto simp: consistent_def selection_ok_def)
  have sel: "x \<notin> set (selectedItems v2) \<longleftrightarrow> even (count_list (u # us) x)" for x using v2(3) v1(3) by auto
  have "sel_views t uid = Some (snd (deleteSelectedItems v2))" using t(2) uids(2) views by simp
  moreover have "map_option vlayout (sel_views t a) = Some (vlayout w')" if "a \<noteq> uid" "sel_views s a = Some w'" "selectedItems w' = []" for a w'
    using that t(2) views d [of w'] ok by simp
  ultimately show ?thesis using t(1) d [OF v2(2)] sel v1(4) v2(4) by auto
qed

definition three_messages :: ChatView where
  "three_messages = fold (\<lambda>u. appendChatItem (Some (new_ChatItem Other u (ContentBubble [])))) [''a'', ''b'', ''c''] new_ChatView"

theorem multi_delete_removes_chosen_witness:
  "\<exists>t w. onDeleteLabelClicked [7] (fold (item_mousePress True 7) [''b'', ''c'', ''b''] (showContextMenu ChooseMultiSelect 7 ''a''
      \<lparr>isMultiSelected = False, sel_views = [7 \<mapsto> three_messages], sel_icons = (\<lambda>_. \<lparr>icon_visible = False, icon_selected = False\<rparr>), action_page = False\<rparr>)) =
    (Val (), t) \<and> sel_views t 7 = Some w \<and> vlayout w = [''b'']"
proof -
  let ?s = "\<lparr>isMultiSelected = False, sel_views = [7 \<mapsto> three_messages], sel_icons = (\<lambda>_. \<lparr>icon_visible = False, icon_selected = False\<rparr>), action_page = False\<rparr>"
  have v: "vlayout three_messages = [''a'', ''b'', ''c'']" "selectedItems three_messages = []" and c: "consistent three_messages"
    by (auto simp: three_messages_def view_ops consistent_def shown_ok_def selection_ok_def split: if_splits)
  have "\<exists>t w. onDeleteLabelClicked [7] (fold (item_mousePress True 7) [''b'', ''c'', ''b''] (showContextMenu ChooseMultiSelect 7 ''a'' ?s)) = (Val (), t) \<and>
      sel_views t 7 = Some w \<and> vlayout w = filter (\<lambda>x. even (count_list [''a'', ''b'', ''c'', ''b''] x)) (vlayout three_messages) \<and> selectedItems w = [] \<and>
      (\<forall>a w'. a \<noteq> 7 \<longrightarrow> sel_views ?s a = Some w' \<longrightarrow> selectedItems w' = [] \<longrightarrow> map_option vlayout (sel_views t a) = Some (vlayout w'))"
    by (rule multi_delete_removes_chosen) (simp_all add: v c)
  then show ?thesis by (auto simp: v)
qed

text \<open>
  Leaving the mode with the close button clears every selection: no message stays selected, and no
  circle is shown.
\<close>

theorem close_clears_selection:
  assumes "sel_views s uid = Some v" "consistent v" "chatItems v u = Some item"
  shows "\<exists>item'. item_of (onCloseLabelClicked s) uid u = Some item' \<and> \<not> ci_selected item' \<and>
    \<not> icon_visible (sel_icons (onCloseLabelClicked s) u) \<and> \<not> isMultiSelected (onCloseLabelClicked s) \<and> \<not> action_page (onCloseLabelClicked s)"
proof -
  have "u \<in> stored_uuids s" using assms(1,3) by (auto simp: stored_uuids_def)
  moreover obtain item' where "chatItems (clearSelection v) u = Some item'"
    using clearSelection_consistent(3) [OF assms(2)] assms(3) by (metis domD domI)
  ultimately show ?thesis
    using assms(1) clearSelection_consistent(2) [OF assms(2)]
    by (auto simp: onCloseLabelClicked_def multi_select_req_def item_of_def view_multi_handler_def)
qed

text \<open>
  Choosing \<open>multi-select\<close> in a menu a second time forgets the messages chosen before without telling them:
  their circles look empty, but the items still count as selected, so the next click on such a
  message switches it off and deleting leaves it.
\<close>

theorem second_request_forgets:
  assumes v: "sel_views s uid = Some v" "consistent v" and x: "chatItems v x = Some item" "ci_selected item" "x \<in> set (vlayout v)"
    and u: "chatItems v u \<noteq> None" "u \<noteq> x"
  defines "t \<equiv> showContextMenu ChooseMultiSelect uid u s"
  shows "\<not> icon_selected (sel_icons t x)" "x \<notin> set (selectedItems (the (sel_views t uid)))"
    "x \<notin> set (selectedItems (the (sel_views (item_mousePress True uid x t) uid)))"
proof -
  let ?w = "onItemMultiSelectRequested u (mark_selected u v)"
  have i: "\<And>item. chatItems (mark_selected u v) u = Some item \<Longrightarrow> ci_connected item"
    using v(2) u by (auto simp: consistent_def mark_selected_def)
  have t: "sel_views t uid = Some ?w"
    using v(1) u i by (auto simp: t_def showContextMenu_def Let_def at_view_def item_of_def multi_select_req_def set_icon_def mark_selected_def split: option.splits)
  have w: "chatItems ?w x = Some item" "x \<notin> set (selectedItems ?w)" "ci_connected item"
    using x u v(2) by (auto simp: onItemMultiSelectRequested_def mark_selected_def consistent_def split: option.splits)
  show "\<not> icon_selected (sel_icons t x)"
    using v(1) x(3) u i by (auto simp: t_def showContextMenu_def Let_def at_view_def item_of_def multi_select_req_def set_icon_def split: option.splits)
  show "x \<notin> set (selectedItems (the (sel_views t uid)))" using t w(2) by simp
  have "selectedItems (setSelected True x ?w) = removeAll x (selectedItems ?w)"
    using w x(2) by (simp add: setSelected_def onItemSelectionChanged_def Let_def)
  then show "x \<notin> set (selectedItems (the (sel_views (item_mousePress True uid x t) uid)))"
    using t w(2) by (auto simp: item_mousePress_def item_setSelected_def at_view_def set_icon_def Let_def split: option.splits)
qed

end
