(* ===== verification/ClientConnect.thy ===== *)
theory ClientConnect
  imports Framing Constants ClientLogin
begin

text \<open>
  The connection of the client to its chat server: the slots of the socket in \<open>network/tcp_mgr.cpp\<close> around the
  reader of theory \<open>Framing\<close>, and the login window that hears of them. What is read after the connection was
  lost and made again.
\<close>

section \<open>Errors of the socket\<close>

text \<open>The errors that the slot knows, and those of its default branch; the texts are written by their bytes.\<close>

datatype SocketError =
  ConnectionRefusedError | RemoteHostClosedError | SocketAccessError | SocketResourceError | SocketTimeoutError |
  DatagramTooLargeError | NetworkError | AddressInUseError | SocketAddressNotAvailableError |
  UnsupportedSocketOperationError | UnfinishedSocketOperationError | ProxyAuthenticationRequiredError |
  SslHandshakeFailedError | ProxyConnectionRefusedError | ProxyConnectionClosedError | ProxyConnectionTimeoutError |
  ProxyNotFoundError | ProxyProtocolError | OperationError | SslInternalError | SslInvalidUserDataError |
  TemporaryError | HostNotFoundError | OtherSocketError

fun error_utf8 :: "SocketError \<Rightarrow> nat list" where
  "error_utf8 ConnectionRefusedError =
     [0xE8, 0xBF, 0x9E, 0xE6, 0x8E, 0xA5, 0xE8, 0xA2, 0xAB, 0xE6, 0x8B, 0x92, 0xE7, 0xBB, 0x9D, 0x21]"
| "error_utf8 RemoteHostClosedError =
     [0x20, 0xE8, 0xBF, 0x9C, 0xE7, 0xA8, 0x8B, 0xE4, 0xB8, 0xBB, 0xE6, 0x9C, 0xBA, 0xE5, 0xB7, 0xB2, 0xE5, 0x85,
      0xB3, 0xE9, 0x97, 0xAD, 0x21]"
| "error_utf8 SocketAccessError =
     [0x20, 0xE7, 0xBD, 0x91, 0xE7, 0xBB, 0x9C, 0xE5, 0xA5, 0x97, 0xE6, 0x8E, 0xA5, 0xE5, 0xAD, 0x97, 0xE8, 0xAE,
      0xBF, 0xE9, 0x97, 0xAE, 0xE9, 0x94, 0x99, 0xE8, 0xAF, 0xAF, 0x21]"
| "error_utf8 SocketResourceError =
     [0xE7, 0xBD, 0x91, 0xE7, 0xBB, 0x9C, 0xE5, 0xA5, 0x97, 0xE6, 0x8E, 0xA5, 0xE5, 0xAD, 0x97, 0xE8, 0xB5, 0x84,
      0xE6, 0xBA, 0x90, 0xE9, 0x94, 0x99, 0xE8, 0xAF, 0xAF, 0x21]"
| "error_utf8 SocketTimeoutError =
     [0xE8, 0xBF, 0x9E, 0xE6, 0x8E, 0xA5, 0xE8, 0xB6, 0x85, 0xE6, 0x97, 0xB6, 0xEF, 0xBC, 0x8C, 0xE8, 0xAF, 0xB7,
      0xE6, 0xA3, 0x80, 0xE6, 0x9F, 0xA5, 0xE7, 0xBD, 0x91, 0xE7, 0xBB, 0x9C, 0xE8, 0xBF, 0x9E, 0xE6, 0x8E, 0xA5,
      0x21]"
| "error_utf8 DatagramTooLargeError =
     [0xE6, 0x95, 0xB0, 0xE6, 0x8D, 0xAE, 0xE6, 0x8A, 0xA5, 0xE5, 0x8C, 0x85, 0xE8, 0xBF, 0x87, 0xE5, 0xA4, 0xA7,
      0xE9, 0x94, 0x99, 0xE8, 0xAF, 0xAF, 0x21]"
| "error_utf8 NetworkError =
     [0xE7, 0xBD, 0x91, 0xE7, 0xBB, 0x9C, 0xE9, 0x94, 0x99, 0xE8, 0xAF, 0xAF, 0x21]"
| "error_utf8 AddressInUseError =
     [0xE5, 0x9C, 0xB0, 0xE5, 0x9D, 0x80, 0xE5, 0xB7, 0xB2, 0xE5, 0x8D, 0xA0, 0xE7, 0x94, 0xA8, 0xE9, 0x94, 0x99,
      0xE8, 0xAF, 0xAF, 0x21]"
| "error_utf8 SocketAddressNotAvailableError =
     [0xE5, 0x9C, 0xB0, 0xE5, 0x9D, 0x80, 0xE4, 0xB8, 0x8D, 0xE5, 0x8F, 0xAF, 0xE7, 0x94, 0xA8, 0xE9, 0x94, 0x99,
      0xE8, 0xAF, 0xAF, 0x21]"
| "error_utf8 UnsupportedSocketOperationError =
     [0xE4, 0xB8, 0x8D, 0xE6, 0x94, 0xAF, 0xE6, 0x8C, 0x81, 0xE7, 0x9A, 0x84, 0xE5, 0xA5, 0x97, 0xE6, 0x8E, 0xA5,
      0xE5, 0xAD, 0x97, 0xE6, 0x93, 0x8D, 0xE4, 0xBD, 0x9C, 0xE9, 0x94, 0x99, 0xE8, 0xAF, 0xAF, 0x21]"
| "error_utf8 UnfinishedSocketOperationError =
     [0xE6, 0x9C, 0xAA, 0xE5, 0xAE, 0x8C, 0xE6, 0x88, 0x90, 0xE7, 0x9A, 0x84, 0xE5, 0xA5, 0x97, 0xE6, 0x8E, 0xA5,
      0xE5, 0xAD, 0x97, 0xE6, 0x93, 0x8D, 0xE4, 0xBD, 0x9C, 0xE9, 0x94, 0x99, 0xE8, 0xAF, 0xAF, 0x21]"
| "error_utf8 ProxyAuthenticationRequiredError =
     [0xE4, 0xBB, 0xA3, 0xE7, 0x90, 0x86, 0xE8, 0xAE, 0xA4, 0xE8, 0xAF, 0x81, 0xE8, 0xA6, 0x81, 0xE6, 0xB1, 0x82,
      0xE9, 0x94, 0x99, 0xE8, 0xAF, 0xAF, 0x21]"
| "error_utf8 SslHandshakeFailedError =
     [0x53, 0x53, 0x4C, 0x20, 0xE4, 0xBC, 0x9A, 0xE8, 0xAF, 0x9D, 0xE5, 0xA4, 0xB1, 0xE8, 0xB4, 0xA5, 0xE9, 0x94,
      0x99, 0xE8, 0xAF, 0xAF, 0x21]"
| "error_utf8 ProxyConnectionRefusedError =
     [0xE4, 0xBB, 0xA3, 0xE7, 0x90, 0x86, 0xE8, 0xBF, 0x9E, 0xE6, 0x8E, 0xA5, 0xE8, 0xA2, 0xAB, 0xE6, 0x8B, 0x92,
      0xE7, 0xBB, 0x9D, 0xE9, 0x94, 0x99, 0xE8, 0xAF, 0xAF, 0x21]"
| "error_utf8 ProxyConnectionClosedError =
     [0xE4, 0xBB, 0xA3, 0xE7, 0x90, 0x86, 0xE8, 0xBF, 0x9E, 0xE6, 0x8E, 0xA5, 0xE5, 0xB7, 0xB2, 0xE5, 0x85, 0xB3,
      0xE9, 0x97, 0xAD, 0xE9, 0x94, 0x99, 0xE8, 0xAF, 0xAF, 0x21]"
| "error_utf8 ProxyConnectionTimeoutError =
     [0xE4, 0xBB, 0xA3, 0xE7, 0x90, 0x86, 0xE8, 0xBF, 0x9E, 0xE6, 0x8E, 0xA5, 0xE8, 0xB6, 0x85, 0xE6, 0x97, 0xB6,
      0xE9, 0x94, 0x99, 0xE8, 0xAF, 0xAF, 0x21]"
| "error_utf8 ProxyNotFoundError =
     [0xE4, 0xBB, 0xA3, 0xE7, 0x90, 0x86, 0xE6, 0x9C, 0xAA, 0xE6, 0x89, 0xBE, 0xE5, 0x88, 0xB0, 0xE9, 0x94, 0x99,
      0xE8, 0xAF, 0xAF, 0x21]"
| "error_utf8 ProxyProtocolError =
     [0xE4, 0xBB, 0xA3, 0xE7, 0x90, 0x86, 0xE5, 0x8D, 0x8F, 0xE8, 0xAE, 0xAE, 0xE9, 0x94, 0x99, 0xE8, 0xAF, 0xAF,
      0x21]"
| "error_utf8 OperationError =
     [0xE6, 0x93, 0x8D, 0xE4, 0xBD, 0x9C, 0xE9, 0x94, 0x99, 0xE8, 0xAF, 0xAF, 0x21]"
| "error_utf8 SslInternalError =
     [0x53, 0x53, 0x4C, 0x20, 0xE5, 0x86, 0x85, 0xE9, 0x83, 0xA8, 0xE9, 0x94, 0x99, 0xE8, 0xAF, 0xAF, 0x21]"
| "error_utf8 SslInvalidUserDataError =
     [0x53, 0x53, 0x4C, 0x20, 0xE6, 0x97, 0xA0, 0xE6, 0x95, 0x88, 0xE7, 0x94, 0xA8, 0xE6, 0x88, 0xB7, 0xE6, 0x95,
      0xB0, 0xE6, 0x8D, 0xAE, 0xE9, 0x94, 0x99, 0xE8, 0xAF, 0xAF, 0x21]"
| "error_utf8 TemporaryError =
     [0xE4, 0xB8, 0xB4, 0xE6, 0x97, 0xB6, 0xE9, 0x94, 0x99, 0xE8, 0xAF, 0xAF, 0x21]"
| "error_utf8 HostNotFoundError =
     [0xE6, 0x9C, 0x8D, 0xE5, 0x8A, 0xA1, 0xE5, 0x99, 0xA8, 0xE6, 0x9C, 0xAA, 0xE6, 0x89, 0xBE, 0xE5, 0x88, 0xB0,
      0x21]"
| "error_utf8 OtherSocketError = []"

text \<open>
  The text that is emitted. The default branch puts a prefix in front of the socket's own text, in a
  variable that is not used.
\<close>

definition error_text :: "SocketError \<Rightarrow> string \<Rightarrow> string" where
  "error_text socketError errorString = (if socketError = OtherSocketError then errorString else bytes (error_utf8 socketError))"

section \<open>The slots\<close>

text \<open>
  The members around the reader: host and port, the calls of \<open>connectToHost\<close>, and the emitted
  \<open>sig_con_success\<close>, oldest first.
\<close>

record TcpClient =
  tcp_host :: string
  tcp_port :: "16 word"
  reader :: TcpMgr
  host_connects :: "(string \<times> 16 word) list"
  con_success :: "(bool \<times> string) list"

definition new_TcpClient :: TcpClient where
  "new_TcpClient = \<lparr>tcp_host = [], tcp_port = 0, reader = TcpMgr_init, host_connects = [], con_success = []\<rparr>"

definition slot_tcp_connect :: "string \<Rightarrow> 16 word \<Rightarrow> TcpClient \<Rightarrow> TcpClient" where
  "slot_tcp_connect host port c = c\<lparr>tcp_host := host, tcp_port := port, host_connects := host_connects c @ [(host, port)]\<rparr>"

datatype socket_event = Connected | ReadyRead string | SocketFailed SocketError string | Disconnected

definition emit_success :: "bool \<Rightarrow> string \<Rightarrow> TcpClient \<Rightarrow> TcpClient" where
  "emit_success ok error_msg c = c\<lparr>con_success := con_success c @ [(ok, error_msg)]\<rparr>"

fun on_socket_event :: "socket_event \<Rightarrow> TcpClient \<Rightarrow> TcpClient" where
  "on_socket_event Connected c = emit_success True [] c"
| "on_socket_event (ReadyRead bs) c = c\<lparr>reader := readyRead bs (reader c)\<rparr>"
| "on_socket_event (SocketFailed socketError errorString) c = emit_success False (error_text socketError errorString) c"
| "on_socket_event Disconnected c = c"

text \<open>
  The window with the manager: \<open>sig_connect_tcp\<close>, whose port is cut to 16 bits, leads to
  \<open>slot_tcp_connect\<close>, and \<open>sig_con_success\<close> to \<open>slot_tcp_con_finish\<close>.
\<close>

definition connect_chat :: "string \<Rightarrow> int \<Rightarrow> TcpClient \<Rightarrow> TcpClient" where
  "connect_chat host port = slot_tcp_connect host (word_of_int port)"

definition window_event :: "login_env \<Rightarrow> socket_event \<Rightarrow> (LoginGUI \<times> TcpClient, unit) prog" where
  "window_event E ev = (\<lambda>(g, c).
     let c' = on_socket_event ev c in
     (case drop (length (con_success c)) (con_success c') of
        [] \<Rightarrow> (Val (), (g, c'))
      | (ok, msg) # _ \<Rightarrow> (case slot_tcp_con_finish E ok msg g of (r, g') \<Rightarrow> (r, (g', c')))))"

section \<open>What the user is told\<close>

definition listed_errors :: "SocketError list" where
  "listed_errors = [ConnectionRefusedError, RemoteHostClosedError, SocketAccessError, SocketResourceError, SocketTimeoutError,
    DatagramTooLargeError, NetworkError, AddressInUseError, SocketAddressNotAvailableError,
    UnsupportedSocketOperationError, UnfinishedSocketOperationError, ProxyAuthenticationRequiredError,
    SslHandshakeFailedError, ProxyConnectionRefusedError, ProxyConnectionClosedError, ProxyConnectionTimeoutError,
    ProxyNotFoundError, ProxyProtocolError, OperationError, SslInternalError, SslInvalidUserDataError, TemporaryError,
    HostNotFoundError]"

lemma listed_errors_all: "e \<noteq> OtherSocketError \<Longrightarrow> e \<in> set listed_errors"
  by (cases e) (simp_all add: listed_errors_def)

lemma error_utf8_distinct: "distinct (map error_utf8 listed_errors)"
  by code_simp

lemma error_utf8_inj: "e \<noteq> OtherSocketError \<Longrightarrow> e' \<noteq> OtherSocketError \<Longrightarrow> error_utf8 e = error_utf8 e' \<Longrightarrow> e = e'"
  using error_utf8_distinct listed_errors_all [of e] listed_errors_all [of e'] by (auto simp: distinct_map inj_on_def)

lemma error_utf8_bytes: "list_all (\<lambda>n. n < 256) (error_utf8 e)"
  by (cases e) simp_all

lemma bytes_inj: "list_all (\<lambda>n. n < 256) ns \<Longrightarrow> list_all (\<lambda>n. n < 256) ms \<Longrightarrow> bytes ns = bytes ms \<Longrightarrow> ns = ms"
proof -
  have "map (of_char :: char \<Rightarrow> nat) (bytes ns) = ns" if "list_all (\<lambda>n. n < 256) ns" for ns
    using that by (induction ns) (simp_all add: bytes_def)
  then show "list_all (\<lambda>n. n < 256) ns \<Longrightarrow> list_all (\<lambda>n. n < 256) ms \<Longrightarrow> bytes ns = bytes ms \<Longrightarrow> ns = ms" by metis
qed

text \<open>Each error that the slot knows is told with a text of its own; the others with the text of the socket.\<close>

theorem error_texts_differ:
  "error_text e s = error_text e' s' \<Longrightarrow> e \<noteq> OtherSocketError \<Longrightarrow> e' \<noteq> OtherSocketError \<Longrightarrow> e = e'"
  "error_text OtherSocketError s = s"
  using error_utf8_inj bytes_inj [OF error_utf8_bytes error_utf8_bytes] by (auto simp: error_text_def)

text \<open>
  A failure is shown on both login pages with its text, nothing is sent, and what the reader holds stays;
  a connection is answered with one login message that carries the uid and the token of the window.
\<close>

theorem connection_told:
  "\<exists>g'. window_event E (SocketFailed e s) (g, c) = (Val (), (g', emit_success False (error_text e s) c)) \<and>
     tip_labels g' err_msg = (Some (ServerText (error_text e s)), False) \<and> tip_labels g' err_msg_3 = (Some (ServerText (error_text e s)), False) \<and>
     tcp_sent g' = tcp_sent g \<and> btn_login_on g' = btn_login_on g"
  "\<exists>g'. window_event E Connected (g, c) = (Val (), (g', emit_success True [] c)) \<and>
     tcp_sent g' = tcp_sent g @ [(1006, q_toJson E (JObj [(''uid'', JInt (login_uid g)), (''token'', JStr (login_token g))]))]"
  by (simp_all add: window_event_def emit_success_def slot_tcp_con_finish_def show_on_def showTip_def prog_defs)

lemma connect_chat_port: "0 \<le> port \<Longrightarrow> port < 65536 \<Longrightarrow> uint (tcp_port (connect_chat host port c)) = port"
  by (simp add: connect_chat_def slot_tcp_connect_def uint_word_of_int take_bit_eq_mod)

section \<open>Connections one after the other\<close>

fun received :: "socket_event list \<Rightarrow> string" where
  "received [] = []"
| "received (ReadyRead bs # evs) = bs @ received evs"
| "received (_ # evs) = received evs"

lemma readyRead_settled: "readyRead [] (readyRead bs r) = readyRead bs r"
  by (simp add: readyRead_append)

lemma reader_after: "readyRead [] (reader c) = reader c \<Longrightarrow> reader (fold on_socket_event evs c) = readyRead (received evs) (reader c)"
proof (induction evs arbitrary: c rule: received.induct)
  case (2 bs evs)
  then show ?case by (simp add: readyRead_settled readyRead_append)
qed (simp_all add: emit_success_def)

text \<open>The events of one connection, from the request of the window on, and of several.\<close>

definition connection :: "string \<times> int \<times> socket_event list \<Rightarrow> TcpClient \<Rightarrow> TcpClient" where
  "connection = (\<lambda>(host, port, evs) c. fold on_socket_event evs (connect_chat host port c))"

lemma reader_connection: "readyRead [] (reader c) = reader c \<Longrightarrow>
    reader (connection (host, port, evs) c) = readyRead (received evs) (reader c)"
  using reader_after [of "connect_chat host port c" evs] by (simp add: connection_def connect_chat_def slot_tcp_connect_def)

lemma reader_connections: "readyRead [] (reader c) = reader c \<Longrightarrow>
    reader (fold connection cs c) = readyRead (concat (map (\<lambda>(host, port, evs). received evs) cs)) (reader c)"
proof (induction cs arbitrary: c)
  case (Cons a cs)
  obtain host port evs where a: "a = (host, port, evs)" by (cases a)
  show ?case
    using Cons.IH [of "connection a c"] Cons.prems reader_connection [of c host port evs] by (simp add: a readyRead_settled readyRead_append)
qed simp

lemma new_reader [simp]: "reader new_TcpClient = TcpMgr_init" "client_ready TcpMgr_init" "readyRead [] TcpMgr_init = TcpMgr_init"
  using to_client.feed_none [of TcpMgr_init] by (simp_all add: new_TcpClient_def client_ready_def TcpMgr_init_def client_feed_def)

text \<open>
  When every connection ended between two frames, the client handles the frames of all connections, in
  their order, whatever errors were reported in between.
\<close>

theorem reconnect_reads_frames:
  assumes "\<forall>m \<in> set (concat mss). length (snd m) \<le> 32763"
    and "map (\<lambda>(host, port, evs). received evs) cs = map (\<lambda>ms. concat (map server_frame ms)) mss"
  shows "client_ready (reader (fold connection cs new_TcpClient)) \<and> client_out (reader (fold connection cs new_TcpClient)) = concat mss"
proof -
  have "concat (map (\<lambda>ms. concat (map server_frame ms)) mss) = concat (map server_frame (concat mss))" by (induction mss) simp_all
  with to_client.feed_frames [of TcpMgr_init "concat mss"] assms(1) show ?thesis
    by (simp add: reader_connections assms(2) client_feed_def list_all_iff) (simp add: client_out_def TcpMgr_init_def)
qed

text \<open>
  A connection that is lost inside a frame spoils the next one: \<open>slot_tcp_connect\<close> keeps the buffer, so the
  lost frame is completed with the first bytes of the new connection, and what follows is read from the
  middle of its stream.
\<close>

theorem lost_frame_completed_by_next:
  assumes ms: "\<forall>m' \<in> set ms. length (snd m') \<le> 32763" and m: "length (snd m) \<le> 32763" and k: "k \<le> length (snd m)"
    and first: "received evs = concat (map server_frame ms) @ take (4 + k) (server_frame m)"
    and second: "length (snd m) - k \<le> length (received evs')"
  shows "\<exists>more. client_out (reader (fold connection [(host, port, evs), (host', port', evs')] new_TcpClient)) =
    ms @ (fst m, take k (snd m) @ take (length (snd m) - k) (received evs')) # more"
proof -
  let ?n = "length (snd m)"
  define m' where "m' = (fst m, take k (snd m) @ take (?n - k) (received evs'))"
  have l: "length (snd m') = ?n" using k second by (simp add: m'_def)
  have head: "take (4 + k) (server_frame m) @ take (?n - k) (received evs') = server_frame m'"
  proof -
    have two: "length (be16 w) = 2" for w by (simp add: be16_def)
    have "take (4 + k) (frame (fst m) (snd m)) = be16 (fst m) @ be16 (word_of_nat ?n) @ take k (snd m)"
      by (simp add: frame_def two)
    moreover have "frame (fst m') (snd m') = be16 (fst m) @ be16 (word_of_nat ?n) @ snd m'"
      unfolding frame_def l by (simp add: m'_def)
    ultimately show ?thesis using m l by (simp add: server_frame_eq) (simp add: m'_def)
  qed
  obtain t where t: "client_feed TcpMgr_init (concat (map server_frame (ms @ [m']))) = Some t" "client_out t = client_out TcpMgr_init @ ms @ [m']"
    using to_client.feed_frames [of TcpMgr_init "ms @ [m']"] ms m l by (auto simp: list_all_iff)
  have "received evs @ received evs' = concat (map server_frame (ms @ [m'])) @ drop (?n - k) (received evs')"
    using head [symmetric] by (simp add: first)
  then have "reader (fold connection [(host, port, evs), (host', port', evs')] new_TcpClient) = readyRead (drop (?n - k) (received evs')) t"
    using t(1) reader_connections [of new_TcpClient "[(host, port, evs), (host', port', evs')]"]
      readyRead_append [of "drop (?n - k) (received evs')" "concat (map server_frame (ms @ [m']))" TcpMgr_init]
    by (simp add: client_feed_def)
  moreover obtain more where "client_out (readyRead (drop (?n - k) (received evs')) t) = client_out t @ more"
    using to_client.feed_mono [of t "drop (?n - k) (received evs')"] by (auto simp: client_feed_def)
  ultimately show ?thesis using t(2) by (auto simp: m'_def client_out_def TcpMgr_init_def)
qed

end
