(* ===== verification/ClientFrame.thy ===== *)
theory ClientFrame
  imports Prelude
begin

text \<open>
  The window frame of the client (\<open>gui/FrameWgt/framewgt.cpp\<close>): which edge the mouse is on, resizing by
  dragging, the radius and the margin of the border, and the hit test of the Windows build. Coordinates
  are those of Qt's events.
\<close>

section \<open>State\<close>

datatype OpFlag = NONE | Top | Bottom | Left | Right | TL | TR | BL | BR

datatype WindowState = WindowNoState | WindowMinimized | WindowMaximized | WindowFullScreen

text \<open>
  The geometry of the window with its limits, the fields \<open>m_opFlag\<close>, \<open>m_isOp\<close>, \<open>m_lastPos\<close>,
  \<open>m_blurRadius\<close> and \<open>m_radius\<close>, the margins of the layout, the radius set on border and title bar.
\<close>

record FrameWgt =
  geo_x :: int
  geo_y :: int
  geo_w :: int
  geo_h :: int
  min_w :: int
  min_h :: int
  max_w :: int
  max_h :: int
  window_state :: WindowState
  op_flag :: OpFlag
  is_op :: bool
  last_pos :: "int \<times> int"
  blur_radius :: int
  frame_radius :: int
  margins :: int
  border_radius :: int

definition isMaximized :: "FrameWgt \<Rightarrow> bool" where
  "isMaximized s \<longleftrightarrow> window_state s = WindowMaximized"

definition isFullScreen :: "FrameWgt \<Rightarrow> bool" where
  "isFullScreen s \<longleftrightarrow> window_state s = WindowFullScreen"

definition updateRadius :: "int \<Rightarrow> FrameWgt \<Rightarrow> FrameWgt" where
  "updateRadius r s = s\<lparr>border_radius := r\<rparr>"

definition setRadius :: "int \<Rightarrow> FrameWgt \<Rightarrow> FrameWgt" where
  "setRadius r s = updateRadius r (s\<lparr>frame_radius := r\<rparr>)"

text \<open>The window before it is shown, with Qt's limits of a size: 0 and 16777215.\<close>

definition new_FrameWgt :: FrameWgt where
  "new_FrameWgt = setRadius 10 \<lparr>geo_x = 0, geo_y = 0, geo_w = 400, geo_h = 300, min_w = 0, min_h = 0, max_w = 16777215, max_h = 16777215,
     window_state = WindowNoState, op_flag = NONE, is_op = True, last_pos = (0, 0), blur_radius = 10, frame_radius = 10, margins = 10,
     border_radius = 0\<rparr>"

section \<open>Operations\<close>

definition layout_margins :: "FrameWgt \<Rightarrow> FrameWgt" where
  "layout_margins s = s\<lparr>margins := (if isMaximized s \<or> isFullScreen s then 0 else blur_radius s)\<rparr>"

definition setBlurRadius :: "int \<Rightarrow> FrameWgt \<Rightarrow> FrameWgt" where
  "setBlurRadius r s = layout_margins (s\<lparr>blur_radius := r\<rparr>)"

text \<open>\<open>setBackgroundColor\<close> and \<open>setHiddenTitleBar\<close> set the radius again; colours are left out.\<close>

definition setBackgroundColor :: "FrameWgt \<Rightarrow> FrameWgt" where
  "setBackgroundColor s = (if isMaximized s \<or> isFullScreen s then updateRadius 0 s else updateRadius (frame_radius s) s)"

definition setHiddenTitleBar :: "FrameWgt \<Rightarrow> FrameWgt" where
  "setHiddenTitleBar s = updateRadius (frame_radius s) s"

text \<open>The first lines of \<open>paintEvent\<close>, which set the margins; the painting is left out.\<close>

definition paint_margins :: "FrameWgt \<Rightarrow> FrameWgt" where
  "paint_margins = layout_margins"

text \<open>The window manager changes the state, then Qt calls \<open>changeEvent\<close> with the old one.\<close>

definition changeEvent :: "WindowState \<Rightarrow> FrameWgt \<Rightarrow> FrameWgt" where
  "changeEvent oldState s =
     (if window_state s = WindowMaximized \<or> window_state s = WindowFullScreen then updateRadius 0 s
      else if window_state s = WindowMinimized then updateRadius (frame_radius s) s
      else if oldState = WindowMaximized \<or> oldState = WindowMinimized \<or> oldState = WindowFullScreen then updateRadius (frame_radius s) s
      else s)"

definition set_state :: "WindowState \<Rightarrow> FrameWgt \<Rightarrow> FrameWgt" where
  "set_state new s = changeEvent (window_state s) (s\<lparr>window_state := new\<rparr>)"

definition calculateOpflag :: "int \<times> int \<Rightarrow> FrameWgt \<Rightarrow> FrameWgt" where
  "calculateOpflag pos s =
     (let (x, y) = pos; blur = blur_radius s; r = frame_radius s in
      s\<lparr>op_flag :=
        (if x < blur then
           (if y < blur + r then TL else if y > geo_h s - blur - r then BL else Left)
         else if x > geo_w s - blur then
           (if y < blur + r then TR else if y > geo_h s - blur - r then BR else Right)
         else
           (if y < blur then Top else if y > geo_h s - blur then Bottom else NONE))\<rparr>)"

text \<open>\<open>QWidget::setGeometry\<close> keeps the size within its limits.\<close>

definition setGeometry :: "int \<Rightarrow> int \<Rightarrow> int \<Rightarrow> int \<Rightarrow> FrameWgt \<Rightarrow> FrameWgt" where
  "setGeometry x y w h s = s\<lparr>geo_x := x, geo_y := y, geo_w := max (min_w s) (min w (max_w s)), geo_h := max (min_h s) (min h (max_h s))\<rparr>"

text \<open>A press outside the border begins a drag; \<open>in_border\<close> is what the border's geometry says.\<close>

definition frame_mousePressEvent :: "bool \<Rightarrow> int \<times> int \<Rightarrow> FrameWgt \<Rightarrow> FrameWgt" where
  "frame_mousePressEvent in_border globalPos s =
     (if in_border then s else if op_flag s \<noteq> NONE then s\<lparr>is_op := True, last_pos := globalPos\<rparr> else s)"

definition frame_mouseReleaseEvent :: "FrameWgt \<Rightarrow> FrameWgt" where
  "frame_mouseReleaseEvent s = s\<lparr>is_op := False\<rparr>"

text \<open>The rectangle that the drag asks for, by edge.\<close>

fun drag_rect :: "OpFlag \<Rightarrow> int \<times> int \<Rightarrow> FrameWgt \<Rightarrow> (int \<times> int \<times> int \<times> int) option" where
  "drag_rect Left (dx, dy) s = Some (geo_x s + dx, geo_y s, geo_w s - dx, geo_h s)"
| "drag_rect Right (dx, dy) s = Some (geo_x s, geo_y s, geo_w s + dx, geo_h s)"
| "drag_rect Top (dx, dy) s = Some (geo_x s, geo_y s + dy, geo_w s, geo_h s - dy)"
| "drag_rect Bottom (dx, dy) s = Some (geo_x s, geo_y s, geo_w s, geo_h s + dy)"
| "drag_rect TR (dx, dy) s = Some (geo_x s, geo_y s + dy, geo_w s + dx, geo_h s - dy)"
| "drag_rect TL (dx, dy) s = Some (geo_x s + dx, geo_y s + dy, geo_w s - dx, geo_h s - dy)"
| "drag_rect BR (dx, dy) s = Some (geo_x s, geo_y s, geo_w s + dx, geo_h s + dy)"
| "drag_rect BL (dx, dy) s = Some (geo_x s + dx, geo_y s, geo_w s - dx, geo_h s + dy)"
| "drag_rect NONE (dx, dy) s = None"

definition moves_left :: "OpFlag \<Rightarrow> bool" where
  "moves_left f \<longleftrightarrow> f \<in> {Left, TL, BL}"

definition moves_right :: "OpFlag \<Rightarrow> bool" where
  "moves_right f \<longleftrightarrow> f \<in> {Right, TR, BR}"

definition moves_top :: "OpFlag \<Rightarrow> bool" where
  "moves_top f \<longleftrightarrow> f \<in> {Top, TL, TR}"

definition moves_bottom :: "OpFlag \<Rightarrow> bool" where
  "moves_bottom f \<longleftrightarrow> f \<in> {Bottom, BL, BR}"

lemmas edge_defs = moves_left_def moves_right_def moves_top_def moves_bottom_def

text \<open>Below the minimum the edge is taken for the last position of the mouse.\<close>

definition hold_pos :: "int \<Rightarrow> int \<Rightarrow> FrameWgt \<Rightarrow> int \<times> int \<Rightarrow> int \<times> int" where
  "hold_pos w h s p =
     (if w < min_w s \<and> moves_left (op_flag s) then geo_x s else if w < min_w s \<and> moves_right (op_flag s) then geo_x s + geo_w s else fst p,
      if h < min_h s \<and> moves_top (op_flag s) then geo_y s else if h < min_h s \<and> moves_bottom (op_flag s) then geo_y s + geo_h s else snd p)"

definition frame_mouseMoveEvent :: "int \<times> int \<Rightarrow> int \<times> int \<Rightarrow> FrameWgt \<Rightarrow> FrameWgt" where
  "frame_mouseMoveEvent pos currPos s0 =
     (let s = (if is_op s0 then s0 else calculateOpflag pos s0);
          ptemp = (fst currPos - fst (last_pos s), snd currPos - snd (last_pos s));
          s = s\<lparr>last_pos := currPos\<rparr> in
      if \<not> is_op s \<or> isMaximized s then s
      else
        case drag_rect (op_flag s) ptemp s of
          None \<Rightarrow> s
        | Some (x, y, w, h) \<Rightarrow>
            let s = s\<lparr>last_pos := hold_pos w h s (last_pos s)\<rparr>;
                (x, w) = (if w < min_w s then (geo_x s, geo_w s) else (x, w));
                (y, h) = (if h < min_h s then (geo_y s, geo_h s) else (y, h)) in
            setGeometry x y w h s)"

section \<open>The hit test of the Windows build\<close>

datatype hit_result = HTCLIENT | HTLEFT | HTRIGHT | HTTOP | HTBOTTOM | HTTOPLEFT | HTTOPRIGHT | HTBOTTOMLEFT | HTBOTTOMRIGHT

text \<open>
  A rectangle by its left, top, right and bottom side, the right and bottom ones outside; later
  assignments to \<open>result\<close> win.
\<close>

definition hit_test :: "int \<times> int \<times> int \<times> int \<Rightarrow> int \<times> int \<Rightarrow> FrameWgt \<Rightarrow> hit_result" where
  "hit_test winrect p s =
     (let (l, t, r, b) = winrect; (x, y) = p; border_width = 8;
          at_left = (x \<ge> l \<and> x < l + border_width); at_right = (x < r \<and> x \<ge> r - border_width);
          at_bottom = (y < b \<and> y \<ge> b - border_width); at_top = (y \<ge> t \<and> y < t + border_width);
          resizeWidth = (min_w s \<noteq> max_w s); resizeHeight = (min_h s \<noteq> max_h s) in
      if isMaximized s \<or> isFullScreen s then HTCLIENT
      else
        let result = HTCLIENT;
            result = (if resizeWidth \<and> at_left then HTLEFT else result);
            result = (if resizeWidth \<and> at_right then HTRIGHT else result);
            result = (if resizeHeight \<and> at_bottom then HTBOTTOM else result);
            result = (if resizeHeight \<and> at_top then HTTOP else result);
            result = (if resizeWidth \<and> resizeHeight \<and> at_left \<and> at_bottom then HTBOTTOMLEFT else result);
            result = (if resizeWidth \<and> resizeHeight \<and> at_right \<and> at_bottom then HTBOTTOMRIGHT else result);
            result = (if resizeWidth \<and> resizeHeight \<and> at_left \<and> at_top then HTTOPLEFT else result) in
        if resizeWidth \<and> resizeHeight \<and> at_right \<and> at_top then HTTOPRIGHT else result)"

section \<open>Dragging\<close>

text \<open>The size is within its limits.\<close>

definition frame_sized :: "FrameWgt \<Rightarrow> bool" where
  "frame_sized s \<longleftrightarrow> min_w s \<le> geo_w s \<and> geo_w s \<le> max_w s \<and> min_h s \<le> geo_h s \<and> geo_h s \<le> max_h s"

text \<open>The rectangle asked for is one the window may have.\<close>

definition rect_allowed :: "FrameWgt \<Rightarrow> int \<times> int \<times> int \<times> int \<Rightarrow> bool" where
  "rect_allowed s = (\<lambda>(x, y, w, h). min_w s \<le> w \<and> w \<le> max_w s \<and> min_h s \<le> h \<and> h \<le> max_h s)"

definition dragging :: "FrameWgt \<Rightarrow> bool" where
  "dragging s \<longleftrightarrow> is_op s \<and> \<not> isMaximized s \<and> op_flag s \<noteq> NONE"

abbreviation frame_rect :: "FrameWgt \<Rightarrow> int \<times> int \<times> int \<times> int" where
  "frame_rect s \<equiv> (geo_x s, geo_y s, geo_w s, geo_h s)"

definition offset_from :: "int \<times> int \<Rightarrow> FrameWgt \<Rightarrow> int \<times> int" where
  "offset_from p s = (fst p - fst (last_pos s), snd p - snd (last_pos s))"

lemma drag_rect_Some: "f \<noteq> NONE \<Longrightarrow> \<exists>x y w h. drag_rect f d s = Some (x, y, w, h)"
  by (cases f; cases d) auto

lemma move_run:
  assumes "dragging s" "drag_rect (op_flag s) (offset_from p s) s = Some (x, y, w, h)"
  shows "frame_mouseMoveEvent pos p s =
    setGeometry (if w < min_w s then geo_x s else x) (if h < min_h s then geo_y s else y) (if w < min_w s then geo_w s else w)
      (if h < min_h s then geo_h s else h) (s\<lparr>last_pos := hold_pos w h s p\<rparr>)"
proof -
  have "drag_rect f d (s\<lparr>last_pos := q\<rparr>) = drag_rect f d s" for f d q by (cases f; cases d) simp_all
  then show ?thesis
    using assms by (simp add: frame_mouseMoveEvent_def dragging_def isMaximized_def offset_from_def hold_pos_def Let_def)
qed

text \<open>A move within the limits does what the drag asks for and remembers the position.\<close>

lemma move_allowed:
  assumes "dragging s" "drag_rect (op_flag s) (offset_from p s) s = Some r" "rect_allowed s r"
  shows "frame_rect (frame_mouseMoveEvent pos p s) = r" "last_pos (frame_mouseMoveEvent pos p s) = p"
    "frame_mouseMoveEvent pos p s = s\<lparr>geo_x := fst r, geo_y := fst (snd r), geo_w := fst (snd (snd r)), geo_h := snd (snd (snd r)), last_pos := p\<rparr>"
proof -
  obtain x y w h where r: "r = (x, y, w, h)" by (cases r)
  show a: "frame_mouseMoveEvent pos p s = s\<lparr>geo_x := fst r, geo_y := fst (snd r), geo_w := fst (snd (snd r)), geo_h := snd (snd (snd r)), last_pos := p\<rparr>"
    using assms(3) move_run [OF assms(1) assms(2) [unfolded r]] by (auto simp: r rect_allowed_def hold_pos_def setGeometry_def)
  show "frame_rect (frame_mouseMoveEvent pos p s) = r" "last_pos (frame_mouseMoveEvent pos p s) = p" by (simp_all add: a r)
qed

lemma drag_rect_twice:
  assumes "drag_rect f d s = Some (x, y, w, h)"
  shows "drag_rect f e (s\<lparr>geo_x := x, geo_y := y, geo_w := w, geo_h := h, last_pos := p\<rparr>) = drag_rect f (fst d + fst e, snd d + snd e) s"
  using assms by (cases f; cases d; cases e) auto

text \<open>
  C37. A drag in many small steps is one drag: as long as every position of the mouse asks for a size
  within the limits, the window has after each move the rectangle that a single move from the first to
  the last position gives, so that the edge stays under the mouse.
\<close>

theorem drag_in_steps:
  assumes "dragging s" "\<forall>p \<in> set (q # ps). \<exists>r. drag_rect (op_flag s) (offset_from p s) s = Some r \<and> rect_allowed s r"
  shows "fold (frame_mouseMoveEvent pos) (ps @ [q]) s = frame_mouseMoveEvent pos q s"
  using assms
proof (induction ps arbitrary: s)
  case (Cons p ps)
  obtain x y w h where r: "drag_rect (op_flag s) (offset_from p s) s = Some (x, y, w, h)" "rect_allowed s (x, y, w, h)"
    using Cons.prems(2) by auto
  let ?t = "s\<lparr>geo_x := x, geo_y := y, geo_w := w, geo_h := h, last_pos := p\<rparr>"
  have t: "frame_mouseMoveEvent pos p s = ?t" using move_allowed(3) [OF Cons.prems(1) r] by simp
  have d: "dragging ?t" using Cons.prems(1) by (simp add: dragging_def isMaximized_def)
  have same: "drag_rect (op_flag s) (offset_from u ?t) ?t = drag_rect (op_flag s) (offset_from u s) s" for u
    using drag_rect_twice [OF r(1), of "offset_from u ?t" p] by (simp add: offset_from_def)
  have ok: "rect_allowed ?t r' = rect_allowed s r'" for r' by (simp add: rect_allowed_def split: prod.splits)
  have "fold (frame_mouseMoveEvent pos) (ps @ [q]) ?t = frame_mouseMoveEvent pos q ?t"
    using Cons.prems(2) by (intro Cons.IH d) (simp add: same ok)
  also have "\<dots> = frame_mouseMoveEvent pos q s"
  proof -
    obtain r' where r': "drag_rect (op_flag s) (offset_from q s) s = Some r'" "rect_allowed s r'" using Cons.prems(2) by auto
    show ?thesis using move_allowed(3) [OF Cons.prems(1) r'] move_allowed(3) [OF d, of q r'] r' same ok by simp
  qed
  finally show ?case by (simp add: t)
qed simp

definition drag_demo :: FrameWgt where
  "drag_demo = frame_mousePressEvent False (0, 150) (calculateOpflag (0, 150) (frame_mouseReleaseEvent new_FrameWgt))"

lemma drag_demo_state: "drag_demo = new_FrameWgt\<lparr>is_op := True, op_flag := Left, last_pos := (0, 150)\<rparr>"
  by (simp add: drag_demo_def new_FrameWgt_def setRadius_def updateRadius_def frame_mousePressEvent_def calculateOpflag_def
      frame_mouseReleaseEvent_def)

theorem drag_in_steps_witness:
  "fold (frame_mouseMoveEvent (0, 0)) [(3, 150), (- 20, 149), (7, 151)] drag_demo = frame_mouseMoveEvent (0, 0) (7, 151) drag_demo \<and>
   frame_rect (frame_mouseMoveEvent (0, 0) (7, 151) drag_demo) = (7, 0, 393, 300)"
proof
  note f = drag_demo_state new_FrameWgt_def setRadius_def updateRadius_def
  have d: "dragging drag_demo" by (simp add: dragging_def f isMaximized_def)
  have r: "\<forall>p \<in> set ((7, 151) # [(3, 150), (- 20, 149)]). \<exists>r. drag_rect (op_flag drag_demo) (offset_from p drag_demo) drag_demo = Some r \<and> rect_allowed drag_demo r"
    by (simp add: f offset_from_def rect_allowed_def)
  show "fold (frame_mouseMoveEvent (0, 0)) [(3, 150), (- 20, 149), (7, 151)] drag_demo = frame_mouseMoveEvent (0, 0) (7, 151) drag_demo"
    using drag_in_steps [OF d r, of "(0, 0)"] by simp
  show "frame_rect (frame_mouseMoveEvent (0, 0) (7, 151) drag_demo) = (7, 0, 393, 300)"
    using move_allowed(1) [OF d, of "(7, 151)"] by (simp add: f offset_from_def rect_allowed_def)
qed

section \<open>Limits and opposite edges\<close>

text \<open>
  Whatever the mouse does during a drag, the size stays within its limits, and the edges that are not
  dragged stay where they are: the left edge unless the left side is dragged, the right one unless the
  right side is, provided that the width asked for is not above the maximum, which the code does not check;
  likewise for top and bottom.
\<close>

theorem drag_keeps_opposite_edges:
  assumes "dragging s" "frame_sized s" "t = frame_mouseMoveEvent pos p s" "f = op_flag s" "(dx, dy) = offset_from p s"
  shows "frame_sized t \<and> dragging t \<and> op_flag t = f \<and> (\<not> moves_left f \<longrightarrow> geo_x t = geo_x s) \<and> (\<not> moves_top f \<longrightarrow> geo_y t = geo_y s) \<and>
    (\<not> moves_right f \<and> (moves_left f \<longrightarrow> geo_w s - dx \<le> max_w s) \<longrightarrow> geo_x t + geo_w t = geo_x s + geo_w s) \<and>
    (\<not> moves_bottom f \<and> (moves_top f \<longrightarrow> geo_h s - dy \<le> max_h s) \<longrightarrow> geo_y t + geo_h t = geo_y s + geo_h s)"
proof -
  have f: "f \<noteq> NONE" using assms(1,4) by (simp add: dragging_def)
  obtain x y w h where r: "drag_rect f (dx, dy) s = Some (x, y, w, h)" using drag_rect_Some [OF f] by blast
  have r': "drag_rect (op_flag s) (offset_from p s) s = Some (x, y, w, h)" using r by (simp add: assms(4,5))
  have t: "t = setGeometry (if w < min_w s then geo_x s else x) (if h < min_h s then geo_y s else y) (if w < min_w s then geo_w s else w)
      (if h < min_h s then geo_h s else h) (s\<lparr>last_pos := hold_pos w h s p\<rparr>)"
    unfolding assms(3) by (rule move_run [OF assms(1) r'])
  have "frame_sized t" "dragging t" "op_flag t = f"
    using assms(1,2,4) unfolding t by (auto simp: setGeometry_def frame_sized_def dragging_def isMaximized_def)
  moreover have "(\<not> moves_left f \<longrightarrow> x = geo_x s) \<and> (\<not> moves_top f \<longrightarrow> y = geo_y s) \<and>
      (\<not> moves_right f \<longrightarrow> x + w = geo_x s + geo_w s \<and> (moves_left f \<longrightarrow> w = geo_w s - dx) \<and> (\<not> moves_left f \<longrightarrow> w = geo_w s)) \<and>
      (\<not> moves_bottom f \<longrightarrow> y + h = geo_y s + geo_h s \<and> (moves_top f \<longrightarrow> h = geo_h s - dy) \<and> (\<not> moves_top f \<longrightarrow> h = geo_h s))"
    using r by (cases f) (auto simp: edge_defs)
  ultimately show ?thesis
    using assms(2) unfolding t by (auto simp: setGeometry_def frame_sized_def)
qed

theorem drag_keeps_opposite_edges_witness:
  "frame_sized (frame_mouseMoveEvent (0, 0) (500, 150) drag_demo) \<and>
   geo_x (frame_mouseMoveEvent (0, 0) (500, 150) drag_demo) + geo_w (frame_mouseMoveEvent (0, 0) (500, 150) drag_demo) = 400"
proof -
  note f = drag_demo_state new_FrameWgt_def setRadius_def updateRadius_def
  have d: "dragging drag_demo" "frame_sized drag_demo" by (simp_all add: dragging_def f isMaximized_def frame_sized_def)
  have o: "(500, 0) = offset_from (500, 150) drag_demo" by (simp add: f offset_from_def)
  from drag_keeps_opposite_edges [OF d refl refl o, of "(0, 0)"] show ?thesis by (simp add: f edge_defs)
qed

text \<open>Hit test and edge: with resizing allowed, the corners win over the edges.\<close>

lemma hit_test_corners:
  assumes "\<not> isMaximized s" "\<not> isFullScreen s" "min_w s \<noteq> max_w s" "min_h s \<noteq> max_h s" "l + 16 \<le> r" "t + 16 \<le> b" "l \<le> x" "x < r" "t \<le> y" "y < b"
  shows "hit_test (l, t, r, b) (x, y) s =
    (if x < l + 8 then (if y < t + 8 then HTTOPLEFT else if y \<ge> b - 8 then HTBOTTOMLEFT else HTLEFT)
     else if x \<ge> r - 8 then (if y < t + 8 then HTTOPRIGHT else if y \<ge> b - 8 then HTBOTTOMRIGHT else HTRIGHT)
     else if y < t + 8 then HTTOP else if y \<ge> b - 8 then HTBOTTOM else HTCLIENT)"
  using assms unfolding hit_test_def Let_def by auto

text \<open>The corners of the frame are square while the window is maximised, after a change of its state.\<close>

lemma set_state_radius:
  "border_radius (set_state new s) = (if new = WindowMaximized \<or> new = WindowFullScreen then 0
     else if new = WindowMinimized \<or> window_state s \<noteq> WindowNoState then frame_radius s else border_radius s)"
  by (cases "window_state s") (auto simp: set_state_def changeEvent_def updateRadius_def)

section \<open>The title bar\<close>

text \<open>\<open>gui/FrameWgt/TitleBar/titlebar.cpp\<close>: moving the window and its buttons. Colours and icons are left out.\<close>

record TitleBar =
  tb_pressed :: bool
  tb_moveEnable :: bool
  tb_mousePos :: "int \<times> int"
  tb_max_visible :: bool

definition new_TitleBar :: TitleBar where
  "new_TitleBar = \<lparr>tb_pressed = False, tb_moveEnable = True, tb_mousePos = (0, 0), tb_max_visible = True\<rparr>"

definition setMoveEnable :: "bool \<Rightarrow> TitleBar \<Rightarrow> TitleBar" where
  "setMoveEnable moveEnable b = b\<lparr>tb_moveEnable := moveEnable\<rparr>"

definition setHiddenMax :: "bool \<Rightarrow> TitleBar \<Rightarrow> TitleBar" where
  "setHiddenMax is_hidden b = b\<lparr>tb_max_visible := \<not> is_hidden\<rparr>"

definition title_mousePressEvent :: "int \<times> int \<Rightarrow> TitleBar \<Rightarrow> TitleBar" where
  "title_mousePressEvent globalPos b = b\<lparr>tb_pressed := True, tb_mousePos := globalPos\<rparr>"

definition title_mouseMoveEvent :: "int \<times> int \<Rightarrow> TitleBar \<times> FrameWgt \<Rightarrow> TitleBar \<times> FrameWgt" where
  "title_mouseMoveEvent globalPos = (\<lambda>(b, s).
     if \<not> tb_moveEnable b then (b, s)
     else if tb_pressed b \<and> \<not> isMaximized s \<and> \<not> isFullScreen s then
       (b\<lparr>tb_mousePos := globalPos\<rparr>,
        s\<lparr>geo_x := geo_x s + (fst globalPos - fst (tb_mousePos b)), geo_y := geo_y s + (snd globalPos - snd (tb_mousePos b))\<rparr>)
     else (b, s))"

definition title_mouseReleaseEvent :: "TitleBar \<Rightarrow> TitleBar" where
  "title_mouseReleaseEvent b = b\<lparr>tb_pressed := False\<rparr>"

text \<open>The button tells with \<open>maxChange\<close> what it did.\<close>

definition onMax :: "FrameWgt \<Rightarrow> bool \<times> FrameWgt" where
  "onMax s = (if isMaximized s then (False, set_state WindowNoState s) else (True, set_state WindowMaximized s))"

definition onMin :: "FrameWgt \<Rightarrow> FrameWgt" where
  "onMin s = set_state WindowMinimized s"

definition showFull :: "bool \<Rightarrow> FrameWgt \<Rightarrow> FrameWgt" where
  "showFull isFull s = set_state (if isFull then WindowFullScreen else WindowMaximized) s"

definition title_mouseDoubleClickEvent :: "bool \<Rightarrow> TitleBar \<times> FrameWgt \<Rightarrow> TitleBar \<times> FrameWgt" where
  "title_mouseDoubleClickEvent left_button = (\<lambda>(b, s). if \<not> tb_max_visible b \<or> \<not> left_button then (b, s) else (b, snd (onMax s)))"

text \<open>
  While the title is held, the window follows the mouse: after any movements its offset is that of the mouse, and its
  size is the old one.
\<close>

lemma title_drag_follows:
  assumes "tb_pressed b" "tb_moveEnable b" "\<not> isMaximized s" "\<not> isFullScreen s" "ps \<noteq> []"
    and "fold title_mouseMoveEvent ps (b, s) = (c, t)"
  shows "geo_x t = geo_x s + (fst (last ps) - fst (tb_mousePos b)) \<and> geo_y t = geo_y s + (snd (last ps) - snd (tb_mousePos b)) \<and>
    geo_w t = geo_w s \<and> geo_h t = geo_h s"
  using assms
proof (induction ps arbitrary: b s)
  case (Cons p ps)
  show ?case
  proof (cases "ps = []")
    case True
    then show ?thesis using Cons.prems by (auto simp: title_mouseMoveEvent_def)
  next
    case False
    let ?b = "b\<lparr>tb_mousePos := p\<rparr>"
    let ?s = "s\<lparr>geo_x := geo_x s + (fst p - fst (tb_mousePos b)), geo_y := geo_y s + (snd p - snd (tb_mousePos b))\<rparr>"
    have step: "title_mouseMoveEvent p (b, s) = (?b, ?s)" using Cons.prems by (simp add: title_mouseMoveEvent_def)
    then have "fold title_mouseMoveEvent ps (?b, ?s) = (c, t)" using Cons.prems(6) by simp
    with Cons.IH [of ?b ?s] Cons.prems False show ?thesis by (simp add: isMaximized_def isFullScreen_def)
  qed
qed simp

text \<open>Maximising a normal window with rounded corners and back restores it, and the corners are square in between.\<close>

lemma maximise_and_back:
  assumes "window_state s = WindowNoState" "border_radius s = frame_radius s" "onMax s = (b, t)" "onMax t = (c, u)"
  shows "b \<and> \<not> c \<and> border_radius t = 0 \<and> u = s"
  using assms by (auto simp: onMax_def isMaximized_def set_state_def changeEvent_def updateRadius_def)

end
