(* ===== verification/ClientDesk.thy ===== *)
theory ClientDesk
  imports ClientFrame ClientUserMgr "HOL-Library.Signed_Division"
begin

text \<open>
  Windows of the client on the desktop: dragging them by the mouse (\<open>utils/base_dialog.cpp\<close>,
  \<open>utils/frameless_wid_drag_mgr.cpp\<close>, and the title bar of theory \<open>ClientFrame\<close>), where the main window is put at
  the start (\<open>app/main.cpp\<close>), and the dialog with the own data (\<open>gui/self_info_dialog.cpp\<close>).
\<close>

section \<open>The contract of dragging\<close>

definition minus_pos :: "int \<times> int \<Rightarrow> int \<times> int \<Rightarrow> int \<times> int" where
  "minus_pos p q = (fst p - fst q, snd p - snd q)"

definition plus_pos :: "int \<times> int \<Rightarrow> int \<times> int \<Rightarrow> int \<times> int" where
  "plus_pos p q = (fst p + fst q, snd p + snd q)"

lemma pos_simps [simp]: "plus_pos p (minus_pos q q) = p" "minus_pos p (minus_pos q r) = plus_pos r (minus_pos p q)"
  by (simp_all add: plus_pos_def minus_pos_def prod_eq_iff)

text \<open>
  A window that the mouse can drag: \<open>held\<close> is the point of the window, relative to its corner, that a
  pressed button holds. Pressing takes the point under the mouse, moving puts that point under the
  mouse again, releasing lets it go; without a held point the window stays.
\<close>

locale dragged_window =
  fixes press :: "int \<times> int \<Rightarrow> 's \<Rightarrow> 's" and move_to :: "int \<times> int \<Rightarrow> 's \<Rightarrow> 's" and release :: "'s \<Rightarrow> 's"
    and top_left :: "'s \<Rightarrow> int \<times> int" and held :: "'s \<Rightarrow> (int \<times> int) option" and movable :: "'s \<Rightarrow> bool"
  assumes press: "movable s \<Longrightarrow> movable (press p s) \<and> held (press p s) = Some (minus_pos p (top_left s)) \<and> top_left (press p s) = top_left s"
    and move_held: "movable s \<Longrightarrow> held s = Some d \<Longrightarrow>
      movable (move_to p s) \<and> held (move_to p s) = Some d \<and> top_left (move_to p s) = minus_pos p d"
    and move_free: "movable s \<Longrightarrow> held s = None \<Longrightarrow> movable (move_to p s) \<and> held (move_to p s) = None \<and> top_left (move_to p s) = top_left s"
    and release: "movable s \<Longrightarrow> movable (release s) \<and> held (release s) = None \<and> top_left (release s) = top_left s"
begin

lemma moves_held:
  "movable s \<Longrightarrow> held s = Some d \<Longrightarrow> movable (fold move_to ps s) \<and> held (fold move_to ps s) = Some d \<and>
     top_left (fold move_to ps s) = (if ps = [] then top_left s else minus_pos (last ps) d)"
  by (induction ps arbitrary: s) (auto simp: move_held)

lemma moves_free:
  "movable s \<Longrightarrow> held s = None \<Longrightarrow> movable (fold move_to ps s) \<and> held (fold move_to ps s) = None \<and> top_left (fold move_to ps s) = top_left s"
  by (induction ps arbitrary: s) (auto simp: move_free)

text \<open>A drag moves the window as far as the mouse, and movements after it do not move the window.\<close>

lemma drag:
  assumes "movable s"
  shows "top_left (fold move_to qs (release (fold move_to ps (press p s)))) = plus_pos (top_left s) (minus_pos (last (p # ps)) p)"
proof -
  let ?t = "fold move_to ps (press p s)"
  have t: "movable ?t" "top_left ?t = plus_pos (top_left s) (minus_pos (last (p # ps)) p)"
    using moves_held [of "press p s" _ ps] press [OF assms, of p] by (auto simp: plus_pos_def minus_pos_def prod_eq_iff)
  then show ?thesis using moves_free [of "release ?t" qs] release [OF t(1)] by simp
qed

end

section \<open>BaseDialog\<close>

record BaseDialog =
  isPressed :: bool
  dragPosition :: "int \<times> int"
  dialog_pos :: "int \<times> int"

definition BaseDialog_mousePress :: "bool \<Rightarrow> int \<times> int \<Rightarrow> BaseDialog \<Rightarrow> BaseDialog" where
  "BaseDialog_mousePress left_button globalPos w =
     (if left_button then w\<lparr>isPressed := True, dragPosition := minus_pos globalPos (dialog_pos w)\<rparr> else w)"

definition BaseDialog_mouseMove :: "int \<times> int \<Rightarrow> BaseDialog \<Rightarrow> BaseDialog" where
  "BaseDialog_mouseMove globalPos w = (if isPressed w then w\<lparr>dialog_pos := minus_pos globalPos (dragPosition w)\<rparr> else w)"

definition BaseDialog_mouseRelease :: "BaseDialog \<Rightarrow> BaseDialog" where
  "BaseDialog_mouseRelease w = w\<lparr>isPressed := False\<rparr>"

interpretation base_dialog: dragged_window "BaseDialog_mousePress True" BaseDialog_mouseMove BaseDialog_mouseRelease dialog_pos
  "\<lambda>w. if isPressed w then Some (dragPosition w) else None" "\<lambda>_. True"
  by unfold_locales (auto simp: BaseDialog_mousePress_def BaseDialog_mouseMove_def BaseDialog_mouseRelease_def split: if_splits)

section \<open>FramelessWidDragMgr\<close>

text \<open>
  The manager keeps its tables by window; \<open>operator[]\<close> on a missing entry makes the default one. The
  positions of the windows are those of Qt.
\<close>

record 'w FramelessWidDragMgr =
  dragStates :: "'w \<rightharpoonup> bool"
  dragStartPositions :: "'w \<rightharpoonup> int \<times> int"
  window_pos :: "'w \<Rightarrow> int \<times> int"

definition registerWindow :: "'w option \<Rightarrow> 'w FramelessWidDragMgr \<Rightarrow> 'w FramelessWidDragMgr" where
  "registerWindow window d = (case window of None \<Rightarrow> d | Some w \<Rightarrow> d\<lparr>dragStates := (dragStates d)(w \<mapsto> False)\<rparr>)"

definition start_position :: "'w \<Rightarrow> 'w FramelessWidDragMgr \<Rightarrow> int \<times> int" where
  "start_position w d = (case dragStartPositions d w of Some p \<Rightarrow> p | None \<Rightarrow> (0, 0))"

datatype drag_event = DragPress bool "int \<times> int" | DragMove bool "int \<times> int" | DragRelease bool | DragOther

fun drag_eventFilter :: "'w \<Rightarrow> drag_event \<Rightarrow> 'w FramelessWidDragMgr \<Rightarrow> 'w FramelessWidDragMgr" where
  "drag_eventFilter w (DragPress left globalPos) d =
     (if dragStates d w \<noteq> None \<and> left
      then d\<lparr>dragStates := (dragStates d)(w \<mapsto> True),
             dragStartPositions := (dragStartPositions d)(w \<mapsto> minus_pos globalPos (window_pos d w))\<rparr>
      else d)"
| "drag_eventFilter w (DragMove left_held globalPos) d =
     (if dragStates d w = Some True \<and> left_held
      then d\<lparr>dragStartPositions := (dragStartPositions d)(w \<mapsto> start_position w d),
             window_pos := (window_pos d)(w := minus_pos globalPos (start_position w d))\<rparr>
      else d)"
| "drag_eventFilter w (DragRelease left) d =
     (if dragStates d w \<noteq> None \<and> left then d\<lparr>dragStates := (dragStates d)(w \<mapsto> False)\<rparr> else d)"
| "drag_eventFilter w DragOther d = d"

lemma frameless_dragged:
  "dragged_window (\<lambda>p. drag_eventFilter w (DragPress True p)) (\<lambda>p. drag_eventFilter w (DragMove True p)) (drag_eventFilter w (DragRelease True))
     (\<lambda>d. window_pos d w) (\<lambda>d. if dragStates d w = Some True then Some (start_position w d) else None) (\<lambda>d. dragStates d w \<noteq> None)"
  by unfold_locales (auto simp: start_position_def split: if_splits)

interpretation frameless: dragged_window "\<lambda>p. drag_eventFilter w (DragPress True p)" "\<lambda>p. drag_eventFilter w (DragMove True p)"
  "drag_eventFilter w (DragRelease True)" "\<lambda>d. window_pos d w" "\<lambda>d. if dragStates d w = Some True then Some (start_position w d) else None"
  "\<lambda>d. dragStates d w \<noteq> None" for w
  by (rule frameless_dragged)

lemma drag_other_window: "v \<noteq> w \<Longrightarrow> window_pos (drag_eventFilter w e d) v = window_pos d v \<and> dragStates (drag_eventFilter w e d) v = dragStates d v"
  by (cases e) auto

section \<open>The title bar\<close>

text \<open>
  The title bar keeps the last position of the mouse instead of the held point; the held point is the
  difference to the corner of the window, and it meets the same contract while the window is neither
  maximised nor full screen.
\<close>

interpretation title: dragged_window "\<lambda>p (b, s). (title_mousePressEvent p b, s)" title_mouseMoveEvent "\<lambda>(b, s). (title_mouseReleaseEvent b, s)"
  "\<lambda>(b, s). (geo_x s, geo_y s)" "\<lambda>(b, s). if tb_pressed b then Some (minus_pos (tb_mousePos b) (geo_x s, geo_y s)) else None"
  "\<lambda>(b, s). tb_moveEnable b \<and> \<not> isMaximized s \<and> \<not> isFullScreen s"
  by unfold_locales
    (auto simp: title_mousePressEvent_def title_mouseMoveEvent_def title_mouseReleaseEvent_def minus_pos_def plus_pos_def isMaximized_def
      isFullScreen_def split: if_splits)

text \<open>
  The three ways of dragging a window agree: from the same place, the same movements of the mouse bring
  it to the same place.
\<close>

theorem drags_agree:
  assumes "dialog_pos w = pos" "dragStates d v \<noteq> None" "window_pos d v = pos"
    and "tb_moveEnable b" "\<not> isMaximized s" "\<not> isFullScreen s" "(geo_x s, geo_y s) = pos"
  shows "dialog_pos (BaseDialog_mouseRelease (fold BaseDialog_mouseMove ps (BaseDialog_mousePress True p w))) = plus_pos pos (minus_pos (last (p # ps)) p) \<and>
    window_pos (drag_eventFilter v (DragRelease True) (fold (\<lambda>q. drag_eventFilter v (DragMove True q)) ps (drag_eventFilter v (DragPress True p) d))) v =
      plus_pos pos (minus_pos (last (p # ps)) p) \<and>
    (case fold title_mouseMoveEvent ps (title_mousePressEvent p b, s) of (b', s') \<Rightarrow> (geo_x s', geo_y s')) = plus_pos pos (minus_pos (last (p # ps)) p)"
proof (intro conjI)
  show "dialog_pos (BaseDialog_mouseRelease (fold BaseDialog_mouseMove ps (BaseDialog_mousePress True p w))) = plus_pos pos (minus_pos (last (p # ps)) p)"
    using base_dialog.drag [where s = w and qs = "[]" and ps = ps and p = p] assms(1) by simp
  show "window_pos (drag_eventFilter v (DragRelease True) (fold (\<lambda>q. drag_eventFilter v (DragMove True q)) ps (drag_eventFilter v (DragPress True p) d))) v =
      plus_pos pos (minus_pos (last (p # ps)) p)"
    using frameless.drag [where w = v and s = d and qs = "[]" and ps = ps and p = p] assms(2,3) by simp
  show "(case fold title_mouseMoveEvent ps (title_mousePressEvent p b, s) of (b', s') \<Rightarrow> (geo_x s', geo_y s')) = plus_pos pos (minus_pos (last (p # ps)) p)"
    using title.drag [where s = "(b, s)" and qs = "[]" and ps = ps and p = p] assms(4-7) by (simp add: case_prod_unfold)
qed

section \<open>The start of the client\<close>

text \<open>
  \<open>main\<close>: \<open>settings\<close> are the values of \<open>config.ini\<close>, missing ones read as the empty text; \<open>accepted\<close> is the
  result of the login window, \<open>screen\<close> the geometry of the screen under the mouse. The result is the exit
  code of an early return, or the geometry of the main window.
\<close>

record client_globals =
  gate_url_prefix :: string
  global_emoji_name :: string

definition settings_text :: "(string \<rightharpoonup> string) \<Rightarrow> string \<Rightarrow> string" where
  "settings_text settings key = (case settings key of Some v \<Rightarrow> v | None \<Rightarrow> [])"

definition client_globals_of :: "(string \<rightharpoonup> string) \<Rightarrow> client_globals" where
  "client_globals_of settings =
     \<lparr>gate_url_prefix = ''http://'' @ settings_text settings ''GateServer/host'' @ '':'' @ settings_text settings ''GateServer/port'',
      global_emoji_name = settings_text settings ''EmojiName/name''\<rparr>"

definition client_main :: "(string \<rightharpoonup> string) \<Rightarrow> bool \<Rightarrow> (int \<times> int \<times> int \<times> int) option \<Rightarrow> client_globals \<times> (int + int \<times> int \<times> int \<times> int)" where
  "client_main settings accepted screen =
     (client_globals_of settings,
      if \<not> accepted then Inl (- 1)
      else case screen of
        None \<Rightarrow> Inl (- 1)
      | Some (sx, sy, screenWidth, screenHeight) \<Rightarrow>
          Inr (sx + (screenWidth - 1200) sdiv 2, sy + (screenHeight - 800) sdiv 2, 1200, 800))"

lemma half_centred: "(0::int) \<le> a \<Longrightarrow> 0 \<le> a sdiv 2 \<and> a sdiv 2 \<le> a \<and> \<bar>a sdiv 2 - (a - a sdiv 2)\<bar> \<le> 1"
  by (auto simp: signed_divide_int_def sgn_if)

text \<open>
  After a login the main window is in the middle of the screen, up to one pixel, and inside it, when the
  screen has room for it.
\<close>

theorem main_window_centred:
  assumes "1200 \<le> sw" "800 \<le> sh"
  shows "\<exists>x y. snd (client_main settings True (Some (sx, sy, sw, sh))) = Inr (x, y, 1200, 800) \<and>
    sx \<le> x \<and> x + 1200 \<le> sx + sw \<and> \<bar>(x - sx) - (sx + sw - (x + 1200))\<bar> \<le> 1 \<and>
    sy \<le> y \<and> y + 800 \<le> sy + sh \<and> \<bar>(y - sy) - (sy + sh - (y + 800))\<bar> \<le> 1"
  using half_centred [of "sw - 1200"] half_centred [of "sh - 800"] assms by (auto simp: client_main_def)

text \<open>On a smaller screen its title bar is above the screen.\<close>

lemma main_window_small_screen:
  "sh < 799 \<Longrightarrow> \<exists>x y. snd (client_main settings True (Some (sx, sy, sw, sh))) = Inr (x, y, 1200, 800) \<and> y < sy"
  by (auto simp: client_main_def signed_divide_int_def sgn_if)

section \<open>The dialog with the own data\<close>

text \<open>
  The labels of the dialog. \<open>SetUserInfo\<close> also writes the picture of the shared object, here the entry of
  the user manager; the label for the nick name is set to the name.
\<close>

record SelfInfoDialog =
  own_icon :: string
  own_name :: string
  own_nick :: string
  own_uid :: string
  own_male :: bool

definition head_picture :: string where
  "head_picture = '':/pic/head_1.jpg''"

definition self_SetUserInfo :: "ClientUserInfo option \<Rightarrow> SelfInfoDialog \<Rightarrow> ClientUserInfo option \<times> SelfInfoDialog" where
  "self_SetUserInfo info d =
     (case info of
        None \<Rightarrow> (None, d)
      | Some u \<Rightarrow>
          (Some (u\<lparr>cu_icon := head_picture\<rparr>),
           \<lparr>own_icon = head_picture, own_name = cu_name u, own_nick = cu_name u, own_uid = to_string (cu_uid u), own_male = (cu_sex u \<noteq> 0)\<rparr>))"

text \<open>
  \<open>slot_side_head\<close> of the main window: the dialog is made and filled at the first click, and each click
  shows or hides it.
\<close>

record side_head =
  selfInfoDialog :: "SelfInfoDialog option"
  self_visible :: bool
  side_users :: UserMgr

definition empty_SelfInfoDialog :: SelfInfoDialog where
  "empty_SelfInfoDialog = \<lparr>own_icon = [], own_name = [], own_nick = [], own_uid = [], own_male = False\<rparr>"

definition slot_side_head :: "side_head \<Rightarrow> side_head" where
  "slot_side_head s =
     (let s1 = (case selfInfoDialog s of
          None \<Rightarrow>
            (case self_SetUserInfo (user_info (side_users s)) empty_SelfInfoDialog of
               (info, d) \<Rightarrow> s\<lparr>selfInfoDialog := Some d, side_users := (side_users s)\<lparr>user_info := info\<rparr>\<rparr>)
        | Some d \<Rightarrow> s) in
      s1\<lparr>self_visible := \<not> self_visible s1\<rparr>)"

text \<open>
  The dialog shows name and uid of the user as they were at the first click, is shown after every odd
  number of clicks, and the first click replaces the user's picture.
\<close>

theorem side_head_clicks:
  assumes "selfInfoDialog s = None" "\<not> self_visible s" "user_info (side_users s) = Some u"
  shows "(slot_side_head ^^ Suc n) s =
    s\<lparr>selfInfoDialog := Some \<lparr>own_icon = head_picture, own_name = cu_name u, own_nick = cu_name u, own_uid = to_string (cu_uid u), own_male = (cu_sex u \<noteq> 0)\<rparr>,
      self_visible := even n, side_users := (side_users s)\<lparr>user_info := Some (u\<lparr>cu_icon := head_picture\<rparr>)\<rparr>\<rparr>"
proof (induction n)
  case 0
  then show ?case using assms by (simp add: slot_side_head_def self_SetUserInfo_def)
next
  case (Suc n)
  show ?case unfolding funpow.simps(2) [of "Suc n"] o_apply Suc.IH by (simp add: slot_side_head_def)
qed

end
