(* ===== verification/Spec2Isabelle.thy ===== *)
theory Spec2Isabelle
  imports ConnPool CSession Tools ServerRun HandlerSafety ServerMain GateTimer OrionMessage FriendFlow EditorFacts
    ClientStart MultiSelect ClientConnect ClientDesk
begin

text \<open>
  Verification of ChatOrion: a chat system of four servers and a Qt client (\<open>src/ChatOrionServer\<close>,
  \<open>src/ChatOrionClient\<close>).

  \<^bold>\<open>The program.\<close> A client logs in at the gate server over HTTP (\<open>GateServer\<close>). The gate server checks
  accounts in MySQL and verification codes in Redis, and asks the status server over gRPC for a chat
  server and a token (\<open>StatusServer\<close>). The client then connects to that chat server over TCP
  (\<open>ChatServer\<close>), presents the token, and exchanges framed JSON messages: searching users, friend
  requests, text messages. Messages are stored in MySQL and cached in Redis; a message for a user on
  another chat server goes there over gRPC. Chat servers report to the status server by heartbeats.
  The verification code service is a JavaScript program behind a gRPC stub.

  \<^bold>\<open>How calls are modelled.\<close> A member function is a state transformer \<open>('s, 'a) prog\<close> whose result
  tells how it ends: with a value, with an exception, waiting on a condition variable for good, or in
  undefined behaviour or \<open>std::terminate\<close> (theory \<open>Prelude\<close>). Code outside the repository is a
  parameter: hiredis and the Redis server (\<open>redis_fun\<close>), the MySQL connector and the database
  (\<open>mysql_driver\<close>), jsoncpp (\<open>jsoncpp\<close>), Qt's JSON classes (\<open>qt_json\<close>), the gRPC transport. Where a
  theorem relies on one of them the documented behaviour is a named hypothesis
  (\<open>keychain_documented\<close>, \<open>redis_documented\<close>, \<open>json_documented\<close>, \<open>json_reparse\<close>, \<open>qt_documented\<close>, \<open>qt_reads\<close>,
  \<open>qt_prints\<close>, \<open>fast_documented\<close>), and a reference instance in the same theory satisfies it.

  \<^bold>\<open>Theories, in the order of their use.\<close>
  \<^item> \<open>Prelude\<close>: results, control operators (\<open>with_defer\<close> is a scope with a \<open>Defer\<close> object), decimal
    and big endian conversions, the predicate \<open>keeps\<close> for invariants of calls.
  \<^item> \<open>ConnPool\<close>: the five connection pools (\<open>RedisConnectPool.cpp\<close>, \<open>MySQLConnectPool.cpp\<close>, the stub
    pools of \<open>ChatGrpcClient.cpp\<close>, \<open>StatusGrpcClient.cpp\<close>, \<open>verify_grpc_client.cpp\<close>). The locale
    \<open>pool_interface\<close> is their contract, and \<open>pool_with_upkeep\<close> adds the keep-alive check; in every interleaving of
    calls and checks a connection is idle or held once, also when a thread holds several.
  \<^item> \<open>Framing\<close>: \<open>MsgNode.h\<close>, \<open>MsgNode.cpp\<close> and the client's \<open>tcp_mgr.cpp\<close>. The locale \<open>framing\<close> derives,
    for any writer and reader that meet its laws, that frames survive any cutting into chunks.
  \<^item> \<open>CSession\<close>: \<open>CSession.cpp\<close>, reader and send queue: which headers are accepted, what is posted,
    in which order frames are written.
  \<^item> \<open>Tools\<close>: \<open>tools.cpp\<close>, \<open>Settings.cpp\<close>, \<open>AsioIOServicePool.cpp\<close>, the query parameters of
    \<open>http_connection.cpp\<close> and the splitting of SQL scripts.
  \<^item> \<open>RedisManager\<close>: every command of \<open>RedisManager.cpp\<close> with its reply checks and what happens to the
    pooled connection; \<open>redis_documented\<close> relates the commands to a key space. The text of \<open>execute\<close> is a format,
    and nothing is assumed of one with a percent sign.
  \<^item> \<open>ChatData\<close>, \<open>ChatCache\<close>, \<open>ChatDao\<close>: \<open>data.h\<close>, \<open>ChatCacheManager.cpp\<close>, \<open>MySQLDao.cpp\<close> and
    \<open>MySQLManager.cpp\<close> of the chat server: JSON forms, effects on the key space, statements,
    transactions.
  \<^item> \<open>Constants\<close>, \<open>Registry\<close>, \<open>ChatServer\<close>: \<open>const.h\<close>; tables of handlers and sessions as locales; the
    state of a chat server process with \<open>UserMgr.cpp\<close> and \<open>CServer.cpp\<close>.
  \<^item> \<open>ChatGrpc\<close>, \<open>ChatLogic\<close>, \<open>ChatLogicFacts\<close>, \<open>HandlerSafety\<close>, \<open>ServerRun\<close>: \<open>ChatGrpcClient.cpp\<close>,
    \<open>ChatServiceImpl.cpp\<close>, \<open>LogicSystem.cpp\<close>; what each handler does on its branches, how many
    pooled connections a handler can lose, how an id with a conversion ends the server, and a step relation of the whole server with its reachable states.
  \<^item> \<open>StatusServer\<close>, \<open>StatusClient\<close>: \<open>StatusServiceImpl.cpp\<close>, \<open>StatusGrpcClient.cpp\<close> and the heartbeat
    timer of \<open>CServer.cpp\<close>; the table of servers refines a map from names to the time of the last sign
    of life, and the chosen server is least loaded.
  \<^item> \<open>GateDao\<close>, \<open>GateServer\<close>: \<open>GateServer/MySQLDao.cpp\<close>, \<open>logic_system.cpp\<close>, \<open>verify_grpc_client.cpp\<close>,
    \<open>http_connection.cpp\<close>; accounts change only with a verification code. \<open>GateTimer\<close>: the completions of a
    connection with its deadline, as a step relation with time.
  \<^item> \<open>Logging\<close>, \<open>ServerMain\<close>: \<open>log.cpp\<close>, and the processes: \<open>main.cpp\<close> of the three servers, \<open>AsioIOServicePool.cpp\<close>, the
    accept loop of \<open>GateServer/cserver.cpp\<close>. A started chat server is sent logins; how the processes end.
  \<^item> \<open>OrionMessage\<close>: the message library \<open>orion-message\<close> with its factory, and the round trip through
    JSON.
  \<^item> \<open>ClientUserMgr\<close>: the client's \<open>user_mgr.cpp\<close> and \<open>user_data.cpp\<close> with a store for the shared friend
    objects, two handlers of \<open>login_gui.cpp\<close>; the locale \<open>pager\<close> shows that paging reaches every entry.
  \<^item> \<open>ClientView\<close>, \<open>ClientPage\<close>: \<open>chat_view.cpp\<close>, \<open>chat_item_base.cpp\<close>, \<open>chat_page.cpp\<close>, \<open>content_bubble.cpp\<close>,
    \<open>message_text_edit.cpp\<close>; what opening a conversation shows, and that it never returns when its last
    sender is unknown; what is typed is what is sent, up to the limit of 1024 UTF-16 units, and what the receiver sees.
  \<^item> \<open>ClientDialog\<close>: \<open>chat_dialog.cpp\<close>, \<open>chat_user_item.cpp\<close> and two handlers of \<open>contact_user_list.cpp\<close>: the
    list of conversations and its unread counters, as a step relation of everything that can happen in
    the window; the counters stay consistent, and the first click on a conversation shows the messages
    of the login.
  \<^item> \<open>ClientLogin\<close>: the forms of \<open>login_gui.cpp\<close> with their checks, tips and countdown, as a step relation of
    the window, and \<open>http_mgr.cpp\<close>; codes are requested at most once a minute.
  \<^item> \<open>MessageBus\<close>: \<open>message_bus.cpp\<close> and the table of callbacks of \<open>tcp_mgr.cpp\<close>. The locale \<open>bus\<close> says which
    handlers a posted message runs; frames of the server reach the callbacks in order.
  \<^item> \<open>LabelBox\<close>: the box of tags of \<open>apply_friend_dialog.cpp\<close> and \<open>authen_friend_dialog.cpp\<close> with \<open>friend_label.cpp\<close>
    and \<open>customize_edit.h\<close>; tags never overlap, and which tag a suggestion adds.
  \<^item> \<open>ClientWindow\<close>, \<open>WindowFacts\<close>, \<open>WindowInv\<close>: the whole main window around the dialog: \<open>search_list.cpp\<close>,
    \<open>apply_friend_page.cpp\<close>, \<open>contact_user_list.cpp\<close>, pages, side buttons, red dots and the search box of
    \<open>chat_dialog.cpp\<close>. Each step of the window refines steps of \<open>ClientDialog\<close>; requests are shown, and what an
    answer to a search does.
  \<^item> \<open>ChatFriends\<close>, \<open>FriendFlow\<close>: the handlers of \<open>LogicSystem.cpp\<close> for searching, requesting and accepting friends,
    and the same between two clients and the server.
  \<^item> \<open>ClientEditor\<close>, \<open>EditorFacts\<close>: \<open>message_text_edit.cpp\<close> and the text of \<open>content_bubble.cpp\<close>: documents of letters and
    objects, the clipboard, and what is sent. The locale \<open>copier\<close> is what both ways of copying share.
  \<^item> \<open>ClientFrame\<close>, \<open>ClientWidgets\<close>: \<open>framewgt.cpp\<close>, \<open>titlebar.cpp\<close>, \<open>state_widget.cpp\<close>, \<open>clicked_label.cpp\<close>, \<open>red_dot_label.cpp\<close> and
    the wheel handling of the lists: dragging the edges of the window, and widgets that show their state.
  \<^item> \<open>ClientDesk\<close>: \<open>base_dialog.cpp\<close>, \<open>frameless_wid_drag_mgr.cpp\<close>, \<open>app/main.cpp\<close>, \<open>self_info_dialog.cpp\<close>. The locale
    \<open>dragged_window\<close> is the contract of the three ways of dragging a window.
  \<^item> \<open>ClientConnect\<close>: the slots of the socket in \<open>tcp_mgr.cpp\<close>, what the user is told, and what is read after a lost
    connection was made again.
  \<^item> \<open>ClientStart\<close>: \<open>keychainclass.cpp\<close>, \<open>utils/tools.cpp\<close>, \<open>common_utils.cpp\<close>, \<open>emotion_window.cpp\<close> and the labels of
    \<open>chat_user_item.cpp\<close>; a remembered login is restored at the next start.
  \<^item> \<open>MultiSelect\<close>: selecting and deleting several messages, in \<open>chat_item_base.cpp\<close>, \<open>chat_view.cpp\<close> and \<open>chat_page.cpp\<close>.
  \<^item> this theory: properties across processes. A click on the login button leads to the chat server
    with a token; a login at the gate server is accepted by the chat server; a text reaches a user on
    another chat server; unread messages and notifications reach the client.

  \<^bold>\<open>Integers and bounds.\<close> Lengths on the wire are 16-bit words, as in the code; \<open>int\<close> and \<open>int64_t\<close>
  values are integers with explicit range hypotheses where a conversion checks them, and
  \<open>stoi\<close> raises outside its range. Loops over containers are structural recursion; the reader loops
  have termination proofs; the loop of \<open>SetFriendUserInfo\<close>, which may not end, is a partial function
  with result \<open>None\<close>, as are the line edits that set their own text and the search for the top of the object tree. No
  fuel is used.

  \<^bold>\<open>Concurrency.\<close> Each call runs to its end on the state; calls of different threads are interleaved in
  \<open>pool_run\<close>, \<open>write_run\<close>, the step relation of \<open>ServerRun\<close> and the runs of the status server. Data
  races inside one call are not modelled.

  \<^bold>\<open>Not modelled.\<close> The sockets of asio, gRPC and Qt, glog, the key chain of the system and the file system, which are
  parameters; the JavaScript service, generated protobuf code and vendored libraries; and of the client layout,
  painting, animation and style sheets, which are calls of Qt without a state of their own.
\<close>

section \<open>Gate, status and chat server together\<close>

text \<open>The login reply with the status service behind the stub.\<close>

lemma hand_over_direct:
  assumes rpc: "gate_status_rpc E = direct_rpc redis peer now unique" and up: "client_up (gate_status s)"
    and get: "GetChatServer redis unique uid (status_peer (gate_status s)) = (Val reply, st)" and ok: "gcs_error reply = 0"
  obtains t where "hand_over E username uid (s, con) =
      (Val (), (t, append_body (toStyledString (gate_json E) (login_reply username uid reply)) con))"
    "status_peer (gate_status t) = st" "gate_mysql t = gate_mysql s" "gate_redis t = gate_redis s"
proof -
  obtain stub c' where c': "with_status_stub (\<lambda>stub. rpc_GetChatServer (gate_status_rpc E) stub uid) (gate_status s) =
      (Val (fst (rpc_GetChatServer (gate_status_rpc E) stub uid (status_peer (gate_status s)))), c')"
      "status_peer c' = snd (rpc_GetChatServer (gate_status_rpc E) stub uid (status_peer (gate_status s)))"
    by (rule with_status_stub_up [OF up, where call = "\<lambda>stub. rpc_GetChatServer (gate_status_rpc E) stub uid"]) blast
  have a: "rpc_GetChatServer (gate_status_rpc E) stub uid (status_peer (gate_status s)) = (Some reply, st)"
    by (simp add: rpc direct_rpc_def answered_def get)
  show thesis
    by (rule that [of "s\<lparr>gate_status := c'\<rparr>"])
      (use c' ok in \<open>simp_all add: a hand_over_def gate_status_op_def StatusGrpcClient_GetChatServer_def answer_def prog_defs\<close>)
qed

text \<open>
  C3. From the password to the chat: a user whose password matches is sent by the gate server to a
  least loaded chat server, with a token; when the client presents this token to a chat server
  that uses the same Redis and has the user's record cached, the login block accepts it and
  answers with error code Success.
\<close>

theorem gate_login_accepted_by_chat:
  fixes G :: "('r, 'm, 'r StatusServiceImpl, 'v) gate_env" and E :: "('q, 'n, 'h) chat_env"
  assumes json: "gate_json G = J" "fst (jparse J (req_body con))" "snd (jparse J (req_body con)) = root"
      "field_str J root ''username'' = Some username" "field_str J root ''password'' = Some password"
    and pool: "mysql_pool (gate_mysql s) = \<lparr>connections = conn # conns, is_stop = False\<rparr>"
    and query: "drv_query (gate_mysql_lib G) (sql_connection conn) ''SELECT * FROM user WHERE username = ?'' [PString username]
      (mysql_server (gate_mysql s)) = (Some (row # rows), db)"
    and row: "getString row ''password'' = Some password" "getString row ''email'' = Some email" "getInt row ''uid'' = Some uid"
    and rpc: "gate_status_rpc G = direct_rpc redis peer now unique" "client_up (gate_status s)" "status_peer (gate_status s) = st"
    and R: "redis_documented redis view" "redis_up (status_redis st)" "view (redis_server (status_redis st)) = ks"
    and table: "counters_ok ks" "servers_wf st" "servers st \<noteq> []" "ports_ok st" "no_nul unique"
    and chat: "redis_documented (lib_redis E) view'" "redis_up (redis_mgr cs)" "dao_ready 2 (mysql_mgr cs)"
      "view' (redis_server (redis_mgr cs)) = ks(USERTOKENPREFIX @ to_string uid \<mapsto> VStr unique)"
    and user: "ks (USER_BASE_INFO @ to_string uid) = Some (VStr info)" "no_nul info"
      "shows_user (lib_json E) (snd (jparse (lib_json E) info)) u"
  shows "\<exists>t con' name server p. userLoginCallback G (s, con) = (Val (), (t, con')) \<and>
     rsp_body con' = rsp_body con @ toStyledString J (login_reply username uid
       \<lparr>gcs_error = 0, gcs_host = cs_host server, gcs_port = p, gcs_token = unique\<rparr>) \<and>
     find_server st name = Some server \<and> (\<forall>other \<in> fst ` set (servers st). server_load ks name \<le> server_load ks other) \<and>
     view (redis_server (status_redis (status_peer (gate_status t)))) = view' (redis_server (redis_mgr cs)) \<and>
     (\<exists>cs' rt. login_block E uid unique (cs, JNull) = (Val True, (cs', rt)) \<and> jfield ''error'' rt = JInt (error_code Success))"
proof -
  define s1 where "s1 = s\<lparr>gate_mysql := queried conn conns db (gate_mysql s)\<rparr>"
  define con1 where "con1 = set_field ''Content-Type'' ''text/json'' con"
  have "userLoginCallback G (s, con) =
    (if row # rows = [] then (Val (), (s1, append_body (toStyledString J (error_reply_msg UserNotExist no_user_text)) con1))
     else if password \<noteq> password then (Val (), (s1, append_body (toStyledString J (error_reply_msg PasswdInvalid wrong_password_text)) con1))
     else hand_over G username uid (s1, con1))"
    by (rule userLogin_run [OF json pool query]) (use row in \<open>simp_all add: s1_def con1_def\<close>)
  then have login: "userLoginCallback G (s, con) = hand_over G username uid (s1, con1)" by simp
  obtain st' name server p where get: "GetChatServer redis unique uid st =
       (Val \<lparr>gcs_error = 0, gcs_host = cs_host server, gcs_port = p, gcs_token = unique\<rparr>, st')"
      "find_server st name = Some server" "\<forall>other \<in> fst ` set (servers st). server_load ks name \<le> server_load ks other"
      "view (redis_server (status_redis st')) = ks(USERTOKENPREFIX @ to_string uid \<mapsto> VStr unique)"
    using GetChatServer_effect [OF R table, where uid = uid] by blast
  have up1: "client_up (gate_status s1)" and get1: "GetChatServer redis unique uid (status_peer (gate_status s1)) =
       (Val \<lparr>gcs_error = 0, gcs_host = cs_host server, gcs_port = p, gcs_token = unique\<rparr>, st')"
    using rpc get(1) by (simp_all add: s1_def)
  obtain t where t: "hand_over G username uid (s1, con1) = (Val (), (t, append_body (toStyledString (gate_json G)
      (login_reply username uid \<lparr>gcs_error = 0, gcs_host = cs_host server, gcs_port = p, gcs_token = unique\<rparr>)) con1))"
      "status_peer (gate_status t) = st'"
    by (rule hand_over_direct [OF rpc(1) up1 get1]) simp_all
  have tok: "view' (redis_server (redis_mgr cs)) (USERTOKENPREFIX @ to_string uid) = Some (VStr unique)" by (simp add: chat(4))
  have hit: "view' (redis_server (redis_mgr cs)) (USER_BASE_INFO @ to_string uid) = Some (VStr info)"
    using user(1) by (simp add: chat(4) key_prefixes)
  obtain cs' rt where block: "login_block E uid unique (cs, JNull) = (Val True, (cs', rt))" "jfield ''error'' rt = JInt (error_code Success)"
    using login_block_succeeds [OF chat(1,2) tok table(5) hit user(2,3) chat(3)] by metis
  have body: "rsp_body (append_body out con1) = rsp_body con @ out" for out by (simp add: append_body_def con1_def set_field_def)
  show ?thesis
  proof (intro exI conjI)
    show "userLoginCallback G (s, con) = (Val (), (t, append_body (toStyledString (gate_json G)
      (login_reply username uid \<lparr>gcs_error = 0, gcs_host = cs_host server, gcs_port = p, gcs_token = unique\<rparr>)) con1))"
      using login t(1) by simp
    show "find_server st name = Some server" by (rule get(2))
    show "\<forall>other \<in> fst ` set (servers st). server_load ks name \<le> server_load ks other" by (rule get(3))
    show "view (redis_server (status_redis (status_peer (gate_status t)))) = view' (redis_server (redis_mgr cs))"
      by (simp add: t(2) get(4) chat(4))
    show "login_block E uid unique (cs, JNull) = (Val True, (cs', rt))" by (rule block(1))
    show "jfield ''error'' rt = JInt (error_code Success)" by (rule block(2))
  qed (simp add: body json(1))
qed

theorem gate_login_accepted_by_chat_witness:
  "\<exists>t con' cs' rt. userLoginCallback (demo_gate_env (JObj [(''username'', JStr ''ann''), (''password'', JStr ''pw'')]) [demo_row])
       (demo_gate [''ubaseinfo_7'' \<mapsto> VStr ''{}''], demo_request ''/user_login'') = (Val (), (t, con')) \<and> rsp_body con' = ''{}'' \<and>
     login_block (demo_env (JObj [(''uid'', JInt 7), (''token'', JStr ''tok'')])) 7 ''tok''
       (demo_server [''ubaseinfo_7'' \<mapsto> VStr ''{}'', LOGIN_COUNT \<mapsto> VHash [(''c1'', ''3''), (''c2'', ''2'')], ''utoken_7'' \<mapsto> VStr ''tok''], JNull) =
       (Val True, (cs', rt))"
proof -
  let ?root = "JObj [(''username'', JStr ''ann''), (''password'', JStr ''pw'')]"
  let ?G = "demo_gate_env ?root [demo_row]" and ?con = "demo_request ''/user_login''"
  let ?ks = "[''ubaseinfo_7'' \<mapsto> VStr ''{}'', LOGIN_COUNT \<mapsto> VHash [(''c1'', ''3''), (''c2'', ''2'')]]"
  let ?s = "demo_gate [''ubaseinfo_7'' \<mapsto> VStr ''{}'']"
  let ?cs = "demo_server (?ks(''utoken_7'' \<mapsto> VStr ''tok''))"
  let ?E = "demo_env (JObj [(''uid'', JInt 7), (''token'', JStr ''tok'')])"
  have n: "stoi ''3'' = Inr 3" "stoi ''2'' = Inr 2" by code_simp+
  have p: "atoi (c_str ''8090'') = Val 8090" "atoi (c_str ''8091'') = Val 8091" by code_simp+
  have c: "counters_ok ?ks" by (auto simp: counters_ok_def is_hash_def hash_of_def n key_prefixes split: if_splits)
  have po: "ports_ok (demo_status ?ks)" using p by (auto simp: ports_ok_def find_server_def demo_status_def split: if_splits)
  have 7: "to_string 7 = ''7''" by code_simp
  have u: "shows_user (lib_json ?E) (snd (jparse (lib_json ?E) ''{}'')) \<lparr>u_name = [], u_pwd = [], u_uid = 7, u_email = [],
      u_nick = [], u_desc = [], u_sex = 0, u_icon = [], u_back = []\<rparr>"
    by (simp add: shows_user_def demo_fields ref_json_def INT_MIN_def INT_MAX_def)
  have up: "client_up (gate_status ?s)" and peer: "status_peer (gate_status ?s) = demo_status ?ks"
    by (simp_all add: demo_gate_def client_up_def)
  have J: "field_str (gate_json ?G) ?root ''username'' = Some ''ann''" "field_str (gate_json ?G) ?root ''password'' = Some ''pw''"
      "fst (jparse (gate_json ?G) (req_body ?con))" "snd (jparse (gate_json ?G) (req_body ?con)) = ?root"
    by (simp_all add: demo_gate_env_def field_str_def ref_json_def)
  have db: "mysql_pool (gate_mysql ?s) = \<lparr>connections = [\<lparr>sql_connection = 0, last_oper_time = 0\<rparr>], is_stop = False\<rparr>"
      "drv_query (gate_mysql_lib ?G) 0 ''SELECT * FROM user WHERE username = ?'' [PString ''ann''] (mysql_server (gate_mysql ?s)) =
        (Some [demo_row], ())"
    by (simp_all add: demo_gate_def demo_gate_env_def table_driver_def)
  have "\<exists>t con' name server p. userLoginCallback ?G (?s, ?con) = (Val (), (t, con')) \<and>
     rsp_body con' = rsp_body ?con @ toStyledString (gate_json ?G) (login_reply ''ann'' 7
       \<lparr>gcs_error = 0, gcs_host = cs_host server, gcs_port = p, gcs_token = ''tok''\<rparr>) \<and>
     find_server (demo_status ?ks) name = Some server \<and>
     (\<forall>other \<in> fst ` set (servers (demo_status ?ks)). server_load ?ks name \<le> server_load ?ks other) \<and>
     redis_server (status_redis (status_peer (gate_status t))) = redis_server (redis_mgr ?cs) \<and>
     (\<exists>cs' rt. login_block ?E 7 ''tok'' (?cs, JNull) = (Val True, (cs', rt)) \<and> jfield ''error'' rt = JInt (error_code Success))"
    by (rule gate_login_accepted_by_chat [where view = "\<lambda>ks. ks" and view' = "\<lambda>ks. ks" and root = ?root and rows = "[]" and
        row = demo_row and email = "''a@b''" and st = "demo_status ?ks" and info = "''{}''", OF refl J(3,4,1,2) db(1) _ _ _ _ _ up peer
        ref_redis_documented _ _ c _ _ po _ _ _ demo_ready _ _ _ u])
      (use db(2) in \<open>simp_all add: demo_row_def demo_gate_env_def ref_redis_documented 7 key_prefixes\<close>)
  then show ?thesis by (auto simp: demo_request_def new_HttpConnection_def demo_gate_env_def)
qed

text \<open>
  The gate server reports success when there is no chat server: with the status service's table
  empty, a user whose password matches is answered with error 0, an empty host, port 0 and no token.
\<close>

theorem login_without_chat_server:
  assumes "gate_status_rpc G = direct_rpc redis peer now unique" and "client_up (gate_status s)"
    and "status_peer (gate_status s) = \<lparr>status_redis = m, servers = []\<rparr>"
  shows "\<exists>t. hand_over G username uid (s, con) = (Val (), (t, append_body (toStyledString (gate_json G)
    (login_reply username uid \<lparr>gcs_error = 0, gcs_host = [], gcs_port = 0, gcs_token = []\<rparr>)) con))"
proof -
  have "GetChatServer redis unique uid (status_peer (gate_status s)) =
      (Val \<lparr>gcs_error = 0, gcs_host = [], gcs_port = 0, gcs_token = []\<rparr>, \<lparr>status_redis = m, servers = []\<rparr>)"
    by (simp add: assms(3) GetChatServer_no_server)
  from hand_over_direct [OF assms(1,2) this, of username con] show ?thesis by (simp, metis)
qed

theorem login_without_chat_server_witness:
  "\<exists>t. hand_over (demo_gate_env JNull []) ''ann'' 7
     ((demo_gate Map.empty)\<lparr>gate_status := \<lparr>status_stubs = \<lparr>connections = [0], is_stop = False\<rparr>,
        status_peer = \<lparr>status_redis = \<lparr>redis_pool = \<lparr>connections = [0], is_stop = False\<rparr>, redis_server = Map.empty\<rparr>, servers = []\<rparr>\<rparr>\<rparr>,
      demo_request ''/user_login'') = (Val (), (t, append_body (toStyledString (gate_json (demo_gate_env JNull []))
       (login_reply ''ann'' 7 \<lparr>gcs_error = 0, gcs_host = [], gcs_port = 0, gcs_token = []\<rparr>)) (demo_request ''/user_login'')))"
  by (rule login_without_chat_server) (simp_all add: demo_gate_env_def client_up_def)


section \<open>Two chat servers\<close>

lemma after_rpc [simp]:
  "session_objs (s\<lparr>rpc_pools := x, rpc_peers := y\<rparr>) = session_objs s" "mysql_mgr (s\<lparr>rpc_pools := x, rpc_peers := y\<rparr>) = mysql_mgr s" "redis_mgr (s\<lparr>rpc_pools := x, rpc_peers := y\<rparr>) = redis_mgr s"
  "rpc_pools (s\<lparr>rpc_pools := x, rpc_peers := y\<rparr>) = x" "rpc_peers (s\<lparr>rpc_pools := x, rpc_peers := y\<rparr>) = y"
  by simp_all

text \<open>
  C7. Delivery across servers: when the database takes the message, whose id has no blank, NUL or percent
  sign, reply and notification fit a frame, the send queues have room, Redis records another server for the receiver, the pool for that server has a stub, and the
  stub reaches that server's \<open>ChatServiceImpl\<close>, then the receiver's session there gets one
  notification, which carries the id of the message, and the sender one reply with error code Success;
  the stub is back in its pool, the message's row and the relation's row are in the database and the
  message is cached.
\<close>

theorem text_delivered_across:
  fixes E :: "('r, 'm, ('q, 'n, 'h) chat_server) chat_env" and E' :: "('q, 'n, 'h) chat_env"
  assumes ready: "text_ready E view ks db' msg_data msg n s"
    and to: "ks (USERIPPREFIX @ to_string (cm_to_uid msg)) = Some (VStr server)" "no_nul server" "server \<noteq> self_server_name E"
    and pool: "rpc_pools s server = Some \<lparr>connections = stub # stubs, is_stop = False\<rparr>"
    and rpc: "lib_NotifyTextChatMsg E = (\<lambda>_ req peer. answered (ChatServiceImpl_NotifyTextChatMsg E' req peer))"
    and receiver: "GetSession (rpc_peers s) (cm_to_uid msg) = Some sid'" "session_objs (rpc_peers s) sid' = Some c'" "has_room 1 c'"
    and sender: "session_objs s sid = Some c" "has_room 1 c"
    and ntf: "ntf = text_notification (cm_from_uid msg) (cm_to_uid msg) (cm_msg_id msg) (cm_content msg) (cm_send_time msg) (cm_msg_type msg)"
    and short: "length (toStyledString (lib_json E) (text_reply_of msg)) \<le> 32763" "length (toStyledString (lib_json E') ntf) \<le> 32763"
  shows "\<exists>t d d'. DealChatTextMsgHandler E clock sid msg_data s = (Val (), t) \<and>
     session_objs t = (session_objs s)(sid \<mapsto> d) \<and>
     outbox d = outbox c @ [frame (msg_id ID_TEXT_CHAT_MSG_RSP) (toStyledString (lib_json E) (text_reply_of msg))] \<and>
     session_objs (rpc_peers t) = (session_objs (rpc_peers s))(sid' \<mapsto> d') \<and>
     outbox d' = outbox c' @ [frame (msg_id ID_NOTIFY_TEXT_CHAT_MSG_REQ) (toStyledString (lib_json E') ntf)] \<and>
     jfield ''msg_id'' ntf = JStr (cm_msg_id msg) \<and>
     rpc_pools t = (rpc_pools s)(server \<mapsto> \<lparr>connections = stubs @ [stub], is_stop = False\<rparr>) \<and>
     mysql_server (mysql_mgr t) = db' \<and> view (redis_server (redis_mgr t)) = cached_text clock msg n ks"
proof -
  obtain s2 where s2: "DealChatTextMsgHandler E clock sid msg_data s =
      with_defer (text_reply_of msg) (text_body E (text_request msg))
        (\<lambda>rtvalue. session_send sid (toStyledString (lib_json E) rtvalue) ID_TEXT_CHAT_MSG_RSP) s2"
    "redis_up (redis_mgr s2)" "view (redis_server (redis_mgr s2)) = cached_text clock msg n ks"
    "session_objs s2 = session_objs s" "rpc_pools s2 = rpc_pools s" "rpc_peers s2 = rpc_peers s" "mysql_server (mysql_mgr s2) = db'"
    using text_handler_run [OF ready] by metis
  have R: "redis_documented (lib_redis E) view" using ready by (simp add: text_ready_def)
  have k: "view (redis_server (redis_mgr s2)) (USERIPPREFIX @ to_string (cm_to_uid msg)) = Some (VStr server)"
    using to(1) by (simp add: s2(3) cached_text_def)
  obtain s3 where s3: "server_of_user E (cm_to_uid msg) s2 = (Val (True, server), s3)"
      "view (redis_server (redis_mgr s3)) = view (redis_server (redis_mgr s2))" "same_but_redis s2 s3"
    using server_of_user_known [OF R s2(2) k to(2)] by metis
  note e3 = same_but_redisD [OF s3(3)]
  have "has_room (Suc 0) c'" using receiver(3) by simp
  from session_send_outbox [OF receiver(2) short(2) this]
  obtain d' peer where peer: "session_send sid' (toStyledString (lib_json E') ntf) ID_NOTIFY_TEXT_CHAT_MSG_REQ (rpc_peers s) = (Val (), peer)"
      "session_objs peer = (session_objs (rpc_peers s))(sid' \<mapsto> d')"
      "outbox d' = outbox c' @ [frame (msg_id ID_NOTIFY_TEXT_CHAT_MSG_REQ) (toStyledString (lib_json E') ntf)]"
    by metis
  define s4 where "s4 = s3\<lparr>rpc_pools := (rpc_pools s)(server \<mapsto> \<lparr>connections = stubs @ [stub], is_stop = False\<rparr>), rpc_peers := peer\<rparr>"
  have call: "lib_NotifyTextChatMsg E stub (text_request msg) (rpc_peers s3) =
      (Some (new_TextChatMsgRsp\<lparr>tmr_error := error_code Success\<rparr>), peer)"
    using receiver(1) peer(1) by (simp add: rpc answered_def ChatServiceImpl_NotifyTextChatMsg_def text_request_def bnd_def gets_def ret_def
        Let_def e3 s2(6) ntf)
  have client: "\<exists>rsp. ChatGrpcClient_NotifyTextChatMsg E server (text_request msg) s3 = (Val rsp, s4)"
    using call pool by (simp add: ChatGrpcClient_NotifyTextChatMsg_def Let_def bnd_def gets_def e3 s2(5) with_stub_def pool_defs ret_def s4_def)
  have "text_body E (text_request msg) (s2, text_reply_of msg) = (Val (), (s4, text_reply_of msg))"
    using client to(3) by (auto simp: text_body_def bnd_def outer_pair ret_def s3(1) text_request_def)
  moreover have "session_objs s4 = session_objs s" by (simp add: s4_def) (simp add: e3 s2(4))
  then have "session_objs s4 sid = Some c" "has_room (Suc 0) c" using sender by simp_all
  from session_send_outbox [OF this(1) short(1) this(2)]
  obtain d t where t: "session_send sid (toStyledString (lib_json E) (text_reply_of msg)) ID_TEXT_CHAT_MSG_RSP s4 = (Val (), t)"
      "session_objs t = (session_objs s4)(sid \<mapsto> d)" "same_but_sessions s4 t"
      "outbox d = outbox c @ [frame (msg_id ID_TEXT_CHAT_MSG_RSP) (toStyledString (lib_json E) (text_reply_of msg))]"
    by metis
  ultimately have run: "DealChatTextMsgHandler E clock sid msg_data s = (Val (), t)"
    unfolding s2(1) by - (rule with_defer_Val)
  note et = same_but_sessionsD [OF t(3)]
  have "jfield ''msg_id'' ntf = JStr (cm_msg_id msg)" by (simp add: ntf text_notification_def jfield_def)
  then show ?thesis
    by (intro exI [of _ t] exI [of _ d] exI [of _ d'] conjI run)
      (simp_all add: t(2,4) et s4_def e3 s2(3,4,7) s3(2) peer(2,3))
qed


text \<open>Server ``chat1'' of the examples with ``chat2'' behind its stub; user 2 is logged in on ``chat2''.\<close>

definition demo_pair_env :: "(keyspace, unit, (keyspace, unit, unit) chat_server) chat_env" where
  "demo_pair_env = \<lparr>lib_json = demo_json demo_message, lib_redis = ref_redis, lib_mysql = table_driver (\<lambda>_ _. []),
     lib_NotifyAddFriend = (\<lambda>_ _ g. (None, g)), lib_NotifyAuthFriend = (\<lambda>_ _ g. (None, g)),
     lib_NotifyTextChatMsg = (\<lambda>_ req peer. answered (ChatServiceImpl_NotifyTextChatMsg (demo_env JNull) req peer)),
     stringToTimestamp = (\<lambda>_. 0), cfg = [''SelfServer'' \<mapsto> [''name'' \<mapsto> ''chat1'']]\<rparr>"

definition demo_pair :: "(keyspace, unit, (keyspace, unit, unit) chat_server) chat_server" where
  "demo_pair = \<lparr>redis_mgr = redis_mgr (demo_server [''uip_2'' \<mapsto> VStr ''chat2'']), mysql_mgr = mysql_mgr (demo_server Map.empty),
     session_objs = [''s1'' \<mapsto> new_CSession ''s1'' 0], server_sessions = {''s1''}, uid_to_session = Map.empty,
     rpc_pools = [''chat2'' \<mapsto> \<lparr>connections = [(''chat2'', 0)], is_stop = False\<rparr>], rpc_peers = demo_server Map.empty\<rparr>"

theorem text_delivered_across_witness:
  "\<exists>t d d'. DealChatTextMsgHandler demo_pair_env (1700000000, 1700000000) ''s1'' ''{}'' demo_pair = (Val (), t) \<and>
     session_objs t ''s1'' = Some d \<and> outbox d = [frame 1018 ''{}''] \<and>
     session_objs (rpc_peers t) ''s2'' = Some d' \<and> outbox d' = [frame 1019 ''{}'']"
proof -
  let ?ks = "[''uip_2'' \<mapsto> VStr ''chat2'']"
  have 2: "USERIPPREFIX @ to_string 2 = ''uip_2''" by code_simp
  have "self_server_name demo_pair_env = ''chat1''" by (simp add: self_server_name_def demo_pair_env_def) code_simp
  then have ne: "''chat2'' \<noteq> self_server_name demo_pair_env" by simp
  have "text_ready (demo_env demo_message) (\<lambda>ks. ks) ?ks () ''{}'' demo_chat 1 (demo_server ?ks)"
    by (rule demo_text_ready) simp
  then have ready: "text_ready demo_pair_env (\<lambda>ks. ks) ?ks () ''{}'' demo_chat 1 demo_pair"
    by (simp add: text_ready_def demo_pair_env_def demo_pair_def demo_server_def)
  let ?n = "text_notification (cm_from_uid demo_chat) (cm_to_uid demo_chat) (cm_msg_id demo_chat) (cm_content demo_chat)
    (cm_send_time demo_chat) (cm_msg_type demo_chat)"
  have "\<exists>t d d'. DealChatTextMsgHandler demo_pair_env (1700000000, 1700000000) ''s1'' ''{}'' demo_pair = (Val (), t) \<and>
     session_objs t = (session_objs demo_pair)(''s1'' \<mapsto> d) \<and>
     outbox d = outbox (new_CSession ''s1'' 0) @ [frame (msg_id ID_TEXT_CHAT_MSG_RSP) (toStyledString (lib_json demo_pair_env) (text_reply_of demo_chat))] \<and>
     session_objs (rpc_peers t) = (session_objs (rpc_peers demo_pair))(''s2'' \<mapsto> d') \<and>
     outbox d' = outbox (new_CSession ''s2'' 2) @ [frame (msg_id ID_NOTIFY_TEXT_CHAT_MSG_REQ) (toStyledString (lib_json (demo_env JNull)) ?n)] \<and>
     jfield ''msg_id'' ?n = JStr (cm_msg_id demo_chat) \<and>
     rpc_pools t = (rpc_pools demo_pair)(''chat2'' \<mapsto> \<lparr>connections = [] @ [(''chat2'', 0)], is_stop = False\<rparr>) \<and>
     mysql_server (mysql_mgr t) = () \<and> redis_server (redis_mgr t) = cached_text (1700000000, 1700000000) demo_chat 1 ?ks"
    by (rule text_delivered_across [OF ready _ _ ne])
      (simp_all add: demo_chat_def 2 demo_pair_def demo_pair_env_def new_session_room MAX_SENDQUE_def demo_json_def)
  then show ?thesis by (auto simp: new_session_room demo_pair_env_def demo_json_def)
qed

section \<open>Chat server and client\<close>

definition client_text :: "ChatMessage \<Rightarrow> TextChatData" where
  "client_text m = \<lparr>t_msg_id = cm_msg_id m, t_msg_content = cm_content m, t_from_uid = cm_from_uid m, t_to_uid = cm_to_uid m,
     t_send_time = cm_send_time m, t_msg_type = cm_msg_type m, t_status = cm_status m\<rparr>"

text \<open>\<open>toInt\<close> reads the send time as well, so it has to fit an \<open>int\<close>.\<close>

definition client_readable :: "ChatMessage \<Rightarrow> bool" where
  "client_readable m \<longleftrightarrow> message_in_range m \<and> INT_MIN \<le> cm_send_time m \<and> cm_send_time m \<le> INT_MAX"

lemma text_data_recent:
  assumes "json_same v (recent_json m)" and Q: "qt_documented Q" and "client_readable m"
  shows "text_data Q v = client_text m"
proof -
  have r: "recent_json m = JObj [(''msg_id'', JStr (cm_msg_id m)), (''from_uid'', JInt (cm_from_uid m)),
      (''to_uid'', JInt (cm_to_uid m)), (''content'', JStr (cm_content m)), (''msg_type'', JInt (cm_msg_type m)),
      (''send_time'', JInt (cm_send_time m)), (''status'', JInt (cm_status m))]"
    by (simp add: recent_json_def)
  note f = json_same_members(2) [OF assms(1) [unfolded r] Q]
  note i = json_same_leaf(1) [OF Q f] and x = json_same_leaf(2) [OF Q f]
  show ?thesis
    using assms(3) by (simp add: text_data_def client_text_def client_readable_def message_in_range_def i x)
qed

lemma recent_response_members:
  "\<exists>kvs. recent_response msgs = JObj kvs \<and> map_of kvs ''error'' = Some (JInt 0) \<and>
     map_of kvs ''messages'' = (if msgs = [] then None else Some (JArr (map recent_json (rev msgs))))"
proof -
  have "fold (\<lambda>m. jappend_at ''messages'' (recent_json m)) ms JNull =
      (if ms = [] then JNull else JObj [(''messages'', JArr (map recent_json ms))])" for ms
    by (induction ms rule: rev_induct) (auto simp: jappend_at_def jfield_def)
  then show ?thesis by (simp add: recent_response_def set_error_def)
qed

text \<open>
  C21. The messages a user missed reach the client whole: what the chat server sends after the login,
  for the rows the database returned newest first, is loaded by the client so that all messages are
  appended to the user's own list oldest first, and to every friend's list exactly those that
  friend sent, in the same order; nothing else is added.
\<close>

theorem unread_messages_loaded:
  assumes Q: "qt_documented Q" "qt_reads Q J" and s: "friends_wf s" "user_info s = Some u"
    and msgs: "list_all client_readable msgs"
  shows "\<exists>t u'. LoginLoadUnRedChatMsg Q (toStyledString J (recent_response msgs)) s =
      (Val [BusMessage ''LOGIN_LOAD_UNREAD_CHAT_MSG''], t) \<and>
    user_info t = Some u' \<and> cu_chat_msgs u' = cu_chat_msgs u @ map client_text (rev msgs) \<and>
    (\<forall>uid. friend_msgs t uid = friend_msgs s uid @
       (if CheckFriendById uid s then filter (\<lambda>d. t_from_uid d = uid) (map client_text (rev msgs)) else []))"
proof -
  obtain kvs where k: "recent_response msgs = JObj kvs" "map_of kvs ''error'' = Some (JInt 0)"
      "map_of kvs ''messages'' = (if msgs = [] then None else Some (JArr (map recent_json (rev msgs))))"
    using recent_response_members [of msgs] by blast
  obtain v where v: "q_fromJson Q (toStyledString J (recent_response msgs)) = Some v" "json_same v (JObj kvs)"
    using Q(2) unfolding qt_reads_def k(1) by blast
  note mem = json_same_members [OF v(2) Q(1)]
  have e: "q_contains Q v ''error''" "q_toInt Q (q_value Q v ''error'') = 0"
    using json_same_leaf(1) [OF Q(1) mem(2) [OF k(2)]] by (simp_all add: mem(1) k(2) INT_MIN_def INT_MAX_def)
  have texts: "map (text_data Q) (q_toArray Q (q_value Q v ''messages'')) = map client_text (rev msgs)"
  proof (cases "msgs = []")
    case True
    then show ?thesis using mem(3) [of "''messages''"] k(3) Q(1) by (simp add: qt_documented_def)
  next
    case False
    then have "list_all2 json_same (q_toArray Q (q_value Q v ''messages'')) (map recent_json (rev msgs))"
      using json_same_leaf(3) [OF Q(1) mem(2)] k(3) by simp
    then have "list_all2 (\<lambda>x m. text_data Q x = client_text m) (q_toArray Q (q_value Q v ''messages'')) (rev msgs)"
      using msgs by (auto simp: list_all2_map2 list_all2_conv_all_nth list_all_length rev_nth text_data_recent [OF _ Q(1)])
    then show ?thesis by (simp add: list_all2_conv_all_nth list_eq_iff_nth_eq)
  qed
  have "forM (\<lambda>x. load_text (text_data Q x)) xs = forM load_text (map (text_data Q) xs)" for xs
    by (induction xs) simp_all
  then have "LoginLoadUnRedChatMsg Q (toStyledString J (recent_response msgs)) s =
      bnd (forM load_text (map client_text (rev msgs))) (\<lambda>_. ret [BusMessage ''LOGIN_LOAD_UNREAD_CHAT_MSG'']) s"
    by (simp add: LoginLoadUnRedChatMsg_def v(1) e texts)
  then show ?thesis
    using load_texts_run [OF s, of "map client_text (rev msgs)"] by (auto simp: bnd_def ret_def friend_texts_def)
qed

definition demo_texts :: "ChatMessage list" where
  "demo_texts = map (\<lambda>(i, sender). \<lparr>cm_msg_id = i, cm_from_uid = sender, cm_to_uid = 1, cm_content = ''hi'', cm_msg_type = 1,
     cm_send_time = 1700000000, cm_status = 0\<rparr>) [(''m2'', 3), (''m1'', 2)]"

definition demo_client :: UserMgr where
  "demo_client = AppendFriendList ref_qt [JObj [(''uid'', JInt 2)]]
     (SetUserInfo \<lparr>cu_uid = 1, cu_name = ''ann'', cu_nick = [], cu_icon = [], cu_sex = 0, cu_last_msg = [], cu_last_msg_time = 0,
        cu_chat_msgs = []\<rparr> new_UserMgr)"

lemma demo_client_wf: "friends_wf demo_client"
  by (simp add: friends_wf_def demo_client_def AppendFriendList_def append_friend_def new_friend_def SetUserInfo_def new_UserMgr_def
      Let_def ref_qt_def jfield_def INT_MIN_def INT_MAX_def)

lemma demo_client_user: "\<exists>u. user_info demo_client = Some u \<and> cu_chat_msgs u = []"
  by (simp add: demo_client_def AppendFriendList_def append_friend_def new_friend_def SetUserInfo_def Let_def)

lemma demo_client_friends:
  "friend_msgs demo_client uid = []" "CheckFriendById 2 demo_client" "\<not> CheckFriendById 3 demo_client"
  by (simp_all add: friend_msgs_def CheckFriendById_def GetFriendById_def demo_client_def AppendFriendList_def append_friend_def
      new_friend_def SetUserInfo_def new_UserMgr_def Let_def ref_qt_def jfield_def INT_MIN_def INT_MAX_def split: option.splits)

theorem unread_messages_loaded_witness:
  "\<exists>t u'. LoginLoadUnRedChatMsg ref_qt (toStyledString ref_json (recent_response demo_texts)) demo_client =
      (Val [BusMessage ''LOGIN_LOAD_UNREAD_CHAT_MSG''], t) \<and>
     user_info t = Some u' \<and> map t_msg_id (cu_chat_msgs u') = [''m1'', ''m2''] \<and>
     map t_msg_id (friend_msgs t 2) = [''m1''] \<and> friend_msgs t 3 = []"
proof -
  obtain u where u: "user_info demo_client = Some u" "cu_chat_msgs u = []" using demo_client_user by blast
  have r: "list_all client_readable demo_texts"
    by (simp add: demo_texts_def client_readable_def message_in_range_def INT_MIN_def INT_MAX_def)
  from unread_messages_loaded [OF ref_qt_documented ref_qt_reads demo_client_wf u(1) r] show ?thesis
    by (auto simp: u(2) demo_client_friends demo_texts_def client_text_def)
qed

text \<open>
  C22. A text that the chat server pushes to a connected user arrives in the client: reading the
  notification stores the text once with the friend who sent it and once in that friend's
  conversation on the chat page, leaves all others as they were, and counts one more unread message.
\<close>

theorem notification_stored:
  assumes Q: "qt_documented (env_qt E)" "qt_reads (env_qt E) J" and s: "friends_wf (dlg_umgr s)" "user_info (dlg_umgr s) \<noteq> None"
    and m: "client_readable m" "cm_status m = 0"
  shows "\<exists>t. NotifyTextChatMsgReq E (toStyledString J (text_notification (cm_from_uid m) (cm_to_uid m) (cm_msg_id m) (cm_content m)
        (cm_send_time m) (cm_msg_type m))) s = (Val (), t) \<and>
    (\<forall>uid. friend_msgs (dlg_umgr t) uid = friend_msgs (dlg_umgr s) uid @
       (if CheckFriendById uid (dlg_umgr s) \<and> uid = cm_from_uid m then [client_text m] else [])) \<and>
    (\<forall>uid. view_msgs (the_data uid (cpage (client t))) = view_msgs (the_data uid (cpage (client s))) @
       (if uid = cm_from_uid m then [client_text m] else [])) \<and>
    unread_of t (cm_from_uid m) = unread_of s (cm_from_uid m) + 1"
proof -
  let ?n = "text_notification (cm_from_uid m) (cm_to_uid m) (cm_msg_id m) (cm_content m) (cm_send_time m) (cm_msg_type m)"
  have n: "?n = JObj [(''error'', JInt 0), (''from_uid'', JInt (cm_from_uid m)), (''to_uid'', JInt (cm_to_uid m)),
      (''msg_id'', JStr (cm_msg_id m)), (''content'', JStr (cm_content m)), (''send_time'', JInt (cm_send_time m)),
      (''msg_type'', JInt (cm_msg_type m))]"
    by (simp add: text_notification_def)
  obtain v where v: "q_fromJson (env_qt E) (toStyledString J ?n) = Some v" "json_same v ?n"
    using Q(2) unfolding qt_reads_def n by blast
  note mem = json_same_members [OF v(2) [unfolded n] Q(1)]
  note i = json_same_leaf(1) [OF Q(1) mem(2)] and x = json_same_leaf(2) [OF Q(1) mem(2)]
  have e: "q_contains (env_qt E) v ''error''" "q_toInt (env_qt E) (q_value (env_qt E) v ''error'') = 0"
    by (simp_all add: mem(1) i INT_MIN_def INT_MAX_def)
  have "notified_text (env_qt E) v = client_text m"
    using m by (simp add: notified_text_def client_text_def client_readable_def message_in_range_def i x)
  from NotifyText_run [OF v(1) e this s] obtain t where t: "NotifyTextChatMsgReq E (toStyledString J ?n) s = (Val (), t)"
      "\<And>uid. friend_msgs (dlg_umgr t) uid = friend_msgs (dlg_umgr s) uid @ friend_texts uid [client_text m] (dlg_umgr s)"
      "\<And>uid. view_msgs (the_data uid (cpage (client t))) =
        view_msgs (the_data uid (cpage (client s))) @ (if uid = t_from_uid (client_text m) then [client_text m] else [])"
      "unread_counts t = (unread_counts s)(t_from_uid (client_text m) \<mapsto> unread_of s (t_from_uid (client_text m)) + 1)"
    by metis
  have u: "unread_of t (cm_from_uid m) = unread_of s (cm_from_uid m) + 1" using t(4) by (simp add: unread_of_def client_text_def)
  have f: "friend_texts uid [client_text m] (dlg_umgr s) =
      (if CheckFriendById uid (dlg_umgr s) \<and> uid = cm_from_uid m then [client_text m] else [])" for uid
    by (auto simp: friend_texts_def client_text_def)
  show ?thesis using t(1-3) u f by (auto simp: client_text_def)
qed

theorem notification_stored_witness:
  "\<exists>t. NotifyTextChatMsgReq dialog_demo_env (toStyledString ref_json (text_notification 2 1 ''m1'' ''hi'' 1700000000 1))
        (new_ChatDialog \<lparr>umgr = demo_client, cpage = new_ChatPage\<rparr>) = (Val (), t) \<and>
     map t_msg_content (friend_msgs (dlg_umgr t) 2) = [''hi''] \<and> unread_of t 2 = 1"
proof -
  let ?s = "new_ChatDialog \<lparr>umgr = demo_client, cpage = new_ChatPage\<rparr>" and ?m = "demo_texts ! 1"
  have s: "dlg_umgr ?s = demo_client" "unread_of ?s 2 = 0" by (simp_all add: new_ChatDialog_def dlg_umgr_def unread_of_def)
  have m: "client_readable ?m" "cm_status ?m = 0" "cm_from_uid ?m = 2" "cm_to_uid ?m = 1" "cm_msg_id ?m = ''m1''" "cm_content ?m = ''hi''"
      "cm_send_time ?m = 1700000000" "cm_msg_type ?m = 1"
    by (simp_all add: demo_texts_def client_readable_def message_in_range_def INT_MIN_def INT_MAX_def)
  have Q: "qt_documented (env_qt dialog_demo_env)" "qt_reads (env_qt dialog_demo_env) ref_json"
    by (simp_all add: dialog_demo_env_def ref_qt_documented ref_qt_reads)
  obtain u where "user_info demo_client = Some u" using demo_client_user by blast
  then have "user_info (dlg_umgr ?s) \<noteq> None" by (simp add: s)
  from notification_stored [OF Q _ this m(1,2), unfolded m(3-8) s(1)] show ?thesis
    using demo_client_wf by (auto simp: s(2) demo_client_friends client_text_def m simp del: One_nat_def)
qed

section \<open>From the login form to the chat server\<close>

lemma login_reply_members:
  "login_reply username uid reply = JObj [(''error'', JInt 0), (''username'', JStr username), (''uid'', JInt uid),
     (''token'', JStr (gcs_token reply)), (''host'', JStr (gcs_host reply)), (''port'', JInt (gcs_port reply))]"
  by (simp add: login_reply_def)

text \<open>
  C8. From the login form to the chat server: when name and password are filled in and the database has
  the hash of the password, one click sends one request; the gate server's answer to it, read back by
  the HTTP manager, makes the client connect to the chat server that the status server named, at the
  named port taken modulo 65536, the range of \<open>uint16_t\<close>; and
  what the client then sends there is read by the chat server as the uid of the row and the
  token that the status server handed out.
\<close>

theorem login_form_reaches_chat_server:
  fixes G :: "('r, 'm, 'r StatusServiceImpl, 'v) gate_env"
  assumes Q: "qt_documented (login_qt L)" "qt_reads (login_qt L) J" "json_documented J" "qt_prints L J"
    and form: "lineE_user_name f = username" "username \<noteq> []" "no_nul username" "lineE_pwd f = pw" "pw \<noteq> []"
    and gate: "gate_json G = J" "mysql_pool (gate_mysql s) = \<lparr>connections = conn # conns, is_stop = False\<rparr>"
      "drv_query (gate_mysql_lib G) (sql_connection conn) ''SELECT * FROM user WHERE username = ?'' [PString username]
        (mysql_server (gate_mysql s)) = (Some (row # rows), db)"
    and row: "getString row ''password'' = Some (sha256_hex L pw)" "getString row ''email'' = Some email" "getInt row ''uid'' = Some uid"
      "INT_MIN \<le> uid" "uid \<le> INT_MAX"
    and status: "gate_status_rpc G = direct_rpc redis peer now unique" "client_up (gate_status s)"
      "GetChatServer redis unique uid (status_peer (gate_status s)) = (Val reply, st)" "gcs_error reply = 0"
      "INT_MIN \<le> gcs_port reply" "gcs_port reply \<le> INT_MAX"
  shows "\<exists>f1 post t con' out f2 port f3 request v. login L f = (Val (), f1) \<and> http_posts f1 = http_posts f @ [post] \<and>
    userLoginCallback G (s, con\<lparr>req_body := post_data post\<rparr>) = (Val (), (t, con')) \<and> rsp_body con' = rsp_body con @ out \<and>
    http_finished L (login_modules (login_qt L)) post (Some out) f1 = (Val (), f2) \<and>
    tcp_connects f2 = tcp_connects f @ [(gcs_host reply, port)] \<and> uint port = gcs_port reply mod 65536 \<and>
    slot_tcp_con_finish L True [] f2 = (Val (), f3) \<and> tcp_sent f3 = tcp_sent f @ [(1006, request)] \<and>
    jparse J request = (True, v) \<and> field_int J v ''uid'' = Some uid \<and> field_str J v ''token'' = Some (gcs_token reply)"
proof -
  let ?req = "JObj [(''username'', JStr username), (''password'', JStr (sha256_hex L pw))]"
  let ?con = "con\<lparr>req_body := q_toJson L ?req\<rparr>" and ?Q = "login_qt L" and ?out = "toStyledString J (login_reply username uid reply)"
  define s1 where "s1 = s\<lparr>gate_mysql := queried conn conns db (gate_mysql s)\<rparr>"
  define con1 where "con1 = set_field ''Content-Type'' ''text/json'' ?con"
  have "filled f" using form by (simp add: filled_def)
  then obtain f1 where f1: "login L f = (Val (), f1)" "http_posts f1 = http_posts f @ [login_post L f]"
      "tcp_connects f1 = tcp_connects f" "tcp_sent f1 = tcp_sent f"
    using login_decides [of L f] by auto
  have post: "post_data (login_post L f) = q_toJson L ?req" "post_mod (login_post L f) = LOGIN_MOD" "post_id (login_post L f) = ID_LOGIN_USER"
    using form by (simp_all add: login_post_def login_request_def)
  obtain root where root: "jparse J (q_toJson L ?req) = (True, root)" "json_same root ?req" using Q(4) by (auto simp: qt_prints_def)
  have fields: "field_str J root ''username'' = Some username" "field_str J root ''password'' = Some (sha256_hex L pw)"
    using json_same_fields(1) [OF root(2) Q(3)] by simp_all
  have "userLoginCallback G (s, ?con) =
    (if row # rows = [] then (Val (), (s1, append_body (toStyledString J (error_reply_msg UserNotExist no_user_text)) con1))
     else if sha256_hex L pw \<noteq> sha256_hex L pw then (Val (), (s1, append_body (toStyledString J (error_reply_msg PasswdInvalid wrong_password_text)) con1))
     else hand_over G username uid (s1, con1))"
    by (rule userLogin_run [OF gate(1) _ _ fields gate(2,3), where email = email]) (use row root(1) in \<open>simp_all add: s1_def con1_def\<close>)
  moreover obtain t where "hand_over G username uid (s1, con1) = (Val (), (t, append_body ?out con1))"
    by (rule hand_over_direct [OF status(1), of s1 uid reply st username con1]) (use status gate(1) in \<open>simp_all add: s1_def\<close>)
  ultimately have answered: "userLoginCallback G (s, ?con) = (Val (), (t, append_body ?out con1))" by simp
  obtain w where w: "q_fromJson ?Q ?out = Some w" "json_same w (login_reply username uid reply)"
    using Q(2) unfolding qt_reads_def login_reply_members by blast
  note mem = json_same_members(2) [OF w(2) [unfolded login_reply_members] Q(1)]
  note leaf = json_same_leaf(1) [OF Q(1) mem] json_same_leaf(2) [OF Q(1) mem]
  have "q_contains ?Q w ''error''" using json_same_members(1) [OF w(2) [unfolded login_reply_members] Q(1)] by simp
  moreover obtain kvs where "w = JObj kvs" using w(2) unfolding login_reply_members by (rule json_same_JObjE) auto
  ultimately have k: "w = JObj kvs" "kvs \<noteq> []" using Q(1) by (auto simp: qt_documented_def)
  obtain f2 f3 where f2: "http_finished L (login_modules ?Q) (login_post L f) (Some ?out) f1 = (Val (), f2)"
      "tcp_connects f2 = tcp_connects f1 @ [(gcs_host reply, word_of_int (gcs_port reply))]" "slot_tcp_con_finish L True [] f2 = (Val (), f3)"
      "tcp_sent f3 = tcp_sent f1 @ [(1006, q_toJson L (JObj [(''uid'', JInt uid), (''token'', JStr (gcs_token reply))]))]"
  proof -
    have "\<exists>t u. http_finished L (login_modules ?Q) (login_post L f) (Some ?out) f1 = (Val (), t) \<and> btn_login_on t \<and>
      tcp_connects t = tcp_connects f1 @ [(gcs_host reply, word_of_int (gcs_port reply))] \<and> slot_tcp_con_finish L True [] t = (Val (), u) \<and>
      tcp_sent u = tcp_sent f1 @ [(1006, q_toJson L (JObj [(''uid'', JInt uid), (''token'', JStr (gcs_token reply))]))]"
      by (rule login_answered [where kvs = kvs])
        (use w(1) k Q(4) leaf row(4,5) status(5,6) in \<open>simp_all add: post qt_prints_def INT_MIN_def INT_MAX_def\<close>)
    then show thesis using that by blast
  qed
  obtain v where v: "jparse J (q_toJson L (JObj [(''uid'', JInt uid), (''token'', JStr (gcs_token reply))])) = (True, v)"
      "json_same v (JObj [(''uid'', JInt uid), (''token'', JStr (gcs_token reply))])"
    using Q(4) by (auto simp: qt_prints_def)
  have port: "uint (word_of_int (gcs_port reply) :: 16 word) = gcs_port reply mod 65536" by (simp add: uint_word_of_int)
  have body: "rsp_body (append_body ?out con1) = rsp_body con @ ?out" by (simp add: append_body_def con1_def set_field_def)
  show ?thesis
  proof (intro exI conjI)
    show "login L f = (Val (), f1)" "http_posts f1 = http_posts f @ [login_post L f]" by (rule f1)+
    show "userLoginCallback G (s, con\<lparr>req_body := post_data (login_post L f)\<rparr>) = (Val (), (t, append_body ?out con1))"
      by (simp add: post(1) answered)
    show "http_finished L (login_modules ?Q) (login_post L f) (Some ?out) f1 = (Val (), f2)" by (rule f2(1))
    show "slot_tcp_con_finish L True [] f2 = (Val (), f3)" by (rule f2(3))
    show "jparse J (q_toJson L (JObj [(''uid'', JInt uid), (''token'', JStr (gcs_token reply))])) = (True, v)" by (rule v(1))
  qed (use body f1(3,4) f2(2,4) json_same_fields [OF v(2) Q(3)] row(4,5) port in simp_all)
qed

definition form_demo :: LoginGUI where
  "form_demo = new_LoginGUI\<lparr>lineE_user_name := ''ann'', lineE_pwd := ''pw''\<rparr>"

definition form_gate :: "(keyspace, unit, keyspace StatusServiceImpl, unit) gate_env" where
  "form_gate = (demo_gate_env JNull [\<lparr>getString = [''password'' \<mapsto> ''hpw'', ''email'' \<mapsto> ''a@b''], getInt = [''uid'' \<mapsto> 7]\<rparr>])\<lparr>gate_json := ref_json\<rparr>"

theorem login_form_reaches_chat_server_witness:
  "\<exists>f1 post t con' out f2 host port f3 request. login login_demo_env form_demo = (Val (), f1) \<and> http_posts f1 = [post] \<and>
    userLoginCallback form_gate (demo_gate Map.empty, (demo_request ''/user_login'')\<lparr>req_body := post_data post\<rparr>) = (Val (), (t, con')) \<and>
    rsp_body con' = out \<and> http_finished login_demo_env (login_modules ref_qt) post (Some out) f1 = (Val (), f2) \<and>
    tcp_connects f2 = [(host, port)] \<and> uint port = 8091 \<and> slot_tcp_con_finish login_demo_env True [] f2 = (Val (), f3) \<and> tcp_sent f3 = [(1006, request)]"
proof -
  let ?st = "status_peer (gate_status (demo_gate Map.empty))"
  have g: "case fst (GetChatServer ref_redis ''tok'' 7 ?st) of Val r \<Rightarrow> gcs_error r = 0 \<and> gcs_port r = 8091 | _ \<Rightarrow> False" by code_simp
  then obtain reply where reply: "fst (GetChatServer ref_redis ''tok'' 7 ?st) = Val reply" "gcs_error reply = 0" "gcs_port reply = 8091"
    by (auto split: result.splits)
  then obtain st where st: "GetChatServer ref_redis ''tok'' 7 ?st = (Val reply, st)" by (metis prod.collapse)
  have p: "qt_prints login_demo_env ref_json"
    by (auto simp: qt_prints_def login_demo_env_def ref_json_def intro: json_same.same_value)
  have f: "lineE_user_name form_demo = ''ann''" "lineE_pwd form_demo = ''pw''" "http_posts form_demo = []" "tcp_connects form_demo = []"
      "tcp_sent form_demo = []" by (simp_all add: form_demo_def new_LoginGUI_def)
  have e: "login_qt login_demo_env = ref_qt" by (simp add: login_demo_env_def)
  have "\<exists>f1 post t con' out f2 port f3 request v. login login_demo_env form_demo = (Val (), f1) \<and> http_posts f1 = http_posts form_demo @ [post] \<and>
    userLoginCallback form_gate (demo_gate Map.empty, (demo_request ''/user_login'')\<lparr>req_body := post_data post\<rparr>) = (Val (), (t, con')) \<and>
    rsp_body con' = rsp_body (demo_request ''/user_login'') @ out \<and>
    http_finished login_demo_env (login_modules (login_qt login_demo_env)) post (Some out) f1 = (Val (), f2) \<and>
    tcp_connects f2 = tcp_connects form_demo @ [(gcs_host reply, port)] \<and> uint port = gcs_port reply mod 65536 \<and>
    slot_tcp_con_finish login_demo_env True [] f2 = (Val (), f3) \<and> tcp_sent f3 = tcp_sent form_demo @ [(1006, request)] \<and>
    jparse ref_json request = (True, v) \<and> field_int ref_json v ''uid'' = Some 7 \<and> field_str ref_json v ''token'' = Some (gcs_token reply)"
    by (rule login_form_reaches_chat_server [where email = "''a@b''" and rows = "[]" and st = st and
        row = "\<lparr>getString = [''password'' \<mapsto> ''hpw'', ''email'' \<mapsto> ''a@b''], getInt = [''uid'' \<mapsto> 7]\<rparr>" and redis = ref_redis and
        unique = "''tok''", OF _ _ ref_json_documented p f(1) _ _ f(2)])
      (use st reply ref_qt_documented ref_qt_reads in \<open>simp_all add: e form_gate_def demo_gate_env_def demo_gate_def table_driver_def login_demo_env_def
        client_up_def INT_MIN_def INT_MAX_def\<close>)
  then show ?thesis unfolding f e reply(3) by (auto simp: demo_request_def new_HttpConnection_def)
qed

end
